(* ===== verification/Prelude.thy ===== *)
theory Prelude
  imports Complex_Main "HOL-Library.Char_ord"
begin

text \<open>
  Shared vocabulary of the development: the exceptions a service raises, results of code that
  may throw, database tables as lists of rows with the queries the services issue, and the
  generic facts about them that the component theories use.
\<close>

section \<open>Fact collections\<close>

named_theorems dec_simps \<open>unfolding of the decimal operations\<close>
named_theorems guard_simps \<open>unfolding of the role and gate checks of the services\<close>

section \<open>Exceptions and results\<close>

text \<open>
  The HTTP exceptions of the framework, by the class the source throws; the parameter says which
  of a component's messages it carries. \<open>Crash\<close> is any other thrown error (a plain
  \<open>Error\<close>, a failed \<open>...OrThrow\<close> query, a property read of \<open>undefined\<close>).
\<close>

datatype 'm exn =
    BadRequest 'm
  | Forbidden 'm
  | NotFound 'm
  | Conflict 'm
  | Unauthorized 'm
  | Crash 'm

type_synonym ('e, 'a) result = "'e + 'a"

text \<open>Sequencing of computations that may throw.\<close>

definition and_then :: "('e, 'a) result \<Rightarrow> ('a \<Rightarrow> ('e, 'b) result) \<Rightarrow> ('e, 'b) result" where
  "and_then r f = (case r of Inl e \<Rightarrow> Inl e | Inr a \<Rightarrow> f a)"

lemma and_then_simps [simp]:
  "and_then (Inl e) f = Inl e"
  "and_then (Inr a) f = f a"
  by (simp_all add: and_then_def)

lemma and_then_Inr_iff:
  "and_then r f = Inr b \<longleftrightarrow> (\<exists>a. r = Inr a \<and> f a = Inr b)"
  by (auto simp: and_then_def split: sum.splits)

lemma and_then_Inl_iff:
  "and_then r f = Inl e \<longleftrightarrow> r = Inl e \<or> (\<exists>a. r = Inr a \<and> f a = Inl e)"
  by (auto simp: and_then_def split: sum.splits)

text \<open>\<open>Array.map\<close> with a callback that may throw: left to right, the first throw wins.\<close>

fun map_res :: "('a \<Rightarrow> ('e, 'b) result) \<Rightarrow> 'a list \<Rightarrow> ('e, 'b list) result" where
  "map_res f [] = Inr []"
| "map_res f (x # xs) = and_then (f x) (\<lambda>y. and_then (map_res f xs) (\<lambda>ys. Inr (y # ys)))"

lemma map_res_Inr:
  "map_res f xs = Inr ys \<longleftrightarrow> list_all2 (\<lambda>x y. f x = Inr y) xs ys"
proof (induction xs arbitrary: ys)
  case Nil
  then show ?case by auto
next
  case (Cons x xs)
  then show ?case
    by (cases ys) (auto simp: and_then_Inr_iff)
qed

lemma map_res_length: "map_res f xs = Inr ys \<Longrightarrow> length ys = length xs"
  by (auto simp: map_res_Inr dest: list_all2_lengthD)

text \<open>\<open>for (const x of xs) { ... }\<close> over a state, with a body that may throw.\<close>

fun fold_res :: "('a \<Rightarrow> 's \<Rightarrow> ('e, 's) result) \<Rightarrow> 'a list \<Rightarrow> 's \<Rightarrow> ('e, 's) result" where
  "fold_res f [] s = Inr s"
| "fold_res f (x # xs) s = and_then (f x s) (fold_res f xs)"

lemma fold_res_invariant:
  assumes "fold_res f xs s = Inr s'" and "I s"
    and "\<And>x s s'. x \<in> set xs \<Longrightarrow> I s \<Longrightarrow> f x s = Inr s' \<Longrightarrow> I s'"
  shows "I s'"
  using assms
proof (induction xs arbitrary: s)
  case Nil
  then show ?case by simp
next
  case (Cons x xs)
  then obtain t where t: "f x s = Inr t" "fold_res f xs t = Inr s'"
    by (auto simp: and_then_Inr_iff)
  with Cons.prems(2,3) have "I t" by auto
  with t(2) Cons show ?case by auto
qed

section \<open>Tables\<close>

text \<open>
  A table is the list of its rows, in insertion order. The queries are those of the services:
  find the first row a condition selects, update the rows it selects, append new rows.
\<close>

type_synonym 'r table = "'r list"

definition find_row :: "('r \<Rightarrow> bool) \<Rightarrow> 'r table \<Rightarrow> 'r option" where
  "find_row p t = List.find p t"

definition update_rows :: "('r \<Rightarrow> bool) \<Rightarrow> ('r \<Rightarrow> 'r) \<Rightarrow> 'r table \<Rightarrow> 'r table" where
  "update_rows p f t = map (\<lambda>r. if p r then f r else r) t"

text \<open>\<open>upsert\<close> on a unique key: update the row that has it, or append a new one.\<close>

definition upsert_row :: "('r \<Rightarrow> bool) \<Rightarrow> ('r \<Rightarrow> 'r) \<Rightarrow> 'r \<Rightarrow> 'r table \<Rightarrow> 'r table" where
  "upsert_row p f new t = (if find_row p t = None then t @ [new] else update_rows p f t)"

lemma find_row_None [simp]: "find_row p t = None \<longleftrightarrow> (\<forall>r \<in> set t. \<not> p r)"
  by (auto simp: find_row_def find_None_iff)

lemma find_row_SomeD: "find_row p t = Some r \<Longrightarrow> r \<in> set t \<and> p r"
  by (auto simp: find_row_def find_Some_iff)

lemma find_row_Some_key:
  assumes "find_row (\<lambda>r. k r = x) t = Some r" shows "k r = x"
  using find_row_SomeD [OF assms] by simp

lemma find_row_simps [simp]:
  "find_row p [] = None"
  "find_row p (r # t) = (if p r then Some r else find_row p t)"
  by (simp_all add: find_row_def)

lemma find_row_append:
  "find_row p (t @ u) = (case find_row p t of Some r \<Rightarrow> Some r | None \<Rightarrow> find_row p u)"
  by (induction t) (simp_all del: find_row_None)

lemma update_rows_simps [simp]:
  "update_rows p f [] = []"
  "update_rows p f (r # t) = (if p r then f r else r) # update_rows p f t"
  by (simp_all add: update_rows_def)

lemma update_rows_append [simp]: "update_rows p f (t @ u) = update_rows p f t @ update_rows p f u"
  by (simp add: update_rows_def)

lemma length_update_rows [simp]: "length (update_rows p f t) = length t"
  by (simp add: update_rows_def)

lemma map_update_rows:
  "(\<And>r. p r \<Longrightarrow> g (f r) = g r) \<Longrightarrow> map g (update_rows p f t) = map g t"
  by (auto simp: update_rows_def)

lemma update_rows_none: "find_row p t = None \<Longrightarrow> update_rows p f t = t"
  by (auto simp: update_rows_def intro: map_idI)

lemma in_set_update_rows:
  "r \<in> set (update_rows p f t) \<longleftrightarrow> (\<exists>q \<in> set t. r = (if p q then f q else q))"
  by (auto simp: update_rows_def)

lemma find_row_update_same:
  assumes "\<And>r. p r \<Longrightarrow> p (f r)"
  shows "find_row p (update_rows p f t) = map_option f (find_row p t)"
  by (induction t) (simp_all add: assms del: find_row_None)

lemma find_row_update_other:
  assumes "\<And>r. p r \<Longrightarrow> \<not> q r" and "\<And>r. p r \<Longrightarrow> \<not> q (f r)"
  shows "find_row q (update_rows p f t) = find_row q t"
  using assms by (induction t) (simp_all del: find_row_None)

lemma filter_update_rows_disjoint:
  assumes "\<And>r. p r \<Longrightarrow> \<not> q r" and "\<And>r. p r \<Longrightarrow> \<not> q (f r)"
  shows "filter q (update_rows p f t) = filter q t"
  using assms by (induction t) auto

text \<open>A unique index: no two rows share a key.\<close>

definition unique_key :: "('r \<Rightarrow> 'k) \<Rightarrow> 'r table \<Rightarrow> bool" where
  "unique_key k t \<longleftrightarrow> distinct (map k t)"

lemma unique_key_update:
  "(\<And>r. p r \<Longrightarrow> k (f r) = k r) \<Longrightarrow> unique_key k (update_rows p f t) = unique_key k t"
  by (simp add: unique_key_def map_update_rows)

lemma unique_key_append1:
  "unique_key k (t @ [r]) \<longleftrightarrow> unique_key k t \<and> (\<forall>q \<in> set t. k q \<noteq> k r)"
  by (auto simp: unique_key_def image_iff)

lemma unique_key_eq: "unique_key k t \<Longrightarrow> x \<in> set t \<Longrightarrow> y \<in> set t \<Longrightarrow> k x = k y \<Longrightarrow> x = y"
  by (auto simp: unique_key_def distinct_map inj_on_def)

lemma find_row_unique:
  assumes "unique_key k t" and "r \<in> set t"
  shows "find_row (\<lambda>q. k q = k r) t = Some r"
  using assms by (induction t) (auto simp: unique_key_def)

end
