(* ===== verification/Decimal.thy ===== *)
theory Decimal
  imports Prelude
begin

text \<open>
  Numbers. Money and rates are \<open>Prisma.Decimal\<close> values (decimal.js, a library that is not part of
  the repository); durations and leave days are JavaScript numbers (IEEE doubles). A finite value
  of either kind is a rational number here, and every arithmetic operation is the exact one
  followed by the rounding its kind makes.

  The decimal library is a parameter: a record with the rounding of an arithmetic result to the
  configured number of significant digits, and \<open>toDecimalPlaces\<close> in the mode
  \<open>ROUND_HALF_UP\<close>. The locale \<open>decimal_arith\<close> states what the library documents about
  both (20 significant digits, nearest, ties away from zero); \<open>decimal_js\<close> is a concrete
  instance. Doubles are the language's own, so \<open>js_fl\<close> is defined outright: the nearest number
  with 53 significant bits, ties to even (the exponent range is not bounded here).
\<close>

section \<open>Rounding to an integer\<close>

locale rounding_mode =
  fixes rnd :: "rat \<Rightarrow> int"
  assumes rnd_mono: "x \<le> y \<Longrightarrow> rnd x \<le> rnd y"
    and rnd_int [simp]: "rnd (of_int k) = k"
    and rnd_near: "\<bar>of_int (rnd x) - x\<bar> \<le> 1 / 2"
begin

lemma rnd_ge: "of_int k \<le> x \<Longrightarrow> k \<le> rnd x"
  using rnd_mono [of "of_int k" x] by simp

lemma rnd_le: "x \<le> of_int k \<Longrightarrow> rnd x \<le> k"
  using rnd_mono [of x "of_int k"] by simp

end

definition half_up_int :: "rat \<Rightarrow> int" where
  "half_up_int x = \<lfloor>x + 1 / 2\<rfloor>"

definition half_even_int :: "rat \<Rightarrow> int" where
  "half_even_int x =
     (let m = \<lfloor>x + 1 / 2\<rfloor> in if of_int m = x + 1 / 2 \<and> odd m then m - 1 else m)"

interpretation half_up: rounding_mode half_up_int
proof
  show "half_up_int x \<le> half_up_int y" if "x \<le> y" for x y
    using that by (simp add: half_up_int_def floor_mono)
  show "half_up_int (of_int k) = k" for k
    by (simp add: half_up_int_def floor_eq_iff)
  show "\<bar>of_int (half_up_int x) - x\<bar> \<le> 1 / 2" for x
    unfolding half_up_int_def abs_le_iff using floor_correct [of "x + 1 / 2"] by linarith
qed

interpretation half_even: rounding_mode half_even_int
proof
  show "half_even_int x \<le> half_even_int y" if le: "x \<le> y" for x y
  proof -
    let ?m = "\<lfloor>x + 1 / 2\<rfloor>" and ?n = "\<lfloor>y + 1 / 2\<rfloor>"
    have mn: "?m \<le> ?n" using le by (simp add: floor_mono)
    show ?thesis
    proof (cases "?m = ?n")
      case True
      have "x = y" if "of_int ?n = y + 1 / 2"
        using that True le floor_correct [of "x + 1 / 2"] by linarith
      with True show ?thesis by (auto simp: half_even_int_def Let_def)
    next
      case False
      with mn show ?thesis by (auto simp: half_even_int_def Let_def)
    qed
  qed
  show "half_even_int (of_int k) = k" for k
  proof -
    have "\<lfloor>of_int k + 1 / 2 :: rat\<rfloor> = k" by (simp add: floor_eq_iff)
    then show ?thesis by (simp add: half_even_int_def)
  qed
  show "\<bar>of_int (half_even_int x) - x\<bar> \<le> 1 / 2" for x
  proof -
    let ?m = "\<lfloor>x + 1 / 2\<rfloor>"
    have m: "of_int ?m \<le> x + 1 / 2" "x + 1 / 2 < of_int ?m + 1"
      using floor_correct [of "x + 1 / 2"] by auto
    show ?thesis
    proof (cases "of_int ?m = x + 1 / 2 \<and> odd ?m")
      case True
      then have "half_even_int x = ?m - 1" by (simp only: half_even_int_def Let_def if_True simp_thms)
      then have "of_int (half_even_int x) - x = of_int ?m - 1 - x" by (simp only: of_int_diff of_int_1)
      also have "\<dots> = - (1 / 2)" using True by linarith
      finally show ?thesis by simp
    next
      case False
      then have "half_even_int x = ?m" by (simp only: half_even_int_def Let_def if_False)
      moreover have "\<bar>of_int ?m - x\<bar> \<le> 1 / 2" unfolding abs_le_iff using m by linarith
      ultimately show ?thesis by (simp only:)
    qed
  qed
qed

section \<open>Rounding to significant digits\<close>

text \<open>\<open>ilog b n\<close> is the exponent of the leading digit of \<open>n\<close> in base \<open>b\<close>.\<close>

function ilog :: "int \<Rightarrow> int \<Rightarrow> nat" where
  "ilog b n = (if b \<le> 1 \<or> n < b then 0 else Suc (ilog b (n div b)))"
  by pat_completeness auto
termination
proof (relation "measure (nat \<circ> snd)")
  fix b n :: int
  assume "\<not> (b \<le> 1 \<or> n < b)"
  then have "n div b < n" by (intro int_div_less_self) auto
  then show "((b, n div b), b, n) \<in> measure (nat \<circ> snd)"
    using \<open>\<not> (b \<le> 1 \<or> n < b)\<close> by simp
qed simp

declare ilog.simps [simp del]

definition rat_exp :: "nat \<Rightarrow> rat \<Rightarrow> int" where
  "rat_exp b x =
     (case quotient_of x of (p, q) \<Rightarrow>
        let e = int (ilog (int b) \<bar>p\<bar>) - int (ilog (int b) q)
        in if of_nat b powi e \<le> \<bar>x\<bar> then e else e - 1)"

definition sig_digits :: "nat \<Rightarrow> nat \<Rightarrow> (rat \<Rightarrow> int) \<Rightarrow> rat \<Rightarrow> rat" where
  "sig_digits b p rnd x =
     (if x = 0 then 0
      else let s = of_nat b powi (int p - 1 - rat_exp b x)
           in sgn x * of_int (rnd (\<bar>x\<bar> * s)) / s)"

lemma ilog_bounds:
  assumes "2 \<le> b" and "0 < n"
  shows "b ^ ilog b n \<le> n \<and> n < b ^ Suc (ilog b n)"
  using assms
proof (induction b n rule: ilog.induct)
  case (1 b n)
  show ?case
  proof (cases "n < b")
    case True
    with 1 show ?thesis by (simp add: ilog.simps)
  next
    case False
    then have pos: "0 < n div b" using "1.prems" by (simp add: pos_imp_zdiv_pos_iff)
    let ?k = "ilog b (n div b)"
    have IH: "b ^ ?k \<le> n div b" "n div b < b ^ Suc ?k"
      using "1.IH" "1.prems" False pos by auto
    have eq: "n = b * (n div b) + n mod b" "0 \<le> n mod b" "n mod b < b"
      using "1.prems" by auto
    have lo: "b * b ^ ?k \<le> n"
      using mult_left_mono [OF IH(1), of b] "1.prems" eq by linarith
    have "b * (n div b + 1) \<le> b * b ^ Suc ?k"
      using IH(2) "1.prems" by (intro mult_left_mono) auto
    moreover have "n < b * (n div b + 1)" using eq unfolding distrib_left by linarith
    ultimately have hi: "n < b * b ^ Suc ?k" by linarith
    from lo hi False "1.prems" show ?thesis by (simp add: ilog.simps [of b n])
  qed
qed

lemma rat_exp_bounds:
  assumes b: "2 \<le> b" and x: "x \<noteq> 0"
  shows "of_nat b powi rat_exp b x \<le> \<bar>x\<bar> \<and> \<bar>x\<bar> < of_nat b powi (rat_exp b x + 1)"
proof -
  obtain p q where pq: "quotient_of x = (p, q)" by (cases "quotient_of x")
  have q: "0 < q" and xpq: "x = of_int p / of_int q"
    using pq by (auto intro: quotient_of_denom_pos quotient_of_div)
  with x have p: "p \<noteq> 0" by auto
  define P where "P = \<bar>p\<bar>"
  define i j where "i = ilog (int b) P" and "j = ilog (int b) q"
  have PQ: "0 < P" "0 < q" using p q by (auto simp: P_def)
  have ax: "\<bar>x\<bar> = of_int P / of_int q"
    using q by (simp add: xpq P_def abs_divide)
  have b0: "(0::rat) < of_nat b" using b by simp
  have b2: "2 \<le> int b" using b by simp
  have Pb: "(of_nat b :: rat) ^ i \<le> of_int P" "of_int P < (of_nat b :: rat) ^ Suc i"
    using ilog_bounds [OF b2 PQ(1)] unfolding i_def
    by (metis of_int_le_iff of_int_of_nat_eq of_int_power,
        metis of_int_less_iff of_int_of_nat_eq of_int_power)
  have Qb: "(of_nat b :: rat) ^ j \<le> of_int q" "of_int q < (of_nat b :: rat) ^ Suc j"
    using ilog_bounds [OF b2 PQ(2)] unfolding j_def
    by (metis of_int_le_iff of_int_of_nat_eq of_int_power,
        metis of_int_less_iff of_int_of_nat_eq of_int_power)
  let ?e = "int i - int j"
  have pw: "(of_nat b :: rat) powi ?e = of_nat b ^ i / of_nat b ^ j"
    using b0 by (simp add: power_int_diff)
  have lo: "(of_nat b :: rat) powi (?e - 1) \<le> \<bar>x\<bar>"
  proof -
    have "(of_nat b :: rat) powi (?e - 1) = of_nat b ^ i / of_nat b ^ Suc j"
      using b0 by (simp add: power_int_diff pw)
    also have "\<dots> \<le> of_int P / of_int q"
      using Pb Qb b0 PQ by (intro frac_le) auto
    finally show ?thesis by (simp add: ax)
  qed
  have hi: "\<bar>x\<bar> < (of_nat b :: rat) powi (?e + 1)"
  proof -
    have "\<bar>x\<bar> < of_nat b ^ Suc i / of_nat b ^ j"
      unfolding ax using Pb Qb b0 PQ by (intro frac_less) auto
    also have "\<dots> = (of_nat b :: rat) powi (?e + 1)"
      using b0 by (simp add: power_int_add pw)
    finally show ?thesis .
  qed
  have e: "rat_exp b x = (if of_nat b powi ?e \<le> \<bar>x\<bar> then ?e else ?e - 1)"
    by (simp add: rat_exp_def pq Let_def i_def j_def P_def)
  show ?thesis using lo hi by (simp add: e)
qed

lemma rat_exp_neg: "rat_exp b (- x) = rat_exp b x"
proof -
  obtain p q where "quotient_of x = (p, q)" by (cases "quotient_of x")
  then show ?thesis by (simp add: rat_exp_def rat_uminus_code)
qed

lemma rat_exp_mono:
  assumes b: "2 \<le> b" and x: "0 < x" and xy: "x \<le> y"
  shows "rat_exp b x \<le> rat_exp b y"
proof (rule ccontr)
  assume "\<not> ?thesis"
  then have "(of_nat b :: rat) powi (rat_exp b y + 1) \<le> of_nat b powi rat_exp b x"
    using b by (intro power_int_increasing) auto
  with rat_exp_bounds [OF b, of x] rat_exp_bounds [OF b, of y] x xy show False by auto
qed

lemma sig_digits_0 [simp]: "sig_digits b p rnd 0 = 0"
  by (simp add: sig_digits_def)

lemma sig_digits_neg: "sig_digits b p rnd (- x) = - sig_digits b p rnd x"
  by (simp add: sig_digits_def rat_exp_neg Let_def)

text \<open>The scale that brings the leading digit of \<open>x\<close> to position \<open>p\<close>.\<close>

definition sig_scale :: "nat \<Rightarrow> nat \<Rightarrow> rat \<Rightarrow> rat" where
  "sig_scale b p x = of_nat b powi (int p - 1 - rat_exp b x)"

lemma sig_scale_pos: "2 \<le> b \<Longrightarrow> 0 < sig_scale b p x"
  by (simp add: sig_scale_def)

lemma sig_digits_pos_eq:
  "0 < x \<Longrightarrow> sig_digits b p rnd x = of_int (rnd (x * sig_scale b p x)) / sig_scale b p x"
  by (simp add: sig_digits_def sig_scale_def Let_def)

lemma sig_scaled_bounds:
  assumes b: "2 \<le> b" and p: "0 < p" and x: "0 < x"
  shows "of_nat b ^ (p - 1) \<le> x * sig_scale b p x \<and> x * sig_scale b p x < of_nat b ^ p"
proof -
  let ?e = "rat_exp b x" and ?B = "of_nat b :: rat"
  have B: "0 < ?B" using b by simp
  have e: "?B powi ?e \<le> x" "x < ?B powi (?e + 1)"
    using rat_exp_bounds [OF b, of x] x by auto
  have s: "0 < sig_scale b p x" using b by (rule sig_scale_pos)
  have "?B powi ?e * sig_scale b p x = ?B powi (int p - 1)"
    using B by (simp add: sig_scale_def flip: power_int_add)
  also have "\<dots> = ?B ^ (p - 1)"
    using p by (metis One_nat_def int_ops(2) of_nat_diff power_int_of_nat Suc_leI)
  finally have 1: "?B ^ (p - 1) \<le> x * sig_scale b p x"
    using mult_right_mono [OF e(1), of "sig_scale b p x"] s by simp
  have "?B powi (?e + 1) * sig_scale b p x = ?B powi int p"
    using B by (simp add: sig_scale_def flip: power_int_add)
  then have 2: "x * sig_scale b p x < ?B ^ p"
    using mult_strict_right_mono [OF e(2) s] by simp
  show ?thesis using 1 2 by simp
qed

context rounding_mode
begin

lemma sig_digits_between:
  assumes b: "2 \<le> b" and p: "0 < p" and x: "0 < x"
  shows "of_nat b powi rat_exp b x \<le> sig_digits b p rnd x
    \<and> sig_digits b p rnd x \<le> of_nat b powi (rat_exp b x + 1)"
proof -
  let ?e = "rat_exp b x" and ?B = "of_nat b :: rat" and ?s = "sig_scale b p x"
  have B: "0 < ?B" using b by simp
  have s: "0 < ?s" using b by (rule sig_scale_pos)
  have bd: "?B ^ (p - 1) \<le> x * ?s" "x * ?s < ?B ^ p" using sig_scaled_bounds [OF b p x] by auto
  have lo: "int b ^ (p - 1) \<le> rnd (x * ?s)" by (rule rnd_ge) (use bd in simp)
  have hi: "rnd (x * ?s) \<le> int b ^ p" by (rule rnd_le) (use bd in simp)
  have lo': "?B ^ (p - 1) \<le> of_int (rnd (x * ?s))" using lo by (metis of_int_le_iff of_int_of_nat_eq of_int_power)
  have hi': "of_int (rnd (x * ?s)) \<le> ?B ^ p" using hi by (metis of_int_le_iff of_int_of_nat_eq of_int_power)
  have "?B powi ?e = ?B powi (int p - 1) / ?s"
    using B by (simp add: sig_scale_def flip: power_int_diff)
  also have "?B powi (int p - 1) = ?B ^ (p - 1)"
    using p by (metis One_nat_def int_ops(2) of_nat_diff power_int_of_nat Suc_leI)
  finally have 1: "?B powi ?e \<le> sig_digits b p rnd x"
    using divide_right_mono [OF lo', of ?s] s x by (simp add: sig_digits_pos_eq)
  have "?B powi (?e + 1) = ?B ^ p / ?s"
    using B by (simp add: sig_scale_def add.commute flip: power_int_diff power_int_of_nat)
  then have 2: "sig_digits b p rnd x \<le> ?B powi (?e + 1)"
    using divide_right_mono [OF hi', of ?s] s x by (simp add: sig_digits_pos_eq)
  show ?thesis using 1 2 by simp
qed

lemma sig_digits_mono_pos:
  assumes b: "2 \<le> b" and p: "0 < p" and x: "0 < x" and xy: "x \<le> y"
  shows "sig_digits b p rnd x \<le> sig_digits b p rnd y"
proof (cases "rat_exp b x = rat_exp b y")
  case True
  then have s: "sig_scale b p x = sig_scale b p y" by (simp add: sig_scale_def)
  have pos: "0 < sig_scale b p y" using b by (rule sig_scale_pos)
  with xy have "rnd (x * sig_scale b p y) \<le> rnd (y * sig_scale b p y)"
    by (intro rnd_mono) (simp add: mult_right_mono)
  with pos x xy show ?thesis by (simp add: sig_digits_pos_eq s divide_right_mono)
next
  case False
  with rat_exp_mono [OF b x xy] have "rat_exp b x + 1 \<le> rat_exp b y" by simp
  then have "(of_nat b :: rat) powi (rat_exp b x + 1) \<le> of_nat b powi rat_exp b y"
    using b by (intro power_int_increasing) auto
  with sig_digits_between [OF b p x] sig_digits_between [OF b p, of y] x xy show ?thesis by auto
qed

lemma sig_digits_nonneg: "2 \<le> b \<Longrightarrow> 0 < p \<Longrightarrow> 0 \<le> x \<Longrightarrow> 0 \<le> sig_digits b p rnd x"
  using sig_digits_between [of b p x] by (cases "x = 0") (auto intro: order_trans [rotated])

lemma sig_digits_mono:
  assumes b: "2 \<le> b" and p: "0 < p" and xy: "x \<le> y"
  shows "sig_digits b p rnd x \<le> sig_digits b p rnd y"
proof -
  consider "0 < x" | "x \<le> 0" "0 \<le> y" | "y < 0" by linarith
  then show ?thesis
  proof cases
    case 1
    then show ?thesis using b p xy by (intro sig_digits_mono_pos)
  next
    case 2
    have "0 \<le> sig_digits b p rnd (- x)" "0 \<le> sig_digits b p rnd y"
      using 2 b p by (auto intro: sig_digits_nonneg)
    then show ?thesis by (simp add: sig_digits_neg)
  next
    case 3
    have "sig_digits b p rnd (- y) \<le> sig_digits b p rnd (- x)"
      using 3 b p xy by (intro sig_digits_mono_pos) auto
    then show ?thesis by (simp add: sig_digits_neg)
  qed
qed

text \<open>Numbers with at most \<open>p\<close> digits are unchanged, and the error is at most half a unit in the last place.\<close>

lemma sig_digits_exact_pos:
  assumes b: "2 \<le> b" and p: "0 < p" and k: "0 < k" "k \<le> int b ^ p"
  shows "sig_digits b p rnd (of_int k / of_nat b ^ n) = of_int k / of_nat b ^ n"
proof -
  let ?B = "of_nat b :: rat"
  define x where "x = of_int k / ?B ^ n"
  have B: "1 < ?B" using b by simp
  have x: "0 < x" using k B by (simp add: x_def)
  let ?e = "rat_exp b x"
  have kB: "of_int k \<le> ?B ^ p" using k(2) by (metis of_int_le_iff of_int_of_nat_eq of_int_power)
  have "?B powi ?e \<le> x" using rat_exp_bounds [OF b, of x] x by auto
  also have "x \<le> ?B ^ p / ?B ^ n" unfolding x_def using kB B by (simp add: divide_right_mono)
  also have "\<dots> = ?B powi (int p - int n)" using B by (simp add: power_int_diff)
  finally have en: "?e \<le> int p - int n"
    using B by (meson not_le power_int_strict_increasing leD)
  have xs: "x * sig_scale b p x = of_int k * ?B powi (int p - 1 - ?e - int n)"
    using B by (simp add: x_def sig_scale_def power_int_diff)
  have "\<exists>m::int. x * sig_scale b p x = of_int m"
  proof (cases "?e + int n \<le> int p - 1")
    case True
    then have "?B powi (int p - 1 - ?e - int n) = of_int (int b ^ nat (int p - 1 - ?e - int n))"
      by (simp add: power_int_def)
    then show ?thesis unfolding xs by (metis of_int_mult)
  next
    case False
    with en have e: "?e = int p - int n" by simp
    have "?B ^ p / ?B ^ n \<le> x"
      using rat_exp_bounds [OF b, of x] x B by (simp add: e power_int_diff)
    then have "?B ^ p \<le> of_int k" using B by (simp add: x_def divide_le_cancel)
    with kB have "of_int k = ?B ^ p" by simp
    then have "x * sig_scale b p x = ?B ^ p * ?B powi (- 1)" by (simp add: xs e)
    also have "\<dots> = of_int (int b ^ (p - 1))"
      using p B by (cases p) (simp_all add: power_int_minus)
    finally show ?thesis by blast
  qed
  then obtain m where m: "x * sig_scale b p x = of_int m" ..
  have "sig_digits b p rnd x = of_int m / sig_scale b p x"
    using x by (simp add: sig_digits_pos_eq m)
  also have "\<dots> = x" using sig_scale_pos [OF b, of p x] by (simp flip: m)
  finally show ?thesis by (simp add: x_def)
qed

lemma sig_digits_exact:
  assumes b: "2 \<le> b" and p: "0 < p" and k: "\<bar>k\<bar> \<le> int b ^ p"
  shows "sig_digits b p rnd (of_int k / of_nat b ^ n) = of_int k / of_nat b ^ n"
proof -
  consider "k = 0" | "0 < k" | "k < 0" by linarith
  then show ?thesis
  proof cases
    case 3
    have "sig_digits b p rnd (of_int (- k) / of_nat b ^ n) = of_int (- k) / of_nat b ^ n"
      by (rule sig_digits_exact_pos) (use 3 k b p in auto)
    then show ?thesis by (simp add: sig_digits_neg)
  qed (use k b p sig_digits_exact_pos in auto)
qed

text \<open>Rounding twice is rounding once.\<close>

lemma sig_digits_idem_pos:
  assumes b: "2 \<le> b" and p: "0 < p" and x: "0 < x"
  shows "sig_digits b p rnd (sig_digits b p rnd x) = sig_digits b p rnd x"
proof -
  let ?B = "of_nat b :: rat" and ?e = "rat_exp b x"
  define y where "y = sig_digits b p rnd x"
  have B: "1 < ?B" using b by simp
  have yb: "?B powi ?e \<le> y" "y \<le> ?B powi (?e + 1)"
    using sig_digits_between [OF b p x] by (auto simp: y_def)
  have "0 < ?B powi ?e" using B by simp
  with yb have y: "0 < y" by linarith
  have "?B powi ?e < ?B powi (rat_exp b y + 1)" "?B powi rat_exp b y \<le> ?B powi (?e + 1)"
    using rat_exp_bounds [OF b, of y] y yb by auto
  then have "?e < rat_exp b y + 1" "rat_exp b y \<le> ?e + 1"
    using B by (meson not_le power_int_increasing less_imp_le,
        meson not_le power_int_strict_increasing leD)
  then consider "rat_exp b y = ?e" | "rat_exp b y = ?e + 1" by linarith
  then have "\<exists>m::int. y * sig_scale b p y = of_int m"
  proof cases
    case 1
    then have "sig_scale b p y = sig_scale b p x" by (simp add: sig_scale_def)
    then show ?thesis using x sig_scale_pos [OF b, of p x] by (simp add: y_def sig_digits_pos_eq)
  next
    case 2
    then have "?B powi (?e + 1) \<le> y" using rat_exp_bounds [OF b, of y] y by auto
    with yb(2) have "y = ?B powi (?e + 1)" by simp
    moreover have "sig_scale b p y = ?B powi (int p - 1 - (?e + 1))" by (simp only: sig_scale_def 2)
    ultimately have "y * sig_scale b p y = ?B powi (?e + 1 + (int p - 1 - (?e + 1)))"
      using B by (subst power_int_add) auto
    also have "\<dots> = ?B powi (int p - 1)" by simp
    also have "\<dots> = of_int (int b ^ (p - 1))"
      using p by (cases p) simp_all
    finally show ?thesis by blast
  qed
  then obtain m where m: "y * sig_scale b p y = of_int m" ..
  have "sig_digits b p rnd y = of_int m / sig_scale b p y" using y by (simp add: sig_digits_pos_eq m)
  also have "\<dots> = y" using sig_scale_pos [OF b, of p y] by (simp flip: m)
  finally show ?thesis by (simp add: y_def)
qed

lemma sig_digits_idem:
  assumes b: "2 \<le> b" and p: "0 < p"
  shows "sig_digits b p rnd (sig_digits b p rnd x) = sig_digits b p rnd x"
proof -
  consider "x = 0" | "0 < x" | "x < 0" by linarith
  then show ?thesis
  proof cases
    case 3
    with sig_digits_idem_pos [OF b p, of "- x"] show ?thesis by (simp add: sig_digits_neg)
  qed (use b p sig_digits_idem_pos in auto)
qed

lemma sig_digits_err:
  assumes b: "2 \<le> b" and p: "0 < p"
  shows "\<bar>sig_digits b p rnd x - x\<bar> \<le> \<bar>x\<bar> / (2 * of_nat b ^ (p - 1))"
proof -
  have pos: "\<bar>sig_digits b p rnd x - x\<bar> \<le> x / (2 * of_nat b ^ (p - 1))" if x: "0 < x" for x
  proof -
    let ?s = "sig_scale b p x" and ?B = "of_nat b ^ (p - 1) :: rat"
    have s: "0 < ?s" using b by (rule sig_scale_pos)
    have B: "0 < ?B" using b by simp
    have "sig_digits b p rnd x - x = (of_int (rnd (x * ?s)) - x * ?s) / ?s"
      using s x by (simp add: sig_digits_pos_eq diff_divide_distrib)
    then have "\<bar>sig_digits b p rnd x - x\<bar> = \<bar>of_int (rnd (x * ?s)) - x * ?s\<bar> / ?s"
      using s by (simp add: abs_divide)
    also have "\<dots> \<le> (1 / 2) / ?s"
      using rnd_near s by (intro divide_right_mono) auto
    also have "\<dots> \<le> x / (2 * ?B)"
      using sig_scaled_bounds [OF b p x] s B by (simp add: field_simps)
    finally show ?thesis .
  qed
  consider "x = 0" | "0 < x" | "x < 0" by linarith
  then show ?thesis
  proof cases
    case 3
    with pos [of "- x"] show ?thesis by (simp add: sig_digits_neg abs_minus_commute)
  qed (use pos in auto)
qed

end

section \<open>Contracts\<close>

text \<open>What the arithmetic of a floating format with \<open>prec\<close> digits in base \<open>base\<close> promises.\<close>

locale float_arith =
  fixes fl :: "rat \<Rightarrow> rat" and base prec :: nat
  assumes base: "2 \<le> base" and prec: "0 < prec"
    and fl_mono: "x \<le> y \<Longrightarrow> fl x \<le> fl y"
    and fl_neg: "fl (- x) = - fl x"
    and fl_idem: "fl (fl x) = fl x"
    and fl_exact: "\<bar>k\<bar> \<le> int base ^ prec \<Longrightarrow>
      fl (of_int k / of_nat base ^ n) = of_int k / of_nat base ^ n"
    and fl_err: "\<bar>fl x - x\<bar> \<le> \<bar>x\<bar> / (2 * of_nat base ^ (prec - 1))"
begin

lemma fl_int: "\<bar>k\<bar> \<le> int base ^ prec \<Longrightarrow> fl (of_int k) = of_int k"
  using fl_exact [of k 0] by simp

lemma fl_0 [simp]: "fl 0 = 0"
  using fl_int [of 0] by simp

lemma fl_1 [simp]: "fl 1 = 1"
  using fl_int [of 1] base by simp

lemma fl_nonneg: "0 \<le> x \<Longrightarrow> 0 \<le> fl x"
  using fl_mono [of 0 x] by simp

lemma fl_le_1: "x \<le> 1 \<Longrightarrow> fl x \<le> 1"
  using fl_mono [of x 1] by simp

end

context rounding_mode
begin

lemma float_arith_sig_digits:
  assumes "2 \<le> b" and "0 < p"
  shows "float_arith (sig_digits b p rnd) b p"
  using assms
  by unfold_locales
    (assumption | rule sig_digits_mono sig_digits_neg sig_digits_idem sig_digits_exact sig_digits_err)+

end

locale places_rounding =
  fixes dp :: "nat \<Rightarrow> rat \<Rightarrow> rat"
  assumes dp_grid: "\<exists>k::int. dp n x = of_int k / 10 ^ n"
    and dp_near: "\<bar>dp n x - x\<bar> \<le> 1 / (2 * 10 ^ n)"
    and dp_mono: "x \<le> y \<Longrightarrow> dp n x \<le> dp n y"
    and dp_tie: "0 \<le> k \<Longrightarrow> dp n ((of_int k + 1 / 2) / 10 ^ n) = of_int (k + 1) / 10 ^ n"
begin

lemma dp_exact [simp]: "dp n (of_int k / 10 ^ n) = of_int k / 10 ^ n"
proof -
  obtain j where j: "dp n (of_int k / 10 ^ n) = of_int j / 10 ^ n" using dp_grid by blast
  have "\<bar>of_int j / 10 ^ n - of_int k / 10 ^ n :: rat\<bar> \<le> 1 / (2 * 10 ^ n)"
    using dp_near [of n "of_int k / 10 ^ n"] by (simp add: j)
  then have "\<bar>of_int (j - k) :: rat\<bar> \<le> 1 / 2"
    by (simp add: abs_divide field_simps flip: diff_divide_distrib)
  then have "j = k" by linarith
  then show ?thesis by (simp add: j)
qed

lemma dp_0 [simp]: "dp n 0 = 0"
  using dp_exact [of n 0] by simp

lemma dp_nonneg: "0 \<le> x \<Longrightarrow> 0 \<le> dp n x"
  using dp_mono [of 0 x n] by simp

end

section \<open>The decimal library\<close>

type_synonym decimal = rat

text \<open>Decimal numerals \<open>\d+(\.\d+)?\<close> and their value, which the constructor takes unrounded.\<close>

definition is_digit :: "char \<Rightarrow> bool" where
  "is_digit c \<longleftrightarrow> 48 \<le> (of_char c :: nat) \<and> (of_char c :: nat) \<le> 57"

definition digits_value :: "string \<Rightarrow> int" where
  "digits_value ds = foldl (\<lambda>n c. 10 * n + (of_char c - 48)) 0 ds"

definition numeral_value :: "string \<Rightarrow> rat" where
  "numeral_value s =
     (let w = takeWhile is_digit s; f = drop (Suc (length w)) s
      in of_int (digits_value w) + of_int (digits_value f) / 10 ^ length f)"

definition is_numeral :: "string \<Rightarrow> bool" where
  "is_numeral s \<longleftrightarrow>
     (let w = takeWhile is_digit s; r = dropWhile is_digit s
      in w \<noteq> [] \<and> (r = [] \<or> (hd r = CHR ''.'' \<and> tl r \<noteq> [] \<and> list_all is_digit (tl r))))"

record decimal_lib =
  sig_round :: "rat \<Rightarrow> rat"
  places :: "nat \<Rightarrow> rat \<Rightarrow> rat"
  of_text :: "string \<Rightarrow> rat"

locale decimal_arith =
  float_arith "sig_round L" 10 20 + places_rounding "places L" for L :: decimal_lib +
  assumes of_text_numeral: "is_numeral s \<Longrightarrow> of_text L s = numeral_value s"

text \<open>\<open>plus\<close>, \<open>minus\<close>, \<open>times\<close>, \<open>div\<close> (by a divisor the caller knows to be non-zero).\<close>

definition dplus :: "decimal_lib \<Rightarrow> decimal \<Rightarrow> decimal \<Rightarrow> decimal" where
  [dec_simps]: "dplus L a b = sig_round L (a + b)"

definition dminus :: "decimal_lib \<Rightarrow> decimal \<Rightarrow> decimal \<Rightarrow> decimal" where
  [dec_simps]: "dminus L a b = sig_round L (a - b)"

definition dtimes :: "decimal_lib \<Rightarrow> decimal \<Rightarrow> decimal \<Rightarrow> decimal" where
  [dec_simps]: "dtimes L a b = sig_round L (a * b)"

definition ddiv :: "decimal_lib \<Rightarrow> decimal \<Rightarrow> decimal \<Rightarrow> decimal" where
  [dec_simps]: "ddiv L a b = sig_round L (a / b)"

text \<open>The sum a \<open>reduce\<close> with \<open>plus\<close> computes.\<close>

definition dsum :: "decimal_lib \<Rightarrow> decimal list \<Rightarrow> decimal" where
  "dsum L xs = foldl (dplus L) 0 xs"

definition half_up_places :: "nat \<Rightarrow> rat \<Rightarrow> rat" where
  "half_up_places n x = sgn x * of_int (half_up_int (\<bar>x\<bar> * 10 ^ n)) / 10 ^ n"

definition decimal_js :: decimal_lib where
  "decimal_js = \<lparr>sig_round = sig_digits 10 20 half_up_int, places = half_up_places, of_text = numeral_value\<rparr>"

text \<open>JavaScript numbers.\<close>

type_synonym number = rat

definition js_fl :: "rat \<Rightarrow> rat" where
  "js_fl = sig_digits 2 53 half_even_int"

interpretation js: float_arith js_fl 2 53
  unfolding js_fl_def by (rule half_even.float_arith_sig_digits) simp_all

lemma half_up_places_neg: "half_up_places n (- x) = - half_up_places n x"
  by (simp add: half_up_places_def)

interpretation decjs: decimal_arith decimal_js
proof (intro decimal_arith.intro)
  show "float_arith (sig_round decimal_js) 10 20"
    unfolding decimal_js_def decimal_lib.simps by (rule half_up.float_arith_sig_digits) simp_all
next
  show "places_rounding (places decimal_js)"
  proof
  show "\<exists>k::int. places decimal_js n x = of_int k / 10 ^ n" for n x
    by (cases x "0::rat" rule: linorder_cases)
      (auto simp: decimal_js_def half_up_places_def intro: exI [of _ "- half_up_int (- x * 10 ^ n)"]
        exI [of _ 0])
  have near: "\<bar>half_up_places n x - x\<bar> \<le> 1 / (2 * 10 ^ n)" if "0 \<le> x" for n x
    using half_up.rnd_near [of "x * 10 ^ n"] that
    by (cases "x = 0") (simp_all add: half_up_places_def field_simps abs_le_iff)
  show "\<bar>places decimal_js n x - x\<bar> \<le> 1 / (2 * 10 ^ n)" for n x
    using near [of x n] near [of "- x" n]
    by (cases "0 \<le> x") (simp_all add: decimal_js_def half_up_places_neg abs_minus_commute)
  have pos: "half_up_places n x \<le> half_up_places n y" if "0 \<le> x" "x \<le> y" for n x y
    using that half_up.rnd_mono [of "x * 10 ^ n" "y * 10 ^ n"] half_up.rnd_ge [of 0 "y * 10 ^ n"]
    by (cases "x = 0") (auto simp: half_up_places_def divide_right_mono mult_right_mono sgn_if)
  have pos0: "0 \<le> half_up_places n x" if "0 \<le> x" for n x
    using pos [of 0 x n] that by (simp add: half_up_places_def)
  show "places decimal_js n x \<le> places decimal_js n y" if "x \<le> y" for n x y
    using that pos [of x y n] pos [of "- y" "- x" n] pos0 [of y n] pos0 [of "- x" n]
    by (cases "0 \<le> x"; cases "0 \<le> y") (auto simp: decimal_js_def half_up_places_neg)
  show "places decimal_js n ((of_int k + 1 / 2) / 10 ^ n) = of_int (k + 1) / 10 ^ n"
    if "0 \<le> k" for n k
  proof -
    have x: "0 < (of_int k + 1 / 2 :: rat) / 10 ^ n" using that by simp
    have "\<lfloor>of_int k + 1 / 2 + 1 / 2 :: rat\<rfloor> = k + 1" by (simp add: floor_eq_iff)
    moreover have "\<bar>of_int k + 1 / 2 :: rat\<bar> = of_int k + 1 / 2" using that by simp
    moreover have "of_int k + 1 / 2 \<noteq> (0::rat)" using x by auto
    ultimately show ?thesis
      using x by (simp add: decimal_js_def half_up_places_def half_up_int_def sgn_if)
  qed
  qed
next
  show "decimal_arith_axioms decimal_js"
    by unfold_locales (simp add: decimal_js_def)
qed

text \<open>Evaluation of whole amounts: at most 20 digits are exact.\<close>

lemma dec_exact_numeral:
  assumes "(numeral n :: int) \<le> 10 ^ 20"
  shows "sig_round decimal_js (numeral n) = numeral n"
  using decjs.fl_int [of "numeral n"] assms by simp

lemma dec_exact_neg_numeral:
  assumes "(numeral n :: int) \<le> 10 ^ 20"
  shows "sig_round decimal_js (- numeral n) = - numeral n"
  using decjs.fl_neg [of "numeral n"] dec_exact_numeral [OF assms] by simp

lemmas dec_eval = dec_simps dec_exact_numeral dec_exact_neg_numeral

end
