(* ===== verification/Numbers.thy ===== *)
theory Numbers
  imports Decimal
begin

text \<open>
  JavaScript numbers against decimals: the conversions both ways, and the rounding helpers of the
  leave module (\<open>roundHalf\<close>, \<open>wholeDays\<close>, \<open>round2\<close> of
  \<open>apps/api/src/leave/leave-entitlement.ts\<close>). Leave days are doubles that stand for hundredths;
  the lemmas show that within a billion hundredths the rounding recovers the exact integer count
  after every addition or subtraction, so the services may be read in whole hundredths.
\<close>

section \<open>Conversions\<close>

text \<open>
  \<open>new Decimal(n)\<close> of a JavaScript number reads its decimal text, the shortest that denotes the
  same double; \<open>toNumber\<close> is the nearest double.
\<close>

definition of_number :: "number \<Rightarrow> decimal" where
  "of_number x =
     (case List.find (\<lambda>n. js_fl (sig_digits 10 n half_up_int x) = x) [1..<18] of
        None \<Rightarrow> x | Some n \<Rightarrow> sig_digits 10 n half_up_int x)"

definition to_number :: "decimal \<Rightarrow> number" where
  "to_number d = js_fl d"

section \<open>Rounding\<close>

text \<open>\<open>Math.round\<close> is the nearest integer, halves towards positive infinity.\<close>

definition round_half :: "number \<Rightarrow> number" where
  "round_half n = of_int (half_up_int (js_fl (n * 2))) / 2"

definition whole_days :: "number \<Rightarrow> number" where
  "whole_days n = of_int (half_up_int n)"

definition round2 :: "number \<Rightarrow> number" where
  "round2 n = js_fl (of_int (half_up_int (js_fl (n * 100))) / 100)"

section \<open>Hundredths\<close>

text \<open>The double that stands for \<open>k\<close> hundredths, and the column value it is stored as.\<close>

definition cents :: "int \<Rightarrow> number" where
  "cents k = js_fl (of_int k / 100)"

definition days_col :: "number \<Rightarrow> decimal" where
  "days_col x = half_up_places 2 (of_number x)"

lemma js_err: "\<bar>js_fl x - x\<bar> \<le> \<bar>x\<bar> / 10 ^ 15"
proof -
  have "\<bar>js_fl x - x\<bar> \<le> \<bar>x\<bar> / (2 * 2 ^ 52)" using js.fl_err [of x] by simp
  also have "\<dots> \<le> \<bar>x\<bar> / 10 ^ 15" by (rule divide_left_mono) simp_all
  finally show ?thesis .
qed

lemma half_up_int_near:
  fixes x :: rat
  assumes "\<bar>x - of_int k\<bar> < 1 / 2"
  shows "half_up_int x = k"
  using assms unfolding half_up_int_def floor_eq_iff by linarith

lemma cents_0 [simp]: "cents 0 = 0"
  by (simp add: cents_def)

lemma cents_mono: "j \<le> k \<Longrightarrow> cents j \<le> cents k"
  by (simp add: cents_def js.fl_mono divide_right_mono)

lemma min_cents: "min (cents j) (cents k) = cents (min j k)"
  using cents_mono [of j k] cents_mono [of k j] by (cases j k rule: le_cases) (auto simp: min_def)

lemma cents_near: "\<bar>k\<bar> \<le> 10 ^ 9 \<Longrightarrow> \<bar>cents k - of_int k / 100\<bar> \<le> 1 / 10 ^ 8"
proof -
  assume k: "\<bar>k\<bar> \<le> 10 ^ 9"
  then have "of_int \<bar>k\<bar> \<le> (of_int (10 ^ 9) :: rat)" by (rule of_int_le_iff [THEN iffD2])
  with js_err [of "of_int k / 100"] show ?thesis by (simp add: cents_def abs_divide)
qed

lemma cents_pos: "0 < cents k \<longleftrightarrow> 0 < k"
proof
  show "0 < cents k" if "0 < k"
    using cents_mono [of 1 k] cents_near [of 1] that unfolding abs_le_iff by simp
  show "0 < k" if "0 < cents k" using that cents_mono [of k 0] by (force simp: not_le [symmetric])
qed

lemma cents_le_0: "cents k \<le> 0 \<longleftrightarrow> k \<le> 0"
  using cents_pos [of k] by (simp add: not_less [symmetric])

lemma of_int_cents: "\<bar>n\<bar> \<le> 10 ^ 9 \<Longrightarrow> of_int n = cents (100 * n)"
  using js.fl_int [of n] by (simp add: cents_def)

text \<open>Being about \<open>k\<close> hundredths: far nearer than half a hundredth.\<close>

definition about :: "number \<Rightarrow> int \<Rightarrow> bool" where
  "about x k \<longleftrightarrow> \<bar>x - of_int k / 100\<bar> \<le> 1 / 1000"

lemma about_cents: "\<bar>k\<bar> \<le> 10 ^ 9 \<Longrightarrow> about (cents k) k"
  unfolding about_def by (rule order_trans [OF cents_near]) simp_all

lemma about_bound: "about x k \<Longrightarrow> \<bar>k\<bar> \<le> 10 ^ 9 \<Longrightarrow> \<bar>x\<bar> \<le> 10 ^ 7 + 1"
proof -
  assume x: "about x k" and k: "\<bar>k\<bar> \<le> 10 ^ 9"
  from k have "of_int \<bar>k\<bar> \<le> (of_int (10 ^ 9) :: rat)" by (rule of_int_le_iff [THEN iffD2])
  then have "\<bar>of_int k :: rat\<bar> \<le> 10 ^ 9" by simp
  with x show ?thesis unfolding about_def abs_le_iff by simp
qed

lemma round2_about:
  assumes x: "about x k" and k: "\<bar>k\<bar> \<le> 10 ^ 9"
  shows "round2 x = cents k"
proof -
  have "\<bar>js_fl (x * 100) - x * 100\<bar> \<le> \<bar>x * 100\<bar> / 10 ^ 15" by (rule js_err)
  also have "\<dots> \<le> 1 / 1000" using about_bound [OF x k] by (simp add: abs_mult)
  finally have "\<bar>js_fl (x * 100) - x * 100\<bar> \<le> 1 / 1000" .
  with x have "\<bar>js_fl (x * 100) - of_int k\<bar> < 1 / 2"
    unfolding about_def abs_le_iff abs_less_iff by (simp add: field_simps)
  then show ?thesis by (simp add: round2_def cents_def half_up_int_near)
qed

lemma round2_cents: "round2 x = cents (half_up_int (js_fl (x * 100)))"
  by (simp add: round2_def cents_def)

text \<open>One addition or subtraction of numbers near hundredths stays near the exact result.\<close>

definition close_to :: "number \<Rightarrow> int \<Rightarrow> bool" where
  "close_to x k \<longleftrightarrow> \<bar>x - of_int k / 100\<bar> \<le> 1 / 10 ^ 4"

lemma close_about: "close_to x k \<Longrightarrow> about x k"
  unfolding close_to_def about_def by (erule order_trans) simp

lemma close_cents: "\<bar>k\<bar> \<le> 10 ^ 9 \<Longrightarrow> close_to (cents k) k"
  unfolding close_to_def by (rule order_trans [OF cents_near]) simp_all

lemma about_diff:
  assumes x: "close_to x j" and y: "close_to y k" and j: "\<bar>j\<bar> \<le> 10 ^ 9" and k: "\<bar>k\<bar> \<le> 10 ^ 9"
  shows "about (js_fl (x - y)) (j - k)"
proof -
  have b: "\<bar>x - y\<bar> \<le> 10 ^ 8"
    using about_bound [OF close_about [OF x] j] about_bound [OF close_about [OF y] k]
    by (simp add: abs_le_iff)
  have "\<bar>js_fl (x - y) - (x - y)\<bar> \<le> \<bar>x - y\<bar> / 10 ^ 15" by (rule js_err)
  also have "\<dots> \<le> 1 / 10 ^ 5" using b by simp
  finally show ?thesis
    using x y unfolding close_to_def about_def abs_le_iff by (simp add: field_simps)
qed

lemma round2_diff:
  assumes "\<bar>j\<bar> \<le> 10 ^ 8" and "\<bar>k\<bar> \<le> 10 ^ 8"
  shows "round2 (js_fl (cents j - cents k)) = cents (j - k)"
proof (rule round2_about)
  have "\<bar>j\<bar> \<le> 10 ^ 9" "\<bar>k\<bar> \<le> 10 ^ 9" using assms by simp_all
  then show "about (js_fl (cents j - cents k)) (j - k)" by (intro about_diff close_cents)
  show "\<bar>j - k\<bar> \<le> 10 ^ 9" using assms by (simp add: abs_le_iff)
qed

lemma round2_sum:
  assumes "\<bar>j\<bar> \<le> 10 ^ 8" and "\<bar>k\<bar> \<le> 10 ^ 8"
  shows "round2 (js_fl (cents j + cents k)) = cents (j + k)"
proof -
  have "cents (- k) = - cents k" by (simp add: cents_def js.fl_neg)
  with round2_diff [of j "- k"] assms show ?thesis by simp
qed

text \<open>A hundredths double is stored as that many hundredths exactly.\<close>

lemma of_number_cases:
  obtains "of_number x = x" | "js_fl (of_number x) = x"
proof (cases "List.find (\<lambda>n. js_fl (sig_digits 10 n half_up_int x) = x) [1..<18]")
  case None
  then show ?thesis using that(1) by (simp add: of_number_def)
next
  case (Some n)
  then have "js_fl (sig_digits 10 n half_up_int x) = x" by (auto simp: find_Some_iff)
  then show ?thesis using that(2) Some by (simp add: of_number_def)
qed

lemma of_number_near: "\<bar>x\<bar> \<le> 10 ^ 8 \<Longrightarrow> \<bar>of_number x - x\<bar> \<le> 1 / 10 ^ 6"
proof (cases x rule: of_number_cases)
  assume x: "\<bar>x\<bar> \<le> 10 ^ 8"
  case 2
  let ?y = "of_number x"
  have e: "\<bar>x - ?y\<bar> \<le> \<bar>?y\<bar> / 10 ^ 15" using js_err [of ?y] 2 by simp
  have "\<bar>?y\<bar> \<le> \<bar>x\<bar> + \<bar>x - ?y\<bar>" by linarith
  with e x have "\<bar>?y\<bar> \<le> 2 * 10 ^ 8" by simp
  with e show ?thesis by (simp add: abs_minus_commute)
qed simp

lemma half_up_places_near:
  assumes "\<bar>x - of_int k / 100\<bar> \<le> 1 / 1000"
  shows "half_up_places 2 x = of_int k / 100"
proof -
  have key: "half_up_places 2 y = of_int j / 100" if "\<bar>y - of_int j / 100\<bar> \<le> 1 / 1000" "0 \<le> y" for y j
  proof -
    have "\<bar>\<bar>y\<bar> * 10 ^ 2 - of_int j\<bar> < 1 / 2"
      using that unfolding abs_le_iff abs_less_iff by (simp add: field_simps)
    then have "half_up_int (\<bar>y\<bar> * 10 ^ 2) = j" by (rule half_up_int_near)
    moreover have "y = 0 \<Longrightarrow> j = 0"
    proof -
      assume "y = 0"
      with that have "\<bar>of_int j :: rat\<bar> < 1" by (simp add: abs_le_iff abs_less_iff)
      then show "j = 0" by simp
    qed
    ultimately show ?thesis using that(2) by (cases "y = 0") (simp_all add: half_up_places_def)
  qed
  show ?thesis
  proof (cases "0 \<le> x")
    case True
    from key [OF assms True] show ?thesis .
  next
    case False
    with key [of "- x" "- k"] assms show ?thesis
      by (simp add: half_up_places_neg abs_minus_commute abs_le_iff)
  qed
qed

lemma days_col_cents: "\<bar>k\<bar> \<le> 10 ^ 9 \<Longrightarrow> days_col (cents k) = of_int k / 100"
proof -
  assume k: "\<bar>k\<bar> \<le> 10 ^ 9"
  have "\<bar>cents k\<bar> \<le> 10 ^ 8" using about_bound [OF about_cents [OF k] k] by simp
  from of_number_near [OF this] cents_near [OF k]
  show ?thesis unfolding days_col_def
    by (intro half_up_places_near) (unfold abs_le_iff, simp)
qed

end
