(* ===== verification/Formula.thy ===== *)
theory Formula
  imports Decimal
begin

text \<open>
  \<open>apps/api/src/payroll/formula.evaluator.ts\<close>: the restricted arithmetic language of salary
  formulas. The tokenizer, the recursive-descent parser and the evaluator are functions that
  return the thrown \<open>FormulaError\<close> as a value. The parser recurses over \<open>tokens[pos..]\<close>,
  so it is given the remaining tokens and returns what is left; its recursion is bounded by a
  fuel argument, and \<open>parse_tokens_fuel\<close> shows that the fuel \<open>parse_formula\<close> gives is
  always enough.
\<close>

datatype binop = Add | Sub | Mul | Div

datatype node = Num decimal | Ref string | Neg node | Bin binop node node

datatype opsym = Plus | Minus | Star | Slash | LPar | RPar

datatype token = TNum string | TRef string | TOp opsym

datatype formula_error =
    TooLong
  | InvalidNumber nat
  | UnexpectedChar char nat
  | EmptyFormula
  | TooDeep
  | EndsUnexpectedly
  | MissingParen
  | UnexpectedToken token
  | UnknownReference string
  | DivisionByZero
  | FuelExhausted \<comment> \<open>of the model only, never returned by \<open>parse_formula\<close>\<close>

definition MAX_LENGTH :: nat where "MAX_LENGTH = 200"
definition MAX_DEPTH :: nat where "MAX_DEPTH = 20"

section \<open>Tokenizer\<close>

definition is_upper :: "char \<Rightarrow> bool" where
  "is_upper c \<longleftrightarrow> 65 \<le> (of_char c :: nat) \<and> (of_char c :: nat) \<le> 90"

definition is_name_char :: "char \<Rightarrow> bool" where
  "is_name_char c \<longleftrightarrow> is_upper c \<or> is_digit c \<or> c = CHR ''_''"

text \<open>The match of \<open>/^\d+(\.\d+)?/\<close> and the rest of the input, if there is one.\<close>

definition match_number :: "string \<Rightarrow> (string \<times> string) option" where
  "match_number s =
     (let w = takeWhile is_digit s; r = dropWhile is_digit s
      in if w = [] then None
         else if r \<noteq> [] \<and> hd r = CHR ''.'' \<and> tl r \<noteq> [] \<and> is_digit (hd (tl r))
           then Some (w @ CHR ''.'' # takeWhile is_digit (tl r), dropWhile is_digit (tl r))
           else Some (w, r))"

definition op_of_char :: "char \<Rightarrow> opsym option" where
  "op_of_char c =
     (if c = CHR ''+'' then Some Plus else if c = CHR ''-'' then Some Minus
      else if c = CHR ''*'' then Some Star else if c = CHR ''/'' then Some Slash
      else if c = CHR ''('' then Some LPar else if c = CHR '')'' then Some RPar else None)"

lemma match_number_shorter: "match_number s = Some (m, r) \<Longrightarrow> length r < length s"
proof -
  assume m: "match_number s = Some (m, r)"
  let ?w = "takeWhile is_digit s" and ?d = "dropWhile is_digit s"
  have len: "length s = length ?w + length ?d"
    by (metis length_append takeWhile_dropWhile_id)
  have "length (dropWhile is_digit (tl ?d)) \<le> length ?d"
    using length_dropWhile_le [of is_digit "tl ?d"] by simp
  moreover have "?w \<noteq> [] \<Longrightarrow> 0 < length ?w" by simp
  ultimately show "length r < length s"
    using m len by (auto simp: match_number_def Let_def simp del: length_greater_0_conv
      takeWhile_eq_Nil_iff split: if_splits)
qed

text \<open>\<open>tokenize i s\<close> is the loop at position \<open>i\<close> with \<open>s = input.slice(i)\<close>.\<close>

function tokenize :: "nat \<Rightarrow> string \<Rightarrow> (formula_error, token list) result" where
  "tokenize i [] = Inr []"
| "tokenize i (ch # s) =
     (if ch = CHR '' '' \<or> ch = CHR 0x09 then tokenize (Suc i) s
      else if is_digit ch \<or> ch = CHR ''.'' then
        (case match_number (ch # s) of
           None \<Rightarrow> Inl (InvalidNumber (Suc i))
         | Some (m, r) \<Rightarrow> and_then (tokenize (i + length m) r) (\<lambda>ts. Inr (TNum m # ts)))
      else if is_upper ch then
        (let m = takeWhile is_name_char (ch # s); r = dropWhile is_name_char s
         in and_then (tokenize (i + length m) r) (\<lambda>ts. Inr (TRef m # ts)))
      else
        (case op_of_char ch of
           Some q \<Rightarrow> and_then (tokenize (Suc i) s) (\<lambda>ts. Inr (TOp q # ts))
         | None \<Rightarrow> Inl (UnexpectedChar ch (Suc i))))"
  by pat_completeness auto
termination
  by (relation "measure (length \<circ> snd)")
    (auto dest: match_number_shorter simp: less_Suc_eq_le length_dropWhile_le)

section \<open>Parser\<close>

type_synonym parsed = "(formula_error, node \<times> token list) result"

fun is_op :: "token list \<Rightarrow> opsym list \<Rightarrow> bool" where
  "is_op (TOp q # _) qs = (q \<in> set qs)"
| "is_op _ _ = False"

fun additive :: "token \<Rightarrow> binop" where
  "additive (TOp Minus) = Sub"
| "additive _ = Add"

fun multiplicative :: "token \<Rightarrow> binop" where
  "multiplicative (TOp Slash) = Div"
| "multiplicative _ = Mul"

function (sequential) parse_expr :: "decimal_lib \<Rightarrow> nat \<Rightarrow> nat \<Rightarrow> token list \<Rightarrow> parsed"
  and expr_loop :: "decimal_lib \<Rightarrow> nat \<Rightarrow> nat \<Rightarrow> node \<Rightarrow> token list \<Rightarrow> parsed"
  and parse_term :: "decimal_lib \<Rightarrow> nat \<Rightarrow> nat \<Rightarrow> token list \<Rightarrow> parsed"
  and term_loop :: "decimal_lib \<Rightarrow> nat \<Rightarrow> nat \<Rightarrow> node \<Rightarrow> token list \<Rightarrow> parsed"
  and parse_unary :: "decimal_lib \<Rightarrow> nat \<Rightarrow> nat \<Rightarrow> token list \<Rightarrow> parsed"
  and parse_primary :: "decimal_lib \<Rightarrow> nat \<Rightarrow> nat \<Rightarrow> token list \<Rightarrow> parsed"
where
  "parse_expr L 0 depth ts = Inl FuelExhausted"
| "parse_expr L (Suc n) depth ts =
     and_then (parse_term L n depth ts) (\<lambda>(left, r). expr_loop L n depth left r)"
| "expr_loop L 0 depth left ts = Inl FuelExhausted"
| "expr_loop L (Suc n) depth left ts =
     (if is_op ts [Plus, Minus] then
        and_then (parse_term L n depth (tl ts))
          (\<lambda>(right, r). expr_loop L n depth (Bin (additive (hd ts)) left right) r)
      else Inr (left, ts))"
| "parse_term L 0 depth ts = Inl FuelExhausted"
| "parse_term L (Suc n) depth ts =
     and_then (parse_unary L n depth ts) (\<lambda>(left, r). term_loop L n depth left r)"
| "term_loop L 0 depth left ts = Inl FuelExhausted"
| "term_loop L (Suc n) depth left ts =
     (if is_op ts [Star, Slash] then
        and_then (parse_unary L n depth (tl ts))
          (\<lambda>(right, r). term_loop L n depth (Bin (multiplicative (hd ts)) left right) r)
      else Inr (left, ts))"
| "parse_unary L 0 depth ts = Inl FuelExhausted"
| "parse_unary L (Suc n) depth ts =
     (if is_op ts [Minus] then
        and_then (parse_unary L n depth (tl ts)) (\<lambda>(e, r). Inr (Neg e, r))
      else if is_op ts [Plus] then parse_unary L n depth (tl ts)
      else parse_primary L n depth ts)"
| "parse_primary L 0 depth ts = Inl FuelExhausted"
| "parse_primary L (Suc n) depth ts =
     (if depth > MAX_DEPTH then Inl TooDeep
      else case ts of
        [] \<Rightarrow> Inl EndsUnexpectedly
      | TNum v # r \<Rightarrow> Inr (Num (of_text L v), r)
      | TRef v # r \<Rightarrow> Inr (Ref v, r)
      | TOp q # r \<Rightarrow>
          (if q = LPar then
             and_then (parse_expr L n (Suc depth) r)
               (\<lambda>(inner, r'). if is_op r' [RPar] then Inr (inner, tl r') else Inl MissingParen)
           else Inl (UnexpectedToken (TOp q))))"
  by pat_completeness auto
termination
  by (relation "measure (\<lambda>x. case x of
      Inl (Inl (_, n, _)) \<Rightarrow> n | Inl (Inr (Inl (_, n, _))) \<Rightarrow> n | Inl (Inr (Inr (_, n, _))) \<Rightarrow> n
    | Inr (Inl (_, n, _)) \<Rightarrow> n | Inr (Inr (Inl (_, n, _))) \<Rightarrow> n | Inr (Inr (Inr (_, n, _))) \<Rightarrow> n)")
    auto

definition parse_tokens :: "decimal_lib \<Rightarrow> token list \<Rightarrow> (formula_error, node) result" where
  "parse_tokens L ts =
     and_then (parse_expr L (6 * length ts + 4) 0 ts)
       (\<lambda>(ast, r). case r of [] \<Rightarrow> Inr ast | t # _ \<Rightarrow> Inl (UnexpectedToken t))"

definition parse_formula :: "decimal_lib \<Rightarrow> string \<Rightarrow> (formula_error, node) result" where
  "parse_formula L formula =
     (if length formula > MAX_LENGTH then Inl TooLong
      else and_then (tokenize 0 formula)
        (\<lambda>ts. if ts = [] then Inl EmptyFormula else parse_tokens L ts))"

section \<open>References and evaluation\<close>

text \<open>A \<open>Set\<close> of names, in insertion order.\<close>

definition add_name :: "string \<Rightarrow> string list \<Rightarrow> string list" where
  "add_name x xs = (if x \<in> set xs then xs else xs @ [x])"

fun walk_refs :: "node \<Rightarrow> string list \<Rightarrow> string list" where
  "walk_refs (Num v) names = names"
| "walk_refs (Ref x) names = add_name x names"
| "walk_refs (Neg e) names = walk_refs e names"
| "walk_refs (Bin q l r) names = walk_refs r (walk_refs l names)"

definition formula_references :: "decimal_lib \<Rightarrow> string \<Rightarrow> (formula_error, string list) result" where
  "formula_references L formula = and_then (parse_formula L formula) (\<lambda>e. Inr (walk_refs e []))"

fun eval_node :: "decimal_lib \<Rightarrow> (string \<rightharpoonup> decimal) \<Rightarrow> node \<Rightarrow> (formula_error, decimal) result" where
  "eval_node L vars (Num v) = Inr v"
| "eval_node L vars (Ref x) =
     (case vars x of None \<Rightarrow> Inl (UnknownReference x) | Some v \<Rightarrow> Inr v)"
| "eval_node L vars (Neg e) = and_then (eval_node L vars e) (\<lambda>v. Inr (- v))"
| "eval_node L vars (Bin q l r) =
     and_then (eval_node L vars l) (\<lambda>a. and_then (eval_node L vars r) (\<lambda>b.
       case q of
         Add \<Rightarrow> Inr (dplus L a b)
       | Sub \<Rightarrow> Inr (dminus L a b)
       | Mul \<Rightarrow> Inr (dtimes L a b)
       | Div \<Rightarrow> (if b = 0 then Inl DivisionByZero else Inr (ddiv L a b))))"

definition evaluate_formula ::
  "decimal_lib \<Rightarrow> string \<Rightarrow> (string \<rightharpoonup> decimal) \<Rightarrow> (formula_error, decimal) result" where
  "evaluate_formula L formula vars = and_then (parse_formula L formula) (eval_node L vars)"

section \<open>Every parsing function consumes tokens\<close>

lemma is_op_cases: "is_op ts qs \<Longrightarrow> \<exists>q r. ts = TOp q # r \<and> q \<in> set qs"
  by (cases "(ts, qs)" rule: is_op.cases) auto

lemma is_op_length: "is_op ts qs \<Longrightarrow> length (tl ts) < length ts"
  by (auto dest: is_op_cases)

lemma parse_consumes:
  "parse_expr L n d ts = Inr (e, r) \<Longrightarrow> length r < length ts"
  "expr_loop L n d x ts = Inr (e, r) \<Longrightarrow> length r \<le> length ts"
  "parse_term L n d ts = Inr (e, r) \<Longrightarrow> length r < length ts"
  "term_loop L n d x ts = Inr (e, r) \<Longrightarrow> length r \<le> length ts"
  "parse_unary L n d ts = Inr (e, r) \<Longrightarrow> length r < length ts"
  "parse_primary L n d ts = Inr (e, r) \<Longrightarrow> length r < length ts"
proof (induction L n d ts and L n d x ts and L n d ts and L n d x ts and L n d ts and L n d ts
    arbitrary: e r and e r and e r and e r and e r and e r
    rule: parse_expr_expr_loop_parse_term_term_loop_parse_unary_parse_primary.induct)
qed (force simp: and_then_Inr_iff split: if_splits list.splits token.splits prod.splits
      dest!: is_op_cases)+

text \<open>Fuel bounds: six units per remaining token, plus the rank of the function.\<close>

lemma parse_enough_fuel:
  "6 * length ts + 4 \<le> n \<Longrightarrow> parse_expr L n d ts \<noteq> Inl FuelExhausted"
  "6 * length ts + 4 \<le> n \<Longrightarrow> expr_loop L n d x ts \<noteq> Inl FuelExhausted"
  "6 * length ts + 3 \<le> n \<Longrightarrow> parse_term L n d ts \<noteq> Inl FuelExhausted"
  "6 * length ts + 3 \<le> n \<Longrightarrow> term_loop L n d x ts \<noteq> Inl FuelExhausted"
  "6 * length ts + 2 \<le> n \<Longrightarrow> parse_unary L n d ts \<noteq> Inl FuelExhausted"
  "6 * length ts + 1 \<le> n \<Longrightarrow> parse_primary L n d ts \<noteq> Inl FuelExhausted"
proof (induction L n d ts and L n d x ts and L n d ts and L n d x ts and L n d ts and L n d ts
    rule: parse_expr_expr_loop_parse_term_term_loop_parse_unary_parse_primary.induct)
  case (2 L n depth ts)
  then show ?case
    by (fastforce simp: and_then_def dest: parse_consumes(3) split: sum.splits)
next
  case (4 L n depth left ts)
  show ?case
  proof (cases "is_op ts [Plus, Minus]")
    case True
    then obtain q r where "ts = TOp q # r" by (auto dest: is_op_cases)
    with "4" True show ?thesis
      by (auto simp: and_then_def dest!: parse_consumes(3) split: sum.splits)
  qed simp
next
  case (6 L n depth ts)
  then show ?case
    by (fastforce simp: and_then_def dest: parse_consumes(5) split: sum.splits)
next
  case (8 L n depth left ts)
  show ?case
  proof (cases "is_op ts [Star, Slash]")
    case True
    then obtain q r where "ts = TOp q # r" by (auto dest: is_op_cases)
    with "8" True show ?thesis
      by (auto simp: and_then_def dest!: parse_consumes(5) split: sum.splits)
  qed simp
next
  case (10 L n depth ts)
  show ?case
  proof (cases "is_op ts [Minus]")
    case True
    then obtain r where "ts = TOp Minus # r" by (auto dest: is_op_cases)
    with 10 show ?thesis by (auto simp: and_then_def split: sum.splits)
  next
    case minus: False
    show ?thesis
    proof (cases "is_op ts [Plus]")
      case True
      then obtain r where "ts = TOp Plus # r" by (auto dest: is_op_cases)
      with 10 show ?thesis by simp
    next
      case False
      with minus 10 show ?thesis by simp
    qed
  qed
next
  case (12 L n depth ts)
  show ?case
  proof (cases "\<exists>r. ts = TOp LPar # r")
    case True
    then obtain r where "ts = TOp LPar # r" by blast
    with 12 show ?thesis by (auto simp: and_then_def split: sum.splits)
  next
    case False
    then show ?thesis by (auto split: list.splits token.splits)
  qed
qed simp_all

lemma parse_tokens_fuel: "parse_tokens L ts \<noteq> Inl FuelExhausted"
proof (cases "parse_expr L (6 * length ts + 4) 0 ts")
  case (Inl err)
  with parse_enough_fuel(1) [of ts "6 * length ts + 4" L 0] show ?thesis
    by (simp only: parse_tokens_def) auto
next
  case (Inr p)
  then show ?thesis by (simp only: parse_tokens_def) (auto split: prod.split list.split)
qed

lemma tokenize_fuel: "tokenize i s \<noteq> Inl FuelExhausted"
proof (induction i s rule: tokenize.induct)
  case (2 i ch s)
  show ?case
  proof (cases "ch = CHR '' '' \<or> ch = CHR 0x09")
    case True with 2 show ?thesis by (simp only: tokenize.simps if_True) simp
  next
    case ws: False
    show ?thesis 
    proof (cases "is_digit ch \<or> ch = CHR ''.''")
      case True
      then show ?thesis using 2(2)[OF ws True]
        by (simp only: tokenize.simps ws if_False if_True) (auto simp: and_then_Inl_iff split: option.splits)
    next
      case nd: False
      show ?thesis using 2(3,4)[OF ws nd]
        by (simp only: tokenize.simps ws nd if_False Let_def) (auto simp: and_then_Inl_iff split: option.splits)
    qed
  qed
qed simp

text \<open>
  The parser terminates with an answer of its own on every string: the fuel bound of the
  model is never what stops it.
\<close>

theorem parse_formula_total: "parse_formula L formula \<noteq> Inl FuelExhausted"
  using tokenize_fuel [of 0 formula] parse_tokens_fuel [of L]
  by (auto simp: parse_formula_def and_then_def split: sum.splits)

section \<open>Printing and parsing\<close>

definition op_token :: "binop \<Rightarrow> opsym" where
  "op_token q = (case q of Add \<Rightarrow> Plus | Sub \<Rightarrow> Minus | Mul \<Rightarrow> Star | Div \<Rightarrow> Slash)"

fun unparse :: "(decimal \<Rightarrow> string) \<Rightarrow> node \<Rightarrow> token list" where
  "unparse txt (Num v) = [TNum (txt v)]"
| "unparse txt (Ref x) = [TRef x]"
| "unparse txt (Neg e) = TOp Minus # unparse txt e"
| "unparse txt (Bin q l r) =
     TOp LPar # unparse txt l @ TOp (op_token q) # unparse txt r @ [TOp RPar]"

fun paren_depth :: "node \<Rightarrow> nat" where
  "paren_depth (Num v) = 0"
| "paren_depth (Ref x) = 0"
| "paren_depth (Neg e) = paren_depth e"
| "paren_depth (Bin q l r) = Suc (max (paren_depth l) (paren_depth r))"

fun nums :: "node \<Rightarrow> decimal set" where
  "nums (Num v) = {v}"
| "nums (Ref x) = {}"
| "nums (Neg e) = nums e"
| "nums (Bin q l r) = nums l \<union> nums r"

fun refs :: "node \<Rightarrow> string set" where
  "refs (Num v) = {}"
| "refs (Ref x) = {x}"
| "refs (Neg e) = refs e"
| "refs (Bin q l r) = refs l \<union> refs r"

lemma parse_unparse:
  assumes "6 * length (unparse txt e) + 2 \<le> n" and "d + paren_depth e \<le> MAX_DEPTH"
    and "\<forall>v \<in> nums e. of_text L (txt v) = v"
  shows "parse_unary L n d (unparse txt e @ rest) = Inr (e, rest)"
  using assms
proof (induction e arbitrary: n d rest)
  case (Num v)
  then have "n = Suc (Suc (n - 2))" by simp
  then obtain m where "n = Suc (Suc m)" by blast
  with Num show ?case by simp
next
  case (Ref x)
  then have "n = Suc (Suc (n - 2))" by simp
  then obtain m where "n = Suc (Suc m)" by blast
  with Ref show ?case by simp
next
  case (Neg e)
  then obtain m where "n = Suc m" by (cases n) auto
  with Neg show ?case by simp
next
  case (Bin q l r)
  have "6 \<le> n" using Bin.prems(1) by simp
  then have "n = Suc (Suc (Suc (Suc (Suc (Suc (n - 6))))))" by simp
  then obtain m where n: "n = Suc (Suc (Suc (Suc (Suc (Suc m)))))" by blast
  have l: "parse_unary L k (Suc d) (unparse txt l @ us) = Inr (l, us)" if "Suc m \<le> k" for k us
    using that Bin.prems by (intro Bin.IH) (auto simp: n)
  have r: "parse_unary L k (Suc d) (unparse txt r @ us) = Inr (r, us)" if "Suc m \<le> k" for k us
    using that Bin.prems by (intro Bin.IH) (auto simp: n)
  have paren: "parse_unary L (Suc k) d (TOp LPar # us) = parse_primary L k d (TOp LPar # us)"
    for k us by simp
  from Bin.prems show ?case
    by (cases q) (simp_all add: n l r paren op_token_def del: parse_unary.simps)
qed

lemma unparse_nonempty: "unparse txt e \<noteq> []"
  by (cases e) auto

lemma parse_tokens_unparse:
  assumes "paren_depth e \<le> MAX_DEPTH" and "\<forall>v \<in> nums e. of_text L (txt v) = v"
  shows "parse_tokens L (unparse txt e) = Inr e"
proof -
  have "0 < length (unparse txt e)" using unparse_nonempty by auto
  define m where "m = 6 * length (unparse txt e) + 1"
  have m: "6 * length (unparse txt e) + 4 = Suc (Suc (Suc m))"
    and le: "6 * length (unparse txt e) + 2 \<le> Suc m" by (simp_all add: m_def)
  have "parse_unary L (Suc m) 0 (unparse txt e @ []) = Inr (e, [])"
    using assms le by (intro parse_unparse) auto
  then have "parse_expr L (Suc (Suc (Suc m))) 0 (unparse txt e) = Inr (e, [])"
    by simp
  then show ?thesis by (simp only: parse_tokens_def m) simp
qed

lemma set_walk_refs: "set (walk_refs e names) = set names \<union> refs e"
  by (induction e arbitrary: names) (auto simp: add_name_def)

lemma distinct_walk_refs: "distinct names \<Longrightarrow> distinct (walk_refs e names)"
  by (induction e arbitrary: names) (auto simp: add_name_def)

lemma formula_references_refs:
  assumes "formula_references L f = Inr xs"
  obtains e where "parse_formula L f = Inr e" and "set xs = refs e" and "distinct xs"
  using assms
  by (auto simp: formula_references_def and_then_Inr_iff set_walk_refs distinct_walk_refs)

text \<open>The text of a token list: one space after each token.\<close>

definition op_text :: "opsym \<Rightarrow> string" where
  "op_text q = (case q of Plus \<Rightarrow> ''+'' | Minus \<Rightarrow> ''-'' | Star \<Rightarrow> ''*'' | Slash \<Rightarrow> ''/''
     | LPar \<Rightarrow> ''('' | RPar \<Rightarrow> '')'')"

fun token_text :: "token \<Rightarrow> string" where
  "token_text (TNum s) = s"
| "token_text (TRef s) = s"
| "token_text (TOp q) = op_text q"

definition render :: "token list \<Rightarrow> string" where
  "render ts = concat (map (\<lambda>t. token_text t @ '' '') ts)"

definition is_name :: "string \<Rightarrow> bool" where
  "is_name s \<longleftrightarrow> s \<noteq> [] \<and> is_upper (hd s) \<and> list_all is_name_char s"

fun valid_token :: "token \<Rightarrow> bool" where
  "valid_token (TNum s) = is_numeral s"
| "valid_token (TRef s) = is_name s"
| "valid_token (TOp q) = True"

lemma match_number_numeral:
  assumes "is_numeral s" shows "match_number (s @ CHR '' '' # r) = Some (s, CHR '' '' # r)"
proof -
  let ?w = "takeWhile is_digit s" and ?d = "dropWhile is_digit s"
  have s: "s = ?w @ ?d" by simp
  have sp: "\<not> is_digit CHR '' ''" by (simp add: is_digit_def)
  have dot: "\<not> is_digit CHR ''.''" by (simp add: is_digit_def)
  have w: "\<And>c. c \<in> set ?w \<Longrightarrow> is_digit c" by (meson set_takeWhileD)
  have wne: "?w \<noteq> []" using assms by (auto simp: is_numeral_def Let_def)
  show ?thesis
  proof (cases "?d = []")
    case True
    with s have d: "\<And>c. c \<in> set s \<Longrightarrow> is_digit c" using w by simp
    then have "takeWhile is_digit (s @ CHR '' '' # r) = s"
      "dropWhile is_digit (s @ CHR '' '' # r) = CHR '' '' # r"
      using sp by (simp_all add: takeWhile_append2 dropWhile_append2)
    with wne s d True show ?thesis by (simp add: match_number_def)
  next
    case False
    with assms obtain c f where f: "?d = CHR ''.'' # c # f" "list_all is_digit (c # f)"
      by (cases ?d; cases "tl ?d") (auto simp: is_numeral_def Let_def)
    have sw: "s @ CHR '' '' # r = ?w @ CHR ''.'' # c # f @ CHR '' '' # r"
      using f(1) by (subst s) simp
    have "takeWhile is_digit (s @ CHR '' '' # r) = ?w"
      "dropWhile is_digit (s @ CHR '' '' # r) = CHR ''.'' # c # f @ CHR '' '' # r"
      unfolding sw using w dot by (simp_all add: takeWhile_append2 dropWhile_append2)
    moreover have "takeWhile is_digit (c # f @ CHR '' '' # r) = c # f"
      "dropWhile is_digit (c # f @ CHR '' '' # r) = CHR '' '' # r"
      using f(2) sp by (simp_all add: takeWhile_append2 dropWhile_append2 list_all_iff)
    ultimately show ?thesis
      using wne f by (subst (2) s) (simp add: match_number_def del: takeWhile_eq_Nil_iff)
  qed
qed

lemma is_numeral_hd: "is_numeral s \<Longrightarrow> s \<noteq> [] \<and> is_digit (hd s)"
  by (cases s) (auto simp: is_numeral_def Let_def split: if_splits)

lemma digit_not_special: "is_digit c \<Longrightarrow> c \<noteq> CHR '' '' \<and> c \<noteq> CHR 0x09 \<and> \<not> is_upper c"
  by (auto simp: is_digit_def is_upper_def)

lemma upper_not_special:
  "is_upper c \<Longrightarrow> c \<noteq> CHR '' '' \<and> c \<noteq> CHR 0x09 \<and> c \<noteq> CHR ''.'' \<and> \<not> is_digit c"
  by (auto simp: is_digit_def is_upper_def)

lemma tokenize_token:
  assumes "valid_token t"
  shows "tokenize i (token_text t @ CHR '' '' # r) =
    and_then (tokenize (i + length (token_text t)) (CHR '' '' # r)) (\<lambda>ts. Inr (t # ts))"
proof (cases t)
  case (TNum s)
  with assms have num: "is_numeral s" by simp
  then obtain c s' where s: "s = c # s'" "is_digit c"
    using is_numeral_hd by (metis list.collapse)
  then have "c \<noteq> CHR '' ''" "c \<noteq> CHR 0x09" using digit_not_special by blast+
  moreover have "match_number (c # s' @ CHR '' '' # r) = Some (s, CHR '' '' # r)"
    using match_number_numeral [OF num, of r] by (simp add: s)
  ultimately show ?thesis
    unfolding TNum token_text.simps s(1) append_Cons tokenize.simps(2) [of i c]
    using s by simp
next
  case (TRef s)
  with assms obtain c s' where s: "s = c # s'" and up: "is_upper c" and nm: "list_all is_name_char s"
    by (cases s) (auto simp: is_name_def)
  have sp: "\<not> is_name_char CHR '' ''" by (simp add: is_name_char_def is_upper_def is_digit_def)
  have "takeWhile is_name_char (c # s' @ CHR '' '' # r) = s"
    "dropWhile is_name_char (s' @ CHR '' '' # r) = CHR '' '' # r"
    using nm sp by (simp_all add: s takeWhile_append2 dropWhile_append2 list_all_iff)
  then show ?thesis
    unfolding TRef token_text.simps s append_Cons tokenize.simps(2) [of i c]
    using upper_not_special [OF up] up by (simp add: Let_def s)
next
  case (TOp q)
  then show ?thesis
    by (cases q) (simp_all add: op_text_def tokenize.simps(2) [of i] is_digit_def is_upper_def op_of_char_def)
qed

lemma tokenize_render:
  "list_all valid_token ts \<Longrightarrow> tokenize i (render ts) = Inr ts"
proof (induction ts arbitrary: i)
  case Nil
  then show ?case by (simp add: render_def)
next
  case (Cons t ts)
  then have "tokenize j (CHR '' '' # render ts) = Inr ts" for j by simp
  moreover have "render (t # ts) = token_text t @ CHR '' '' # render ts" by (simp add: render_def)
  ultimately show ?case using Cons.prems by (simp add: tokenize_token del: tokenize.simps)
qed

lemma valid_unparse:
  "\<forall>v \<in> nums e. is_numeral (txt v) \<Longrightarrow> \<forall>x \<in> refs e. is_name x \<Longrightarrow> list_all valid_token (unparse txt e)"
  by (induction e) auto

text \<open>
  C35. Printing then parsing: an expression whose numbers are written as numerals the decimal
  library reads back, whose names are upper-case identifiers and whose nesting stays within
  \<open>MAX_DEPTH\<close>, printed with explicit parentheses in at most \<open>MAX_LENGTH\<close> characters, is parsed
  back to exactly itself.
\<close>

theorem parse_formula_roundtrip:
  assumes "\<forall>v \<in> nums e. is_numeral (txt v) \<and> of_text L (txt v) = v"
    and "\<forall>x \<in> refs e. is_name x"
    and "paren_depth e \<le> MAX_DEPTH"
    and "length (render (unparse txt e)) \<le> MAX_LENGTH"
  shows "parse_formula L (render (unparse txt e)) = Inr e"
proof -
  have "tokenize 0 (render (unparse txt e)) = Inr (unparse txt e)"
    using assms by (intro tokenize_render valid_unparse) auto
  moreover have "parse_tokens L (unparse txt e) = Inr e"
    using assms by (intro parse_tokens_unparse) auto
  ultimately show ?thesis
    using assms(4) unparse_nonempty by (simp add: parse_formula_def)
qed

theorem parse_formula_roundtrip_witness:
  "parse_formula decimal_js ''( BASIC * - 40 ) '' =
     Inr (Bin Mul (Ref ''BASIC'') (Neg (Num 40)))"
proof -
  let ?e = "Bin Mul (Ref ''BASIC'') (Neg (Num 40))"
  have "parse_formula decimal_js (render (unparse (\<lambda>v. ''40'') ?e)) = Inr ?e"
    by (rule parse_formula_roundtrip)
      (simp_all add: decimal_js_def numeral_value_def is_numeral_def digits_value_def is_digit_def is_name_def
        is_name_char_def is_upper_def MAX_DEPTH_def MAX_LENGTH_def render_def op_text_def op_token_def)
  then show ?thesis by (simp add: render_def op_text_def op_token_def)
qed

text \<open>Evaluation fails only on a missing name or a zero divisor.\<close>

lemma eval_node_no_unknown:
  "\<forall>x \<in> refs e. vars x \<noteq> None \<Longrightarrow> eval_node L vars e \<in> Inr ` UNIV \<union> {Inl DivisionByZero}"
  by (induction e) (auto simp: and_then_def split: sum.splits binop.splits)

end
