(* ===== verification/SalaryComponents.thy ===== *)
theory SalaryComponents
  imports Formula
begin

text \<open>
  \<open>apps/api/src/payroll/salary-components.util.ts\<close>: the monthly amount of every component of a
  salary structure. \<open>resolve_code\<close> is the memoising recursion of \<open>resolve\<close>: the map of amounts
  already resolved is its state, the codes being visited are a list, and a code met again while
  it is being visited is the circular-reference error. The recursion descends into codes of
  the structure that are not being visited yet, so at most one level per component: the fuel
  \<open>resolve_monthly_amounts\<close> gives (components plus one) is enough, \<open>resolve_monthly_fuel\<close>.
\<close>

datatype calc_mode = FIXED | PERCENT_OF_BASIC | PERCENT_OF_CTC | FORMULA

record component_input =
  ci_code :: string
  ci_mode :: calc_mode
  ci_value :: "decimal option"
  ci_formula :: "string option"

definition CTC_VARIABLE :: string where "CTC_VARIABLE = ''CTC''"
definition BASIC_CODE :: string where "BASIC_CODE = ''BASIC''"

datatype component_error =
    UnknownComponent string
  | CircularReference string
  | FormulaFailed formula_error
  | ResolveFuel \<comment> \<open>of the model only\<close>

type_synonym amounts = "string \<rightharpoonup> decimal"

definition lift_formula :: "(formula_error, 'a) result \<Rightarrow> (component_error, 'a) result" where
  "lift_formula r = (case r of Inl e \<Rightarrow> Inl (FormulaFailed e) | Inr a \<Rightarrow> Inr a)"

text \<open>\<open>new Map(components.map(c => [c.code, c]))\<close>: a later component with the same code wins.\<close>

definition by_code :: "component_input list \<Rightarrow> string \<rightharpoonup> component_input" where
  "by_code cs = map_of (rev (map (\<lambda>c. (ci_code c, c)) cs))"

fun resolve_code ::
  "decimal_lib \<Rightarrow> component_input list \<Rightarrow> decimal \<Rightarrow> nat \<Rightarrow> string list \<Rightarrow> string \<Rightarrow> amounts
    \<Rightarrow> (component_error, decimal \<times> amounts) result"
  and resolve_refs ::
  "decimal_lib \<Rightarrow> component_input list \<Rightarrow> decimal \<Rightarrow> nat \<Rightarrow> string list \<Rightarrow> string list \<Rightarrow> amounts
    \<Rightarrow> amounts \<Rightarrow> (component_error, amounts \<times> amounts) result"
where
  "resolve_code L cs ctc 0 visiting code resolved = Inl ResolveFuel"
| "resolve_code L cs ctc (Suc n) visiting code resolved =
     (case resolved code of
        Some amount \<Rightarrow> Inr (amount, resolved)
      | None \<Rightarrow>
        (case by_code cs code of
           None \<Rightarrow> Inl (UnknownComponent code)
         | Some c \<Rightarrow>
           if code \<in> set visiting then Inl (CircularReference code)
           else
             let value = (case ci_value c of None \<Rightarrow> 0 | Some v \<Rightarrow> v) in
             and_then
               (case ci_mode c of
                  FIXED \<Rightarrow> Inr (value, resolved)
                | PERCENT_OF_CTC \<Rightarrow> Inr (ddiv L (dtimes L ctc value) 100, resolved)
                | PERCENT_OF_BASIC \<Rightarrow>
                    and_then (resolve_code L cs ctc n (code # visiting) BASIC_CODE resolved)
                      (\<lambda>(b, res). Inr (ddiv L (dtimes L b value) 100, res))
                | FORMULA \<Rightarrow>
                    let f = (case ci_formula c of None \<Rightarrow> [] | Some f \<Rightarrow> f) in
                    and_then (lift_formula (formula_references L f)) (\<lambda>names.
                    and_then (resolve_refs L cs ctc n (code # visiting) names
                        [CTC_VARIABLE \<mapsto> ctc] resolved) (\<lambda>(vars, res).
                    and_then (lift_formula (evaluate_formula L f vars)) (\<lambda>a. Inr (a, res)))))
               (\<lambda>(amount, res). Inr (amount, res(code \<mapsto> amount)))))"
| "resolve_refs L cs ctc n visiting [] vars resolved = Inr (vars, resolved)"
| "resolve_refs L cs ctc n visiting (r # rs) vars resolved =
     (if r = CTC_VARIABLE then resolve_refs L cs ctc n visiting rs vars resolved
      else and_then (resolve_code L cs ctc n visiting r resolved)
        (\<lambda>(a, res). resolve_refs L cs ctc n visiting rs (vars(r \<mapsto> a)) res))"

text \<open>\<open>for (const c of components) resolve(c.code)\<close>\<close>

definition resolve_all ::
  "decimal_lib \<Rightarrow> component_input list \<Rightarrow> decimal \<Rightarrow> nat \<Rightarrow> component_input list \<Rightarrow> amounts
    \<Rightarrow> (component_error, amounts) result" where
  "resolve_all L cs ctc n todo resolved =
     fold_res (\<lambda>c res. and_then (resolve_code L cs ctc n [] (ci_code c) res) (\<lambda>(_, res'). Inr res'))
       todo resolved"

definition resolve_monthly_amounts ::
  "decimal_lib \<Rightarrow> component_input list \<Rightarrow> decimal \<Rightarrow> (component_error, amounts) result" where
  "resolve_monthly_amounts L cs ctc_annual =
     resolve_all L cs (ddiv L ctc_annual 12) (Suc (length cs)) cs Map.empty"

section \<open>Specification: amounts resolved in dependency order\<close>

definition comp_value :: "component_input \<Rightarrow> decimal" where
  "comp_value c = (case ci_value c of None \<Rightarrow> 0 | Some v \<Rightarrow> v)"

definition comp_formula :: "component_input \<Rightarrow> string" where
  "comp_formula c = (case ci_formula c of None \<Rightarrow> [] | Some f \<Rightarrow> f)"

text \<open>The defining equation of one component, over the amounts of the others.\<close>

definition component_amount ::
  "decimal_lib \<Rightarrow> decimal \<Rightarrow> amounts \<Rightarrow> component_input \<Rightarrow> (component_error, decimal) result" where
  "component_amount L ctc m c =
     (case ci_mode c of
        FIXED \<Rightarrow> Inr (comp_value c)
      | PERCENT_OF_CTC \<Rightarrow> Inr (ddiv L (dtimes L ctc (comp_value c)) 100)
      | PERCENT_OF_BASIC \<Rightarrow>
          (case m BASIC_CODE of
             None \<Rightarrow> Inl (UnknownComponent BASIC_CODE)
           | Some b \<Rightarrow> Inr (ddiv L (dtimes L b (comp_value c)) 100))
      | FORMULA \<Rightarrow> lift_formula (evaluate_formula L (comp_formula c) (m(CTC_VARIABLE \<mapsto> ctc))))"

text \<open>The codes a component's equation reads.\<close>

definition depends_on :: "decimal_lib \<Rightarrow> component_input \<Rightarrow> string set" where
  "depends_on L c =
     (case ci_mode c of
        PERCENT_OF_BASIC \<Rightarrow> {BASIC_CODE}
      | FORMULA \<Rightarrow>
          (case parse_formula L (comp_formula c) of
             Inl _ \<Rightarrow> {} | Inr e \<Rightarrow> refs e - {CTC_VARIABLE})
      | _ \<Rightarrow> {})"

inductive well_resolved :: "decimal_lib \<Rightarrow> component_input list \<Rightarrow> decimal \<Rightarrow> amounts \<Rightarrow> bool"
  for L cs ctc where
  wr_empty: "well_resolved L cs ctc Map.empty"
| wr_add: "well_resolved L cs ctc m \<Longrightarrow> m code = None \<Longrightarrow> by_code cs code = Some c \<Longrightarrow>
    depends_on L c \<subseteq> dom m \<Longrightarrow> component_amount L ctc m c = Inr a \<Longrightarrow>
    m' = m(code \<mapsto> a) \<Longrightarrow> well_resolved L cs ctc m'"

lemma by_code_SomeD: "by_code cs code = Some c \<Longrightarrow> c \<in> set cs \<and> ci_code c = code"
  by (auto simp: by_code_def dest: map_of_SomeD)

lemma dom_by_code: "dom (by_code cs) = ci_code ` set cs"
  by (auto simp: by_code_def dom_map_of_conv_image_fst image_image)

lemma eval_node_cong: "(\<And>x. x \<in> refs e \<Longrightarrow> v x = w x) \<Longrightarrow> eval_node L v e = eval_node L w e"
  by (induction e) simp_all

lemma component_amount_cong:
  assumes "\<And>d. d \<in> depends_on L c \<Longrightarrow> m d = m' d"
  shows "component_amount L ctc m c = component_amount L ctc m' c"
proof (cases "ci_mode c")
  case FORMULA
  show ?thesis
  proof (cases "parse_formula L (comp_formula c)")
    case (Inr e)
    have "eval_node L (m(CTC_VARIABLE \<mapsto> ctc)) e = eval_node L (m'(CTC_VARIABLE \<mapsto> ctc)) e"
      using assms by (intro eval_node_cong) (auto simp: depends_on_def FORMULA Inr)
    then show ?thesis by (simp add: component_amount_def FORMULA evaluate_formula_def Inr)
  qed (simp add: component_amount_def FORMULA evaluate_formula_def)
next
  case PERCENT_OF_BASIC
  then show ?thesis using assms by (simp add: component_amount_def depends_on_def)
qed (simp_all add: component_amount_def)

lemma component_amount_mono:
  assumes "depends_on L c \<subseteq> dom m" and "m \<subseteq>\<^sub>m m'"
  shows "component_amount L ctc m' c = component_amount L ctc m c"
proof (rule component_amount_cong)
  fix d assume "d \<in> depends_on L c"
  with assms(1) have "d \<in> dom m" by blast
  with assms(2) show "m' d = m d" by (auto simp: map_le_def)
qed

lemma map_le_updI: "m code = None \<Longrightarrow> m \<subseteq>\<^sub>m m(code \<mapsto> a)"
  by (auto simp: map_le_def)

text \<open>Every resolved code satisfies its component's equation, and everything it reads is resolved.\<close>

lemma well_resolved_equation:
  assumes "well_resolved L cs ctc m" and "m code = Some a"
  shows "\<exists>c. by_code cs code = Some c \<and> depends_on L c \<subseteq> dom m \<and> component_amount L ctc m c = Inr a"
  using assms
proof (induction arbitrary: code a rule: well_resolved.induct)
  case wr_empty
  then show ?case by simp
next
  case (wr_add m code' c a' m')
  let ?m = "m'"
  have le: "m \<subseteq>\<^sub>m ?m" using wr_add.hyps by (simp add: map_le_updI)
  show ?case
  proof (cases "code = code'")
    case True
    have "component_amount L ctc ?m c = Inr a'"
      using component_amount_mono [OF wr_add.hyps(4) le] wr_add.hyps(5) by simp
    moreover have "a = a'" using True wr_add.prems wr_add.hyps(6) by simp
    moreover have "depends_on L c \<subseteq> dom ?m"
      using wr_add.hyps(4) map_le_implies_dom_le [OF le] by blast
    ultimately show ?thesis using True wr_add.hyps(3) by blast
  next
    case False
    with wr_add.prems obtain c' where c': "by_code cs code = Some c'" "depends_on L c' \<subseteq> dom m"
      "component_amount L ctc m c' = Inr a"
      using wr_add.IH [of code] wr_add.hyps(6) by auto
    moreover have "dom m \<subseteq> dom ?m" using le by (rule map_le_implies_dom_le)
    ultimately show ?thesis using component_amount_mono [OF c'(2) le] by force
  qed
qed

text \<open>The dependency relation between resolved codes has no cycle.\<close>

definition dependency :: "decimal_lib \<Rightarrow> component_input list \<Rightarrow> string set \<Rightarrow> string rel" where
  "dependency L cs D =
     {(code, d). code \<in> D \<and> (\<exists>c. by_code cs code = Some c \<and> d \<in> depends_on L c)}"

lemma well_resolved_acyclic:
  "well_resolved L cs ctc m \<Longrightarrow> acyclic (dependency L cs (dom m)) \<and> dependency L cs (dom m) `` dom m \<subseteq> dom m"
proof (induction rule: well_resolved.induct)
  case wr_empty
  then show ?case by (simp add: dependency_def acyclic_def)
next
  case (wr_add m code c a m')
  let ?R = "dependency L cs (dom m)" and ?new = "{code} \<times> depends_on L c"
  have R: "dependency L cs (dom m') = ?R \<union> ?new"
    using wr_add.hyps by (auto simp: dependency_def)
  have ran: "Range ?R \<subseteq> dom m" using wr_add.IH by (force simp: dependency_def)
  have notin: "code \<notin> dom m" using wr_add.hyps(2) by auto
  have "acyclic (?R \<union> ?new)"
  proof (rule acyclicI, rule allI, rule notI)
    fix x assume cyc: "(x, x) \<in> (?R \<union> ?new)\<^sup>+"
    have closed: "(u, v) \<in> ?R\<^sup>+ \<and> v \<in> dom m" if "(u, v) \<in> (?R \<union> ?new)\<^sup>+" "u \<in> dom m" for u v
      using that
    proof (induction rule: trancl_induct)
      case (base y)
      then show ?case using ran notin by auto
    next
      case (step y z)
      then have "(y, z) \<in> ?R" using notin by auto
      with step ran show ?case by (auto intro: trancl_into_trancl)
    qed
    obtain y where "(x, y) \<in> ?R \<union> ?new" and "(y, x) \<in> (?R \<union> ?new)\<^sup>*"
      using tranclD [OF cyc] by blast
    then have y: "y \<in> dom m" using ran wr_add.hyps(4) by auto
    have "x \<in> dom m"
      using \<open>(y, x) \<in> (?R \<union> ?new)\<^sup>*\<close> closed y by (metis rtranclD)
    with closed [OF cyc] wr_add.IH show False by (auto simp: acyclic_def)
  qed
  moreover have "(?R \<union> ?new) `` dom m' \<subseteq> dom m'"
    using ran wr_add.hyps(4,6) by auto
  ultimately show ?case by (simp add: R)
qed

section \<open>The resolver meets the specification\<close>

lemma lift_formula_Inr: "lift_formula r = Inr a \<longleftrightarrow> r = Inr a"
  by (auto simp: lift_formula_def split: sum.splits)

lemma resolve_sound:
  "resolve_code L cs ctc n vis code res = Inr (a, res') \<Longrightarrow> well_resolved L cs ctc res \<Longrightarrow>
     well_resolved L cs ctc res' \<and> res \<subseteq>\<^sub>m res' \<and> res' code = Some a
     \<and> (\<forall>v \<in> set vis. res v = None \<longrightarrow> res' v = None)"
  "resolve_refs L cs ctc n vis rs vars res = Inr (vars', res') \<Longrightarrow> well_resolved L cs ctc res \<Longrightarrow>
     well_resolved L cs ctc res' \<and> res \<subseteq>\<^sub>m res'
     \<and> (\<forall>v \<in> set vis. res v = None \<longrightarrow> res' v = None)
     \<and> (\<forall>x \<in> set rs - {CTC_VARIABLE}. x \<in> dom res')
     \<and> (\<forall>x. vars' x = (if x \<in> set rs - {CTC_VARIABLE} then res' x else vars x))"
proof (induction L cs ctc n vis code res and L cs ctc n vis rs vars res
    arbitrary: a res' and vars' res' rule: resolve_code_resolve_refs.induct)
  case (1 L cs ctc vis code res)
  then show ?case by simp
next
  case (2 L cs ctc n vis code res)
  show ?case
  proof (cases "res code")
    case (Some amount)
    with "2.prems" show ?thesis by (auto simp: map_le_def)
  next
    case None
    with "2.prems"(1) obtain c where c: "by_code cs code = Some c" and nv: "code \<notin> set vis"
      by (auto split: option.splits if_splits)
    have add: "well_resolved L cs ctc (r(code \<mapsto> a)) \<and> res \<subseteq>\<^sub>m r(code \<mapsto> a)
        \<and> (r(code \<mapsto> a)) code = Some a \<and> (\<forall>v \<in> set vis. res v = None \<longrightarrow> (r(code \<mapsto> a)) v = None)"
      if "well_resolved L cs ctc r" "res \<subseteq>\<^sub>m r" "\<forall>v \<in> set (code # vis). res v = None \<longrightarrow> r v = None"
        "depends_on L c \<subseteq> dom r" "component_amount L ctc r c = Inr a" for r
      using that None c nv by (auto intro: wr_add simp: map_le_def)
    note eqn = "2.prems"(1) [unfolded resolve_code.simps None c option.case if_not_P [OF nv], simplified Let_def]
    show ?thesis
    proof (cases "ci_mode c")
      case FIXED
      with eqn add [of res] "2.prems"(2) show ?thesis
        by (auto simp: component_amount_def depends_on_def comp_value_def)
    next
      case PERCENT_OF_CTC
      with eqn add [of res] "2.prems"(2) show ?thesis
        by (auto simp: component_amount_def depends_on_def comp_value_def)
    next
      case PERCENT_OF_BASIC
      with eqn obtain b r where b: "resolve_code L cs ctc n (code # vis) BASIC_CODE res = Inr (b, r)"
        and a: "a = ddiv L (dtimes L b (comp_value c)) 100" "res' = r(code \<mapsto> a)"
        by (auto simp: and_then_Inr_iff comp_value_def)
      have IH: "well_resolved L cs ctc r" "res \<subseteq>\<^sub>m r" "r BASIC_CODE = Some b"
        "\<forall>v \<in> set (code # vis). res v = None \<longrightarrow> r v = None"
        using "2.IH"(1) [OF None c nv refl PERCENT_OF_BASIC b "2.prems"(2)] by blast+
      have "depends_on L c \<subseteq> dom r" "component_amount L ctc r c = Inr a"
        using IH(3) a by (auto simp: component_amount_def depends_on_def PERCENT_OF_BASIC)
      then show ?thesis unfolding a(2) by (intro add IH)
    next
      case FORMULA
      let ?f = "comp_formula c"
      from FORMULA eqn obtain names vars r where names: "formula_references L ?f = Inr names"
        and r: "resolve_refs L cs ctc n (code # vis) names [CTC_VARIABLE \<mapsto> ctc] res = Inr (vars, r)"
        and ev: "evaluate_formula L ?f vars = Inr a" and res': "res' = r(code \<mapsto> a)"
        by (auto simp: and_then_Inr_iff lift_formula_Inr comp_formula_def)
      obtain e where e: "parse_formula L ?f = Inr e" "set names = refs e"
        using formula_references_refs [OF names] by metis
      have IH: "well_resolved L cs ctc r" "res \<subseteq>\<^sub>m r" "\<forall>v \<in> set (code # vis). res v = None \<longrightarrow> r v = None"
        "\<forall>x \<in> set names - {CTC_VARIABLE}. x \<in> dom r"
        "\<forall>x. vars x = (if x \<in> set names - {CTC_VARIABLE} then r x else [CTC_VARIABLE \<mapsto> ctc] x)"
        using "2.IH"(2) [OF None c nv refl FORMULA refl r "2.prems"(2)] by blast+
      have "eval_node L (r(CTC_VARIABLE \<mapsto> ctc)) e = eval_node L vars e"
        using IH(5) e(2) by (intro eval_node_cong) auto
      with ev have "component_amount L ctc r c = Inr a"
        by (simp add: component_amount_def FORMULA evaluate_formula_def e(1) lift_formula_def)
      moreover have "depends_on L c \<subseteq> dom r"
        using IH(4) e by (auto simp: depends_on_def FORMULA)
      ultimately show ?thesis unfolding res' by (intro add IH(1-3))
    qed
  qed
next
  case (3 L cs ctc n vis vars res)
  then show ?case by auto
next
  case (4 L cs ctc n vis r rs vars res)
  show ?case
  proof (cases "r = CTC_VARIABLE")
    case True
    with "4.IH"(1) [OF True] "4.prems" show ?thesis by auto
  next
    case False
    with "4.prems"(1) obtain b m where b: "resolve_code L cs ctc n vis r res = Inr (b, m)"
      and rest: "resolve_refs L cs ctc n vis rs (vars(r \<mapsto> b)) m = Inr (vars', res')"
      by (auto simp: and_then_Inr_iff)
    have h1: "well_resolved L cs ctc m" "res \<subseteq>\<^sub>m m" "m r = Some b"
      "\<forall>v \<in> set vis. res v = None \<longrightarrow> m v = None"
      using "4.IH"(2) [OF False b "4.prems"(2)] by auto
    have h2: "well_resolved L cs ctc res'" "m \<subseteq>\<^sub>m res'"
      "\<forall>v \<in> set vis. m v = None \<longrightarrow> res' v = None"
      "\<forall>x \<in> set rs - {CTC_VARIABLE}. x \<in> dom res'"
      "\<forall>x. vars' x = (if x \<in> set rs - {CTC_VARIABLE} then res' x else (vars(r \<mapsto> b)) x)"
      using "4.IH"(3) [OF False rest h1(1)] by auto
    have "res' r = Some b" using h1(3) h2(2) by (auto simp: map_le_def dom_def)
    with h1 h2 False show ?thesis by (auto intro: map_le_trans)
  qed
qed

lemma resolve_all_sound:
  assumes "resolve_all L cs ctc n todo res = Inr m" and "well_resolved L cs ctc res"
  shows "well_resolved L cs ctc m \<and> res \<subseteq>\<^sub>m m \<and> ci_code ` set todo \<subseteq> dom m"
  using assms
proof (induction todo arbitrary: res)
  case Nil
  then show ?case by (simp add: resolve_all_def)
next
  case (Cons c todo)
  then obtain a r where r: "resolve_code L cs ctc n [] (ci_code c) res = Inr (a, r)"
    and rest: "resolve_all L cs ctc n todo r = Inr m"
    by (auto simp: resolve_all_def and_then_Inr_iff)
  have h: "well_resolved L cs ctc r" "res \<subseteq>\<^sub>m r" "r (ci_code c) = Some a"
    using resolve_sound(1) [OF r Cons.prems(2)] by auto
  from Cons.IH [OF rest h(1)] h show ?case
    by (auto intro: map_le_trans dest: map_le_implies_dom_le)
qed

lemma well_resolved_dom: "well_resolved L cs ctc m \<Longrightarrow> dom m \<subseteq> ci_code ` set cs"
  by (auto dest!: well_resolved_equation by_code_SomeD)

text \<open>
  What \<open>resolveMonthlyAmounts\<close> returns: exactly the codes of the structure have an amount,
  and every amount satisfies its component's defining equation over the other amounts (a fixed
  value, a percentage of the monthly CTC or of Basic, or the value of the formula).
\<close>

theorem resolve_monthly_equations:
  assumes "resolve_monthly_amounts L cs ctc_annual = Inr m"
  shows "dom m = ci_code ` set cs \<and>
    (\<forall>code a. m code = Some a \<longrightarrow> (\<exists>c. by_code cs code = Some c \<and>
       component_amount L (ddiv L ctc_annual 12) m c = Inr a))"
proof -
  have wr: "well_resolved L cs (ddiv L ctc_annual 12) m" and "ci_code ` set cs \<subseteq> dom m"
    using resolve_all_sound [OF assms [unfolded resolve_monthly_amounts_def] wr_empty] by auto
  with well_resolved_dom [OF wr] well_resolved_equation [OF wr] show ?thesis by blast
qed

text \<open>
  A structure whose components depend on each other in a cycle is never given amounts: when
  \<open>resolveMonthlyAmounts\<close> returns, the reference relation between its codes is acyclic.
\<close>

theorem resolve_monthly_acyclic:
  assumes "resolve_monthly_amounts L cs ctc_annual = Inr m"
  shows "acyclic (dependency L cs (ci_code ` set cs))"
proof -
  have wr: "well_resolved L cs (ddiv L ctc_annual 12) m" and "ci_code ` set cs \<subseteq> dom m"
    using resolve_all_sound [OF assms [unfolded resolve_monthly_amounts_def] wr_empty] by auto
  with well_resolved_dom [OF wr] well_resolved_acyclic [OF wr] show ?thesis by force
qed

text \<open>A sample structure: Basic is half the CTC, HRA is 40% of Basic.\<close>

definition sample_components :: "component_input list" where
  "sample_components =
    [\<lparr>ci_code = ''HRA'', ci_mode = PERCENT_OF_BASIC, ci_value = Some 40, ci_formula = None\<rparr>,
     \<lparr>ci_code = ''BASIC'', ci_mode = PERCENT_OF_CTC, ci_value = Some 50, ci_formula = None\<rparr>]"

definition sample_amounts :: amounts where
  "sample_amounts = [''BASIC'' \<mapsto> 25000, ''HRA'' \<mapsto> 10000]"

lemma sample_resolved:
  "resolve_monthly_amounts decimal_js sample_components 600000 = Inr sample_amounts"
proof -
  have "ddiv decimal_js 600000 12 = 50000" "dtimes decimal_js 50000 50 = 2500000"
    "ddiv decimal_js 2500000 100 = 25000" "dtimes decimal_js 25000 40 = 1000000"
    "ddiv decimal_js 1000000 100 = 10000" by code_simp+
  then show ?thesis
    by (simp add: resolve_monthly_amounts_def resolve_all_def sample_components_def by_code_def
        BASIC_CODE_def CTC_VARIABLE_def sample_amounts_def)
qed

theorem resolve_monthly_equations_witness:
  "dom sample_amounts = {''BASIC'', ''HRA''} \<and>
   (\<exists>c. by_code sample_components ''HRA'' = Some c \<and>
     component_amount decimal_js (ddiv decimal_js 600000 12) sample_amounts c = Inr 10000)"
  using resolve_monthly_equations [OF sample_resolved]
  by (auto simp: sample_amounts_def sample_components_def)

theorem resolve_monthly_acyclic_witness:
  "acyclic (dependency decimal_js sample_components {''BASIC'', ''HRA''})"
  using resolve_monthly_acyclic [OF sample_resolved]
  by (simp add: sample_components_def insert_commute)

section \<open>The fuel is enough\<close>

lemma lift_formula_not_fuel: "lift_formula r \<noteq> Inl ResolveFuel"
  by (simp add: lift_formula_def split: sum.splits)

lemma resolve_fuel:
  "distinct vis \<Longrightarrow> set vis \<subseteq> ci_code ` set cs \<Longrightarrow> card (ci_code ` set cs) < n + length vis \<Longrightarrow>
     resolve_code L cs ctc n vis code res \<noteq> Inl ResolveFuel"
  "distinct vis \<Longrightarrow> set vis \<subseteq> ci_code ` set cs \<Longrightarrow> card (ci_code ` set cs) < n + length vis \<Longrightarrow>
     resolve_refs L cs ctc n vis rs vars res \<noteq> Inl ResolveFuel"
proof (induction L cs ctc n vis code res and L cs ctc n vis rs vars res
    rule: resolve_code_resolve_refs.induct)
  case (1 L cs ctc vis code res)
  have "card (set vis) \<le> card (ci_code ` set cs)" using 1 by (intro card_mono) auto
  with 1 show ?case by (simp add: distinct_card)
next
  case (2 L cs ctc n vis code res)
  show ?case
  proof (cases "res code = None \<and> code \<notin> set vis \<and> by_code cs code \<noteq> None")
    case True
    then obtain c where c: "res code = None" "by_code cs code = Some c" "code \<notin> set vis" by blast
    have pre: "distinct (code # vis)" "set (code # vis) \<subseteq> ci_code ` set cs"
      "card (ci_code ` set cs) < n + length (code # vis)"
      using "2.prems" c by_code_SomeD [OF c(2)] by auto
    show ?thesis
    proof (cases "ci_mode c")
      case PERCENT_OF_BASIC
      with "2.IH"(1) [OF c refl PERCENT_OF_BASIC pre] c show ?thesis
        by (auto simp: and_then_Inl_iff)
    next
      case FORMULA
      have h: "resolve_refs L cs ctc n (code # vis) xb [CTC_VARIABLE \<mapsto> ctc] res \<noteq> Inl ResolveFuel"
        for xb by (rule "2.IH"(2) [OF c refl FORMULA refl pre])
      show ?thesis
      proof
        assume "resolve_code L cs ctc (Suc n) vis code res = Inl ResolveFuel"
        with c FORMULA obtain xb where
          "resolve_refs L cs ctc n (code # vis) xb [CTC_VARIABLE \<mapsto> ctc] res = Inl ResolveFuel"
          by (auto simp: and_then_Inl_iff lift_formula_not_fuel Let_def)
        with h show False by blast
      qed
    qed (use c in \<open>auto simp: Let_def\<close>)
  qed (auto split: option.splits)
next
  case (4 L cs ctc n vis r rs vars res)
  show ?case
  proof (cases "r = CTC_VARIABLE")
    case True
    with 4 show ?thesis by simp
  next
    case False
    have h1: "resolve_code L cs ctc n vis r res \<noteq> Inl ResolveFuel"
      by (rule "4.IH"(2) [OF False "4.prems"])
    have h2: "resolve_refs L cs ctc n vis rs (vars(r \<mapsto> a)) m \<noteq> Inl ResolveFuel" for a m
      by (rule "4.IH"(3) [OF False "4.prems"])
    show ?thesis
    proof
      assume "resolve_refs L cs ctc n vis (r # rs) vars res = Inl ResolveFuel"
      with False h1 obtain a m where
        "resolve_refs L cs ctc n vis rs (vars(r \<mapsto> a)) m = Inl ResolveFuel"
        by (auto simp: and_then_Inl_iff)
      with h2 show False by blast
    qed
  qed
qed simp

text \<open>
  C34. \<open>resolveMonthlyAmounts\<close> always ends, with amounts or with one of its own errors: the depth
  of its recursion is bounded by the number of components.
\<close>

theorem resolve_monthly_terminates: "resolve_monthly_amounts L cs ctc_annual \<noteq> Inl ResolveFuel"
proof -
  have code: "resolve_code L cs ctc (Suc (length cs)) [] code res \<noteq> Inl ResolveFuel" for ctc code res
  proof (rule resolve_fuel(1))
    have "card (ci_code ` set cs) \<le> card (set cs)" by (rule card_image_le) simp
    also have "\<dots> \<le> length cs" by (rule card_length)
    finally show "card (ci_code ` set cs) < Suc (length cs) + length []" by simp
  qed auto
  have "resolve_all L cs ctc (Suc (length cs)) todo res \<noteq> Inl ResolveFuel" for ctc todo res
  proof (induction todo arbitrary: res)
    case (Cons c todo)
    with code [of ctc "ci_code c" res] show ?case
      by (auto simp: resolve_all_def and_then_Inl_iff)
  qed (simp add: resolve_all_def)
  then show ?thesis by (simp add: resolve_monthly_amounts_def)
qed

end
