(* ===== verification/Calendar.thy ===== *)
theory Calendar
  imports Decimal
begin

text \<open>
  The JavaScript \<open>Date\<close> operations the program uses, as ECMAScript defines them. A date is its
  time value, the number of milliseconds since the epoch; all the code's dates are read and
  built in UTC. \<open>date_utc\<close> is \<open>Date.UTC\<close> (with months and days outside their range carried
  over), \<open>utc_year\<close>, \<open>utc_month\<close>, \<open>utc_date\<close>, \<open>utc_day\<close> the \<open>getUTC...\<close> readers.
  The first ten characters of \<open>toISOString()\<close> name the UTC day: \<open>iso_day\<close> is the number of that day,
  used as the key wherever the code uses the ten characters.
\<close>

type_synonym date = int

definition DAY_MS :: int where "DAY_MS = 86400000"

lemma DAY_MS_pos [simp]: "0 < DAY_MS"
  by (simp add: DAY_MS_def)

definition iso_day :: "date \<Rightarrow> int" where
  "iso_day t = t div DAY_MS"

section \<open>Years and months\<close>

definition leap :: "int \<Rightarrow> bool" where
  "leap y \<longleftrightarrow> 4 dvd y \<and> (\<not> 100 dvd y \<or> 400 dvd y)"

definition day_from_year :: "int \<Rightarrow> int" where
  "day_from_year y =
     365 * (y - 1970) + (y - 1969) div 4 - (y - 1901) div 100 + (y - 1601) div 400"

definition year_of_day :: "int \<Rightarrow> int" where
  "year_of_day d =
     (let y = 1970 + (400 * d) div 146097
      in if d < day_from_year y then y - 1
         else if day_from_year (y + 1) \<le> d then y + 1 else y)"

definition days_in_year :: "int \<Rightarrow> int" where
  "days_in_year y = (if leap y then 366 else 365)"

definition month_start :: "bool \<Rightarrow> int \<Rightarrow> int" where
  "month_start lp m =
     (if m = 0 then 0 else if m = 1 then 31 else
      (if lp then 1 else 0) +
      (if m = 2 then 59 else if m = 3 then 90 else if m = 4 then 120 else if m = 5 then 151
       else if m = 6 then 181 else if m = 7 then 212 else if m = 8 then 243 else if m = 9 then 273
       else if m = 10 then 304 else if m = 11 then 334 else 365))"

definition month_of_day :: "bool \<Rightarrow> int \<Rightarrow> int" where
  "month_of_day lp n =
     (if n < month_start lp 1 then 0 else if n < month_start lp 2 then 1
      else if n < month_start lp 3 then 2 else if n < month_start lp 4 then 3
      else if n < month_start lp 5 then 4 else if n < month_start lp 6 then 5
      else if n < month_start lp 7 then 6 else if n < month_start lp 8 then 7
      else if n < month_start lp 9 then 8 else if n < month_start lp 10 then 9
      else if n < month_start lp 11 then 10 else 11)"

definition days_in_month :: "int \<Rightarrow> int \<Rightarrow> int" where
  "days_in_month y m = month_start (leap y) (m + 1) - month_start (leap y) m"

section \<open>Building and reading a date\<close>

definition make_day :: "int \<Rightarrow> int \<Rightarrow> int \<Rightarrow> int" where
  "make_day y m d =
     (let y' = y + m div 12 in day_from_year y' + month_start (leap y') (m mod 12) + d - 1)"

text \<open>\<open>Date.UTC(y, m, d)\<close>, months from 0; a year from 0 to 99 means 1900 to 1999.\<close>

definition date_utc :: "int \<Rightarrow> int \<Rightarrow> int \<Rightarrow> date" where
  "date_utc y m d = make_day (if 0 \<le> y \<and> y \<le> 99 then 1900 + y else y) m d * DAY_MS"

definition utc_year :: "date \<Rightarrow> int" where
  "utc_year t = year_of_day (iso_day t)"

definition day_in_year :: "date \<Rightarrow> int" where
  "day_in_year t = iso_day t - day_from_year (utc_year t)"

definition utc_month :: "date \<Rightarrow> int" where
  "utc_month t = month_of_day (leap (utc_year t)) (day_in_year t)"

definition utc_date :: "date \<Rightarrow> int" where
  "utc_date t = day_in_year t - month_start (leap (utc_year t)) (utc_month t) + 1"

text \<open>\<open>getUTCDay\<close>: 0 is Sunday.\<close>

definition utc_day :: "date \<Rightarrow> int" where
  "utc_day t = (iso_day t + 4) mod 7"

section \<open>Facts about years\<close>

lemma div_pred:
  fixes y n :: int
  assumes "0 < n"
  shows "y div n = (y - 1) div n + (if n dvd y then 1 else 0)"
proof (cases "n dvd y")
  case True
  then obtain q where y: "y = n * q" by (elim dvdE)
  have "(y - 1) div n = q - 1"
    using assms by (intro int_div_pos_eq [of _ _ _ "n - 1"]) (auto simp: y algebra_simps)
  with True assms show ?thesis by (simp add: y)
next
  case False
  then have "0 < y mod n" using assms by (simp add: dvd_eq_mod_eq_0 order_less_le)
  moreover have "y mod n < n" "y = n * (y div n) + y mod n" using assms by auto
  ultimately have "(y - 1) div n = y div n"
    by (intro int_div_pos_eq [of _ _ _ "y mod n - 1"]) auto
  with False show ?thesis by simp
qed

lemma div_shift:
  fixes y n q c :: int
  assumes "0 < n" and "c = q * n"
  shows "(y - c) div n = y div n - q"
  using div_mult_self1 [of n y "- q"] assms by (simp add: algebra_simps)

lemma day_from_year_Suc: "day_from_year (y + 1) = day_from_year y + days_in_year y"
proof -
  have 4: "(y + 1 - 1969) div 4 = (y - 1969) div 4 + (if 4 dvd y then 1 else 0)"
    using div_pred [of 4 y] div_shift [of 4 1968 492 y] div_shift [of 4 1968 492 "y - 1"] by simp
  have 100: "(y + 1 - 1901) div 100 = (y - 1901) div 100 + (if 100 dvd y then 1 else 0)"
    using div_pred [of 100 y] div_shift [of 100 1900 19 y] div_shift [of 100 1900 19 "y - 1"] by simp
  have 400: "(y + 1 - 1601) div 400 = (y - 1601) div 400 + (if 400 dvd y then 1 else 0)"
    using div_pred [of 400 y] div_shift [of 400 1600 4 y] div_shift [of 400 1600 4 "y - 1"] by simp
  have d: "100 dvd y \<Longrightarrow> 4 dvd y" "400 dvd y \<Longrightarrow> 100 dvd y"
    by (auto intro: dvd_trans [of 4 100] dvd_trans [of 100 400])
  show ?thesis
    unfolding day_from_year_def 4 100 400 days_in_year_def leap_def
    using d by (cases "4 dvd y"; cases "100 dvd y"; cases "400 dvd y") simp_all
qed

lemma days_in_year_bounds: "365 \<le> days_in_year y \<and> days_in_year y \<le> 366"
  by (simp add: days_in_year_def)

lemma day_from_year_mono: "y \<le> z \<Longrightarrow> day_from_year y + 365 * (z - y) \<le> day_from_year z"
proof (induction "nat (z - y)" arbitrary: z)
  case 0
  then show ?case by simp
next
  case (Suc n)
  then have "day_from_year y + 365 * (z - 1 - y) \<le> day_from_year (z - 1)" by (intro Suc.hyps) auto
  with day_from_year_Suc [of "z - 1"] days_in_year_bounds [of "z - 1"] show ?case by simp
qed

lemma div_bounds:
  fixes n k :: int
  assumes "0 < k" shows "k * (n div k) \<le> n" "n < k * (n div k) + k"
proof -
  have "n = k * (n div k) + n mod k" "0 \<le> n mod k" "n mod k < k" using assms by auto
  then show "k * (n div k) \<le> n" "n < k * (n div k) + k" by linarith+
qed

lemma day_from_year_approx:
  "146097 * (y - 1970) - 506 \<le> 400 * day_from_year y"
  "400 * day_from_year y \<le> 146097 * (y - 1970) + 589"
proof -
  define a b c where "a = (y - 1969) div 4" and "b = (y - 1901) div 100" and "c = (y - 1601) div 400"
  have "4 * a \<le> y - 1969" "y - 1969 < 4 * a + 4"
    "100 * b \<le> y - 1901" "y - 1901 < 100 * b + 100"
    "400 * c \<le> y - 1601" "y - 1601 < 400 * c + 400"
    unfolding a_def b_def c_def by (rule div_bounds, simp)+
  note bd = this
  have eq: "day_from_year y = 365 * (y - 1970) + a - b + c"
    by (simp add: day_from_year_def a_def b_def c_def)
  show "146097 * (y - 1970) - 506 \<le> 400 * day_from_year y"
    unfolding eq using bd by (simp add: algebra_simps)
  show "400 * day_from_year y \<le> 146097 * (y - 1970) + 589"
    unfolding eq using bd by (simp add: algebra_simps)
qed

lemma year_of_day_le: "day_from_year (year_of_day d) \<le> d"
  and year_of_day_less: "d < day_from_year (year_of_day d + 1)"
proof -
  define k where "k = (400 * d) div 146097"
  have k: "146097 * k \<le> 400 * d" "400 * d < 146097 * k + 146097"
    unfolding k_def by (rule div_bounds, simp)+
  have lo: "day_from_year (1970 + k - 1) \<le> d"
    using k day_from_year_approx(2) [of "1970 + k - 1"] by simp
  have hi: "d < day_from_year (1970 + k + 2)"
    using k day_from_year_approx(1) [of "1970 + k + 2"] by simp
  have eq: "year_of_day d = (if d < day_from_year (1970 + k) then 1970 + k - 1
      else if day_from_year (1970 + k + 1) \<le> d then 1970 + k + 1 else 1970 + k)"
    by (simp add: year_of_day_def Let_def k_def)
  have plus: "1970 + k + 1 + 1 = 1970 + k + 2" "1970 + k - 1 + 1 = 1970 + k" by simp_all
  show "day_from_year (year_of_day d) \<le> d" unfolding eq using lo by simp
  show "d < day_from_year (year_of_day d + 1)" unfolding eq
    using hi by (simp only: plus split: if_split) (simp add: not_le)
qed

lemma year_of_day_eqI:
  assumes "day_from_year y \<le> d" and "d < day_from_year y + days_in_year y"
  shows "year_of_day d = y"
proof (rule ccontr)
  assume "year_of_day d \<noteq> y"
  then consider "year_of_day d + 1 \<le> y" | "y + 1 \<le> year_of_day d" by linarith
  then show False
  proof cases
    case 1
    from day_from_year_mono [OF 1] 1 year_of_day_less [of d] assms show ?thesis
      by (simp add: algebra_simps)
  next
    case 2
    from day_from_year_mono [OF 2] 2 year_of_day_le [of d] assms(2) day_from_year_Suc [of y]
    show ?thesis by (simp add: algebra_simps)
  qed
qed

lemma month_cases:
  fixes m :: int
  assumes "0 \<le> m" and "m < 12"
  obtains "m = 0" | "m = 1" | "m = 2" | "m = 3" | "m = 4" | "m = 5" | "m = 6" | "m = 7"
    | "m = 8" | "m = 9" | "m = 10" | "m = 11"
proof -
  have "m = 0 \<or> m = 1 \<or> m = 2 \<or> m = 3 \<or> m = 4 \<or> m = 5 \<or> m = 6 \<or> m = 7
    \<or> m = 8 \<or> m = 9 \<or> m = 10 \<or> m = 11" using assms by arith
  with that show ?thesis by blast
qed

lemma month_of_day_eq:
  assumes "0 \<le> m" "m < 12" "month_start lp m \<le> n" "n < month_start lp (m + 1)"
  shows "month_of_day lp n = m"
  using assms(1,2)
proof (cases rule: month_cases)
qed (use assms(3,4) in \<open>auto simp: month_of_day_def month_start_def split: if_splits\<close>)

lemma month_start_range:
  assumes "0 \<le> m" "m < 12"
  shows "0 \<le> month_start lp m \<and> month_start lp m + 28 \<le> month_start lp (m + 1)
    \<and> month_start lp (m + 1) \<le> (if lp then 366 else 365)"
  using assms by (cases rule: month_cases) (auto simp: month_start_def)

section \<open>Reading back what was built\<close>

lemma iso_day_date_utc: "100 \<le> y \<Longrightarrow> iso_day (date_utc y m d) = make_day y m d"
  using DAY_MS_pos by (simp add: iso_day_def date_utc_def del: DAY_MS_pos)

lemma utc_readers:
  assumes y: "100 \<le> y" and m: "0 \<le> m" "m < 12" and d: "1 \<le> d" "d \<le> days_in_month y m"
  shows "utc_year (date_utc y m d) = y \<and> utc_month (date_utc y m d) = m
    \<and> utc_date (date_utc y m d) = d"
proof -
  let ?t = "date_utc y m d"
  have day: "iso_day ?t = day_from_year y + month_start (leap y) m + d - 1"
    using y m by (simp add: iso_day_date_utc make_day_def Let_def)
  have bd: "0 \<le> month_start (leap y) m" "month_start (leap y) (m + 1) \<le> days_in_year y"
    using month_start_range [OF m, of "leap y"] by (auto simp: days_in_year_def)
  have yr: "utc_year ?t = y"
    unfolding utc_year_def day using bd d by (intro year_of_day_eqI) (auto simp: days_in_month_def)
  have diy: "day_in_year ?t = month_start (leap y) m + d - 1"
    by (simp add: day_in_year_def yr day)
  have mon: "utc_month ?t = m"
    unfolding utc_month_def yr diy using m d by (intro month_of_day_eq) (auto simp: days_in_month_def)
  show ?thesis by (simp add: yr mon utc_date_def diy)
qed

text \<open>Months beyond December carry into the next year.\<close>

lemma make_day_carry: "make_day y (m + 12) d = make_day (y + 1) m d"
proof -
  have "y + (m + 12) div 12 = y + 1 + m div 12" by simp
  then show ?thesis by (simp only: make_day_def mod_add_self2)
qed

lemma make_day_next_month:
  assumes "0 \<le> m" "m < 12"
  shows "make_day y (m + 1) 1 = make_day y m 1 + days_in_month y m"
proof (cases "m = 11")
  case True
  have "month_start (leap y) 12 = days_in_year y" by (simp add: month_start_def days_in_year_def)
  with True show ?thesis
    by (simp add: make_day_def days_in_month_def day_from_year_Suc month_start_def)
next
  case False
  with assms show ?thesis by (simp add: make_day_def days_in_month_def)
qed

lemma days_in_month_bounds:
  "0 \<le> m \<Longrightarrow> m < 12 \<Longrightarrow> 28 \<le> days_in_month y m \<and> days_in_month y m \<le> 31"
  by (elim month_cases) (auto simp: days_in_month_def month_start_def)

section \<open>What the readers return\<close>

lemma month_of_day_range:
  assumes "0 \<le> n" and "n < (if lp then 366 else 365)"
  shows "0 \<le> month_of_day lp n \<and> month_of_day lp n < 12
    \<and> month_start lp (month_of_day lp n) \<le> n \<and> n < month_start lp (month_of_day lp n + 1)"
  using assms by (auto simp: month_of_day_def month_start_def)

lemma day_in_year_bounds: "0 \<le> day_in_year t \<and> day_in_year t < days_in_year (utc_year t)"
  using year_of_day_le [of "iso_day t"] year_of_day_less [of "iso_day t"]
    day_from_year_Suc [of "utc_year t"]
  by (simp add: day_in_year_def utc_year_def)

lemma utc_month_bounds: "0 \<le> utc_month t" "utc_month t < 12"
  using month_of_day_range [of "day_in_year t" "leap (utc_year t)"] day_in_year_bounds [of t]
  by (simp_all add: utc_month_def days_in_year_def)

lemma utc_date_bounds: "1 \<le> utc_date t" "utc_date t \<le> days_in_month (utc_year t) (utc_month t)"
  using month_of_day_range [of "day_in_year t" "leap (utc_year t)"] day_in_year_bounds [of t]
  by (simp_all add: utc_date_def utc_month_def days_in_month_def days_in_year_def)

text \<open>The same calendar day of a year, with 29 February carried to 1 March.\<close>

lemma date_utc_in_year:
  assumes "100 \<le> y" and "0 \<le> m" and "m < 12" and "1 \<le> d" and "d \<le> days_in_month z m"
  shows "date_utc y m d = (day_from_year y + month_start (leap y) m + d - 1) * DAY_MS"
    and "day_from_year y \<le> day_from_year y + month_start (leap y) m + d - 1"
    and "day_from_year y + month_start (leap y) m + d - 1 < day_from_year (y + 1)"
proof -
  show "date_utc y m d = (day_from_year y + month_start (leap y) m + d - 1) * DAY_MS"
    using assms(1-3) by (simp add: date_utc_def make_day_def)
  have "0 \<le> month_start (leap y) m" using month_start_range [OF assms(2,3)] by simp
  then show "day_from_year y \<le> day_from_year y + month_start (leap y) m + d - 1" using assms(4) by simp
  have "month_start (leap y) m + d \<le> days_in_year y"
    using assms(2,3)
    by (cases rule: month_cases)
      (use assms(5) in \<open>auto simp: days_in_month_def month_start_def days_in_year_def split: if_splits\<close>)
  then show "day_from_year y + month_start (leap y) m + d - 1 < day_from_year (y + 1)"
    by (simp add: day_from_year_Suc)
qed

lemma midnight_le_iff: "d * DAY_MS \<le> t \<longleftrightarrow> d \<le> iso_day t"
proof
  assume "d * DAY_MS \<le> t"
  then have "d * DAY_MS div DAY_MS \<le> t div DAY_MS" by (rule zdiv_mono1) simp
  then show "d \<le> iso_day t" by (simp add: iso_day_def less_imp_neq [OF DAY_MS_pos, symmetric])
next
  assume "d \<le> iso_day t"
  then have "d * DAY_MS \<le> t div DAY_MS * DAY_MS"
    unfolding iso_day_def by (rule mult_right_mono) (simp add: DAY_MS_def)
  then show "d * DAY_MS \<le> t"
    by (rule order_trans) (metis div_bounds(1) DAY_MS_pos mult.commute)
qed

end
