(* ===== verification/FinancialYear.thy ===== *)
theory FinancialYear
  imports Calendar
begin

text \<open>
  \<open>apps/api/src/payroll/financial-year.util.ts\<close>: the Indian financial year (April to March) a
  period \<open>YYYY-MM\<close> falls in, its twelve periods, and how many are left. Periods are the strings
  the code splits and builds; \<open>period_text y m\<close> is the well-formed period of a year and month.
\<close>

section \<open>Numbers and their text\<close>

definition digit :: "int \<Rightarrow> char" where
  "digit n = char_of (48 + n)"

function num_text :: "int \<Rightarrow> string" where
  "num_text n = (if n < 10 then [digit n] else num_text (n div 10) @ [digit (n mod 10)])"
  by pat_completeness auto
termination by (relation "measure nat") (auto simp: nat_less_iff)

declare num_text.simps [simp del]

text \<open>\<open>String(n).padStart(2, '0')\<close>\<close>

definition pad2 :: "int \<Rightarrow> string" where
  "pad2 n = (let s = num_text n in if length s < 2 then replicate (2 - length s) CHR ''0'' @ s else s)"

section \<open>Periods\<close>

text \<open>\<open>const [yearStr, monthStr] = period.split('-')\<close>, each through \<open>Number\<close>.\<close>

definition period_year :: "string \<Rightarrow> int" where
  "period_year p = digits_value (takeWhile (\<lambda>c. c \<noteq> CHR ''-'') p)"

definition period_month :: "string \<Rightarrow> int" where
  "period_month p =
     digits_value (takeWhile (\<lambda>c. c \<noteq> CHR ''-'') (drop 1 (dropWhile (\<lambda>c. c \<noteq> CHR ''-'') p)))"

definition fy_start :: "string \<Rightarrow> int" where
  "fy_start p = (if 4 \<le> period_month p then period_year p else period_year p - 1)"

definition financial_year :: "string \<Rightarrow> string" where
  "financial_year p = num_text (fy_start p) @ ''-'' @ pad2 ((fy_start p + 1) mod 100)"

definition period_text :: "int \<Rightarrow> int \<Rightarrow> string" where
  "period_text y m = num_text y @ ''-'' @ pad2 m"

definition financial_year_periods :: "string \<Rightarrow> string list" where
  "financial_year_periods p =
     map (\<lambda>i. let absolute_month = 4 + i;
                 y = fy_start p + (absolute_month - 1) div 12;
                 m = (absolute_month - 1) mod 12 + 1
             in period_text y m) [0, 1, 2, 3, 4, 5, 6, 7, 8, 9, 10, 11]"

fun index_of :: "'a \<Rightarrow> 'a list \<Rightarrow> int" where
  "index_of x [] = -1"
| "index_of x (y # ys) = (if x = y then 0 else (let i = index_of x ys in if i = -1 then -1 else i + 1))"

definition months_remaining_in_financial_year :: "string \<Rightarrow> int" where
  "months_remaining_in_financial_year p = 12 - index_of p (financial_year_periods p)"

text \<open>\<open>periods.slice(0, end)\<close>: a negative end counts from the back.\<close>

definition slice_to :: "int \<Rightarrow> 'a list \<Rightarrow> 'a list" where
  "slice_to e xs = take (nat (if e < 0 then max 0 (int (length xs) + e) else e)) xs"

definition elapsed_periods_in_financial_year :: "string \<Rightarrow> string list" where
  "elapsed_periods_in_financial_year p =
     slice_to (index_of p (financial_year_periods p)) (financial_year_periods p)"

section \<open>Reading back the text of a number\<close>

lemma digits_value_append1: "digits_value (s @ [c]) = 10 * digits_value s + (of_char c - 48)"
  by (simp add: digits_value_def)

lemma of_char_digit: "0 \<le> n \<Longrightarrow> n < 10 \<Longrightarrow> (of_char (digit n) :: int) = 48 + n"
  by (simp add: digit_def)

lemma digits_value_num_text: "0 \<le> n \<Longrightarrow> digits_value (num_text n) = n"
proof (induction n rule: num_text.induct)
  case (1 n)
  then show ?case
    by (subst num_text.simps)
      (auto simp: digits_value_append1 of_char_digit digits_value_def [of "[_]"])
qed

lemma digits_value_zeros: "digits_value (replicate k CHR ''0'' @ s) = digits_value s"
  by (induction k) (simp_all add: digits_value_def)

lemma digits_value_pad2: "0 \<le> n \<Longrightarrow> digits_value (pad2 n) = n"
  by (simp add: pad2_def Let_def digits_value_zeros digits_value_num_text)

lemma digit_not_dash: "0 \<le> n \<Longrightarrow> n < 10 \<Longrightarrow> digit n \<noteq> CHR ''-''"
proof
  assume "0 \<le> n" "n < 10" "digit n = CHR ''-''"
  then have "(of_char CHR ''-'' :: int) = 48 + n" using of_char_digit by metis
  with \<open>0 \<le> n\<close> show False by simp
qed

lemma num_text_no_dash: "0 \<le> n \<Longrightarrow> CHR ''-'' \<notin> set (num_text n)"
proof (induction n rule: num_text.induct)
  case (1 n)
  show ?case
  proof (cases "n < 10")
    case True
    with "1.prems" digit_not_dash [of n] show ?thesis by (subst num_text.simps) auto
  next
    case False
    with 1 have "CHR ''-'' \<notin> set (num_text (n div 10))" by auto
    moreover have "CHR ''-'' \<noteq> digit (n mod 10)" using digit_not_dash [of "n mod 10"] by simp
    ultimately show ?thesis using False by (subst num_text.simps) simp
  qed
qed

lemma pad2_no_dash: "0 \<le> n \<Longrightarrow> CHR ''-'' \<notin> set (pad2 n)"
  using num_text_no_dash [of n] by (auto simp: pad2_def Let_def)

lemma takeWhile_all: "CHR ''-'' \<notin> set s \<Longrightarrow> takeWhile (\<lambda>c. c \<noteq> CHR ''-'') s = s"
  by (auto simp: takeWhile_eq_all_conv)

lemma period_parts:
  assumes "0 \<le> y" and "0 \<le> m"
  shows "period_year (period_text y m) = y" and "period_month (period_text y m) = m"
proof -
  note nd = num_text_no_dash [OF assms(1)] pad2_no_dash [OF assms(2)]
  have ne: "\<forall>c \<in> set (num_text y). c \<noteq> CHR ''-''" using nd(1) by metis
  have "takeWhile (\<lambda>c. c \<noteq> CHR ''-'') (period_text y m) = num_text y"
    and "dropWhile (\<lambda>c. c \<noteq> CHR ''-'') (period_text y m) = CHR ''-'' # pad2 m"
    using ne by (simp_all add: period_text_def takeWhile_append2 dropWhile_append2)
  then show "period_year (period_text y m) = y" "period_month (period_text y m) = m"
    using assms nd(2)
    by (simp_all add: period_year_def period_month_def digits_value_num_text digits_value_pad2
        takeWhile_all)
qed

lemma period_text_inj:
  "0 \<le> y \<Longrightarrow> 0 \<le> m \<Longrightarrow> 0 \<le> y' \<Longrightarrow> 0 \<le> m' \<Longrightarrow> period_text y m = period_text y' m' \<longleftrightarrow> y = y' \<and> m = m'"
  using period_parts by metis

section \<open>Facts about the financial year\<close>

lemma financial_year_periods_eq:
  "financial_year_periods p =
     map (period_text (fy_start p)) [4, 5, 6, 7, 8, 9, 10, 11, 12]
     @ map (period_text (fy_start p + 1)) [1, 2, 3]"
  by (simp add: financial_year_periods_def Let_def)

lemma index_of_period:
  assumes "1 \<le> y" and "1 \<le> m" "m \<le> 12"
  shows "index_of (period_text y m) (financial_year_periods (period_text y m))
    = (if 4 \<le> m then m - 4 else m + 8)"
proof -
  let ?p = "period_text y m"
  have fy: "fy_start ?p = (if 4 \<le> m then y else y - 1)"
    using assms by (simp add: fy_start_def period_parts)
  have "m = 1 \<or> m = 2 \<or> m = 3 \<or> m = 4 \<or> m = 5 \<or> m = 6 \<or> m = 7 \<or> m = 8 \<or> m = 9 \<or> m = 10
    \<or> m = 11 \<or> m = 12" using assms by arith
  then show ?thesis
    using assms(1) fy
    by (elim disjE; hypsubst) (simp_all add: financial_year_periods_eq period_text_inj)
qed

text \<open>
  For every well-formed period the months remaining are those from that month to March, itself
  included (12 in April, 1 in March), and the elapsed periods are exactly the others: the two
  always add up to the twelve periods of the year, the elapsed ones first.
\<close>

theorem financial_year_split:
  assumes "1 \<le> y" and "1 \<le> m" and "m \<le> 12"
  shows "months_remaining_in_financial_year (period_text y m) = (if 4 \<le> m then 16 - m else 4 - m)
    \<and> int (length (elapsed_periods_in_financial_year (period_text y m)))
        + months_remaining_in_financial_year (period_text y m) = 12
    \<and> period_text y m \<notin> set (elapsed_periods_in_financial_year (period_text y m))
    \<and> financial_year_periods (period_text y m) =
        elapsed_periods_in_financial_year (period_text y m) @ period_text y m
        # drop (Suc (length (elapsed_periods_in_financial_year (period_text y m))))
            (financial_year_periods (period_text y m))"
proof -
  let ?p = "period_text y m"
  have fy: "fy_start ?p = (if 4 \<le> m then y else y - 1)"
    using assms by (simp add: fy_start_def period_parts)
  have "m = 1 \<or> m = 2 \<or> m = 3 \<or> m = 4 \<or> m = 5 \<or> m = 6 \<or> m = 7 \<or> m = 8 \<or> m = 9 \<or> m = 10
    \<or> m = 11 \<or> m = 12" using assms by arith
  then show ?thesis
    using assms(1) fy
    by (elim disjE; hypsubst)
      (simp_all add: months_remaining_in_financial_year_def elapsed_periods_in_financial_year_def
        index_of_period slice_to_def financial_year_periods_eq period_text_inj)
qed

theorem financial_year_split_witness:
  "months_remaining_in_financial_year ''2027-02'' = 2
   \<and> length (elapsed_periods_in_financial_year ''2027-02'') = 10"
proof -
  have p: "''2027-02'' = period_text 2027 2"
    by (simp add: period_text_def pad2_def num_text.simps digit_def char_of_def)
  have "int (length (elapsed_periods_in_financial_year (period_text 2027 2))) = 10"
    using financial_year_split [of 2027 2] by simp
  then show ?thesis unfolding p using financial_year_split [of 2027 2] by simp
qed

end
