(* ===== verification/Statutory.thy ===== *)
theory Statutory
  imports FinancialYear "HOL-Library.Multiset"
begin

text \<open>
  The statutory tables of \<open>apps/api/src/payroll\<close>: the validation of Professional Tax and income
  tax slabs (\<open>validatePtSlabs\<close>, \<open>validateTaxSlabs\<close> of \<open>payroll-config.service.ts\<close>), the lookup of
  the slab of a gross (\<open>professional-tax.util.ts\<close>), and the tables a tenant starts with
  (\<open>payroll-defaults.ts\<close>). The locale \<open>slab_schedule\<close> is the contract both validators
  satisfy; what it gives (every amount lies in exactly one band) is proved once.
\<close>

section \<open>Slabs\<close>

datatype config_error =
    FirstSlabNotAtZero
  | LastSlabClosed
  | OpenSlabNotLast
  | SlabEndsBeforeStart rat
  | SlabsNotContiguous rat
  | NoSlabs \<comment> \<open>\<open>sorted[0]\<close> of an empty list: a TypeError\<close>

record pt_slab =
  gross_from :: decimal
  gross_to :: "decimal option"
  monthly_amount :: decimal
  february_amount :: "decimal option"

record tax_slab =
  income_from :: decimal
  income_to :: "decimal option"
  rate_percent :: decimal

text \<open>The \<open>forEach\<close> of \<open>validatePtSlabs\<close> over the sorted slabs.\<close>

fun check_pt_slabs :: "pt_slab list \<Rightarrow> (config_error exn, unit) result" where
  "check_pt_slabs [] = Inr ()"
| "check_pt_slabs [slab] =
     (if gross_to slab \<noteq> None then Inl (BadRequest LastSlabClosed) else Inr ())"
| "check_pt_slabs (slab # next_slab # rest) =
     (case gross_to slab of
        None \<Rightarrow> Inl (BadRequest OpenSlabNotLast)
      | Some to \<Rightarrow>
          if to \<le> gross_from slab then Inl (BadRequest (SlabEndsBeforeStart (gross_from slab)))
          else if to \<noteq> gross_from next_slab then Inl (BadRequest (SlabsNotContiguous to))
          else check_pt_slabs (next_slab # rest))"

definition validate_pt_slabs :: "pt_slab list \<Rightarrow> (config_error exn, pt_slab list) result" where
  "validate_pt_slabs slabs =
     (case sort_key gross_from slabs of
        [] \<Rightarrow> Inl (Crash NoSlabs)
      | first # rest \<Rightarrow>
          if gross_from first \<noteq> 0 then Inl (BadRequest FirstSlabNotAtZero)
          else and_then (check_pt_slabs (first # rest)) (\<lambda>_. Inr (first # rest)))"

fun check_tax_slabs :: "tax_slab list \<Rightarrow> (config_error exn, unit) result" where
  "check_tax_slabs [] = Inr ()"
| "check_tax_slabs [slab] =
     (if income_to slab \<noteq> None then Inl (BadRequest LastSlabClosed) else Inr ())"
| "check_tax_slabs (slab # next_slab # rest) =
     (case income_to slab of
        None \<Rightarrow> Inl (BadRequest OpenSlabNotLast)
      | Some to \<Rightarrow>
          if to \<le> income_from slab then Inl (BadRequest (SlabEndsBeforeStart (income_from slab)))
          else if to \<noteq> income_from next_slab then Inl (BadRequest (SlabsNotContiguous to))
          else check_tax_slabs (next_slab # rest))"

definition validate_tax_slabs :: "tax_slab list \<Rightarrow> (config_error exn, tax_slab list) result" where
  "validate_tax_slabs slabs =
     (case sort_key income_from slabs of
        [] \<Rightarrow> Inl (Crash NoSlabs)
      | first # rest \<Rightarrow>
          if income_from first \<noteq> 0 then Inl (BadRequest FirstSlabNotAtZero)
          else and_then (check_tax_slabs (first # rest)) (\<lambda>_. Inr (first # rest)))"

section \<open>The contract of a slab schedule\<close>

text \<open>Contiguous bands from a start on: each ends where the next begins, the last is open.\<close>

fun contiguous_from :: "('s \<Rightarrow> rat) \<Rightarrow> ('s \<Rightarrow> rat option) \<Rightarrow> rat \<Rightarrow> 's list \<Rightarrow> bool" where
  "contiguous_from lo hi a [] = False"
| "contiguous_from lo hi a [s] = (lo s = a \<and> hi s = None)"
| "contiguous_from lo hi a (s # t # ss) =
     (lo s = a \<and> (\<exists>b. hi s = Some b \<and> a < b \<and> contiguous_from lo hi b (t # ss)))"

definition in_band :: "('s \<Rightarrow> rat) \<Rightarrow> ('s \<Rightarrow> rat option) \<Rightarrow> rat \<Rightarrow> 's \<Rightarrow> bool" where
  "in_band lo hi x s \<longleftrightarrow> lo s \<le> x \<and> (case hi s of None \<Rightarrow> True | Some b \<Rightarrow> x < b)"

lemma contiguous_from_lo: "contiguous_from lo hi a ss \<Longrightarrow> s \<in> set ss \<Longrightarrow> a \<le> lo s"
proof (induction lo hi a ss rule: contiguous_from.induct)
  case (3 lo hi a s' t ss)
  then show ?case by fastforce
qed auto

lemma contiguous_from_covers:
  assumes "contiguous_from lo hi a ss" and "a \<le> x"
  shows "\<exists>i < length ss. in_band lo hi x (ss ! i)
    \<and> (\<forall>j < length ss. in_band lo hi x (ss ! j) \<longrightarrow> j = i)"
  using assms
proof (induction lo hi a ss rule: contiguous_from.induct)
  case (3 lo hi a s t ss)
  then obtain b where b: "lo s = a" "hi s = Some b" "a < b" "contiguous_from lo hi b (t # ss)" by auto
  show ?case
  proof (cases "x < b")
    case True
    have none: "\<not> in_band lo hi x u" if "u \<in> set (t # ss)" for u
      using contiguous_from_lo [OF b(4) that] True by (simp add: in_band_def)
    have only: "j = 0" if "j < length (s # t # ss)" "in_band lo hi x ((s # t # ss) ! j)" for j
    proof (cases j)
      case (Suc k)
      then have "(s # t # ss) ! j \<in> set (t # ss)" using that(1) nth_mem [of k "t # ss"] by simp
      with none that(2) show ?thesis by blast
    qed simp
    have "in_band lo hi x s" using b 3 True by (simp add: in_band_def)
    then have "in_band lo hi x ((s # t # ss) ! 0)" by simp
    with only show ?thesis by (intro exI [of _ 0]) auto
  next
    case False
    then have "b \<le> x" by simp
    from 3(1) [OF b(4) this] obtain i where i: "i < length (t # ss)" "in_band lo hi x ((t # ss) ! i)"
      "\<forall>j < length (t # ss). in_band lo hi x ((t # ss) ! j) \<longrightarrow> j = i" by blast
    have not_s: "\<not> in_band lo hi x s" using False b by (simp add: in_band_def)
    have only: "j = Suc i" if "j < length (s # t # ss)" "in_band lo hi x ((s # t # ss) ! j)" for j
    proof (cases j)
      case 0
      with that(2) not_s show ?thesis by simp
    next
      case (Suc k)
      with that have "k < length (t # ss)" "in_band lo hi x ((t # ss) ! k)" by simp_all
      with i(3) Suc show ?thesis by blast
    qed
    have "Suc i < length (s # t # ss)" "in_band lo hi x ((s # t # ss) ! Suc i)" using i(1,2) by simp_all
    with only show ?thesis by blast
  qed
qed (auto simp: in_band_def)

locale slab_schedule =
  fixes lo :: "'s \<Rightarrow> rat" and hi :: "'s \<Rightarrow> rat option"
    and validate :: "'s list \<Rightarrow> (config_error exn, 's list) result"
  assumes valid_bands: "validate ss = Inr ts \<Longrightarrow> contiguous_from lo hi 0 ts"
    and valid_same: "validate ss = Inr ts \<Longrightarrow> mset ts = mset ss"
    and valid_complete: "contiguous_from lo hi 0 ss \<Longrightarrow> validate ss = Inr ss"
begin

lemma unique_band:
  assumes "validate ss = Inr ts" and "0 \<le> x"
  shows "\<exists>i < length ts. in_band lo hi x (ts ! i)
    \<and> (\<forall>j < length ts. in_band lo hi x (ts ! j) \<longrightarrow> j = i)"
  using contiguous_from_covers [OF valid_bands [OF assms(1)] assms(2)] .

lemma find_band:
  assumes "validate ss = Inr ts" and "0 \<le> x"
  obtains s where "List.find (in_band lo hi x) ts = Some s" "s \<in> set ss"
proof -
  from unique_band [OF assms] obtain i where i: "i < length ts" "in_band lo hi x (ts ! i)" by blast
  then have "List.find (in_band lo hi x) ts \<noteq> None" unfolding find_None_iff using nth_mem by blast
  then obtain s where s: "List.find (in_band lo hi x) ts = Some s" by blast
  then have "s \<in> set ts" by (auto simp: find_Some_iff)
  with valid_same [OF assms(1)] have "s \<in> set ss" by (metis set_mset_mset)
  with s that show thesis by blast
qed

lemma idempotent: "validate ss = Inr ts \<Longrightarrow> validate ts = Inr ts"
  by (rule valid_complete) (rule valid_bands)

end

lemma sorted_contiguous:
  "contiguous_from lo hi a ss \<Longrightarrow> sorted (map lo ss)"
proof (induction lo hi a ss rule: contiguous_from.induct)
  case (3 lo hi a s t ss)
  then obtain b where b: "lo s = a" "a < b" "contiguous_from lo hi b (t # ss)" by auto
  then have "\<forall>u \<in> set (t # ss). lo s \<le> lo u" using contiguous_from_lo [OF b(3)] by fastforce
  with 3 b show ?case by simp
qed auto

lemma contiguous_hd: "contiguous_from lo hi a ss \<Longrightarrow> ss \<noteq> [] \<and> lo (hd ss) = a"
  by (cases "(lo, hi, a, ss)" rule: contiguous_from.cases) auto

lemma check_pt_slabs_iff:
  "ss \<noteq> [] \<Longrightarrow> check_pt_slabs ss = Inr () \<longleftrightarrow> contiguous_from gross_from gross_to (gross_from (hd ss)) ss"
  by (induction ss rule: check_pt_slabs.induct) (auto split: option.splits dest: contiguous_hd)

lemma check_tax_slabs_iff:
  "ss \<noteq> [] \<Longrightarrow> check_tax_slabs ss = Inr () \<longleftrightarrow> contiguous_from income_from income_to (income_from (hd ss)) ss"
  by (induction ss rule: check_tax_slabs.induct) (auto split: option.splits dest: contiguous_hd)

interpretation pt: slab_schedule gross_from gross_to validate_pt_slabs
proof
  fix ss ts :: "pt_slab list"
  assume "validate_pt_slabs ss = Inr ts"
  then obtain u us where u: "sort_key gross_from ss = u # us" "ts = u # us" "gross_from u = 0"
    "check_pt_slabs ts = Inr ()"
    by (auto simp: validate_pt_slabs_def and_then_Inr_iff split: list.splits if_splits)
  then show "contiguous_from gross_from gross_to 0 ts" "mset ts = mset ss"
    using check_pt_slabs_iff [of ts] mset_sort [of gross_from ss] by simp_all
next
  fix ss :: "pt_slab list"
  assume c: "contiguous_from gross_from gross_to 0 ss"
  then have "sort_key gross_from ss = ss" using sorted_contiguous by (intro sort_key_id_if_sorted)
  with c contiguous_hd [OF c] check_pt_slabs_iff [of ss] show "validate_pt_slabs ss = Inr ss"
    by (auto simp: validate_pt_slabs_def split: list.splits)
qed

interpretation tax: slab_schedule income_from income_to validate_tax_slabs
proof
  fix ss ts :: "tax_slab list"
  assume "validate_tax_slabs ss = Inr ts"
  then obtain u us where u: "sort_key income_from ss = u # us" "ts = u # us" "income_from u = 0"
    "check_tax_slabs ts = Inr ()"
    by (auto simp: validate_tax_slabs_def and_then_Inr_iff split: list.splits if_splits)
  then show "contiguous_from income_from income_to 0 ts" "mset ts = mset ss"
    using check_tax_slabs_iff [of ts] mset_sort [of income_from ss] by simp_all
next
  fix ss :: "tax_slab list"
  assume c: "contiguous_from income_from income_to 0 ss"
  then have "sort_key income_from ss = ss" using sorted_contiguous by (intro sort_key_id_if_sorted)
  with c contiguous_hd [OF c] check_tax_slabs_iff [of ss] show "validate_tax_slabs ss = Inr ss"
    by (auto simp: validate_tax_slabs_def split: list.splits)
qed

section \<open>Professional Tax\<close>

definition resolve_professional_tax :: "decimal \<Rightarrow> int \<Rightarrow> pt_slab list \<Rightarrow> decimal" where
  "resolve_professional_tax gross month slabs =
     (case List.find (\<lambda>s. gross_from s \<le> gross \<and>
              (case gross_to s of None \<Rightarrow> True | Some to \<Rightarrow> gross < to)) slabs of
        None \<Rightarrow> 0
      | Some slab \<Rightarrow>
          (case february_amount slab of
             Some f \<Rightarrow> if month = 2 then f else monthly_amount slab
           | None \<Rightarrow> monthly_amount slab))"

text \<open>The amount a slab charges in a month.\<close>

definition slab_charge :: "int \<Rightarrow> pt_slab \<Rightarrow> decimal" where
  "slab_charge month s =
     (case february_amount s of Some f \<Rightarrow> if month = 2 then f else monthly_amount s
      | None \<Rightarrow> monthly_amount s)"

lemma resolve_professional_tax_eq:
  "resolve_professional_tax gross month slabs =
     (case List.find (in_band gross_from gross_to gross) slabs of
        None \<Rightarrow> 0 | Some s \<Rightarrow> slab_charge month s)"
  unfolding resolve_professional_tax_def slab_charge_def in_band_def [abs_def] by (rule refl)

section \<open>The defaults of a new tenant\<close>

datatype indian_state =
    ANDHRA_PRADESH | ARUNACHAL_PRADESH | ASSAM | BIHAR | CHHATTISGARH | GOA | GUJARAT | HARYANA |
    HIMACHAL_PRADESH | JHARKHAND | KARNATAKA | KERALA | MADHYA_PRADESH | MAHARASHTRA | MANIPUR |
    MEGHALAYA | MIZORAM | NAGALAND | ODISHA | PUNJAB | RAJASTHAN | SIKKIM | TAMIL_NADU |
    TELANGANA | TRIPURA | UTTAR_PRADESH | UTTARAKHAND | WEST_BENGAL |
    ANDAMAN_AND_NICOBAR_ISLANDS | CHANDIGARH | DADRA_AND_NAGAR_HAVELI_AND_DAMAN_AND_DIU | DELHI |
    JAMMU_AND_KASHMIR | LADAKH | LAKSHADWEEP | PUDUCHERRY

text \<open>The order of the database enum is the order of its declaration.\<close>

definition INDIAN_STATES :: "indian_state list" where
  "INDIAN_STATES =
    [ANDHRA_PRADESH, ARUNACHAL_PRADESH, ASSAM, BIHAR, CHHATTISGARH, GOA, GUJARAT, HARYANA,
     HIMACHAL_PRADESH, JHARKHAND, KARNATAKA, KERALA, MADHYA_PRADESH, MAHARASHTRA, MANIPUR,
     MEGHALAYA, MIZORAM, NAGALAND, ODISHA, PUNJAB, RAJASTHAN, SIKKIM, TAMIL_NADU, TELANGANA,
     TRIPURA, UTTAR_PRADESH, UTTARAKHAND, WEST_BENGAL, ANDAMAN_AND_NICOBAR_ISLANDS, CHANDIGARH,
     DADRA_AND_NAGAR_HAVELI_AND_DAMAN_AND_DIU, DELHI, JAMMU_AND_KASHMIR, LADAKH, LAKSHADWEEP,
     PUDUCHERRY]"

definition state_rank :: "indian_state \<Rightarrow> int" where
  "state_rank st = index_of st INDIAN_STATES"

lemma state_rank_inj: "state_rank a = state_rank b \<longleftrightarrow> a = b"
proof -
  have nth: "0 \<le> state_rank st \<and> INDIAN_STATES ! nat (state_rank st) = st" for st
    by (cases st) (simp_all add: state_rank_def INDIAN_STATES_def)
  show ?thesis using nth [of a] nth [of b] by metis
qed

instantiation indian_state :: linorder
begin

definition less_eq_indian_state :: "indian_state \<Rightarrow> indian_state \<Rightarrow> bool" where
  "less_eq_indian_state a b \<longleftrightarrow> state_rank a \<le> state_rank b"

definition less_indian_state :: "indian_state \<Rightarrow> indian_state \<Rightarrow> bool" where
  "less_indian_state a b \<longleftrightarrow> state_rank a < state_rank b"

instance
proof
  fix a b c :: indian_state
  show "a < b \<longleftrightarrow> a \<le> b \<and> \<not> b \<le> a" "a \<le> a" "a \<le> b \<or> b \<le> a"
    by (auto simp: less_eq_indian_state_def less_indian_state_def)
  show "a \<le> b \<Longrightarrow> b \<le> c \<Longrightarrow> a \<le> c"
    by (simp add: less_eq_indian_state_def)
  show "a \<le> b \<Longrightarrow> b \<le> a \<Longrightarrow> a = b"
    by (simp add: less_eq_indian_state_def state_rank_inj [symmetric])
qed

end

datatype tax_regime = OLD | NEW

record tax_regime_config =
  standard_deduction :: decimal
  cess_percent :: decimal
  rebate_threshold :: decimal
  rebate_max_amount :: decimal

definition pt_seed :: "rat \<Rightarrow> rat option \<Rightarrow> rat \<Rightarrow> rat option \<Rightarrow> pt_slab" where
  "pt_seed f t a feb = \<lparr>gross_from = f, gross_to = t, monthly_amount = a, february_amount = feb\<rparr>"

fun DEFAULT_PT_SLABS :: "indian_state \<Rightarrow> pt_slab list" where
  "DEFAULT_PT_SLABS KARNATAKA =
     [pt_seed 0 (Some 25000) 0 None, pt_seed 25000 None 200 (Some 300)]"
| "DEFAULT_PT_SLABS MAHARASHTRA =
     [pt_seed 0 (Some 7501) 0 None, pt_seed 7501 (Some 10001) 175 None,
      pt_seed 10001 None 200 (Some 300)]"
| "DEFAULT_PT_SLABS TELANGANA =
     [pt_seed 0 (Some 15001) 0 None, pt_seed 15001 (Some 20001) 150 None,
      pt_seed 20001 None 200 None]"
| "DEFAULT_PT_SLABS ANDHRA_PRADESH =
     [pt_seed 0 (Some 15001) 0 None, pt_seed 15001 (Some 20001) 150 None,
      pt_seed 20001 None 200 None]"
| "DEFAULT_PT_SLABS WEST_BENGAL =
     [pt_seed 0 (Some 10001) 0 None, pt_seed 10001 (Some 15001) 110 None,
      pt_seed 15001 (Some 25001) 130 None, pt_seed 25001 (Some 40001) 150 None,
      pt_seed 40001 None 200 None]"
| "DEFAULT_PT_SLABS GUJARAT =
     [pt_seed 0 (Some 12000) 0 None, pt_seed 12000 None 200 None]"
| "DEFAULT_PT_SLABS _ = []"

definition tax_seed :: "rat \<Rightarrow> rat option \<Rightarrow> rat \<Rightarrow> tax_slab" where
  "tax_seed f t r = \<lparr>income_from = f, income_to = t, rate_percent = r\<rparr>"

fun DEFAULT_TAX_SLABS :: "tax_regime \<Rightarrow> tax_slab list" where
  "DEFAULT_TAX_SLABS NEW =
     [tax_seed 0 (Some 400000) 0, tax_seed 400000 (Some 800000) 5,
      tax_seed 800000 (Some 1200000) 10, tax_seed 1200000 (Some 1600000) 15,
      tax_seed 1600000 (Some 2000000) 20, tax_seed 2000000 (Some 2400000) 25,
      tax_seed 2400000 None 30]"
| "DEFAULT_TAX_SLABS OLD =
     [tax_seed 0 (Some 250000) 0, tax_seed 250000 (Some 500000) 5,
      tax_seed 500000 (Some 1000000) 20, tax_seed 1000000 None 30]"

fun DEFAULT_TAX_REGIME_CONFIG :: "tax_regime \<Rightarrow> tax_regime_config" where
  "DEFAULT_TAX_REGIME_CONFIG NEW =
     \<lparr>standard_deduction = 75000, cess_percent = 4, rebate_threshold = 1200000,
      rebate_max_amount = 60000\<rparr>"
| "DEFAULT_TAX_REGIME_CONFIG OLD =
     \<lparr>standard_deduction = 50000, cess_percent = 4, rebate_threshold = 500000,
      rebate_max_amount = 12500\<rparr>"

lemma default_pt_slabs_valid:
  "DEFAULT_PT_SLABS st \<noteq> [] \<Longrightarrow> validate_pt_slabs (DEFAULT_PT_SLABS st) = Inr (DEFAULT_PT_SLABS st)"
  by (cases st) (auto intro!: pt.valid_complete simp: pt_seed_def)

lemma default_tax_slabs_valid:
  "validate_tax_slabs (DEFAULT_TAX_SLABS r) = Inr (DEFAULT_TAX_SLABS r)"
  by (cases r) (auto intro!: tax.valid_complete simp: tax_seed_def)

section \<open>Properties\<close>

text \<open>
  No gross falls in a gap: after \<open>validatePtSlabs\<close> accepts a table, every non-negative
  gross lies in exactly one slab of it, and \<open>resolveProfessionalTax\<close> charges that slab's
  amount (the February amount in February, when the slab has one).
\<close>

theorem validated_pt_slabs_charge:
  assumes "validate_pt_slabs slabs = Inr sorted_slabs" and "0 \<le> gross"
  shows "\<exists>i < length sorted_slabs. in_band gross_from gross_to gross (sorted_slabs ! i)
    \<and> (\<forall>j < length sorted_slabs. in_band gross_from gross_to gross (sorted_slabs ! j) \<longrightarrow> j = i)
    \<and> resolve_professional_tax gross month sorted_slabs = slab_charge month (sorted_slabs ! i)"
proof -
  obtain i where i: "i < length sorted_slabs" "in_band gross_from gross_to gross (sorted_slabs ! i)"
    and only: "\<And>j. j < length sorted_slabs \<Longrightarrow>
      in_band gross_from gross_to gross (sorted_slabs ! j) \<Longrightarrow> j = i"
    using pt.unique_band [OF assms] by blast
  obtain s where s: "List.find (in_band gross_from gross_to gross) sorted_slabs = Some s"
    using pt.find_band [OF assms] by blast
  then obtain j where "j < length sorted_slabs" "in_band gross_from gross_to gross (sorted_slabs ! j)"
    "s = sorted_slabs ! j"
    by (auto simp: find_Some_iff)
  with only s have "resolve_professional_tax gross month sorted_slabs = slab_charge month (sorted_slabs ! i)"
    by (auto simp: resolve_professional_tax_eq)
  with i only show ?thesis by blast
qed

theorem validated_pt_slabs_charge_witness:
  "resolve_professional_tax 30000 2 (DEFAULT_PT_SLABS KARNATAKA) \<in> {0, 300}"
proof -
  have "validate_pt_slabs (DEFAULT_PT_SLABS KARNATAKA) = Inr (DEFAULT_PT_SLABS KARNATAKA)"
    by (rule default_pt_slabs_valid) simp
  from validated_pt_slabs_charge [OF this, of 30000 2] show ?thesis
    by (auto simp: less_Suc_eq pt_seed_def slab_charge_def)
qed

text \<open>
  The income-tax table \<open>validateTaxSlabs\<close> stores is a reordering of the submitted slabs in
  which every taxable income lies in exactly one band; validating it again changes nothing.
\<close>

theorem validated_tax_slabs_bands:
  assumes "validate_tax_slabs slabs = Inr sorted_slabs"
  shows "mset sorted_slabs = mset slabs \<and> sorted (map income_from sorted_slabs)
    \<and> validate_tax_slabs sorted_slabs = Inr sorted_slabs
    \<and> (\<forall>x \<ge> 0. \<exists>i < length sorted_slabs. in_band income_from income_to x (sorted_slabs ! i)
        \<and> (\<forall>j < length sorted_slabs. in_band income_from income_to x (sorted_slabs ! j) \<longrightarrow> j = i))"
  using tax.valid_same [OF assms] tax.idempotent [OF assms] tax.unique_band [OF assms]
    sorted_contiguous [OF tax.valid_bands [OF assms]] by blast

theorem validated_tax_slabs_bands_witness:
  "sorted (map income_from (DEFAULT_TAX_SLABS NEW))
   \<and> validate_tax_slabs (DEFAULT_TAX_SLABS NEW) = Inr (DEFAULT_TAX_SLABS NEW)"
  using validated_tax_slabs_bands [OF default_tax_slabs_valid [of NEW]] by blast

text \<open>
  The tables every tenant is seeded with would themselves pass validation: the Professional
  Tax slabs of each seeded state and the income-tax slabs of both regimes are accepted, in the
  order they are written.
\<close>

theorem seeded_tables_valid:
  "(\<forall>st \<in> {KARNATAKA, MAHARASHTRA, TELANGANA, ANDHRA_PRADESH, WEST_BENGAL, GUJARAT}.
      validate_pt_slabs (DEFAULT_PT_SLABS st) = Inr (DEFAULT_PT_SLABS st))
   \<and> validate_tax_slabs (DEFAULT_TAX_SLABS OLD) = Inr (DEFAULT_TAX_SLABS OLD)
   \<and> validate_tax_slabs (DEFAULT_TAX_SLABS NEW) = Inr (DEFAULT_TAX_SLABS NEW)"
  by (intro conjI ballI default_tax_slabs_valid default_pt_slabs_valid) auto

end
