(* ===== verification/TdsCalculator.thy ===== *)
theory TdsCalculator
  imports Statutory
begin

text \<open>
  \<open>apps/api/src/payroll/tds-calculator.ts\<close>: the progressive slab tax, the annual projection with
  standard deduction, 87A rebate, marginal relief and cess, and the monthly TDS. The facts the
  properties need about decimal arithmetic come from the locale \<open>decimal_arith\<close>, which the
  library's documented behaviour satisfies.
\<close>

definition round_rupee :: "decimal_lib \<Rightarrow> decimal \<Rightarrow> decimal" where
  "round_rupee L v = places L 0 v"

text \<open>One turn of the loop of \<open>slabTax\<close>; the \<open>continue\<close>s leave the sum as it is.\<close>

definition slab_step :: "decimal_lib \<Rightarrow> decimal \<Rightarrow> decimal \<Rightarrow> tax_slab \<Rightarrow> decimal" where
  "slab_step L income tax s =
     (if income \<le> income_from s then tax
      else let upper = (case income_to s of None \<Rightarrow> income | Some to \<Rightarrow> min income to);
               taxable_in_slab = dminus L upper (income_from s)
           in if taxable_in_slab \<le> 0 then tax
              else dplus L tax (ddiv L (dtimes L taxable_in_slab (rate_percent s)) 100))"

definition slab_tax :: "decimal_lib \<Rightarrow> decimal \<Rightarrow> tax_slab list \<Rightarrow> decimal" where
  "slab_tax L income slabs = foldl (slab_step L income) 0 slabs"

definition project_annual_tax ::
  "decimal_lib \<Rightarrow> decimal \<Rightarrow> decimal \<Rightarrow> tax_slab list \<Rightarrow> tax_regime_config \<Rightarrow> bool \<Rightarrow> decimal" where
  "project_annual_tax L projected_annual_gross declared_exemptions slabs config marginal_relief =
     (let taxable_income =
            max 0 (dminus L (dminus L projected_annual_gross (standard_deduction config))
                            declared_exemptions);
          tax = slab_tax L taxable_income slabs;
          tax' =
            (if taxable_income \<le> rebate_threshold config
             then max 0 (dminus L tax (rebate_max_amount config))
             else if marginal_relief \<and>
               slab_tax L (rebate_threshold config) slabs \<le> rebate_max_amount config
             then min tax (dminus L taxable_income (rebate_threshold config))
             else tax)
      in dplus L tax' (ddiv L (dtimes L tax' (cess_percent config)) 100))"

record monthly_tds_input =
  ti_regime :: tax_regime
  current_month_gross :: decimal
  elapsed_gross :: decimal
  already_deducted :: decimal
  remaining_months :: int
  declared_exemptions :: decimal
  ti_slabs :: "tax_slab list"
  ti_config :: tax_regime_config

definition compute_annual_tax :: "decimal_lib \<Rightarrow> monthly_tds_input \<Rightarrow> decimal" where
  "compute_annual_tax L i =
     (let projected_annual_gross =
            dplus L (elapsed_gross i) (dtimes L (current_month_gross i) (of_int (remaining_months i)))
      in project_annual_tax L projected_annual_gross
           (if ti_regime i = OLD then declared_exemptions i else 0)
           (ti_slabs i) (ti_config i) (ti_regime i = NEW))"

definition compute_monthly_tds :: "decimal_lib \<Rightarrow> monthly_tds_input \<Rightarrow> decimal" where
  "compute_monthly_tds L i =
     (if remaining_months i \<le> 0 then 0
      else let annual_tax = compute_annual_tax L i;
               remaining_tax = dminus L annual_tax (already_deducted i)
           in if remaining_tax \<le> 0 then 0
              else round_rupee L (ddiv L remaining_tax (of_int (remaining_months i))))"

section \<open>Monotonicity under decimal rounding\<close>

text \<open>Numbers the arithmetic represents: those it leaves alone.\<close>

definition repr :: "decimal_lib \<Rightarrow> decimal \<Rightarrow> bool" where
  "repr L x \<longleftrightarrow> sig_round L x = x"

definition rates_ok :: "tax_slab list \<Rightarrow> bool" where
  "rates_ok slabs \<longleftrightarrow> (\<forall>s \<in> set slabs. 0 \<le> rate_percent s)"

context decimal_arith
begin

lemma repr_round [simp]: "repr L (sig_round L x)"
  by (simp add: repr_def fl_idem)

lemma repr_0 [simp]: "repr L 0"
  by (simp add: repr_def)

lemma repr_ops [simp]: "repr L (dplus L a b)" "repr L (dminus L a b)" "repr L (dtimes L a b)"
  "repr L (ddiv L a b)"
  by (simp_all add: dec_simps)

lemma repr_minmax [simp]: "repr L a \<Longrightarrow> repr L b \<Longrightarrow> repr L (min a b)"
  "repr L a \<Longrightarrow> repr L b \<Longrightarrow> repr L (max a b)"
  by (simp_all add: min_def max_def)

lemma dplus_mono: "a \<le> a' \<Longrightarrow> b \<le> b' \<Longrightarrow> dplus L a b \<le> dplus L a' b'"
  by (simp add: dec_simps fl_mono)

lemma dminus_mono: "a \<le> a' \<Longrightarrow> b' \<le> b \<Longrightarrow> dminus L a b \<le> dminus L a' b'"
  by (simp add: dec_simps fl_mono)

lemma dtimes_mono: "a \<le> a' \<Longrightarrow> 0 \<le> c \<Longrightarrow> dtimes L a c \<le> dtimes L a' c"
  by (simp add: dec_simps fl_mono mult_right_mono)

lemma dtimes_mono2: "a \<le> a' \<Longrightarrow> 0 \<le> c \<Longrightarrow> dtimes L c a \<le> dtimes L c a'"
  by (simp add: dec_simps fl_mono mult_left_mono)

lemma ddiv_mono: "a \<le> a' \<Longrightarrow> 0 < c \<Longrightarrow> ddiv L a c \<le> ddiv L a' c"
  by (simp add: dec_simps fl_mono divide_right_mono)

lemma dplus_nonneg: "0 \<le> a \<Longrightarrow> 0 \<le> b \<Longrightarrow> 0 \<le> dplus L a b"
  by (simp add: dec_simps fl_nonneg)

lemma dminus_nonneg: "b \<le> a \<Longrightarrow> 0 \<le> dminus L a b"
  by (simp add: dec_simps fl_nonneg)

lemma dminus_nonpos: "a \<le> b \<Longrightarrow> dminus L a b \<le> 0"
  using fl_mono [of "a - b" 0] by (simp add: dec_simps)

lemma dtimes_nonneg: "0 \<le> a \<Longrightarrow> 0 \<le> b \<Longrightarrow> 0 \<le> dtimes L a b"
  by (simp add: dec_simps fl_nonneg)

lemma ddiv_nonneg: "0 \<le> a \<Longrightarrow> 0 < b \<Longrightarrow> 0 \<le> ddiv L a b"
  by (simp add: dec_simps fl_nonneg)

lemma dplus_ge: "repr L a \<Longrightarrow> 0 \<le> b \<Longrightarrow> a \<le> dplus L a b"
  using fl_mono [of a "a + b"] by (simp add: dec_simps repr_def)

lemma dminus_le: "repr L a \<Longrightarrow> 0 \<le> b \<Longrightarrow> dminus L a b \<le> a"
  using fl_mono [of "a - b" a] by (simp add: dec_simps repr_def)

lemma percent_mono:
  "a \<le> a' \<Longrightarrow> 0 \<le> r \<Longrightarrow> ddiv L (dtimes L a r) 100 \<le> ddiv L (dtimes L a' r) 100"
  by (simp add: ddiv_mono dtimes_mono)

lemma percent_nonneg: "0 \<le> a \<Longrightarrow> 0 \<le> r \<Longrightarrow> 0 \<le> ddiv L (dtimes L a r) 100"
  by (simp add: ddiv_nonneg dtimes_nonneg)

text \<open>One slab: monotone in the income and in the tax so far.\<close>

lemma slab_step_repr: "repr L tax \<Longrightarrow> repr L (slab_step L income tax s)"
  by (simp add: slab_step_def Let_def)

lemma slab_step_ge: "repr L tax \<Longrightarrow> 0 \<le> rate_percent s \<Longrightarrow> tax \<le> slab_step L income tax s"
  by (auto simp: slab_step_def Let_def intro!: dplus_ge percent_nonneg)

lemma slab_step_mono:
  assumes "x \<le> y" and "tax \<le> tax'" and "repr L tax'" and "0 \<le> rate_percent s"
  shows "slab_step L x tax s \<le> slab_step L y tax' s"
proof -
  let ?u = "\<lambda>z. case income_to s of None \<Rightarrow> z | Some to \<Rightarrow> min z to"
  have up: "dminus L (?u x) (income_from s) \<le> dminus L (?u y) (income_from s)"
    using assms(1) by (intro dminus_mono) (auto split: option.splits)
  have ge: "tax' \<le> slab_step L y tax' s" using assms by (intro slab_step_ge)
  show ?thesis
  proof (cases "x \<le> income_from s \<or> dminus L (?u x) (income_from s) \<le> 0")
    case True
    then have "slab_step L x tax s = tax" by (auto simp: slab_step_def Let_def)
    with ge assms(2) show ?thesis by simp
  next
    case False
    with up assms(1) have "\<not> y \<le> income_from s" "\<not> dminus L (?u y) (income_from s) \<le> 0" by auto
    with False up assms(2,4) show ?thesis
      by (simp add: slab_step_def Let_def dplus_mono percent_mono)
  qed
qed

lemma foldl_slab_step:
  assumes "rates_ok slabs" and "x \<le> y" and "a \<le> b" and "repr L a" and "repr L b"
  shows "foldl (slab_step L x) a slabs \<le> foldl (slab_step L y) b slabs
    \<and> a \<le> foldl (slab_step L x) a slabs \<and> repr L (foldl (slab_step L x) a slabs)"
  using assms
proof (induction slabs arbitrary: a b)
  case Nil
  then show ?case by simp
next
  case (Cons s slabs)
  have "foldl (slab_step L x) (slab_step L x a s) slabs \<le> foldl (slab_step L y) (slab_step L y b s) slabs
    \<and> slab_step L x a s \<le> foldl (slab_step L x) (slab_step L x a s) slabs
    \<and> repr L (foldl (slab_step L x) (slab_step L x a s) slabs)"
    using Cons.prems by (intro Cons.IH slab_step_mono slab_step_repr) (auto simp: rates_ok_def)
  moreover have "a \<le> slab_step L x a s"
    using Cons.prems by (intro slab_step_ge) (auto simp: rates_ok_def)
  ultimately show ?case by auto
qed

lemma slab_tax_mono: "rates_ok slabs \<Longrightarrow> x \<le> y \<Longrightarrow> slab_tax L x slabs \<le> slab_tax L y slabs"
  using foldl_slab_step [of slabs x y 0 0] by (simp add: slab_tax_def)

lemma slab_tax_nonneg: "rates_ok slabs \<Longrightarrow> 0 \<le> slab_tax L x slabs"
  using foldl_slab_step [of slabs x x 0 0] by (simp add: slab_tax_def)

lemma slab_tax_repr: "rates_ok slabs \<Longrightarrow> repr L (slab_tax L x slabs)"
  using foldl_slab_step [of slabs x x 0 0] by (simp add: slab_tax_def)

end

text \<open>The tax before cess, as a function of the taxable income.\<close>

definition tax_after_rebate ::
  "decimal_lib \<Rightarrow> tax_slab list \<Rightarrow> tax_regime_config \<Rightarrow> bool \<Rightarrow> decimal \<Rightarrow> decimal" where
  "tax_after_rebate L slabs config relief t =
     (if t \<le> rebate_threshold config then max 0 (dminus L (slab_tax L t slabs) (rebate_max_amount config))
      else if relief \<and> slab_tax L (rebate_threshold config) slabs \<le> rebate_max_amount config
      then min (slab_tax L t slabs) (dminus L t (rebate_threshold config))
      else slab_tax L t slabs)"

definition taxable_income :: "decimal_lib \<Rightarrow> tax_regime_config \<Rightarrow> decimal \<Rightarrow> decimal \<Rightarrow> decimal" where
  "taxable_income L config gross exemptions =
     max 0 (dminus L (dminus L gross (standard_deduction config)) exemptions)"

definition add_cess :: "decimal_lib \<Rightarrow> tax_regime_config \<Rightarrow> decimal \<Rightarrow> decimal" where
  "add_cess L config t = dplus L t (ddiv L (dtimes L t (cess_percent config)) 100)"

definition config_ok :: "tax_regime_config \<Rightarrow> bool" where
  "config_ok c \<longleftrightarrow> 0 \<le> cess_percent c \<and> 0 \<le> rebate_max_amount c \<and> 0 \<le> rebate_threshold c"

lemma project_annual_tax_eq:
  "project_annual_tax L gross exemptions slabs config relief =
     add_cess L config (tax_after_rebate L slabs config relief (taxable_income L config gross exemptions))"
  by (simp add: project_annual_tax_def tax_after_rebate_def taxable_income_def add_cess_def Let_def)

context decimal_arith
begin

lemma tax_after_rebate_nonneg:
  "rates_ok slabs \<Longrightarrow> 0 \<le> tax_after_rebate L slabs config relief t"
  by (auto simp: tax_after_rebate_def slab_tax_nonneg dminus_nonneg)

lemma tax_after_rebate_mono:
  assumes "rates_ok slabs" and "config_ok config" and "t \<le> u"
  shows "tax_after_rebate L slabs config relief t \<le> tax_after_rebate L slabs config relief u"
proof -
  let ?T = "rebate_threshold config" and ?R = "rebate_max_amount config"
  have mono: "slab_tax L t slabs \<le> slab_tax L u slabs" using assms by (intro slab_tax_mono)
  have sub: "dminus L (slab_tax L t slabs) ?R \<le> slab_tax L t slabs"
    using assms by (intro dminus_le slab_tax_repr) (auto simp: config_ok_def)
  consider "u \<le> ?T" | "t \<le> ?T" "?T < u" | "?T < t" by linarith
  then show ?thesis
  proof cases
    case 1
    have "max 0 (dminus L (slab_tax L t slabs) ?R) \<le> max 0 (dminus L (slab_tax L u slabs) ?R)"
      using mono by (intro max.mono dminus_mono order_refl)
    with 1 assms(3) show ?thesis by (simp add: tax_after_rebate_def)
  next
    case 2
    show ?thesis
    proof (cases "relief \<and> slab_tax L ?T slabs \<le> ?R")
      case True
      then have "slab_tax L t slabs \<le> ?R" using slab_tax_mono [OF assms(1) 2(1)] by simp
      then have "tax_after_rebate L slabs config relief t = 0"
        using 2(1) dminus_nonpos by (simp add: tax_after_rebate_def)
      then show ?thesis using tax_after_rebate_nonneg [OF assms(1)] by simp
    next
      case False
      then have "tax_after_rebate L slabs config relief u = slab_tax L u slabs"
        using 2(2) by (auto simp: tax_after_rebate_def)
      then show ?thesis
        using 2(1) sub mono slab_tax_nonneg [OF assms(1)] by (simp add: tax_after_rebate_def)
    qed
  next
    case 3
    have "min (slab_tax L t slabs) (dminus L t ?T) \<le> min (slab_tax L u slabs) (dminus L u ?T)"
      using mono assms(3) by (intro min.mono dminus_mono order_refl)
    with 3 assms(3) mono show ?thesis by (simp add: tax_after_rebate_def)
  qed
qed

lemma taxable_income_mono: "g \<le> h \<Longrightarrow> taxable_income L config g ex \<le> taxable_income L config h ex"
  unfolding taxable_income_def by (intro max.mono dminus_mono order_refl)

lemma add_cess_mono: "config_ok config \<Longrightarrow> a \<le> b \<Longrightarrow> add_cess L config a \<le> add_cess L config b"
  by (simp add: add_cess_def config_ok_def dplus_mono percent_mono)

lemma project_annual_tax_mono:
  assumes "rates_ok slabs" and "config_ok config" and "g \<le> h"
  shows "project_annual_tax L g ex slabs config relief \<le> project_annual_tax L h ex slabs config relief"
  unfolding project_annual_tax_eq
  using assms by (intro add_cess_mono tax_after_rebate_mono taxable_income_mono)

lemma marginal_relief_bound:
  assumes "rates_ok slabs" and "config_ok config"
    and "slab_tax L (rebate_threshold config) slabs \<le> rebate_max_amount config"
  shows "tax_after_rebate L slabs config True t \<le> max 0 (dminus L t (rebate_threshold config))"
proof (cases "t \<le> rebate_threshold config")
  case True
  then have "slab_tax L t slabs \<le> rebate_max_amount config"
    using slab_tax_mono [OF assms(1) True] assms(3) by simp
  then have "dminus L (slab_tax L t slabs) (rebate_max_amount config) \<le> 0" by (rule dminus_nonpos)
  with True show ?thesis by (simp add: tax_after_rebate_def)
qed (use assms in \<open>simp add: tax_after_rebate_def\<close>)

lemma whole_rupees: "\<exists>k::int. round_rupee L x = of_int k"
  using dp_grid [of 0 x] by (simp add: round_rupee_def)

lemma round_rupee_near: "\<bar>round_rupee L x - x\<bar> \<le> 1 / 2"
  using dp_near [of 0 x] by (simp add: round_rupee_def)

lemma round_rupee_mono: "x \<le> y \<Longrightarrow> round_rupee L x \<le> round_rupee L y"
  by (simp add: round_rupee_def dp_mono)

lemma round_rupee_nonneg: "0 \<le> x \<Longrightarrow> 0 \<le> round_rupee L x"
  by (simp add: round_rupee_def dp_nonneg)

lemma ddiv_near: "\<bar>ddiv L x n - x / n\<bar> \<le> \<bar>x / n\<bar> / (2 * 10 ^ 19)"
  using fl_err [of "x / n"] by (simp add: dec_simps)

lemma spread_near:
  assumes "0 < n" and "0 \<le> x"
  shows "\<bar>n * round_rupee L (ddiv L x n) - x\<bar> \<le> n / 2 + x / (2 * 10 ^ 19)"
proof -
  have "\<bar>round_rupee L (ddiv L x n) - x / n\<bar> \<le> 1 / 2 + x / n / (2 * 10 ^ 19)"
  proof -
    have "\<bar>x / n\<bar> = x / n" using assms by simp
    with ddiv_near [of x n] have "\<bar>ddiv L x n - x / n\<bar> \<le> x / n / (2 * 10 ^ 19)" by simp
    with round_rupee_near [of "ddiv L x n"] show ?thesis by linarith
  qed
  then have "n * \<bar>round_rupee L (ddiv L x n) - x / n\<bar> \<le> n * (1 / 2 + x / n / (2 * 10 ^ 19))"
    using assms by (intro mult_left_mono) auto
  moreover have "n * \<bar>round_rupee L (ddiv L x n) - x / n\<bar> = \<bar>n * round_rupee L (ddiv L x n) - x\<bar>"
    using assms abs_mult [of n "round_rupee L (ddiv L x n) - x / n"] by (simp add: algebra_simps)
  moreover have "n * (1 / 2 + x / n / (2 * 10 ^ 19)) = n / 2 + x / (2 * 10 ^ 19)"
    using assms by (simp add: field_simps)
  ultimately show ?thesis by simp
qed

lemma monthly_tds_facts:
  assumes "0 < remaining_months i"
  shows "0 \<le> compute_monthly_tds L i \<and> (\<exists>k::int. compute_monthly_tds L i = of_int k)
    \<and> (let due = dminus L (compute_annual_tax L i) (already_deducted i); n = of_int (remaining_months i)
       in if due \<le> 0 then compute_monthly_tds L i = 0
          else \<bar>n * compute_monthly_tds L i - due\<bar> \<le> n / 2 + due / (2 * 10 ^ 19))"
proof -
  define due where "due = dminus L (compute_annual_tax L i) (already_deducted i)"
  define n :: rat where "n = of_int (remaining_months i)"
  have n: "0 < n" using assms by (simp add: n_def)
  have tds: "compute_monthly_tds L i = (if due \<le> 0 then 0 else round_rupee L (ddiv L due n))"
    using assms by (simp add: compute_monthly_tds_def due_def n_def Let_def)
  have "\<exists>k::int. (0::rat) = of_int k" by (rule exI [of _ 0]) simp
  then show ?thesis
    using n whole_rupees spread_near [OF n, of due] round_rupee_nonneg [of "ddiv L due n"]
      ddiv_nonneg [of due n]
    by (auto simp: tds Let_def simp flip: due_def n_def)
qed

end

section \<open>Properties\<close>

text \<open>
  Earning more never lowers the annual tax, across every slab boundary, the rebate threshold
  and marginal relief, whatever the rounding of the decimal library: for non-negative rates,
  cess and rebate, \<open>projectAnnualTax\<close> is monotone in the gross.
\<close>

theorem annual_tax_monotone:
  assumes "decimal_arith L" and "rates_ok slabs" and "config_ok config" and "gross \<le> gross'"
  shows "project_annual_tax L gross exemptions slabs config relief
    \<le> project_annual_tax L gross' exemptions slabs config relief"
  using decimal_arith.project_annual_tax_mono [OF assms] .

lemma default_rates_ok: "rates_ok (DEFAULT_TAX_SLABS r)"
  by (cases r) (simp_all add: rates_ok_def tax_seed_def)

lemma default_config_ok: "config_ok (DEFAULT_TAX_REGIME_CONFIG r)"
  by (cases r) (simp_all add: config_ok_def)

theorem annual_tax_monotone_witness:
  "project_annual_tax decimal_js 1275000 0 (DEFAULT_TAX_SLABS NEW) (DEFAULT_TAX_REGIME_CONFIG NEW) True
   \<le> project_annual_tax decimal_js 1275001 0 (DEFAULT_TAX_SLABS NEW) (DEFAULT_TAX_REGIME_CONFIG NEW) True"
  by (rule annual_tax_monotone [OF decjs.decimal_arith_axioms default_rates_ok default_config_ok]) simp

text \<open>
  Marginal relief: in the new regime, when the rebate covers the whole tax at the threshold,
  the tax (before cess) of an income above the threshold never exceeds the income earned over
  it, and at or below the threshold there is no tax at all.
\<close>

theorem annual_tax_marginal_relief:
  assumes "decimal_arith L" and "rates_ok slabs" and "config_ok config"
    and "slab_tax L (rebate_threshold config) slabs \<le> rebate_max_amount config"
  shows "project_annual_tax L gross exemptions slabs config True
    \<le> add_cess L config (max 0 (dminus L (taxable_income L config gross exemptions) (rebate_threshold config)))"
  unfolding project_annual_tax_eq
  by (intro decimal_arith.add_cess_mono [OF assms(1,3)] decimal_arith.marginal_relief_bound [OF assms])

theorem annual_tax_marginal_relief_witness:
  "project_annual_tax decimal_js 1275001 0 (DEFAULT_TAX_SLABS NEW) (DEFAULT_TAX_REGIME_CONFIG NEW) True
   \<le> 104 / 100"
proof -
  let ?new = "DEFAULT_TAX_REGIME_CONFIG NEW"
  have thr: "slab_tax decimal_js (rebate_threshold ?new) (DEFAULT_TAX_SLABS NEW) \<le> rebate_max_amount ?new"
    by (simp add: slab_tax_def slab_step_def tax_seed_def dec_eval)
  have cess: "ddiv decimal_js 4 100 = 1 / 25" "dplus decimal_js 1 (1 / 25) = 26 / 25" by code_simp+
  have "add_cess decimal_js ?new
      (max 0 (dminus decimal_js (taxable_income decimal_js ?new 1275001 0) (rebate_threshold ?new))) = 104 / 100"
    by (simp add: add_cess_def taxable_income_def dminus_def dtimes_def dec_eval(5-) cess)
  with annual_tax_marginal_relief [OF decjs.decimal_arith_axioms default_rates_ok default_config_ok thr,
      of 1275001 0]
  show ?thesis by simp
qed

text \<open>
  The monthly TDS is never negative and always whole rupees; it is zero exactly when nothing
  is left to deduct or the share rounds to zero; otherwise the same amount deducted in each
  remaining month collects the rest of the annual tax up to half a rupee a month (and the
  relative error of one 20-digit division).
\<close>

theorem monthly_tds_spread:
  assumes "decimal_arith L" and "0 < remaining_months i"
  shows "0 \<le> compute_monthly_tds L i \<and> (\<exists>k::int. compute_monthly_tds L i = of_int k)
    \<and> (let due = dminus L (compute_annual_tax L i) (already_deducted i); n = of_int (remaining_months i)
       in if due \<le> 0 then compute_monthly_tds L i = 0
          else \<bar>n * compute_monthly_tds L i - due\<bar> \<le> n / 2 + due / (2 * 10 ^ 19))"
  by (rule decimal_arith.monthly_tds_facts [OF assms])

theorem monthly_tds_spread_witness:
  "\<exists>k::int. compute_monthly_tds decimal_js
     \<lparr>ti_regime = NEW, current_month_gross = 150000, elapsed_gross = 0, already_deducted = 0,
      remaining_months = 12, declared_exemptions = 0, ti_slabs = DEFAULT_TAX_SLABS NEW,
      ti_config = DEFAULT_TAX_REGIME_CONFIG NEW\<rparr> = of_int k"
  by (rule monthly_tds_spread [THEN conjunct2, THEN conjunct1]) (simp_all add: decjs.decimal_arith_axioms)

end
