(* ===== verification/PayrollCalculator.thy ===== *)
theory PayrollCalculator
  imports SalaryComponents TdsCalculator
begin

text \<open>
  \<open>apps/api/src/payroll/payroll-calculator.ts\<close>: one employee's payroll line for one period. The
  steps of \<open>calculatePayroll\<close> are definitions of their own (earnings, overtime, EPF, ESI), and
  \<open>calculate_payroll\<close> composes them in the code's order with its three error branches.
\<close>

section \<open>Inputs and results\<close>

definition EMPLOYER_COST_TYPES :: "string list" where
  "EMPLOYER_COST_TYPES = [''PF_EMPLOYER'', ''ESI_EMPLOYER'', ''GRATUITY_PROVISION'']"

record calculator_component = component_input +
  cc_type :: string

record epf_config =
  ceiling :: decimal
  allow_above_ceiling :: bool
  epf_employee_rate :: decimal
  eps_rate :: decimal
  epf_employer_rate :: decimal
  admin_rate :: decimal
  edli_rate :: decimal

record esi_config =
  wage_ceiling :: decimal
  esi_employee_rate :: decimal
  esi_employer_rate :: decimal

record overtime_input =
  hours :: decimal
  hourly_rate :: decimal
  multiplier :: decimal

record calculation_input =
  components :: "calculator_component list"
  ctc_annual :: decimal
  working_days :: number
  payable_days :: number
  epf :: epf_config
  esi :: esi_config
  pt_slabs :: "pt_slab list"
  month :: int
  overtime :: "overtime_input option"
  tds :: "decimal option"
  allow_negative_net :: bool

record earning =
  e_type :: string
  e_code :: string
  full_monthly_amount :: decimal
  prorated_amount :: decimal

record epf_result =
  epf_wages :: decimal
  epf_employee_contribution :: decimal
  eps_contribution :: decimal
  employer_pf_contribution :: decimal
  admin_charge :: decimal
  edli_contribution :: decimal

record esi_result =
  esi_applicable :: bool
  esi_wages :: decimal
  esi_employee_contribution :: decimal
  esi_employer_contribution :: decimal

record calculation_result =
  r_working_days :: number
  r_payable_days :: number
  payable_factor :: decimal
  earnings :: "earning list"
  gross_earnings :: decimal
  lop_deduction :: decimal
  overtime_pay :: decimal
  r_epf :: epf_result
  r_esi :: esi_result
  professional_tax :: decimal
  r_tds :: decimal
  total_deductions :: decimal
  net_pay :: decimal

datatype calculation_error =
    PayableExceedsWorking
  | NegativeDays
  | NegativeNet decimal
  | Structure component_error
  | AmountMissing \<comment> \<open>\<open>amounts.get(c.code)!\<close> of a code that has no amount\<close>

definition round_paise :: "decimal_lib \<Rightarrow> decimal \<Rightarrow> decimal" where
  "round_paise L v = places L 2 v"

section \<open>The steps of the calculation\<close>

definition base_earnings ::
  "decimal_lib \<Rightarrow> amounts \<Rightarrow> decimal \<Rightarrow> calculator_component list
    \<Rightarrow> (calculation_error, earning list) result" where
  "base_earnings L amounts factor cs =
     map_res (\<lambda>c. case amounts (ci_code c) of
         None \<Rightarrow> Inl AmountMissing
       | Some full \<Rightarrow>
           Inr \<lparr>e_type = cc_type c, e_code = ci_code c, full_monthly_amount = round_paise L full,
                prorated_amount = round_paise L (dtimes L full factor)\<rparr>)
       (filter (\<lambda>c. cc_type c \<notin> set EMPLOYER_COST_TYPES) cs)"

definition overtime_amount :: "decimal_lib \<Rightarrow> overtime_input option \<Rightarrow> decimal" where
  "overtime_amount L ot =
     (case ot of None \<Rightarrow> 0
      | Some o' \<Rightarrow>
          if 0 < hours o'
          then round_paise L (dtimes L (dtimes L (hours o') (hourly_rate o')) (multiplier o'))
          else 0)"

definition overtime_earnings :: "decimal_lib \<Rightarrow> overtime_input option \<Rightarrow> earning list" where
  "overtime_earnings L ot =
     (case ot of None \<Rightarrow> []
      | Some o' \<Rightarrow>
          if 0 < hours o'
          then [\<lparr>e_type = ''CUSTOM'', e_code = ''OVERTIME'',
                 full_monthly_amount = overtime_amount L ot, prorated_amount = overtime_amount L ot\<rparr>]
          else [])"

definition contribution :: "decimal_lib \<Rightarrow> decimal \<Rightarrow> decimal \<Rightarrow> decimal" where
  "contribution L wages rate = round_rupee L (ddiv L (dtimes L wages rate) 100)"

definition epf_contributions :: "decimal_lib \<Rightarrow> epf_config \<Rightarrow> earning list \<Rightarrow> epf_result" where
  "epf_contributions L cfg es =
     (let prorated_basic =
            (case List.find (\<lambda>e. e_code e = BASIC_CODE) es of None \<Rightarrow> 0 | Some e \<Rightarrow> prorated_amount e);
          wages = (if allow_above_ceiling cfg then prorated_basic else min prorated_basic (ceiling cfg))
      in \<lparr>epf_wages = wages,
          epf_employee_contribution = contribution L wages (epf_employee_rate cfg),
          eps_contribution = contribution L wages (eps_rate cfg),
          employer_pf_contribution = contribution L wages (epf_employer_rate cfg),
          admin_charge = contribution L wages (admin_rate cfg),
          edli_contribution = contribution L wages (edli_rate cfg)\<rparr>)"

definition esi_contributions :: "decimal_lib \<Rightarrow> esi_config \<Rightarrow> decimal \<Rightarrow> decimal \<Rightarrow> esi_result" where
  "esi_contributions L cfg full_gross gross =
     (let applicable = full_gross \<le> wage_ceiling cfg; wages = (if applicable then gross else 0)
      in \<lparr>esi_applicable = applicable,
          esi_wages = wages,
          esi_employee_contribution =
            (if applicable then contribution L wages (esi_employee_rate cfg) else 0),
          esi_employer_contribution =
            (if applicable then contribution L wages (esi_employer_rate cfg) else 0)\<rparr>)"

definition finish_payroll ::
  "decimal_lib \<Rightarrow> calculation_input \<Rightarrow> decimal \<Rightarrow> earning list
    \<Rightarrow> (calculation_error, calculation_result) result" where
  "finish_payroll L i factor es =
     (let full_gross = dsum L (map full_monthly_amount es);
          gross = dsum L (map prorated_amount es);
          lop = round_paise L (dminus L full_gross gross);
          epf_r = epf_contributions L (epf i) es;
          esi_r = esi_contributions L (esi i) full_gross gross;
          pt = round_rupee L (resolve_professional_tax gross (month i) (pt_slabs i));
          tds_amount = (case tds i of None \<Rightarrow> 0 | Some t \<Rightarrow> t);
          total = dplus L (dplus L (dplus L (epf_employee_contribution epf_r)
                    (esi_employee_contribution esi_r)) pt) tds_amount;
          net = dminus L gross total
      in if net < 0 \<and> \<not> allow_negative_net i then Inl (NegativeNet net)
         else Inr \<lparr>r_working_days = working_days i, r_payable_days = payable_days i,
                   payable_factor = places L 4 factor, earnings = es, gross_earnings = gross,
                   lop_deduction = lop, overtime_pay = overtime_amount L (overtime i),
                   r_epf = epf_r, r_esi = esi_r, professional_tax = pt, r_tds = tds_amount,
                   total_deductions = total, net_pay = net\<rparr>)"

definition calculate_payroll ::
  "decimal_lib \<Rightarrow> calculation_input \<Rightarrow> (calculation_error, calculation_result) result" where
  "calculate_payroll L i =
     (if payable_days i > working_days i then Inl PayableExceedsWorking
      else if working_days i < 0 \<or> payable_days i < 0 then Inl NegativeDays
      else
        case resolve_monthly_amounts L (map component_input.truncate (components i)) (ctc_annual i) of
          Inl e \<Rightarrow> Inl (Structure e)
        | Inr amounts \<Rightarrow>
            let factor = (if working_days i = 0 then 0 else ddiv L (payable_days i) (working_days i))
            in and_then (base_earnings L amounts factor (components i)) (\<lambda>base.
                 finish_payroll L i factor (base @ overtime_earnings L (overtime i))))"

section \<open>Which branch is taken when\<close>

lemma base_earnings_Inr:
  assumes "base_earnings L m factor cs = Inr es"
  shows "list_all2 (\<lambda>c e. \<exists>a. m (ci_code c) = Some a \<and>
      e = \<lparr>e_type = cc_type c, e_code = ci_code c, full_monthly_amount = round_paise L a,
           prorated_amount = round_paise L (dtimes L a factor)\<rparr>)
    (filter (\<lambda>c. cc_type c \<notin> set EMPLOYER_COST_TYPES) cs) es"
  using assms unfolding base_earnings_def map_res_Inr
  by (rule list_all2_mono) (auto split: option.splits)

lemma base_earnings_inD:
  assumes "base_earnings L m factor cs = Inr es" and "e \<in> set es"
  obtains c a where "c \<in> set cs" "cc_type c \<notin> set EMPLOYER_COST_TYPES" "m (ci_code c) = Some a"
    "e = \<lparr>e_type = cc_type c, e_code = ci_code c, full_monthly_amount = round_paise L a,
          prorated_amount = round_paise L (dtimes L a factor)\<rparr>"
proof -
  let ?xs = "filter (\<lambda>c. cc_type c \<notin> set EMPLOYER_COST_TYPES) cs"
  from assms(2) obtain j where j: "j < length es" "e = es ! j" by (auto simp: in_set_conv_nth)
  note all = base_earnings_Inr [OF assms(1)]
  have "j < length ?xs" using j(1) list_all2_lengthD [OF all] by simp
  then have in_xs: "?xs ! j \<in> set ?xs" by (rule nth_mem)
  from list_all2_nthD2 [OF all j(1)] obtain a where a: "m (ci_code (?xs ! j)) = Some a"
    "es ! j = \<lparr>e_type = cc_type (?xs ! j), e_code = ci_code (?xs ! j),
      full_monthly_amount = round_paise L a, prorated_amount = round_paise L (dtimes L a factor)\<rparr>" by blast
  from in_xs have "?xs ! j \<in> set cs" "cc_type (?xs ! j) \<notin> set EMPLOYER_COST_TYPES" by simp_all
  from that [OF this a(1)] a(2) j(2) show thesis by simp
qed

lemma map_res_no_Inl: "(\<And>x. x \<in> set xs \<Longrightarrow> \<exists>y. f x = Inr y) \<Longrightarrow> \<exists>ys. map_res f xs = Inr ys"
proof (induction xs)
  case (Cons x xs)
  then obtain y ys where "f x = Inr y" "map_res f xs = Inr ys" by (meson list.set_intros)
  then show ?case by simp
qed simp

text \<open>Every component of the structure has an amount: the non-null assertion of the code holds.\<close>

lemma base_earnings_total:
  assumes "resolve_monthly_amounts L (map component_input.truncate cs) ctc = Inr m"
  shows "\<exists>es. base_earnings L m factor cs = Inr es"
proof -
  have wr: "ci_code ` set (map component_input.truncate cs) \<subseteq> dom m"
    using resolve_all_sound [OF assms [unfolded resolve_monthly_amounts_def] wr_empty] by auto
  have "\<exists>a. m (ci_code c) = Some a" if "c \<in> set cs" for c
  proof -
    have "ci_code c = ci_code (component_input.truncate c)" by (simp add: component_input.truncate_def)
    with that wr show ?thesis by (auto simp: image_subset_iff)
  qed
  then show ?thesis
    unfolding base_earnings_def by (intro map_res_no_Inl) fastforce
qed

lemma calculate_payroll_cases:
  obtains "payable_days i > working_days i" "calculate_payroll L i = Inl PayableExceedsWorking"
  | "payable_days i \<le> working_days i" "working_days i < 0 \<or> payable_days i < 0"
    "calculate_payroll L i = Inl NegativeDays"
  | e where "0 \<le> payable_days i" "payable_days i \<le> working_days i"
    "resolve_monthly_amounts L (map component_input.truncate (components i)) (ctc_annual i) = Inl e"
    "calculate_payroll L i = Inl (Structure e)"
  | m base factor where "0 \<le> payable_days i" "payable_days i \<le> working_days i"
    "resolve_monthly_amounts L (map component_input.truncate (components i)) (ctc_annual i) = Inr m"
    "factor = (if working_days i = 0 then 0 else ddiv L (payable_days i) (working_days i))"
    "base_earnings L m factor (components i) = Inr base"
    "calculate_payroll L i = finish_payroll L i factor (base @ overtime_earnings L (overtime i))"
proof -
  consider "payable_days i > working_days i"
    | "payable_days i \<le> working_days i" "working_days i < 0 \<or> payable_days i < 0"
    | "0 \<le> payable_days i" "payable_days i \<le> working_days i" by linarith
  then show thesis
  proof cases
    case 3
    let ?f = "if working_days i = 0 then 0 else ddiv L (payable_days i) (working_days i)"
    show ?thesis
    proof (cases "resolve_monthly_amounts L (map component_input.truncate (components i)) (ctc_annual i)")
      case (Inl e)
      with 3 show ?thesis by (intro that(3) [of e]) (simp_all add: calculate_payroll_def)
    next
      case (Inr m)
      with base_earnings_total obtain base where "base_earnings L m ?f (components i) = Inr base" by blast
      with 3 Inr show ?thesis
        by (intro that(4) [of m ?f base]) (simp_all add: calculate_payroll_def Let_def)
    qed
  qed (use that(1,2) in \<open>auto simp: calculate_payroll_def\<close>)
qed

text \<open>What a successful calculation fixes.\<close>

lemma finish_payroll_Inr:
  assumes "finish_payroll L i factor es = Inr r"
  shows "earnings r = es" and "gross_earnings r = dsum L (map prorated_amount es)"
    and "lop_deduction r = round_paise L (dminus L (dsum L (map full_monthly_amount es)) (gross_earnings r))"
    and "r_epf r = epf_contributions L (epf i) es"
    and "r_esi r = esi_contributions L (esi i) (dsum L (map full_monthly_amount es)) (gross_earnings r)"
    and "professional_tax r = round_rupee L (resolve_professional_tax (gross_earnings r) (month i) (pt_slabs i))"
    and "r_tds r = (case tds i of None \<Rightarrow> 0 | Some t \<Rightarrow> t)"
    and "total_deductions r = dplus L (dplus L (dplus L (epf_employee_contribution (r_epf r))
        (esi_employee_contribution (r_esi r))) (professional_tax r)) (r_tds r)"
    and "net_pay r = dminus L (gross_earnings r) (total_deductions r)"
    and "0 \<le> net_pay r \<or> allow_negative_net i"
    and "overtime_pay r = overtime_amount L (overtime i)"
  using assms by (auto simp: finish_payroll_def Let_def split: if_splits)

lemma finish_payroll_Inl:
  "finish_payroll L i factor es = Inl e \<Longrightarrow> \<exists>n < 0. e = NegativeNet n \<and> \<not> allow_negative_net i"
  by (auto simp: finish_payroll_def Let_def split: if_splits)

section \<open>Exact sums of money\<close>

text \<open>An amount in whole paise, of at most eighteen digits of rupees.\<close>

definition paise :: "decimal \<Rightarrow> bool" where
  "paise x \<longleftrightarrow> (\<exists>k::int. x = of_int k / 100)"

definition money :: "decimal \<Rightarrow> bool" where
  "money x \<longleftrightarrow> paise x \<and> 0 \<le> x \<and> x \<le> 10 ^ 18"

lemma paise_add: "paise x \<Longrightarrow> paise y \<Longrightarrow> paise (x + y)"
  unfolding paise_def by (metis add_divide_distrib of_int_add)

lemma paise_diff: "paise x \<Longrightarrow> paise y \<Longrightarrow> paise (x - y)"
  unfolding paise_def by (metis diff_divide_distrib of_int_diff)

lemma paise_0 [simp]: "paise 0"
  unfolding paise_def by (intro exI [of _ 0]) simp

lemma paise_int: "paise (of_int k)"
  unfolding paise_def by (intro exI [of _ "100 * k"]) simp

context decimal_arith
begin

lemma paise_exact:
  assumes "paise x" and "\<bar>x\<bar> \<le> 10 ^ 18"
  shows "sig_round L x = x"
proof -
  obtain k where k: "x = of_int k / 100" using assms(1) by (auto simp: paise_def)
  then have "\<bar>of_int k :: rat\<bar> \<le> of_int (10 ^ 20)" using assms(2) by (simp add: abs_divide)
  then have "\<bar>k\<bar> \<le> 10 ^ 20" by (simp only: flip: of_int_abs)
  then show ?thesis using fl_exact [of k 2] by (simp add: k)
qed

lemma money_plus: "money x \<Longrightarrow> money y \<Longrightarrow> x + y \<le> 10 ^ 18 \<Longrightarrow> dplus L x y = x + y \<and> money (x + y)"
  by (auto simp: money_def dec_simps paise_add intro!: paise_exact)

lemma money_minus: "money x \<Longrightarrow> money y \<Longrightarrow> dminus L x y = x - y"
  by (auto simp: money_def dec_simps paise_diff intro!: paise_exact)

lemma dsum_exact:
  assumes "\<And>x. x \<in> set xs \<Longrightarrow> paise x \<and> 0 \<le> x" and "sum_list xs \<le> 10 ^ 18"
  shows "dsum L xs = sum_list xs \<and> money (sum_list xs)"
proof -
  have "foldl (dplus L) a xs = a + sum_list xs \<and> money (a + sum_list xs)"
    if "money a" "a + sum_list xs \<le> 10 ^ 18" for a
    using assms(1) that
  proof (induction xs arbitrary: a)
    case Nil
    then show ?case by simp
  next
    case (Cons x xs)
    have nn: "0 \<le> sum_list xs" using Cons.prems(1) by (intro sum_list_nonneg) auto
    have x: "money x" using Cons.prems nn by (auto simp: money_def)
    have "dplus L a x = a + x \<and> money (a + x)"
      using Cons.prems nn x by (intro money_plus) auto
    with Cons.IH [of "a + x"] Cons.prems show ?case by (auto simp: add.assoc)
  qed
  from this [of 0] show ?thesis using assms(2) by (simp add: dsum_def money_def)
qed

lemma dsum_mono:
  "list_all2 (\<le>) xs ys \<Longrightarrow> dsum L xs \<le> dsum L ys"
proof -
  have "a \<le> b \<Longrightarrow> list_all2 (\<le>) xs ys \<Longrightarrow> foldl (dplus L) a xs \<le> foldl (dplus L) b ys" for a b
  proof (induction xs arbitrary: ys a b)
    case (Cons x xs)
    then show ?case by (cases ys) (auto intro: dplus_mono)
  qed simp
  then show "list_all2 (\<le>) xs ys \<Longrightarrow> dsum L xs \<le> dsum L ys" by (simp add: dsum_def)
qed

lemma paise_round [simp]: "paise (round_paise L x)"
  using dp_grid [of 2 x] by (auto simp: round_paise_def paise_def)

lemma paise_rupee [simp]: "paise (round_rupee L x)"
  using whole_rupees [of x] paise_int by auto

lemma paise_earnings:
  assumes "base_earnings L m factor cs = Inr base" and "e \<in> set (base @ overtime_earnings L ot)"
  shows "paise (prorated_amount e)"
  using assms(2)
proof (simp, elim disjE)
  assume "e \<in> set base"
  then show ?thesis by (rule base_earnings_inD [OF assms(1)]) simp
qed (auto simp: overtime_earnings_def overtime_amount_def split: option.splits if_splits)

lemma contribution_nonneg: "0 \<le> w \<Longrightarrow> 0 \<le> r \<Longrightarrow> 0 \<le> contribution L w r"
  by (simp add: contribution_def round_rupee_nonneg percent_nonneg)

lemma contribution_mono: "w \<le> w' \<Longrightarrow> 0 \<le> r \<Longrightarrow> contribution L w r \<le> contribution L w' r"
  by (simp add: contribution_def round_rupee_mono percent_mono)

lemma paise_contribution [simp]: "paise (contribution L w r)"
  by (simp add: contribution_def)

lemma payslip_adds_up_facts:
  assumes "calculate_payroll L i = Inr r"
    and "\<And>e. e \<in> set (earnings r) \<Longrightarrow> 0 \<le> prorated_amount e"
    and "sum_list (map prorated_amount (earnings r)) \<le> 10 ^ 17"
    and "money (r_tds r)" and "r_tds r \<le> 10 ^ 17"
    and "\<And>x. x \<in> {epf_employee_contribution (r_epf r), esi_employee_contribution (r_esi r),
        professional_tax r} \<Longrightarrow> 0 \<le> x \<and> x \<le> 10 ^ 17"
  shows "gross_earnings r = sum_list (map prorated_amount (earnings r))
    \<and> total_deductions r = epf_employee_contribution (r_epf r) + esi_employee_contribution (r_esi r)
        + professional_tax r + r_tds r
    \<and> net_pay r + total_deductions r = gross_earnings r"
proof (rule calculate_payroll_cases [of i L])
  fix m base factor
  assume base: "base_earnings L m factor (components i) = Inr base"
    and fin: "calculate_payroll L i = finish_payroll L i factor (base @ overtime_earnings L (overtime i))"
  note r = finish_payroll_Inr [OF fin [symmetric, unfolded assms(1)]]
  have es: "\<And>x. x \<in> set (map prorated_amount (earnings r)) \<Longrightarrow> paise x \<and> 0 \<le> x"
    using paise_earnings [OF base] assms(2) r(1) by auto
  have gross: "gross_earnings r = sum_list (map prorated_amount (earnings r))" "money (gross_earnings r)"
  proof -
    have g: "gross_earnings r = dsum L (map prorated_amount (earnings r))" by (simp only: r(1,2))
    have "sum_list (map prorated_amount (earnings r)) \<le> 10 ^ 18"
      using assms(3) by (rule order_trans) simp
    from dsum_exact [OF es this] show "gross_earnings r = sum_list (map prorated_amount (earnings r))"
      "money (gross_earnings r)" unfolding g by simp_all
  qed
  let ?epf = "epf_employee_contribution (r_epf r)" and ?esi = "esi_employee_contribution (r_esi r)"
    and ?pt = "professional_tax r"
  have "paise ?epf" "paise ?esi" "paise ?pt"
    by (simp_all add: r(4-6) epf_contributions_def esi_contributions_def Let_def)
  then have m: "money ?epf" "money ?esi" "money ?pt"
    using assms(6) [of ?epf] assms(6) [of ?esi] assms(6) [of ?pt] by (auto simp: money_def)
  have "dplus L ?epf ?esi = ?epf + ?esi \<and> money (?epf + ?esi)"
    using m assms(6) [of ?epf] assms(6) [of ?esi] by (intro money_plus) auto
  moreover from this have "dplus L (?epf + ?esi) ?pt = ?epf + ?esi + ?pt \<and> money (?epf + ?esi + ?pt)"
    using m assms(6) [of ?epf] assms(6) [of ?esi] assms(6) [of ?pt] by (intro money_plus) auto
  moreover from this have "dplus L (?epf + ?esi + ?pt) (r_tds r) = ?epf + ?esi + ?pt + r_tds r
      \<and> money (?epf + ?esi + ?pt + r_tds r)"
    using m assms(4,5) assms(6) [of ?epf] assms(6) [of ?esi] assms(6) [of ?pt] by (intro money_plus) auto
  ultimately have "total_deductions r = ?epf + ?esi + ?pt + r_tds r" "money (total_deductions r)"
    by (simp_all add: r(8))
  with gross r(9) show ?thesis by (simp add: money_minus)
qed (use assms(1) in simp_all)

lemma proration_facts:
  assumes "calculate_payroll L i = Inr r"
    and "resolve_monthly_amounts L (map component_input.truncate (components i)) (ctc_annual i) = Inr m"
    and "\<And>code a. m code = Some a \<Longrightarrow> 0 \<le> a \<and> repr L a"
  shows "(\<forall>e \<in> set (earnings r). prorated_amount e \<le> full_monthly_amount e) \<and> 0 \<le> lop_deduction r
    \<and> (\<forall>e \<in> set (earnings r). e_code e \<noteq> ''OVERTIME'' \<longrightarrow>
        0 \<le> prorated_amount e
        \<and> (payable_days i = working_days i \<and> 0 < working_days i \<longrightarrow> prorated_amount e = full_monthly_amount e)
        \<and> (payable_days i = 0 \<longrightarrow> prorated_amount e = 0))"
proof (rule calculate_payroll_cases [of i L])
  fix m' base factor
  assume m': "resolve_monthly_amounts L (map component_input.truncate (components i)) (ctc_annual i) = Inr m'"
    and days: "0 \<le> payable_days i" "payable_days i \<le> working_days i"
    and factor: "factor = (if working_days i = 0 then 0 else ddiv L (payable_days i) (working_days i))"
    and base: "base_earnings L m' factor (components i) = Inr base"
    and fin: "calculate_payroll L i = finish_payroll L i factor (base @ overtime_earnings L (overtime i))"
  note r = finish_payroll_Inr [OF fin [symmetric, unfolded assms(1)]]
  have f: "0 \<le> factor" "factor \<le> 1"
    using days by (auto simp: factor dec_simps divide_le_eq_1 intro!: fl_nonneg fl_le_1)
  have e_base: "0 \<le> prorated_amount e \<and> prorated_amount e \<le> full_monthly_amount e
      \<and> (payable_days i = working_days i \<and> 0 < working_days i \<longrightarrow> prorated_amount e = full_monthly_amount e)
      \<and> (payable_days i = 0 \<longrightarrow> prorated_amount e = 0)" if in_base: "e \<in> set base" for e
  proof -
    obtain c :: calculator_component and a where a1: "m' (ci_code c) = Some a"
      and e: "e = \<lparr>e_type = cc_type c, e_code = ci_code c, full_monthly_amount = round_paise L a,
          prorated_amount = round_paise L (dtimes L a factor)\<rparr>"
      by (rule base_earnings_inD [OF base in_base])
    have a: "full_monthly_amount e = round_paise L a" "prorated_amount e = round_paise L (dtimes L a factor)"
      by (simp_all add: e)
    have a': "0 \<le> a" "repr L a" using assms(2,3) m' a1 by auto
    have "a * factor \<le> a" using a' f mult_left_le by blast
    then have "dtimes L a factor \<le> a" using fl_mono a'(2) by (metis dtimes_def repr_def)
    moreover have "dtimes L a factor = a" if "factor = 1" using that a'(2) by (simp add: dec_simps repr_def)
    moreover have "dtimes L a factor = 0" if "factor = 0" using that by (simp add: dec_simps)
    ultimately show ?thesis
      using a' f by (auto simp: a round_paise_def dp_mono factor dec_simps
          intro!: dp_nonneg fl_nonneg)
  qed
  have e_ot: "prorated_amount e = full_monthly_amount e \<and> e_code e = ''OVERTIME''"
    if "e \<in> set (overtime_earnings L (overtime i))" for e
    using that by (auto simp: overtime_earnings_def split: option.splits if_splits)
  have le: "\<forall>e \<in> set (earnings r). prorated_amount e \<le> full_monthly_amount e"
    using e_base e_ot by (auto simp: r(1))
  then have "list_all2 (\<le>) (map prorated_amount (earnings r)) (map full_monthly_amount (earnings r))"
    by (auto simp: list_all2_conv_all_nth)
  then have "gross_earnings r \<le> dsum L (map full_monthly_amount (earnings r))"
    unfolding r(2) r(1) by (rule dsum_mono)
  then have "0 \<le> lop_deduction r"
    by (simp add: r(1,3) round_paise_def dp_nonneg dminus_nonneg)
  then show ?thesis using le e_base e_ot by (auto simp: r(1))
qed (use assms(1) in simp_all)

end

section \<open>Properties\<close>


text \<open>A sample calculation: half Basic, 22 working days of which 11 are payable.\<close>

definition sample_input :: calculation_input where
  "sample_input =
     \<lparr>components =
        [\<lparr>ci_code = ''BASIC'', ci_mode = FIXED, ci_value = Some 40000, ci_formula = None, cc_type = ''BASIC''\<rparr>,
         \<lparr>ci_code = ''HRA'', ci_mode = FIXED, ci_value = Some 10000, ci_formula = None, cc_type = ''HRA''\<rparr>,
         \<lparr>ci_code = ''PFE'', ci_mode = FIXED, ci_value = Some 1800, ci_formula = None, cc_type = ''PF_EMPLOYER''\<rparr>],
      ctc_annual = 1200000, working_days = 22, payable_days = 22,
      epf = \<lparr>ceiling = 15000, allow_above_ceiling = False, epf_employee_rate = 12, eps_rate = 8,
             epf_employer_rate = 4, admin_rate = 1, edli_rate = 1\<rparr>,
      esi = \<lparr>wage_ceiling = 21000, esi_employee_rate = 1, esi_employer_rate = 3\<rparr>,
      pt_slabs = DEFAULT_PT_SLABS KARNATAKA, month = 2, overtime = None, tds = Some 5000,
      allow_negative_net = False\<rparr>"

definition sample_result :: calculation_result where
  "sample_result =
     \<lparr>r_working_days = 22, r_payable_days = 22, payable_factor = 1,
      earnings =
        [\<lparr>e_type = ''BASIC'', e_code = ''BASIC'', full_monthly_amount = 40000, prorated_amount = 40000\<rparr>,
         \<lparr>e_type = ''HRA'', e_code = ''HRA'', full_monthly_amount = 10000, prorated_amount = 10000\<rparr>],
      gross_earnings = 50000, lop_deduction = 0, overtime_pay = 0,
      r_epf = \<lparr>epf_wages = 15000, epf_employee_contribution = 1800, eps_contribution = 1200,
               employer_pf_contribution = 600, admin_charge = 150, edli_contribution = 150\<rparr>,
      r_esi = \<lparr>esi_applicable = False, esi_wages = 0, esi_employee_contribution = 0,
               esi_employer_contribution = 0\<rparr>,
      professional_tax = 300, r_tds = 5000, total_deductions = 7100, net_pay = 42900\<rparr>"

definition sample_monthly :: amounts where
  "sample_monthly = [''BASIC'' \<mapsto> 40000, ''HRA'' \<mapsto> 10000, ''PFE'' \<mapsto> 1800]"

lemma places_numeral:
  "places decimal_js 0 (numeral n) = numeral n" "places decimal_js 2 (numeral n) = numeral n"
  "places decimal_js 4 1 = 1" "places decimal_js 2 0 = 0"
proof -
  have "of_int (100 * k) / (10::rat) ^ 2 = of_int k" for k by simp
  from this [of "numeral n"] have eq: "of_int (100 * numeral n) / (10::rat) ^ 2 = numeral n"
    by (simp only: of_int_numeral)
  show "places decimal_js 2 (numeral n) = numeral n"
    using decjs.dp_exact [of 2 "100 * numeral n"] unfolding eq .
  show "places decimal_js 0 (numeral n) = numeral n" "places decimal_js 4 1 = 1"
    using decjs.dp_exact [of 0 "numeral n"] decjs.dp_exact [of 4 10000] by simp_all
  show "places decimal_js 2 0 = 0" by (rule decjs.dp_0)
qed

lemma sample_monthly_eq:
  "resolve_monthly_amounts decimal_js (map component_input.truncate (components sample_input))
     (ctc_annual sample_input) = Inr sample_monthly"
  by (simp add: sample_input_def component_input.truncate_def resolve_monthly_amounts_def
      resolve_all_def by_code_def BASIC_CODE_def CTC_VARIABLE_def sample_monthly_def)

lemma sample_calculated: "calculate_payroll decimal_js sample_input = Inr sample_result"
proof -
  have one: "ddiv decimal_js 22 22 = 1" by code_simp
  have base: "base_earnings decimal_js sample_monthly 1 (components sample_input) = Inr (earnings sample_result)"
    by (simp add: base_earnings_def sample_input_def sample_result_def sample_monthly_def
        EMPLOYER_COST_TYPES_def round_paise_def dec_eval places_numeral)
  have pt: "resolve_professional_tax 50000 2 (DEFAULT_PT_SLABS KARNATAKA) = 300"
    by (simp add: resolve_professional_tax_def pt_seed_def)
  have "finish_payroll decimal_js sample_input 1 (earnings sample_result) = Inr sample_result"
    by (simp add: finish_payroll_def sample_input_def sample_result_def dsum_def dec_eval
        epf_contributions_def BASIC_CODE_def contribution_def round_rupee_def places_numeral
        esi_contributions_def overtime_amount_def round_paise_def pt del: DEFAULT_PT_SLABS.simps)
  with one base sample_monthly_eq show ?thesis
    by (simp add: calculate_payroll_def) (simp add: sample_input_def overtime_earnings_def)
qed


text \<open>
  Loss of pay never raises an amount: every earning is paid at most in full and the deduction
  for lost days is never negative; an employee payable for all working days gets every component
  in full, one payable for none gets nothing of them (overtime apart).
\<close>

theorem proration_bounds:
  assumes "decimal_arith L" and "calculate_payroll L i = Inr r"
    and "resolve_monthly_amounts L (map component_input.truncate (components i)) (ctc_annual i) = Inr m"
    and "\<And>code a. m code = Some a \<Longrightarrow> 0 \<le> a \<and> repr L a"
  shows "(\<forall>e \<in> set (earnings r). prorated_amount e \<le> full_monthly_amount e) \<and> 0 \<le> lop_deduction r
    \<and> (\<forall>e \<in> set (earnings r). e_code e \<noteq> ''OVERTIME'' \<longrightarrow>
        0 \<le> prorated_amount e
        \<and> (payable_days i = working_days i \<and> 0 < working_days i \<longrightarrow> prorated_amount e = full_monthly_amount e)
        \<and> (payable_days i = 0 \<longrightarrow> prorated_amount e = 0))"
  by (rule decimal_arith.proration_facts [OF assms])

theorem proration_bounds_witness: "0 \<le> lop_deduction sample_result"
  by (rule proration_bounds [OF decjs.decimal_arith_axioms sample_calculated sample_monthly_eq,
        THEN conjunct2, THEN conjunct1])
    (auto simp: sample_monthly_def repr_def dec_exact_numeral split: if_splits)

lemma overtime_cost_free:
  "e \<in> set (overtime_earnings L ot) \<Longrightarrow> e_type e \<notin> set EMPLOYER_COST_TYPES"
  by (auto simp: overtime_earnings_def EMPLOYER_COST_TYPES_def split: option.splits if_splits)

text \<open>
  Statutory limits of every calculated line: no employer-side cost is paid as an earning; the
  EPF wages never exceed the ceiling (unless the tenant allows it); ESI is charged exactly when
  the full gross is within the ESI ceiling, on the gross actually paid, and is zero otherwise.
\<close>

theorem statutory_limits:
  assumes "calculate_payroll L i = Inr r"
  shows "(\<forall>e \<in> set (earnings r). e_type e \<notin> set EMPLOYER_COST_TYPES)
    \<and> (epf_wages (r_epf r) \<le> ceiling (epf i) \<or> allow_above_ceiling (epf i))
    \<and> esi_applicable (r_esi r) = (dsum L (map full_monthly_amount (earnings r)) \<le> wage_ceiling (esi i))
    \<and> esi_wages (r_esi r) = (if esi_applicable (r_esi r) then gross_earnings r else 0)
    \<and> esi_employee_contribution (r_esi r)
        = (if esi_applicable (r_esi r) then contribution L (gross_earnings r) (esi_employee_rate (esi i)) else 0)"
proof (rule calculate_payroll_cases [of i L])
  fix m base factor
  assume base: "base_earnings L m factor (components i) = Inr base"
    and fin: "calculate_payroll L i = finish_payroll L i factor (base @ overtime_earnings L (overtime i))"
  note r = finish_payroll_Inr [OF fin [symmetric, unfolded assms(1)]]
  have "e_type e \<notin> set EMPLOYER_COST_TYPES" if "e \<in> set base" for e
    by (rule base_earnings_inD [OF base that]) simp
  with overtime_cost_free show ?thesis
    by (auto simp: r(1,4,5) epf_contributions_def esi_contributions_def Let_def)
qed (use assms in simp_all)

theorem statutory_limits_witness:
  "epf_wages (r_epf sample_result) \<le> 15000 \<and> \<not> esi_applicable (r_esi sample_result)"
  using statutory_limits [OF sample_calculated] by (simp add: sample_input_def sample_result_def)

text \<open>
  The outcomes of \<open>calculatePayroll\<close>, each exactly in its case: too many payable days, negative
  days, a structure that does not resolve, a negative net pay that is not allowed, and otherwise
  a line with a non-negative net pay (unless negative pay is allowed). The lookup the code
  asserts to be non-null never fails.
\<close>

theorem calculate_payroll_outcomes:
  "case calculate_payroll L i of
     Inl PayableExceedsWorking \<Rightarrow> payable_days i > working_days i
   | Inl NegativeDays \<Rightarrow> payable_days i \<le> working_days i \<and> payable_days i < 0
   | Inl (Structure e) \<Rightarrow> 0 \<le> payable_days i \<and> payable_days i \<le> working_days i \<and>
       resolve_monthly_amounts L (map component_input.truncate (components i)) (ctc_annual i) = Inl e
   | Inl (NegativeNet n) \<Rightarrow> n < 0 \<and> \<not> allow_negative_net i
   | Inl AmountMissing \<Rightarrow> False
   | Inr r \<Rightarrow> 0 \<le> payable_days i \<and> payable_days i \<le> working_days i
       \<and> (0 \<le> net_pay r \<or> allow_negative_net i)"
proof (rule calculate_payroll_cases [of i L])
  fix m base factor
  assume days: "0 \<le> payable_days i" "payable_days i \<le> working_days i"
    and fin: "calculate_payroll L i = finish_payroll L i factor (base @ overtime_earnings L (overtime i))"
  show ?thesis
  proof (cases "calculate_payroll L i")
    case (Inl e)
    with finish_payroll_Inl [OF fin [symmetric, unfolded Inl]] show ?thesis by auto
  next
    case (Inr r)
    with days finish_payroll_Inr(10) [OF fin [symmetric, unfolded Inr]] show ?thesis by simp
  qed
qed (simp_all, linarith)

end
