(* ===== verification/SalaryValidation.thy ===== *)
theory SalaryValidation
  imports PayrollCalculator
begin

text \<open>
  \<open>apps/api/src/payroll/salary-structure.validation.ts\<close> with the component part of
  \<open>dto/payroll.dto.ts\<close>: what a submitted salary structure must satisfy before it is stored. Every
  rejection is a \<open>BadRequest\<close>; the constructors of \<open>validation_error\<close> are its messages.
\<close>

text \<open>An optional property of a JSON body: left out, null, or given.\<close>

datatype 'a field = Undefined | Null | Given 'a

fun nullish :: "'a field \<Rightarrow> 'a option" where
  "nullish (Given a) = Some a"
| "nullish _ = None"

record component_dto =
  d_type :: string
  d_code :: "string field"
  d_name :: string
  d_mode :: calc_mode
  d_value :: "rat field"
  d_formula :: "string field"
  d_sort :: "int field"

record normalized_component = calculator_component +
  nc_name :: string
  nc_sort :: int

datatype validation_error =
    CustomNeedsCode
  | CodeReserved string
  | CodeMustBeType string
  | InvalidCode string
  | DuplicateCode string
  | FormulaMissing string
  | FormulaTakesNoValue string
  | BadFormula string formula_error
  | FormulaNotAllowed string
  | ValueRequired string
  | PercentageTooHigh string
  | NotOneBasic
  | BasicOfItself
  | Unresolvable component_error
  | BasicTooLow

definition STANDARD_CODES :: "string list" where
  "STANDARD_CODES = [''BASIC'', ''DA'', ''HRA'', ''SPECIAL_ALLOWANCE'', ''CONVEYANCE'', ''LTA'', ''MEDICAL'',
     ''PF_EMPLOYER'', ''ESI_EMPLOYER'', ''GRATUITY_PROVISION'']"

text \<open>\<open>/^[A-Z][A-Z0-9_]{0,39}$/\<close>\<close>

definition component_code :: "string \<Rightarrow> bool" where
  "component_code s =
     (case s of [] \<Rightarrow> False
      | c # cs \<Rightarrow> is_upper c \<and> length cs \<le> 39 \<and>
          list_all (\<lambda>d. is_upper d \<or> is_digit d \<or> d = CHR ''_'') cs)"

text \<open>A JavaScript string is falsy when it is missing or empty.\<close>

definition truthy :: "string field \<Rightarrow> string option" where
  "truthy f = (case nullish f of Some (c # cs) \<Rightarrow> Some (c # cs) | _ \<Rightarrow> None)"

section \<open>One component\<close>

definition normalize_code :: "component_dto \<Rightarrow> (validation_error exn, string) result" where
  "normalize_code c =
     (if d_type c = ''CUSTOM'' then
        (case truthy (d_code c) of
           None \<Rightarrow> Inl (BadRequest CustomNeedsCode)
         | Some code \<Rightarrow>
             if code = CTC_VARIABLE \<or> code \<in> set STANDARD_CODES
             then Inl (BadRequest (CodeReserved code)) else Inr code)
      else
        (case truthy (d_code c) of
           Some code \<Rightarrow> if code \<noteq> d_type c then Inl (BadRequest (CodeMustBeType (d_type c)))
                        else Inr (d_type c)
         | None \<Rightarrow> Inr (d_type c)))"

definition check_mode :: "decimal_lib \<Rightarrow> string \<Rightarrow> component_dto \<Rightarrow> (validation_error exn, unit) result" where
  "check_mode L code c =
     (if d_mode c = FORMULA then
        (case truthy (d_formula c) of
           None \<Rightarrow> Inl (BadRequest (FormulaMissing code))
         | Some f \<Rightarrow>
             if d_value c \<noteq> Undefined then Inl (BadRequest (FormulaTakesNoValue code))
             else (case parse_formula L f of
                     Inl e \<Rightarrow> Inl (BadRequest (BadFormula code e)) | Inr _ \<Rightarrow> Inr ()))
      else if truthy (d_formula c) \<noteq> None then Inl (BadRequest (FormulaNotAllowed code))
      else if d_value c = Undefined then Inl (BadRequest (ValueRequired code))
      else (case d_value c of
              Given v \<Rightarrow> if d_mode c \<noteq> FIXED \<and> v > 100 then Inl (BadRequest (PercentageTooHigh code))
                         else Inr ()
            | _ \<Rightarrow> Inr ()))"

definition normalize_one ::
  "decimal_lib \<Rightarrow> string list \<Rightarrow> int \<Rightarrow> component_dto
    \<Rightarrow> (validation_error exn, normalized_component) result" where
  "normalize_one L seen index c =
     and_then (normalize_code c) (\<lambda>code.
       if \<not> component_code code then Inl (BadRequest (InvalidCode code))
       else if code \<in> set seen then Inl (BadRequest (DuplicateCode code))
       else and_then (check_mode L code c) (\<lambda>_.
         Inr \<lparr>ci_code = code, ci_mode = d_mode c, ci_value = nullish (d_value c),
              ci_formula = nullish (d_formula c), cc_type = d_type c, nc_name = d_name c,
              nc_sort = (case nullish (d_sort c) of None \<Rightarrow> index | Some s \<Rightarrow> s)\<rparr>))"

fun normalize_all ::
  "decimal_lib \<Rightarrow> string list \<Rightarrow> int \<Rightarrow> component_dto list
    \<Rightarrow> (validation_error exn, normalized_component list) result" where
  "normalize_all L seen index [] = Inr []"
| "normalize_all L seen index (c # cs) =
     and_then (normalize_one L seen index c) (\<lambda>n.
       and_then (normalize_all L (ci_code n # seen) (index + 1) cs) (\<lambda>ns. Inr (n # ns)))"

section \<open>The whole structure\<close>

definition basics :: "normalized_component list \<Rightarrow> normalized_component list" where
  "basics ns = filter (\<lambda>c. ci_code c = BASIC_CODE) ns"

definition normalize_and_validate_components ::
  "decimal_lib \<Rightarrow> component_dto list \<Rightarrow> decimal \<Rightarrow> decimal
    \<Rightarrow> (validation_error exn, normalized_component list) result" where
  "normalize_and_validate_components L dtos ctc min_basic_percent =
     and_then (normalize_all L [] 0 dtos) (\<lambda>normalized.
       if length (basics normalized) \<noteq> 1 then Inl (BadRequest NotOneBasic)
       else if ci_mode (hd (basics normalized)) = PERCENT_OF_BASIC then Inl (BadRequest BasicOfItself)
       else case resolve_monthly_amounts L (map component_input.truncate normalized) ctc of
              Inl e \<Rightarrow> Inl (BadRequest (Unresolvable e))
            | Inr amounts \<Rightarrow>
                let monthly_ctc = ddiv L ctc 12;
                    floor = ddiv L (dtimes L monthly_ctc min_basic_percent) 100
                in (case amounts BASIC_CODE of
                      None \<Rightarrow> Inl (Crash BasicTooLow)
                    | Some basic \<Rightarrow>
                        if basic < floor then Inl (BadRequest BasicTooLow) else Inr normalized))"

section \<open>What an accepted structure satisfies\<close>

lemma normalize_one_Inr:
  assumes "normalize_one L seen index c = Inr n"
  shows "component_code (ci_code n) \<and> ci_code n \<notin> set seen \<and> cc_type n = d_type c
    \<and> ci_mode n = d_mode c \<and> ci_value n = nullish (d_value c)
    \<and> (d_type c = ''CUSTOM'' \<longrightarrow> ci_code n \<notin> set STANDARD_CODES \<and> ci_code n \<noteq> CTC_VARIABLE)
    \<and> (d_type c \<noteq> ''CUSTOM'' \<longrightarrow> ci_code n = d_type c)"
  using assms
  by (auto simp: normalize_one_def normalize_code_def and_then_Inr_iff split: if_splits option.splits)

lemma normalize_all_Inr:
  assumes "normalize_all L seen index cs = Inr ns"
  shows "length ns = length cs \<and> distinct (map ci_code ns) \<and> ci_code ` set ns \<inter> set seen = {}
    \<and> (\<forall>n \<in> set ns. component_code (ci_code n) \<and>
        (cc_type n = ''CUSTOM'' \<longrightarrow> ci_code n \<notin> set STANDARD_CODES \<and> ci_code n \<noteq> CTC_VARIABLE) \<and>
        (cc_type n \<noteq> ''CUSTOM'' \<longrightarrow> ci_code n = cc_type n))"
  using assms
proof (induction cs arbitrary: seen index ns)
  case (Cons c cs)
  then obtain n ms where n: "normalize_one L seen index c = Inr n"
    and ms: "normalize_all L (ci_code n # seen) (index + 1) cs = Inr ms" "ns = n # ms"
    by (auto simp: and_then_Inr_iff)
  from normalize_one_Inr [OF n] Cons.IH [OF ms(1)] show ?case by (auto simp: ms(2))
qed simp

lemma validated_Inr:
  assumes "normalize_and_validate_components L dtos ctc floor_percent = Inr ns"
  obtains amounts basic where "normalize_all L [] 0 dtos = Inr ns" "length (basics ns) = 1"
    "resolve_monthly_amounts L (map component_input.truncate ns) ctc = Inr amounts"
    "amounts BASIC_CODE = Some basic"
    "ddiv L (dtimes L (ddiv L ctc 12) floor_percent) 100 \<le> basic"
  using assms that
  by (auto simp: normalize_and_validate_components_def and_then_Inr_iff Let_def
      split: if_splits sum.splits option.splits)

lemma resolved_codes:
  assumes "resolve_monthly_amounts L (map component_input.truncate ns) ctc = Inr m"
    and "c \<in> set ns"
  shows "\<exists>a. m (ci_code c) = Some a"
proof -
  have "ci_code ` set (map component_input.truncate ns) \<subseteq> dom m"
    using resolve_all_sound [OF assms(1) [unfolded resolve_monthly_amounts_def] wr_empty] by auto
  moreover have "ci_code (component_input.truncate c) = ci_code c" by (simp add: component_input.truncate_def)
  ultimately show ?thesis using assms(2) by (auto simp: image_subset_iff)
qed

text \<open>
  C36. An accepted structure is well formed: as many components as submitted, distinct codes in
  UPPER_SNAKE form, standard components under their own name and custom ones under none of the
  reserved codes, exactly one Basic, all monthly amounts resolvable, and Basic at or above the
  tenant's share of the monthly CTC.
\<close>

theorem accepted_structure_well_formed:
  assumes "normalize_and_validate_components L dtos ctc floor_percent = Inr ns"
  shows "length ns = length dtos \<and> distinct (map ci_code ns)
    \<and> (\<forall>n \<in> set ns. component_code (ci_code n)
        \<and> (if cc_type n = ''CUSTOM'' then ci_code n \<notin> set STANDARD_CODES \<and> ci_code n \<noteq> CTC_VARIABLE
           else ci_code n = cc_type n))
    \<and> length (basics ns) = 1
    \<and> (\<exists>amounts basic. resolve_monthly_amounts L (map component_input.truncate ns) ctc = Inr amounts
        \<and> amounts BASIC_CODE = Some basic
        \<and> ddiv L (dtimes L (ddiv L ctc 12) floor_percent) 100 \<le> basic)"
proof (rule validated_Inr [OF assms])
  fix amounts basic
  assume a: "normalize_all L [] 0 dtos = Inr ns" "length (basics ns) = 1"
    "resolve_monthly_amounts L (map component_input.truncate ns) ctc = Inr amounts"
    "amounts BASIC_CODE = Some basic"
    "ddiv L (dtimes L (ddiv L ctc 12) floor_percent) 100 \<le> basic"
  from normalize_all_Inr [OF a(1)] a(2-) show ?thesis by auto
qed

definition sample_dtos :: "component_dto list" where
  "sample_dtos =
     [\<lparr>d_type = ''BASIC'', d_code = Undefined, d_name = ''Basic'', d_mode = FIXED, d_value = Given 40000,
       d_formula = Undefined, d_sort = Undefined\<rparr>]"

definition sample_normalized :: "normalized_component list" where
  "sample_normalized =
     [\<lparr>ci_code = ''BASIC'', ci_mode = FIXED, ci_value = Some 40000, ci_formula = None,
       cc_type = ''BASIC'', nc_name = ''Basic'', nc_sort = 0\<rparr>]"

lemma sample_accepted:
  "normalize_and_validate_components decimal_js sample_dtos 600000 50 = Inr sample_normalized"
proof -
  have "component_code ''BASIC''" by code_simp
  moreover have "ddiv decimal_js 600000 12 = 50000" "ddiv decimal_js 2500000 100 = 25000"
    by (simp_all add: dec_eval)
  ultimately show ?thesis
    by (simp add: normalize_and_validate_components_def sample_dtos_def normalize_one_def
        normalize_code_def check_mode_def truthy_def basics_def BASIC_CODE_def resolve_monthly_amounts_def
        resolve_all_def component_input.truncate_def by_code_def dtimes_def dec_exact_numeral
        sample_normalized_def)
qed

theorem accepted_structure_well_formed_witness: "length (basics sample_normalized) = 1"
  using accepted_structure_well_formed [OF sample_accepted] by blast

text \<open>
  C37. A structure that passed validation never stops a payroll run: whatever the days, rates and
  tables, \<open>calculatePayroll\<close> on its components and CTC does not fail with a structure error
  (unknown or circular reference, formula error), so only days and a negative net pay can stop it.
\<close>

theorem accepted_structure_computable:
  assumes "normalize_and_validate_components L dtos ctc floor_percent = Inr ns"
    and "components i = map calculator_component.truncate ns" and "ctc_annual i = ctc"
  shows "case calculate_payroll L i of
     Inl PayableExceedsWorking \<Rightarrow> True | Inl NegativeDays \<Rightarrow> True | Inl (NegativeNet _) \<Rightarrow> True
   | Inl _ \<Rightarrow> False | Inr _ \<Rightarrow> True"
proof (rule validated_Inr [OF assms(1)])
  fix amounts basic
  assume res: "resolve_monthly_amounts L (map component_input.truncate ns) ctc = Inr amounts"
  have "map component_input.truncate (components i) = map component_input.truncate ns"
    by (simp add: assms(2) component_input.truncate_def calculator_component.truncate_def)
  with res assms(3)
  have res': "resolve_monthly_amounts L (map component_input.truncate (components i)) (ctc_annual i) = Inr amounts"
    by simp
  show ?thesis
  proof (rule calculate_payroll_cases [of i L])
    fix m base factor
    assume fin: "calculate_payroll L i = finish_payroll L i factor (base @ overtime_earnings L (overtime i))"
    show ?thesis
    proof (cases "calculate_payroll L i")
      case (Inl e)
      from finish_payroll_Inl [OF fin [symmetric, unfolded Inl]] Inl show ?thesis by auto
    qed simp
  qed (use res' in simp_all)
qed

theorem accepted_structure_computable_witness:
  "calculate_payroll decimal_js
     (sample_input\<lparr>components := map calculator_component.truncate sample_normalized, ctc_annual := 600000\<rparr>)
   \<noteq> Inl (Structure (UnknownComponent ''X''))"
  using accepted_structure_computable [OF sample_accepted, of
      "sample_input\<lparr>components := map calculator_component.truncate sample_normalized, ctc_annual := 600000\<rparr>"]
  by auto

text \<open>
  Validation answers every submission with a \<open>BadRequest\<close> or the normalised components; it
  never crashes (the amount of Basic it reads is always there).
\<close>

theorem validation_total:
  "(\<exists>ns. normalize_and_validate_components L dtos ctc floor_percent = Inr ns)
   \<or> (\<exists>e. normalize_and_validate_components L dtos ctc floor_percent = Inl (BadRequest e))"
proof -
  have code: "\<exists>x. normalize_code c = Inr x \<or> (\<exists>e. normalize_code c = Inl (BadRequest e))" for c
    by (auto simp: normalize_code_def split: option.splits)
  have mode: "check_mode L k c = Inr () \<or> (\<exists>e. check_mode L k c = Inl (BadRequest e))" for k c
    by (auto simp: check_mode_def split: option.splits sum.splits field.splits)
  have one: "(\<exists>n. normalize_one L seen i c = Inr n) \<or> (\<exists>e. normalize_one L seen i c = Inl (BadRequest e))"
    for seen i c
  proof (cases "normalize_code c")
    case (Inl e)
    with code [of c] show ?thesis by (auto simp: normalize_one_def)
  next
    case (Inr k)
    with mode [of k c] show ?thesis by (auto simp: normalize_one_def)
  qed
  have all: "(\<exists>ns. normalize_all L seen i cs = Inr ns) \<or> (\<exists>e. normalize_all L seen i cs = Inl (BadRequest e))"
    for seen i cs
  proof (induction cs arbitrary: seen i)
    case (Cons c cs)
    from one [of seen i c] show ?case
    proof
      assume "\<exists>n. normalize_one L seen i c = Inr n"
      then obtain n where n: "normalize_one L seen i c = Inr n" ..
      from Cons.IH [of "ci_code n # seen" "i + 1"] n show ?thesis by auto
    qed auto
  qed simp
  have basic: "\<exists>b. m BASIC_CODE = Some b"
    if "length (basics ns) = 1" "resolve_monthly_amounts L (map component_input.truncate ns) ctc = Inr m" for ns m
  proof -
    from that(1) obtain c where "c \<in> set (basics ns)" by (metis length_greater_0_conv less_numeral_extra(1) nth_mem)
    then have "c \<in> set ns" "ci_code c = BASIC_CODE" by (auto simp: basics_def)
    with resolved_codes [OF that(2)] show ?thesis by metis
  qed
  note def = normalize_and_validate_components_def
  from all [of "[]" 0 dtos] show ?thesis
  proof
    assume "\<exists>ns. normalize_all L [] 0 dtos = Inr ns"
    then obtain ns where ns: "normalize_all L [] 0 dtos = Inr ns" ..
    show ?thesis
    proof (cases "length (basics ns) = 1 \<and> ci_mode (hd (basics ns)) \<noteq> PERCENT_OF_BASIC")
      case True
      show ?thesis
      proof (cases "resolve_monthly_amounts L (map component_input.truncate ns) ctc")
        case (Inr m)
        with True obtain b where b: "m BASIC_CODE = Some b" using basic by blast
        show ?thesis
          by (cases "b < ddiv L (dtimes L (ddiv L ctc 12) floor_percent) 100")
            (use ns True Inr b in \<open>simp_all add: def Let_def\<close>)
      qed (use ns True in \<open>simp add: def\<close>)
    next
      case False
      with ns show ?thesis by (auto simp: def)
    qed
  qed (auto simp: def)
qed

end
