(* ===== verification/WorkingDays.thy ===== *)
theory WorkingDays
  imports FinancialYear
begin

text \<open>
  \<open>apps/api/src/payroll/working-days.util.ts\<close>: the working days of a date range (the day loop),
  the weekly-off days that apply to an employee, and the payable days of an employee in a
  period. Holidays are the set of the days the code keeps as ISO date strings.
\<close>

definition month_range :: "string \<Rightarrow> date \<times> date" where
  "month_range p =
     (let y = period_year p; m = period_month p in (date_utc y (m - 1) 1, date_utc y m 1))"

text \<open>One turn of the loop counts the day of \<open>cur\<close> and moves one day on.\<close>

function count_days_from :: "date \<Rightarrow> date \<Rightarrow> int set \<Rightarrow> int list \<Rightarrow> int \<Rightarrow> int" where
  "count_days_from cur e holidays offs count =
     (if cur \<le> e then
        count_days_from (cur + DAY_MS) e holidays offs
          (if iso_day cur \<notin> holidays \<and> utc_day cur \<notin> set offs then count + 1 else count)
      else count)"
  by pat_completeness auto
termination by (relation "measure (\<lambda>(cur, e, _). nat (e - cur + 1))") (auto simp: DAY_MS_def)

declare count_days_from.simps [simp del]

definition count_working_days :: "date \<Rightarrow> date \<Rightarrow> int set \<Rightarrow> int list \<Rightarrow> int" where
  "count_working_days start e holidays offs = count_days_from start e holidays offs 0"

definition effective_weekly_off_days :: "int list \<Rightarrow> int list option \<Rightarrow> int list" where
  "effective_weekly_off_days tenant override =
     (case override of None \<Rightarrow> tenant | Some ov \<Rightarrow> if ov \<noteq> [] then ov else tenant)"

definition compute_payable_days ::
  "date \<Rightarrow> date \<Rightarrow> int set \<Rightarrow> int list \<Rightarrow> int \<Rightarrow> date option \<Rightarrow> date option \<Rightarrow> int \<times> int" where
  "compute_payable_days start e holidays offs lop_days employed_from employed_to =
     (let working_days = count_working_days start e holidays offs;
          range_start = (case employed_from of Some f \<Rightarrow> if f > start then f else start | None \<Rightarrow> start);
          range_end = (case employed_to of Some t \<Rightarrow> if t < e then t else e | None \<Rightarrow> e);
          employed = (if range_start > range_end then 0
                      else count_working_days range_start range_end holidays offs)
      in (working_days, max 0 (employed - lop_days)))"

section \<open>The loop counts the working days of the range\<close>

definition working :: "int set \<Rightarrow> int list \<Rightarrow> int \<Rightarrow> bool" where
  "working holidays offs d \<longleftrightarrow> d \<notin> holidays \<and> (d + 4) mod 7 \<notin> set offs"

text \<open>The day numbers the loop visits from a start (at any time of its day) to an end.\<close>

definition days_between :: "date \<Rightarrow> date \<Rightarrow> int set" where
  "days_between start e = {d. iso_day start \<le> d \<and> start + (d - iso_day start) * DAY_MS \<le> e}"

lemma iso_day_next: "iso_day (t + DAY_MS) = iso_day t + 1"
  by (simp add: iso_day_def DAY_MS_def)

lemma days_between_finite: "finite (days_between start e)"
proof (rule finite_subset)
  show "days_between start e \<subseteq> {iso_day start .. iso_day start + (e - start)}"
  proof
    fix d assume "d \<in> days_between start e"
    then have d: "iso_day start \<le> d" "start + (d - iso_day start) * DAY_MS \<le> e"
      by (auto simp: days_between_def)
    have "d - iso_day start \<le> (d - iso_day start) * DAY_MS"
      using d(1) by (simp add: DAY_MS_def)
    with d show "d \<in> {iso_day start .. iso_day start + (e - start)}" by simp
  qed
qed simp

lemma days_between_step:
  assumes "cur \<le> e"
  shows "days_between cur e = insert (iso_day cur) (days_between (cur + DAY_MS) e)"
    and "iso_day cur \<notin> days_between (cur + DAY_MS) e"
proof -
  have eq: "cur + (d - iso_day cur) * DAY_MS = cur + DAY_MS + (d - (iso_day cur + 1)) * DAY_MS" for d
    by (simp add: algebra_simps)
  show "days_between cur e = insert (iso_day cur) (days_between (cur + DAY_MS) e)"
  proof (rule set_eqI)
    fix d
    show "d \<in> days_between cur e \<longleftrightarrow> d \<in> insert (iso_day cur) (days_between (cur + DAY_MS) e)"
      using assms eq [of d] by (cases "d = iso_day cur") (auto simp: days_between_def iso_day_next)
  qed
  show "iso_day cur \<notin> days_between (cur + DAY_MS) e"
    by (simp add: days_between_def iso_day_next)
qed

lemma count_days_from_card:
  "count_days_from cur e hs offs n = n + int (card {d \<in> days_between cur e. working hs offs d})"
proof (induction cur e hs offs n rule: count_days_from.induct)
  case (1 cur e hs offs n)
  show ?case
  proof (cases "cur \<le> e")
    case True
    let ?A = "{d \<in> days_between (cur + DAY_MS) e. working hs offs d}"
    have fin: "finite ?A" by (simp add: days_between_finite)
    have split: "{d \<in> days_between cur e. working hs offs d} =
        (if working hs offs (iso_day cur) then insert (iso_day cur) ?A else ?A)"
      using days_between_step(1) [OF True] by auto
    have "card {d \<in> days_between cur e. working hs offs d} =
        (if working hs offs (iso_day cur) then Suc (card ?A) else card ?A)"
      unfolding split using fin days_between_step(2) [OF True] by auto
    moreover have "working hs offs (iso_day cur) \<longleftrightarrow> iso_day cur \<notin> hs \<and> utc_day cur \<notin> set offs"
      by (simp add: working_def utc_day_def)
    ultimately show ?thesis
      using 1 [OF True] True by (subst count_days_from.simps) simp
  next
    case False
    have "days_between cur e = {}"
    proof -
      have "0 \<le> (d - iso_day cur) * DAY_MS" if "iso_day cur \<le> d" for d
        using that by (simp add: DAY_MS_def)
      with False show ?thesis by (force simp: days_between_def)
    qed
    with False show ?thesis by (subst count_days_from.simps) simp
  qed
qed

lemma count_working_days_card:
  "count_working_days start e hs offs = int (card {d \<in> days_between start e. working hs offs d})"
  by (simp add: count_working_days_def count_days_from_card)

lemma days_between_midnight:
  assumes "start mod DAY_MS = 0"
  shows "days_between start e = {iso_day start .. iso_day e}"
proof -
  have s: "start = iso_day start * DAY_MS"
    using assms div_mult_mod_eq [of start DAY_MS] by (simp add: iso_day_def)
  have "start + (d - iso_day start) * DAY_MS = d * DAY_MS" for d
    by (subst s) (simp add: algebra_simps)
  then show ?thesis by (auto simp: days_between_def midnight_le_iff)
qed

lemma days_between_mono:
  assumes "start mod DAY_MS = 0" and "s mod DAY_MS = 0" and "start \<le> s" and "t \<le> e"
  shows "days_between s t \<subseteq> days_between start e"
  using assms by (auto simp: days_between_midnight iso_day_def dest: zdiv_mono1 [OF _ DAY_MS_pos])

lemma count_working_days_mono:
  assumes "days_between s t \<subseteq> days_between start e"
  shows "count_working_days s t hs offs \<le> count_working_days start e hs offs"
proof -
  have "card {d \<in> days_between s t. working hs offs d} \<le> card {d \<in> days_between start e. working hs offs d}"
    using assms days_between_finite [of start e] by (intro card_mono) auto
  then show ?thesis by (simp add: count_working_days_card)
qed

lemma count_working_days_nonneg: "0 \<le> count_working_days s e hs offs"
  by (simp add: count_working_days_card)

text \<open>
  The day loop of \<open>countWorkingDays\<close> counts exactly the days from the day of the start to the
  day of the end, both included, that are neither a holiday nor a weekly-off day; for a start at
  midnight, whatever the time of the end.
\<close>

theorem count_working_days_spec:
  assumes "start mod DAY_MS = 0"
  shows "count_working_days start e hs offs
    = int (card {d. iso_day start \<le> d \<and> d \<le> iso_day e \<and> d \<notin> hs \<and> (d + 4) mod 7 \<notin> set offs})"
proof -
  have "{d \<in> days_between start e. working hs offs d}
    = {d. iso_day start \<le> d \<and> d \<le> iso_day e \<and> d \<notin> hs \<and> (d + 4) mod 7 \<notin> set offs}"
    using assms by (auto simp: days_between_midnight working_def)
  then show ?thesis by (simp only: count_working_days_card)
qed

theorem count_working_days_spec_witness:
  "count_working_days (date_utc 2026 3 1) (date_utc 2026 3 5) {} [0, 6]
    = int (card {d. iso_day (date_utc 2026 3 1) \<le> d \<and> d \<le> iso_day (date_utc 2026 3 5)
        \<and> d \<notin> {} \<and> (d + 4) mod 7 \<notin> set [0, 6]})"
  by (rule count_working_days_spec) code_simp

text \<open>
  Whatever the dates of joining and leaving and the unpaid days, the payable days of an
  employee are between zero and the working days of the period, so the calculator's check on
  them never rejects what this function returns; an employee who was there for the whole
  period without unpaid leave is payable for all of it.
\<close>

theorem compute_payable_days_bounds:
  assumes "start mod DAY_MS = 0" and "0 \<le> lop"
    and "\<And>f. from_opt = Some f \<Longrightarrow> f mod DAY_MS = 0"
    and "compute_payable_days start e hs offs lop from_opt to_opt = (working_days, payable_days)"
  shows "0 \<le> payable_days \<and> payable_days \<le> working_days
    \<and> working_days = count_working_days start e hs offs
    \<and> (from_opt = None \<and> to_opt = None \<and> start \<le> e \<and> lop = 0 \<longrightarrow> payable_days = working_days)"
proof -
  define s where "s = (case from_opt of Some f \<Rightarrow> if f > start then f else start | None \<Rightarrow> start)"
  define t where "t = (case to_opt of Some t \<Rightarrow> if t < e then t else e | None \<Rightarrow> e)"
  define n where "n = (if s > t then 0 else count_working_days s t hs offs)"
  have "compute_payable_days start e hs offs lop from_opt to_opt
    = (count_working_days start e hs offs, max 0 (n - lop))"
    unfolding compute_payable_days_def Let_def n_def s_def t_def by (rule refl)
  then have eqs: "working_days = count_working_days start e hs offs" "payable_days = max 0 (n - lop)"
    using assms(4) by simp_all
  have "s mod DAY_MS = 0" "start \<le> s" "t \<le> e"
    using assms(1,3) by (auto simp: s_def t_def split: option.splits)
  then have "days_between s t \<subseteq> days_between start e" using assms(1) by (intro days_between_mono)
  then have "n \<le> working_days"
    using count_working_days_mono count_working_days_nonneg by (simp add: n_def eqs(1))
  moreover have "from_opt = None \<Longrightarrow> to_opt = None \<Longrightarrow> start \<le> e \<Longrightarrow> n = working_days"
    by (simp add: n_def s_def t_def eqs(1))
  ultimately show ?thesis
    using eqs assms(2) count_working_days_nonneg [of start e hs offs] by auto
qed

theorem compute_payable_days_bounds_witness:
  "compute_payable_days (date_utc 2026 3 1) (date_utc 2026 3 30) {iso_day (date_utc 2026 3 14)} [0, 6] 2
      (Some (date_utc 2026 3 13)) None = (21, 11)
   \<and> (0::int) \<le> 11 \<and> (11::int) \<le> 21"
proof -
  have eq: "compute_payable_days (date_utc 2026 3 1) (date_utc 2026 3 30) {iso_day (date_utc 2026 3 14)}
      [0, 6] 2 (Some (date_utc 2026 3 13)) None = (21, 11)"
    by code_simp
  have "date_utc 2026 3 1 mod DAY_MS = 0" "date_utc 2026 3 13 mod DAY_MS = 0" by code_simp+
  then show ?thesis
    using compute_payable_days_bounds [OF _ _ _ eq] eq by simp
qed

end
