(* ===== verification/FullFinalCalculator.thy ===== *)
theory FullFinalCalculator
  imports TdsCalculator
begin

text \<open>
  \<open>apps/api/src/payroll/full-and-final-calculator.ts\<close>: completed years of service between two
  dates, the gratuity formula with its eligibility threshold and cap, and leave encashment. The
  divisors are tenant settings with a minimum of 1, so the divisions are by a non-zero number.
\<close>

definition years_before_rounding :: "date \<Rightarrow> date \<Rightarrow> int" where
  "years_before_rounding frm to =
     (let years = utc_year to - utc_year frm;
          anniversary_this_year = date_utc (utc_year to) (utc_month frm) (utc_date frm)
      in if to < anniversary_this_year then years - 1 else years)"

definition six_months_after :: "date \<Rightarrow> int \<Rightarrow> date" where
  "six_months_after frm years =
     (let last_anniversary = date_utc (utc_year frm + years) (utc_month frm) (utc_date frm)
      in date_utc (utc_year last_anniversary) (utc_month last_anniversary + 6) (utc_date last_anniversary))"

definition completed_years_of_service :: "date \<Rightarrow> date \<Rightarrow> int" where
  "completed_years_of_service frm to =
     (let years = years_before_rounding frm to
      in if years < 0 then 0
         else if to > six_months_after frm years then years + 1 else years)"

record gratuity_input =
  last_drawn_basic :: decimal
  completed_years :: int
  eligibility_years :: int
  days_per_year :: decimal
  month_divisor :: decimal
  max_amount :: decimal

definition calculate_gratuity :: "decimal_lib \<Rightarrow> gratuity_input \<Rightarrow> decimal" where
  "calculate_gratuity L i =
     (if completed_years i < eligibility_years i then 0
      else let amount = places L 2 (dtimes L
                 (ddiv L (dtimes L (last_drawn_basic i) (days_per_year i)) (month_divisor i))
                 (of_int (completed_years i)))
           in min amount (max_amount i))"

definition calculate_leave_encashment :: "decimal_lib \<Rightarrow> decimal \<Rightarrow> decimal \<Rightarrow> decimal \<Rightarrow> decimal" where
  "calculate_leave_encashment L encashable_days components_monthly_total divisor =
     (let per_day_rate = ddiv L components_monthly_total divisor
      in places L 2 (dtimes L per_day_rate encashable_days))"

section \<open>Anniversaries\<close>

definition anniversary :: "date \<Rightarrow> int \<Rightarrow> date" where
  "anniversary frm n = date_utc (utc_year frm + n) (utc_month frm) (utc_date frm)"

lemma anniversary_in_year:
  assumes "100 \<le> utc_year frm + n"
  shows "\<exists>d. anniversary frm n = d * DAY_MS \<and> day_from_year (utc_year frm + n) \<le> d
    \<and> d < day_from_year (utc_year frm + n + 1)"
  unfolding anniversary_def
  using date_utc_in_year [OF assms utc_month_bounds utc_date_bounds] by blast

lemma utc_year_bounds:
  "day_from_year (utc_year t) \<le> iso_day t" "iso_day t < day_from_year (utc_year t + 1)"
  unfolding utc_year_def by (rule year_of_day_le, rule year_of_day_less)

text \<open>The years counted before rounding bracket the date between two anniversaries.\<close>

lemma years_before_rounding_bracket:
  assumes "100 \<le> utc_year frm" and "100 < utc_year to"
  shows "anniversary frm (years_before_rounding frm to) \<le> to
    \<and> to < anniversary frm (years_before_rounding frm to + 1)"
proof -
  let ?n = "utc_year to - utc_year frm"
  have y: "utc_year frm + ?n = utc_year to" "utc_year frm + (?n - 1) = utc_year to - 1"
    "utc_year frm + (?n + 1) = utc_year to + 1" by simp_all
  have yb: "years_before_rounding frm to = (if to < anniversary frm ?n then ?n - 1 else ?n)"
    by (simp add: years_before_rounding_def anniversary_def Let_def)
  obtain d where d: "anniversary frm (?n - 1) = d * DAY_MS" "d < day_from_year (utc_year to)"
    using anniversary_in_year [of frm "?n - 1"] assms by auto
  have "anniversary frm (?n - 1) \<le> to"
    unfolding d(1) midnight_le_iff using d(2) utc_year_bounds(1) [of to] by simp
  moreover obtain d' where d': "anniversary frm (?n + 1) = d' * DAY_MS" "day_from_year (utc_year to + 1) \<le> d'"
    using anniversary_in_year [of frm "?n + 1"] assms by auto
  have "to < anniversary frm (?n + 1)"
    unfolding d'(1) not_le [symmetric] midnight_le_iff using d'(2) utc_year_bounds(2) [of to] by simp
  ultimately show ?thesis by (simp add: yb)
qed

lemma anniversary_strict_mono:
  assumes "100 \<le> utc_year frm" and "0 \<le> k" and "k < n"
  shows "anniversary frm k < anniversary frm n"
proof -
  obtain d where d: "anniversary frm k = d * DAY_MS" "d < day_from_year (utc_year frm + k + 1)"
    using anniversary_in_year [of frm k] assms by auto
  obtain e where e: "anniversary frm n = e * DAY_MS" "day_from_year (utc_year frm + n) \<le> e"
    using anniversary_in_year [of frm n] assms by auto
  have "day_from_year (utc_year frm + k + 1) \<le> day_from_year (utc_year frm + n)"
    using day_from_year_mono [of "utc_year frm + k + 1" "utc_year frm + n"] assms(3) by simp
  with d e have "d < e" by simp
  then show ?thesis by (simp add: d(1) e(1))
qed

lemma anniversary_0: "100 \<le> utc_year frm \<Longrightarrow> anniversary frm 0 = iso_day frm * DAY_MS"
  using date_utc_in_year(1) [OF _ utc_month_bounds utc_date_bounds, of "utc_year frm" frm]
  by (simp add: anniversary_def utc_date_def day_in_year_def)

lemma years_nonneg:
  assumes "100 \<le> utc_year frm" and "frm \<le> to" and "100 < utc_year to"
  shows "0 \<le> years_before_rounding frm to"
proof (rule ccontr)
  assume neg: "\<not> ?thesis"
  let ?y = "years_before_rounding frm to"
  have yb: "?y = (if to < anniversary frm (utc_year to - utc_year frm) then utc_year to - utc_year frm - 1
      else utc_year to - utc_year frm)"
    by (simp add: years_before_rounding_def anniversary_def Let_def)
  have "iso_day frm \<le> iso_day to" unfolding iso_day_def using assms(2) by (rule zdiv_mono1) simp
  then have "\<not> utc_year to + 1 \<le> utc_year frm"
    using utc_year_bounds(1) [of frm] utc_year_bounds(2) [of to]
      day_from_year_mono [of "utc_year to + 1" "utc_year frm"] by auto
  then have le: "utc_year frm \<le> utc_year to" by simp
  with neg yb have "utc_year to = utc_year frm" "to < anniversary frm 0" by (auto split: if_splits)
  moreover have "anniversary frm 0 \<le> to"
    unfolding anniversary_0 [OF assms(1)] midnight_le_iff by fact
  ultimately show False by simp
qed

lemma years_before_rounding_mono:
  assumes "1900 \<le> utc_year frm" and "frm \<le> to" and "to \<le> to'" and "1900 \<le> utc_year to" "1900 \<le> utc_year to'"
  shows "years_before_rounding frm to \<le> years_before_rounding frm to'"
proof (rule ccontr)
  let ?n = "years_before_rounding frm to" and ?n' = "years_before_rounding frm to'"
  assume "\<not> ?n \<le> ?n'"
  then have lt: "?n' + 1 \<le> ?n" by simp
  have "0 \<le> ?n'" using years_nonneg [of frm to'] assms by simp
  with lt have "anniversary frm (?n' + 1) \<le> anniversary frm ?n"
    using anniversary_strict_mono [of frm "?n' + 1" ?n] assms(1) by (cases "?n' + 1 = ?n") auto
  moreover have "anniversary frm ?n \<le> to" "to' < anniversary frm (?n' + 1)"
    using years_before_rounding_bracket [of frm to] years_before_rounding_bracket [of frm to'] assms
    by simp_all
  ultimately show False using assms(3) by simp
qed

section \<open>Properties\<close>

text \<open>
  \<open>completedYearsOfService\<close> counts calendar anniversaries: the last anniversary not after the
  separation is the one counted, and the trailing part counts as one more year exactly when the
  separation is later than six calendar months after it. A later separation never gives fewer
  years.
\<close>

theorem completed_years_spec:
  assumes "1900 \<le> utc_year frm" and "frm \<le> to" and "1900 \<le> utc_year to"
    and "to \<le> to'" and "1900 \<le> utc_year to'"
  shows "(\<exists>n \<ge> 0. anniversary frm n \<le> to \<and> to < anniversary frm (n + 1)
      \<and> completed_years_of_service frm to = (if six_months_after frm n < to then n + 1 else n))
    \<and> completed_years_of_service frm to \<le> completed_years_of_service frm to'"
proof -
  let ?n = "years_before_rounding frm to" and ?n' = "years_before_rounding frm to'"
  have nn: "0 \<le> ?n" "0 \<le> ?n'" using years_nonneg [of frm to] years_nonneg [of frm to'] assms by auto
  have eq: "completed_years_of_service frm to = (if six_months_after frm ?n < to then ?n + 1 else ?n)"
    "completed_years_of_service frm to' = (if six_months_after frm ?n' < to' then ?n' + 1 else ?n')"
    using nn by (simp_all add: completed_years_of_service_def Let_def)
  have "\<exists>n \<ge> 0. anniversary frm n \<le> to \<and> to < anniversary frm (n + 1)
      \<and> completed_years_of_service frm to = (if six_months_after frm n < to then n + 1 else n)"
    using nn(1) years_before_rounding_bracket [of frm to] eq(1) assms by (intro exI [of _ ?n]) auto
  moreover have "completed_years_of_service frm to \<le> completed_years_of_service frm to'"
    using years_before_rounding_mono [of frm to to'] assms by (cases "?n = ?n'") (auto simp: eq)
  ultimately show ?thesis by blast
qed

theorem completed_years_spec_witness:
  "completed_years_of_service (date_utc 2020 3 1) (date_utc 2025 9 1)
   \<le> completed_years_of_service (date_utc 2020 3 1) (date_utc 2025 9 2)"
  by (rule completed_years_spec [THEN conjunct2]; code_simp)

context decimal_arith
begin

lemma gratuity_facts:
  assumes "0 \<le> last_drawn_basic i" and "0 \<le> days_per_year i" and "0 < month_divisor i"
    and "0 < max_amount i" and "0 \<le> completed_years i" and "completed_years i \<le> k"
  shows "0 \<le> calculate_gratuity L i \<and> calculate_gratuity L i \<le> max_amount i
    \<and> calculate_gratuity L i \<le> calculate_gratuity L (i\<lparr>completed_years := k\<rparr>)"
proof -
  let ?rate = "ddiv L (dtimes L (last_drawn_basic i) (days_per_year i)) (month_divisor i)"
  let ?amount = "\<lambda>n. places L 2 (dtimes L ?rate (of_int n))"
  have rate: "0 \<le> ?rate" using assms by (intro ddiv_nonneg dtimes_nonneg)
  have nonneg: "0 \<le> ?amount n" if "0 \<le> n" for n
    using rate that by (intro dp_nonneg dtimes_nonneg) auto
  have mono: "?amount (completed_years i) \<le> ?amount k"
    using rate assms(6) by (intro dp_mono dtimes_mono2) auto
  show ?thesis
    using nonneg [of "completed_years i"] nonneg [of k] mono assms
    by (auto simp: calculate_gratuity_def Let_def min_le_iff_disj)
qed

end

text \<open>
  Gratuity stays between zero and the statutory maximum, is zero below the eligibility
  threshold, and never falls when more years are completed.
\<close>

theorem gratuity_bounds:
  assumes "decimal_arith L" and "0 \<le> last_drawn_basic i" and "0 \<le> days_per_year i"
    and "0 < month_divisor i" and "0 < max_amount i" and "0 \<le> completed_years i"
    and "completed_years i \<le> k"
  shows "0 \<le> calculate_gratuity L i \<and> calculate_gratuity L i \<le> max_amount i
    \<and> calculate_gratuity L i \<le> calculate_gratuity L (i\<lparr>completed_years := k\<rparr>)
    \<and> (completed_years i < eligibility_years i \<longrightarrow> calculate_gratuity L i = 0)"
  using decimal_arith.gratuity_facts [OF assms] by (simp_all add: calculate_gratuity_def)

theorem gratuity_bounds_witness:
  "calculate_gratuity decimal_js
     \<lparr>last_drawn_basic = 5000000, completed_years = 20, eligibility_years = 5, days_per_year = 15,
      month_divisor = 26, max_amount = 2000000\<rparr> \<le> 2000000"
  using gratuity_bounds [OF decjs.decimal_arith_axioms, of
      "\<lparr>last_drawn_basic = 5000000, completed_years = 20, eligibility_years = 5, days_per_year = 15,
        month_divisor = 26, max_amount = 2000000\<rparr>" 20] by simp

end
