(* ===== verification/BankFiles.thy ===== *)
theory BankFiles
  imports Formula FinancialYear
begin

text \<open>
  The bank advice file: IFSC and payment-mode rules (\<open>apps/api/src/payroll/bank-codes.ts\<close>), the
  generic CSV generator and the list of formats (\<open>bank-file-generator.ts\<close>), and the check of one
  payment row (\<open>bank-row-validation.ts\<close>). Strings are ASCII; on those \<open>normalize('NFD')\<close> is the
  identity, and case conversion and trimming are as below.
\<close>

section \<open>Characters and JavaScript string functions\<close>

abbreviation (input) ord :: "char \<Rightarrow> nat" where "ord c \<equiv> of_char c"

definition lower_char :: "char \<Rightarrow> bool" where
  "lower_char c \<longleftrightarrow> 97 \<le> ord c \<and> ord c \<le> 122"

definition is_space :: "char \<Rightarrow> bool" where
  "is_space c \<longleftrightarrow> (9 \<le> ord c \<and> ord c \<le> 13) \<or> ord c = 32"

definition trim :: "string \<Rightarrow> string" where
  "trim s = rev (dropWhile is_space (rev (dropWhile is_space s)))"

definition to_upper :: "string \<Rightarrow> string" where
  "to_upper s = map (\<lambda>c. if lower_char c then char_of (ord c - 32) else c) s"

section \<open>IFSC codes and payment modes\<close>

text \<open>\<open>/^[A-Z]{4}0[A-Z0-9]{6}$/\<close> and \<open>/^\d{9,18}$/\<close>\<close>

definition IFSC_PATTERN :: "string \<Rightarrow> bool" where
  "IFSC_PATTERN s \<longleftrightarrow> length s = 11 \<and> list_all is_upper (take 4 s) \<and> s ! 4 = CHR ''0''
     \<and> list_all (\<lambda>c. is_upper c \<or> is_digit c) (drop 5 s)"

definition ACCOUNT_NUMBER_PATTERN :: "string \<Rightarrow> bool" where
  "ACCOUNT_NUMBER_PATTERN s \<longleftrightarrow> 9 \<le> length s \<and> length s \<le> 18 \<and> list_all is_digit s"

datatype payment_mode = OWN_BANK | NEFT | IMPS | RTGS

definition PREFERRED_MODES :: "payment_mode list" where
  "PREFERRED_MODES = [NEFT, IMPS, RTGS]"

definition RTGS_MIN :: number where "RTGS_MIN = 200000"

definition IMPS_MAX :: number where "IMPS_MAX = 500000"

text \<open>Code, label and IFSC prefix.\<close>

definition COMPANY_BANKS :: "(string \<times> string \<times> string option) list" where
  "COMPANY_BANKS =
     [(''ICICI'', ''ICICI Bank'', Some ''ICIC''), (''AXIS'', ''Axis Bank'', Some ''UTIB''),
      (''SBI'', ''State Bank of India'', Some ''SBIN''), (''HDFC'', ''HDFC Bank'', Some ''HDFC''),
      (''HSBC'', ''HSBC'', Some ''HSBC''), (''OTHER'', ''Another bank'', None)]"

definition IFSC_PREFIX_NAMES :: "(string \<times> string) list" where
  "IFSC_PREFIX_NAMES =
     [(''ICIC'', ''ICICI Bank''), (''UTIB'', ''Axis Bank''), (''SBIN'', ''State Bank of India''),
      (''HDFC'', ''HDFC Bank''), (''HSBC'', ''HSBC''), (''KKBK'', ''Kotak Mahindra Bank''),
      (''YESB'', ''Yes Bank''), (''BARB'', ''Bank of Baroda''), (''PUNB'', ''Punjab National Bank''),
      (''CNRB'', ''Canara Bank''), (''UBIN'', ''Union Bank of India''), (''IDIB'', ''Indian Bank''),
      (''INDB'', ''IndusInd Bank''), (''FDRL'', ''Federal Bank''), (''IBKL'', ''IDBI Bank''),
      (''BKID'', ''Bank of India''), (''MAHB'', ''Bank of Maharashtra''),
      (''CBIN'', ''Central Bank of India''), (''RATN'', ''RBL Bank'')]"

definition ifsc_prefix :: "string \<Rightarrow> string" where
  "ifsc_prefix ifsc = take 4 (to_upper (trim ifsc))"

definition bank_name_from_ifsc :: "string \<Rightarrow> string option" where
  "bank_name_from_ifsc ifsc = map_of IFSC_PREFIX_NAMES (ifsc_prefix ifsc)"

definition expected_prefix :: "string \<Rightarrow> string option" where
  "expected_prefix code =
     (case List.find (\<lambda>(c, _). c = code) COMPANY_BANKS of None \<Rightarrow> None | Some (_, _, p) \<Rightarrow> p)"

definition resolve_payment_mode ::
  "string option \<Rightarrow> string \<Rightarrow> number \<Rightarrow> payment_mode \<Rightarrow> payment_mode" where
  "resolve_payment_mode company_ifsc employee_ifsc amount preferred =
     (if (case company_ifsc of None \<Rightarrow> False
          | Some ci \<Rightarrow> ci \<noteq> [] \<and> ifsc_prefix ci = ifsc_prefix employee_ifsc) then OWN_BANK
      else if preferred = RTGS \<and> amount < RTGS_MIN then NEFT
      else if preferred = IMPS \<and> amount > IMPS_MAX then NEFT
      else preferred)"

section \<open>The CSV file\<close>

record bank_file_row =
  bf_employee_id :: string
  bf_employee_name :: string
  bf_employee_code :: string
  bf_account_number :: string
  bf_ifsc :: string
  bf_bank_name :: "string option"
  bf_amount :: number
  bf_payment_mode :: "string option"

abbreviation "QUOTE \<equiv> CHR 0x22"
abbreviation "NEWLINE \<equiv> CHR 0x0A"
abbreviation "COMMA \<equiv> CHR 0x2C"

definition csv_special :: "char \<Rightarrow> bool" where
  "csv_special c \<longleftrightarrow> c = QUOTE \<or> c = COMMA \<or> c = NEWLINE"

definition double_quotes :: "string \<Rightarrow> string" where
  "double_quotes s = concat (map (\<lambda>c. if c = QUOTE then [QUOTE, QUOTE] else [c]) s)"

definition csv_escape :: "string \<Rightarrow> string" where
  "csv_escape s = (if list_ex csv_special s then QUOTE # double_quotes s @ [QUOTE] else s)"

text \<open>\<open>toFixed(2)\<close>: the nearest hundredth, the larger on a tie.\<close>

definition to_fixed_2 :: "number \<Rightarrow> string" where
  "to_fixed_2 x =
     (let n = half_up_int (\<bar>x\<bar> * 100)
      in (if x < 0 then ''-'' else []) @ num_text (n div 100) @ ''.'' @ pad2 (n mod 100))"

fun join :: "char \<Rightarrow> string list \<Rightarrow> string" where
  "join sep [] = []"
| "join sep [s] = s"
| "join sep (s # t # ss) = s @ sep # join sep (t # ss)"

definition csv_header :: "string list" where
  "csv_header = [''EmployeeCode'', ''EmployeeName'', ''AccountNumber'', ''IFSC'', ''BankName'', ''Amount'',
     ''PaymentMode'']"

definition or_empty :: "string option \<Rightarrow> string" where
  "or_empty s = (case s of None \<Rightarrow> [] | Some t \<Rightarrow> t)"

definition csv_line :: "bank_file_row \<Rightarrow> string" where
  "csv_line r = join COMMA
     [csv_escape (bf_employee_code r), csv_escape (bf_employee_name r), csv_escape (bf_account_number r),
      csv_escape (bf_ifsc r), csv_escape (or_empty (bf_bank_name r)), to_fixed_2 (bf_amount r),
      or_empty (bf_payment_mode r)]"

definition generate_csv :: "bank_file_row list \<Rightarrow> string" where
  "generate_csv rows = join NEWLINE (join COMMA csv_header # map csv_line rows) @ [NEWLINE]"

definition csv_filename :: "string \<Rightarrow> string" where
  "csv_filename period = ''bank-file-'' @ period @ ''.csv''"

text \<open>Identifier, label, bank, version, and whether a generator exists.\<close>

record bank_format =
  fmt_id :: string
  fmt_label :: string
  fmt_bank_code :: "string option"
  fmt_version :: string
  fmt_generator :: "(bank_file_row list \<Rightarrow> string) option"

definition BANK_FORMATS :: "bank_format list" where
  "BANK_FORMATS =
     \<lparr>fmt_id = ''CSV'', fmt_label = ''Generic CSV'', fmt_bank_code = None, fmt_version = ''2'',
      fmt_generator = Some generate_csv\<rparr>
     # map (\<lambda>(i, l). \<lparr>fmt_id = i, fmt_label = l, fmt_bank_code = Some i, fmt_version = ''-'', fmt_generator = None\<rparr>)
         [(''ICICI'', ''ICICI Bank''), (''AXIS'', ''Axis Bank''), (''SBI'', ''State Bank of India''),
          (''HDFC'', ''HDFC Bank''), (''HSBC'', ''HSBC'')]"

definition find_bank_format :: "string \<Rightarrow> bank_format option" where
  "find_bank_format i = List.find (\<lambda>f. fmt_id f = i) BANK_FORMATS"

section \<open>Checking a row\<close>

datatype row_problem = NoAccount | BadAccount | NoIfsc | BadIfsc | BadName | NotPositive

definition name_char :: "char \<Rightarrow> bool" where
  "name_char c \<longleftrightarrow> is_upper c \<or> lower_char c \<or> c \<in> set '' .-'' \<or> c = CHR 0x27"

text \<open>\<open>replace(/\s+/g, ' ')\<close>\<close>

fun squeeze :: "string \<Rightarrow> string" where
  "squeeze [] = []"
| "squeeze [c] = [if is_space c then CHR '' '' else c]"
| "squeeze (c # d # cs) =
     (if is_space c \<and> is_space d then squeeze (d # cs)
      else (if is_space c then CHR '' '' else c) # squeeze (d # cs))"

definition clean_beneficiary_name :: "string \<Rightarrow> string" where
  "clean_beneficiary_name name =
     take 100 (trim (squeeze (map (\<lambda>c. if name_char c then c else CHR '' '') name)))"

definition trimmed :: "string option \<Rightarrow> string" where
  "trimmed s = (case s of None \<Rightarrow> [] | Some t \<Rightarrow> trim t)"

definition validate_bank_row ::
  "string option \<Rightarrow> string option \<Rightarrow> string \<Rightarrow> number \<Rightarrow> row_problem list" where
  "validate_bank_row account_number ifsc name amount =
     (let account = trimmed account_number; code = to_upper (trimmed ifsc)
      in (if account = [] then [NoAccount] else if \<not> ACCOUNT_NUMBER_PATTERN account then [BadAccount] else [])
       @ (if code = [] then [NoIfsc] else if \<not> IFSC_PATTERN code then [BadIfsc] else [])
       @ (if clean_beneficiary_name name = [] then [BadName] else [])
       @ (if \<not> amount > 0 then [NotPositive] else []))"

section \<open>Reading a CSV file\<close>

text \<open>
  The reader of the other side (RFC 4180 with line feeds): quoted fields with doubled quotes,
  plain fields up to the next comma or line feed.
\<close>

datatype csv_mode = Start | Plain | Quoted | QuoteEnd

fun csv_run :: "csv_mode \<Rightarrow> string \<Rightarrow> string list \<Rightarrow> string list list \<Rightarrow> string \<Rightarrow> string list list" where
  "csv_run m f r acc [] = acc"
| "csv_run m f r acc (c # cs) =
     (if m = Quoted then
        (if c = QUOTE then csv_run QuoteEnd f r acc cs else csv_run Quoted (f @ [c]) r acc cs)
      else if c = QUOTE \<and> m = Start then csv_run Quoted f r acc cs
      else if c = QUOTE \<and> m = QuoteEnd then csv_run Quoted (f @ [QUOTE]) r acc cs
      else if c = COMMA then csv_run Start [] (r @ [f]) acc cs
      else if c = NEWLINE then csv_run Start [] [] (acc @ [r @ [f]]) cs
      else csv_run Plain (f @ [c]) r acc cs)"

definition read_csv :: "string \<Rightarrow> string list list" where
  "read_csv text = csv_run Start [] [] [] text"

definition plain :: "string \<Rightarrow> bool" where
  "plain s \<longleftrightarrow> \<not> list_ex csv_special s"

lemma csv_run_quoted:
  "csv_run Quoted f r acc (double_quotes s @ QUOTE # rest) = csv_run QuoteEnd (f @ s) r acc rest"
  by (induction s arbitrary: f) (auto simp: double_quotes_def)

lemma csv_run_plain:
  "plain s \<Longrightarrow> csv_run Plain f r acc (s @ rest) = csv_run Plain (f @ s) r acc rest"
  by (induction s arbitrary: f) (auto simp: plain_def csv_special_def)

lemma csv_run_plain_field:
  assumes "plain s" and "sep = COMMA \<or> sep = NEWLINE"
  shows "csv_run Start [] r acc (s @ sep # rest) =
    (if sep = COMMA then csv_run Start [] (r @ [s]) acc rest
     else csv_run Start [] [] (acc @ [r @ [s]]) rest)"
proof (cases s)
  case (Cons c cs)
  with assms(1) have c: "c \<noteq> QUOTE" "c \<noteq> COMMA" "c \<noteq> NEWLINE" and cs: "plain cs"
    by (auto simp: plain_def csv_special_def)
  have "csv_run Start [] r acc (s @ sep # rest) = csv_run Plain ([c] @ cs) r acc (sep # rest)"
    using c csv_run_plain [OF cs, of "[c]" r acc "sep # rest"] by (simp add: Cons)
  with assms(2) Cons show ?thesis by auto
qed (use assms(2) in auto)

lemma csv_run_field:
  assumes "sep = COMMA \<or> sep = NEWLINE"
  shows "csv_run Start [] r acc (csv_escape s @ sep # rest) =
    (if sep = COMMA then csv_run Start [] (r @ [s]) acc rest
     else csv_run Start [] [] (acc @ [r @ [s]]) rest)"
proof (cases "plain s")
  case True
  with csv_run_plain_field [OF this assms] show ?thesis by (simp add: csv_escape_def plain_def)
next
  case False
  then have "csv_run Start [] r acc (csv_escape s @ sep # rest) = csv_run QuoteEnd s r acc (sep # rest)"
    using csv_run_quoted [of "[]" r acc s "sep # rest"] by (simp add: csv_escape_def plain_def)
  with assms show ?thesis by auto
qed

lemma plain_digit: "0 \<le> n \<Longrightarrow> n < 10 \<Longrightarrow> \<not> csv_special (digit n)"
proof
  assume n: "0 \<le> n" "n < 10" and "csv_special (digit n)"
  then have "(of_char (digit n) :: int) \<in> {34, 44, 10}" by (auto simp: csv_special_def)
  with of_char_digit [OF n] n show False by auto
qed

lemma plain_num_text: "0 \<le> n \<Longrightarrow> plain (num_text n)"
proof (induction n rule: num_text.induct)
  case (1 n)
  show ?case
  proof (cases "n < 10")
    case True
    with "1.prems" plain_digit [of n] show ?thesis by (subst num_text.simps) (simp add: plain_def)
  next
    case False
    with 1 have "plain (num_text (n div 10))" by auto
    moreover have "\<not> csv_special (digit (n mod 10))" by (rule plain_digit) simp_all
    ultimately show ?thesis using False by (subst num_text.simps) (simp add: plain_def)
  qed
qed

lemma plain_append: "plain (s @ t) \<longleftrightarrow> plain s \<and> plain t"
  by (auto simp: plain_def)

lemma plain_pad2: "0 \<le> n \<Longrightarrow> plain (pad2 n)"
  using plain_num_text [of n]
  by (auto simp: pad2_def Let_def plain_append) (auto simp: plain_def csv_special_def list_ex_iff)

lemma plain_to_fixed_2: "plain (to_fixed_2 x)"
proof -
  have n: "0 \<le> half_up_int (\<bar>x\<bar> * 100)" by (rule half_up.rnd_ge) simp
  have pl: "plain ''-''" "plain ''.''" "plain []" by (simp_all add: plain_def csv_special_def)
  from n have "0 \<le> half_up_int (\<bar>x\<bar> * 100) div 100" by (simp add: pos_imp_zdiv_nonneg_iff)
  then show ?thesis
    unfolding to_fixed_2_def Let_def plain_append
    by (intro conjI plain_num_text plain_pad2) (simp_all add: pl)
qed

text \<open>The seven fields of a row, as text.\<close>

definition row_fields :: "bank_file_row \<Rightarrow> string list" where
  "row_fields r = [bf_employee_code r, bf_employee_name r, bf_account_number r, bf_ifsc r,
     or_empty (bf_bank_name r), to_fixed_2 (bf_amount r), or_empty (bf_payment_mode r)]"

lemma csv_run_line:
  assumes "plain (or_empty (bf_payment_mode row))"
  shows "csv_run Start [] [] acc (csv_line row @ NEWLINE # rest) = csv_run Start [] [] (acc @ [row_fields row]) rest"
  using assms csv_run_plain_field [OF plain_to_fixed_2, of COMMA]
    csv_run_plain_field [of "or_empty (bf_payment_mode row)" NEWLINE]
  by (simp add: csv_line_def row_fields_def csv_run_field)

lemma csv_run_lines:
  assumes "\<And>r. r \<in> set rows \<Longrightarrow> plain (or_empty (bf_payment_mode r))" and "rows \<noteq> []"
  shows "csv_run Start [] [] acc (join NEWLINE (map csv_line rows) @ [NEWLINE]) = acc @ map row_fields rows"
  using assms
proof (induction rows arbitrary: acc rule: induct_list012)
  case (2 r)
  then show ?case using csv_run_line [of r acc "[]"] by simp
next
  case (3 r q rows)
  from 3(2) [of "acc @ [row_fields r]"] csv_run_line [of r acc] 3(3) show ?case by simp
qed simp

section \<open>Properties\<close>

text \<open>
  The bank file says what its rows say: reading the generated CSV back gives the header and,
  for every row in order, exactly its seven values, whatever commas, quotes and line feeds the
  names and numbers contain (the payment mode, which is not escaped, must be free of them).
\<close>

theorem bank_file_roundtrip:
  assumes "\<And>r. r \<in> set rows \<Longrightarrow> plain (or_empty (bf_payment_mode r))"
  shows "read_csv (generate_csv rows) = csv_header # map row_fields rows"
proof -
  have header: "csv_run Start [] [] acc (join COMMA csv_header @ NEWLINE # rest)
      = csv_run Start [] [] (acc @ [csv_header]) rest" for acc rest
    by (simp add: csv_header_def)
  show ?thesis
  proof (cases rows)
    case Nil
    then show ?thesis using header [of "[]" "[]"] by (simp add: read_csv_def generate_csv_def)
  next
    case (Cons r rs)
    then have "generate_csv rows =
        join COMMA csv_header @ NEWLINE # (join NEWLINE (map csv_line rows) @ [NEWLINE])"
      by (simp add: generate_csv_def)
    with header [of "[]"] csv_run_lines [OF assms, of rows "[csv_header]"] Cons show ?thesis
      by (simp add: read_csv_def)
  qed
qed

definition sample_row :: bank_file_row where
  "sample_row = \<lparr>bf_employee_id = ''1'', bf_employee_name = ''Rao, A'', bf_employee_code = ''E1'',
     bf_account_number = ''123456789'', bf_ifsc = ''HDFC0001234'', bf_bank_name = None, bf_amount = 1,
     bf_payment_mode = Some ''NEFT''\<rparr>"

theorem bank_file_roundtrip_witness:
  "read_csv (generate_csv [sample_row]) = [csv_header, row_fields sample_row]"
  using bank_file_roundtrip [of "[sample_row]"]
  by (simp add: sample_row_def or_empty_def plain_def csv_special_def)

text \<open>
  The payment mode respects the bank rules: an own-bank transfer exactly when the company's
  bank is the employee's, RTGS only from its minimum on, IMPS only up to its maximum, and a
  preferred NEFT stays NEFT.
\<close>

theorem payment_mode_limits:
  "(resolve_payment_mode ci ei amount NEFT = OWN_BANK) =
      (\<exists>c. ci = Some c \<and> c \<noteq> [] \<and> ifsc_prefix c = ifsc_prefix ei)
   \<and> (resolve_payment_mode ci ei amount RTGS \<noteq> RTGS \<or> RTGS_MIN \<le> amount)
   \<and> (resolve_payment_mode ci ei amount IMPS \<noteq> IMPS \<or> amount \<le> IMPS_MAX)
   \<and> (resolve_payment_mode ci ei amount NEFT \<in> {OWN_BANK, NEFT})
   \<and> (resolve_payment_mode ci ei amount RTGS \<in> {OWN_BANK, NEFT, RTGS})
   \<and> (resolve_payment_mode ci ei amount IMPS \<in> {OWN_BANK, NEFT, IMPS})"
  by (auto simp: resolve_payment_mode_def split: option.splits)

text \<open>
  A row without problems has an account number and an IFSC code of the right form, an
  acceptable name and a positive amount; and every row that has them is free of problems.
\<close>

theorem valid_bank_row:
  "(validate_bank_row account ifsc name amount = []) =
     (ACCOUNT_NUMBER_PATTERN (trimmed account) \<and> IFSC_PATTERN (to_upper (trimmed ifsc))
      \<and> clean_beneficiary_name name \<noteq> [] \<and> 0 < amount)"
  by (auto simp: validate_bank_row_def Let_def ACCOUNT_NUMBER_PATTERN_def IFSC_PATTERN_def)

text \<open>
  A name of punctuation only is not reported, although the message of the check speaks of a name
  without letters.
\<close>

lemma punctuation_name_accepted:
  "validate_bank_row (Some ''123456789'') (Some ''HDFC0001234'') ''...'' 100 = []"
  by code_simp

end
