(* ===== verification/PayrollState.thy ===== *)
theory PayrollState
  imports Numbers SalaryValidation WorkingDays FullFinalCalculator BankFiles "HOL-Library.List_Lexorder"
begin

text \<open>
  The tables of one tenant that payroll reads and writes (\<open>apps/api/prisma/schema.prisma\<close>, as the
  services of \<open>apps/api/src/payroll\<close> use them), the authenticated user, the role checks and the
  payroll gate, the audit log and the notifications a handler sends. Row-level security restricts
  every query to the caller's tenant, so one tenant's tables are the whole state.

  What payroll asks other modules about (days of loss of pay, approved overtime hours, pending
  regularizations, holidays, encashable leave) is the record \<open>period_facts\<close>, an argument of the
  handlers that read it.
\<close>

section \<open>Users and employees\<close>

type_synonym id = string

datatype role = COMPANY_ADMIN | HR_MANAGER | LINE_MANAGER | EMPLOYEE | AUDITOR

record auth_user =
  sub :: id
  user_role :: role
  user_employee :: "id option"

record user_row =
  u_id :: id
  u_role :: role
  u_active :: bool

datatype lifecycle_state = PRE_JOINING | PROBATION | CONFIRMED | NOTICE_PERIOD | SUSPENDED | SEPARATED

record employee_row =
  emp_id :: id
  work_state :: "indian_state option"
  weekly_off_days_override :: "int list"
  date_of_joining :: "date option"
  date_of_birth :: "date option"
  last_working_date :: "date option"
  lifecycle :: lifecycle_state

section \<open>Salary structures, revisions and arrears\<close>

datatype structure_status = ACTIVE | SUPERSEDED

record structure_row =
  st_id :: id
  st_employee :: id
  st_ctc_annual :: decimal
  st_effective_from :: date
  st_status :: structure_status
  st_components :: "normalized_component list"

record revision_row =
  rev_id :: id
  rev_employee :: id
  rev_previous_structure :: id
  rev_new_structure :: id
  rev_effective_date :: date
  rev_reason :: string
  rev_approved_by :: id

datatype arrears_status = PENDING | FOLDED

record arrears_row =
  ar_id :: id
  ar_employee :: id
  ar_revision :: id
  ar_period :: string
  ar_original_run :: id
  ar_previous_net :: decimal
  ar_revised_net :: decimal
  ar_amount :: decimal
  ar_status :: arrears_status
  ar_folded_into :: "id option"

section \<open>Payroll configuration\<close>

record payroll_settings =
  ps_min_basic_percent :: decimal
  ps_epf :: epf_config
  ps_esi :: esi_config
  ps_overtime_enabled :: bool
  ps_overtime_multiplier :: decimal
  ps_leave_encashment_divisor :: decimal
  ps_leave_encashment_components :: "string list"
  ps_gratuity_eligibility_years :: int
  ps_gratuity_days_per_year :: decimal
  ps_gratuity_month_divisor :: decimal
  ps_gratuity_max_amount :: decimal

text \<open>The column defaults of the settings table.\<close>

definition default_settings :: payroll_settings where
  "default_settings =
     \<lparr>ps_min_basic_percent = 50,
      ps_epf = \<lparr>ceiling = 25000, allow_above_ceiling = False, epf_employee_rate = 12,
        eps_rate = 833 / 100, epf_employer_rate = 367 / 100, admin_rate = 1 / 2, edli_rate = 1 / 2\<rparr>,
      ps_esi = \<lparr>wage_ceiling = 21000, esi_employee_rate = 3 / 4, esi_employer_rate = 13 / 4\<rparr>,
      ps_overtime_enabled = False, ps_overtime_multiplier = 2,
      ps_leave_encashment_divisor = 26, ps_leave_encashment_components = [''BASIC''],
      ps_gratuity_eligibility_years = 5, ps_gratuity_days_per_year = 15,
      ps_gratuity_month_divisor = 26, ps_gratuity_max_amount = 2000000\<rparr>"

record pt_slab_row = pt_slab +
  slab_state :: indian_state

record tax_slab_row = tax_slab +
  ts_year :: string
  ts_regime :: tax_regime

record regime_config_row = tax_regime_config +
  rc_year :: string
  rc_regime :: tax_regime

record regime_choice_row =
  ch_employee :: id
  ch_year :: string
  ch_regime :: tax_regime
  ch_set_by :: "id option"

section \<open>Runs, approvals and line items\<close>

datatype run_status = DRAFT | REVIEW | APPROVED | PROCESSED | DISBURSED

datatype exception_type =
    NO_WORK_STATE
  | NO_SALARY_STRUCTURE
  | CALCULATION_ERROR
  | PENDING_REGULARIZATIONS
  | NO_DOB_FOR_PAYSLIP

record run_exception =
  ex_employee :: "id option"
  ex_type :: exception_type

record run_row =
  run_id :: id
  run_period :: string
  run_status :: run_status
  run_is_reprocess :: bool
  run_reprocess_reason :: "string option"
  run_prepared_by :: id
  run_exceptions :: "run_exception list"
  run_processed_at :: "date option"
  run_disbursed_at :: "date option"

record approval_row =
  ap_run :: id
  ap_approver :: id

record adjustment =
  adj_type :: string
  adj_amount :: number
  adj_note :: "string option"

record line_compute =
  li_employee :: id
  li_snapshot :: calculation_result
  li_working_days :: int
  li_payable_days :: int
  li_lop_days :: int
  li_gross :: decimal
  li_epf_employee :: decimal
  li_epf_employer :: decimal
  li_esi_employee :: decimal
  li_esi_employer :: decimal
  li_professional_tax :: decimal
  li_tds :: decimal
  li_net_pay :: decimal
  li_adjustments :: "adjustment list"

record line_item = line_compute +
  li_run :: id
  li_payslip_key :: "string option"

section \<open>Full and final settlements\<close>

datatype settlement_status = FNF_DRAFT | FNF_APPROVED | FNF_PAID

record settlement_snapshot =
  fs_working_days :: int
  fs_payable_days :: int
  fs_gross :: number
  fs_epf_employee :: number
  fs_esi_employee :: number
  fs_professional_tax :: number
  fs_last_basic :: number

record settlement_row =
  ff_employee :: id
  ff_separation_date :: date
  ff_unpaid_days :: int
  ff_unpaid_amount :: decimal
  ff_encashment_days :: decimal
  ff_encashment_amount :: decimal
  ff_gratuity_years :: int
  ff_gratuity_amount :: decimal
  ff_advance_recovery :: decimal
  ff_net :: decimal
  ff_snapshot :: settlement_snapshot
  ff_status :: settlement_status
  ff_prepared_by :: id
  ff_approved_by :: "id option"
  ff_approved_at :: "date option"
  ff_paid_at :: "date option"

section \<open>The state\<close>

record audit_row =
  au_actor :: id
  au_action :: string
  au_target_type :: string
  au_target :: "id option"

record notification =
  no_template :: string
  no_dedupe_key :: string

record payroll_db =
  users :: "user_row table"
  employees :: "employee_row table"
  structures :: "structure_row table"
  revisions :: "revision_row table"
  arrears :: "arrears_row table"
  settings :: "payroll_settings option"
  tenant_weekly_offs :: "int list"
  pt_slab_rows :: "pt_slab_row table"
  tax_slab_rows :: "tax_slab_row table"
  regime_configs :: "regime_config_row table"
  regime_choices :: "regime_choice_row table"
  runs :: "run_row table"
  approvals :: "approval_row table"
  line_items :: "line_item table"
  settlements :: "settlement_row table"
  audit_log :: "audit_row list"
  outbox :: "notification list"

record period_facts =
  pf_lop_days :: "id \<Rightarrow> int"
  pf_overtime_hours :: "id \<Rightarrow> number"
  pf_shift_hours :: "id \<Rightarrow> number"
  pf_pending_regularizations :: nat
  pf_holidays :: "int set"
  pf_encashable_days :: "id \<Rightarrow> decimal"
  pf_declared_exemptions :: "id \<Rightarrow> decimal"

text \<open>The messages of the payroll services.\<close>

datatype payroll_msg =
    NotAuthorized
  | PayrollLocked
  | ReasonRequired
  | RunExists string
  | RunMissing
  | ItemMissing
  | WrongStatus run_status
  | EmployeeMissing
  | RecalculationFailed id run_exception
  | NoRegimeConfig
  | StructureFailed component_error
  | NoProcessedRun
  | NoPayslip
  | UploadFailed
  | ItemImmutable
  | BasicMissing
  | StructureExists
  | NoStructure
  | Invalid validation_error
  | SettlementExists
  | SettlementMissing
  | NotSeparated
  | NoLastWorkingDate
  | NoDateOfJoining
  | NotCalculable calculation_error
  | WrongSettlementStatus settlement_status
  | Config config_error

type_synonym 'a answer = "(payroll_msg exn, 'a) result"

section \<open>Checks the services share\<close>

definition MANAGE_ROLES :: "role list" where
  "MANAGE_ROLES = [COMPANY_ADMIN, HR_MANAGER]"

definition can_manage :: "auth_user \<Rightarrow> bool" where
  [guard_simps]: "can_manage u \<longleftrightarrow> user_role u \<in> set MANAGE_ROLES"

definition assert_can_manage :: "auth_user \<Rightarrow> unit answer" where
  [guard_simps]: "assert_can_manage u = (if can_manage u then Inr () else Inl (Forbidden NotAuthorized))"

definition active_admins :: "payroll_db \<Rightarrow> nat" where
  "active_admins s = length (filter (\<lambda>u. u_role u = COMPANY_ADMIN \<and> u_active u) (users s))"

definition assert_payroll_gate :: "payroll_db \<Rightarrow> unit answer" where
  [guard_simps]: "assert_payroll_gate s =
     (if active_admins s < 2 then Inl (Conflict PayrollLocked) else Inr ())"

definition assert_employee_exists :: "payroll_db \<Rightarrow> id \<Rightarrow> unit answer" where
  [guard_simps]: "assert_employee_exists s e =
     (if find_row (\<lambda>r. emp_id r = e) (employees s) = None then Inl (NotFound EmployeeMissing) else Inr ())"

definition find_active :: "payroll_db \<Rightarrow> id \<Rightarrow> structure_row option" where
  "find_active s e = find_row (\<lambda>r. st_employee r = e \<and> st_status r = ACTIVE) (structures s)"

text \<open>
  The audit row of a change. A failing insert is swallowed (\<open>.catch(() => undefined)\<close>): \<open>up\<close> says
  whether the insert goes through, and nothing else depends on it.
\<close>

definition write_payroll_audit ::
  "bool \<Rightarrow> auth_user \<Rightarrow> string \<Rightarrow> string \<Rightarrow> id option \<Rightarrow> payroll_db \<Rightarrow> payroll_db" where
  "write_payroll_audit up user action target_type target s =
     (if up
      then s\<lparr>audit_log := audit_log s @
        [\<lparr>au_actor = sub user, au_action = action, au_target_type = target_type, au_target = target\<rparr>]\<rparr>
      else s)"

definition notify :: "string \<Rightarrow> string \<Rightarrow> payroll_db \<Rightarrow> payroll_db" where
  "notify template key s = s\<lparr>outbox := outbox s @ [\<lparr>no_template = template, no_dedupe_key = key\<rparr>]\<rparr>"

text \<open>Money columns are \<open>numeric(14, 2)\<close>: a write rounds to paise, halves away from zero.\<close>

definition money_col :: "decimal \<Rightarrow> decimal" where
  "money_col x = half_up_places 2 x"

section \<open>Facts about the shared checks\<close>

lemma money_col_exact: "paise x \<Longrightarrow> money_col x = x"
proof -
  assume "paise x"
  then obtain k where k: "x = of_int k / 10 ^ 2" by (auto simp: paise_def)
  show ?thesis unfolding k using decjs.dp_exact [of 2 k] by (simp add: money_col_def decimal_js_def del: power2_eq_square)
qed

lemma assert_can_manage_Inr [simp]: "assert_can_manage u = Inr x \<longleftrightarrow> can_manage u"
  by (simp add: assert_can_manage_def)

lemma assert_payroll_gate_Inr [simp]: "assert_payroll_gate s = Inr x \<longleftrightarrow> 2 \<le> active_admins s"
  by (auto simp: assert_payroll_gate_def)

lemma find_active_SomeD:
  "find_active s e = Some r \<Longrightarrow> r \<in> set (structures s) \<and> st_employee r = e \<and> st_status r = ACTIVE"
  by (auto simp: find_active_def dest: find_row_SomeD)

text \<open>Everything but the audit log and the outbox.\<close>

definition core :: "payroll_db \<Rightarrow> payroll_db" where
  "core s = s\<lparr>audit_log := [], outbox := []\<rparr>"

lemma core_eqI: "core s = core t \<Longrightarrow>
  users s = users t \<and> employees s = employees t \<and> structures s = structures t
  \<and> revisions s = revisions t \<and> arrears s = arrears t \<and> settings s = settings t
  \<and> tenant_weekly_offs s = tenant_weekly_offs t
  \<and> pt_slab_rows s = pt_slab_rows t \<and> tax_slab_rows s = tax_slab_rows t
  \<and> regime_configs s = regime_configs t \<and> regime_choices s = regime_choices t
  \<and> runs s = runs t \<and> approvals s = approvals t \<and> line_items s = line_items t
  \<and> settlements s = settlements t"
  by (cases s; cases t) (simp add: core_def)

lemma audit_selects [simp]:
  "users (write_payroll_audit up u a t i s) = users s"
  "employees (write_payroll_audit up u a t i s) = employees s"
  "structures (write_payroll_audit up u a t i s) = structures s"
  "revisions (write_payroll_audit up u a t i s) = revisions s"
  "arrears (write_payroll_audit up u a t i s) = arrears s"
  "settings (write_payroll_audit up u a t i s) = settings s"
  "tenant_weekly_offs (write_payroll_audit up u a t i s) = tenant_weekly_offs s"
  "pt_slab_rows (write_payroll_audit up u a t i s) = pt_slab_rows s"
  "tax_slab_rows (write_payroll_audit up u a t i s) = tax_slab_rows s"
  "regime_configs (write_payroll_audit up u a t i s) = regime_configs s"
  "regime_choices (write_payroll_audit up u a t i s) = regime_choices s"
  "runs (write_payroll_audit up u a t i s) = runs s"
  "approvals (write_payroll_audit up u a t i s) = approvals s"
  "line_items (write_payroll_audit up u a t i s) = line_items s"
  "settlements (write_payroll_audit up u a t i s) = settlements s"
  "outbox (write_payroll_audit up u a t i s) = outbox s"
  "core (write_payroll_audit up u a t i s) = core s"
  by (simp_all add: write_payroll_audit_def core_def)

lemma notify_selects [simp]:
  "users (notify t k s) = users s"
  "employees (notify t k s) = employees s"
  "structures (notify t k s) = structures s"
  "revisions (notify t k s) = revisions s"
  "arrears (notify t k s) = arrears s"
  "settings (notify t k s) = settings s"
  "tenant_weekly_offs (notify t k s) = tenant_weekly_offs s"
  "pt_slab_rows (notify t k s) = pt_slab_rows s"
  "tax_slab_rows (notify t k s) = tax_slab_rows s"
  "regime_configs (notify t k s) = regime_configs s"
  "regime_choices (notify t k s) = regime_choices s"
  "runs (notify t k s) = runs s"
  "approvals (notify t k s) = approvals s"
  "line_items (notify t k s) = line_items s"
  "settlements (notify t k s) = settlements s"
  "audit_log (notify t k s) = audit_log s"
  "core (notify t k s) = core s"
  by (simp_all add: notify_def core_def)

end
