(* ===== verification/PayrollConfig.thy ===== *)
theory PayrollConfig
  imports PayrollState
begin

text \<open>
  \<open>PayrollConfigService\<close> (\<open>apps/api/src/payroll/payroll-config.service.ts\<close>) and the seeding of
  \<open>payroll-defaults.ts\<close>: settings, Professional Tax slabs and the TDS configuration of a financial
  year, each seeded with defaults on first read. Every operation takes the state and returns its
  answer with the new state.
\<close>

section \<open>Seeding\<close>

text \<open>\<open>createMany\<close> with \<open>skipDuplicates\<close>: rows whose unique key is taken are left out.\<close>

definition insert_new :: "('r \<Rightarrow> 'k) \<Rightarrow> 'r list \<Rightarrow> 'r table \<Rightarrow> 'r table" where
  "insert_new key new t = foldl (\<lambda>t r. if key r \<in> key ` set t then t else t @ [r]) t new"

definition pt_key :: "pt_slab_row \<Rightarrow> indian_state \<times> rat" where
  "pt_key r = (slab_state r, gross_from r)"

definition tax_key :: "tax_slab_row \<Rightarrow> string \<times> tax_regime \<times> rat" where
  "tax_key r = (ts_year r, ts_regime r, income_from r)"

definition config_key :: "regime_config_row \<Rightarrow> string \<times> tax_regime" where
  "config_key r = (rc_year r, rc_regime r)"

definition pt_row :: "indian_state \<Rightarrow> pt_slab \<Rightarrow> pt_slab_row" where
  "pt_row st s = pt_slab.extend s \<lparr>slab_state = st\<rparr>"

definition tax_row :: "string \<Rightarrow> tax_regime \<Rightarrow> tax_slab \<Rightarrow> tax_slab_row" where
  "tax_row fy r s = tax_slab.extend s \<lparr>ts_year = fy, ts_regime = r\<rparr>"

definition config_row :: "string \<Rightarrow> tax_regime \<Rightarrow> tax_regime_config \<Rightarrow> regime_config_row" where
  "config_row fy r c = tax_regime_config.extend c \<lparr>rc_year = fy, rc_regime = r\<rparr>"

definition seeded_states :: "indian_state list" where
  "seeded_states = [KARNATAKA, MAHARASHTRA, TELANGANA, ANDHRA_PRADESH, WEST_BENGAL, GUJARAT]"

definition seed_payroll_defaults :: "payroll_db \<Rightarrow> payroll_db" where
  "seed_payroll_defaults s =
     s\<lparr>settings := (case settings s of None \<Rightarrow> Some default_settings | Some ps \<Rightarrow> Some ps),
       pt_slab_rows := insert_new pt_key
         (concat (map (\<lambda>st. map (pt_row st) (DEFAULT_PT_SLABS st)) seeded_states)) (pt_slab_rows s)\<rparr>"

definition seed_tds_defaults :: "string \<Rightarrow> payroll_db \<Rightarrow> payroll_db" where
  "seed_tds_defaults fy s =
     s\<lparr>tax_slab_rows := insert_new tax_key
         (concat (map (\<lambda>r. map (tax_row fy r) (DEFAULT_TAX_SLABS r)) [NEW, OLD])) (tax_slab_rows s),
       regime_configs := insert_new config_key
         (map (\<lambda>r. config_row fy r (DEFAULT_TAX_REGIME_CONFIG r)) [NEW, OLD]) (regime_configs s)\<rparr>"

section \<open>Names in the audit log\<close>

definition state_names :: "string list" where
  "state_names =
    [''ANDHRA_PRADESH'', ''ARUNACHAL_PRADESH'', ''ASSAM'', ''BIHAR'', ''CHHATTISGARH'', ''GOA'',
     ''GUJARAT'', ''HARYANA'', ''HIMACHAL_PRADESH'', ''JHARKHAND'', ''KARNATAKA'', ''KERALA'',
     ''MADHYA_PRADESH'', ''MAHARASHTRA'', ''MANIPUR'', ''MEGHALAYA'', ''MIZORAM'', ''NAGALAND'',
     ''ODISHA'', ''PUNJAB'', ''RAJASTHAN'', ''SIKKIM'', ''TAMIL_NADU'', ''TELANGANA'',
     ''TRIPURA'', ''UTTAR_PRADESH'', ''UTTARAKHAND'', ''WEST_BENGAL'',
     ''ANDAMAN_AND_NICOBAR_ISLANDS'', ''CHANDIGARH'',
     ''DADRA_AND_NAGAR_HAVELI_AND_DAMAN_AND_DIU'', ''DELHI'', ''JAMMU_AND_KASHMIR'', ''LADAKH'',
     ''LAKSHADWEEP'', ''PUDUCHERRY'']"

definition state_text :: "indian_state \<Rightarrow> string" where
  "state_text st = state_names ! nat (state_rank st)"

fun regime_text :: "tax_regime \<Rightarrow> string" where
  "regime_text OLD = ''OLD''"
| "regime_text NEW = ''NEW''"

section \<open>Settings\<close>

definition get_settings :: "payroll_db \<Rightarrow> payroll_settings \<times> payroll_db" where
  "get_settings s =
     (case settings s of
        Some ps \<Rightarrow> (ps, s)
      | None \<Rightarrow> (let s' = seed_payroll_defaults s
                 in (case settings s' of Some ps \<Rightarrow> ps | None \<Rightarrow> default_settings, s')))"

text \<open>The body of an update: a field that is left out is not written.\<close>

record settings_patch =
  sp_min_basic_percent :: "decimal option"
  sp_epf_ceiling :: "decimal option"
  sp_allow_epf_above_ceiling :: "bool option"
  sp_epf_employee_rate :: "decimal option"
  sp_eps_rate :: "decimal option"
  sp_epf_employer_rate :: "decimal option"
  sp_epf_admin_rate :: "decimal option"
  sp_edli_rate :: "decimal option"
  sp_esi_wage_ceiling :: "decimal option"
  sp_esi_employee_rate :: "decimal option"
  sp_esi_employer_rate :: "decimal option"
  sp_overtime_enabled :: "bool option"
  sp_overtime_multiplier :: "decimal option"
  sp_leave_encashment_divisor :: "decimal option"
  sp_leave_encashment_components :: "string list option"
  sp_gratuity_eligibility_years :: "int option"
  sp_gratuity_days_per_year :: "decimal option"
  sp_gratuity_month_divisor :: "decimal option"
  sp_gratuity_max_amount :: "decimal option"

definition set_to :: "'a option \<Rightarrow> 'a \<Rightarrow> 'a" where
  "set_to p old = (case p of None \<Rightarrow> old | Some new \<Rightarrow> new)"

definition apply_patch :: "settings_patch \<Rightarrow> payroll_settings \<Rightarrow> payroll_settings" where
  "apply_patch p ps =
     (let e = ps_epf ps; i = ps_esi ps in
      \<lparr>ps_min_basic_percent = set_to (sp_min_basic_percent p) (ps_min_basic_percent ps),
       ps_epf = \<lparr>ceiling = set_to (sp_epf_ceiling p) (ceiling e),
         allow_above_ceiling = set_to (sp_allow_epf_above_ceiling p) (allow_above_ceiling e),
         epf_employee_rate = set_to (sp_epf_employee_rate p) (epf_employee_rate e),
         eps_rate = set_to (sp_eps_rate p) (eps_rate e),
         epf_employer_rate = set_to (sp_epf_employer_rate p) (epf_employer_rate e),
         admin_rate = set_to (sp_epf_admin_rate p) (admin_rate e),
         edli_rate = set_to (sp_edli_rate p) (edli_rate e)\<rparr>,
       ps_esi = \<lparr>wage_ceiling = set_to (sp_esi_wage_ceiling p) (wage_ceiling i),
         esi_employee_rate = set_to (sp_esi_employee_rate p) (esi_employee_rate i),
         esi_employer_rate = set_to (sp_esi_employer_rate p) (esi_employer_rate i)\<rparr>,
       ps_overtime_enabled = set_to (sp_overtime_enabled p) (ps_overtime_enabled ps),
       ps_overtime_multiplier = set_to (sp_overtime_multiplier p) (ps_overtime_multiplier ps),
       ps_leave_encashment_divisor = set_to (sp_leave_encashment_divisor p) (ps_leave_encashment_divisor ps),
       ps_leave_encashment_components =
         set_to (sp_leave_encashment_components p) (ps_leave_encashment_components ps),
       ps_gratuity_eligibility_years =
         set_to (sp_gratuity_eligibility_years p) (ps_gratuity_eligibility_years ps),
       ps_gratuity_days_per_year = set_to (sp_gratuity_days_per_year p) (ps_gratuity_days_per_year ps),
       ps_gratuity_month_divisor = set_to (sp_gratuity_month_divisor p) (ps_gratuity_month_divisor ps),
       ps_gratuity_max_amount = set_to (sp_gratuity_max_amount p) (ps_gratuity_max_amount ps)\<rparr>)"

definition update_settings ::
  "bool \<Rightarrow> settings_patch \<Rightarrow> auth_user \<Rightarrow> payroll_db \<Rightarrow> payroll_settings \<times> payroll_db" where
  "update_settings up patch user s =
     (let (old, s1) = get_settings s;
          new = apply_patch patch old;
          s2 = s1\<lparr>settings := Some new\<rparr>
      in (new, write_payroll_audit up user ''payroll.settings_updated'' ''payroll_settings'' None s2))"

section \<open>Professional Tax slabs\<close>

definition list_pt_slabs :: "indian_state option \<Rightarrow> payroll_db \<Rightarrow> pt_slab_row list \<times> payroll_db" where
  "list_pt_slabs st s =
     (let (_, s1) = get_settings s
      in (sort_key slab_state (sort_key gross_from
            (filter (\<lambda>r. case st of None \<Rightarrow> True | Some x \<Rightarrow> slab_state r = x) (pt_slab_rows s1))), s1))"

definition replace_pt_slabs ::
  "bool \<Rightarrow> indian_state \<Rightarrow> pt_slab list \<Rightarrow> auth_user \<Rightarrow> payroll_db
    \<Rightarrow> (pt_slab_row list \<times> payroll_db) answer" where
  "replace_pt_slabs up st slabs user s =
     (case validate_pt_slabs slabs of
        Inl (BadRequest e) \<Rightarrow> Inl (BadRequest (Config e))
      | Inl _ \<Rightarrow> Inl (Crash (Config NoSlabs))
      | Inr sorted_slabs \<Rightarrow>
          let (_, s1) = get_settings s;
              s2 = s1\<lparr>pt_slab_rows :=
                filter (\<lambda>r. slab_state r \<noteq> st) (pt_slab_rows s1) @ map (pt_row st) sorted_slabs\<rparr>;
              s3 = write_payroll_audit up user ''payroll.pt_slabs_replaced'' ''payroll_pt_slabs''
                     (Some (state_text st)) s2
          in Inr (list_pt_slabs (Some st) s3))"

section \<open>The TDS configuration of a financial year\<close>

record regime_view =
  rv_slabs :: "tax_slab list"
  rv_config :: "tax_regime_config option"

definition by_regime :: "payroll_db \<Rightarrow> string \<Rightarrow> tax_regime \<Rightarrow> regime_view" where
  "by_regime s fy r =
     \<lparr>rv_slabs = map tax_slab.truncate
        (sort_key income_from (filter (\<lambda>t. ts_year t = fy \<and> ts_regime t = r) (tax_slab_rows s))),
      rv_config = map_option tax_regime_config.truncate
        (find_row (\<lambda>c. rc_year c = fy \<and> rc_regime c = r) (regime_configs s))\<rparr>"

definition year_unseeded :: "string \<Rightarrow> payroll_db \<Rightarrow> bool" where
  "year_unseeded fy s \<longleftrightarrow>
     filter (\<lambda>t. ts_year t = fy) (tax_slab_rows s) = [] \<and> filter (\<lambda>c. rc_year c = fy) (regime_configs s) = []"

text \<open>The code calls itself again after seeding; then the year is not empty, so it reads once more.\<close>

definition get_tax_config :: "string \<Rightarrow> payroll_db \<Rightarrow> (tax_regime \<Rightarrow> regime_view) \<times> payroll_db" where
  "get_tax_config fy s =
     (let s' = (if year_unseeded fy s then seed_tds_defaults fy s else s) in (by_regime s' fy, s'))"

definition replace_tax_slabs ::
  "bool \<Rightarrow> string \<Rightarrow> tax_regime \<Rightarrow> tax_slab list \<Rightarrow> auth_user \<Rightarrow> payroll_db
    \<Rightarrow> ((tax_regime \<Rightarrow> regime_view) \<times> payroll_db) answer" where
  "replace_tax_slabs up fy r slabs user s =
     (case validate_tax_slabs slabs of
        Inl (BadRequest e) \<Rightarrow> Inl (BadRequest (Config e))
      | Inl _ \<Rightarrow> Inl (Crash (Config NoSlabs))
      | Inr sorted_slabs \<Rightarrow>
          let (_, s1) = get_tax_config fy s;
              s2 = s1\<lparr>tax_slab_rows :=
                filter (\<lambda>t. \<not> (ts_year t = fy \<and> ts_regime t = r)) (tax_slab_rows s1)
                @ map (tax_row fy r) sorted_slabs\<rparr>;
              s3 = write_payroll_audit up user ''payroll.tax_slabs_replaced'' ''payroll_tax_slabs''
                     (Some (fy @ '':'' @ regime_text r)) s2
          in Inr (get_tax_config fy s3))"

record regime_config_patch =
  rp_standard_deduction :: "decimal option"
  rp_cess_percent :: "decimal option"
  rp_rebate_threshold :: "decimal option"
  rp_rebate_max_amount :: "decimal option"

definition patch_regime_config :: "regime_config_patch \<Rightarrow> regime_config_row \<Rightarrow> regime_config_row" where
  "patch_regime_config p c =
     c\<lparr>standard_deduction := set_to (rp_standard_deduction p) (standard_deduction c),
       cess_percent := set_to (rp_cess_percent p) (cess_percent c),
       rebate_threshold := set_to (rp_rebate_threshold p) (rebate_threshold c),
       rebate_max_amount := set_to (rp_rebate_max_amount p) (rebate_max_amount c)\<rparr>"

text \<open>\<open>update\<close> by a unique key throws when there is no row to update.\<close>

definition update_tax_regime_config ::
  "bool \<Rightarrow> string \<Rightarrow> tax_regime \<Rightarrow> regime_config_patch \<Rightarrow> auth_user \<Rightarrow> payroll_db
    \<Rightarrow> ((tax_regime \<Rightarrow> regime_view) \<times> payroll_db) answer" where
  "update_tax_regime_config up fy r patch user s =
     (let (_, s1) = get_tax_config fy s; key = (\<lambda>c. rc_year c = fy \<and> rc_regime c = r)
      in if find_row key (regime_configs s1) = None then Inl (Crash NoRegimeConfig)
         else let s2 = s1\<lparr>regime_configs := update_rows key (patch_regime_config patch) (regime_configs s1)\<rparr>;
                  s3 = write_payroll_audit up user ''payroll.tax_regime_config_updated''
                         ''payroll_tax_regime_config'' (Some (fy @ '':'' @ regime_text r)) s2
              in Inr (get_tax_config fy s3))"

section \<open>The configuration stays usable\<close>

text \<open>The slabs of a state, in the order the lookup reads them.\<close>

definition state_slabs :: "payroll_db \<Rightarrow> indian_state \<Rightarrow> pt_slab list" where
  "state_slabs s st =
     map pt_slab.truncate (sort_key gross_from (filter (\<lambda>r. slab_state r = st) (pt_slab_rows s)))"

definition regime_ready :: "regime_view \<Rightarrow> bool" where
  "regime_ready v \<longleftrightarrow> rv_config v \<noteq> None \<and> contiguous_from income_from income_to 0 (rv_slabs v)"

definition config_usable :: "payroll_db \<Rightarrow> bool" where
  "config_usable s \<longleftrightarrow>
     (settings s = None \<longrightarrow> pt_slab_rows s = [])
     \<and> (\<forall>st. state_slabs s st = [] \<or> contiguous_from gross_from gross_to 0 (state_slabs s st))
     \<and> (\<forall>fy. year_unseeded fy s \<or> (\<forall>r. regime_ready (by_regime s fy r)))"

lemma config_usable_cong:
  assumes "settings s = settings t" "pt_slab_rows s = pt_slab_rows t"
    "tax_slab_rows s = tax_slab_rows t" "regime_configs s = regime_configs t"
  shows "config_usable s = config_usable t"
  using assms by (simp add: config_usable_def state_slabs_def by_regime_def year_unseeded_def)

lemma config_usable_audit [simp]:
  "config_usable (write_payroll_audit up u a t i s) = config_usable s"
  by (rule config_usable_cong) simp_all

lemma insert_new_append:
  assumes "distinct (map key new)" and "\<And>r q. r \<in> set new \<Longrightarrow> q \<in> set t \<Longrightarrow> key r \<noteq> key q"
  shows "insert_new key new t = t @ new"
  using assms
proof (induction new arbitrary: t)
  case (Cons r new)
  have "insert_new key (r # new) t = insert_new key new (t @ [r])"
    using Cons.prems(2) [of r] by (auto simp: insert_new_def)
  also have "\<dots> = (t @ [r]) @ new"
  proof (rule Cons.IH)
    show "distinct (map key new)" using Cons.prems(1) by simp
    fix q p assume "q \<in> set new" "p \<in> set (t @ [r])"
    moreover from \<open>q \<in> set new\<close> have "key q \<noteq> key r"
      using Cons.prems(1) by (auto simp: image_iff)
    ultimately show "key q \<noteq> key p" using Cons.prems(2) by auto
  qed
  finally show ?case by simp
qed (simp add: insert_new_def)

lemma sort_key_map: "sort_key k (map f xs) = map f (sort_key (\<lambda>x. k (f x)) xs)"
proof (induction xs)
  case (Cons x xs)
  have "insort_key k (f x) (map f ys) = map f (insort_key (\<lambda>x. k (f x)) x ys)" for ys
    by (induction ys) simp_all
  with Cons show ?case by simp
qed simp

lemma pt_row_simps [simp]: "slab_state (pt_row st s) = st" "gross_from (pt_row st s) = gross_from s"
  "pt_slab.truncate (pt_row st s) = s"
  by (simp_all add: pt_row_def pt_slab.extend_def pt_slab.truncate_def)

lemma tax_row_simps [simp]: "ts_year (tax_row fy r s) = fy" "ts_regime (tax_row fy r s) = r"
  "income_from (tax_row fy r s) = income_from s" "tax_slab.truncate (tax_row fy r s) = s"
  by (simp_all add: tax_row_def tax_slab.extend_def tax_slab.truncate_def)

lemma config_row_simps [simp]: "rc_year (config_row fy r c) = fy" "rc_regime (config_row fy r c) = r"
  "tax_regime_config.truncate (config_row fy r c) = c"
  by (simp_all add: config_row_def tax_regime_config.extend_def tax_regime_config.truncate_def)

lemma sorted_pt_rows:
  "contiguous_from gross_from gross_to a ss \<Longrightarrow>
   map pt_slab.truncate (sort_key gross_from (map (pt_row st) ss)) = ss"
  using sorted_contiguous [of gross_from gross_to a ss]
  by (simp add: sort_key_map sort_key_id_if_sorted comp_def)

lemma sorted_tax_rows:
  "contiguous_from income_from income_to a ss \<Longrightarrow>
   map tax_slab.truncate (sort_key income_from (map (tax_row fy r) ss)) = ss"
  using sorted_contiguous [of income_from income_to a ss]
  by (simp add: sort_key_map sort_key_id_if_sorted comp_def)

lemma default_pt_contiguous:
  "DEFAULT_PT_SLABS st \<noteq> [] \<Longrightarrow> contiguous_from gross_from gross_to 0 (DEFAULT_PT_SLABS st)"
  using pt.valid_bands [OF default_pt_slabs_valid] .

lemma default_tax_contiguous: "contiguous_from income_from income_to 0 (DEFAULT_TAX_SLABS r)"
  using tax.valid_bands [OF default_tax_slabs_valid] .

text \<open>Seeding a year nobody has touched gives the default tables, for that year only.\<close>

lemma by_regime_seeded:
  assumes "year_unseeded fy s"
  shows "by_regime (seed_tds_defaults fy s) fy r =
    \<lparr>rv_slabs = DEFAULT_TAX_SLABS r, rv_config = Some (DEFAULT_TAX_REGIME_CONFIG r)\<rparr>"
    and "fy' \<noteq> fy \<Longrightarrow> by_regime (seed_tds_defaults fy s) fy' r = by_regime s fy' r"
    and "fy' \<noteq> fy \<Longrightarrow> year_unseeded fy' (seed_tds_defaults fy s) = year_unseeded fy' s"
    and "\<not> year_unseeded fy (seed_tds_defaults fy s)"
proof -
  let ?rows = "concat (map (\<lambda>r. map (tax_row fy r) (DEFAULT_TAX_SLABS r)) [NEW, OLD])"
  let ?cfgs = "map (\<lambda>r. config_row fy r (DEFAULT_TAX_REGIME_CONFIG r)) [NEW, OLD]"
  have none: "ts_year t \<noteq> fy" if "t \<in> set (tax_slab_rows s)" for t
    using assms that by (auto simp: year_unseeded_def filter_empty_conv)
  have none_c: "rc_year c \<noteq> fy" if "c \<in> set (regime_configs s)" for c
    using assms that by (auto simp: year_unseeded_def filter_empty_conv)
  have sel: "tax_slab_rows (s\<lparr>tax_slab_rows := a, regime_configs := b\<rparr>) = a"
    "regime_configs (s\<lparr>tax_slab_rows := a, regime_configs := b\<rparr>) = b" for a b by simp_all
  have slabs: "tax_slab_rows (seed_tds_defaults fy s) = tax_slab_rows s @ ?rows"
  proof -
    have "insert_new tax_key ?rows (tax_slab_rows s) = tax_slab_rows s @ ?rows"
    proof (rule insert_new_append)
      show "distinct (map tax_key ?rows)" by (simp add: tax_key_def tax_seed_def)
      fix r q assume "r \<in> set ?rows" "q \<in> set (tax_slab_rows s)"
      then have "ts_year r = fy" "ts_year q \<noteq> fy" using none by auto
      then show "tax_key r \<noteq> tax_key q" by (auto simp: tax_key_def)
    qed
    then show ?thesis by (simp only: seed_tds_defaults_def sel)
  qed
  have cfgs: "regime_configs (seed_tds_defaults fy s) = regime_configs s @ ?cfgs"
  proof -
    have "insert_new config_key ?cfgs (regime_configs s) = regime_configs s @ ?cfgs"
    proof (rule insert_new_append)
      show "distinct (map config_key ?cfgs)" by (simp add: config_key_def)
      fix r q assume "r \<in> set ?cfgs" "q \<in> set (regime_configs s)"
      then have "rc_year r = fy" "rc_year q \<noteq> fy" using none_c by auto
      then show "config_key r \<noteq> config_key q" by (auto simp: config_key_def)
    qed
    then show ?thesis by (simp only: seed_tds_defaults_def sel)
  qed
  have old: "filter (\<lambda>t. ts_year t = fy \<and> ts_regime t = r) (tax_slab_rows s) = []"
    using none by (auto simp: filter_empty_conv)
  have new: "filter (\<lambda>t. ts_year t = fy \<and> ts_regime t = r) ?rows = map (tax_row fy r) (DEFAULT_TAX_SLABS r)"
    by (cases r) simp_all
  have "find_row (\<lambda>c. rc_year c = fy \<and> rc_regime c = r) (regime_configs s) = None"
    using none_c by auto
  then have "find_row (\<lambda>c. rc_year c = fy \<and> rc_regime c = r) (regime_configs s @ ?cfgs)
      = Some (config_row fy r (DEFAULT_TAX_REGIME_CONFIG r))"
    by (cases r) (simp_all add: find_row_append del: find_row_None)
  then show "by_regime (seed_tds_defaults fy s) fy r =
      \<lparr>rv_slabs = DEFAULT_TAX_SLABS r, rv_config = Some (DEFAULT_TAX_REGIME_CONFIG r)\<rparr>"
    unfolding by_regime_def slabs cfgs filter_append old new
    by (simp add: sorted_tax_rows [OF default_tax_contiguous] del: DEFAULT_TAX_SLABS.simps)
  show "fy' \<noteq> fy \<Longrightarrow> by_regime (seed_tds_defaults fy s) fy' r = by_regime s fy' r"
    by (simp add: by_regime_def slabs cfgs find_row_append filter_empty_conv del: find_row_None
        split: option.splits)
  show "fy' \<noteq> fy \<Longrightarrow> year_unseeded fy' (seed_tds_defaults fy s) = year_unseeded fy' s"
    by (simp add: year_unseeded_def slabs cfgs)
  show "\<not> year_unseeded fy (seed_tds_defaults fy s)"
    by (simp add: year_unseeded_def slabs cfgs)
qed

lemma filter_states:
  "distinct sts \<Longrightarrow> filter (\<lambda>r. slab_state r = st) (concat (map (\<lambda>x. map (pt_row x) (f x)) sts))
    = (if st \<in> set sts then map (pt_row st) (f st) else [])"
proof (induction sts)
  case (Cons x sts)
  have "filter (\<lambda>r. slab_state r = st) (map (pt_row x) (f x)) = (if x = st then map (pt_row x) (f x) else [])"
    by (auto simp: filter_empty_conv intro!: filter_True)
  with Cons show ?case by auto
qed simp

lemma seed_payroll_slabs:
  assumes "pt_slab_rows s = []"
  shows "pt_slab_rows (seed_payroll_defaults s)
    = concat (map (\<lambda>st. map (pt_row st) (DEFAULT_PT_SLABS st)) seeded_states)"
proof -
  let ?rows = "concat (map (\<lambda>st. map (pt_row st) (DEFAULT_PT_SLABS st)) seeded_states)"
  have "insert_new pt_key ?rows [] = [] @ ?rows"
  proof (rule insert_new_append)
    show "distinct (map pt_key ?rows)" by (simp add: seeded_states_def pt_key_def pt_seed_def)
  qed simp
  then show ?thesis unfolding seed_payroll_defaults_def assms by simp
qed

lemma seed_payroll_other [simp]:
  "settings (seed_payroll_defaults s) \<noteq> None"
  "tax_slab_rows (seed_payroll_defaults s) = tax_slab_rows s"
  "regime_configs (seed_payroll_defaults s) = regime_configs s"
  by (simp_all add: seed_payroll_defaults_def split: option.splits)

lemma by_regime_cong:
  "tax_slab_rows s = tax_slab_rows t \<Longrightarrow> regime_configs s = regime_configs t \<Longrightarrow>
    by_regime s fy r = by_regime t fy r \<and> year_unseeded fy s = year_unseeded fy t"
  by (simp add: by_regime_def year_unseeded_def)

lemma get_settings_usable:
  assumes "config_usable s"
  shows "config_usable (snd (get_settings s)) \<and> settings (snd (get_settings s)) = Some (fst (get_settings s))"
proof (cases "settings s")
  case None
  let ?s = "seed_payroll_defaults s"
  have rows: "pt_slab_rows ?s = concat (map (\<lambda>st. map (pt_row st) (DEFAULT_PT_SLABS st)) seeded_states)"
    using assms None by (intro seed_payroll_slabs) (simp add: config_usable_def)
  have "state_slabs ?s st = [] \<or> contiguous_from gross_from gross_to 0 (state_slabs ?s st)" for st
  proof (cases "st \<in> set seeded_states")
    case True
    then have ne: "DEFAULT_PT_SLABS st \<noteq> []" by (auto simp: seeded_states_def)
    have "distinct seeded_states" by (simp add: seeded_states_def)
    with True have "state_slabs ?s st = DEFAULT_PT_SLABS st"
      unfolding state_slabs_def rows
      by (simp add: filter_states sorted_pt_rows [OF default_pt_contiguous [OF ne]] del: DEFAULT_PT_SLABS.simps)
    with default_pt_contiguous [OF ne] show ?thesis by simp
  next
    case False
    have "distinct seeded_states" by (simp add: seeded_states_def)
    with False show ?thesis unfolding state_slabs_def rows by (simp add: filter_states)
  qed
  moreover have "by_regime ?s fy r = by_regime s fy r \<and> year_unseeded fy ?s = year_unseeded fy s" for fy r
    by (rule by_regime_cong) simp_all
  moreover have "settings ?s = Some default_settings" using None by (simp add: seed_payroll_defaults_def)
  ultimately show ?thesis
    using assms None by (simp add: get_settings_def Let_def config_usable_def)
qed (use assms in \<open>simp add: get_settings_def\<close>)

lemma get_tax_config_usable:
  assumes "config_usable s"
  shows "config_usable (snd (get_tax_config fy s)) \<and> \<not> year_unseeded fy (snd (get_tax_config fy s))
    \<and> regime_ready (fst (get_tax_config fy s) r)"
proof (cases "year_unseeded fy s")
  case True
  let ?s = "seed_tds_defaults fy s"
  have same: "settings ?s = settings s" "pt_slab_rows ?s = pt_slab_rows s"
    by (simp_all add: seed_tds_defaults_def)
  have ready: "regime_ready (by_regime ?s fy r)" for r
    unfolding by_regime_seeded(1) [OF True] by (simp add: regime_ready_def default_tax_contiguous)
  have "year_unseeded fy' ?s \<or> (\<forall>r. regime_ready (by_regime ?s fy' r))" for fy'
  proof (cases "fy' = fy")
    case False
    then show ?thesis
      using assms by_regime_seeded(2,3) [OF True False] by (simp add: config_usable_def)
  qed (use ready in simp)
  then show ?thesis
    using True assms ready by_regime_seeded(4) [OF True]
    by (simp add: get_tax_config_def Let_def config_usable_def state_slabs_def same)
qed (use assms in \<open>auto simp: get_tax_config_def config_usable_def\<close>)

lemma update_settings_usable:
  "config_usable s \<Longrightarrow> config_usable (snd (update_settings up p u s))"
  using get_settings_usable [of s]
  by (auto simp: update_settings_def split_def Let_def config_usable_def state_slabs_def
      by_regime_def year_unseeded_def)

lemma list_pt_slabs_usable: "config_usable s \<Longrightarrow> config_usable (snd (list_pt_slabs st s))"
  using get_settings_usable [of s] by (simp add: list_pt_slabs_def split_def Let_def)

lemma replace_pt_slabs_usable:
  assumes "config_usable s" and "replace_pt_slabs up st slabs u s = Inr (v, s')"
  shows "config_usable s'"
proof -
  obtain ts where ts: "validate_pt_slabs slabs = Inr ts"
    using assms(2) by (auto simp: replace_pt_slabs_def split: sum.splits exn.splits)
  define s1 where "s1 = snd (get_settings s)"
  define s2 where "s2 = s1\<lparr>pt_slab_rows := filter (\<lambda>r. slab_state r \<noteq> st) (pt_slab_rows s1) @ map (pt_row st) ts\<rparr>"
  have s1: "config_usable s1" "settings s1 \<noteq> None"
    using get_settings_usable [OF assms(1)] by (simp_all add: s1_def)
  have slabs: "state_slabs s2 x = (if x = st then ts else state_slabs s1 x)" for x
  proof (cases "x = st")
    case True
    have "filter (\<lambda>r. slab_state r = st) (pt_slab_rows s2) = map (pt_row st) ts"
      by (simp add: s2_def filter_empty_conv)
    then show ?thesis using True sorted_pt_rows [OF pt.valid_bands [OF ts]] by (simp add: state_slabs_def)
  next
    case False
    then have "filter (\<lambda>r. slab_state r = x) (pt_slab_rows s2) = filter (\<lambda>r. slab_state r = x) (pt_slab_rows s1)"
      by (auto simp: s2_def filter_empty_conv intro!: filter_cong)
    with False show ?thesis by (simp add: state_slabs_def)
  qed
  have "config_usable s2"
    using s1 pt.valid_bands [OF ts] by (auto simp: config_usable_def slabs) (auto simp: s2_def by_regime_def year_unseeded_def)
  then have "config_usable (snd (list_pt_slabs (Some st) (write_payroll_audit up u a t i s2)))" for a t i
    by (intro list_pt_slabs_usable) simp
  moreover have "replace_pt_slabs up st slabs u s = Inr (list_pt_slabs (Some st) (write_payroll_audit up u
      ''payroll.pt_slabs_replaced'' ''payroll_pt_slabs'' (Some (state_text st)) s2))"
    unfolding replace_pt_slabs_def ts by (simp add: split_def Let_def s1_def s2_def)
  ultimately show ?thesis using assms(2) by (metis sum.inject(2) snd_conv)
qed

lemma replace_tax_slabs_usable:
  assumes "config_usable s" and "replace_tax_slabs up fy r slabs u s = Inr (v, s')"
  shows "config_usable s'"
proof -
  obtain ts where ts: "validate_tax_slabs slabs = Inr ts"
    using assms(2) by (auto simp: replace_tax_slabs_def split: sum.splits exn.splits)
  define s1 where "s1 = snd (get_tax_config fy s)"
  define s2 where "s2 = s1\<lparr>tax_slab_rows :=
    filter (\<lambda>t. \<not> (ts_year t = fy \<and> ts_regime t = r)) (tax_slab_rows s1) @ map (tax_row fy r) ts\<rparr>"
  have s1: "config_usable s1" "\<not> year_unseeded fy s1"
    using get_tax_config_usable [OF assms(1)] by (simp_all add: s1_def)
  have rows: "filter (\<lambda>t. ts_year t = y \<and> ts_regime t = q) (tax_slab_rows s2) =
      (if y = fy \<and> q = r then map (tax_row fy r) ts
       else filter (\<lambda>t. ts_year t = y \<and> ts_regime t = q) (tax_slab_rows s1))" for y q
    by (auto simp: s2_def filter_empty_conv intro!: filter_cong)
  have cfg: "regime_configs s2 = regime_configs s1" "settings s2 = settings s1" "pt_slab_rows s2 = pt_slab_rows s1"
    by (simp_all add: s2_def)
  have views: "by_regime s2 y q = (if y = fy \<and> q = r then (by_regime s1 fy r)\<lparr>rv_slabs := ts\<rparr> else by_regime s1 y q)" for y q
    unfolding by_regime_def rows cfg using sorted_tax_rows [OF tax.valid_bands [OF ts]] by simp
  have unseeded: "year_unseeded y s2 \<longleftrightarrow> year_unseeded y s1" if "y \<noteq> fy" for y
    using that by (auto simp: year_unseeded_def cfg) (auto simp: s2_def filter_empty_conv)
  have "year_unseeded y s2 \<or> (\<forall>q. regime_ready (by_regime s2 y q))" for y
  proof (cases "y = fy")
    case True
    then have "\<forall>q. regime_ready (by_regime s1 fy q)" using s1 by (auto simp: config_usable_def)
    then show ?thesis using True tax.valid_bands [OF ts] by (simp add: views regime_ready_def)
  next
    case False
    with s1(1) show ?thesis by (simp add: views unseeded config_usable_def)
  qed
  then have "config_usable s2"
    using s1(1) by (simp add: config_usable_def state_slabs_def cfg)
  then have "config_usable (snd (get_tax_config fy (write_payroll_audit up u a t i s2)))" for a t i
    using get_tax_config_usable by simp
  moreover have "replace_tax_slabs up fy r slabs u s = Inr (get_tax_config fy (write_payroll_audit up u
      ''payroll.tax_slabs_replaced'' ''payroll_tax_slabs'' (Some (fy @ '':'' @ regime_text r)) s2))"
    unfolding replace_tax_slabs_def ts by (simp add: split_def Let_def s1_def s2_def)
  ultimately show ?thesis using assms(2) by (metis sum.inject(2) snd_conv)
qed

lemma update_regime_config_usable:
  assumes "config_usable s" and "update_tax_regime_config up fy r p u s = Inr (v, s')"
  shows "config_usable s'"
proof -
  define s1 where "s1 = snd (get_tax_config fy s)"
  define key :: "regime_config_row \<Rightarrow> bool" where "key = (\<lambda>c. rc_year c = fy \<and> rc_regime c = r)"
  define s2 where "s2 = s1\<lparr>regime_configs := update_rows key (patch_regime_config p) (regime_configs s1)\<rparr>"
  have s1: "config_usable s1" using get_tax_config_usable [OF assms(1)] by (simp add: s1_def)
  have keys: "rc_year (patch_regime_config p c) = rc_year c" "rc_regime (patch_regime_config p c) = rc_regime c" for c
    by (simp_all add: patch_regime_config_def)
  have present: "(rv_config (by_regime s2 y q) = None) = (rv_config (by_regime s1 y q) = None)" for y q
  proof -
    have "map config_key (regime_configs s2) = map config_key (regime_configs s1)"
      by (simp add: s2_def config_key_def keys map_update_rows)
    moreover have "(rv_config (by_regime t y q) = None) = ((y, q) \<notin> set (map config_key (regime_configs t)))" for t
      by (auto simp: by_regime_def config_key_def)
    ultimately show ?thesis by (simp only:)
  qed
  have slabs: "rv_slabs (by_regime s2 y q) = rv_slabs (by_regime s1 y q)" for y q
    by (simp add: by_regime_def s2_def)
  have unseeded: "year_unseeded y s2 = year_unseeded y s1" for y
  proof -
    have "map rc_year (regime_configs s2) = map rc_year (regime_configs s1)"
      by (simp add: s2_def keys map_update_rows)
    moreover have "(filter (\<lambda>c. rc_year c = y) t = []) = (y \<notin> set (map rc_year t))" for t :: "regime_config_row list"
      by (auto simp: filter_empty_conv)
    moreover have "tax_slab_rows s2 = tax_slab_rows s1" by (simp add: s2_def)
    ultimately show ?thesis unfolding year_unseeded_def by (simp only:)
  qed
  have "config_usable s2"
    using s1 unfolding config_usable_def regime_ready_def present slabs unseeded by (simp add: s2_def state_slabs_def)
  then have "config_usable (snd (get_tax_config fy (write_payroll_audit up u a t i s2)))" for a t i
    using get_tax_config_usable by simp
  moreover have "update_tax_regime_config up fy r p u s = Inr (get_tax_config fy (write_payroll_audit up u
      ''payroll.tax_regime_config_updated'' ''payroll_tax_regime_config'' (Some (fy @ '':'' @ regime_text r)) s2))"
    using assms(2) unfolding update_tax_regime_config_def
    by (simp add: split_def Let_def s1_def s2_def key_def del: find_row_None split: if_splits)
  ultimately show ?thesis using assms(2) by (metis sum.inject(2) snd_conv)
qed

section \<open>Reachable configurations\<close>

text \<open>
  The operations as contract: a tenant's configuration store offers a read of the settings, a read
  of a year and updates, each keeping a predicate the clients rely on.
\<close>

locale config_store =
  fixes usable :: "'s \<Rightarrow> bool" and read_year :: "string \<Rightarrow> 's \<Rightarrow> 'v \<times> 's" and ready :: "'v \<Rightarrow> bool"
    and step :: "'s \<Rightarrow> 's \<Rightarrow> bool"
  assumes read_usable: "usable s \<Longrightarrow> usable (snd (read_year fy s))"
    and read_ready: "usable s \<Longrightarrow> ready (fst (read_year fy s))"
    and step_usable: "usable s \<Longrightarrow> step s s' \<Longrightarrow> usable s'"
begin

lemma reachable_usable: "step\<^sup>*\<^sup>* s s' \<Longrightarrow> usable s \<Longrightarrow> usable s'"
  by (induction rule: rtranclp_induct) (auto intro: step_usable)

lemma reachable_ready: "step\<^sup>*\<^sup>* s s' \<Longrightarrow> usable s \<Longrightarrow> ready (fst (read_year fy s'))"
  by (rule read_ready) (rule reachable_usable)

end

inductive config_step :: "payroll_db \<Rightarrow> payroll_db \<Rightarrow> bool" where
  cs_read_settings: "config_step s (snd (get_settings s))"
| cs_update_settings: "config_step s (snd (update_settings up p u s))"
| cs_list: "config_step s (snd (list_pt_slabs st s))"
| cs_replace_pt: "replace_pt_slabs up st slabs u s = Inr (v, s') \<Longrightarrow> config_step s s'"
| cs_read_year: "config_step s (snd (get_tax_config fy s))"
| cs_replace_tax: "replace_tax_slabs up fy r slabs u s = Inr (w, s') \<Longrightarrow> config_step s s'"
| cs_update_regime: "update_tax_regime_config up fy r rp u s = Inr (w, s') \<Longrightarrow> config_step s s'"

inductive_cases config_stepE: "config_step s s'"

lemmas usable_ops = get_settings_usable get_tax_config_usable update_settings_usable
  list_pt_slabs_usable replace_pt_slabs_usable replace_tax_slabs_usable update_regime_config_usable

lemma config_step_usable: "config_step s s' \<Longrightarrow> config_usable s \<Longrightarrow> config_usable s'"
proof (induction rule: config_step.induct)
  case (cs_read_settings s)
  then show ?case using get_settings_usable by blast
next
  case (cs_read_year s fy)
  then show ?case using get_tax_config_usable by blast
next
  case (cs_update_settings s up p u)
  then show ?case by (rule update_settings_usable)
next
  case (cs_list s st)
  then show ?case by (rule list_pt_slabs_usable)
next
  case (cs_replace_pt up st slabs u s v s')
  then show ?case by (auto elim: replace_pt_slabs_usable)
next
  case (cs_replace_tax up fy r slabs u s w s')
  then show ?case by (auto elim: replace_tax_slabs_usable)
next
  case (cs_update_regime up fy r rp u s w s')
  then show ?case by (auto elim: update_regime_config_usable)
qed

interpretation cfg: config_store config_usable get_tax_config "\<lambda>v. \<forall>r. regime_ready (v r)" config_step
  by unfold_locales (simp_all add: get_tax_config_usable config_step_usable)

text \<open>A tenant before payroll is used: no settings, no tables.\<close>

definition fresh_tenant :: "payroll_db \<Rightarrow> bool" where
  "fresh_tenant s \<longleftrightarrow> settings s = None \<and> pt_slab_rows s = [] \<and> tax_slab_rows s = [] \<and> regime_configs s = []"

lemma fresh_usable: "fresh_tenant s \<Longrightarrow> config_usable s"
  by (simp add: fresh_tenant_def config_usable_def state_slabs_def year_unseeded_def)

text \<open>
  C38. Whatever sequence of configuration requests a tenant has made (reads that seed defaults,
  updates, replacements of slab tables), the configuration a payroll run reads is usable: each
  state's Professional Tax slabs are absent or contiguous from zero, and reading the TDS
  configuration of any financial year gives both regimes a configuration and contiguous slabs.
\<close>

theorem config_always_usable:
  assumes "config_step\<^sup>*\<^sup>* s s'" and "fresh_tenant s"
  shows "(state_slabs s' st = [] \<or> contiguous_from gross_from gross_to 0 (state_slabs s' st))
    \<and> regime_ready (fst (get_tax_config fy s') r)"
proof -
  have u: "config_usable s'" using cfg.reachable_usable [OF assms(1) fresh_usable [OF assms(2)]] .
  then have "state_slabs s' st = [] \<or> contiguous_from gross_from gross_to 0 (state_slabs s' st)"
    by (simp add: config_usable_def)
  moreover have "regime_ready (fst (get_tax_config fy s') r)"
    using cfg.reachable_ready [OF assms(1) fresh_usable [OF assms(2)]] by simp
  ultimately show ?thesis by blast
qed

definition empty_db :: payroll_db where
  "empty_db =
     \<lparr>users = [], employees = [], structures = [], revisions = [], arrears = [], settings = None,
      tenant_weekly_offs = [0, 6], pt_slab_rows = [], tax_slab_rows = [], regime_configs = [],
      regime_choices = [], runs = [], approvals = [], line_items = [], settlements = [],
      audit_log = [], outbox = []\<rparr>"

theorem config_always_usable_witness:
  "regime_ready (fst (get_tax_config ''2026-27'' (snd (get_settings empty_db))) NEW)"
proof -
  have "config_step\<^sup>*\<^sup>* empty_db (snd (get_settings empty_db))"
    by (rule r_into_rtranclp) (rule cs_read_settings)
  moreover have "fresh_tenant empty_db" by (simp add: fresh_tenant_def empty_db_def)
  ultimately show ?thesis using config_always_usable by blast
qed

text \<open>
  Defaults never overwrite a tenant's own tables: once settings exist, reading them changes
  nothing; once a year has a slab or a configuration, reading it changes nothing.
\<close>

theorem no_reseeding:
  "get_settings s = (case settings s of
       Some ps \<Rightarrow> (ps, s) | None \<Rightarrow> (default_settings, seed_payroll_defaults s))
   \<and> snd (get_tax_config fy s) = (if year_unseeded fy s then seed_tds_defaults fy s else s)
   \<and> snd (get_tax_config fy (snd (get_tax_config fy s))) = snd (get_tax_config fy s)"
proof -
  have "\<not> year_unseeded fy (seed_tds_defaults fy s)" if "year_unseeded fy s"
    using by_regime_seeded(4) [OF that] .
  then show ?thesis
    by (auto simp: get_settings_def get_tax_config_def seed_payroll_defaults_def Let_def split: option.splits)
qed

end
