(* ===== verification/TdsService.thy ===== *)
theory TdsService
  imports PayrollConfig
begin

text \<open>
  \<open>TdsService\<close> (\<open>apps/api/src/payroll/tds.service.ts\<close>): an employee's choice of tax regime, and the
  context of the TDS projection of every employee of a run (regime, tables, gross and TDS of the
  earlier months of the financial year). The declaration provider (\<open>declaration-provider.ts\<close>) is
  the function \<open>pf_declared_exemptions\<close> of the period's facts.
\<close>

definition assert_can_access :: "auth_user \<Rightarrow> id \<Rightarrow> unit answer" where
  [guard_simps]: "assert_can_access user e =
     (if can_manage user then Inr ()
      else if user_role user = EMPLOYEE \<and> user_employee user = Some e then Inr ()
      else Inl (Forbidden NotAuthorized))"

definition find_choice :: "payroll_db \<Rightarrow> id \<Rightarrow> string \<Rightarrow> regime_choice_row option" where
  "find_choice s e fy = find_row (\<lambda>c. ch_employee c = e \<and> ch_year c = fy) (regime_choices s)"

record regime_answer =
  ra_employee :: id
  ra_year :: string
  ra_regime :: tax_regime
  ra_set_by :: "id option"

definition get_employee_regime ::
  "id \<Rightarrow> string \<Rightarrow> auth_user \<Rightarrow> payroll_db \<Rightarrow> regime_answer answer" where
  "get_employee_regime e fy user s =
     and_then (assert_can_access user e) (\<lambda>_.
     and_then (assert_employee_exists s e) (\<lambda>_.
       let row = find_choice s e fy
       in Inr \<lparr>ra_employee = e, ra_year = fy,
               ra_regime = (case row of None \<Rightarrow> NEW | Some c \<Rightarrow> ch_regime c),
               ra_set_by = (case row of None \<Rightarrow> None | Some c \<Rightarrow> ch_set_by c)\<rparr>))"

definition set_employee_regime ::
  "bool \<Rightarrow> id \<Rightarrow> string \<Rightarrow> tax_regime \<Rightarrow> auth_user \<Rightarrow> payroll_db \<Rightarrow> payroll_db answer" where
  "set_employee_regime up e fy regime user s =
     and_then (assert_can_access user e) (\<lambda>_.
     and_then (assert_employee_exists s e) (\<lambda>_.
       let is_override = can_manage user \<and> user_employee user \<noteq> Some e;
           set_by = (if is_override then Some (sub user) else None);
           s1 = s\<lparr>regime_choices :=
                  upsert_row (\<lambda>c. ch_employee c = e \<and> ch_year c = fy)
                    (\<lambda>c. c\<lparr>ch_regime := regime, ch_set_by := set_by\<rparr>)
                    \<lparr>ch_employee = e, ch_year = fy, ch_regime = regime, ch_set_by = set_by\<rparr>
                    (regime_choices s)\<rparr>
       in Inr (if is_override
               then write_payroll_audit up user ''payroll.tds_regime_overridden'' ''employee'' (Some e) s1
               else s1)))"

section \<open>The context of a run\<close>

record tds_context =
  tc_regime :: tax_regime
  tc_slabs :: "tax_slab list"
  tc_config :: "tax_regime_config option"
  tc_declared_exemptions :: decimal
  tc_elapsed_gross :: decimal
  tc_already_deducted :: decimal
  tc_remaining_months :: int

text \<open>The line items of finished regular runs of the given periods.\<close>

definition finished :: "run_status \<Rightarrow> bool" where
  "finished st \<longleftrightarrow> st = PROCESSED \<or> st = DISBURSED"

definition historical_items :: "payroll_db \<Rightarrow> string list \<Rightarrow> id \<Rightarrow> line_item list" where
  "historical_items s periods e =
     filter (\<lambda>li. li_employee li = e \<and>
        (case find_row (\<lambda>r. run_id r = li_run li) (runs s) of
           None \<Rightarrow> False
         | Some r \<Rightarrow> run_period r \<in> set periods \<and> \<not> run_is_reprocess r \<and> finished (run_status r)))
       (line_items s)"

definition build_context ::
  "decimal_lib \<Rightarrow> period_facts \<Rightarrow> id list \<Rightarrow> string \<Rightarrow> payroll_db \<Rightarrow> (id \<rightharpoonup> tds_context) \<times> payroll_db" where
  "build_context L facts ids period s =
     (let fy = financial_year period;
          elapsed = elapsed_periods_in_financial_year period;
          remaining = months_remaining_in_financial_year period;
          (tax, s1) = get_tax_config fy s;
          regime_of = (\<lambda>e. case find_choice s e fy of None \<Rightarrow> NEW | Some c \<Rightarrow> ch_regime c)
      in ((\<lambda>e. if e \<notin> set ids then None
               else Some \<lparr>tc_regime = regime_of e,
                          tc_slabs = rv_slabs (tax (regime_of e)),
                          tc_config = rv_config (tax (regime_of e)),
                          tc_declared_exemptions =
                            (if regime_of e = OLD then pf_declared_exemptions facts e else 0),
                          tc_elapsed_gross = dsum L (map li_gross (historical_items s elapsed e)),
                          tc_already_deducted = dsum L (map li_tds (historical_items s elapsed e)),
                          tc_remaining_months = remaining\<rparr>),
          s1))"

text \<open>\<open>NullDeclarationProvider\<close>\<close>

definition no_declarations :: "id \<Rightarrow> decimal" where
  "no_declarations e = 0"

section \<open>Facts\<close>

lemma build_context_dom: "dom (fst (build_context L facts ids period s)) = set ids"
  by (auto simp: build_context_def Let_def split_def split: if_splits)

lemma build_context_state: "snd (build_context L facts ids period s) = snd (get_tax_config (financial_year period) s)"
  by (simp add: build_context_def Let_def split_def)

lemma get_tax_config_selects [simp]:
  "runs (snd (get_tax_config fy s)) = runs s"
  "approvals (snd (get_tax_config fy s)) = approvals s"
  "line_items (snd (get_tax_config fy s)) = line_items s"
  "employees (snd (get_tax_config fy s)) = employees s"
  "users (snd (get_tax_config fy s)) = users s"
  "structures (snd (get_tax_config fy s)) = structures s"
  "arrears (snd (get_tax_config fy s)) = arrears s"
  "settlements (snd (get_tax_config fy s)) = settlements s"
  "revisions (snd (get_tax_config fy s)) = revisions s"
  "audit_log (snd (get_tax_config fy s)) = audit_log s"
  "settings (snd (get_tax_config fy s)) = settings s"
  by (simp_all add: get_tax_config_def seed_tds_defaults_def Let_def)

lemma get_settings_selects [simp]:
  "runs (snd (get_settings s)) = runs s"
  "approvals (snd (get_settings s)) = approvals s"
  "line_items (snd (get_settings s)) = line_items s"
  "employees (snd (get_settings s)) = employees s"
  "users (snd (get_settings s)) = users s"
  "structures (snd (get_settings s)) = structures s"
  "arrears (snd (get_settings s)) = arrears s"
  "settlements (snd (get_settings s)) = settlements s"
  "revisions (snd (get_settings s)) = revisions s"
  "audit_log (snd (get_settings s)) = audit_log s"
  by (simp_all add: get_settings_def seed_payroll_defaults_def Let_def split: option.splits)

text \<open>
  The regime an employee is taxed under is the last one set: after an allowed
  \<open>setEmployeeRegime\<close>, reading it back gives the new regime and, for an override by HR, who set
  it; other employees and other years keep theirs, and an override leaves an audit row while a
  choice of one's own does not.
\<close>

theorem regime_choice_roundtrip:
  assumes "set_employee_regime True e fy regime user s = Inr s'"
  shows "find_choice s' e fy \<noteq> None
    \<and> map_option ch_regime (find_choice s' e fy) = Some regime
    \<and> map_option ch_set_by (find_choice s' e fy)
        = Some (if can_manage user \<and> user_employee user \<noteq> Some e then Some (sub user) else None)
    \<and> (\<forall>e' fy'. e' \<noteq> e \<or> fy' \<noteq> fy \<longrightarrow> find_choice s' e' fy' = find_choice s e' fy')
    \<and> length (audit_log s') =
        length (audit_log s) + (if can_manage user \<and> user_employee user \<noteq> Some e then 1 else 0)"
proof -
  let ?p = "\<lambda>c. ch_employee c = e \<and> ch_year c = fy"
  let ?by = "if can_manage user \<and> user_employee user \<noteq> Some e then Some (sub user) else None"
  let ?new = "\<lparr>ch_employee = e, ch_year = fy, ch_regime = regime, ch_set_by = ?by\<rparr>"
  let ?f = "\<lambda>c. c\<lparr>ch_regime := regime, ch_set_by := ?by\<rparr>"
  have choices: "regime_choices s' = upsert_row ?p ?f ?new (regime_choices s)"
    and log: "length (audit_log s') =
        length (audit_log s) + (if can_manage user \<and> user_employee user \<noteq> Some e then 1 else 0)"
    using assms by (auto simp: set_employee_regime_def and_then_Inr_iff Let_def write_payroll_audit_def
        split: if_splits)
  have found: "find_row ?p (regime_choices s') = Some (case find_row ?p (regime_choices s) of
      None \<Rightarrow> ?new | Some c \<Rightarrow> ?f c)"
    by (cases "find_row ?p (regime_choices s)")
      (simp_all add: choices upsert_row_def find_row_append find_row_update_same del: find_row_None)
  have other: "find_row (\<lambda>c. ch_employee c = e' \<and> ch_year c = fy') (regime_choices s')
      = find_row (\<lambda>c. ch_employee c = e' \<and> ch_year c = fy') (regime_choices s)"
    if "e' \<noteq> e \<or> fy' \<noteq> fy" for e' fy'
  proof -
    let ?q = "\<lambda>c. ch_employee c = e' \<and> ch_year c = fy'"
    have "find_row ?q (update_rows ?p ?f (regime_choices s)) = find_row ?q (regime_choices s)"
      by (rule find_row_update_other) (use that in auto)
    moreover have "\<not> ?q ?new" using that by auto
    ultimately show ?thesis
      by (auto simp: choices upsert_row_def find_row_append simp del: find_row_None split: option.splits)
  qed
  show ?thesis
    using found other log by (auto simp: find_choice_def simp del: find_row_None split: option.splits)
qed

definition sample_admin :: auth_user where
  "sample_admin = \<lparr>sub = ''u1'', user_role = COMPANY_ADMIN, user_employee = None\<rparr>"

definition sample_employee :: employee_row where
  "sample_employee = \<lparr>emp_id = ''e1'', work_state = Some KARNATAKA, weekly_off_days_override = [],
     date_of_joining = Some 0, date_of_birth = Some 0, last_working_date = None, lifecycle = CONFIRMED\<rparr>"

theorem regime_choice_roundtrip_witness:
  "\<exists>s'. set_employee_regime True ''e1'' ''2026-27'' OLD sample_admin (empty_db\<lparr>employees := [sample_employee]\<rparr>)
      = Inr s' \<and> map_option ch_regime (find_choice s' ''e1'' ''2026-27'') = Some OLD"
proof -
  let ?s = "empty_db\<lparr>employees := [sample_employee]\<rparr>"
  have "\<exists>s'. set_employee_regime True ''e1'' ''2026-27'' OLD sample_admin ?s = Inr s'"
    by (simp add: set_employee_regime_def guard_simps sample_admin_def MANAGE_ROLES_def
        sample_employee_def Let_def)
  then show ?thesis using regime_choice_roundtrip by blast
qed

end
