(* ===== verification/PayrollRun.thy ===== *)
theory PayrollRun
  imports TdsService
begin

text \<open>
  \<open>PayrollRunService\<close> (\<open>apps/api/src/payroll/payroll-run.service.ts\<close>): the figures of one employee, the
  assembly of a run, and the life cycle DRAFT, REVIEW, APPROVED, PROCESSED, DISBURSED with its
  guards. A handler takes the state and answers an exception or the new state; a request that
  fails leaves the state as it was (the defaults a failing request may have seeded on the way are
  seeded again by the next one). The database's own rules are part of the model: the unique index
  on regular runs and the trigger that freezes the line items of a finished run.

  The audit flag \<open>up\<close>, the new identifier, the time, and the storage keys and upload results of
  payslips are arguments.
\<close>

section \<open>One employee's figures\<close>

datatype outcome = LineItem line_compute | Excluded run_exception

definition excluded :: "id \<Rightarrow> exception_type \<Rightarrow> outcome" where
  "excluded e t = Excluded \<lparr>ex_employee = Some e, ex_type = t\<rparr>"

definition overtime_input_for ::
  "decimal_lib \<Rightarrow> payroll_settings \<Rightarrow> structure_row \<Rightarrow> int \<Rightarrow> number \<Rightarrow> number
    \<Rightarrow> overtime_input option answer" where
  "overtime_input_for L ps st wdays hrs shift_hrs =
     (if ps_overtime_enabled ps \<and> hrs > 0 \<and> shift_hrs > 0 \<and> wdays > 0
      then (case resolve_monthly_amounts L (map component_input.truncate (st_components st)) (st_ctc_annual st) of
              Inl e \<Rightarrow> Inl (Crash (StructureFailed e))
            | Inr amounts \<Rightarrow>
                (case amounts BASIC_CODE of
                   None \<Rightarrow> Inl (Crash BasicMissing)
                 | Some basic \<Rightarrow>
                     Inr (Some \<lparr>hours = of_number hrs,
                                hourly_rate = ddiv L basic (of_number (js_fl (of_int wdays * shift_hrs))),
                                multiplier = ps_overtime_multiplier ps\<rparr>)))
      else Inr None)"

definition calculator_input ::
  "payroll_settings \<Rightarrow> structure_row \<Rightarrow> pt_slab list \<Rightarrow> int \<Rightarrow> int \<Rightarrow> int \<Rightarrow> overtime_input option
    \<Rightarrow> calculation_input" where
  "calculator_input ps st slabs mon wdays payable ot =
     \<lparr>components = map calculator_component.truncate (st_components st),
      ctc_annual = st_ctc_annual st,
      working_days = of_int wdays, payable_days = of_int payable,
      epf = ps_epf ps, esi = ps_esi ps, pt_slabs = slabs, month = mon, overtime = ot,
      tds = None, allow_negative_net = False\<rparr>"

text \<open>The TDS of the month; reading a missing regime configuration is a TypeError.\<close>

definition month_tds :: "decimal_lib \<Rightarrow> tds_context \<Rightarrow> decimal \<Rightarrow> decimal answer" where
  "month_tds L ctx gross =
     (if tc_remaining_months ctx \<le> 0 then Inr 0
      else case tc_config ctx of
             None \<Rightarrow> Inl (Crash NoRegimeConfig)
           | Some config \<Rightarrow>
               Inr (compute_monthly_tds L
                 \<lparr>ti_regime = tc_regime ctx, current_month_gross = gross,
                  elapsed_gross = tc_elapsed_gross ctx, already_deducted = tc_already_deducted ctx,
                  remaining_months = tc_remaining_months ctx,
                  declared_exemptions = tc_declared_exemptions ctx,
                  ti_slabs = tc_slabs ctx, ti_config = config\<rparr>))"

definition line_of_result ::
  "decimal_lib \<Rightarrow> id \<Rightarrow> int \<Rightarrow> int \<Rightarrow> int \<Rightarrow> calculation_result \<Rightarrow> line_compute" where
  "line_of_result L e wdays payable lop r =
     \<lparr>li_employee = e, li_snapshot = r, li_working_days = wdays, li_payable_days = payable,
      li_lop_days = lop, li_gross = gross_earnings r,
      li_epf_employee = epf_employee_contribution (r_epf r),
      li_epf_employer = dplus L (dplus L (dplus L (eps_contribution (r_epf r))
          (employer_pf_contribution (r_epf r))) (admin_charge (r_epf r))) (edli_contribution (r_epf r)),
      li_esi_employee = esi_employee_contribution (r_esi r),
      li_esi_employer = esi_employer_contribution (r_esi r),
      li_professional_tax = professional_tax r, li_tds = r_tds r, li_net_pay = net_pay r,
      li_adjustments = []\<rparr>"

text \<open>
  The calculation inside \<open>try\<close>: a \<open>PayrollCalculationError\<close> excludes the employee, every other
  error is thrown on.
\<close>

definition caught :: "id \<Rightarrow> (calculation_error, calculation_result) result
    \<Rightarrow> (calculation_result \<Rightarrow> outcome answer) \<Rightarrow> outcome answer" where
  "caught e r k =
     (case r of
        Inl (Structure x) \<Rightarrow> Inl (Crash (StructureFailed x))
      | Inl AmountMissing \<Rightarrow> Inl (Crash BasicMissing)
      | Inl _ \<Rightarrow> Inr (excluded e CALCULATION_ERROR)
      | Inr x \<Rightarrow> k x)"

definition compute_line_item ::
  "decimal_lib \<Rightarrow> employee_row \<Rightarrow> structure_row option \<Rightarrow> string \<Rightarrow> payroll_settings \<Rightarrow> int list \<Rightarrow> int set
    \<Rightarrow> (indian_state \<Rightarrow> pt_slab list) \<Rightarrow> int \<Rightarrow> number \<Rightarrow> number \<Rightarrow> tds_context \<Rightarrow> outcome answer" where
  "compute_line_item L emp structure period ps tenant_offs holidays slabs_of lop ot_hours shift_hrs ctx =
     (case work_state emp of
        None \<Rightarrow> Inr (excluded (emp_id emp) NO_WORK_STATE)
      | Some st \<Rightarrow>
     (case structure of
        None \<Rightarrow> Inr (excluded (emp_id emp) NO_SALARY_STRUCTURE)
      | Some str \<Rightarrow>
          let (start, end_excl) = month_range period;
              inclusive_end = end_excl - 1;
              offs = effective_weekly_off_days tenant_offs (Some (weekly_off_days_override emp));
              employed_from = (case date_of_joining emp of
                  Some d \<Rightarrow> if d > start then Some d else None | None \<Rightarrow> None);
              (wdays, payable) =
                compute_payable_days start inclusive_end holidays offs lop employed_from None
          in and_then (overtime_input_for L ps str wdays ot_hours shift_hrs) (\<lambda>ot.
             let input = calculator_input ps str (slabs_of st) (period_month period) wdays payable ot
             in caught (emp_id emp) (calculate_payroll L input) (\<lambda>provisional.
                and_then (month_tds L ctx (gross_earnings provisional)) (\<lambda>amount.
                caught (emp_id emp)
                  (if amount = 0 then Inr provisional
                   else calculate_payroll L (input\<lparr>tds := Some amount\<rparr>)) (\<lambda>r.
                Inr (LineItem (line_of_result L (emp_id emp) wdays payable lop r))))))))"

section \<open>Assembling a run\<close>

record assembly =
  as_items :: "line_compute list"
  as_exceptions :: "run_exception list"
  as_folded :: "id list"

definition payable_employee :: "employee_row \<Rightarrow> bool" where
  "payable_employee e \<longleftrightarrow> lifecycle e \<noteq> SEPARATED \<and> lifecycle e \<noteq> PRE_JOINING"

definition pending_arrears :: "payroll_db \<Rightarrow> id \<Rightarrow> arrears_row list" where
  "pending_arrears s e = filter (\<lambda>a. ar_employee a = e \<and> ar_status a = PENDING) (arrears s)"

definition fold_arrears :: "decimal_lib \<Rightarrow> arrears_row list \<Rightarrow> line_compute \<Rightarrow> line_compute" where
  "fold_arrears L as item =
     (if as = [] then item
      else item\<lparr>li_adjustments := map (\<lambda>a. \<lparr>adj_type = ''ARREARS'', adj_amount = to_number (ar_amount a),
                  adj_note = Some (''Salary revision arrears for '' @ ar_period a)\<rparr>) as,
                li_net_pay := dplus L (li_net_pay item) (dsum L (map ar_amount as))\<rparr>)"

definition employee_outcome ::
  "decimal_lib \<Rightarrow> period_facts \<Rightarrow> string \<Rightarrow> payroll_settings \<Rightarrow> (id \<rightharpoonup> tds_context) \<Rightarrow> payroll_db
    \<Rightarrow> employee_row \<Rightarrow> outcome answer" where
  "employee_outcome L facts period ps ctxs s emp =
     (let ot = pf_overtime_hours facts (emp_id emp);
          shift_hrs = (if ps_overtime_enabled ps \<and> ot > 0 then pf_shift_hours facts (emp_id emp) else 0)
      in case ctxs (emp_id emp) of
           None \<Rightarrow> Inl (Crash NoRegimeConfig)
         | Some ctx \<Rightarrow>
             compute_line_item L emp (find_active s (emp_id emp)) period ps (tenant_weekly_offs s)
               (pf_holidays facts) (state_slabs s) (pf_lop_days facts (emp_id emp)) ot shift_hrs ctx)"

definition add_employee ::
  "decimal_lib \<Rightarrow> (employee_row \<Rightarrow> outcome answer) \<Rightarrow> payroll_db \<Rightarrow> employee_row \<Rightarrow> assembly \<Rightarrow> assembly answer" where
  "add_employee L out s emp acc =
     and_then (out emp) (\<lambda>r.
       case r of
         Excluded x \<Rightarrow> Inr (acc\<lparr>as_exceptions := as_exceptions acc @ [x]\<rparr>)
       | LineItem item \<Rightarrow>
           let as = pending_arrears s (emp_id emp)
           in Inr (acc\<lparr>as_items := as_items acc @ [fold_arrears L as item],
                       as_folded := as_folded acc @ map ar_id as\<rparr>))"

definition assemble_line_items ::
  "decimal_lib \<Rightarrow> period_facts \<Rightarrow> string \<Rightarrow> payroll_db \<Rightarrow> (assembly \<times> payroll_db) answer" where
  "assemble_line_items L facts period s =
     (let (ps, s1) = get_settings s;
          emps = filter payable_employee (employees s1);
          (ctxs, s2) = build_context L facts (map emp_id emps) period s1
      in and_then
           (fold_res (add_employee L (employee_outcome L facts period ps ctxs s2) s2) emps
             \<lparr>as_items = [], as_exceptions = [], as_folded = []\<rparr>)
           (\<lambda>acc. Inr (acc\<lparr>as_exceptions := as_exceptions acc @
               (if pf_pending_regularizations facts > 0
                then [\<lparr>ex_employee = None, ex_type = PENDING_REGULARIZATIONS\<rparr>] else [])\<rparr>, s2)))"

section \<open>Runs and line items in the database\<close>

definition find_run :: "payroll_db \<Rightarrow> id \<Rightarrow> run_row option" where
  "find_run s r = find_row (\<lambda>x. run_id x = r) (runs s)"

definition get_run_or_throw :: "payroll_db \<Rightarrow> id \<Rightarrow> run_row answer" where
  "get_run_or_throw s r = (case find_run s r of None \<Rightarrow> Inl (NotFound RunMissing) | Some x \<Rightarrow> Inr x)"

definition set_run :: "id \<Rightarrow> (run_row \<Rightarrow> run_row) \<Rightarrow> payroll_db \<Rightarrow> payroll_db" where
  "set_run r f s = s\<lparr>runs := update_rows (\<lambda>x. run_id x = r) f (runs s)\<rparr>"

definition items_of :: "payroll_db \<Rightarrow> id \<Rightarrow> line_item list" where
  "items_of s r = filter (\<lambda>li. li_run li = r) (line_items s)"

definition find_item :: "payroll_db \<Rightarrow> id \<Rightarrow> id \<Rightarrow> line_item option" where
  "find_item s r e = find_row (\<lambda>li. li_run li = r \<and> li_employee li = e) (line_items s)"

text \<open>The trigger \<open>payroll_line_items_immutable\<close>: an update of an item of a finished run is rejected.\<close>

definition frozen :: "payroll_db \<Rightarrow> id \<Rightarrow> bool" where
  "frozen s r \<longleftrightarrow> (case find_run s r of None \<Rightarrow> False | Some x \<Rightarrow> finished (run_status x))"

definition write_items ::
  "(line_item \<Rightarrow> bool) \<Rightarrow> (line_item \<Rightarrow> line_item) \<Rightarrow> payroll_db \<Rightarrow> payroll_db answer" where
  "write_items p f s =
     (if \<exists>li \<in> set (line_items s). p li \<and> frozen s (li_run li) then Inl (Crash ItemImmutable)
      else Inr (s\<lparr>line_items := update_rows p f (line_items s)\<rparr>))"

text \<open>What the money columns of a line item hold after a write.\<close>

definition stored :: "'a line_compute_scheme \<Rightarrow> 'a line_compute_scheme" where
  "stored c = c\<lparr>li_gross := money_col (li_gross c), li_epf_employee := money_col (li_epf_employee c),
     li_epf_employer := money_col (li_epf_employer c), li_esi_employee := money_col (li_esi_employee c),
     li_esi_employer := money_col (li_esi_employer c),
     li_professional_tax := money_col (li_professional_tax c), li_tds := money_col (li_tds c),
     li_net_pay := money_col (li_net_pay c)\<rparr>"

definition item_row :: "id \<Rightarrow> line_compute \<Rightarrow> line_item" where
  "item_row r c = line_compute.extend (stored c) \<lparr>li_run = r, li_payslip_key = None\<rparr>"

fun status_text :: "run_status \<Rightarrow> string" where
  "status_text DRAFT = ''DRAFT''"
| "status_text REVIEW = ''REVIEW''"
| "status_text APPROVED = ''APPROVED''"
| "status_text PROCESSED = ''PROCESSED''"
| "status_text DISBURSED = ''DISBURSED''"

definition notify_status_change :: "id \<Rightarrow> run_status \<Rightarrow> payroll_db \<Rightarrow> payroll_db" where
  "notify_status_change r st =
     notify ''PAYROLL_RUN_STATUS_CHANGED'' (''payroll:'' @ r @ '':status:'' @ status_text st)"

section \<open>Creating a draft\<close>

record create_dto =
  cr_period :: string
  cr_is_reprocess :: bool
  cr_reason :: "string option"

definition regular_run_exists :: "string \<Rightarrow> payroll_db \<Rightarrow> bool" where
  "regular_run_exists period s \<longleftrightarrow>
     find_row (\<lambda>r. run_period r = period \<and> \<not> run_is_reprocess r) (runs s) \<noteq> None"

text \<open>The part before the transaction: the checks and the assembly.\<close>

definition create_begin ::
  "decimal_lib \<Rightarrow> period_facts \<Rightarrow> create_dto \<Rightarrow> auth_user \<Rightarrow> payroll_db \<Rightarrow> (assembly \<times> payroll_db) answer" where
  "create_begin L facts dto user s =
     and_then (assert_can_manage user) (\<lambda>_.
     and_then (assert_payroll_gate s) (\<lambda>_.
       if cr_is_reprocess dto \<and> (cr_reason dto = None \<or> cr_reason dto = Some [])
       then Inl (BadRequest ReasonRequired)
       else if \<not> cr_is_reprocess dto \<and> regular_run_exists (cr_period dto) s
       then Inl (Conflict (RunExists (cr_period dto)))
       else assemble_line_items L facts (cr_period dto) s))"

definition new_run :: "id \<Rightarrow> create_dto \<Rightarrow> auth_user \<Rightarrow> assembly \<Rightarrow> run_row" where
  "new_run r dto user as =
     \<lparr>run_id = r, run_period = cr_period dto, run_status = DRAFT,
      run_is_reprocess = cr_is_reprocess dto, run_reprocess_reason = cr_reason dto,
      run_prepared_by = sub user, run_exceptions = as_exceptions as,
      run_processed_at = None, run_disbursed_at = None\<rparr>"

text \<open>
  The transaction. A violated unique index (an identifier that is taken, or a second regular run
  of the period) is the error \<open>P2002\<close>, answered as a conflict.
\<close>

definition create_commit ::
  "bool \<Rightarrow> id \<Rightarrow> create_dto \<Rightarrow> auth_user \<Rightarrow> assembly \<Rightarrow> payroll_db \<Rightarrow> payroll_db answer" where
  "create_commit up r dto user as s =
     (if find_run s r \<noteq> None \<or> (\<not> cr_is_reprocess dto \<and> regular_run_exists (cr_period dto) s)
         \<or> \<not> distinct (map li_employee (as_items as))
      then Inl (Conflict (RunExists (cr_period dto)))
      else Inr (write_payroll_audit up user ''payroll.run_created'' ''payroll_run'' (Some r)
        (s\<lparr>runs := runs s @ [new_run r dto user as],
           line_items := line_items s @ map (item_row r) (as_items as),
           arrears := update_rows (\<lambda>a. ar_id a \<in> set (as_folded as))
             (\<lambda>a. a\<lparr>ar_status := FOLDED, ar_folded_into := Some r\<rparr>) (arrears s)\<rparr>)))"

definition create_draft ::
  "decimal_lib \<Rightarrow> bool \<Rightarrow> period_facts \<Rightarrow> id \<Rightarrow> create_dto \<Rightarrow> auth_user \<Rightarrow> payroll_db \<Rightarrow> payroll_db answer" where
  "create_draft L up facts r dto user s =
     and_then (create_begin L facts dto user s) (\<lambda>(as, s1). create_commit up r dto user as s1)"

section \<open>Recalculating and adjusting\<close>

definition adjustment_total :: "adjustment list \<Rightarrow> number" where
  "adjustment_total as = foldl (\<lambda>sum a. js_fl (sum + adj_amount a)) 0 as"

text \<open>The recomputed columns of an item: its adjustments are kept and added to the new net pay.\<close>

definition recomputed :: "decimal_lib \<Rightarrow> line_compute \<Rightarrow> line_item \<Rightarrow> line_item" where
  "recomputed L c item =
     stored (item\<lparr>li_snapshot := li_snapshot c, li_working_days := li_working_days c,
       li_payable_days := li_payable_days c, li_lop_days := li_lop_days c, li_gross := li_gross c,
       li_epf_employee := li_epf_employee c, li_epf_employer := li_epf_employer c,
       li_esi_employee := li_esi_employee c, li_esi_employer := li_esi_employer c,
       li_professional_tax := li_professional_tax c, li_tds := li_tds c,
       li_net_pay := dplus L (li_net_pay c) (of_number (adjustment_total (li_adjustments item)))\<rparr>)"

definition recompute_item ::
  "decimal_lib \<Rightarrow> (employee_row \<Rightarrow> outcome answer) \<Rightarrow> payroll_db \<Rightarrow> line_item \<Rightarrow> (id \<times> line_compute) answer" where
  "recompute_item L out s item =
     (case find_row (\<lambda>e. emp_id e = li_employee item) (employees s) of
        None \<Rightarrow> Inl (Conflict EmployeeMissing)
      | Some emp \<Rightarrow>
          and_then (out emp) (\<lambda>r.
            case r of
              Excluded x \<Rightarrow> Inl (Conflict (RecalculationFailed (li_employee item) x))
            | LineItem c \<Rightarrow> Inr (li_employee item, c)))"

definition recalculate ::
  "decimal_lib \<Rightarrow> bool \<Rightarrow> period_facts \<Rightarrow> id \<Rightarrow> auth_user \<Rightarrow> payroll_db \<Rightarrow> payroll_db answer" where
  "recalculate L up facts r user s =
     and_then (assert_can_manage user) (\<lambda>_.
     and_then (get_run_or_throw s r) (\<lambda>run.
       if run_status run \<noteq> DRAFT \<and> run_status run \<noteq> REVIEW then Inl (Conflict (WrongStatus (run_status run)))
       else
         let items = items_of s r;
             (ps, s1) = get_settings s;
             emps = filter (\<lambda>e. emp_id e \<in> li_employee ` set items) (employees s1);
             (ctxs, s2) = build_context L facts (map emp_id emps) (run_period run) s1
         in and_then (map_res (recompute_item L (employee_outcome L facts (run_period run) ps ctxs s2) s2) items)
            (\<lambda>updates.
              and_then (write_items (\<lambda>li. li_run li = r)
                 (\<lambda>li. case map_of updates (li_employee li) of
                         None \<Rightarrow> li | Some c \<Rightarrow> recomputed L c li) s2)
               (\<lambda>s3. Inr (write_payroll_audit up user ''payroll.run_recalculated'' ''payroll_run'' (Some r) s3)))))"

definition base_net :: "decimal_lib \<Rightarrow> line_item \<Rightarrow> decimal" where
  "base_net L item =
     dminus L (dminus L (dminus L (dminus L (li_gross item) (li_epf_employee item)) (li_esi_employee item))
       (li_professional_tax item)) (li_tds item)"

definition set_line_item_adjustments ::
  "decimal_lib \<Rightarrow> bool \<Rightarrow> id \<Rightarrow> id \<Rightarrow> adjustment list \<Rightarrow> auth_user \<Rightarrow> payroll_db \<Rightarrow> payroll_db answer" where
  "set_line_item_adjustments L up r e adjustments user s =
     and_then (assert_can_manage user) (\<lambda>_.
     and_then (get_run_or_throw s r) (\<lambda>run.
       if run_status run \<noteq> DRAFT \<and> run_status run \<noteq> REVIEW then Inl (Conflict (WrongStatus (run_status run)))
       else case find_item s r e of
              None \<Rightarrow> Inl (NotFound ItemMissing)
            | Some item \<Rightarrow>
                and_then (write_items (\<lambda>li. li_run li = r \<and> li_employee li = e)
                   (\<lambda>li. li\<lparr>li_adjustments := adjustments,
                            li_net_pay := money_col (dplus L (base_net L item)
                              (of_number (adjustment_total adjustments)))\<rparr>) s)
                 (\<lambda>s1. Inr (write_payroll_audit up user ''payroll.line_item_adjusted'' ''employee'' (Some e) s1))))"

section \<open>Review, approval, processing, disbursement\<close>

definition submit_for_review :: "bool \<Rightarrow> id \<Rightarrow> auth_user \<Rightarrow> payroll_db \<Rightarrow> payroll_db answer" where
  "submit_for_review up r user s =
     and_then (assert_can_manage user) (\<lambda>_.
     and_then (get_run_or_throw s r) (\<lambda>run.
       if run_status run \<noteq> DRAFT then Inl (Conflict (WrongStatus (run_status run)))
       else Inr (notify_status_change r REVIEW
         (write_payroll_audit up user ''payroll.run_submitted_for_review'' ''payroll_run'' (Some r)
           (set_run r (\<lambda>x. x\<lparr>run_status := REVIEW\<rparr>) s)))))"

definition approval_count :: "payroll_db \<Rightarrow> id \<Rightarrow> nat" where
  "approval_count s r = length (filter (\<lambda>a. ap_run a = r) (approvals s))"

definition approve :: "bool \<Rightarrow> id \<Rightarrow> auth_user \<Rightarrow> payroll_db \<Rightarrow> payroll_db answer" where
  "approve up r user s =
     and_then (assert_can_manage user) (\<lambda>_.
     and_then (assert_payroll_gate s) (\<lambda>_.
     and_then (get_run_or_throw s r) (\<lambda>run.
       if run_status run \<noteq> REVIEW then Inl (Conflict (WrongStatus (run_status run)))
       else
         let s1 = s\<lparr>approvals := upsert_row (\<lambda>a. ap_run a = r \<and> ap_approver a = sub user) id
                      \<lparr>ap_run = r, ap_approver = sub user\<rparr> (approvals s)\<rparr>
         in Inr (if approval_count s1 r \<ge> 2
                 then notify_status_change r APPROVED
                   (write_payroll_audit up user ''payroll.run_approved'' ''payroll_run'' (Some r)
                     (set_run r (\<lambda>x. x\<lparr>run_status := APPROVED\<rparr>) s1))
                 else write_payroll_audit up user ''payroll.run_approval_recorded'' ''payroll_run'' (Some r) s1))))"

definition has_dob :: "payroll_db \<Rightarrow> line_item \<Rightarrow> bool" where
  "has_dob s item =
     (case find_row (\<lambda>e. emp_id e = li_employee item) (employees s) of
        None \<Rightarrow> False | Some e \<Rightarrow> date_of_birth e \<noteq> None)"

definition process ::
  "bool \<Rightarrow> date \<Rightarrow> (id \<Rightarrow> string) \<Rightarrow> (id \<Rightarrow> bool) \<Rightarrow> id \<Rightarrow> auth_user \<Rightarrow> payroll_db \<Rightarrow> payroll_db answer" where
  "process up now key_of uploaded r user s =
     and_then (assert_can_manage user) (\<lambda>_.
     and_then (get_run_or_throw s r) (\<lambda>run.
       if run_status run \<noteq> APPROVED then Inl (Conflict (WrongStatus (run_status run)))
       else
         let items = items_of s r;
             missing = map (\<lambda>li. \<lparr>ex_employee = Some (li_employee li), ex_type = NO_DOB_FOR_PAYSLIP\<rparr>)
                         (filter (\<lambda>li. \<not> has_dob s li) items);
             targets = filter (has_dob s) items
         in if \<exists>li \<in> set targets. \<not> uploaded (li_employee li) then Inl (Crash UploadFailed)
            else and_then (write_items (\<lambda>li. li_run li = r \<and> has_dob s li)
                   (\<lambda>li. li\<lparr>li_payslip_key := Some (key_of (li_employee li))\<rparr>) s) (\<lambda>s1.
              let s2 = set_run r (\<lambda>x. x\<lparr>run_status := PROCESSED, run_processed_at := Some now,
                         run_exceptions := run_exceptions run @ missing\<rparr>) s1;
                  s3 = write_payroll_audit up user ''payroll.run_processed'' ''payroll_run'' (Some r) s2;
                  s4 = notify_status_change r PROCESSED s3
              in Inr (foldl (\<lambda>t li. notify ''PAYSLIP_READY''
                    (''payroll:'' @ r @ '':payslip:'' @ li_employee li) t) s4 targets))))"

definition disburse :: "bool \<Rightarrow> date \<Rightarrow> id \<Rightarrow> auth_user \<Rightarrow> payroll_db \<Rightarrow> payroll_db answer" where
  "disburse up now r user s =
     and_then (assert_can_manage user) (\<lambda>_.
     and_then (get_run_or_throw s r) (\<lambda>run.
       if run_status run \<noteq> PROCESSED then Inl (Conflict (WrongStatus (run_status run)))
       else Inr (notify_status_change r DISBURSED
         (write_payroll_audit up user ''payroll.run_disbursed'' ''payroll_run'' (Some r)
           (set_run r (\<lambda>x. x\<lparr>run_status := DISBURSED, run_disbursed_at := Some now\<rparr>) s)))))"

section \<open>Reading\<close>

definition get_payslip_key :: "id \<Rightarrow> string \<Rightarrow> auth_user \<Rightarrow> payroll_db \<Rightarrow> string answer" where
  "get_payslip_key e period user s =
     (if \<not> can_manage user \<and> user_employee user \<noteq> Some e then Inl (Forbidden NotAuthorized)
      else case find_row (\<lambda>r. run_period r = period \<and> finished (run_status r)) (rev (runs s)) of
             None \<Rightarrow> Inl (NotFound NoProcessedRun)
           | Some run \<Rightarrow>
               (case find_item s (run_id run) e of
                  None \<Rightarrow> Inl (NotFound NoPayslip)
                | Some item \<Rightarrow>
                    (case li_payslip_key item of None \<Rightarrow> Inl (NotFound NoPayslip) | Some k \<Rightarrow> Inr k)))"

text \<open>What an auditor sees of a run, and what a manager sees.\<close>

datatype run_view =
    AuditorView id string run_status bool "string option" "date option" "date option" "id list" nat nat
  | ManagerView run_row "approval_row list" "line_item list"

definition get_run :: "id \<Rightarrow> auth_user \<Rightarrow> payroll_db \<Rightarrow> run_view answer" where
  "get_run r user s =
     (case find_run s r of
        None \<Rightarrow> Inl (NotFound RunMissing)
      | Some run \<Rightarrow>
          let aps = filter (\<lambda>a. ap_run a = r) (approvals s); items = items_of s r
          in if user_role user = AUDITOR
             then Inr (AuditorView (run_id run) (run_period run) (run_status run) (run_is_reprocess run)
                    (run_reprocess_reason run) (run_processed_at run) (run_disbursed_at run)
                    (map ap_approver aps) (length items) (length (run_exceptions run)))
             else if \<not> can_manage user then Inl (Forbidden NotAuthorized)
             else Inr (ManagerView run aps items))"

record run_summary =
  rs_run :: run_row
  rs_approvals :: nat
  rs_items :: nat
  rs_exceptions :: nat
  rs_net_total :: string
  rs_gross_total :: string
  rs_employer_cost :: string

definition summarize_run :: "decimal_lib \<Rightarrow> payroll_db \<Rightarrow> run_row \<Rightarrow> run_summary" where
  "summarize_run L s run =
     (let items = items_of s (run_id run); total = (\<lambda>f. sum_list (map f items)); gross = total li_gross
      in \<lparr>rs_run = run, rs_approvals = approval_count s (run_id run), rs_items = length items,
          rs_exceptions = length (run_exceptions run), rs_net_total = to_fixed_2 (total li_net_pay),
          rs_gross_total = to_fixed_2 gross,
          rs_employer_cost =
            to_fixed_2 (dplus L (dplus L gross (total li_epf_employer)) (total li_esi_employer))\<rparr>)"

text \<open>Newest period first, newest run of a period first, at most a hundred.\<close>

definition list_runs :: "decimal_lib \<Rightarrow> payroll_db \<Rightarrow> run_summary list" where
  "list_runs L s = map (summarize_run L s) (take 100 (rev (sort_key run_period (runs s))))"

end
