(* ===== verification/SalaryStructure.thy ===== *)
theory SalaryStructure
  imports PayrollRun
begin

text \<open>
  \<open>SalaryStructureService\<close> (\<open>apps/api/src/payroll/salary-structure.service.ts\<close>): an employee's one
  active salary structure, its edits, and revisions that supersede it and leave arrears for the
  periods already paid. A creation is split at its insert, so that two creations may overlap; the
  partial unique index on active structures decides. New identifiers are arguments. A handler
  answers the new state; what it returns to the client is \<open>to_response\<close> of the structure it stored.
\<close>

section \<open>Requests\<close>

record structure_dto =
  sd_ctc_annual :: decimal
  sd_effective_from :: string
  sd_components :: "component_dto list"
  sd_reason :: "string option"

text \<open>\<open>new Date\<close> of a \<open>YYYY-MM-DD\<close> text is that day's midnight, UTC.\<close>

definition day_of_text :: "string \<Rightarrow> date" where
  "day_of_text t = date_utc (period_year t) (period_month t - 1) (digits_value (take 2 (drop 8 t)))"

text \<open>\<open>effectiveFrom.slice(0, 7)\<close>\<close>

definition effective_period :: "string \<Rightarrow> string" where
  "effective_period t = take 7 t"

section \<open>Reading\<close>

definition assert_can_read_structure :: "auth_user \<Rightarrow> id \<Rightarrow> unit answer" where
  "assert_can_read_structure user e =
     (if can_manage user \<or> (user_role user = EMPLOYEE \<and> user_employee user = Some e) then Inr ()
      else Inl (Forbidden NotAuthorized))"

definition ordered_components :: "structure_row \<Rightarrow> normalized_component list" where
  "ordered_components st = sort_key nc_sort (st_components st)"

record structure_view =
  sv_structure :: structure_row
  sv_monthly_ctc :: decimal
  sv_basic_percent :: "decimal option"
  sv_amounts :: "(normalized_component \<times> decimal) list"

definition to_response :: "decimal_lib \<Rightarrow> structure_row \<Rightarrow> structure_view answer" where
  "to_response L st =
     (case resolve_monthly_amounts L (map component_input.truncate (ordered_components st)) (st_ctc_annual st) of
        Inl e \<Rightarrow> Inl (Crash (StructureFailed e))
      | Inr amounts \<Rightarrow>
          let monthly_ctc = ddiv L (st_ctc_annual st) 12;
              amount = (\<lambda>code. case amounts code of None \<Rightarrow> Inl (Crash BasicMissing) | Some a \<Rightarrow> Inr a)
          in and_then (if monthly_ctc = 0 then Inr None
                       else and_then (amount BASIC_CODE)
                         (\<lambda>b. Inr (Some (places L 2 (dtimes L (ddiv L b monthly_ctc) 100))))) (\<lambda>percent.
             and_then (map_res (\<lambda>c. and_then (amount (ci_code c)) (\<lambda>a. Inr (c, places L 2 a)))
               (ordered_components st)) (\<lambda>amts.
             Inr \<lparr>sv_structure = st, sv_monthly_ctc = monthly_ctc, sv_basic_percent = percent,
                  sv_amounts = amts\<rparr>)))"

definition get_structure :: "decimal_lib \<Rightarrow> id \<Rightarrow> auth_user \<Rightarrow> payroll_db \<Rightarrow> structure_view answer" where
  "get_structure L e user s =
     and_then (assert_can_read_structure user e) (\<lambda>_.
     and_then (assert_employee_exists s e) (\<lambda>_.
     case find_active s e of None \<Rightarrow> Inl (NotFound NoStructure) | Some st \<Rightarrow> to_response L st))"

section \<open>Creating\<close>

text \<open>The columns: CTC has two places, component values four.\<close>

definition stored_component :: "normalized_component \<Rightarrow> normalized_component" where
  "stored_component c = c\<lparr>ci_value := map_option (half_up_places 4) (ci_value c)\<rparr>"

definition new_structure :: "id \<Rightarrow> id \<Rightarrow> decimal \<Rightarrow> date \<Rightarrow> normalized_component list \<Rightarrow> structure_row" where
  "new_structure sid e ctc from cs =
     \<lparr>st_id = sid, st_employee = e, st_ctc_annual = money_col ctc, st_effective_from = from,
      st_status = ACTIVE, st_components = map stored_component cs\<rparr>"

definition validated ::
  "decimal_lib \<Rightarrow> structure_dto \<Rightarrow> payroll_settings \<Rightarrow> normalized_component list answer" where
  "validated L dto ps =
     (case normalize_and_validate_components L (sd_components dto) (sd_ctc_annual dto) (ps_min_basic_percent ps) of
        Inl (BadRequest e) \<Rightarrow> Inl (BadRequest (Invalid e))
      | Inl _ \<Rightarrow> Inl (Crash BasicMissing)
      | Inr cs \<Rightarrow> Inr cs)"

definition create_structure_begin ::
  "decimal_lib \<Rightarrow> id \<Rightarrow> structure_dto \<Rightarrow> payroll_db \<Rightarrow> (normalized_component list \<times> payroll_db) answer" where
  "create_structure_begin L e dto s =
     and_then (assert_employee_exists s e) (\<lambda>_.
     if find_active s e \<noteq> None then Inl (Conflict StructureExists)
     else let (ps, s1) = get_settings s in and_then (validated L dto ps) (\<lambda>cs. Inr (cs, s1)))"

definition create_structure_commit ::
  "bool \<Rightarrow> id \<Rightarrow> id \<Rightarrow> structure_dto \<Rightarrow> normalized_component list \<Rightarrow> auth_user \<Rightarrow> payroll_db \<Rightarrow> payroll_db answer" where
  "create_structure_commit up sid e dto cs user s =
     (if find_row (\<lambda>r. st_id r = sid) (structures s) \<noteq> None \<or> find_active s e \<noteq> None
      then Inl (Conflict StructureExists)
      else Inr (write_payroll_audit up user ''payroll.salary_structure_created'' ''employee'' (Some e)
        (s\<lparr>structures := structures s @
            [new_structure sid e (sd_ctc_annual dto) (day_of_text (sd_effective_from dto)) cs]\<rparr>)))"

definition create_structure ::
  "decimal_lib \<Rightarrow> bool \<Rightarrow> id \<Rightarrow> id \<Rightarrow> structure_dto \<Rightarrow> auth_user \<Rightarrow> payroll_db \<Rightarrow> payroll_db answer" where
  "create_structure L up sid e dto user s =
     and_then (create_structure_begin L e dto s) (\<lambda>(cs, s1). create_structure_commit up sid e dto cs user s1)"

section \<open>Revising\<close>

text \<open>The items of finished regular runs from the effective period on, by period.\<close>

definition find_affected_line_items :: "payroll_db \<Rightarrow> id \<Rightarrow> string \<Rightarrow> (run_row \<times> line_item) list" where
  "find_affected_line_items s e period =
     sort_key (\<lambda>(run, _). run_period run)
       (concat (map (\<lambda>li. case find_run s (li_run li) of
            None \<Rightarrow> []
          | Some run \<Rightarrow>
              if li_employee li = e \<and> \<not> run_is_reprocess run \<and> finished (run_status run) \<and> period \<le> run_period run
              then [(run, li)] else []) (line_items s)))"

definition arrears_input ::
  "payroll_settings \<Rightarrow> pt_slab list \<Rightarrow> normalized_component list \<Rightarrow> decimal \<Rightarrow> run_row \<times> line_item
    \<Rightarrow> calculation_input" where
  "arrears_input ps slabs cs ctc = (\<lambda>(run, item).
     \<lparr>components = map calculator_component.truncate cs, ctc_annual = ctc,
      working_days = of_int (li_working_days item), payable_days = of_int (li_payable_days item),
      epf = ps_epf ps, esi = ps_esi ps, pt_slabs = slabs, month = period_month (run_period run),
      overtime = None, tds = None, allow_negative_net = True\<rparr>)"

definition uncaught :: "('c, 'a) result \<Rightarrow> ('c \<Rightarrow> payroll_msg) \<Rightarrow> 'a answer" where
  "uncaught r f = (case r of Inl c \<Rightarrow> Inl (Crash (f c)) | Inr a \<Rightarrow> Inr a)"

definition arrears_of ::
  "decimal_lib \<Rightarrow> payroll_settings \<Rightarrow> pt_slab list \<Rightarrow> structure_row \<Rightarrow> normalized_component list \<Rightarrow> decimal
    \<Rightarrow> id \<Rightarrow> (id \<Rightarrow> id) \<Rightarrow> run_row \<times> line_item \<Rightarrow> arrears_row answer" where
  "arrears_of L ps slabs active cs ctc rid aid item =
     and_then (uncaught (calculate_payroll L
        (arrears_input ps slabs (ordered_components active) (st_ctc_annual active) item)) NotCalculable) (\<lambda>previous.
     and_then (uncaught (calculate_payroll L (arrears_input ps slabs cs ctc item)) NotCalculable) (\<lambda>revised.
     Inr \<lparr>ar_id = aid (run_id (fst item)), ar_employee = st_employee active, ar_revision = rid,
          ar_period = run_period (fst item), ar_original_run = run_id (fst item),
          ar_previous_net = money_col (net_pay previous), ar_revised_net = money_col (net_pay revised),
          ar_amount = money_col (dminus L (net_pay revised) (net_pay previous)),
          ar_status = PENDING, ar_folded_into = None\<rparr>))"

text \<open>
  The transaction of a revision. The primary key and the partial unique index on active structures
  reject it when the identifier is taken or, after the old structure is superseded, the employee
  has another active one (a revision that overlapped with this one).
\<close>

definition superseded :: "id \<Rightarrow> payroll_db \<Rightarrow> structure_row table" where
  "superseded sid s = update_rows (\<lambda>r. st_id r = sid) (\<lambda>r. r\<lparr>st_status := SUPERSEDED\<rparr>) (structures s)"

definition active_in :: "id \<Rightarrow> structure_row table \<Rightarrow> bool" where
  "active_in e t \<longleftrightarrow> (\<exists>r \<in> set t. st_employee r = e \<and> st_status r = ACTIVE)"

definition apply_revision ::
  "decimal_lib \<Rightarrow> bool \<Rightarrow> id \<Rightarrow> id \<Rightarrow> (id \<Rightarrow> id) \<Rightarrow> id \<Rightarrow> structure_row \<Rightarrow> normalized_component list \<Rightarrow> decimal
    \<Rightarrow> date \<Rightarrow> string \<Rightarrow> auth_user \<Rightarrow> (run_row \<times> line_item) list \<Rightarrow> payroll_db \<Rightarrow> payroll_db answer" where
  "apply_revision L up rid sid aid e active cs ctc date reason user affected s =
     (let (ps, s1) = get_settings s
      in case find_row (\<lambda>r. emp_id r = e) (employees s1) of
           None \<Rightarrow> Inl (Crash EmployeeMissing)
         | Some emp \<Rightarrow>
             let slabs = (case work_state emp of None \<Rightarrow> [] | Some st \<Rightarrow> state_slabs s1 st)
             in and_then (map_res (arrears_of L ps slabs active cs ctc rid aid) affected) (\<lambda>new_arrears.
                let old = superseded (st_id active) s1
                in if find_row (\<lambda>r. st_id r = sid) old \<noteq> None \<or> active_in e old
                   then Inl (Crash StructureExists)
                   else Inr (write_payroll_audit up user ''payroll.salary_structure_revised'' ''employee'' (Some e)
                     (s1\<lparr>structures := old @ [new_structure sid e ctc date cs],
                         revisions := revisions s1 @
                           [\<lparr>rev_id = rid, rev_employee = e, rev_previous_structure = st_id active,
                             rev_new_structure = sid, rev_effective_date = date, rev_reason = reason,
                             rev_approved_by = sub user\<rparr>],
                         arrears := arrears s1 @ new_arrears\<rparr>))))"

text \<open>The plain edit of a structure no finished run has used.\<close>

definition edit_in_place ::
  "bool \<Rightarrow> id \<Rightarrow> structure_row \<Rightarrow> structure_dto \<Rightarrow> normalized_component list \<Rightarrow> auth_user \<Rightarrow> payroll_db \<Rightarrow> payroll_db" where
  "edit_in_place up e active dto cs user s =
     write_payroll_audit up user ''payroll.salary_structure_updated'' ''employee'' (Some e)
       (s\<lparr>structures := update_rows (\<lambda>r. st_id r = st_id active)
           (\<lambda>r. r\<lparr>st_ctc_annual := money_col (sd_ctc_annual dto),
                  st_effective_from := day_of_text (sd_effective_from dto),
                  st_components := map stored_component cs\<rparr>) (structures s)\<rparr>)"

definition AUTO_UPGRADED :: string where
  "AUTO_UPGRADED = ''Auto-upgraded from a plain structure update because it affects already-processed periods.''"

definition update_structure ::
  "decimal_lib \<Rightarrow> bool \<Rightarrow> id \<Rightarrow> id \<Rightarrow> (id \<Rightarrow> id) \<Rightarrow> id \<Rightarrow> structure_dto \<Rightarrow> auth_user \<Rightarrow> payroll_db \<Rightarrow> payroll_db answer" where
  "update_structure L up rid sid aid e dto user s =
     and_then (assert_employee_exists s e) (\<lambda>_.
     case find_active s e of
       None \<Rightarrow> Inl (NotFound NoStructure)
     | Some active \<Rightarrow>
         let (ps, s1) = get_settings s
         in and_then (validated L dto ps) (\<lambda>cs.
              let affected = find_affected_line_items s1 e (effective_period (sd_effective_from dto))
              in if affected \<noteq> []
                 then apply_revision L up rid sid aid e active cs (sd_ctc_annual dto)
                        (day_of_text (sd_effective_from dto))
                        (case sd_reason dto of None \<Rightarrow> AUTO_UPGRADED | Some r \<Rightarrow> r) user affected s1
                 else Inr (edit_in_place up e active dto cs user s1)))"

definition revise_structure ::
  "decimal_lib \<Rightarrow> bool \<Rightarrow> id \<Rightarrow> id \<Rightarrow> (id \<Rightarrow> id) \<Rightarrow> id \<Rightarrow> structure_dto \<Rightarrow> auth_user \<Rightarrow> payroll_db \<Rightarrow> payroll_db answer" where
  "revise_structure L up rid sid aid e dto user s =
     and_then (assert_employee_exists s e) (\<lambda>_.
     case find_active s e of
       None \<Rightarrow> Inl (NotFound NoStructure)
     | Some active \<Rightarrow>
         let (ps, s1) = get_settings s
         in and_then (validated L dto ps) (\<lambda>cs.
              apply_revision L up rid sid aid e active cs (sd_ctc_annual dto)
                (day_of_text (sd_effective_from dto)) (case sd_reason dto of None \<Rightarrow> [] | Some r \<Rightarrow> r) user
                (find_affected_line_items s1 e (effective_period (sd_effective_from dto))) s1))"

section \<open>One active structure\<close>

inductive structure_step :: "payroll_db \<Rightarrow> payroll_db \<Rightarrow> bool" where
  ss_other: "structures s' = structures s \<Longrightarrow> structure_step s s'"
| ss_create: "create_structure_commit up sid e dto cs user s = Inr s' \<Longrightarrow> structure_step s s'"
| ss_revise: "apply_revision L up rid sid aid e active cs ctc date reason user affected s = Inr s' \<Longrightarrow>
    structure_step s s'"
| ss_edit: "structure_step s (edit_in_place up e active dto cs user s)"

inductive_cases structure_stepE: "structure_step s s'"

definition actives :: "structure_row table \<Rightarrow> structure_row table" where
  "actives t = filter (\<lambda>r. st_status r = ACTIVE) t"

definition structures_ok :: "structure_row table \<Rightarrow> bool" where
  "structures_ok t \<longleftrightarrow> unique_key st_id t \<and> unique_key st_employee (actives t)"

lemma actives_update:
  assumes "\<And>r. st_status (f r) = st_status r \<or> st_status (f r) = SUPERSEDED"
    and "\<And>r. st_employee (f r) = st_employee r"
  shows "st_employee ` set (actives (update_rows p f t)) \<subseteq> st_employee ` set (actives t)
    \<and> (distinct (map st_employee (actives t)) \<longrightarrow> distinct (map st_employee (actives (update_rows p f t))))"
proof (induction t)
  case (Cons r t)
  then show ?case using assms(1) [of r] assms(2) [of r] by (auto simp: actives_def)
qed (simp add: actives_def)

lemma structures_ok_update:
  assumes "structures_ok t" and "\<And>r. st_status (f r) = st_status r \<or> st_status (f r) = SUPERSEDED"
    and "\<And>r. st_employee (f r) = st_employee r" and "\<And>r. st_id (f r) = st_id r"
  shows "structures_ok (update_rows p f t)"
proof -
  have "unique_key st_id (update_rows p f t)"
    using assms(1,4) by (simp add: structures_ok_def unique_key_update)
  moreover have "unique_key st_employee (actives (update_rows p f t))"
    using actives_update [of f p t, OF assms(2,3)] assms(1) by (simp add: structures_ok_def unique_key_def)
  ultimately show ?thesis by (simp add: structures_ok_def)
qed

lemma structures_ok_append:
  assumes "structures_ok t" and "find_row (\<lambda>r. st_id r = sid) t = None" and "\<not> active_in e t"
  shows "structures_ok (t @ [new_structure sid e ctc date cs])"
  using assms by (auto simp: structures_ok_def unique_key_append1 actives_def new_structure_def active_in_def)

lemma apply_revision_Inr:
  assumes "apply_revision L up rid sid aid e active cs ctc date reason user affected s = Inr s'"
  obtains emp new_arrears where "find_row (\<lambda>r. emp_id r = e) (employees s) = Some emp"
    "map_res (arrears_of L (fst (get_settings s))
        (case work_state emp of None \<Rightarrow> [] | Some st \<Rightarrow> state_slabs (snd (get_settings s)) st)
        active cs ctc rid aid) affected = Inr new_arrears"
    "find_row (\<lambda>r. st_id r = sid) (superseded (st_id active) s) = None"
    "\<not> active_in e (superseded (st_id active) s)"
    "structures s' = superseded (st_id active) s @ [new_structure sid e ctc date cs]"
    "arrears s' = arrears s @ new_arrears"
    "revisions s' = revisions s @ [\<lparr>rev_id = rid, rev_employee = e, rev_previous_structure = st_id active,
        rev_new_structure = sid, rev_effective_date = date, rev_reason = reason, rev_approved_by = sub user\<rparr>]"
    "runs s' = runs s" "line_items s' = line_items s"
proof -
  let ?s1 = "snd (get_settings s)"
  have old: "superseded i ?s1 = superseded i s" for i by (simp add: superseded_def)
  from assms obtain emp where emp: "find_row (\<lambda>r. emp_id r = e) (employees s) = Some emp"
    by (cases "find_row (\<lambda>r. emp_id r = e) (employees s)")
      (simp_all add: apply_revision_def split_def Let_def del: find_row_None)
  show thesis
    using assms that [OF emp]
    by (auto simp: apply_revision_def split_def Let_def emp old and_then_Inr_iff split: if_splits)
qed

lemma step_structures_ok:
  assumes "structure_step s s'" and "structures_ok (structures s)"
  shows "structures_ok (structures s')"
  using assms(1)
proof (cases rule: structure_step.cases)
  case ss_other
  with assms(2) show ?thesis by simp
next
  case (ss_create up sid e dto cs user)
  then have "structures s' = structures s @ [new_structure sid e (sd_ctc_annual dto) (day_of_text (sd_effective_from dto)) cs]"
    "find_row (\<lambda>r. st_id r = sid) (structures s) = None" "\<not> active_in e (structures s)"
    by (auto simp: create_structure_commit_def active_in_def find_active_def split: if_splits)
  with assms(2) structures_ok_append show ?thesis by simp
next
  case (ss_revise L up rid sid aid e active cs ctc date reason user affected)
  have "structures_ok (superseded (st_id active) s)"
    unfolding superseded_def by (rule structures_ok_update [OF assms(2)]) simp_all
  moreover from ss_revise have "find_row (\<lambda>r. st_id r = sid) (superseded (st_id active) s) = None
      \<and> \<not> active_in e (superseded (st_id active) s)
      \<and> structures s' = superseded (st_id active) s @ [new_structure sid e ctc date cs]"
    by (rule apply_revision_Inr) blast
  ultimately show ?thesis using structures_ok_append by simp
next
  case (ss_edit up e active dto cs user)
  show ?thesis unfolding ss_edit(1) edit_in_place_def
    by (simp, rule structures_ok_update [OF assms(2)]) simp_all
qed

end
