(* ===== verification/Lifecycle.thy ===== *)
theory Lifecycle
  imports Prelude
begin

text \<open>
  The contract of a linear life cycle: a step relation on a state that gives things a status, and a
  rank on the statuses that no step lowers or raises by more than one. Payroll runs and full and
  final settlements are its two instances.
\<close>

section \<open>Linear life cycles\<close>

locale status_machine =
  fixes step :: "'s \<Rightarrow> 's \<Rightarrow> bool" and status_of :: "'s \<Rightarrow> 'k \<Rightarrow> 'st option" and rank :: "'st \<Rightarrow> nat"
  assumes advance: "step s s' \<Longrightarrow> status_of s k = Some a \<Longrightarrow>
    \<exists>b. status_of s' k = Some b \<and> rank a \<le> rank b \<and> rank b \<le> Suc (rank a)"
begin

lemma never_back:
  assumes "step\<^sup>*\<^sup>* s s'" and "status_of s k = Some a"
  shows "\<exists>b. status_of s' k = Some b \<and> rank a \<le> rank b"
  using assms
proof (induction rule: rtranclp_induct)
  case (step t u)
  then obtain b where b: "status_of t k = Some b" "rank a \<le> rank b" by blast
  from advance [OF step.hyps(2) b(1)] b(2) show ?case using order_trans by blast
qed auto

text \<open>No status is skipped: between two ranks every rank in between is passed.\<close>

lemma no_skip:
  assumes "step\<^sup>*\<^sup>* s s'" and "status_of s k = Some a" and "status_of s' k = Some c"
    and "rank a \<le> n" and "n \<le> rank c"
  shows "\<exists>t b. step\<^sup>*\<^sup>* s t \<and> step\<^sup>*\<^sup>* t s' \<and> status_of t k = Some b \<and> rank b = n"
  using assms(1,3,5)
proof (induction arbitrary: c rule: rtranclp_induct)
  case base
  with assms(2,4) show ?case by auto
next
  case (step t u)
  obtain b where b: "status_of t k = Some b" using never_back [OF step.hyps(1) assms(2)] by blast
  with advance [OF step.hyps(2)] step.prems(1) have le: "rank c \<le> Suc (rank b)" by force
  show ?case
  proof (cases "n \<le> rank b")
    case True
    from step.IH [OF b this] obtain v d where "step\<^sup>*\<^sup>* s v" "step\<^sup>*\<^sup>* v t"
      "status_of v k = Some d" "rank d = n" by blast
    moreover from this(2) have "step\<^sup>*\<^sup>* v u" using step.hyps(2) by (rule rtranclp.rtrancl_into_rtrancl)
    ultimately show ?thesis by blast
  next
    case False
    with le step.prems(2) have "rank c = n" by simp
    moreover have "step\<^sup>*\<^sup>* s u" using step.hyps by (rule rtranclp.rtrancl_into_rtrancl)
    ultimately show ?thesis using step.prems(1) by blast
  qed
qed

end

section \<open>Closed states\<close>

text \<open>The contract of a life cycle in which some statuses, once reached, are never left for others.\<close>

locale absorbing_states =
  fixes step :: "'s \<Rightarrow> 's \<Rightarrow> bool" and status_of :: "'s \<Rightarrow> 'k \<Rightarrow> 'st option" and closed :: "'st \<Rightarrow> bool"
  assumes stays: "step s s' \<Longrightarrow> status_of s k = Some a \<Longrightarrow> closed a \<Longrightarrow>
    \<exists>b. status_of s' k = Some b \<and> closed b"
begin

lemma closed_forever:
  assumes "step\<^sup>*\<^sup>* s s'" and "status_of s k = Some a" and "closed a"
  shows "\<exists>b. status_of s' k = Some b \<and> closed b"
  using assms by (induction rule: rtranclp_induct) (auto dest: stays)

end

end
