(* ===== verification/RunLifecycle.thy ===== *)
theory RunLifecycle
  imports PayrollRun Lifecycle
begin

text \<open>
  The life cycle of payroll runs as a step relation: every request of \<open>PayrollRunService\<close>, with the
  creation of a draft split at its transaction so that two creations may overlap, and any change
  other modules make to the rest of the tenant's data. The theorems state the invariants of the
  module: a linear status, two distinct approvers (INV-1), one regular run a period, frozen line
  items (INV-2) and the payroll gate (INV-4).
\<close>

section \<open>Steps\<close>

type_synonym pending = "id \<times> create_dto \<times> auth_user \<times> assembly"
type_synonym payroll_system = "payroll_db \<times> pending list"

inductive payroll_step :: "payroll_system \<Rightarrow> payroll_system \<Rightarrow> bool" where
  ps_other: "runs s' = runs s \<Longrightarrow> approvals s' = approvals s \<Longrightarrow> line_items s' = line_items s \<Longrightarrow>
    payroll_step (s, ps) (s', ps)"
| ps_begin: "create_begin L facts dto user s = Inr (as, s') \<Longrightarrow>
    payroll_step (s, ps) (s', (r, dto, user, as) # ps)"
| ps_commit: "(r, dto, user, as) \<in> set ps \<Longrightarrow> create_commit up r dto user as s = Inr s' \<Longrightarrow>
    payroll_step (s, ps) (s', remove1 (r, dto, user, as) ps)"
| ps_recalculate: "recalculate L up facts r user s = Inr s' \<Longrightarrow> payroll_step (s, ps) (s', ps)"
| ps_adjust: "set_line_item_adjustments L up r e adj user s = Inr s' \<Longrightarrow> payroll_step (s, ps) (s', ps)"
| ps_submit: "submit_for_review up r user s = Inr s' \<Longrightarrow> payroll_step (s, ps) (s', ps)"
| ps_approve: "approve up r user s = Inr s' \<Longrightarrow> payroll_step (s, ps) (s', ps)"
| ps_process: "process up now key_of uploaded r user s = Inr s' \<Longrightarrow> payroll_step (s, ps) (s', ps)"
| ps_disburse: "disburse up now r user s = Inr s' \<Longrightarrow> payroll_step (s, ps) (s', ps)"

inductive_cases payroll_stepE: "payroll_step x y"

section \<open>What each request changes\<close>

lemma write_items_Inr:
  assumes "write_items p f s = Inr s'"
  shows "s' = s\<lparr>line_items := update_rows p f (line_items s)\<rparr>"
    and "\<And>li. li \<in> set (line_items s) \<Longrightarrow> p li \<Longrightarrow> \<not> frozen s (li_run li)"
  using assms by (auto simp: write_items_def split: if_splits)

lemma assemble_selects:
  assumes "assemble_line_items L facts period s = Inr (as, s')"
  shows "runs s' = runs s" "approvals s' = approvals s" "line_items s' = line_items s"
    "arrears s' = arrears s" "users s' = users s"
proof -
  have "s' = snd (build_context L facts
      (map emp_id (filter payable_employee (employees (snd (get_settings s))))) period (snd (get_settings s)))"
    using assms by (auto simp: assemble_line_items_def Let_def split_def and_then_Inr_iff)
  then show "runs s' = runs s" "approvals s' = approvals s" "line_items s' = line_items s"
    "arrears s' = arrears s" "users s' = users s"
    by (simp_all add: build_context_state)
qed

lemma create_begin_Inr:
  assumes "create_begin L facts dto user s = Inr (as, s')"
  shows "can_manage user" "2 \<le> active_admins s"
    "cr_is_reprocess dto \<Longrightarrow> \<exists>c cs. cr_reason dto = Some (c # cs)"
    "\<not> cr_is_reprocess dto \<Longrightarrow> \<not> regular_run_exists (cr_period dto) s"
    "runs s' = runs s" "approvals s' = approvals s" "line_items s' = line_items s"
proof -
  from assms have assembled: "assemble_line_items L facts (cr_period dto) s = Inr (as, s')"
    and g: "can_manage user" "2 \<le> active_admins s"
      "\<not> (cr_is_reprocess dto \<and> (cr_reason dto = None \<or> cr_reason dto = Some []))"
      "\<not> (\<not> cr_is_reprocess dto \<and> regular_run_exists (cr_period dto) s)"
    by (auto simp: create_begin_def and_then_Inr_iff split: if_splits)
  from assemble_selects [OF assembled]
  show "runs s' = runs s" "approvals s' = approvals s" "line_items s' = line_items s" by simp_all
  from g show "can_manage user" "2 \<le> active_admins s" "\<not> cr_is_reprocess dto \<Longrightarrow> \<not> regular_run_exists (cr_period dto) s"
    by simp_all
  show "\<exists>c cs. cr_reason dto = Some (c # cs)" if "cr_is_reprocess dto"
    using g(3) that by (cases "cr_reason dto") (auto simp: neq_Nil_conv)
qed

lemma create_commit_Inr:
  assumes "create_commit up r dto user as s = Inr s'"
  shows "find_run s r = None" "\<not> cr_is_reprocess dto \<Longrightarrow> \<not> regular_run_exists (cr_period dto) s"
    "distinct (map li_employee (as_items as))"
    "runs s' = runs s @ [new_run r dto user as]" "approvals s' = approvals s"
    "line_items s' = line_items s @ map (item_row r) (as_items as)"
  using assms by (auto simp: create_commit_def split: if_splits)

lemma get_run_or_throw_Inr: "get_run_or_throw s r = Inr x \<longleftrightarrow> find_run s r = Some x"
  by (auto simp: get_run_or_throw_def split: option.splits)

lemma find_run_SomeD: "find_run s r = Some x \<Longrightarrow> x \<in> set (runs s) \<and> run_id x = r"
  by (auto simp: find_run_def dest: find_row_SomeD)

lemma set_run_selects [simp]:
  "runs (set_run r f s) = update_rows (\<lambda>x. run_id x = r) f (runs s)"
  "approvals (set_run r f s) = approvals s" "line_items (set_run r f s) = line_items s"
  by (simp_all add: set_run_def)

lemma notify_status_change_selects [simp]:
  "runs (notify_status_change r st s) = runs s" "approvals (notify_status_change r st s) = approvals s"
  "line_items (notify_status_change r st s) = line_items s"
  by (simp_all add: notify_status_change_def)

lemma foldl_notify_selects:
  "runs (foldl (\<lambda>t x. notify (f x) (g x) t) s xs) = runs s
   \<and> approvals (foldl (\<lambda>t x. notify (f x) (g x) t) s xs) = approvals s
   \<and> line_items (foldl (\<lambda>t x. notify (f x) (g x) t) s xs) = line_items s"
  by (induction xs arbitrary: s) simp_all

lemma recalculate_Inr:
  assumes "recalculate L up facts r user s = Inr s'"
  obtains run f where "can_manage user" "find_run s r = Some run"
    "run_status run = DRAFT \<or> run_status run = REVIEW"
    "runs s' = runs s" "approvals s' = approvals s"
    "line_items s' = update_rows (\<lambda>li. li_run li = r) f (line_items s)"
    "\<And>li. li_run (f li) = li_run li \<and> li_employee (f li) = li_employee li"
proof -
  from assms obtain run where run: "can_manage user" "find_run s r = Some run"
      "run_status run = DRAFT \<or> run_status run = REVIEW"
    by (auto simp: recalculate_def and_then_Inr_iff get_run_or_throw_Inr split: if_splits)
  let ?s2 = "snd (get_tax_config (financial_year (run_period run)) (snd (get_settings s)))"
  obtain s3 updates where w: "write_items (\<lambda>li. li_run li = r)
        (\<lambda>li. case map_of updates (li_employee li) of None \<Rightarrow> li | Some c \<Rightarrow> recomputed L c li) ?s2 = Inr s3"
    and s': "s' = write_payroll_audit up user ''payroll.run_recalculated'' ''payroll_run'' (Some r) s3"
    using assms run(2)
    by (simp add: recalculate_def and_then_Inr_iff get_run_or_throw_Inr Let_def split_def
        build_context_state split: if_splits) blast
  let ?f = "\<lambda>li. case map_of updates (li_employee li) of None \<Rightarrow> li | Some c \<Rightarrow> recomputed L c li"
  show thesis
  proof (rule that [OF run])
    show "runs s' = runs s" "approvals s' = approvals s"
      "line_items s' = update_rows (\<lambda>li. li_run li = r) ?f (line_items s)"
      using write_items_Inr(1) [OF w] by (simp_all add: s')
    show "li_run (?f li) = li_run li \<and> li_employee (?f li) = li_employee li" for li
      by (simp add: recomputed_def stored_def split: option.splits)
  qed
qed

lemma adjust_Inr:
  assumes "set_line_item_adjustments L up r e adj user s = Inr s'"
  obtains run item f where "can_manage user" "find_run s r = Some run"
    "run_status run = DRAFT \<or> run_status run = REVIEW" "find_item s r e = Some item"
    "runs s' = runs s" "approvals s' = approvals s"
    "line_items s' = update_rows (\<lambda>li. li_run li = r \<and> li_employee li = e) f (line_items s)"
    "f = (\<lambda>li. li\<lparr>li_adjustments := adj,
        li_net_pay := money_col (dplus L (base_net L item) (of_number (adjustment_total adj)))\<rparr>)"
proof -
  from assms obtain run item s1 where run: "can_manage user" "find_run s r = Some run"
      "run_status run = DRAFT \<or> run_status run = REVIEW" "find_item s r e = Some item"
    and w: "write_items (\<lambda>li. li_run li = r \<and> li_employee li = e)
        (\<lambda>li. li\<lparr>li_adjustments := adj,
          li_net_pay := money_col (dplus L (base_net L item) (of_number (adjustment_total adj)))\<rparr>) s = Inr s1"
    and s': "s' = write_payroll_audit up user ''payroll.line_item_adjusted'' ''employee'' (Some e) s1"
    by (auto simp: set_line_item_adjustments_def and_then_Inr_iff get_run_or_throw_Inr
        split: if_splits option.splits)
  from that [OF run _ _ _ refl] write_items_Inr(1) [OF w] s' show thesis by simp
qed

lemma submit_Inr:
  assumes "submit_for_review up r user s = Inr s'"
  obtains run where "can_manage user" "find_run s r = Some run" "run_status run = DRAFT"
    "runs s' = update_rows (\<lambda>x. run_id x = r) (\<lambda>x. x\<lparr>run_status := REVIEW\<rparr>) (runs s)"
    "approvals s' = approvals s" "line_items s' = line_items s"
  using assms that
  by (auto simp: submit_for_review_def and_then_Inr_iff get_run_or_throw_Inr split: if_splits)

lemma approve_Inr:
  assumes "approve up r user s = Inr s'"
  obtains run where "can_manage user" "2 \<le> active_admins s" "find_run s r = Some run" "run_status run = REVIEW"
    "approvals s' = upsert_row (\<lambda>a. ap_run a = r \<and> ap_approver a = sub user) id
        \<lparr>ap_run = r, ap_approver = sub user\<rparr> (approvals s)"
    "line_items s' = line_items s"
    "runs s' = (if 2 \<le> approval_count s' r
      then update_rows (\<lambda>x. run_id x = r) (\<lambda>x. x\<lparr>run_status := APPROVED\<rparr>) (runs s) else runs s)"
  using assms that
  by (auto simp: approve_def and_then_Inr_iff get_run_or_throw_Inr Let_def approval_count_def split: if_splits)

lemma process_Inr:
  assumes "process up now key_of uploaded r user s = Inr s'"
  obtains run ex where "can_manage user" "find_run s r = Some run" "run_status run = APPROVED"
    "runs s' = update_rows (\<lambda>x. run_id x = r)
        (\<lambda>x. x\<lparr>run_status := PROCESSED, run_processed_at := Some now, run_exceptions := ex\<rparr>) (runs s)"
    "approvals s' = approvals s"
    "line_items s' = update_rows (\<lambda>li. li_run li = r \<and> has_dob s li)
        (\<lambda>li. li\<lparr>li_payslip_key := Some (key_of (li_employee li))\<rparr>) (line_items s)"
proof -
  let ?missing = "\<lambda>li. \<lparr>ex_employee = Some (li_employee li), ex_type = NO_DOB_FOR_PAYSLIP\<rparr>"
  from assms obtain run s1 where run: "can_manage user" "find_run s r = Some run" "run_status run = APPROVED"
    and w: "write_items (\<lambda>li. li_run li = r \<and> has_dob s li)
        (\<lambda>li. li\<lparr>li_payslip_key := Some (key_of (li_employee li))\<rparr>) s = Inr s1"
    and s': "s' = foldl (\<lambda>t li. notify ''PAYSLIP_READY'' (''payroll:'' @ r @ '':payslip:'' @ li_employee li) t)
      (notify_status_change r PROCESSED
        (write_payroll_audit up user ''payroll.run_processed'' ''payroll_run'' (Some r)
          (set_run r (\<lambda>x. x\<lparr>run_status := PROCESSED, run_processed_at := Some now,
             run_exceptions := run_exceptions run @ map ?missing (filter (\<lambda>li. \<not> has_dob s li) (items_of s r))\<rparr>) s1)))
      (filter (has_dob s) (items_of s r))"
    by (auto simp: process_def and_then_Inr_iff get_run_or_throw_Inr Let_def split: if_splits)
  have s1: "s1 = s\<lparr>line_items := update_rows (\<lambda>li. li_run li = r \<and> has_dob s li)
        (\<lambda>li. li\<lparr>li_payslip_key := Some (key_of (li_employee li))\<rparr>) (line_items s)\<rparr>"
    by (rule write_items_Inr(1) [OF w])
  show thesis
    by (rule that [OF run]) (simp_all add: s' foldl_notify_selects s1)
qed

lemma disburse_Inr:
  assumes "disburse up now r user s = Inr s'"
  obtains run where "can_manage user" "find_run s r = Some run" "run_status run = PROCESSED"
    "runs s' = update_rows (\<lambda>x. run_id x = r)
        (\<lambda>x. x\<lparr>run_status := DISBURSED, run_disbursed_at := Some now\<rparr>) (runs s)"
    "approvals s' = approvals s" "line_items s' = line_items s"
  using assms that
  by (auto simp: disburse_def and_then_Inr_iff get_run_or_throw_Inr split: if_splits)

section \<open>The status is linear\<close>

fun status_rank :: "run_status \<Rightarrow> nat" where
  "status_rank DRAFT = 0"
| "status_rank REVIEW = 1"
| "status_rank APPROVED = 2"
| "status_rank PROCESSED = 3"
| "status_rank DISBURSED = 4"

definition run_status_of :: "payroll_system \<Rightarrow> id \<Rightarrow> run_status option" where
  "run_status_of x r = map_option run_status (find_run (fst x) r)"

lemma find_run_set:
  assumes "runs s' = update_rows (\<lambda>x. run_id x = r) f (runs s)" and "\<And>x. run_id (f x) = run_id x"
  shows "find_run s' k = (if k = r then map_option f (find_run s k) else find_run s k)"
proof (cases "k = r")
  case True
  then show ?thesis using assms by (simp add: find_run_def find_row_update_same)
next
  case False
  then have "find_row (\<lambda>x. run_id x = k) (update_rows (\<lambda>x. run_id x = r) f (runs s))
      = find_row (\<lambda>x. run_id x = k) (runs s)"
    by (intro find_row_update_other) (auto simp: assms(2))
  with False show ?thesis by (simp add: find_run_def assms(1))
qed

lemma find_run_append:
  "runs s' = runs s @ new \<Longrightarrow> find_run s k = Some x \<Longrightarrow> find_run s' k = Some x"
  by (simp add: find_run_def find_row_append)

lemma find_run_cong: "runs s' = runs s \<Longrightarrow> find_run s' k = find_run s k"
  by (simp add: find_run_def)

text \<open>One step as seen from one run: untouched, or one status further.\<close>

lemma step_run:
  assumes "payroll_step (s, ps) (s', ps')" and "find_run s k = Some x"
  shows "\<exists>y. find_run s' k = Some y \<and> run_period y = run_period x
    \<and> run_is_reprocess y = run_is_reprocess x
    \<and> (run_status y = run_status x \<or> status_rank (run_status y) = Suc (status_rank (run_status x)))"
  using assms(1)
proof (cases rule: payroll_step.cases)
  case ps_other
  then show ?thesis using assms(2) find_run_cong [of s' s k] by simp
next
  case (ps_begin L facts dto user as r)
  then show ?thesis using assms(2) find_run_cong [OF create_begin_Inr(5) [OF ps_begin(2)], of k] by simp
next
  case (ps_commit r dto user as up)
  then show ?thesis using assms(2) find_run_append [OF create_commit_Inr(4) [OF ps_commit(3)]] by simp
next
  case (ps_recalculate L up facts r user)
  from ps_recalculate(2) have "runs s' = runs s" by (rule recalculate_Inr)
  then show ?thesis using assms(2) find_run_cong [of s' s k] by simp
next
  case (ps_adjust L up r e adj user)
  from ps_adjust(2) have "runs s' = runs s" by (rule adjust_Inr)
  then show ?thesis using assms(2) find_run_cong [of s' s k] by simp
next
  case (ps_submit up r user)
  from ps_submit(2) show ?thesis
  proof (rule submit_Inr)
    fix run
    assume a: "find_run s r = Some run" "run_status run = DRAFT"
      "runs s' = update_rows (\<lambda>x. run_id x = r) (\<lambda>x. x\<lparr>run_status := REVIEW\<rparr>) (runs s)"
    from find_run_set [OF a(3), of k] a(1,2) assms(2) show ?thesis by (cases "k = r") auto
  qed
next
  case (ps_approve up r user)
  from ps_approve(2) show ?thesis
  proof (rule approve_Inr)
    fix run
    assume a: "find_run s r = Some run" "run_status run = REVIEW"
      "runs s' = (if 2 \<le> approval_count s' r
        then update_rows (\<lambda>x. run_id x = r) (\<lambda>x. x\<lparr>run_status := APPROVED\<rparr>) (runs s) else runs s)"
    show ?thesis
    proof (cases "2 \<le> approval_count s' r")
      case True
      with a(3) have "runs s' = update_rows (\<lambda>x. run_id x = r) (\<lambda>x. x\<lparr>run_status := APPROVED\<rparr>) (runs s)" by simp
      from find_run_set [OF this, of k] a(1,2) assms(2) show ?thesis by (cases "k = r") auto
    next
      case False
      with a(3) have "runs s' = runs s" by simp
      then show ?thesis using assms(2) find_run_cong [of s' s k] by simp
    qed
  qed
next
  case (ps_process up now key_of uploaded r user)
  from ps_process(2) show ?thesis
  proof (rule process_Inr)
    fix run ex
    assume a: "find_run s r = Some run" "run_status run = APPROVED"
      "runs s' = update_rows (\<lambda>x. run_id x = r)
        (\<lambda>x. x\<lparr>run_status := PROCESSED, run_processed_at := Some now, run_exceptions := ex\<rparr>) (runs s)"
    from find_run_set [OF a(3), of k] a(1,2) assms(2) show ?thesis by (cases "k = r") auto
  qed
next
  case (ps_disburse up now r user)
  from ps_disburse(2) show ?thesis
  proof (rule disburse_Inr)
    fix run
    assume a: "find_run s r = Some run" "run_status run = PROCESSED"
      "runs s' = update_rows (\<lambda>x. run_id x = r)
        (\<lambda>x. x\<lparr>run_status := DISBURSED, run_disbursed_at := Some now\<rparr>) (runs s)"
    from find_run_set [OF a(3), of k] a(1,2) assms(2) show ?thesis by (cases "k = r") auto
  qed
qed

interpretation run: status_machine payroll_step run_status_of status_rank
proof
  fix x y k a
  assume "payroll_step x y" "run_status_of x k = Some a"
  then obtain s ps s' ps' r where s: "x = (s, ps)" "y = (s', ps')" "find_run s k = Some r" "run_status r = a"
    by (cases x; cases y) (auto simp: run_status_of_def)
  from step_run [OF \<open>payroll_step x y\<close> [unfolded s(1,2)] s(3)] s
  show "\<exists>b. run_status_of y k = Some b \<and> status_rank a \<le> status_rank b \<and> status_rank b \<le> Suc (status_rank a)"
    by (auto simp: run_status_of_def)
qed

end
