(* ===== verification/RunInvariants.thy ===== *)
theory RunInvariants
  imports RunLifecycle
begin

text \<open>
  The invariants of payroll runs: what holds in every state that any interleaving of the requests
  of \<open>PayrollRunService\<close> reaches from a tenant without runs.
\<close>

section \<open>The shape of a step\<close>

definition item_key :: "line_item \<Rightarrow> id \<times> id" where
  "item_key li = (li_run li, li_employee li)"

definition approval_key :: "approval_row \<Rightarrow> id \<times> id" where
  "approval_key a = (ap_run a, ap_approver a)"

text \<open>How a step may change a run that exists: at most its status, by one, and to APPROVED only
  with two approvals.\<close>

definition kept :: "payroll_db \<Rightarrow> run_row \<Rightarrow> run_row \<Rightarrow> bool" where
  "kept s x y \<longleftrightarrow> run_id y = run_id x \<and> run_period y = run_period x
     \<and> run_is_reprocess y = run_is_reprocess x \<and> run_reprocess_reason y = run_reprocess_reason x
     \<and> (run_status y = run_status x
        \<or> status_rank (run_status y) = Suc (status_rank (run_status x))
          \<and> (run_status y = APPROVED \<longrightarrow> 2 \<le> approval_count s (run_id y)))"

lemma kept_refl [simp]: "kept s x x"
  by (simp add: kept_def)

lemma list_all2_update_rows:
  "(\<And>x. x \<in> set t \<Longrightarrow> p x \<Longrightarrow> R x (f x)) \<Longrightarrow> (\<And>x. R x x) \<Longrightarrow> list_all2 R t (update_rows p f t)"
  by (induction t) auto

lemma find_run_in:
  assumes "unique_key run_id (runs s)" and "x \<in> set (runs s)"
  shows "find_run s (run_id x) = Some x"
  using find_row_unique [OF assms] by (simp add: find_run_def)

lemma kept_update:
  assumes "unique_key run_id (runs s)" and "find_run s r = Some x"
    and "runs s' = update_rows (\<lambda>x. run_id x = r) f (runs s)" and "kept s' x (f x)"
  shows "list_all2 (kept s') (runs s) (runs s')"
  unfolding assms(3)
proof (rule list_all2_update_rows)
  fix y assume "y \<in> set (runs s)" "run_id y = r"
  with find_run_in [OF assms(1), of y] assms(2) have "y = x" by simp
  with assms(4) show "kept s' y (f y)" by simp
qed simp

text \<open>Every step but a commit keeps the runs, the item keys, and adds at most one approval.\<close>

definition quiet :: "payroll_db \<Rightarrow> payroll_db \<Rightarrow> bool" where
  "quiet s s' \<longleftrightarrow> list_all2 (kept s') (runs s) (runs s')
     \<and> map item_key (line_items s') = map item_key (line_items s)
     \<and> (approvals s' = approvals s
        \<or> (\<exists>a. approval_key a \<notin> approval_key ` set (approvals s) \<and> approvals s' = approvals s @ [a]))"

definition pending_ok :: "pending list \<Rightarrow> bool" where
  "pending_ok ps \<longleftrightarrow> (\<forall>(r, dto, user, as) \<in> set ps.
     can_manage user \<and> (cr_is_reprocess dto \<longrightarrow> (\<exists>c cs. cr_reason dto = Some (c # cs))))"

lemma quiet_same:
  "runs s' = runs s \<Longrightarrow> approvals s' = approvals s \<Longrightarrow> map item_key (line_items s') = map item_key (line_items s)
    \<Longrightarrow> quiet s s'"
  by (simp add: quiet_def list_all2_refl)

lemma quiet_update:
  assumes "unique_key run_id (runs s)" and "find_run s r = Some x"
    and "runs s' = update_rows (\<lambda>x. run_id x = r) f (runs s)" and "kept s' x (f x)"
    and "approvals s' = approvals s" and "map item_key (line_items s') = map item_key (line_items s)"
  shows "quiet s s'"
  using kept_update [OF assms(1-4)] assms(5,6) by (simp add: quiet_def)

lemma quiet_approve:
  assumes u: "unique_key run_id (runs s)" and "approve up r user s = Inr s'"
  shows "quiet s s'"
  using assms(2)
proof (rule approve_Inr)
  fix run
  let ?new = "\<lparr>ap_run = r, ap_approver = sub user\<rparr>"
  assume a: "find_run s r = Some run" "run_status run = REVIEW"
    "approvals s' = upsert_row (\<lambda>a. ap_run a = r \<and> ap_approver a = sub user) id ?new (approvals s)"
    "line_items s' = line_items s"
    "runs s' = (if 2 \<le> approval_count s' r
      then update_rows (\<lambda>x. run_id x = r) (\<lambda>x. x\<lparr>run_status := APPROVED\<rparr>) (runs s) else runs s)"
  have "list_all2 (kept s') (runs s) (runs s')"
  proof (cases "2 \<le> approval_count s' r")
    case True
    with a(5) have "runs s' = update_rows (\<lambda>x. run_id x = r) (\<lambda>x. x\<lparr>run_status := APPROVED\<rparr>) (runs s)" by simp
    moreover from a(1,2) True find_run_SomeD [OF a(1)] have "kept s' run (run\<lparr>run_status := APPROVED\<rparr>)" by (simp add: kept_def)
    ultimately show ?thesis using kept_update [OF u a(1)] by blast
  next
    case False
    with a(5) show ?thesis by (simp add: list_all2_refl)
  qed
  moreover have "approvals s' = approvals s \<or>
      approval_key ?new \<notin> approval_key ` set (approvals s) \<and> approvals s' = approvals s @ [?new]"
    unfolding a(3) by (auto simp: upsert_row_def approval_key_def update_rows_def intro!: map_idI)
  ultimately show ?thesis unfolding quiet_def using a(4) by auto
qed

lemma item_key_update:
  "(\<And>li. li_run (f li) = li_run li \<and> li_employee (f li) = li_employee li) \<Longrightarrow>
    map item_key (update_rows p f t) = map item_key t"
  by (simp add: map_update_rows item_key_def)

text \<open>The two kinds of steps.\<close>

lemma step_shape:
  assumes "payroll_step (s, ps) (s', ps')" and u: "unique_key run_id (runs s)" and "pending_ok ps"
  shows "pending_ok ps' \<and> (quiet s s' \<or>
    (\<exists>up r dto user as. (r, dto, user, as) \<in> set ps \<and> create_commit up r dto user as s = Inr s'))"
  using assms(1)
proof (cases rule: payroll_step.cases)
  case ps_other
  then show ?thesis using assms(3) by (simp add: quiet_same)
next
  case (ps_begin L facts dto user as r)
  note b = create_begin_Inr [OF ps_begin(2)]
  have "quiet s s'" by (rule quiet_same) (use b in simp_all)
  moreover have "pending_ok ps'" using ps_begin(1) b(1,3) assms(3) by (auto simp: pending_ok_def)
  ultimately show ?thesis by simp
next
  case (ps_commit r dto user as up)
  have "pending_ok ps'"
    using assms(3) set_remove1_subset [of "(r, dto, user, as)" ps] unfolding pending_ok_def ps_commit(1) by blast
  with ps_commit(2,3) show ?thesis by blast
next
  case (ps_recalculate L up facts r user)
  from ps_recalculate(2) have "quiet s s'" by (rule recalculate_Inr) (simp add: quiet_same item_key_update)
  then show ?thesis using ps_recalculate(1) assms(3) by simp
next
  case (ps_adjust L up r e adj user)
  from ps_adjust(2) have "quiet s s'" by (rule adjust_Inr) (simp add: quiet_same item_key_update)
  then show ?thesis using ps_adjust(1) assms(3) by simp
next
  case (ps_submit up r user)
  from ps_submit(2) have "quiet s s'"
    by (rule submit_Inr) (erule (1) quiet_update [OF u], simp_all add: kept_def)
  then show ?thesis using ps_submit(1) assms(3) by simp
next
  case (ps_approve up r user)
  then show ?thesis using quiet_approve [OF u] assms(3) by blast
next
  case (ps_process up now key_of uploaded r user)
  from ps_process(2) have "quiet s s'"
    by (rule process_Inr) (erule (1) quiet_update [OF u], simp_all add: kept_def item_key_update)
  then show ?thesis using ps_process(1) assms(3) by simp
next
  case (ps_disburse up now r user)
  from ps_disburse(2) have "quiet s s'"
    by (rule disburse_Inr) (erule (1) quiet_update [OF u], simp_all add: kept_def)
  then show ?thesis using ps_disburse(1) assms(3) by simp
qed

section \<open>The invariant\<close>

definition regular_runs :: "payroll_db \<Rightarrow> run_row list" where
  "regular_runs s = filter (\<lambda>x. \<not> run_is_reprocess x) (runs s)"

definition has_reason :: "run_row \<Rightarrow> bool" where
  "has_reason x \<longleftrightarrow> (\<exists>c cs. run_reprocess_reason x = Some (c # cs))"

definition past_review :: "run_row \<Rightarrow> bool" where
  "past_review x \<longleftrightarrow> 2 \<le> status_rank (run_status x)"

definition run_inv :: "payroll_db \<Rightarrow> bool" where
  "run_inv s \<longleftrightarrow> unique_key run_id (runs s) \<and> unique_key run_period (regular_runs s)
     \<and> unique_key approval_key (approvals s) \<and> unique_key item_key (line_items s)
     \<and> (\<forall>li \<in> set (line_items s). find_run s (li_run li) \<noteq> None)
     \<and> (\<forall>x \<in> set (runs s). past_review x \<longrightarrow> 2 \<le> approval_count s (run_id x))
     \<and> (\<forall>x \<in> set (runs s). run_is_reprocess x \<longrightarrow> has_reason x)"

lemma kept_lists:
  assumes "list_all2 (kept s') xs ys"
  shows "map run_id ys = map run_id xs"
    and "map run_period (filter (\<lambda>x. \<not> run_is_reprocess x) ys) = map run_period (filter (\<lambda>x. \<not> run_is_reprocess x) xs)"
    and "(\<forall>x \<in> set xs. run_is_reprocess x \<longrightarrow> has_reason x) \<Longrightarrow> \<forall>x \<in> set ys. run_is_reprocess x \<longrightarrow> has_reason x"
    and "(\<forall>x \<in> set xs. past_review x \<longrightarrow> 2 \<le> approval_count s (run_id x)) \<Longrightarrow>
      (\<And>r. approval_count s r \<le> approval_count s' r) \<Longrightarrow>
      \<forall>x \<in> set ys. past_review x \<longrightarrow> 2 \<le> approval_count s' (run_id x)"
  using assms
proof (induction rule: list_all2_induct)
  case (Cons x xs y ys)
  note k = Cons.hyps(1) [unfolded kept_def]
  {
    case 4
    have "2 \<le> approval_count s' (run_id y)" if "past_review y"
    proof (cases "past_review x")
      case True
      with 4(1,2) k show ?thesis by (metis list.set_intros(1) le_trans)
    next
      case False
      with that k have "run_status y = APPROVED"
        by (cases "run_status x"; cases "run_status y") (simp_all add: past_review_def)
      with k False that show ?thesis by (auto simp: past_review_def)
    qed
    with 4 Cons show ?case by auto
  }
qed (auto simp: kept_def has_reason_def)

lemma find_run_None_ids: "find_run s r = None \<longleftrightarrow> r \<notin> set (map run_id (runs s))"
  by (auto simp: find_run_def)

lemma approval_count_append:
  "approvals s' = approvals s @ [a] \<Longrightarrow> approval_count s r \<le> approval_count s' r"
  by (simp add: approval_count_def)

lemma quiet_inv:
  assumes "quiet s s'" and inv: "run_inv s"
  shows "run_inv s'"
proof -
  from assms(1) have k: "list_all2 (kept s') (runs s) (runs s')"
    and items: "map item_key (line_items s') = map item_key (line_items s)"
    and ap: "approvals s' = approvals s
        \<or> (\<exists>a. approval_key a \<notin> approval_key ` set (approvals s) \<and> approvals s' = approvals s @ [a])"
    by (auto simp: quiet_def)
  have count: "approval_count s r \<le> approval_count s' r" for r
    using ap approval_count_append by (auto simp: approval_count_def)
  have "unique_key approval_key (approvals s')"
    using ap inv by (auto simp: run_inv_def unique_key_def)
  moreover have "unique_key item_key (line_items s')"
    using items inv by (simp add: run_inv_def unique_key_def)
  moreover have "find_run s' (li_run li) \<noteq> None" if "li \<in> set (line_items s')" for li
  proof -
    from that have "item_key li \<in> set (map item_key (line_items s))" unfolding items [symmetric] by simp
    then obtain lj where "lj \<in> set (line_items s)" "li_run lj = li_run li"
      by (auto simp: item_key_def)
    with inv have "find_run s (li_run li) \<noteq> None" by (metis run_inv_def)
    then show ?thesis unfolding find_run_None_ids kept_lists(1) [OF k] .
  qed
  moreover have "\<forall>x \<in> set (runs s'). past_review x \<longrightarrow> 2 \<le> approval_count s' (run_id x)"
    by (rule kept_lists(4) [OF k]) (use inv count in \<open>auto simp: run_inv_def\<close>)
  moreover have "\<forall>x \<in> set (runs s'). run_is_reprocess x \<longrightarrow> has_reason x"
    by (rule kept_lists(3) [OF k]) (use inv in \<open>auto simp: run_inv_def\<close>)
  ultimately show ?thesis
    using inv kept_lists(1,2) [OF k] by (simp add: run_inv_def unique_key_def regular_runs_def)
qed

lemma commit_inv:
  assumes c: "create_commit up r dto user as s = Inr s'" and inv: "run_inv s"
    and reason: "cr_is_reprocess dto \<Longrightarrow> \<exists>c cs. cr_reason dto = Some (c # cs)"
  shows "run_inv s'"
proof -
  note e = create_commit_Inr [OF c]
  have fresh: "r \<notin> set (map run_id (runs s))" using e(1) by (simp add: find_run_None_ids)
  have keys: "map item_key (map (item_row r) (as_items as)) = map (\<lambda>i. (r, li_employee i)) (as_items as)"
    by (simp add: item_key_def item_row_def stored_def line_compute.defs)
  have no_items: "li_run li \<noteq> r" if "li \<in> set (line_items s)" for li
    using that inv e(1) by (auto simp: run_inv_def)
  have "unique_key item_key (line_items s')"
  proof -
    have "distinct (map (\<lambda>i. (r, li_employee i)) (as_items as))"
      using e(3) by (simp add: distinct_map inj_on_def)
    moreover have "set (map item_key (line_items s)) \<inter> set (map (\<lambda>i. (r, li_employee i)) (as_items as)) = {}"
      using no_items by (auto simp: item_key_def)
    ultimately show ?thesis using inv unfolding unique_key_def run_inv_def e(6) map_append keys by simp
  qed
  moreover have "find_run s' (li_run li) \<noteq> None" if "li \<in> set (line_items s')" for li
    using that inv unfolding find_run_None_ids e(4,6) run_inv_def
    by (auto simp: new_run_def item_row_def line_compute.defs)
  moreover have "unique_key run_id (runs s')"
    using inv fresh by (auto simp: e(4) run_inv_def unique_key_append1 new_run_def)
  moreover have "unique_key run_period (regular_runs s')"
    using inv e(2) by (auto simp: e(4) run_inv_def regular_runs_def unique_key_append1 new_run_def regular_run_exists_def)
  moreover have "\<forall>x \<in> set (runs s'). past_review x \<longrightarrow> 2 \<le> approval_count s' (run_id x)"
    using inv by (auto simp: e(4,5) run_inv_def approval_count_def past_review_def new_run_def)
  moreover have "\<forall>x \<in> set (runs s'). run_is_reprocess x \<longrightarrow> has_reason x"
    using inv reason by (auto simp: e(4) run_inv_def has_reason_def new_run_def)
  ultimately show ?thesis using inv by (simp add: run_inv_def e(5))
qed

lemma step_inv:
  assumes "payroll_step (s, ps) (s', ps')" and "run_inv s" and "pending_ok ps"
  shows "run_inv s' \<and> pending_ok ps'"
proof -
  have "unique_key run_id (runs s)" using assms(2) by (simp add: run_inv_def)
  from step_shape [OF assms(1) this assms(3)] have p: "pending_ok ps'"
    and "quiet s s' \<or> (\<exists>up r dto user as. (r, dto, user, as) \<in> set ps \<and> create_commit up r dto user as s = Inr s')"
    by simp_all
  then consider "quiet s s'"
    | up r dto user as where "(r, dto, user, as) \<in> set ps" "create_commit up r dto user as s = Inr s'"
    by blast
  then have "run_inv s'"
  proof cases
    case 1
    with assms(2) quiet_inv show ?thesis by blast
  next
    case 2
    with assms(3) have "cr_is_reprocess dto \<Longrightarrow> \<exists>c cs. cr_reason dto = Some (c # cs)"
      by (auto simp: pending_ok_def)
    with 2(2) assms(2) commit_inv show ?thesis by blast
  qed
  with p show ?thesis by simp
qed

text \<open>A tenant that has had no payroll run yet.\<close>

definition no_runs :: "payroll_db \<Rightarrow> bool" where
  "no_runs s \<longleftrightarrow> runs s = [] \<and> approvals s = [] \<and> line_items s = []"

definition reachable_from :: "payroll_db \<Rightarrow> payroll_db \<Rightarrow> bool" where
  "reachable_from s s' \<longleftrightarrow> (\<exists>ps. payroll_step\<^sup>*\<^sup>* (s, []) (s', ps))"

lemma reachable_inv:
  assumes "reachable_from s s'" and "no_runs s"
  shows "run_inv s'"
proof -
  from assms(1) obtain ps where "payroll_step\<^sup>*\<^sup>* (s, []) (s', ps)" by (auto simp: reachable_from_def)
  moreover have "run_inv s" using assms(2) by (simp add: no_runs_def run_inv_def unique_key_def regular_runs_def)
  ultimately have "run_inv s' \<and> pending_ok ps"
  proof (induction "(s', ps)" arbitrary: s' ps rule: rtranclp_induct)
    case base
    then show ?case by (simp add: pending_ok_def)
  next
    case (step y)
    then show ?case using step_inv by (cases y) blast
  qed
  then show ?thesis by simp
qed

section \<open>The properties\<close>

lemma two_rows_of_count:
  assumes "2 \<le> approval_count s r" and "unique_key approval_key (approvals s)"
  obtains a b where "a \<in> set (approvals s)" "b \<in> set (approvals s)" "ap_run a = r" "ap_run b = r"
    "ap_approver a \<noteq> ap_approver b"
proof -
  let ?of_r = "filter (\<lambda>a. ap_run a = r) (approvals s)"
  from assms(1) obtain a b rest where abr: "?of_r = a # b # rest"
    by (auto simp: approval_count_def numeral_2_eq_2 Suc_le_length_iff)
  have "distinct (map approval_key ?of_r)"
    using assms(2) by (simp add: unique_key_def distinct_map_filter)
  with abr have "approval_key a \<noteq> approval_key b" by simp
  moreover have in_r: "a \<in> set ?of_r" "b \<in> set ?of_r" by (simp_all add: abr)
  ultimately have "ap_approver a \<noteq> ap_approver b" by (auto simp: approval_key_def)
  with in_r that show thesis by auto
qed

text \<open>
  C1. Two people approve every payroll (INV-1): in every state that requests reach from a tenant
  without runs, however they interleave, a run that is APPROVED, PROCESSED or DISBURSED carries
  approvals of two different users.
\<close>

theorem two_person_approval:
  assumes "reachable_from s s'" and "no_runs s" and "find_run s' r = Some x" and "past_review x"
  shows "\<exists>a b. a \<in> set (approvals s') \<and> b \<in> set (approvals s') \<and> ap_run a = r \<and> ap_run b = r
    \<and> ap_approver a \<noteq> ap_approver b"
proof -
  have inv: "run_inv s'" using assms(1,2) by (rule reachable_inv)
  with find_run_SomeD [OF assms(3)] assms(4) have "2 \<le> approval_count s' r" by (auto simp: run_inv_def)
  moreover have "unique_key approval_key (approvals s')" using inv by (simp add: run_inv_def)
  ultimately show ?thesis by (blast elim: two_rows_of_count)
qed

text \<open>
  C3. The tables of runs stay consistent in every reachable state: a period has at most one run
  that is not a reprocess, a reprocess carries a reason, and a run has at most one line item for
  an employee.
\<close>

theorem run_tables_consistent:
  assumes "reachable_from s s'" and "no_runs s"
  shows "(\<forall>x \<in> set (runs s'). \<forall>y \<in> set (runs s'). \<not> run_is_reprocess x \<longrightarrow> \<not> run_is_reprocess y
        \<longrightarrow> run_period x = run_period y \<longrightarrow> x = y)
    \<and> (\<forall>x \<in> set (runs s'). run_is_reprocess x \<longrightarrow> has_reason x)
    \<and> (\<forall>i \<in> set (line_items s'). \<forall>j \<in> set (line_items s').
        li_run i = li_run j \<longrightarrow> li_employee i = li_employee j \<longrightarrow> i = j)"
proof -
  have inv: "run_inv s'" using assms by (rule reachable_inv)
  have "x = y" if "x \<in> set (runs s')" "y \<in> set (runs s')" "\<not> run_is_reprocess x" "\<not> run_is_reprocess y"
    "run_period x = run_period y" for x y
    using that inv unique_key_eq [of run_period "regular_runs s'" x y]
    by (simp add: run_inv_def regular_runs_def)
  moreover have "i = j" if "i \<in> set (line_items s')" "j \<in> set (line_items s')" "li_run i = li_run j"
    "li_employee i = li_employee j" for i j
    using that inv unique_key_eq [of item_key "line_items s'" i j] by (simp add: run_inv_def item_key_def)
  ultimately show ?thesis using inv by (simp add: run_inv_def)
qed

section \<open>Frozen line items\<close>

lemma frozen_rank: "find_run s r = Some x \<Longrightarrow> frozen s r \<longleftrightarrow> 3 \<le> status_rank (run_status x)"
  by (cases "run_status x") (simp_all add: frozen_def finished_def)

lemma filter_update_rows:
  "(\<And>x. x \<in> set t \<Longrightarrow> p x \<Longrightarrow> \<not> q x \<and> \<not> q (f x)) \<Longrightarrow> filter q (update_rows p f t) = filter q t"
  by (induction t) auto

lemma items_of_update:
  assumes "line_items s' = update_rows p f (line_items s)"
    and "\<And>li. li \<in> set (line_items s) \<Longrightarrow> p li \<Longrightarrow> li_run li \<noteq> r"
    and "\<And>li. li_run (f li) = li_run li"
  shows "items_of s' r = items_of s r"
  unfolding items_of_def assms(1) by (rule filter_update_rows) (simp add: assms(2,3))

lemma step_frozen:
  assumes "payroll_step (s, ps) (s', ps')" and "frozen s r"
  shows "items_of s' r = items_of s r \<and> frozen s' r"
proof
  obtain x where x: "find_run s r = Some x" "3 \<le> status_rank (run_status x)"
    using assms(2) frozen_rank [of s r] by (cases "find_run s r") (auto simp: frozen_def)
  obtain y where "find_run s' r = Some y" "status_rank (run_status x) \<le> status_rank (run_status y)"
    using step_run [OF assms(1) x(1)] by fastforce
  with x(2) frozen_rank show "frozen s' r" by (metis le_trans)
  have other: "k \<noteq> r" if "find_run s k = Some z" "status_rank (run_status z) < 3" for k z
    using that x by auto
  from assms(1) show "items_of s' r = items_of s r"
  proof (cases rule: payroll_step.cases)
    case (ps_begin L facts dto user as k)
    then show ?thesis using create_begin_Inr(7) [OF ps_begin(2)] by (simp add: items_of_def)
  next
    case (ps_commit k dto user as up)
    note c = create_commit_Inr [OF ps_commit(3)]
    from c(1) x(1) have "k \<noteq> r" by auto
    then show ?thesis by (auto simp: items_of_def c(6) item_row_def line_compute.defs)
  next
    case (ps_recalculate L up facts k user)
    from ps_recalculate(2) show ?thesis
      by (rule recalculate_Inr) (erule items_of_update, use other in fastforce, simp)
  next
    case (ps_adjust L up k e adj user)
    from ps_adjust(2) show ?thesis
      by (rule adjust_Inr) (erule items_of_update, use other in fastforce, simp)
  next
    case (ps_process up now key_of uploaded k user)
    from ps_process(2) show ?thesis
      by (rule process_Inr) (erule items_of_update, use other in fastforce, simp)
  next
    case (ps_submit up k user)
    then show ?thesis by (auto simp: items_of_def elim!: submit_Inr)
  next
    case (ps_approve up k user)
    then show ?thesis by (auto simp: items_of_def elim!: approve_Inr)
  next
    case (ps_disburse up now k user)
    then show ?thesis by (auto simp: items_of_def elim!: disburse_Inr)
  qed (simp add: items_of_def)
qed

text \<open>
  C2. Line items of a finished run never change (INV-2): once a run is PROCESSED or DISBURSED, no
  request of any later history changes, adds or removes one of its line items, payslips included,
  and the run never leaves those states.
\<close>

theorem finished_items_frozen:
  assumes "payroll_step\<^sup>*\<^sup>* (s, ps) (s', ps')" and "frozen s r"
  shows "items_of s' r = items_of s r \<and> frozen s' r"
  using assms(1)
proof (induction "(s', ps')" arbitrary: s' ps' rule: rtranclp_induct)
  case base
  then show ?case using assms(2) by simp
next
  case (step y)
  obtain t ts where "y = (t, ts)" by (cases y)
  with step step_frozen [of t ts s' ps' r] show ?case by auto
qed

text \<open>
  The status of a run is linear: along any history it never goes back, and every status
  between the first and the last was held by the run at some point of the history.
\<close>

theorem run_status_linear:
  assumes "payroll_step\<^sup>*\<^sup>* (s, ps) (s', ps')" and "find_run s r = Some x"
  shows "\<exists>y. find_run s' r = Some y \<and> status_rank (run_status x) \<le> status_rank (run_status y) \<and>
    (\<forall>n. status_rank (run_status x) \<le> n \<and> n \<le> status_rank (run_status y) \<longrightarrow>
      (\<exists>t ts z. payroll_step\<^sup>*\<^sup>* (s, ps) (t, ts) \<and> payroll_step\<^sup>*\<^sup>* (t, ts) (s', ps')
        \<and> find_run t r = Some z \<and> status_rank (run_status z) = n))"
proof -
  have x: "run_status_of (s, ps) r = Some (run_status x)" by (simp add: run_status_of_def assms(2))
  from run.never_back [OF assms(1) x] obtain y
    where y: "find_run s' r = Some y" "status_rank (run_status x) \<le> status_rank (run_status y)"
    by (auto simp: run_status_of_def)
  have y': "run_status_of (s', ps') r = Some (run_status y)" by (simp add: run_status_of_def y(1))
  have "\<exists>t ts z. payroll_step\<^sup>*\<^sup>* (s, ps) (t, ts) \<and> payroll_step\<^sup>*\<^sup>* (t, ts) (s', ps')
      \<and> find_run t r = Some z \<and> status_rank (run_status z) = n"
    if "status_rank (run_status x) \<le> n" "n \<le> status_rank (run_status y)" for n
    using run.no_skip [OF assms(1) x y' that] by (force simp: run_status_of_def)
  with y show ?thesis by blast
qed

section \<open>A history of one tenant\<close>

text \<open>
  Two administrators pay April 2026; the tenant's one employee has no work state yet, so the run
  records an exception for them.
\<close>

definition second_admin :: auth_user where
  "second_admin = \<lparr>sub = ''u2'', user_role = COMPANY_ADMIN, user_employee = None\<rparr>"

definition no_facts :: period_facts where
  "no_facts = \<lparr>pf_lop_days = (\<lambda>_. 0), pf_overtime_hours = (\<lambda>_. 0), pf_shift_hours = (\<lambda>_. 0),
     pf_pending_regularizations = 0, pf_holidays = {}, pf_encashable_days = (\<lambda>_. 0),
     pf_declared_exemptions = no_declarations\<rparr>"

definition april :: create_dto where
  "april = \<lparr>cr_period = ''2026-04'', cr_is_reprocess = False, cr_reason = None\<rparr>"

definition sample_tenant :: payroll_db where
  "sample_tenant = empty_db
     \<lparr>users := [\<lparr>u_id = ''u1'', u_role = COMPANY_ADMIN, u_active = True\<rparr>,
                \<lparr>u_id = ''u2'', u_role = COMPANY_ADMIN, u_active = True\<rparr>],
      employees := [sample_employee\<lparr>work_state := None\<rparr>],
      settings := Some default_settings,
      regime_configs := [tax_regime_config.extend (DEFAULT_TAX_REGIME_CONFIG NEW)
        \<lparr>rc_year = financial_year ''2026-04'', rc_regime = NEW\<rparr>]\<rparr>"

definition sample_assembly :: assembly where
  "sample_assembly = \<lparr>as_items = [],
     as_exceptions = [\<lparr>ex_employee = Some ''e1'', ex_type = NO_WORK_STATE\<rparr>], as_folded = []\<rparr>"

definition sample_approvals :: "approval_row list" where
  "sample_approvals = [\<lparr>ap_run = ''r1'', ap_approver = ''u1''\<rparr>, \<lparr>ap_run = ''r1'', ap_approver = ''u2''\<rparr>]"

definition sample_run :: "run_status \<Rightarrow> run_row" where
  "sample_run st = (new_run ''r1'' april sample_admin sample_assembly)\<lparr>run_status := st\<rparr>"

lemma sample_run_simps [simp]:
  "run_id (sample_run st) = ''r1''" "run_status (sample_run st) = st"
  "(sample_run st)\<lparr>run_status := st'\<rparr> = sample_run st'"
  "run_period (sample_run st) = ''2026-04''" "\<not> run_is_reprocess (sample_run st)"
  by (simp_all add: sample_run_def new_run_def april_def)

lemma sample_users [simp]:
  "can_manage sample_admin" "can_manage second_admin" "sub sample_admin = ''u1''" "sub second_admin = ''u2''"
  "active_admins sample_tenant = 2" "no_runs sample_tenant" "runs sample_tenant = []"
  by (simp_all add: can_manage_def sample_admin_def second_admin_def MANAGE_ROLES_def active_admins_def
      sample_tenant_def no_runs_def empty_db_def)

lemma sample_begin: "create_begin decimal_js no_facts april sample_admin sample_tenant = Inr (sample_assembly, sample_tenant)"
proof -
  have same: "snd (get_tax_config (financial_year ''2026-04'') sample_tenant) = sample_tenant"
    by (simp add: get_tax_config_def year_unseeded_def sample_tenant_def tax_regime_config.defs Let_def)
  have settings: "get_settings sample_tenant = (default_settings, sample_tenant)"
    by (simp add: get_settings_def sample_tenant_def)
  have emps: "filter payable_employee (employees sample_tenant) = [sample_employee\<lparr>work_state := None\<rparr>]"
    by (simp add: sample_tenant_def payable_employee_def sample_employee_def)
  have ctx: "\<exists>c. fst (build_context decimal_js no_facts [''e1''] ''2026-04'' sample_tenant) ''e1'' = Some c"
    by (simp add: build_context_def Let_def split_def)
  have "employee_outcome decimal_js no_facts ''2026-04'' default_settings
      (fst (build_context decimal_js no_facts [''e1''] ''2026-04'' sample_tenant)) sample_tenant
      (sample_employee\<lparr>work_state := None\<rparr>) = Inr (excluded ''e1'' NO_WORK_STATE)"
    using ctx by (auto simp: employee_outcome_def compute_line_item_def sample_employee_def Let_def)
  then have "assemble_line_items decimal_js no_facts ''2026-04'' sample_tenant = Inr (sample_assembly, sample_tenant)"
    by (simp add: assemble_line_items_def settings emps Let_def split_def build_context_state same
        add_employee_def excluded_def sample_assembly_def)
      (simp add: sample_employee_def add_employee_def excluded_def no_facts_def build_context_state same)
  then show ?thesis
    by (simp add: create_begin_def april_def regular_run_exists_def guard_simps(2,3))
qed

definition sample_state :: "run_status \<Rightarrow> approval_row list \<Rightarrow> notification list \<Rightarrow> payroll_db" where
  "sample_state st aps out = sample_tenant\<lparr>runs := [sample_run st], approvals := aps, outbox := out\<rparr>"

lemmas sample_handler =
  sample_state_def get_run_or_throw_def find_run_def set_run_def notify_status_change_def
  notify_def write_payroll_audit_def approval_count_def upsert_row_def

lemma sample_requests:
  "\<exists>out. submit_for_review False ''r1'' sample_admin (sample_state DRAFT [] []) = Inr (sample_state REVIEW [] out)"
  "approve False ''r1'' sample_admin (sample_state REVIEW [] out) = Inr (sample_state REVIEW [hd sample_approvals] out)"
  "\<exists>out'. approve False ''r1'' second_admin (sample_state REVIEW [hd sample_approvals] out)
    = Inr (sample_state APPROVED sample_approvals out')"
proof -
  have gate: "assert_payroll_gate (sample_state st aps out) = Inr ()" for st aps out
    using sample_users(5) by (simp add: assert_payroll_gate_def active_admins_def sample_state_def)
  have manage: "assert_can_manage sample_admin = Inr ()" "assert_can_manage second_admin = Inr ()"
    by simp_all
  note simps = gate manage sample_state_def sample_approvals_def
  show "\<exists>out. submit_for_review False ''r1'' sample_admin (sample_state DRAFT [] []) = Inr (sample_state REVIEW [] out)"
    by (auto simp: simps submit_for_review_def sample_handler intro!: payroll_db.equality)
  show "approve False ''r1'' sample_admin (sample_state REVIEW [] out) = Inr (sample_state REVIEW [hd sample_approvals] out)"
    unfolding approve_def manage gate by (simp add: sample_handler sample_approvals_def)
  show "\<exists>out'. approve False ''r1'' second_admin (sample_state REVIEW [hd sample_approvals] out)
    = Inr (sample_state APPROVED sample_approvals out')"
    unfolding approve_def manage gate by (auto simp: sample_handler sample_approvals_def intro!: payroll_db.equality)
qed

lemma sample_path:
  "\<exists>out. payroll_step\<^sup>*\<^sup>* (sample_tenant, []) (sample_state REVIEW [] out, [])"
  "\<exists>out. payroll_step\<^sup>*\<^sup>* (sample_tenant, []) (sample_state APPROVED sample_approvals out, [])"
proof -
  have "create_commit False ''r1'' april sample_admin sample_assembly sample_tenant = Inr (sample_state DRAFT [] [])"
    by (simp add: create_commit_def find_run_def april_def regular_run_exists_def sample_assembly_def
        write_payroll_audit_def sample_state_def sample_run_def new_run_def)
      (simp add: sample_tenant_def empty_db_def)
  then have "payroll_step\<^sup>*\<^sup>* (sample_tenant, []) (sample_state DRAFT [] [], [])"
    using ps_begin [OF sample_begin, of "[]" "''r1''"]
      ps_commit [of "''r1''" april sample_admin sample_assembly "[(''r1'', april, sample_admin, sample_assembly)]"]
    by (force intro: rtranclp_trans r_into_rtranclp)
  with sample_requests(1) ps_submit
  show review: "\<exists>out. payroll_step\<^sup>*\<^sup>* (sample_tenant, []) (sample_state REVIEW [] out, [])"
    by (blast intro: rtranclp.rtrancl_into_rtrancl)
  then obtain out where "payroll_step\<^sup>*\<^sup>* (sample_tenant, []) (sample_state REVIEW [] out, [])" ..
  then have one: "payroll_step\<^sup>*\<^sup>* (sample_tenant, []) (sample_state REVIEW [hd sample_approvals] out, [])"
    using ps_approve [OF sample_requests(2)] by (rule rtranclp.rtrancl_into_rtrancl)
  obtain out' where "approve False ''r1'' second_admin (sample_state REVIEW [hd sample_approvals] out)
      = Inr (sample_state APPROVED sample_approvals out')"
    using sample_requests(3) by blast
  from rtranclp.rtrancl_into_rtrancl [OF one ps_approve [OF this]]
  show "\<exists>out. payroll_step\<^sup>*\<^sup>* (sample_tenant, []) (sample_state APPROVED sample_approvals out, [])" ..
qed

theorem two_person_approval_witness:
  "\<exists>out a b. reachable_from sample_tenant (sample_state APPROVED sample_approvals out)
    \<and> a \<in> set sample_approvals \<and> b \<in> set sample_approvals \<and> ap_run a = ''r1'' \<and> ap_run b = ''r1''
    \<and> ap_approver a \<noteq> ap_approver b"
proof -
  obtain out where reach: "reachable_from sample_tenant (sample_state APPROVED sample_approvals out)"
    using sample_path(2) by (auto simp: reachable_from_def)
  have "find_run (sample_state APPROVED sample_approvals out) ''r1'' = Some (sample_run APPROVED)"
    by (simp add: sample_state_def find_run_def)
  from two_person_approval [OF reach _ this] reach show ?thesis
    by (auto simp: past_review_def sample_state_def)
qed

theorem run_tables_consistent_witness:
  "\<exists>out. reachable_from sample_tenant (sample_state REVIEW [] out)
    \<and> filter (\<lambda>x. run_is_reprocess x \<and> \<not> has_reason x) (runs (sample_state REVIEW [] out)) = []"
proof -
  obtain out where reach: "reachable_from sample_tenant (sample_state REVIEW [] out)"
    using sample_path(1) by (auto simp: reachable_from_def)
  from run_tables_consistent [OF this] reach show ?thesis by (auto simp: filter_empty_conv)
qed

theorem run_status_linear_witness:
  "\<exists>out out' y. payroll_step\<^sup>*\<^sup>* (sample_state REVIEW [] out, []) (sample_state APPROVED sample_approvals out', [])
    \<and> find_run (sample_state APPROVED sample_approvals out') ''r1'' = Some y \<and> 1 \<le> status_rank (run_status y)"
proof -
  obtain out where one: "approve False ''r1'' second_admin (sample_state REVIEW [hd sample_approvals] [])
      = Inr (sample_state APPROVED sample_approvals out)"
    using sample_requests(3) by blast
  have path: "payroll_step\<^sup>*\<^sup>* (sample_state REVIEW [] [], []) (sample_state APPROVED sample_approvals out, [])"
    by (rule rtranclp_trans [OF r_into_rtranclp r_into_rtranclp]) (rule ps_approve [OF sample_requests(2)],
      rule ps_approve [OF one])
  have "find_run (sample_state REVIEW [] []) ''r1'' = Some (sample_run REVIEW)"
    by (simp add: sample_state_def find_run_def)
  from run_status_linear [OF path this] path show ?thesis by auto
qed

text \<open>A processed run with one line item, before its disbursement.\<close>

definition sample_item :: line_item where
  "sample_item = item_row ''r1'' (line_of_result decimal_js ''e1'' 22 22 0 sample_result)"

definition processed_state :: payroll_db where
  "processed_state = (sample_state PROCESSED sample_approvals [])\<lparr>line_items := [sample_item]\<rparr>"

theorem finished_items_frozen_witness:
  "\<exists>s'. disburse False 0 ''r1'' sample_admin processed_state = Inr s'
    \<and> items_of s' ''r1'' = [sample_item] \<and> frozen s' ''r1''"
proof -
  have found: "find_run processed_state ''r1'' = Some (sample_run PROCESSED)"
    by (simp add: processed_state_def sample_state_def find_run_def)
  then obtain s' where s': "disburse False 0 ''r1'' sample_admin processed_state = Inr s'"
    by (simp add: disburse_def get_run_or_throw_def assert_can_manage_def)
  have frozen: "frozen processed_state ''r1''" by (simp add: frozen_def found finished_def)
  have "payroll_step\<^sup>*\<^sup>* (processed_state, []) (s', [])"
    using ps_disburse [OF s'] by (rule r_into_rtranclp)
  from finished_items_frozen [OF this frozen] s' show ?thesis
    by (simp add: items_of_def processed_state_def sample_item_def item_row_def line_compute.defs)
qed

end
