(* ===== verification/RunExample.thy ===== *)
theory RunExample
  imports RunInvariants
begin

text \<open>
  A draft evaluated to the paisa: one tenant, April 2026, an employee with a salary structure and
  pending arrears, and an employee who has no work state yet. The theorems of \<open>RunProperties\<close> are
  applied to it.
\<close>

definition sample_structure :: structure_row where
  "sample_structure = \<lparr>st_id = ''s1'', st_employee = ''e1'', st_ctc_annual = 1200000, st_effective_from = 0,
     st_status = ACTIVE, st_components =
       [\<lparr>ci_code = ''BASIC'', ci_mode = FIXED, ci_value = Some 40000, ci_formula = None, cc_type = ''BASIC'', nc_name = [], nc_sort = 0\<rparr>,
        \<lparr>ci_code = ''HRA'', ci_mode = FIXED, ci_value = Some 10000, ci_formula = None, cc_type = ''HRA'', nc_name = [], nc_sort = 1\<rparr>,
        \<lparr>ci_code = ''PFE'', ci_mode = FIXED, ci_value = Some 1800, ci_formula = None, cc_type = ''PF_EMPLOYER'', nc_name = [], nc_sort = 2\<rparr>]\<rparr>"

definition sample_arrears :: arrears_row where
  "sample_arrears = \<lparr>ar_id = ''a1'', ar_employee = ''e1'', ar_revision = ''v1'', ar_period = ''2026-03'',
     ar_original_run = ''r0'', ar_previous_net = 40000, ar_revised_net = 41500, ar_amount = 1500,
     ar_status = PENDING, ar_folded_into = None\<rparr>"

definition april_settings :: payroll_settings where
  "april_settings = default_settings\<lparr>ps_epf := epf sample_input, ps_esi := esi sample_input\<rparr>"

definition paid_tenant :: payroll_db where
  "paid_tenant = sample_tenant
     \<lparr>employees := [sample_employee, sample_employee\<lparr>emp_id := ''e2'', work_state := None\<rparr>],
      structures := [sample_structure], arrears := [sample_arrears],
      settings := Some april_settings\<rparr>"

lemma april_days:
  "month_range ''2026-04'' = (date_utc 2026 3 1, date_utc 2026 4 1)"
  "compute_payable_days (date_utc 2026 3 1) (date_utc 2026 4 1 - 1) {} [0, 6] 0 None None = (22, 22)"
  "0 \<le> date_utc 2026 3 1" "period_month ''2026-04'' = 4"
proof -
  have "period_year ''2026-04'' = 2026" "period_month ''2026-04'' = 4" by code_simp+
  then show "month_range ''2026-04'' = (date_utc 2026 3 1, date_utc 2026 4 1)" by (simp add: month_range_def)
qed code_simp+

definition april_result :: calculation_result where
  "april_result = sample_result\<lparr>professional_tax := 0, r_tds := 0, total_deductions := 1800, net_pay := 48200\<rparr>"

text \<open>The month's input, with or without the permission of a negative net pay.\<close>

definition april_input :: "bool \<Rightarrow> calculation_input" where
  "april_input negative = sample_input\<lparr>month := 4, pt_slabs := [], tds := None, allow_negative_net := negative\<rparr>"

lemma april_calculated: "calculate_payroll decimal_js (april_input b) = Inr april_result"
proof -
  have one: "ddiv decimal_js 22 22 = 1" by code_simp
  have base: "base_earnings decimal_js sample_monthly 1 (components (april_input b)) = Inr (earnings sample_result)"
    by (simp add: april_input_def base_earnings_def sample_input_def sample_result_def sample_monthly_def
        EMPLOYER_COST_TYPES_def round_paise_def dec_eval places_numeral)
  have "finish_payroll decimal_js (april_input b) 1 (earnings sample_result) = Inr april_result"
    by (simp add: april_input_def april_result_def finish_payroll_def sample_input_def sample_result_def dsum_def
        dec_eval resolve_professional_tax_def epf_contributions_def BASIC_CODE_def contribution_def
        round_rupee_def places_numeral esi_contributions_def overtime_amount_def round_paise_def)
  moreover have "components (april_input b) = components sample_input" "ctc_annual (april_input b) = ctc_annual sample_input"
    "working_days (april_input b) = 22" "payable_days (april_input b) = 22" "overtime (april_input b) = None"
    by (simp_all add: april_input_def) (simp_all add: sample_input_def)
  ultimately show ?thesis
    using one base sample_monthly_eq by (simp add: calculate_payroll_def overtime_earnings_def)
qed

lemma april_input_calculated:
  "calculate_payroll decimal_js (calculator_input april_settings sample_structure [] 4 22 22 None) = Inr april_result"
proof -
  have "calculator_input april_settings sample_structure [] 4 22 22 None = april_input False"
    by (simp add: calculator_input_def april_input_def april_settings_def sample_input_def sample_structure_def
        calculator_component.truncate_def)
  then show ?thesis by (simp add: april_calculated)
qed

definition april_context :: tds_context where
  "april_context = \<lparr>tc_regime = NEW, tc_slabs = [], tc_config = Some (DEFAULT_TAX_REGIME_CONFIG NEW),
     tc_declared_exemptions = 0, tc_elapsed_gross = 0, tc_already_deducted = 0, tc_remaining_months = 12\<rparr>"

lemma april_tds: "month_tds decimal_js april_context 50000 = Inr 0"
  by (simp add: month_tds_def april_context_def compute_monthly_tds_def project_annual_tax_def compute_annual_tax_def
     round_rupee_def dec_eval Let_def slab_tax_def places_numeral)

lemma april_ctx:
  "fst (build_context decimal_js no_facts [''e1'', ''e2''] ''2026-04'' paid_tenant) ''e1'' = Some april_context"
proof -
  have m: "months_remaining_in_financial_year ''2026-04'' = 12" by code_simp
  have "year_unseeded (financial_year ''2026-04'') paid_tenant = False"
    by (simp add: year_unseeded_def paid_tenant_def sample_tenant_def tax_regime_config.defs)
  then show ?thesis
  by (simp add: build_context_def Let_def split_def april_context_def m get_tax_config_def
     by_regime_def paid_tenant_def sample_tenant_def empty_db_def find_choice_def historical_items_def dsum_def
       tax_regime_config.defs tax_regime_config.truncate_def)
qed

lemma april_outcome:
  assumes "ctxs ''e1'' = Some april_context" and "structures s = [sample_structure]"
    and "tenant_weekly_offs s = [0, 6]" and "pt_slab_rows s = []"
  shows "employee_outcome decimal_js no_facts ''2026-04''
      april_settings ctxs s sample_employee
   = Inr (LineItem (line_of_result decimal_js ''e1'' 22 22 0 april_result))"
proof -
  have active: "find_active s ''e1'' = Some sample_structure"
    by (simp add: find_active_def assms(2) sample_structure_def)
  have offs: "effective_weekly_off_days (tenant_weekly_offs s) (Some []) = [0, 6]"
    by (simp add: effective_weekly_off_days_def assms(3))
  have slabs: "state_slabs s KARNATAKA = []"
    by (simp add: state_slabs_def assms(4))
  have m: "period_month ''2026-04'' = 4" by code_simp
  have gross: "gross_earnings april_result = 50000" by (simp add: april_result_def sample_result_def)
  note calc = april_input_calculated
  have emp: "work_state sample_employee = Some KARNATAKA" "emp_id sample_employee = ''e1''"
    "date_of_joining sample_employee = Some 0" "weekly_off_days_override sample_employee = []"
    by (simp_all add: sample_employee_def)
  have facts: "pf_holidays no_facts = {}" "pf_lop_days no_facts e = 0" "pf_overtime_hours no_facts e = 0" for e
    by (simp_all add: no_facts_def)
  have "overtime_input_for decimal_js april_settings
      sample_structure 22 0 0 = Inr None"
    by (simp add: overtime_input_for_def)
  then show ?thesis
    using april_days(3)
    by (simp add: employee_outcome_def compute_line_item_def assms(1) active offs slabs m emp facts april_days(1,2)
        caught_def calc gross april_tds)
qed

definition april_item :: line_item where
  "april_item = item_row ''r1'' (fold_arrears decimal_js [sample_arrears] (line_of_result decimal_js ''e1'' 22 22 0 april_result))"

definition april_assembly :: assembly where
  "april_assembly = \<lparr>as_items = [fold_arrears decimal_js [sample_arrears] (line_of_result decimal_js ''e1'' 22 22 0 april_result)],
     as_exceptions = [\<lparr>ex_employee = Some ''e2'', ex_type = NO_WORK_STATE\<rparr>], as_folded = [''a1'']\<rparr>"

definition april_run_state :: payroll_db where
  "april_run_state = paid_tenant\<lparr>runs := [new_run ''r1'' april sample_admin april_assembly],
     line_items := [april_item],
     arrears := [sample_arrears\<lparr>ar_status := FOLDED, ar_folded_into := Some ''r1''\<rparr>]\<rparr>"

lemma paid_tenant_ready: "run_inv paid_tenant" "unique_key ar_id (arrears paid_tenant)"
  by (simp_all add: run_inv_def paid_tenant_def sample_tenant_def empty_db_def unique_key_def regular_runs_def)

lemma april_assembled:
  "assemble_line_items decimal_js no_facts ''2026-04'' paid_tenant = Inr (april_assembly, paid_tenant)"
proof -
  have same: "snd (get_tax_config (financial_year ''2026-04'') paid_tenant) = paid_tenant"
    by (simp add: get_tax_config_def year_unseeded_def paid_tenant_def sample_tenant_def tax_regime_config.defs Let_def)
  let ?ps = "april_settings"
  let ?e2 = "sample_employee\<lparr>emp_id := ''e2'', work_state := None\<rparr>"
  have settings: "get_settings paid_tenant = (?ps, paid_tenant)"
    by (simp add: get_settings_def paid_tenant_def)
  have emps: "filter payable_employee (employees paid_tenant) = [sample_employee, ?e2]"
    "map emp_id [sample_employee, ?e2] = [''e1'', ''e2'']"
    by (simp_all add: paid_tenant_def payable_employee_def sample_employee_def)
  let ?ctx = "fst (build_context decimal_js no_facts [''e1'', ''e2''] ''2026-04'' paid_tenant)"
  have "\<exists>c. ?ctx ''e2'' = Some c" by (simp add: build_context_def Let_def split_def)
  then have two: "employee_outcome decimal_js no_facts ''2026-04'' ?ps ?ctx paid_tenant ?e2 = Inr (excluded ''e2'' NO_WORK_STATE)"
    by (auto simp: employee_outcome_def compute_line_item_def sample_employee_def Let_def)
  have tables: "structures paid_tenant = [sample_structure]" "tenant_weekly_offs paid_tenant = [0, 6]" "pt_slab_rows paid_tenant = []"
    by (simp_all add: paid_tenant_def sample_tenant_def empty_db_def)
  have pend: "pending_arrears paid_tenant ''e1'' = [sample_arrears]" "ar_id sample_arrears = ''a1''"
     "emp_id sample_employee = ''e1''"
    by (simp_all add: pending_arrears_def paid_tenant_def sample_arrears_def sample_employee_def)
  show ?thesis
    unfolding assemble_line_items_def settings Let_def prod.case emps split_def build_context_state same fst_conv snd_conv
    by (simp add: add_employee_def two april_ctx april_outcome [OF _ tables] excluded_def pend april_assembly_def)
     (simp add: no_facts_def)
qed

definition april_again :: create_dto where
  "april_again = \<lparr>cr_period = ''2026-04'', cr_is_reprocess = True, cr_reason = Some ''late joiner''\<rparr>"

lemma april_begin:
  "create_begin decimal_js no_facts april sample_admin paid_tenant = Inr (april_assembly, paid_tenant)"
  "create_begin decimal_js no_facts april_again second_admin paid_tenant = Inr (april_assembly, paid_tenant)"
proof -
  have "runs paid_tenant = []" "assert_payroll_gate paid_tenant = Inr ()"
    using sample_users(5) by (simp_all add: paid_tenant_def assert_payroll_gate_def active_admins_def)
  then show "create_begin decimal_js no_facts april sample_admin paid_tenant = Inr (april_assembly, paid_tenant)"
    "create_begin decimal_js no_facts april_again second_admin paid_tenant = Inr (april_assembly, paid_tenant)"
    using april_assembled
    by (simp_all add: create_begin_def april_def april_again_def regular_run_exists_def assert_can_manage_def
        assert_payroll_gate_def)
qed

lemma april_committed:
  "create_commit False ''r1'' april sample_admin april_assembly paid_tenant = Inr april_run_state"
proof -
  have "runs paid_tenant = []" "line_items paid_tenant = []" "arrears paid_tenant = [sample_arrears]"
    by (simp_all add: paid_tenant_def sample_tenant_def empty_db_def)
  then show ?thesis
    by (simp add: create_commit_def find_run_def regular_run_exists_def
      write_payroll_audit_def april_run_state_def april_item_def)
     (simp add: april_assembly_def sample_arrears_def)
qed

lemma april_created: "create_draft decimal_js False no_facts ''r1'' april sample_admin paid_tenant = Inr april_run_state"
  by (simp add: create_draft_def april_begin april_committed)

text \<open>The reprocess that began before the regular run was committed.\<close>

lemma april_overlap:
  "\<exists>s'. create_commit False ''r2'' april_again second_admin april_assembly april_run_state = Inr s'"
proof -
  have "find_run april_run_state ''r2'' = None"
    by (simp add: april_run_state_def find_run_def new_run_def)
  then show ?thesis by (simp add: create_commit_def april_again_def) (simp add: april_assembly_def)
qed

lemma april_recalculated:
  "\<exists>s'. recalculate decimal_js False no_facts ''r1'' sample_admin april_run_state = Inr s'"
proof -
  have run: "find_run april_run_state ''r1'' = Some (new_run ''r1'' april sample_admin april_assembly)"
    by (simp add: april_run_state_def find_run_def new_run_def)
  have same: "snd (get_tax_config (financial_year ''2026-04'') april_run_state) = april_run_state"
    by (simp add: get_tax_config_def year_unseeded_def april_run_state_def paid_tenant_def sample_tenant_def
        tax_regime_config.defs Let_def)
  let ?ps = "april_settings"
  have settings: "get_settings april_run_state = (?ps, april_run_state)"
    by (simp add: get_settings_def april_run_state_def paid_tenant_def)
  have item: "li_run april_item = ''r1''" "li_employee april_item = ''e1''"
    by (simp_all add: april_item_def item_row_def stored_def line_compute.defs fold_arrears_def line_of_result_def)
  have items: "items_of april_run_state ''r1'' = [april_item]" "line_items april_run_state = [april_item]"
    by (simp_all add: items_of_def april_run_state_def item)
  have emps: "employees april_run_state = [sample_employee, sample_employee\<lparr>emp_id := ''e2'', work_state := None\<rparr>]"
    "emp_id sample_employee = ''e1''"
    by (simp_all add: april_run_state_def paid_tenant_def sample_employee_def)
  have tables: "structures april_run_state = [sample_structure]" "tenant_weekly_offs april_run_state = [0, 6]"
    "pt_slab_rows april_run_state = []"
    by (simp_all add: april_run_state_def paid_tenant_def sample_tenant_def empty_db_def)
  have m: "months_remaining_in_financial_year ''2026-04'' = 12" by code_simp
  have "year_unseeded (financial_year ''2026-04'') april_run_state = False"
    by (simp add: year_unseeded_def april_run_state_def paid_tenant_def sample_tenant_def tax_regime_config.defs)
  then have ctx: "fst (build_context decimal_js no_facts [''e1''] ''2026-04'' april_run_state) ''e1'' = Some april_context"
    by (simp add: build_context_def Let_def split_def april_context_def m get_tax_config_def
      by_regime_def april_run_state_def paid_tenant_def sample_tenant_def empty_db_def find_choice_def
      historical_items_def dsum_def tax_regime_config.defs tax_regime_config.truncate_def new_run_def finished_def)
  note out = ctx april_outcome [OF _ tables]
  show ?thesis
    by (simp add: recalculate_def assert_can_manage_def get_run_or_throw_def run new_run_def april_def settings items
        item emps build_context_state same recompute_item_def out split_def write_items_def frozen_def finished_def)
qed

end
