(* ===== verification/RunProperties.thy ===== *)
theory RunProperties
  imports RunExample "HOL-Library.Multiset"
begin

text \<open>
  What the requests of \<open>PayrollRunService\<close> do: who is in a run, how arrears are folded, what an
  adjustment and a recalculation change, which requests succeed in which status, and who may read.
\<close>

section \<open>Assembly\<close>

lemma caught_cases:
  "caught e r k = Inr z \<longleftrightarrow> (\<exists>x. r = Inr x \<and> k x = Inr z)
     \<or> (z = excluded e CALCULATION_ERROR \<and> (\<exists>c. r = Inl c \<and> c \<noteq> AmountMissing \<and> (\<forall>x. c \<noteq> Structure x)))"
  by (cases r) (auto simp: caught_def split: calculation_error.splits)

text \<open>Whom an outcome is about.\<close>

fun outcome_employee :: "outcome \<Rightarrow> id option" where
  "outcome_employee (LineItem c) = Some (li_employee c)"
| "outcome_employee (Excluded x) = ex_employee x"

lemma compute_line_item_employee:
  assumes "compute_line_item L emp st period ps offs hol slabs lop ot sh ctx = Inr z"
  shows "outcome_employee z = Some (emp_id emp)
    \<and> (\<forall>c. z = LineItem c \<longrightarrow> li_adjustments c = [] \<and> li_net_pay c = net_pay (li_snapshot c)
        \<and> work_state emp \<noteq> None \<and> st \<noteq> None)"
  using assms
  by (auto simp: compute_line_item_def excluded_def Let_def split_def and_then_Inr_iff caught_cases
      line_of_result_def split: option.splits if_splits)

lemma employee_outcome_employee:
  "employee_outcome L facts period ps ctxs s emp = Inr z \<Longrightarrow> outcome_employee z = Some (emp_id emp)
    \<and> (\<forall>c. z = LineItem c \<longrightarrow> li_adjustments c = [] \<and> li_net_pay c = net_pay (li_snapshot c)
        \<and> find_active s (emp_id emp) \<noteq> None)"
  by (auto simp: employee_outcome_def Let_def dest: compute_line_item_employee split: option.splits)

lemma fold_arrears_employee [simp]: "li_employee (fold_arrears L as c) = li_employee c"
  by (simp add: fold_arrears_def)

definition arrears_adjustment :: "arrears_row \<Rightarrow> adjustment" where
  "arrears_adjustment a = \<lparr>adj_type = ''ARREARS'', adj_amount = to_number (ar_amount a),
     adj_note = Some (''Salary revision arrears for '' @ ar_period a)\<rparr>"

lemma fold_arrears_adjustments:
  "li_adjustments c = [] \<Longrightarrow> li_adjustments (fold_arrears L as c) = map arrears_adjustment as"
  by (simp add: fold_arrears_def arrears_adjustment_def)

text \<open>What the loop over the employees has built after each of them.\<close>

definition assembled :: "payroll_db \<Rightarrow> id list \<Rightarrow> assembly \<Rightarrow> bool" where
  "assembled s ids acc \<longleftrightarrow>
     image_mset Some (mset (map li_employee (as_items acc))) + mset (map ex_employee (as_exceptions acc))
       = image_mset Some (mset ids)
     \<and> as_folded acc = concat (map (\<lambda>i. map ar_id (pending_arrears s (li_employee i))) (as_items acc))
     \<and> (\<forall>i \<in> set (as_items acc).
          li_adjustments i = map arrears_adjustment (pending_arrears s (li_employee i)))"

lemma add_employee_Inr:
  "add_employee L out s emp acc = Inr acc' \<longleftrightarrow>
     (\<exists>c. out emp = Inr (LineItem c) \<and>
        acc' = acc\<lparr>as_items := as_items acc @ [fold_arrears L (pending_arrears s (emp_id emp)) c],
                   as_folded := as_folded acc @ map ar_id (pending_arrears s (emp_id emp))\<rparr>)
   \<or> (\<exists>x. out emp = Inr (Excluded x) \<and> acc' = acc\<lparr>as_exceptions := as_exceptions acc @ [x]\<rparr>)"
  by (auto simp: add_employee_def and_then_def Let_def split: sum.splits outcome.splits)

lemma add_employee_assembled:
  assumes "add_employee L (employee_outcome L facts period ps ctxs s) s emp acc = Inr acc'"
    and "assembled s ids acc"
  shows "assembled s (ids @ [emp_id emp]) acc'"
  using assms by (auto simp: add_employee_Inr assembled_def fold_arrears_adjustments
      dest!: employee_outcome_employee)

lemma fold_assembled:
  assumes "fold_res (add_employee L (employee_outcome L facts period ps ctxs s) s) emps acc = Inr acc'"
    and "assembled s ids acc"
  shows "assembled s (ids @ map emp_id emps) acc'"
  using assms
proof (induction emps arbitrary: acc ids)
  case (Cons emp emps)
  then obtain t where "add_employee L (employee_outcome L facts period ps ctxs s) s emp acc = Inr t"
    "fold_res (add_employee L (employee_outcome L facts period ps ctxs s) s) emps t = Inr acc'"
    by (auto simp: and_then_Inr_iff)
  with Cons.IH [OF this(2)] add_employee_assembled Cons.prems(2) show ?case by fastforce
qed simp

lemma assemble_assembled:
  assumes "assemble_line_items L facts period s = Inr (as, s')"
  obtains acc where "assembled s (map emp_id (filter payable_employee (employees s))) acc"
    "as_items as = as_items acc" "as_folded as = as_folded acc"
    "as_exceptions as = as_exceptions acc @ (if pf_pending_regularizations facts > 0
        then [\<lparr>ex_employee = None, ex_type = PENDING_REGULARIZATIONS\<rparr>] else [])"
proof -
  let ?s1 = "snd (get_settings s)" and ?emps = "filter payable_employee (employees s)"
  let ?ctx = "build_context L facts (map emp_id ?emps) period ?s1"
  let ?out = "employee_outcome L facts period (fst (get_settings s)) (fst ?ctx) (snd ?ctx)"
  from assms obtain acc where acc: "fold_res (add_employee L ?out (snd ?ctx)) ?emps
      \<lparr>as_items = [], as_exceptions = [], as_folded = []\<rparr> = Inr acc"
    and as: "as = acc\<lparr>as_exceptions := as_exceptions acc @
               (if pf_pending_regularizations facts > 0
                then [\<lparr>ex_employee = None, ex_type = PENDING_REGULARIZATIONS\<rparr>] else [])\<rparr>"
    by (auto simp: assemble_line_items_def Let_def split_def and_then_Inr_iff)
  have "assembled (snd ?ctx) (map emp_id ?emps) acc"
    using fold_assembled [OF acc, of "[]"] by (simp add: assembled_def)
  moreover have "pending_arrears (snd ?ctx) = pending_arrears s"
    by (simp add: pending_arrears_def build_context_state fun_eq_iff)
  ultimately have "assembled s (map emp_id ?emps) acc" by (simp add: assembled_def)
  with that as show thesis by simp
qed

section \<open>A created draft\<close>

lemma item_row_selects [simp]:
  "li_employee (item_row r c) = li_employee c" "li_adjustments (item_row r c) = li_adjustments c"
  "li_run (item_row r c) = r" "li_net_pay (item_row r c) = money_col (li_net_pay c)"
  "li_payslip_key (item_row r c) = None"
  by (simp_all add: item_row_def stored_def line_compute.defs)

lemma find_run_commit:
  assumes "create_commit up r dto user as s = Inr s'"
  shows "find_run s' r = Some (new_run r dto user as)"
  using create_commit_Inr(1,4) [OF assms] by (simp add: find_run_def find_row_append new_run_def del: find_row_None)

lemma create_draft_Inr:
  assumes "create_draft L up facts r dto user s = Inr s'" and "run_inv s"
  obtains as acc where "find_run s' r = Some (new_run r dto user as)"
    "items_of s' r = map (item_row r) (as_items as)"
    "assembled s (map emp_id (filter payable_employee (employees s))) acc"
    "as_items as = as_items acc" "as_folded as = as_folded acc"
    "as_exceptions as = as_exceptions acc @ (if pf_pending_regularizations facts > 0
        then [\<lparr>ex_employee = None, ex_type = PENDING_REGULARIZATIONS\<rparr>] else [])"
    "arrears s' = update_rows (\<lambda>a. ar_id a \<in> set (as_folded as))
       (\<lambda>a. a\<lparr>ar_status := FOLDED, ar_folded_into := Some r\<rparr>) (arrears s)"
proof -
  from assms(1) obtain as s1 where b: "create_begin L facts dto user s = Inr (as, s1)"
    and c: "create_commit up r dto user as s1 = Inr s'"
    by (auto simp: create_draft_def and_then_Inr_iff)
  note bg = create_begin_Inr [OF b] and commit = create_commit_Inr [OF c]
  from b have a: "assemble_line_items L facts (cr_period dto) s = Inr (as, s1)"
    by (auto simp: create_begin_def and_then_Inr_iff split: if_splits)
  have "arrears s1 = arrears s" using assemble_selects(4) [OF a] .
  with c have ar: "arrears s' = update_rows (\<lambda>a. ar_id a \<in> set (as_folded as))
       (\<lambda>a. a\<lparr>ar_status := FOLDED, ar_folded_into := Some r\<rparr>) (arrears s)"
    by (auto simp: create_commit_def split: if_splits)
  have "find_run s r = None" using commit(1) find_run_cong [OF bg(5)] by simp
  then have "li_run li \<noteq> r" if "li \<in> set (line_items s)" for li
    using that assms(2) by (auto simp: run_inv_def)
  then have items: "items_of s' r = map (item_row r) (as_items as)"
    by (auto simp: items_of_def commit(6) bg(7))
  from a show thesis
    by (rule assemble_assembled) (rule that [OF find_run_commit [OF c] items _ _ _ _ ar])
qed

text \<open>
  A draft accounts for everyone: each employee who is neither separated nor yet to join has
  either one line item or one exception in it, and nobody else has any.
\<close>

theorem everyone_accounted_for:
  assumes "create_draft L up facts r dto user s = Inr s'" and "run_inv s"
  shows "\<exists>run. find_run s' r = Some run \<and> run_status run = DRAFT \<and>
    image_mset Some (mset (map li_employee (items_of s' r)))
      + filter_mset (\<lambda>x. x \<noteq> None) (mset (map ex_employee (run_exceptions run)))
    = image_mset Some (mset (map emp_id (filter payable_employee (employees s))))"
  using assms
proof (rule create_draft_Inr)
  fix as acc
  let ?ids = "map emp_id (filter payable_employee (employees s))"
  let ?extra = "if pf_pending_regularizations facts > 0
        then [\<lparr>ex_employee = None, ex_type = PENDING_REGULARIZATIONS\<rparr>] else []"
  assume as: "find_run s' r = Some (new_run r dto user as)"
    "items_of s' r = map (item_row r) (as_items as)"
    "assembled s ?ids acc" "as_items as = as_items acc" "as_exceptions as = as_exceptions acc @ ?extra"
  have part: "image_mset Some (mset (map li_employee (as_items acc))) + mset (map ex_employee (as_exceptions acc))
      = image_mset Some (mset ?ids)"
    using as(3) by (simp add: assembled_def)
  then have "set_mset (mset (map ex_employee (as_exceptions acc))) \<subseteq> set_mset (image_mset Some (mset ?ids))"
    by (metis set_mset_union sup_ge2)
  then have some: "\<forall>x \<in># mset (map ex_employee (as_exceptions acc)). x \<noteq> None" by auto
  have "filter_mset (\<lambda>x. x \<noteq> None) (mset (map ex_employee (as_exceptions as)))
      = mset (map ex_employee (as_exceptions acc))"
    using some by (simp add: as(5) filter_mset_eq_conv)
  with part as(1,2,4) show ?thesis by (simp add: new_run_def o_def multiset.map_comp)
qed

theorem everyone_accounted_for_witness:
  "map ex_employee (run_exceptions (new_run ''r1'' april sample_admin april_assembly)) = [Some ''e2'']
    \<and> image_mset Some (mset (map li_employee (items_of april_run_state ''r1''))) + {# Some ''e2'' #}
      = image_mset Some (mset (map emp_id (filter payable_employee (employees paid_tenant))))"
proof -
  have "find_run april_run_state ''r1'' = Some (new_run ''r1'' april sample_admin april_assembly)"
    by (simp add: april_run_state_def find_run_def new_run_def)
  with everyone_accounted_for [OF april_created paid_tenant_ready(1)] show ?thesis
    by (auto simp: new_run_def april_assembly_def)
qed



section \<open>Adjusting and recalculating\<close>

text \<open>
  An adjustment replaces the item's list of adjustments and its net pay, which becomes gross
  pay less the four deductions plus the adjustments; every other figure of the item, and every
  other item, stays as it was.
\<close>

theorem adjustment_effect:
  assumes "set_line_item_adjustments L up r e adj user s = Inr s'"
  shows "\<exists>item. find_item s r e = Some item
    \<and> find_item s' r e = Some (item\<lparr>li_adjustments := adj,
        li_net_pay := money_col (dplus L (base_net L item) (of_number (adjustment_total adj)))\<rparr>)
    \<and> filter (\<lambda>li. item_key li \<noteq> (r, e)) (line_items s') = filter (\<lambda>li. item_key li \<noteq> (r, e)) (line_items s)"
  using assms
proof (rule adjust_Inr)
  fix run item f
  assume a: "find_item s r e = Some item"
    "line_items s' = update_rows (\<lambda>li. li_run li = r \<and> li_employee li = e) f (line_items s)"
    "f = (\<lambda>li. li\<lparr>li_adjustments := adj,
        li_net_pay := money_col (dplus L (base_net L item) (of_number (adjustment_total adj)))\<rparr>)"
  have "find_item s' r e = map_option f (find_item s r e)"
    unfolding find_item_def a(2) by (rule find_row_update_same) (simp add: a(3))
  moreover have "filter (\<lambda>li. item_key li \<noteq> (r, e)) (line_items s') = filter (\<lambda>li. item_key li \<noteq> (r, e)) (line_items s)"
    unfolding a(2) by (rule filter_update_rows_disjoint) (simp_all add: item_key_def a(3))
  ultimately show ?thesis using a(1,3) by simp
qed

theorem adjustment_effect_witness:
  "\<exists>s'. set_line_item_adjustments decimal_js False ''r1'' ''e1'' [] sample_admin april_run_state = Inr s'
    \<and> map_option li_adjustments (find_item s' ''r1'' ''e1'') = Some []"
proof -
  have item: "li_run april_item = ''r1''" "li_employee april_item = ''e1''"
    by (simp_all add: april_item_def line_of_result_def)
  have run: "find_run april_run_state ''r1'' = Some (new_run ''r1'' april sample_admin april_assembly)"
    by (simp add: april_run_state_def find_run_def new_run_def)
  have items: "line_items april_run_state = [april_item]" by (simp add: april_run_state_def)
  obtain s' where s': "set_line_item_adjustments decimal_js False ''r1'' ''e1'' [] sample_admin april_run_state = Inr s'"
    by (simp add: set_line_item_adjustments_def assert_can_manage_def get_run_or_throw_def run new_run_def
        find_item_def items item write_items_def frozen_def finished_def)
  from adjustment_effect [OF this] s' show ?thesis by auto
qed

lemma recompute_item_Inr:
  "recompute_item L out s i = Inr u \<longleftrightarrow> (\<exists>emp c. find_row (\<lambda>e. emp_id e = li_employee i) (employees s) = Some emp
     \<and> out emp = Inr (LineItem c) \<and> u = (li_employee i, c))"
  by (auto simp: recompute_item_def and_then_def simp del: find_row_None
      split: option.splits sum.splits outcome.splits)

lemma recompute_items:
  assumes "map_res (recompute_item L (employee_outcome L facts period ps ctxs s) s) items = Inr updates"
    and "li \<in> set items"
  obtains c where "map_of updates (li_employee li) = Some c" "li_net_pay c = net_pay (li_snapshot c)"
proof -
  let ?g = "recompute_item L (employee_outcome L facts period ps ctxs s) s"
  have each: "\<exists>c. u = (li_employee i, c) \<and> li_net_pay c = net_pay (li_snapshot c)" if "?g i = Inr u" for i u
    using that by (auto simp: recompute_item_Inr dest: employee_outcome_employee)
  from assms have "\<exists>u \<in> set updates. fst u = li_employee li"
    unfolding map_res_Inr by (induction rule: list_all2_induct) (auto dest: each)
  then have "map_of updates (li_employee li) \<noteq> None" unfolding map_of_eq_None_iff by force
  then obtain c where c: "map_of updates (li_employee li) = Some c" by auto
  then have "(li_employee li, c) \<in> set updates" by (rule map_of_SomeD)
  with assms(1) obtain i where "?g i = Inr (li_employee li, c)"
    unfolding map_res_Inr by (auto simp: list_all2_conv_all_nth in_set_conv_nth)
  with each c that show thesis by blast
qed

text \<open>
  A recalculation recomputes every line item of its run and nothing else: the employee, the
  adjustments and the payslip of an item survive it, and its net pay is the net pay of the new
  calculation plus those adjustments; other runs' items are untouched.
\<close>

theorem recalculation_effect:
  assumes "recalculate L up facts r user s = Inr s'"
  shows "list_all2 (\<lambda>i j. item_key j = item_key i \<and> li_adjustments j = li_adjustments i
      \<and> li_payslip_key j = li_payslip_key i
      \<and> (if li_run i = r then li_net_pay j = money_col (dplus L (net_pay (li_snapshot j))
            (of_number (adjustment_total (li_adjustments i))))
         else j = i)) (line_items s) (line_items s')"
proof -
  let ?s2 = "snd (get_settings s)"
  from assms obtain run where run: "get_run_or_throw s r = Inr run"
    by (auto simp: recalculate_def and_then_Inr_iff)
  let ?ids = "map emp_id (filter (\<lambda>e. emp_id e \<in> li_employee ` set (items_of s r)) (employees ?s2))"
  let ?ctx = "build_context L facts ?ids (run_period run) ?s2"
  let ?out = "employee_outcome L facts (run_period run) (fst (get_settings s)) (fst ?ctx) (snd ?ctx)"
  from assms run obtain updates s3 where
    u: "map_res (recompute_item L ?out (snd ?ctx)) (items_of s r) = Inr updates"
    and w: "write_items (\<lambda>li. li_run li = r)
        (\<lambda>li. case map_of updates (li_employee li) of None \<Rightarrow> li | Some c \<Rightarrow> recomputed L c li) (snd ?ctx) = Inr s3"
    and s': "s' = write_payroll_audit up user ''payroll.run_recalculated'' ''payroll_run'' (Some r) s3"
    unfolding recalculate_def by (auto simp: and_then_Inr_iff Let_def split_def split: if_splits)
  have items: "line_items s' = update_rows (\<lambda>li. li_run li = r)
        (\<lambda>li. case map_of updates (li_employee li) of None \<Rightarrow> li | Some c \<Rightarrow> recomputed L c li) (line_items s)"
    using write_items_Inr(1) [OF w] by (simp add: s' build_context_state)
  show ?thesis unfolding items update_rows_def list_all2_map2
  proof (rule list_all2_same [THEN iffD2], rule ballI)
    fix i assume i: "i \<in> set (line_items s)"
    let ?j = "if li_run i = r then case map_of updates (li_employee i) of None \<Rightarrow> i | Some c \<Rightarrow> recomputed L c i else i"
    show "item_key ?j = item_key i \<and> li_adjustments ?j = li_adjustments i \<and> li_payslip_key ?j = li_payslip_key i
      \<and> (if li_run i = r
         then li_net_pay ?j = money_col (dplus L (net_pay (li_snapshot ?j)) (of_number (adjustment_total (li_adjustments i))))
         else ?j = i)"
    proof (cases "li_run i = r")
      case True
      with i have "i \<in> set (items_of s r)" by (simp add: items_of_def)
      with u obtain c where "map_of updates (li_employee i) = Some c" "li_net_pay c = net_pay (li_snapshot c)"
        by (rule recompute_items)
      with True show ?thesis by (simp add: recomputed_def stored_def item_key_def)
    qed simp
  qed
qed

theorem recalculation_effect_witness:
  "\<exists>s'. recalculate decimal_js False no_facts ''r1'' sample_admin april_run_state = Inr s'
    \<and> map li_adjustments (line_items s') = map li_adjustments (line_items april_run_state)"
proof -
  obtain s' where s': "recalculate decimal_js False no_facts ''r1'' sample_admin april_run_state = Inr s'"
    using april_recalculated by blast
  from recalculation_effect [OF this]
  have "list_all2 (\<lambda>i j. li_adjustments j = li_adjustments i) (line_items april_run_state) (line_items s')"
    by (rule list_all2_mono) simp
  then have "map li_adjustments (line_items s') = map li_adjustments (line_items april_run_state)"
    by (induction rule: list_all2_induct) simp_all
  with s' show ?thesis by blast
qed

section \<open>Guards\<close>

lemma handlers_succeed:
  assumes "find_run s r = Some run"
  shows "(\<exists>s'. submit_for_review up r user s = Inr s') \<longleftrightarrow> can_manage user \<and> run_status run = DRAFT"
    and "(\<exists>s'. approve up r user s = Inr s')
      \<longleftrightarrow> can_manage user \<and> 2 \<le> active_admins s \<and> run_status run = REVIEW"
    and "(\<exists>s'. disburse up now r user s = Inr s') \<longleftrightarrow> can_manage user \<and> run_status run = PROCESSED"
  using assms
  by (auto simp: submit_for_review_def approve_def disburse_def and_then_Inr_iff get_run_or_throw_Inr Let_def)

lemma process_succeeds:
  assumes "find_run s r = Some run"
  shows "(\<exists>s'. process up now key_of uploaded r user s = Inr s') \<longleftrightarrow>
    can_manage user \<and> run_status run = APPROVED \<and> (\<forall>i \<in> set (items_of s r). has_dob s i \<longrightarrow> uploaded (li_employee i))"
proof -
  have "\<exists>t. write_items (\<lambda>li. li_run li = r \<and> has_dob s li) f s = Inr t" if "run_status run = APPROVED" for f
    using assms that by (auto simp: write_items_def frozen_def finished_def)
  then show ?thesis
    using assms by (auto simp: process_def and_then_Inr_iff get_run_or_throw_Inr Let_def)
qed

text \<open>
  C39. Which requests succeed: for a run that exists, each transition succeeds exactly for a
  manager and in its one status; an approval needs the payroll gate as well, and a processing
  that every payslip with a date of birth is uploaded.
\<close>

theorem transitions_allowed:
  assumes "find_run s r = Some run"
  shows "((\<exists>s'. submit_for_review up r user s = Inr s') = (can_manage user \<and> run_status run = DRAFT))
    \<and> ((\<exists>s'. approve up r user s = Inr s') = (can_manage user \<and> 2 \<le> active_admins s \<and> run_status run = REVIEW))
    \<and> ((\<exists>s'. process up now key_of uploaded r user s = Inr s') = (can_manage user \<and> run_status run = APPROVED
        \<and> (\<forall>i \<in> set (items_of s r). has_dob s i \<longrightarrow> uploaded (li_employee i))))
    \<and> ((\<exists>s'. disburse up now r user s = Inr s') = (can_manage user \<and> run_status run = PROCESSED))"
  using handlers_succeed [OF assms] process_succeeds [OF assms] by blast

theorem transitions_allowed_witness:
  "(\<exists>s'. submit_for_review False ''r1'' sample_admin april_run_state = Inr s')
   \<and> \<not> (\<exists>s'. approve False ''r1'' sample_admin april_run_state = Inr s')"
proof -
  have run: "find_run april_run_state ''r1'' = Some (new_run ''r1'' april sample_admin april_assembly)"
    by (simp add: april_run_state_def find_run_def new_run_def)
  have "can_manage sample_admin" by simp
  with transitions_allowed [OF run, where user = sample_admin and up = False]
  show ?thesis by (auto simp: new_run_def)
qed

text \<open>
  The payroll gate (INV-4): without the right role, or while the tenant has fewer than two
  active company administrators, creating a draft and approving a run are refused, with the same
  error whatever the rest of the request, and nobody else is told more.
\<close>

theorem payroll_gate:
  assumes "\<not> can_manage user \<or> active_admins s < 2"
  shows "create_draft L up facts r dto user s
      = Inl (if can_manage user then Conflict PayrollLocked else Forbidden NotAuthorized)
    \<and> approve up r user s = Inl (if can_manage user then Conflict PayrollLocked else Forbidden NotAuthorized)"
  using assms
  by (auto simp: create_draft_def create_begin_def approve_def assert_can_manage_def assert_payroll_gate_def)

theorem payroll_gate_witness:
  "approve False ''r1'' sample_admin empty_db = Inl (Conflict PayrollLocked)"
proof -
  have "\<not> can_manage sample_admin \<or> active_admins empty_db < 2" by (simp add: active_admins_def empty_db_def)
  from payroll_gate [OF this, of decimal_js False no_facts "''r1''" april] show ?thesis by simp
qed

text \<open>
  C40. Approvals make progress and cannot be doubled: approving a run under review adds exactly
  one approval unless the user had approved it before, and the run becomes APPROVED exactly when
  two approvals are on record; a repeated approval changes no approval.
\<close>

theorem approval_progress:
  assumes "approve up r user s = Inr s'" and "unique_key approval_key (approvals s)"
  shows "approval_count s' r = (if \<lparr>ap_run = r, ap_approver = sub user\<rparr> \<in> set (approvals s)
      then approval_count s r else Suc (approval_count s r))
    \<and> map_option run_status (find_run s' r) = Some (if 2 \<le> approval_count s' r then APPROVED else REVIEW)
    \<and> (\<lparr>ap_run = r, ap_approver = sub user\<rparr> \<in> set (approvals s) \<longrightarrow> approvals s' = approvals s)"
  using assms(1)
proof (rule approve_Inr)
  fix run
  let ?new = "\<lparr>ap_run = r, ap_approver = sub user\<rparr>"
  assume a: "find_run s r = Some run" "run_status run = REVIEW"
    "approvals s' = upsert_row (\<lambda>a. ap_run a = r \<and> ap_approver a = sub user) id ?new (approvals s)"
    "runs s' = (if 2 \<le> approval_count s' r
      then update_rows (\<lambda>x. run_id x = r) (\<lambda>x. x\<lparr>run_status := APPROVED\<rparr>) (runs s) else runs s)"
  have mem: "(\<exists>a \<in> set (approvals s). ap_run a = r \<and> ap_approver a = sub user) \<longleftrightarrow> ?new \<in> set (approvals s)"
    by (metis approval_row.select_convs approval_row.surjective old.unit.exhaust)
  have up: "approvals s' = (if ?new \<in> set (approvals s) then approvals s else approvals s @ [?new])"
    unfolding a(3) upsert_row_def using mem by (auto simp: update_rows_def intro!: map_idI)
  have "map_option run_status (find_run s' r) = Some (if 2 \<le> approval_count s' r then APPROVED else REVIEW)"
  proof (cases "2 \<le> approval_count s' r")
    case True
    with a(4) have "runs s' = update_rows (\<lambda>x. run_id x = r) (\<lambda>x. x\<lparr>run_status := APPROVED\<rparr>) (runs s)" by simp
    from find_run_set [OF this, of r] a(1) True show ?thesis by simp
  next
    case False
    with a find_run_cong [of s' s r] show ?thesis by simp
  qed
  with up show ?thesis by (auto simp: approval_count_def)
qed

theorem approval_progress_witness:
  "\<exists>s'. approve False ''r1'' sample_admin (sample_state REVIEW [] []) = Inr s' \<and> approval_count s' ''r1'' = 1"
  using approval_progress [OF sample_requests(2), of "[]"] sample_requests(2) [of "[]"]
  by (auto simp: sample_state_def approval_count_def unique_key_def sample_approvals_def)

section \<open>Reading\<close>

text \<open>
  Nobody reads pay that is not theirs to read: a payslip is answered only to a manager or to
  its own employee, only from a finished run of that period, and it is the one stored for that
  employee; a run's line items are shown to managers only, an auditor gets totals and the
  approval trail.
\<close>

theorem pay_is_private:
  "(get_payslip_key e period user s = Inr k \<longrightarrow>
      (can_manage user \<or> user_employee user = Some e) \<and>
      (\<exists>run item. run \<in> set (runs s) \<and> run_period run = period \<and> finished (run_status run)
         \<and> item \<in> set (items_of s (run_id run)) \<and> li_employee item = e \<and> li_payslip_key item = Some k))
   \<and> (get_run r user s = Inr (ManagerView run aps items) \<longrightarrow> can_manage user \<and> items = items_of s r)
   \<and> (user_role user = AUDITOR \<longrightarrow> get_run r user s \<noteq> Inr (ManagerView run aps items))"
proof -
  have "\<exists>run item. run \<in> set (runs s) \<and> run_period run = period \<and> finished (run_status run)
         \<and> item \<in> set (items_of s (run_id run)) \<and> li_employee item = e \<and> li_payslip_key item = Some k"
    if "get_payslip_key e period user s = Inr k"
    using that unfolding get_payslip_key_def find_item_def items_of_def
    by (force split: if_splits option.splits simp del: find_row_None dest!: find_row_SomeD)
  then show ?thesis
    by (auto simp: get_payslip_key_def get_run_def can_manage_def MANAGE_ROLES_def Let_def
        split: if_splits option.splits)
qed

definition sample_owner :: auth_user where
  "sample_owner = \<lparr>sub = ''u3'', user_role = EMPLOYEE, user_employee = Some ''e1''\<rparr>"

definition payslip_state :: payroll_db where
  "payslip_state = april_run_state
     \<lparr>runs := [(new_run ''r1'' april sample_admin april_assembly)\<lparr>run_status := PROCESSED\<rparr>],
      line_items := [april_item\<lparr>li_payslip_key := Some ''key''\<rparr>]\<rparr>"

theorem pay_is_private_witness:
  "get_payslip_key ''e1'' ''2026-04'' sample_owner payslip_state = Inr ''key''
    \<and> (\<exists>run item. run \<in> set (runs payslip_state) \<and> finished (run_status run)
        \<and> item \<in> set (items_of payslip_state (run_id run)) \<and> li_payslip_key item = Some ''key'')"
proof -
  have item: "li_run april_item = ''r1''" "li_employee april_item = ''e1''"
    by (simp_all add: april_item_def line_of_result_def)
  have key: "get_payslip_key ''e1'' ''2026-04'' sample_owner payslip_state = Inr ''key''"
    by (simp add: get_payslip_key_def sample_owner_def payslip_state_def new_run_def april_def finished_def
        find_item_def item)
  from pay_is_private [THEN conjunct1, THEN mp, OF this] key show ?thesis by blast
qed

section \<open>What overlapping requests can do\<close>

text \<open>
  Two creations that overlap (for two periods, or a regular run and a reprocess) both read the
  pending arrears before either transaction marks them, and the transaction does not look at
  their status again: an arrears row is added to the net pay of both runs.
\<close>

lemma arrears_folded_twice:
  assumes b1: "create_begin L facts1 dto1 user1 s = Inr (as1, s1)"
    and b2: "create_begin L facts2 dto2 user2 s1 = Inr (as2, s2)"
    and c1: "create_commit up r1 dto1 user1 as1 s2 = Inr s3"
    and c2: "create_commit up r2 dto2 user2 as2 s3 = Inr s4"
    and e: "i1 \<in> set (as_items as1)" "i2 \<in> set (as_items as2)" "li_employee i1 = li_employee i2"
    and a: "a \<in> set (pending_arrears s (li_employee i1))"
  shows "item_row r1 i1 \<in> set (line_items s4) \<and> arrears_adjustment a \<in> set (li_adjustments (item_row r1 i1))
    \<and> item_row r2 i2 \<in> set (line_items s4) \<and> arrears_adjustment a \<in> set (li_adjustments (item_row r2 i2))"
proof -
  have assembly: "assemble_line_items L facts1 (cr_period dto1) s = Inr (as1, s1)"
    "assemble_line_items L facts2 (cr_period dto2) s1 = Inr (as2, s2)"
    using b1 b2 by (auto simp: create_begin_def and_then_Inr_iff split: if_splits)
  have "pending_arrears s1 = pending_arrears s"
    using assemble_selects(4) [OF assembly(1)] by (simp add: pending_arrears_def fun_eq_iff)
  then have "li_adjustments i1 = map arrears_adjustment (pending_arrears s (li_employee i1))"
    "li_adjustments i2 = map arrears_adjustment (pending_arrears s (li_employee i2))"
    using assemble_assembled [OF assembly(1)] assemble_assembled [OF assembly(2)] e
    by (metis assembled_def)+
  with a e create_commit_Inr(6) [OF c1] create_commit_Inr(6) [OF c2] show ?thesis by auto
qed

lemma arrears_folded_twice_example:
  "\<exists>s' i j. create_commit False ''r2'' april_again second_admin april_assembly april_run_state = Inr s'
    \<and> i \<in> set (line_items s') \<and> j \<in> set (line_items s') \<and> li_run i \<noteq> li_run j
    \<and> arrears_adjustment sample_arrears \<in> set (li_adjustments i)
    \<and> arrears_adjustment sample_arrears \<in> set (li_adjustments j)"
proof -
  obtain s' where s': "create_commit False ''r2'' april_again second_admin april_assembly april_run_state = Inr s'"
    using april_overlap by blast
  let ?i = "fold_arrears decimal_js [sample_arrears] (line_of_result decimal_js ''e1'' 22 22 0 april_result)"
  have "?i \<in> set (as_items april_assembly)" by (simp add: april_assembly_def)
  moreover have "sample_arrears \<in> set (pending_arrears paid_tenant (li_employee ?i))"
    by (simp add: line_of_result_def pending_arrears_def paid_tenant_def sample_arrears_def)
  ultimately have "item_row ''r1'' ?i \<in> set (line_items s') \<and> arrears_adjustment sample_arrears \<in> set (li_adjustments (item_row ''r1'' ?i))
      \<and> item_row ''r2'' ?i \<in> set (line_items s') \<and> arrears_adjustment sample_arrears \<in> set (li_adjustments (item_row ''r2'' ?i))"
    using arrears_folded_twice [OF april_begin april_committed s'] by simp
  then show ?thesis using s' by (intro exI [of _ s'] exI [of _ "item_row ''r1'' ?i"] exI [of _ "item_row ''r2'' ?i"]) simp
qed

text \<open>An adjustment after the first approval leaves that approval standing.\<close>

lemma approval_survives_adjustment:
  assumes "set_line_item_adjustments L up r e adj user s = Inr s'"
  shows "approval_count s' k = approval_count s k"
  using assms by (rule adjust_Inr) (simp add: approval_count_def)

end
