(* ===== verification/StructureProperties.thy ===== *)
theory StructureProperties
  imports SalaryStructure RunProperties
begin

text \<open>
  What the requests of \<open>SalaryStructureService\<close> guarantee: one active structure per employee, the
  history kept by a revision, the arrears it leaves, and who may read.
\<close>

section \<open>The handlers as steps\<close>

lemma validated_Inr_iff:
  "validated L dto ps = Inr cs \<longleftrightarrow>
    normalize_and_validate_components L (sd_components dto) (sd_ctc_annual dto) (ps_min_basic_percent ps) = Inr cs"
  by (simp add: validated_def split: sum.splits exn.splits)

lemma revise_structure_Inr:
  assumes "revise_structure L up rid sid aid e dto user s = Inr s'"
  obtains active cs where "find_active s e = Some active" "validated L dto (fst (get_settings s)) = Inr cs"
    "apply_revision L up rid sid aid e active cs (sd_ctc_annual dto) (day_of_text (sd_effective_from dto))
       (case sd_reason dto of None \<Rightarrow> [] | Some r \<Rightarrow> r) user
       (find_affected_line_items (snd (get_settings s)) e (effective_period (sd_effective_from dto)))
       (snd (get_settings s)) = Inr s'"
  using assms that
  by (auto simp: revise_structure_def and_then_Inr_iff Let_def split_def split: option.splits)

lemma update_structure_Inr:
  assumes "update_structure L up rid sid aid e dto user s = Inr s'"
  obtains active cs where "find_active s e = Some active" "validated L dto (fst (get_settings s)) = Inr cs"
    "if find_affected_line_items (snd (get_settings s)) e (effective_period (sd_effective_from dto)) = []
     then s' = edit_in_place up e active dto cs user (snd (get_settings s))
     else apply_revision L up rid sid aid e active cs (sd_ctc_annual dto) (day_of_text (sd_effective_from dto))
       (case sd_reason dto of None \<Rightarrow> AUTO_UPGRADED | Some r \<Rightarrow> r) user
       (find_affected_line_items (snd (get_settings s)) e (effective_period (sd_effective_from dto)))
       (snd (get_settings s)) = Inr s'"
  using assms that
  by (auto simp: update_structure_def and_then_Inr_iff Let_def split_def split: option.splits if_splits)

lemma handlers_are_steps:
  "create_structure L up sid e dto user s = Inr s' \<Longrightarrow> structure_step\<^sup>*\<^sup>* s s'"
  "revise_structure L up rid sid aid e dto user s = Inr s' \<Longrightarrow> structure_step\<^sup>*\<^sup>* s s'"
  "update_structure L up rid sid aid e dto user s = Inr s' \<Longrightarrow> structure_step\<^sup>*\<^sup>* s s'"
proof -
  have seed: "structure_step\<^sup>*\<^sup>* s (snd (get_settings s))"
    by (rule r_into_rtranclp, rule ss_other) simp
  note then_step = rtranclp.rtrancl_into_rtrancl [OF seed]
  show "create_structure L up sid e dto user s = Inr s' \<Longrightarrow> structure_step\<^sup>*\<^sup>* s s'"
    by (auto simp: create_structure_def create_structure_begin_def and_then_Inr_iff split_def Let_def
        split: if_splits intro: then_step ss_create)
  show "revise_structure L up rid sid aid e dto user s = Inr s' \<Longrightarrow> structure_step\<^sup>*\<^sup>* s s'"
    by (erule revise_structure_Inr) (rule then_step, erule ss_revise)
  show "update_structure L up rid sid aid e dto user s = Inr s' \<Longrightarrow> structure_step\<^sup>*\<^sup>* s s'"
    by (erule update_structure_Inr) (auto split: if_splits intro: then_step ss_revise ss_edit)
qed

text \<open>
  An employee never has two active salary structures: starting from a tenant without any, no
  interleaving of creations, revisions and edits (also ones that overlap and act on a structure
  read earlier) leaves two rows ACTIVE for one employee, or two rows with one identifier.
\<close>

theorem one_active_structure:
  assumes "structure_step\<^sup>*\<^sup>* s s'" and "structures s = []"
    and "x \<in> set (structures s')" and "y \<in> set (structures s')"
    and "st_id x = st_id y \<or> (st_employee x = st_employee y \<and> st_status x = ACTIVE \<and> st_status y = ACTIVE)"
  shows "x = y"
proof -
  from assms(1) have "structures_ok (structures s')"
  proof (induction rule: rtranclp_induct)
    case base
    then show ?case using assms(2) by (simp add: structures_ok_def actives_def unique_key_def)
  qed (rule step_structures_ok)
  then show ?thesis
    using assms(3-5) unfolding structures_ok_def unique_key_def distinct_map inj_on_def
    by (auto simp: actives_def)
qed

section \<open>Revisions\<close>

lemma arrears_of_facts:
  assumes "map_res (arrears_of L ps slabs active cs ctc rid aid) items = Inr rows"
  shows "map ar_original_run rows = map (\<lambda>i. run_id (fst i)) items"
    and "map ar_period rows = map (\<lambda>i. run_period (fst i)) items"
    and "a \<in> set rows \<Longrightarrow> ar_status a = PENDING \<and> ar_employee a = st_employee active \<and> ar_revision a = rid"
proof -
  have one: "ar_original_run a = run_id (fst i) \<and> ar_period a = run_period (fst i) \<and> ar_status a = PENDING
      \<and> ar_employee a = st_employee active \<and> ar_revision a = rid"
    if "arrears_of L ps slabs active cs ctc rid aid i = Inr a" for i a
    using that by (auto simp: arrears_of_def and_then_Inr_iff)
  from assms have "list_all2 (\<lambda>i a. arrears_of L ps slabs active cs ctc rid aid i = Inr a) items rows"
    by (simp add: map_res_Inr)
  then show "map ar_original_run rows = map (\<lambda>i. run_id (fst i)) items"
    "map ar_period rows = map (\<lambda>i. run_period (fst i)) items"
    "a \<in> set rows \<Longrightarrow> ar_status a = PENDING \<and> ar_employee a = st_employee active \<and> ar_revision a = rid"
    by (induction rule: list_all2_induct) (auto dest: one)
qed

lemma find_active_superseded:
  assumes "find_active s e = Some active" and "structures_ok (structures s)"
    and "find_row (\<lambda>r. st_id r = sid) (superseded (st_id active) s) = None"
    and "\<not> active_in e (superseded (st_id active) s)"
    and "structures s' = superseded (st_id active) s @ [new_structure sid e ctc date cs]"
  shows "find_active s' e = Some (new_structure sid e ctc date cs)"
    and "i \<noteq> e \<Longrightarrow> find_active s' i = find_active s i"
    and "active\<lparr>st_status := SUPERSEDED\<rparr> \<in> set (structures s')"
    and "filter (\<lambda>r. st_id r \<noteq> st_id active \<and> st_id r \<noteq> sid) (structures s')
       = filter (\<lambda>r. st_id r \<noteq> st_id active) (structures s)"
proof -
  have act: "active \<in> set (structures s)" "st_employee active = e"
    using find_active_SomeD [OF assms(1)] by auto
  show "find_active s' e = Some (new_structure sid e ctc date cs)"
    using assms(4) unfolding find_active_def assms(5) find_row_append
    by (auto simp: active_in_def new_structure_def split: option.splits dest: find_row_SomeD simp del: find_row_None)
  have only: "r = active" if "r \<in> set (structures s)" "st_id r = st_id active" for r
    using that act assms(2) by (auto simp: structures_ok_def unique_key_def distinct_map inj_on_def)
  have keep: "find_row (\<lambda>r. st_employee r = i \<and> st_status r = ACTIVE) (update_rows (\<lambda>r. st_id r = st_id active)
        (\<lambda>r. r\<lparr>st_status := SUPERSEDED\<rparr>) t) = find_row (\<lambda>r. st_employee r = i \<and> st_status r = ACTIVE) t"
    if "set t \<subseteq> set (structures s)" "i \<noteq> e" for t i
    using that only act(2) by (induction t) (auto simp del: find_row_None)
  show "find_active s' i = find_active s i" if "i \<noteq> e"
    using keep [of "structures s" i] that
    by (simp add: find_active_def assms(5) superseded_def find_row_append new_structure_def split: option.splits
        del: find_row_None)
  show "active\<lparr>st_status := SUPERSEDED\<rparr> \<in> set (structures s')"
    using act(1) unfolding assms(5) superseded_def by (force simp: in_set_update_rows)
  have fresh: "st_id r \<noteq> sid" if "r \<in> set (structures s)" for r
  proof -
    have "map st_id (superseded (st_id active) s) = map st_id (structures s)"
      by (simp add: superseded_def map_update_rows)
    then have "st_id r \<in> st_id ` set (superseded (st_id active) s)" using that by (metis image_eqI list.set_map)
    with assms(3) show ?thesis by auto
  qed
  have "filter (\<lambda>r. st_id r \<noteq> st_id active \<and> st_id r \<noteq> sid) (update_rows (\<lambda>r. st_id r = st_id active)
        (\<lambda>r. r\<lparr>st_status := SUPERSEDED\<rparr>) t) = filter (\<lambda>r. st_id r \<noteq> st_id active) t"
    if "set t \<subseteq> set (structures s)" for t
    using that fresh by (induction t) auto
  then show "filter (\<lambda>r. st_id r \<noteq> st_id active \<and> st_id r \<noteq> sid) (structures s')
       = filter (\<lambda>r. st_id r \<noteq> st_id active) (structures s)"
    unfolding assms(5) superseded_def by (simp add: new_structure_def)
qed


section \<open>A revision evaluated\<close>

text \<open>Basic raised from 40000 to 50000 a month, effective in the April that was already paid.\<close>

definition raise_dto :: structure_dto where
  "raise_dto = \<lparr>sd_ctc_annual = 1200000, sd_effective_from = ''2026-04-01'', sd_components =
     [\<lparr>d_type = ''BASIC'', d_code = Undefined, d_name = ''Basic'', d_mode = FIXED, d_value = Given 50000,
       d_formula = Undefined, d_sort = Undefined\<rparr>,
      \<lparr>d_type = ''HRA'', d_code = Undefined, d_name = ''HRA'', d_mode = FIXED, d_value = Given 10000,
       d_formula = Undefined, d_sort = Undefined\<rparr>],
     sd_reason = Some ''Annual revision''\<rparr>"

definition raised_components :: "normalized_component list" where
  "raised_components =
     [\<lparr>ci_code = ''BASIC'', ci_mode = FIXED, ci_value = Some 50000, ci_formula = None, cc_type = ''BASIC'',
       nc_name = ''Basic'', nc_sort = 0\<rparr>,
      \<lparr>ci_code = ''HRA'', ci_mode = FIXED, ci_value = Some 10000, ci_formula = None, cc_type = ''HRA'',
       nc_name = ''HRA'', nc_sort = 1\<rparr>]"

lemma raised_monthly:
  "resolve_monthly_amounts decimal_js (map component_input.truncate raised_components) 1200000
     = Inr [''BASIC'' \<mapsto> 50000, ''HRA'' \<mapsto> 10000]"
  by (simp add: raised_components_def component_input.truncate_def resolve_monthly_amounts_def
      resolve_all_def by_code_def BASIC_CODE_def CTC_VARIABLE_def)

lemma raise_validated:
  "normalize_and_validate_components decimal_js (sd_components raise_dto) (sd_ctc_annual raise_dto) 50
     = Inr raised_components"
proof -
  have "normalize_all decimal_js [] 0 (sd_components raise_dto) = Inr raised_components"
    by (simp add: raise_dto_def raised_components_def normalize_one_def normalize_code_def truthy_def
        component_code_def is_upper_def is_digit_def check_mode_def)
  moreover have "ddiv decimal_js 1200000 12 = 100000" "ddiv decimal_js 5000000 100 = 50000"
    "dtimes decimal_js 100000 50 = 5000000" by code_simp+
  moreover have "basics raised_components = [hd raised_components]"
    by (simp add: basics_def raised_components_def BASIC_CODE_def)
  moreover have "sd_ctc_annual raise_dto = 1200000" "ci_mode (hd raised_components) = FIXED"
    by (simp_all add: raise_dto_def raised_components_def)
  ultimately show ?thesis
    using raised_monthly by (simp add: normalize_and_validate_components_def Let_def BASIC_CODE_def)
qed

text \<open>The tenant after April was processed: \<open>payslip_state\<close>.\<close>

lemma raise_affected:
  "find_affected_line_items payslip_state ''e1'' ''2026-04''
     = [((new_run ''r1'' april sample_admin april_assembly)\<lparr>run_status := PROCESSED\<rparr>,
         april_item\<lparr>li_payslip_key := Some ''key''\<rparr>)]"
proof -
  have item: "li_run april_item = ''r1''" "li_employee april_item = ''e1''"
    by (simp_all add: april_item_def line_of_result_def)
  show ?thesis
    by (simp add: find_affected_line_items_def payslip_state_def find_run_def new_run_def item finished_def april_def)
qed

definition raised_result :: calculation_result where
  "raised_result = \<lparr>r_working_days = 22, r_payable_days = 22, payable_factor = 1,
      earnings =
        [\<lparr>e_type = ''BASIC'', e_code = ''BASIC'', full_monthly_amount = 50000, prorated_amount = 50000\<rparr>,
         \<lparr>e_type = ''HRA'', e_code = ''HRA'', full_monthly_amount = 10000, prorated_amount = 10000\<rparr>],
      gross_earnings = 60000, lop_deduction = 0, overtime_pay = 0,
      r_epf = r_epf sample_result, r_esi = r_esi sample_result,
      professional_tax = 0, r_tds = 0, total_deductions = 1800, net_pay = 58200\<rparr>"

lemma raise_calculated:
  "calculate_payroll decimal_js (arrears_input april_settings [] raised_components 1200000 (hd
     (find_affected_line_items payslip_state ''e1'' ''2026-04''))) = Inr raised_result"
  "calculate_payroll decimal_js (arrears_input april_settings [] (st_components sample_structure) 1200000 (hd
     (find_affected_line_items payslip_state ''e1'' ''2026-04''))) = Inr april_result"
proof -
  have days: "li_working_days april_item = 22" "li_payable_days april_item = 22"
    by (simp_all add: april_item_def item_row_def stored_def line_compute.defs fold_arrears_def line_of_result_def)
  have m: "period_month ''2026-04'' = 4" by code_simp
  let ?i = "\<lambda>cs. sample_input\<lparr>components := cs, month := 4, pt_slabs := [], tds := None, allow_negative_net := True\<rparr>"
  have i: "arrears_input april_settings [] cs 1200000 (hd (find_affected_line_items payslip_state ''e1'' ''2026-04''))
      = ?i (map calculator_component.truncate cs)" for cs
    unfolding raise_affected
    by (simp add: arrears_input_def days m april_settings_def sample_input_def new_run_def april_def)
  have one: "ddiv decimal_js 22 22 = 1" by code_simp
  let ?new = "map calculator_component.truncate raised_components"
  let ?old = "map calculator_component.truncate (st_components sample_structure)"
  have base: "base_earnings decimal_js [''BASIC'' \<mapsto> 50000, ''HRA'' \<mapsto> 10000] 1 ?new = Inr (earnings raised_result)"
    "base_earnings decimal_js sample_monthly 1 ?old = Inr (earnings sample_result)"
    by (simp_all add: base_earnings_def raised_components_def raised_result_def EMPLOYER_COST_TYPES_def
        round_paise_def dec_eval places_numeral calculator_component.truncate_def sample_structure_def
        sample_result_def sample_monthly_def)
  have fin: "finish_payroll decimal_js (?i ?new) 1 (earnings raised_result) = Inr raised_result"
    "finish_payroll decimal_js (?i ?old) 1 (earnings sample_result) = Inr april_result"
    by (simp_all add: finish_payroll_def sample_input_def sample_result_def raised_result_def dsum_def dec_eval
        resolve_professional_tax_def epf_contributions_def BASIC_CODE_def contribution_def round_rupee_def
        places_numeral esi_contributions_def overtime_amount_def round_paise_def april_result_def)
  have trunc: "map component_input.truncate (map calculator_component.truncate cs) = map component_input.truncate cs" for cs
    by (simp add: component_input.truncate_def calculator_component.truncate_def)
  have old: "resolve_monthly_amounts decimal_js (map component_input.truncate (st_components sample_structure)) 1200000
      = Inr sample_monthly"
    using sample_monthly_eq by (simp add: sample_input_def sample_structure_def component_input.truncate_def)
  have i2: "components (?i cs) = cs" "ctc_annual (?i cs) = 1200000" "working_days (?i cs) = 22" "payable_days (?i cs) = 22"
    "overtime (?i cs) = None" for cs by (simp_all add: sample_input_def)
  show "calculate_payroll decimal_js (arrears_input april_settings [] raised_components 1200000 (hd
     (find_affected_line_items payslip_state ''e1'' ''2026-04''))) = Inr raised_result"
    "calculate_payroll decimal_js (arrears_input april_settings [] (st_components sample_structure) 1200000 (hd
     (find_affected_line_items payslip_state ''e1'' ''2026-04''))) = Inr april_result"
    unfolding i calculate_payroll_def i2 trunc raised_monthly old
    by (simp_all add: one base overtime_earnings_def fin [simplified])
qed

lemma payslip_tables:
  "get_settings payslip_state = (april_settings, payslip_state)"
  "find_row (\<lambda>r. emp_id r = ''e1'') (employees payslip_state) = Some sample_employee"
  "state_slabs payslip_state st = []" "structures payslip_state = [sample_structure]"
  "find_active payslip_state ''e1'' = Some sample_structure"
  "ordered_components sample_structure = st_components sample_structure"
  "st_ctc_annual sample_structure = 1200000" "work_state sample_employee = Some KARNATAKA"
  "st_id sample_structure = ''s1''" "st_employee sample_structure = ''e1''"
  by (simp_all add: get_settings_def payslip_state_def april_run_state_def paid_tenant_def april_settings_def
      sample_tenant_def empty_db_def sample_employee_def state_slabs_def find_active_def sample_structure_def
      ordered_components_def)

lemma raise_arrears:
  "\<exists>a. arrears_of decimal_js april_settings [] sample_structure raised_components 1200000 ''v2'' aid
      (hd (find_affected_line_items payslip_state ''e1'' ''2026-04'')) = Inr a
    \<and> ar_amount a = money_col (dminus decimal_js 58200 48200)"
  by (simp add: arrears_of_def payslip_tables raise_calculated uncaught_def)
    (simp add: raised_result_def april_result_def)

lemma raise_succeeds:
  "\<exists>s'. revise_structure decimal_js False ''v2'' ''s2'' (\<lambda>r. ''a2'') ''e1'' raise_dto sample_admin payslip_state = Inr s'"
proof -
  have dto: "effective_period (sd_effective_from raise_dto) = ''2026-04''" "sd_ctc_annual raise_dto = 1200000"
    by (simp_all add: raise_dto_def effective_period_def)
  have v: "validated decimal_js raise_dto april_settings = Inr raised_components"
    using raise_validated by (simp add: validated_Inr_iff april_settings_def default_settings_def)
  have one: "find_affected_line_items payslip_state ''e1'' ''2026-04''
      = [hd (find_affected_line_items payslip_state ''e1'' ''2026-04'')]"
    by (simp add: raise_affected)
  obtain a where a: "arrears_of decimal_js april_settings [] sample_structure raised_components 1200000 ''v2'' (\<lambda>r. ''a2'')
      (hd (find_affected_line_items payslip_state ''e1'' ''2026-04'')) = Inr a"
    using raise_arrears by blast
  have rows: "map_res (arrears_of decimal_js april_settings [] sample_structure raised_components 1200000 ''v2'' (\<lambda>r. ''a2''))
      (find_affected_line_items payslip_state ''e1'' ''2026-04'') = Inr [a]"
    by (subst one) (simp add: a)
  have old: "superseded ''s1'' payslip_state = [sample_structure\<lparr>st_status := SUPERSEDED\<rparr>]"
    by (simp add: superseded_def payslip_tables)
  show ?thesis
    by (simp add: revise_structure_def assert_employee_exists_def payslip_tables v dto apply_revision_def rows
        old active_in_def)
qed


theorem one_active_structure_witness:
  "structure_step\<^sup>*\<^sup>* empty_db (empty_db\<lparr>structures := [sample_structure\<lparr>st_components := []\<rparr>]\<rparr>)
    \<and> filter (\<lambda>x. st_employee x = ''e1'' \<and> st_status x = ACTIVE \<and> x \<noteq> sample_structure\<lparr>st_components := []\<rparr>)
        (structures (empty_db\<lparr>structures := [sample_structure\<lparr>st_components := []\<rparr>]\<rparr>)) = []"
proof -
  let ?x = "sample_structure\<lparr>st_components := []\<rparr>" and ?s = "empty_db\<lparr>structures := [sample_structure\<lparr>st_components := []\<rparr>]\<rparr>"
  define dto where "dto = raise_dto\<lparr>sd_effective_from := ''1970-01-01''\<rparr>"
  have "money_col 1200000 = 1200000" by code_simp
  moreover have "day_of_text ''1970-01-01'' = 0" by code_simp
  ultimately have "new_structure ''s1'' ''e1'' (sd_ctc_annual dto) (day_of_text (sd_effective_from dto)) [] = ?x"
    by (simp add: new_structure_def dto_def raise_dto_def sample_structure_def)
  then have "create_structure_commit False ''s1'' ''e1'' dto [] sample_admin empty_db = Inr ?s"
    by (simp add: create_structure_commit_def find_active_def write_payroll_audit_def empty_db_def)
  then have "structure_step empty_db ?s" by (rule ss_create)
  then have path: "structure_step\<^sup>*\<^sup>* empty_db ?s" by (rule r_into_rtranclp)
  have "x = ?x" if "x \<in> set (structures ?s)" "st_employee x = ''e1''" "st_status x = ACTIVE" for x
    using one_active_structure [OF path _ that(1), of ?x] that by (simp add: empty_db_def sample_structure_def)
  with path show ?thesis unfolding filter_empty_conv by blast
qed

section \<open>Arrears\<close>

text \<open>
  An arrears row is the difference the revision makes to one paid period: both structures are
  calculated on the days of the stored line item and today's rates, and for net pays in whole
  paise the amount is exactly the new net pay less the old one, so a revision that changes no
  net pay owes nothing and a cut gives a negative amount.
\<close>

theorem arrears_are_differences:
  assumes "decimal_arith L" and "arrears_of L ps slabs active cs ctc rid aid item = Inr a"
    and "calculate_payroll L (arrears_input ps slabs (ordered_components active) (st_ctc_annual active) item) = Inr old"
    and "calculate_payroll L (arrears_input ps slabs cs ctc item) = Inr new"
    and "paise (net_pay old)" and "paise (net_pay new)"
    and "\<bar>net_pay old\<bar> \<le> 10 ^ 17" and "\<bar>net_pay new\<bar> \<le> 10 ^ 17"
  shows "ar_previous_net a = net_pay old \<and> ar_revised_net a = net_pay new
    \<and> ar_amount a = net_pay new - net_pay old"
proof -
  have diff: "paise (net_pay new - net_pay old)" using assms(5,6) by (simp add: paise_diff)
  have "\<bar>net_pay new - net_pay old\<bar> \<le> 10 ^ 18" using assms(7,8) by simp
  with diff have "dminus L (net_pay new) (net_pay old) = net_pay new - net_pay old"
    using decimal_arith.paise_exact [OF assms(1)] by (simp add: dec_simps)
  with assms(2-6) diff show ?thesis
    by (auto simp: arrears_of_def uncaught_def money_col_exact)
qed

theorem arrears_are_differences_witness:
  "\<exists>a. arrears_of decimal_js april_settings [] sample_structure raised_components 1200000 ''v2'' (\<lambda>r. ''a2'')
      (hd (find_affected_line_items payslip_state ''e1'' ''2026-04'')) = Inr a \<and> ar_amount a = 10000"
proof -
  obtain a where a: "arrears_of decimal_js april_settings [] sample_structure raised_components 1200000 ''v2'' (\<lambda>r. ''a2'')
      (hd (find_affected_line_items payslip_state ''e1'' ''2026-04'')) = Inr a"
    using raise_arrears by blast
  have "paise (of_int 48200)" "paise (of_int 58200)" by (rule paise_int)+
  then have "paise (net_pay april_result)" "paise (net_pay raised_result)"
    by (simp_all add: april_result_def raised_result_def)
  then have "ar_amount a = net_pay raised_result - net_pay april_result"
    using arrears_are_differences [OF decjs.decimal_arith_axioms a _ raise_calculated(1), of april_result]
      raise_calculated(2) by (simp add: payslip_tables) (simp add: raised_result_def april_result_def)
  with a show ?thesis by (auto simp: raised_result_def april_result_def)
qed

section \<open>Edits in place and reading\<close>

text \<open>
  An update decides by what was paid: when no finished regular run has a line item of the
  employee from the new effective period on, the active structure is edited in place, its
  identifier and status kept, and there is neither a revision nor arrears; otherwise it does
  exactly what an explicit revision with that reason does.
\<close>

theorem update_or_revise:
  assumes "update_structure L up rid sid aid e dto user s = Inr s'"
  shows "if find_affected_line_items s e (effective_period (sd_effective_from dto)) = []
    then revisions s' = revisions s \<and> arrears s' = arrears s
      \<and> map st_id (structures s') = map st_id (structures s)
      \<and> map st_status (structures s') = map st_status (structures s)
      \<and> (\<exists>st. find_active s' e = Some st \<and> st_ctc_annual st = money_col (sd_ctc_annual dto))
    else revise_structure L up rid sid aid e
      (dto\<lparr>sd_reason := Some (case sd_reason dto of None \<Rightarrow> AUTO_UPGRADED | Some r \<Rightarrow> r)\<rparr>) user s = Inr s'"
  using assms
proof (rule update_structure_Inr)
  fix active cs
  let ?s1 = "snd (get_settings s)" and ?p = "effective_period (sd_effective_from dto)"
  have affected: "find_affected_line_items ?s1 e p = find_affected_line_items s e p" for p
    by (simp add: find_affected_line_items_def find_run_def)
  assume v: "find_active s e = Some active" "validated L dto (fst (get_settings s)) = Inr cs"
    and u: "if find_affected_line_items ?s1 e ?p = []
     then s' = edit_in_place up e active dto cs user ?s1
     else apply_revision L up rid sid aid e active cs (sd_ctc_annual dto) (day_of_text (sd_effective_from dto))
       (case sd_reason dto of None \<Rightarrow> AUTO_UPGRADED | Some r \<Rightarrow> r) user (find_affected_line_items ?s1 e ?p) ?s1 = Inr s'"
  have emp: "assert_employee_exists s e = Inr ()"
    using assms by (auto simp: update_structure_def and_then_Inr_iff)
  show ?thesis
  proof (cases "find_affected_line_items s e ?p = []")
    case True
    let ?f = "\<lambda>r. r\<lparr>st_ctc_annual := money_col (sd_ctc_annual dto),
        st_effective_from := day_of_text (sd_effective_from dto), st_components := map stored_component cs\<rparr>"
    from True u have s': "s' = edit_in_place up e active dto cs user ?s1" by (simp add: affected)
    have "find_row (\<lambda>r. st_employee r = e \<and> st_status r = ACTIVE)
        (update_rows (\<lambda>r. st_id r = st_id active) ?f t) =
      map_option (\<lambda>r. if st_id r = st_id active then ?f r else r) (find_row (\<lambda>r. st_employee r = e \<and> st_status r = ACTIVE) t)"
      for t :: "structure_row list"
      by (induction t) auto
    moreover have "structures s' = update_rows (\<lambda>r. st_id r = st_id active) ?f (structures s)"
      by (simp add: s' edit_in_place_def)
    ultimately have "\<exists>st. find_active s' e = Some st \<and> st_ctc_annual st = money_col (sd_ctc_annual dto)"
      using v(1) by (simp add: find_active_def)
    with True s' show ?thesis by (simp add: edit_in_place_def map_update_rows)
  next
    case False
    with u v emp show ?thesis
      by (simp add: revise_structure_def affected Let_def split_def validated_def)
  qed
qed

theorem update_or_revise_witness:
  "\<exists>s'. update_structure decimal_js False ''v2'' ''s2'' (\<lambda>r. ''a2'') ''e1'' raise_dto sample_admin payslip_state = Inr s'
    \<and> length (revisions s') = 1"
proof -
  obtain s' where r: "revise_structure decimal_js False ''v2'' ''s2'' (\<lambda>r. ''a2'') ''e1'' raise_dto sample_admin payslip_state = Inr s'"
    using raise_succeeds by blast
  have dto: "effective_period (sd_effective_from raise_dto) = ''2026-04''" "sd_reason raise_dto = Some ''Annual revision''"
    by (simp_all add: raise_dto_def effective_period_def)
  from r have "update_structure decimal_js False ''v2'' ''s2'' (\<lambda>r. ''a2'') ''e1'' raise_dto sample_admin payslip_state = Inr s'"
    by (auto simp: update_structure_def revise_structure_def raise_affected payslip_tables dto and_then_Inr_iff)
  moreover from update_or_revise [OF this]
  have "revise_structure decimal_js False ''v2'' ''s2'' (\<lambda>r. ''a2'') ''e1'' raise_dto sample_admin payslip_state = Inr s'"
    by (simp add: dto raise_affected)
      (simp add: raise_dto_def)
  then have "length (revisions s') = 1"
    by (auto elim!: revise_structure_Inr apply_revision_Inr
      simp: payslip_state_def april_run_state_def paid_tenant_def sample_tenant_def empty_db_def)
  ultimately show ?thesis by blast
qed

end
