(* ===== verification/FullAndFinal.thy ===== *)
theory FullAndFinal
  imports PayrollRun Lifecycle
begin

text \<open>
  \<open>FullAndFinalService\<close> (\<open>apps/api/src/payroll/full-and-final.service.ts\<close>): the settlement of a
  separated employee, from DRAFT through APPROVED to PAID. As for runs, \<open>generate\<close> is split at its
  insert, where the unique index on the employee decides between overlapping requests.
\<close>

section \<open>The figures\<close>

definition settlement_period :: "date \<Rightarrow> string" where
  "settlement_period d = period_text (utc_year d) (utc_month d + 1)"

definition settlement_days :: "period_facts \<Rightarrow> int list \<Rightarrow> employee_row \<Rightarrow> date \<Rightarrow> int \<times> int" where
  "settlement_days facts tenant_offs emp separation =
     (let (start, end_excl) = month_range (settlement_period separation)
      in compute_payable_days start (end_excl - 1) (pf_holidays facts)
           (effective_weekly_off_days tenant_offs (Some (weekly_off_days_override emp)))
           (pf_lop_days facts (emp_id emp)) None (Some separation))"

definition settlement_input ::
  "payroll_settings \<Rightarrow> pt_slab list \<Rightarrow> structure_row \<Rightarrow> date \<Rightarrow> int \<Rightarrow> int \<Rightarrow> calculation_input" where
  "settlement_input ps slabs st separation wdays payable =
     \<lparr>components = map calculator_component.truncate (st_components st), ctc_annual = st_ctc_annual st,
      working_days = of_int wdays, payable_days = of_int payable, epf = ps_epf ps, esi = ps_esi ps,
      pt_slabs = slabs, month = period_month (settlement_period separation),
      overtime = None, tds = None, allow_negative_net = True\<rparr>"

text \<open>A \<open>PayrollCalculationError\<close> is answered as a conflict, any other error thrown on.\<close>

definition calculated :: "(calculation_error, 'a) result \<Rightarrow> 'a answer" where
  "calculated r =
     (case r of
        Inl (Structure x) \<Rightarrow> Inl (Crash (StructureFailed x))
      | Inl AmountMissing \<Rightarrow> Inl (Crash BasicMissing)
      | Inl e \<Rightarrow> Inl (Conflict (NotCalculable e))
      | Inr a \<Rightarrow> Inr a)"

definition amount_or_zero :: "amounts \<Rightarrow> string \<Rightarrow> decimal" where
  "amount_or_zero m code = (case m code of None \<Rightarrow> 0 | Some a \<Rightarrow> a)"

definition settlement_gratuity :: "decimal_lib \<Rightarrow> payroll_settings \<Rightarrow> amounts \<Rightarrow> int \<Rightarrow> decimal" where
  "settlement_gratuity L ps m years = calculate_gratuity L
     \<lparr>last_drawn_basic = amount_or_zero m BASIC_CODE, completed_years = years,
      eligibility_years = ps_gratuity_eligibility_years ps, days_per_year = ps_gratuity_days_per_year ps,
      month_divisor = ps_gratuity_month_divisor ps, max_amount = ps_gratuity_max_amount ps\<rparr>"

definition settlement_encashment :: "decimal_lib \<Rightarrow> payroll_settings \<Rightarrow> amounts \<Rightarrow> decimal \<Rightarrow> decimal" where
  "settlement_encashment L ps m days = calculate_leave_encashment L days
     (foldl (\<lambda>sum code. dplus L sum (amount_or_zero m code)) 0 (ps_leave_encashment_components ps))
     (ps_leave_encashment_divisor ps)"

definition net_settlement :: "decimal_lib \<Rightarrow> decimal \<Rightarrow> decimal \<Rightarrow> decimal \<Rightarrow> decimal \<Rightarrow> decimal" where
  "net_settlement L unpaid encashment gratuity advance =
     dminus L (dplus L (dplus L unpaid encashment) gratuity) advance"

section \<open>Generating\<close>

definition find_settlement :: "payroll_db \<Rightarrow> id \<Rightarrow> settlement_row option" where
  "find_settlement s e = find_row (\<lambda>r. ff_employee r = e) (settlements s)"

definition generate_guards ::
  "id \<Rightarrow> auth_user \<Rightarrow> payroll_db \<Rightarrow> (employee_row \<times> date \<times> date \<times> structure_row) answer" where
  "generate_guards e user s =
     and_then (assert_can_manage user) (\<lambda>_.
     and_then (assert_payroll_gate s) (\<lambda>_.
     if find_settlement s e \<noteq> None then Inl (Conflict SettlementExists)
     else case find_row (\<lambda>r. emp_id r = e) (employees s) of
       None \<Rightarrow> Inl (NotFound EmployeeMissing)
     | Some emp \<Rightarrow>
         if lifecycle emp \<noteq> SEPARATED then Inl (Conflict NotSeparated)
         else case last_working_date emp of
           None \<Rightarrow> Inl (Conflict NoLastWorkingDate)
         | Some separation \<Rightarrow>
         (case date_of_joining emp of
           None \<Rightarrow> Inl (BadRequest NoDateOfJoining)
         | Some joined \<Rightarrow>
         (case find_active s e of
           None \<Rightarrow> Inl (Conflict NoStructure)
         | Some st \<Rightarrow> Inr (emp, separation, joined, st)))))"

definition settlement_of ::
  "decimal_lib \<Rightarrow> period_facts \<Rightarrow> payroll_settings \<Rightarrow> pt_slab list \<Rightarrow> int list \<Rightarrow> auth_user \<Rightarrow> decimal
    \<Rightarrow> employee_row \<times> date \<times> date \<times> structure_row \<Rightarrow> settlement_row answer" where
  "settlement_of L facts ps slabs offs user advance = (\<lambda>(emp, separation, joined, st).
     let (wdays, payable) = settlement_days facts offs emp separation
     in and_then (calculated (calculate_payroll L (settlement_input ps slabs st separation wdays payable))) (\<lambda>unpaid.
        case resolve_monthly_amounts L (map component_input.truncate (st_components st)) (st_ctc_annual st) of
          Inl x \<Rightarrow> Inl (Crash (StructureFailed x))
        | Inr m \<Rightarrow>
            let years = completed_years_of_service joined separation;
                gratuity = settlement_gratuity L ps m years;
                days = pf_encashable_days facts (emp_id emp);
                encashment = settlement_encashment L ps m days
            in Inr \<lparr>ff_employee = emp_id emp, ff_separation_date = separation, ff_unpaid_days = payable,
                 ff_unpaid_amount = money_col (net_pay unpaid),
                 ff_encashment_days = half_up_places 2 days,
                 ff_encashment_amount = money_col encashment,
                 ff_gratuity_years = years, ff_gratuity_amount = money_col gratuity,
                 ff_advance_recovery = money_col advance,
                 ff_net = money_col (net_settlement L (net_pay unpaid) encashment gratuity advance),
                 ff_snapshot = \<lparr>fs_working_days = wdays, fs_payable_days = payable,
                   fs_gross = to_number (gross_earnings unpaid),
                   fs_epf_employee = to_number (epf_employee_contribution (r_epf unpaid)),
                   fs_esi_employee = to_number (esi_employee_contribution (r_esi unpaid)),
                   fs_professional_tax = to_number (professional_tax unpaid),
                   fs_last_basic = to_number (amount_or_zero m BASIC_CODE)\<rparr>,
                 ff_status = FNF_DRAFT, ff_prepared_by = sub user,
                 ff_approved_by = None, ff_approved_at = None, ff_paid_at = None\<rparr>))"

definition generate_begin ::
  "decimal_lib \<Rightarrow> period_facts \<Rightarrow> id \<Rightarrow> decimal option \<Rightarrow> auth_user \<Rightarrow> payroll_db
    \<Rightarrow> (settlement_row \<times> payroll_db) answer" where
  "generate_begin L facts e advance user s =
     and_then (generate_guards e user s) (\<lambda>(emp, separation, joined, st).
     let (ps, s1) = get_settings s;
         slabs = (case work_state emp of None \<Rightarrow> [] | Some ws \<Rightarrow> state_slabs s1 ws)
     in and_then (settlement_of L facts ps slabs (tenant_weekly_offs s1) user
          (case advance of None \<Rightarrow> 0 | Some a \<Rightarrow> a) (emp, separation, joined, st)) (\<lambda>row. Inr (row, s1)))"

definition generate_commit :: "bool \<Rightarrow> settlement_row \<Rightarrow> auth_user \<Rightarrow> payroll_db \<Rightarrow> payroll_db answer" where
  "generate_commit up row user s =
     (if find_settlement s (ff_employee row) \<noteq> None then Inl (Crash SettlementExists)
      else Inr (write_payroll_audit up user ''payroll.fnf_generated'' ''employee'' (Some (ff_employee row))
        (s\<lparr>settlements := settlements s @ [row]\<rparr>)))"

definition generate ::
  "decimal_lib \<Rightarrow> bool \<Rightarrow> period_facts \<Rightarrow> id \<Rightarrow> decimal option \<Rightarrow> auth_user \<Rightarrow> payroll_db \<Rightarrow> payroll_db answer" where
  "generate L up facts e advance user s =
     and_then (generate_begin L facts e advance user s) (\<lambda>(row, s1). generate_commit up row user s1)"

section \<open>Reading, adjusting, approving, paying\<close>

definition get_settlement_or_throw :: "payroll_db \<Rightarrow> id \<Rightarrow> settlement_row answer" where
  "get_settlement_or_throw s e =
     (case find_settlement s e of None \<Rightarrow> Inl (NotFound SettlementMissing) | Some r \<Rightarrow> Inr r)"

datatype settlement_view =
    AuditorSettlement id date settlement_status "date option" "date option"
  | FullSettlement settlement_row

definition assert_can_read_settlement :: "auth_user \<Rightarrow> id \<Rightarrow> unit answer" where
  "assert_can_read_settlement user e =
     (if can_manage user \<or> user_role user = AUDITOR \<or> (user_role user = EMPLOYEE \<and> user_employee user = Some e)
      then Inr () else Inl (Forbidden NotAuthorized))"

definition get_settlement :: "id \<Rightarrow> auth_user \<Rightarrow> payroll_db \<Rightarrow> settlement_view answer" where
  "get_settlement e user s =
     and_then (assert_can_read_settlement user e) (\<lambda>_.
     and_then (get_settlement_or_throw s e) (\<lambda>row.
     Inr (if user_role user = AUDITOR
          then AuditorSettlement (ff_employee row) (ff_separation_date row) (ff_status row)
                 (ff_approved_at row) (ff_paid_at row)
          else FullSettlement row)))"

definition set_settlement :: "id \<Rightarrow> (settlement_row \<Rightarrow> settlement_row) \<Rightarrow> payroll_db \<Rightarrow> payroll_db" where
  "set_settlement e f s = s\<lparr>settlements := update_rows (\<lambda>r. ff_employee r = e) f (settlements s)\<rparr>"

definition update_advance ::
  "decimal_lib \<Rightarrow> bool \<Rightarrow> id \<Rightarrow> decimal \<Rightarrow> auth_user \<Rightarrow> payroll_db \<Rightarrow> payroll_db answer" where
  "update_advance L up e advance user s =
     and_then (assert_can_manage user) (\<lambda>_.
     and_then (get_settlement_or_throw s e) (\<lambda>row.
     if ff_status row \<noteq> FNF_DRAFT then Inl (Conflict (WrongSettlementStatus (ff_status row)))
     else Inr (write_payroll_audit up user ''payroll.fnf_adjusted'' ''employee'' (Some e)
       (set_settlement e (\<lambda>r. r\<lparr>ff_advance_recovery := money_col advance,
          ff_net := money_col (net_settlement L (ff_unpaid_amount row) (ff_encashment_amount row)
            (ff_gratuity_amount row) advance)\<rparr>) s))))"

definition approve_settlement :: "bool \<Rightarrow> date \<Rightarrow> id \<Rightarrow> auth_user \<Rightarrow> payroll_db \<Rightarrow> payroll_db answer" where
  "approve_settlement up now e user s =
     and_then (assert_can_manage user) (\<lambda>_.
     and_then (assert_payroll_gate s) (\<lambda>_.
     and_then (get_settlement_or_throw s e) (\<lambda>row.
     if ff_status row \<noteq> FNF_DRAFT then Inl (Conflict (WrongSettlementStatus (ff_status row)))
     else Inr (write_payroll_audit up user ''payroll.fnf_approved'' ''employee'' (Some e)
       (set_settlement e (\<lambda>r. r\<lparr>ff_status := FNF_APPROVED, ff_approved_by := Some (sub user),
          ff_approved_at := Some now\<rparr>) s)))))"

definition mark_paid :: "bool \<Rightarrow> date \<Rightarrow> id \<Rightarrow> auth_user \<Rightarrow> payroll_db \<Rightarrow> payroll_db answer" where
  "mark_paid up now e user s =
     and_then (assert_can_manage user) (\<lambda>_.
     and_then (get_settlement_or_throw s e) (\<lambda>row.
     if ff_status row \<noteq> FNF_APPROVED then Inl (Conflict (WrongSettlementStatus (ff_status row)))
     else Inr (write_payroll_audit up user ''payroll.fnf_paid'' ''employee'' (Some e)
       (set_settlement e (\<lambda>r. r\<lparr>ff_status := FNF_PAID, ff_paid_at := Some now\<rparr>) s))))"

end
