(* ===== verification/FullAndFinalProperties.thy ===== *)
theory FullAndFinalProperties
  imports FullAndFinal RunExample
begin

text \<open>
  The life cycle of settlements: at most one per employee, DRAFT then APPROVED then PAID, figures
  that are fixed from the approval on, and what each request needs and changes.
\<close>

section \<open>Steps\<close>

inductive settlement_step :: "payroll_db \<Rightarrow> payroll_db \<Rightarrow> bool" where
  fs_other: "settlements s' = settlements s \<Longrightarrow> settlement_step s s'"
| fs_insert: "generate_begin L facts e advance user t = Inr (row, t') \<Longrightarrow>
    generate_commit up row user s = Inr s' \<Longrightarrow> settlement_step s s'"
| fs_advance: "update_advance L up e advance user s = Inr s' \<Longrightarrow> settlement_step s s'"
| fs_approve: "approve_settlement up now e user s = Inr s' \<Longrightarrow> settlement_step s s'"
| fs_pay: "mark_paid up now e user s = Inr s' \<Longrightarrow> settlement_step s s'"

inductive_cases settlement_stepE: "settlement_step s s'"

fun settlement_rank :: "settlement_status \<Rightarrow> nat" where
  "settlement_rank FNF_DRAFT = 0"
| "settlement_rank FNF_APPROVED = 1"
| "settlement_rank FNF_PAID = 2"

definition settlement_status_of :: "payroll_db \<Rightarrow> id \<Rightarrow> settlement_status option" where
  "settlement_status_of s e = map_option ff_status (find_settlement s e)"

lemma find_settlement_set:
  assumes "\<And>r. ff_employee (f r) = ff_employee r"
  shows "find_settlement (set_settlement e f s) k
    = (if k = e then map_option f (find_settlement s k) else find_settlement s k)"
proof (cases "k = e")
  case True
  then show ?thesis using assms by (simp add: find_settlement_def set_settlement_def find_row_update_same)
next
  case False
  then have "find_row (\<lambda>r. ff_employee r = k) (update_rows (\<lambda>r. ff_employee r = e) f (settlements s))
      = find_row (\<lambda>r. ff_employee r = k) (settlements s)"
    by (intro find_row_update_other) (auto simp: assms)
  with False show ?thesis by (simp add: find_settlement_def set_settlement_def)
qed

lemma find_settlement_audit [simp]: "find_settlement (write_payroll_audit up u a t i s) e = find_settlement s e"
  by (simp add: find_settlement_def)

lemma get_settlement_or_throw_Inr: "get_settlement_or_throw s e = Inr r \<longleftrightarrow> find_settlement s e = Some r"
  by (auto simp: get_settlement_or_throw_def split: option.splits)

text \<open>The figures of a settlement: everything its life cycle does not write.\<close>

definition figures :: "settlement_row \<Rightarrow> settlement_row" where
  "figures r = r\<lparr>ff_status := FNF_DRAFT, ff_approved_by := None, ff_approved_at := None, ff_paid_at := None\<rparr>"

text \<open>What a status says of the signatures.\<close>

definition signed :: "settlement_row \<Rightarrow> bool" where
  "signed r \<longleftrightarrow> (ff_status r \<noteq> FNF_DRAFT \<longleftrightarrow> ff_approved_by r \<noteq> None)
     \<and> (ff_approved_by r \<noteq> None \<longleftrightarrow> ff_approved_at r \<noteq> None) \<and> (ff_status r = FNF_PAID \<longleftrightarrow> ff_paid_at r \<noteq> None)"

lemma settlement_of_row:
  assumes "settlement_of L facts ps slabs offs user advance (emp, separation, joined, st) = Inr row"
  shows "ff_status row = FNF_DRAFT" "signed row" "ff_prepared_by row = sub user" "ff_employee row = emp_id emp"
    "ff_separation_date row = separation"
    "\<exists>unpaid encashment gratuity. ff_unpaid_amount row = money_col unpaid
      \<and> ff_encashment_amount row = money_col encashment \<and> ff_gratuity_amount row = money_col gratuity
      \<and> ff_net row = money_col (net_settlement L unpaid encashment gratuity advance)"
proof -
  obtain m where m: "resolve_monthly_amounts L (map component_input.truncate (st_components st)) (st_ctc_annual st) = Inr m"
    using assms
    by (cases "resolve_monthly_amounts L (map component_input.truncate (st_components st)) (st_ctc_annual st)")
      (auto simp: settlement_of_def and_then_Inr_iff split_def Let_def)
  with assms show "ff_status row = FNF_DRAFT" "signed row" "ff_prepared_by row = sub user" "ff_employee row = emp_id emp"
    "ff_separation_date row = separation"
    by (auto simp: settlement_of_def and_then_Inr_iff split_def Let_def signed_def)
  obtain x where x: "calculated (calculate_payroll L (settlement_input ps slabs st separation
      (fst (settlement_days facts offs emp separation)) (snd (settlement_days facts offs emp separation)))) = Inr x"
    using m assms by (auto simp: settlement_of_def and_then_Inr_iff split_def Let_def)
  show "\<exists>unpaid encashment gratuity. ff_unpaid_amount row = money_col unpaid
      \<and> ff_encashment_amount row = money_col encashment \<and> ff_gratuity_amount row = money_col gratuity
      \<and> ff_net row = money_col (net_settlement L unpaid encashment gratuity advance)"
    using m assms x
    by (intro exI [of _ "net_pay x"] exI [of _ "settlement_encashment L ps m (pf_encashable_days facts (emp_id emp))"]
        exI [of _ "settlement_gratuity L ps m (completed_years_of_service joined separation)"])
      (auto simp: settlement_of_def split_def Let_def)
qed

lemma generate_begin_Inr:
  assumes "generate_begin L facts e advance user s = Inr (row, s')"
  obtains emp separation joined st where "generate_guards e user s = Inr (emp, separation, joined, st)"
    "settlement_of L facts (fst (get_settings s))
        (case work_state emp of None \<Rightarrow> [] | Some ws \<Rightarrow> state_slabs (snd (get_settings s)) ws)
        (tenant_weekly_offs (snd (get_settings s))) user
        (case advance of None \<Rightarrow> 0 | Some a \<Rightarrow> a) (emp, separation, joined, st) = Inr row"
    "s' = snd (get_settings s)"
  using assms that
  by (auto simp: generate_begin_def and_then_Inr_iff split_def Let_def)

lemma generate_begin_row:
  assumes "generate_begin L facts e advance user s = Inr (row, s')"
  shows "ff_status row = FNF_DRAFT" "signed row" "ff_prepared_by row = sub user"
  by (rule generate_begin_Inr [OF assms], erule settlement_of_row)+

text \<open>One step as seen from one employee.\<close>

lemma step_settlement:
  assumes "settlement_step s s'" and "find_settlement s k = Some r"
  shows "\<exists>q. find_settlement s' k = Some q \<and> (signed r \<longrightarrow> signed q)
    \<and> (q = r
      \<or> ff_status r = FNF_DRAFT \<and> ff_status q = FNF_DRAFT
      \<or> settlement_rank (ff_status q) = Suc (settlement_rank (ff_status r)) \<and> figures q = figures r
        \<and> (ff_status r \<noteq> FNF_DRAFT \<longrightarrow> ff_approved_by q = ff_approved_by r \<and> ff_approved_at q = ff_approved_at r))"
  using assms(1)
proof cases
  case fs_other
  then show ?thesis using assms(2) by (simp add: find_settlement_def)
next
  case (fs_insert L facts e advance user t row t' up)
  then show ?thesis
    using assms(2) by (auto simp: generate_commit_def find_settlement_def find_row_append split: if_splits)
next
  case (fs_advance L up e advance user)
  then obtain x where x: "find_settlement s e = Some x" "ff_status x = FNF_DRAFT"
    and s': "s' = write_payroll_audit up user ''payroll.fnf_adjusted'' ''employee'' (Some e)
       (set_settlement e (\<lambda>r. r\<lparr>ff_advance_recovery := money_col advance,
          ff_net := money_col (net_settlement L (ff_unpaid_amount x) (ff_encashment_amount x)
            (ff_gratuity_amount x) advance)\<rparr>) s)"
    by (auto simp: update_advance_def and_then_Inr_iff get_settlement_or_throw_Inr split: if_splits)
  show ?thesis
    using assms(2) x by (cases "k = e") (auto simp: s' find_settlement_set signed_def)
next
  case (fs_approve up now e user)
  then obtain x where x: "find_settlement s e = Some x" "ff_status x = FNF_DRAFT"
    and s': "s' = write_payroll_audit up user ''payroll.fnf_approved'' ''employee'' (Some e)
       (set_settlement e (\<lambda>r. r\<lparr>ff_status := FNF_APPROVED, ff_approved_by := Some (sub user),
          ff_approved_at := Some now\<rparr>) s)"
    by (auto simp: approve_settlement_def and_then_Inr_iff get_settlement_or_throw_Inr split: if_splits)
  show ?thesis
    using assms(2) x by (cases "k = e") (auto simp: s' find_settlement_set signed_def figures_def)
next
  case (fs_pay up now e user)
  then obtain x where x: "find_settlement s e = Some x" "ff_status x = FNF_APPROVED"
    and s': "s' = write_payroll_audit up user ''payroll.fnf_paid'' ''employee'' (Some e)
       (set_settlement e (\<lambda>r. r\<lparr>ff_status := FNF_PAID, ff_paid_at := Some now\<rparr>) s)"
    by (auto simp: mark_paid_def and_then_Inr_iff get_settlement_or_throw_Inr split: if_splits)
  show ?thesis
    using assms(2) x by (cases "k = e") (auto simp: s' find_settlement_set signed_def figures_def)
qed

interpretation settlement: status_machine settlement_step settlement_status_of settlement_rank
proof
  fix s s' k a
  assume "settlement_step s s'" "settlement_status_of s k = Some a"
  then obtain r where "find_settlement s k = Some r" "ff_status r = a"
    by (auto simp: settlement_status_of_def)
  with step_settlement [OF \<open>settlement_step s s'\<close>]
  show "\<exists>b. settlement_status_of s' k = Some b \<and> settlement_rank a \<le> settlement_rank b
      \<and> settlement_rank b \<le> Suc (settlement_rank a)"
    by (fastforce simp: settlement_status_of_def)
qed

section \<open>Properties\<close>


lemma find_settlement_in:
  "unique_key ff_employee (settlements s) \<Longrightarrow> r \<in> set (settlements s) \<Longrightarrow> find_settlement s (ff_employee r) = Some r"
  using find_row_unique [of ff_employee "settlements s" r] by (simp add: find_settlement_def)

lemma step_keys:
  assumes "settlement_step s s'" and "unique_key ff_employee (settlements s)"
  shows "unique_key ff_employee (settlements s')
    \<and> (\<forall>q \<in> set (settlements s'). ff_employee q \<in> ff_employee ` set (settlements s) \<or> signed q)"
proof -
  have same: "unique_key ff_employee (settlements t)
      \<and> (\<forall>q \<in> set (settlements t). ff_employee q \<in> ff_employee ` set (settlements s) \<or> signed q)"
    if "map ff_employee (settlements t) = map ff_employee (settlements s)" for t
  proof -
    from that have "ff_employee ` set (settlements t) = ff_employee ` set (settlements s)"
      by (metis list.set_map)
    with that assms(2) show ?thesis by (auto simp: unique_key_def)
  qed
  from assms(1) show ?thesis
  proof cases
    case (fs_insert L facts e advance user t row t' up)
    then show ?thesis
      using assms(2) generate_begin_row(2) [OF fs_insert(1)]
      by (auto simp: generate_commit_def find_settlement_def unique_key_append1 split: if_splits)
  qed (auto simp: update_advance_def approve_settlement_def mark_paid_def and_then_Inr_iff set_settlement_def
      map_update_rows assms(2) split: if_splits intro!: same)
qed

lemma signed_step:
  assumes "settlement_step s s'" and "unique_key ff_employee (settlements s)"
    and "\<forall>r \<in> set (settlements s). signed r"
  shows "unique_key ff_employee (settlements s') \<and> (\<forall>r \<in> set (settlements s'). signed r)"
proof -
  note keys = step_keys [OF assms(1,2)]
  have "signed q" if q: "q \<in> set (settlements s')" for q
  proof (cases "ff_employee q \<in> ff_employee ` set (settlements s)")
    case True
    then obtain r where r: "r \<in> set (settlements s)" "ff_employee r = ff_employee q" by auto
    from step_settlement [OF assms(1) find_settlement_in [OF assms(2) r(1)]] assms(3) r
    obtain q' where "find_settlement s' (ff_employee q) = Some q'" "signed q'" by auto
    with find_settlement_in [OF _ q] keys show ?thesis by simp
  qed (use q keys in auto)
  with keys show ?thesis by blast
qed

text \<open>
  The table of settlements stays consistent, whichever requests overlap: an employee has at
  most one settlement ever, it carries an approver and an approval time exactly when it is past
  DRAFT, and a payment time exactly when it is PAID.
\<close>

theorem settlements_consistent:
  assumes "settlement_step\<^sup>*\<^sup>* s s'" and "settlements s = []"
    and "r \<in> set (settlements s')" and "q \<in> set (settlements s')" and "ff_employee r = ff_employee q"
  shows "r = q \<and> signed r"
proof -
  from assms(1) have "unique_key ff_employee (settlements s') \<and> (\<forall>r \<in> set (settlements s'). signed r)"
  proof (induction rule: rtranclp_induct)
    case base
    then show ?case using assms(2) by (simp add: unique_key_def)
  next
    case (step t u)
    with signed_step show ?case by blast
  qed
  with assms(3-5) show ?thesis by (auto simp: unique_key_def distinct_map inj_on_def)
qed


text \<open>
  The advance decides the net and nothing else: after an adjustment the net settlement is,
  to the paisa, unpaid salary plus encashment plus gratuity less the new advance, and no other
  column of the draft has changed, so a second adjustment is as if the first had not happened.
\<close>

theorem advance_sets_net:
  assumes "decimal_arith L" and "update_advance L up e advance user s = Inr s'"
    and "find_settlement s e = Some r" and "paise advance" and "\<bar>advance\<bar> \<le> 10 ^ 17"
    and "\<And>x. x \<in> {ff_unpaid_amount r, ff_encashment_amount r, ff_gratuity_amount r} \<Longrightarrow> paise x \<and> \<bar>x\<bar> \<le> 10 ^ 17"
  shows "find_settlement s' e = Some (r\<lparr>ff_advance_recovery := advance,
      ff_net := ff_unpaid_amount r + ff_encashment_amount r + ff_gratuity_amount r - advance\<rparr>)"
proof -
  let ?u = "ff_unpaid_amount r" and ?e = "ff_encashment_amount r" and ?g = "ff_gratuity_amount r"
  note exact = decimal_arith.paise_exact [OF assms(1)]
  have p: "paise ?u" "paise ?e" "paise ?g" "\<bar>?u\<bar> \<le> 10 ^ 17" "\<bar>?e\<bar> \<le> 10 ^ 17" "\<bar>?g\<bar> \<le> 10 ^ 17"
    using assms(6) by auto
  have q: "paise (?u + ?e)" "paise (?u + ?e + ?g)" "paise (?u + ?e + ?g - advance)"
    using p assms(4) by (simp_all add: paise_add paise_diff)
  have "\<bar>?u + ?e\<bar> \<le> 10 ^ 18" "\<bar>?u + ?e + ?g\<bar> \<le> 10 ^ 18" "\<bar>?u + ?e + ?g - advance\<bar> \<le> 10 ^ 18"
    using p(4-6) assms(5) by simp_all
  then have "net_settlement L ?u ?e ?g advance = ?u + ?e + ?g - advance"
    using q exact by (simp add: net_settlement_def dec_simps)
  moreover have "money_col (?u + ?e + ?g - advance) = ?u + ?e + ?g - advance" "money_col advance = advance"
    using q(3) assms(4) by (simp_all add: money_col_exact)
  moreover have "s' = write_payroll_audit up user ''payroll.fnf_adjusted'' ''employee'' (Some e)
       (set_settlement e (\<lambda>x. x\<lparr>ff_advance_recovery := money_col advance,
          ff_net := money_col (net_settlement L ?u ?e ?g advance)\<rparr>) s)"
    using assms(2,3) by (auto simp: update_advance_def and_then_Inr_iff get_settlement_or_throw_Inr split: if_splits)
  ultimately show ?thesis using assms(3) by (simp add: find_settlement_set)
qed

section \<open>A settlement evaluated\<close>

text \<open>The employee of the example leaves on 30 April 2026.\<close>

definition leaving_tenant :: payroll_db where
  "leaving_tenant = paid_tenant\<lparr>employees :=
     [sample_employee\<lparr>lifecycle := SEPARATED, last_working_date := Some (date_utc 2026 3 30), work_state := None\<rparr>]\<rparr>"

lemma leaving_days:
  "settlement_period (date_utc 2026 3 30) = ''2026-04''"
  "compute_payable_days (date_utc 2026 3 1) (date_utc 2026 4 1 - 1) {} [0, 6] 0 None (Some (date_utc 2026 3 30)) = (22, 22)"
  by code_simp+

lemma leaving_generated:
  "\<exists>s'. generate decimal_js False no_facts ''e1'' (Some 5000) sample_admin leaving_tenant = Inr s'"
proof -
  let ?emp = "sample_employee\<lparr>lifecycle := SEPARATED, last_working_date := Some (date_utc 2026 3 30), work_state := None\<rparr>"
  have tables: "settlements leaving_tenant = []" "employees leaving_tenant = [?emp]"
    "find_active leaving_tenant ''e1'' = Some sample_structure" "tenant_weekly_offs leaving_tenant = [0, 6]"
    "get_settings leaving_tenant = (april_settings, leaving_tenant)" "2 \<le> active_admins leaving_tenant"
    using sample_users(5)
    by (simp_all add: leaving_tenant_def paid_tenant_def sample_tenant_def empty_db_def find_active_def
        sample_structure_def get_settings_def active_admins_def april_settings_def)
  have emp: "emp_id ?emp = ''e1''" "lifecycle ?emp = SEPARATED" "last_working_date ?emp = Some (date_utc 2026 3 30)"
    "date_of_joining ?emp = Some 0" "work_state ?emp = None" "weekly_off_days_override ?emp = []"
    by (simp_all add: sample_employee_def)
  have "generate_guards ''e1'' sample_admin leaving_tenant
      = Inr (?emp, date_utc 2026 3 30, 0, sample_structure)"
    using tables(6)
    by (simp add: generate_guards_def assert_can_manage_def assert_payroll_gate_def find_settlement_def tables(1-3)
        emp del: employee_row.simps)
  moreover have "settlement_days no_facts [0, 6] ?emp (date_utc 2026 3 30) = (22, 22)"
    by (simp add: settlement_days_def leaving_days april_days(1) no_facts_def sample_employee_def
        effective_weekly_off_days_def)
  moreover have "calculate_payroll decimal_js (settlement_input april_settings [] sample_structure (date_utc 2026 3 30) 22 22)
      = Inr april_result"
  proof -
    have "settlement_input april_settings [] sample_structure (date_utc 2026 3 30) 22 22 = april_input True"
      by (simp add: settlement_input_def leaving_days(1) april_days(4) april_input_def april_settings_def
          sample_input_def sample_structure_def calculator_component.truncate_def)
    then show ?thesis by (simp add: april_calculated)
  qed
  moreover have "resolve_monthly_amounts decimal_js (map component_input.truncate (st_components sample_structure))
      (st_ctc_annual sample_structure) = Inr sample_monthly"
    using sample_monthly_eq by (simp add: sample_input_def sample_structure_def component_input.truncate_def)
  ultimately show ?thesis
    by (simp add: generate_def generate_begin_def tables settlement_of_def calculated_def Let_def
        generate_commit_def find_settlement_def)
qed


definition sample_settlement :: settlement_row where
  "sample_settlement = \<lparr>ff_employee = ''e1'', ff_separation_date = 0, ff_unpaid_days = 22, ff_unpaid_amount = 48200,
     ff_encashment_days = 0, ff_encashment_amount = 0, ff_gratuity_years = 0, ff_gratuity_amount = 0,
     ff_advance_recovery = 0, ff_net = 48200,
     ff_snapshot = \<lparr>fs_working_days = 22, fs_payable_days = 22, fs_gross = 50000, fs_epf_employee = 1800,
       fs_esi_employee = 0, fs_professional_tax = 0, fs_last_basic = 40000\<rparr>,
     ff_status = FNF_DRAFT, ff_prepared_by = ''u1'', ff_approved_by = None, ff_approved_at = None, ff_paid_at = None\<rparr>"

definition settled_state :: "settlement_row \<Rightarrow> payroll_db" where
  "settled_state r = sample_tenant\<lparr>settlements := [r]\<rparr>"

definition sample_approved :: settlement_row where
  "sample_approved = sample_settlement\<lparr>ff_status := FNF_APPROVED, ff_approved_by := Some ''u1'', ff_approved_at := Some 0\<rparr>"

lemma sample_found [simp]:
  "find_settlement (settled_state sample_settlement) ''e1'' = Some sample_settlement"
  "find_settlement (settled_state sample_approved) ''e1'' = Some sample_approved"
  by (simp_all add: find_settlement_def settled_state_def sample_approved_def sample_settlement_def)


theorem advance_sets_net_witness:
  "\<exists>s'. update_advance decimal_js False ''e1'' 5000 sample_admin (settled_state sample_settlement) = Inr s'
    \<and> map_option ff_net (find_settlement s' ''e1'') = Some 43200"
proof -
  obtain s' where s': "update_advance decimal_js False ''e1'' 5000 sample_admin (settled_state sample_settlement) = Inr s'"
    by (simp add: update_advance_def assert_can_manage_def get_settlement_or_throw_def)
      (simp add: sample_settlement_def)
  have "paise (of_int 5000)" "paise (of_int 48200)" by (rule paise_int)+
  then have "find_settlement s' ''e1'' = Some (sample_settlement\<lparr>ff_advance_recovery := 5000,
      ff_net := ff_unpaid_amount sample_settlement + ff_encashment_amount sample_settlement
        + ff_gratuity_amount sample_settlement - 5000\<rparr>)"
    by (intro advance_sets_net [OF decjs.decimal_arith_axioms s' sample_found(1)])
      (auto simp: sample_settlement_def)
  with s' show ?thesis by (simp add: sample_settlement_def)
qed

theorem settlements_consistent_witness:
  "\<exists>s' r. settlement_step\<^sup>*\<^sup>* leaving_tenant s' \<and> settlements s' = [r] \<and> signed r"
proof -
  obtain s' where s': "generate decimal_js False no_facts ''e1'' (Some 5000) sample_admin leaving_tenant = Inr s'"
    using leaving_generated by blast
  then obtain row s1 where b: "generate_begin decimal_js no_facts ''e1'' (Some 5000) sample_admin leaving_tenant = Inr (row, s1)"
    and c: "generate_commit False row sample_admin s1 = Inr s'"
    by (auto simp: generate_def and_then_Inr_iff)
  have none: "settlements leaving_tenant = []"
    by (simp add: leaving_tenant_def paid_tenant_def sample_tenant_def empty_db_def)
  from b have "settlements s1 = []" by (rule generate_begin_Inr) (simp add: none)
  with c have rows: "settlements s' = [row]" by (auto simp: generate_commit_def split: if_splits)
  have "settlement_step leaving_tenant s1"
    by (rule fs_other) (simp add: none \<open>settlements s1 = []\<close>)
  moreover have "settlement_step s1 s'" using fs_insert [OF b c] .
  ultimately have "settlement_step\<^sup>*\<^sup>* leaving_tenant s'" by (meson r_into_rtranclp rtranclp.rtrancl_into_rtrancl)
  with settlements_consistent [OF this none, of row row] rows show ?thesis by auto
qed

section \<open>The first month of a short employment\<close>

text \<open>
  \<open>generate\<close> passes no joining date to \<open>computePayableDays\<close>: someone who joined on 20 April 2026 and
  left on the 30th is paid for all 22 working days of April, not for the 9 of the employment.
\<close>

lemma joined_in_last_month_overpaid:
  "settlement_days no_facts [0, 6]
      (sample_employee\<lparr>date_of_joining := Some (date_utc 2026 3 20)\<rparr>) (date_utc 2026 3 30) = (22, 22)
   \<and> compute_payable_days (date_utc 2026 3 1) (date_utc 2026 4 1 - 1) {} [0, 6] 0
      (Some (date_utc 2026 3 20)) (Some (date_utc 2026 3 30)) = (22, 9)"
proof -
  have "compute_payable_days (date_utc 2026 3 1) (date_utc 2026 4 1 - 1) {} [0, 6] 0
      (Some (date_utc 2026 3 20)) (Some (date_utc 2026 3 30)) = (22, 9)" by code_simp
  then show ?thesis
    by (simp add: settlement_days_def leaving_days april_days(1) no_facts_def sample_employee_def
        effective_weekly_off_days_def)
qed

end
