(* ===== verification/LeaveEntitlement.thy ===== *)
theory LeaveEntitlement
  imports Numbers Calendar
begin

text \<open>
  The entitlement arithmetic of \<open>apps/api/src/leave/leave-entitlement.ts\<close> and
  \<open>leave-year.util.ts\<close>: leave years, accrual periods, the credits a policy owes, the days carried
  forward. Days are JavaScript numbers; the refinement below shows that within the range of the
  columns the doubles compute what whole hundredths would.
\<close>

section \<open>Leave years and periods\<close>

datatype accrual_frequency = ANNUAL | MONTHLY | QUARTERLY

record leave_window =
  lw_year :: int
  lw_start :: date
  lw_end :: date

record period =
  p_start :: date
  p_end :: date

definition utc_midnight :: "date \<Rightarrow> date" where
  "utc_midnight d = date_utc (utc_year d) (utc_month d) (utc_date d)"

definition resolve_leave_year :: "date \<Rightarrow> int \<Rightarrow> int" where
  "resolve_leave_year d fy_start_month =
     (let month = utc_month d + 1
      in if fy_start_month \<le> month then utc_year d else utc_year d - 1)"

definition leave_year_window :: "int \<Rightarrow> int \<Rightarrow> leave_window" where
  "leave_year_window year fy_start_month =
     \<lparr>lw_year = year, lw_start = date_utc year (fy_start_month - 1) 1,
      lw_end = date_utc (year + 1) (fy_start_month - 1) 1\<rparr>"

definition period_step :: "accrual_frequency \<Rightarrow> nat" where
  "period_step f = (if f = MONTHLY then 1 else 3)"

definition accrual_periods :: "accrual_frequency \<Rightarrow> leave_window \<Rightarrow> period list" where
  "accrual_periods f w =
     (let step = period_step f; y = utc_year (lw_start w); m = utc_month (lw_start w)
      in map (\<lambda>i. \<lparr>p_start = date_utc y (m + int i) 1, p_end = date_utc y (m + int i + int step) 1\<rparr>)
           (filter (\<lambda>i. i mod step = 0) [0..<12]))"

definition period_containing :: "accrual_frequency \<Rightarrow> leave_window \<Rightarrow> date \<Rightarrow> period option" where
  "period_containing f w d =
     (if d < lw_start w \<or> lw_end w \<le> d then None
      else if f = ANNUAL then Some \<lparr>p_start = lw_start w, p_end = lw_end w\<rparr>
      else find_row (\<lambda>p. p_start p \<le> d \<and> d < p_end p) (accrual_periods f w))"

definition later_start :: "date \<Rightarrow> date option \<Rightarrow> date" where
  "later_start start d =
     (case d of None \<Rightarrow> start | Some x \<Rightarrow> if start < utc_midnight x then utc_midnight x else start)"

definition effective_start :: "leave_window \<Rightarrow> date option \<Rightarrow> date option \<Rightarrow> date" where
  "effective_start w date_of_joining go_live = foldl later_start (lw_start w) [date_of_joining, go_live]"

section \<open>Credits\<close>

record credit_input =
  ci_frequency :: accrual_frequency
  ci_quota :: number
  ci_window :: leave_window
  ci_start :: date
  ci_today :: date
  ci_credited :: "date set"
  ci_accrued :: number
  ci_opening :: bool

record credit =
  cr_period_start :: date
  cr_occurred_at :: date
  cr_amount :: number

definition fraction_left :: "date \<Rightarrow> period \<Rightarrow> number" where
  "fraction_left start p = js_fl (of_int (p_end p - start) / of_int (p_end p - p_start p))"

definition period_amount :: "date \<Rightarrow> number \<Rightarrow> period \<Rightarrow> number" where
  "period_amount start per_period p =
     (if p_start p < start then whole_days (js_fl (per_period * fraction_left start p)) else round2 per_period)"

fun accrue_periods :: "credit_input \<Rightarrow> number \<Rightarrow> number \<Rightarrow> period list \<Rightarrow> credit list" where
  "accrue_periods i per_period remaining [] = []"
| "accrue_periods i per_period remaining (p # ps) =
     (if ci_today i < p_start p then []
      else if p_end p \<le> ci_start i then accrue_periods i per_period remaining ps
      else if p_start p \<in> ci_credited i then accrue_periods i per_period remaining ps
      else let amount = min (period_amount (ci_start i) per_period p) remaining
           in if amount \<le> 0 then accrue_periods i per_period remaining ps
              else \<lparr>cr_period_start = p_start p, cr_occurred_at = (if p_start p < ci_start i then ci_start i else p_start p),
                  cr_amount = amount\<rparr>
                # accrue_periods i per_period (round2 (js_fl (remaining - amount))) ps)"

definition annual_credits :: "credit_input \<Rightarrow> number \<Rightarrow> credit list" where
  "annual_credits i remaining =
     (let w = ci_window i
      in if ci_opening i \<or> ci_credited i \<noteq> {} then []
         else let share = fraction_left (ci_start i) \<lparr>p_start = lw_start w, p_end = lw_end w\<rparr>;
                  amount = min (if 1 \<le> share then ci_quota i else whole_days (js_fl (ci_quota i * share))) remaining
              in if 0 < amount
                 then [\<lparr>cr_period_start = lw_start w, cr_occurred_at = ci_start i, cr_amount = amount\<rparr>] else [])"

definition credits_due :: "credit_input \<Rightarrow> credit list" where
  "credits_due i =
     (if ci_quota i \<le> 0 \<or> lw_end (ci_window i) \<le> ci_start i \<or> ci_today i < ci_start i then []
      else let remaining = round2 (js_fl (ci_quota i - ci_accrued i))
           in if remaining \<le> 0 then []
              else if ci_frequency i = ANNUAL then annual_credits i remaining
              else let periods = accrual_periods (ci_frequency i) (ci_window i)
                   in accrue_periods i (js_fl (ci_quota i / of_nat (length periods))) remaining periods)"

definition carry_forward_days :: "number \<Rightarrow> number \<Rightarrow> number" where
  "carry_forward_days previous_available cap =
     (if cap \<le> 0 \<or> previous_available \<le> 0 then 0 else round2 (min previous_available cap))"

definition days_between_utc :: "date \<Rightarrow> date \<Rightarrow> int" where
  "days_between_utc a b = half_up_int (js_fl (of_int (utc_midnight b - utc_midnight a) / of_int DAY_MS))"

section \<open>The same in whole hundredths\<close>

text \<open>
  The reference: the quota and the days accrued so far are integers (hundredths of a day), and every
  addition and comparison is exact. Only the share of a period is a quotient of doubles.
\<close>

definition due_cents :: "date \<Rightarrow> number \<Rightarrow> period \<Rightarrow> int" where
  "due_cents start per_period p =
     (if p_start p < start then 100 * half_up_int (js_fl (per_period * fraction_left start p))
      else half_up_int (js_fl (per_period * 100)))"

fun accrue_cents :: "credit_input \<Rightarrow> number \<Rightarrow> int \<Rightarrow> period list \<Rightarrow> (date \<times> date \<times> int) list" where
  "accrue_cents i per_period r [] = []"
| "accrue_cents i per_period r (p # ps) =
     (let k = min (due_cents (ci_start i) per_period p) r
      in if ci_today i < p_start p then []
         else if p_end p \<le> ci_start i \<or> p_start p \<in> ci_credited i \<or> k \<le> 0 then accrue_cents i per_period r ps
         else (p_start p, max (p_start p) (ci_start i), k) # accrue_cents i per_period (r - k) ps)"

definition annual_cents :: "credit_input \<Rightarrow> int \<Rightarrow> int \<Rightarrow> (date \<times> date \<times> int) list" where
  "annual_cents i q r =
     (let w = ci_window i;
          share = fraction_left (ci_start i) \<lparr>p_start = lw_start w, p_end = lw_end w\<rparr>;
          k = min (if 1 \<le> share then q else 100 * half_up_int (js_fl (cents q * share))) r
      in if ci_opening i \<or> ci_credited i \<noteq> {} \<or> k \<le> 0 then [] else [(lw_start w, ci_start i, k)])"

definition credits_in_cents :: "credit_input \<Rightarrow> int \<Rightarrow> int \<Rightarrow> (date \<times> date \<times> int) list" where
  "credits_in_cents i q a =
     (if q \<le> 0 \<or> q \<le> a \<or> lw_end (ci_window i) \<le> ci_start i \<or> ci_today i < ci_start i then []
      else if ci_frequency i = ANNUAL then annual_cents i q (q - a)
      else let periods = accrual_periods (ci_frequency i) (ci_window i)
           in accrue_cents i (js_fl (cents q / of_nat (length periods))) (q - a) periods)"

definition credit_of :: "date \<times> date \<times> int \<Rightarrow> credit" where
  "credit_of = (\<lambda>(start, day, k). \<lparr>cr_period_start = start, cr_occurred_at = day, cr_amount = cents k\<rparr>)"

lemma fraction_left_bounds:
  assumes "p_start p < start" and "start < p_end p"
  shows "0 \<le> fraction_left start p \<and> fraction_left start p \<le> 1"
  using assms by (simp add: fraction_left_def js.fl_nonneg js.fl_le_1)

lemma half_up_bounded:
  fixes x :: rat
  assumes "0 \<le> x" and "x \<le> of_int n"
  shows "\<bar>half_up_int x\<bar> \<le> n"
  using half_up.rnd_ge [of 0 x] half_up.rnd_le [OF assms(2)] assms(1) by simp

lemma cents_range: "0 \<le> q \<Longrightarrow> q \<le> 10 ^ 6 \<Longrightarrow> 0 \<le> cents q \<and> cents q \<le> 10 ^ 4 + 1"
  using cents_mono [of 0 q] cents_near [of q] unfolding abs_le_iff by simp

lemma fl_scaled:
  assumes "0 \<le> x" and "x \<le> 10 ^ 4 + 1" and "0 \<le> t" and "t \<le> 1"
  shows "0 \<le> js_fl (x * t) \<and> js_fl (x * t) \<le> 10 ^ 4 + 1"
proof -
  have "x * t \<le> (10 ^ 4 + 1) * 1" using assms by (intro mult_mono) simp_all
  then have "js_fl (x * t) \<le> js_fl (of_int 10001)" by (intro js.fl_mono) simp
  also have "\<dots> = of_int 10001" by (rule js.fl_int) simp
  finally show ?thesis using assms js.fl_nonneg [of "x * t"] by simp
qed

lemma period_amount_cents:
  assumes pp: "0 \<le> pp" "pp \<le> 10 ^ 4 + 1" and "start < p_end p"
  shows "period_amount start pp p = cents (due_cents start pp p) \<and> \<bar>due_cents start pp p\<bar> \<le> 10 ^ 7"
proof (cases "p_start p < start")
  case True
  with assms(3) fraction_left_bounds [OF this] fl_scaled [OF pp]
  have "0 \<le> js_fl (pp * fraction_left start p)" "js_fl (pp * fraction_left start p) \<le> of_int 10001" by auto
  then have b: "\<bar>half_up_int (js_fl (pp * fraction_left start p))\<bar> \<le> 10001" by (rule half_up_bounded)
  with True show ?thesis
    by (simp add: period_amount_def due_cents_def whole_days_def of_int_cents abs_mult)
next
  case False
  have "js_fl (pp * 100) \<le> js_fl (of_int 1000100)" using pp by (intro js.fl_mono) simp
  also have "\<dots> = of_int 1000100" by (rule js.fl_int) simp
  finally have "\<bar>half_up_int (js_fl (pp * 100))\<bar> \<le> 1000100"
    using pp js.fl_nonneg [of "pp * 100"] by (intro half_up_bounded) simp_all
  with False show ?thesis by (simp add: period_amount_def due_cents_def round2_cents)
qed

lemma accrue_periods_cents:
  assumes pp: "0 \<le> pp" "pp \<le> 10 ^ 4 + 1" and "\<bar>r\<bar> \<le> 10 ^ 8"
  shows "accrue_periods i pp (cents r) ps = map credit_of (accrue_cents i pp r ps)"
  using assms(3)
proof (induction ps arbitrary: r)
  case (Cons p ps)
  let ?k = "min (due_cents (ci_start i) pp p) r"
  show ?case
  proof (cases "ci_today i < p_start p \<or> p_end p \<le> ci_start i \<or> p_start p \<in> ci_credited i")
    case True
    with Cons show ?thesis by auto
  next
    case False
    then have amount: "min (period_amount (ci_start i) pp p) (cents r) = cents ?k"
      and k: "\<bar>due_cents (ci_start i) pp p\<bar> \<le> 10 ^ 7"
      using period_amount_cents [OF pp, of "ci_start i" p] by (simp_all add: min_cents)
    show ?thesis
    proof (cases "?k \<le> 0")
      case True
      with False amount Cons show ?thesis by (simp add: Let_def cents_le_0)
    next
      case pos: False
      with k Cons.prems have "\<bar>?k\<bar> \<le> 10 ^ 8" "\<bar>r - ?k\<bar> \<le> 10 ^ 8" by (auto simp: min_def abs_le_iff)
      with round2_diff [OF Cons.prems this(1)] Cons.IH [OF this(2)] False pos amount show ?thesis
        by (simp add: Let_def cents_le_0 credit_of_def max_def)
    qed
  qed
qed simp

section \<open>Periods of a leave year\<close>

lemma make_day_shift: "make_day y (m + 12 * k) d = make_day (y + k) m d"
  by (simp add: make_day_def algebra_simps)

lemma make_day_month_less: "make_day y m 1 < make_day y (m + 1) 1"
proof -
  define k n where "k = m div 12" and "n = m mod 12"
  have m: "m = n + 12 * k" "m + 1 = (n + 1) + 12 * k" by (simp_all add: k_def n_def)
  have "0 \<le> n" "n < 12" by (simp_all add: n_def)
  then have "make_day (y + k) n 1 < make_day (y + k) (n + 1) 1"
    using make_day_next_month [of n "y + k"] days_in_month_bounds [of n "y + k"] by linarith
  moreover have "make_day y m 1 = make_day (y + k) n 1" unfolding m(1) by (rule make_day_shift)
  moreover have "make_day y (m + 1) 1 = make_day (y + k) (n + 1) 1" unfolding m(2) by (rule make_day_shift)
  ultimately show ?thesis by simp
qed

lemma make_day_months_less: "0 < n \<Longrightarrow> make_day y m 1 < make_day y (m + int n) 1"
proof (induction n)
  case (Suc n)
  have step: "make_day y (m + int n) 1 < make_day y (m + int (Suc n)) 1"
    using make_day_month_less [of y "m + int n"] by (simp add: algebra_simps)
  show ?case using Suc.IH step by (cases "n = 0") auto
qed simp

lemma date_utc_months_less:
  assumes "100 \<le> y" and "0 < n"
  shows "date_utc y m 1 < date_utc y (m + int n) 1"
  using assms make_day_months_less [of n y m] by (simp add: date_utc_def)

text \<open>Consecutive periods: each non-empty, each ending where the next one starts.\<close>

fun chained :: "period list \<Rightarrow> bool" where
  "chained [] = True"
| "chained (p # ps) = (p_start p < p_end p \<and> (\<forall>q \<in> set ps. p_end p \<le> p_start q) \<and> chained ps)"

lemma accrual_periods_eq:
  "accrual_periods f w =
     (let y = utc_year (lw_start w); m = utc_month (lw_start w)
      in if f = MONTHLY
         then map (\<lambda>i. \<lparr>p_start = date_utc y (m + int i) 1, p_end = date_utc y (m + int i + 1) 1\<rparr>)
           [0, 1, 2, 3, 4, 5, 6, 7, 8, 9, 10, 11]
         else map (\<lambda>i. \<lparr>p_start = date_utc y (m + int i) 1, p_end = date_utc y (m + int i + 3) 1\<rparr>) [0, 3, 6, 9])"
  by (simp add: accrual_periods_def period_step_def upt_rec Let_def)

lemma length_accrual_periods: "length (accrual_periods f w) = (if f = MONTHLY then 12 else 4)"
  by (simp add: accrual_periods_eq Let_def)

lemma chained_months:
  assumes y: "100 \<le> y" and s: "0 < step" and "sorted_wrt (\<lambda>i j. i + step \<le> j) is"
  shows "chained (map (\<lambda>i. \<lparr>p_start = date_utc y (m + int i) 1, p_end = date_utc y (m + int i + int step) 1\<rparr>) is)"
  using assms(3)
proof (induction "is")
  case (Cons i "is")
  have "date_utc y (m + int i + int step) 1 \<le> date_utc y (m + int j) 1" if "i + step \<le> j" for j
    using date_utc_months_less [OF y, of "j - (i + step)" "m + int i + int step"] that
    by (cases "j = i + step") (simp_all add: algebra_simps of_nat_diff)
  with Cons date_utc_months_less [OF y s, of "m + int i"] show ?case by auto
qed simp

lemma accrual_periods_chained:
  assumes "100 \<le> utc_year (lw_start w)"
  shows "chained (accrual_periods f w)"
  using chained_months [OF assms, of 1 "[0, 1, 2, 3, 4, 5, 6, 7, 8, 9, 10, 11]" "utc_month (lw_start w)"]
    chained_months [OF assms, of 3 "[0, 3, 6, 9]" "utc_month (lw_start w)"]
  unfolding accrual_periods_eq Let_def by (auto simp del: chained.simps)

text \<open>What a policy's run has for an employee and a type: a leave year, a quota column, a ledger sum.\<close>

definition proper_input :: "credit_input \<Rightarrow> int \<Rightarrow> int \<Rightarrow> bool" where
  "proper_input i q a \<longleftrightarrow> lw_start (ci_window i) < lw_end (ci_window i) \<and> 100 \<le> utc_year (lw_start (ci_window i))
     \<and> ci_quota i = cents q \<and> q \<le> 10 ^ 6 \<and> close_to (ci_accrued i) a \<and> \<bar>a\<bar> \<le> 10 ^ 7"

lemma leave_year_window_proper:
  assumes "100 \<le> y" and "1 \<le> m" and "m \<le> 12"
  shows "lw_start (leave_year_window y m) < lw_end (leave_year_window y m)"
    and "utc_year (lw_start (leave_year_window y m)) = y"
proof -
  have "date_utc (y + 1) (m - 1) 1 = date_utc y (m - 1 + int 12) 1"
    using assms(1) make_day_carry [of y "m - 1" 1] by (simp add: date_utc_def)
  with date_utc_months_less [OF assms(1), of 12 "m - 1"]
  show "lw_start (leave_year_window y m) < lw_end (leave_year_window y m)"
    by (simp add: leave_year_window_def)
  show "utc_year (lw_start (leave_year_window y m)) = y"
    using utc_readers [of y "m - 1" 1] days_in_month_bounds [of "m - 1" y] assms
    by (simp add: leave_year_window_def)
qed

lemma annual_credits_cents:
  assumes q: "0 < q" "q \<le> 10 ^ 6" and quota: "ci_quota i = cents q"
    and w: "lw_start (ci_window i) < lw_end (ci_window i)" "ci_start i < lw_end (ci_window i)"
  shows "annual_credits i (cents r) = map credit_of (annual_cents i q r)"
proof -
  let ?p = "\<lparr>p_start = lw_start (ci_window i), p_end = lw_end (ci_window i)\<rparr>"
  let ?s = "fraction_left (ci_start i) ?p"
  have whole: "whole_days (js_fl (cents q * ?s)) = cents (100 * half_up_int (js_fl (cents q * ?s)))"
    if "?s < 1"
  proof -
    have "0 \<le> ?s" using w by (simp add: fraction_left_def js.fl_nonneg)
    then have "\<bar>half_up_int (js_fl (cents q * ?s))\<bar> \<le> 10001"
      using fl_scaled [of "cents q" ?s] cents_range [of q] q that by (intro half_up_bounded) auto
    then show ?thesis by (simp add: whole_days_def of_int_cents)
  qed
  show ?thesis
    using whole
    by (cases "1 \<le> ?s")
      (auto simp: annual_credits_def annual_cents_def Let_def quota min_cents cents_pos credit_of_def not_le)
qed

text \<open>The run in doubles and the run in hundredths are the same.\<close>

lemma credits_due_cents:
  assumes "proper_input i q a"
  shows "credits_due i = map credit_of (credits_in_cents i q a)"
proof (cases "q \<le> 0 \<or> lw_end (ci_window i) \<le> ci_start i \<or> ci_today i < ci_start i")
  case True
  with assms show ?thesis by (auto simp: proper_input_def credits_due_def credits_in_cents_def cents_le_0)
next
  case False
  let ?r = "q - a" and ?w = "ci_window i"
  have i: "lw_start ?w < lw_end ?w" "ci_quota i = cents q" "q \<le> 10 ^ 6" "\<bar>a\<bar> \<le> 10 ^ 7" "close_to (ci_accrued i) a"
    using assms by (simp_all add: proper_input_def)
  have r: "\<bar>?r\<bar> \<le> 10 ^ 8" and q: "\<bar>q\<bar> \<le> 10 ^ 9" and a: "\<bar>a\<bar> \<le> 10 ^ 9" using i False by (auto simp: abs_le_iff)
  have "about (js_fl (ci_quota i - ci_accrued i)) ?r"
    unfolding i(2) by (rule about_diff [OF close_cents [OF q] i(5) q a])
  then have rem: "round2 (js_fl (ci_quota i - ci_accrued i)) = cents ?r"
    using r by (intro round2_about) simp_all
  let ?n = "of_nat (length (accrual_periods (ci_frequency i) ?w)) :: rat"
  have pp: "0 \<le> js_fl (cents q / ?n)" "js_fl (cents q / ?n) \<le> 10 ^ 4 + 1"
  proof -
    have t: "0 \<le> 1 / ?n" "1 / ?n \<le> 1" by (simp_all add: length_accrual_periods)
    show "0 \<le> js_fl (cents q / ?n)" "js_fl (cents q / ?n) \<le> 10 ^ 4 + 1"
      using fl_scaled [of "cents q" "1 / ?n"] cents_range [of q] i(3) False t by auto
  qed
  have "?r \<le> 0 \<longleftrightarrow> q \<le> a" by simp
  with False rem i show ?thesis
    using annual_credits_cents [of q i ?r] accrue_periods_cents [OF pp r]
    by (auto simp: credits_due_def credits_in_cents_def Let_def cents_le_0)
qed

end
