(* ===== verification/EventLeave.thy ===== *)
theory EventLeave
  imports LeaveEntitlement BankFiles
begin

text \<open>
  Event-based leave (\<open>apps/api/src/leave/event-leave.ts\<close>): the allowance of an event, the rules a
  request must pass in the order they are reported, and the checks of a type's own settings. A
  problem is a value of a datatype where the code builds an English sentence from the same data.
\<close>

section \<open>Policies\<close>

datatype grant_mode = ACCRUED | ON_EVENT
datatype gender_restriction = ANY | MALE | FEMALE

record event_policy =
  ep_name :: string
  ep_gender :: gender_restriction
  ep_days :: number
  ep_reduced_days :: "number option"
  ep_reduced_after :: "int option"
  ep_calendar_days :: bool
  ep_max_events :: "int option"
  ep_label :: "string option"
  ep_window_before :: int
  ep_window_after :: int
  ep_min_service :: int

definition event_allowance :: "event_policy \<Rightarrow> nat \<Rightarrow> number" where
  "event_allowance p earlier =
     (case (ep_reduced_days p, ep_reduced_after p) of
        (Some d, Some n) \<Rightarrow> if n \<le> int earlier then d else ep_days p
      | _ \<Rightarrow> ep_days p)"

definition service_days_before :: "date option \<Rightarrow> date \<Rightarrow> int" where
  "service_days_before date_of_joining event =
     (case date_of_joining of
        None \<Rightarrow> 0
      | Some j \<Rightarrow>
          let year_before = event - 365 * DAY_MS; from_day = (if year_before < j then j else year_before)
          in max 0 (half_up_int (js_fl (of_int (event - from_day) / of_int DAY_MS))))"

section \<open>Requests\<close>

record event_request =
  er_policy :: event_policy
  er_gender :: "string option"
  er_joined :: "date option"
  er_event :: "date option"
  er_start :: date
  er_days :: number
  er_half_day :: bool
  er_active_events :: "int list"
  er_already :: number

datatype event_problem =
    NeedsEventDate
  | NoHalfDay
  | GenderMissing
  | OtherGender
  | StartsTooEarly date
  | StartsTooLate date
  | EventsUsedUp int
  | ServiceTooShort int int
  | OverAllowance number number

definition normal_gender :: "string option \<Rightarrow> gender_restriction option" where
  "normal_gender g =
     (case g of
        None \<Rightarrow> None
      | Some t \<Rightarrow> if to_upper (trim t) = ''MALE'' then Some MALE
          else if to_upper (trim t) = ''FEMALE'' then Some FEMALE else None)"

definition gender_problem :: "event_request \<Rightarrow> event_problem option" where
  "gender_problem i =
     (if ep_gender (er_policy i) = ANY then None
      else case normal_gender (er_gender i) of
        None \<Rightarrow> Some GenderMissing
      | Some g \<Rightarrow> if g \<noteq> ep_gender (er_policy i) then Some OtherGender else None)"

definition window_problem :: "event_request \<Rightarrow> date \<Rightarrow> event_problem option" where
  "window_problem i event =
     (let p = er_policy i;
          earliest = event - ep_window_before p * DAY_MS; latest = event + ep_window_after p * DAY_MS
      in if er_start i < earliest then Some (StartsTooEarly earliest)
         else if latest < er_start i then Some (StartsTooLate (if ep_window_after p = 0 then event else latest))
         else None)"

definition earlier_events :: "event_request \<Rightarrow> date \<Rightarrow> nat" where
  "earlier_events i event = card (set (filter (\<lambda>d. d \<noteq> iso_day event) (er_active_events i)))"

definition limit_problem :: "event_request \<Rightarrow> date \<Rightarrow> event_problem option" where
  "limit_problem i event =
     (case ep_max_events (er_policy i) of
        None \<Rightarrow> None
      | Some m \<Rightarrow>
          if iso_day event \<notin> set (er_active_events i) \<and> m \<le> int (earlier_events i event)
          then Some (EventsUsedUp m) else None)"

definition service_problem :: "event_request \<Rightarrow> date \<Rightarrow> event_problem option" where
  "service_problem i event =
     (let m = ep_min_service (er_policy i); served = service_days_before (er_joined i) event
      in if 0 < m \<and> served < m then Some (ServiceTooShort m served) else None)"

definition allowance_problem :: "event_request \<Rightarrow> date \<Rightarrow> event_problem option" where
  "allowance_problem i event =
     (let allowance = event_allowance (er_policy i) (earlier_events i event);
          left = max 0 (js_fl (allowance - er_already i))
      in if left < er_days i then Some (OverAllowance left allowance) else None)"

fun first_problem :: "'a option list \<Rightarrow> 'a option" where
  "first_problem [] = None"
| "first_problem (None # ps) = first_problem ps"
| "first_problem (Some p # ps) = Some p"

definition event_request_problem :: "event_request \<Rightarrow> event_problem option" where
  "event_request_problem i =
     (case er_event i of
        None \<Rightarrow> Some NeedsEventDate
      | Some event \<Rightarrow>
          if er_half_day i \<and> ep_calendar_days (er_policy i) then Some NoHalfDay
          else first_problem [gender_problem i, window_problem i event, limit_problem i event,
            service_problem i event, allowance_problem i event])"

lemma first_problem_None: "first_problem ps = None \<longleftrightarrow> (\<forall>p \<in> set ps. p = None)"
  by (induction ps rule: first_problem.induct) auto

section \<open>A type's own settings\<close>

text \<open>
  The days per event are \<open>None\<close> when the field is absent (\<open>Number(undefined)\<close> is NaN, and every
  comparison with it is false); a \<open>null\<close> reads as 0.
\<close>

record event_config =
  ec_grant_mode :: grant_mode
  ec_days :: "number option"
  ec_reduced_days :: "number option"
  ec_reduced_after :: "int option"
  ec_label :: "string option"
  ec_window_before :: int
  ec_window_after :: int
  ec_comp_off :: bool
  ec_restricted_holiday :: bool

datatype config_problem =
    DaysNotPositive
  | ReducedIncomplete
  | ReducedTooLarge
  | LabelMissing
  | WindowTooWide
  | OtherKind

definition event_type_config_problems :: "event_config \<Rightarrow> config_problem list" where
  "event_type_config_problems t =
     (if ec_grant_mode t \<noteq> ON_EVENT then []
      else (case ec_days t of None \<Rightarrow> [DaysNotPositive] | Some d \<Rightarrow> if 0 < d then [] else [DaysNotPositive])
        @ (if (ec_reduced_days t \<noteq> None) \<noteq> (ec_reduced_after t \<noteq> None) then [ReducedIncomplete] else [])
        @ (case (ec_reduced_days t, ec_days t) of
             (Some r, Some d) \<Rightarrow> if d < r then [ReducedTooLarge] else []
           | _ \<Rightarrow> [])
        @ (if (case ec_label t of None \<Rightarrow> True | Some l \<Rightarrow> trim l = []) then [LabelMissing] else [])
        @ (if 365 < ec_window_before t \<or> 365 < ec_window_after t then [WindowTooWide] else [])
        @ (if ec_comp_off t \<or> ec_restricted_holiday t then [OtherKind] else []))"

text \<open>Inclusive calendar days between two dates.\<close>

definition calendar_days :: "date \<Rightarrow> date \<Rightarrow> int" where
  "calendar_days start e = half_up_int (js_fl (of_int (e - start) / of_int DAY_MS)) + 1"

section \<open>Presets\<close>

datatype preset_key = MATERNITY | ADOPTION | COMMISSIONING_MOTHER | MISCARRIAGE | PATERNITY | MARRIAGE

record event_preset = event_policy +
  pr_code :: string
  pr_requires_document :: bool
  pr_statutory :: bool

definition event_leave_preset :: "preset_key \<Rightarrow> event_preset" where
  "event_leave_preset k =
     (case k of
        MATERNITY \<Rightarrow> \<lparr>ep_name = ''Maternity Leave'', ep_gender = FEMALE, ep_days = 182,
          ep_reduced_days = Some 84, ep_reduced_after = Some 2, ep_calendar_days = True, ep_max_events = None,
          ep_label = Some ''Expected delivery date'', ep_window_before = 56, ep_window_after = 30, ep_min_service = 80,
          pr_code = ''ML'', pr_requires_document = True, pr_statutory = True\<rparr>
      | ADOPTION \<Rightarrow> \<lparr>ep_name = ''Adoption Leave'', ep_gender = FEMALE, ep_days = 84,
          ep_reduced_days = None, ep_reduced_after = None, ep_calendar_days = True, ep_max_events = None,
          ep_label = Some ''Date the child was handed over'', ep_window_before = 0, ep_window_after = 30, ep_min_service = 80,
          pr_code = ''AL'', pr_requires_document = True, pr_statutory = True\<rparr>
      | COMMISSIONING_MOTHER \<Rightarrow> \<lparr>ep_name = ''Commissioning Mother Leave'', ep_gender = FEMALE, ep_days = 84,
          ep_reduced_days = None, ep_reduced_after = None, ep_calendar_days = True, ep_max_events = None,
          ep_label = Some ''Date the child was handed over'', ep_window_before = 0, ep_window_after = 30, ep_min_service = 80,
          pr_code = ''CML'', pr_requires_document = True, pr_statutory = True\<rparr>
      | MISCARRIAGE \<Rightarrow> \<lparr>ep_name = ''Miscarriage Leave'', ep_gender = FEMALE, ep_days = 42,
          ep_reduced_days = None, ep_reduced_after = None, ep_calendar_days = True, ep_max_events = None,
          ep_label = Some ''Date of miscarriage'', ep_window_before = 0, ep_window_after = 7, ep_min_service = 0,
          pr_code = ''MCL'', pr_requires_document = True, pr_statutory = True\<rparr>
      | PATERNITY \<Rightarrow> \<lparr>ep_name = ''Paternity Leave'', ep_gender = MALE, ep_days = 5,
          ep_reduced_days = None, ep_reduced_after = None, ep_calendar_days = False, ep_max_events = Some 2,
          ep_label = Some (''Child'' @ [CHR 0x27] @ ''s date of birth''), ep_window_before = 0,
          ep_window_after = 90, ep_min_service = 0,
          pr_code = ''PL'', pr_requires_document = False, pr_statutory = False\<rparr>
      | MARRIAGE \<Rightarrow> \<lparr>ep_name = ''Marriage Leave'', ep_gender = ANY, ep_days = 7,
          ep_reduced_days = None, ep_reduced_after = None, ep_calendar_days = False, ep_max_events = Some 1,
          ep_label = Some ''Marriage date'', ep_window_before = 15, ep_window_after = 30, ep_min_service = 0,
          pr_code = ''MRL'', pr_requires_document = False, pr_statutory = False\<rparr>)"

end
