(* ===== verification/LeaveState.thy ===== *)
theory LeaveState
  imports EventLeave PayrollState
begin

text \<open>
  The tables of one tenant that the leave module reads and writes (\<open>apps/api/prisma/schema.prisma\<close>
  as \<open>apps/api/src/leave\<close> uses them), its settings, the jobs it queues and the notifications it
  sends. Employees are the columns leave reads; the documents module is represented by the set of
  requests that have a live attachment.
\<close>

section \<open>Leave types, balances and the ledger\<close>


record leave_type_row =
  lt_id :: id
  lt_name :: string
  lt_code :: string
  lt_annual_quota :: decimal
  lt_carry_forward_cap :: decimal
  lt_min_notice_days :: int
  lt_active :: bool
  lt_frequency :: accrual_frequency
  lt_gender :: gender_restriction
  lt_comp_off :: bool
  lt_encashable :: bool
  lt_restricted_holiday :: bool
  lt_grant_mode :: grant_mode
  lt_days_per_event :: "decimal option"
  lt_reduced_days :: "decimal option"
  lt_reduced_after :: "int option"
  lt_calendar_days :: bool
  lt_max_events :: "int option"
  lt_event_label :: "string option"
  lt_window_before :: int
  lt_window_after :: int
  lt_min_service_days :: int
  lt_requires_document :: bool
  lt_color :: string
  lt_paid :: bool
  lt_requires_approval :: bool
  lt_statutory :: bool

record leave_balance_row =
  lb_employee :: id
  lb_type :: id
  lb_year :: int
  lb_accrued :: decimal
  lb_used :: decimal

datatype ledger_source =
    ACCRUAL
  | ACCRUAL_REVERSAL
  | CARRY_FORWARD
  | REQUEST_APPROVED
  | REQUEST_CANCELLED
  | HR_ADJUSTMENT
  | COMP_OFF_CREDIT
  | OPENING_BALANCE
  | EVENT_GRANT

record leave_ledger_row =
  ll_employee :: id
  ll_type :: id
  ll_occurred_at :: date
  ll_delta :: decimal
  ll_balance_after :: decimal
  ll_source :: ledger_source
  ll_actor :: "id option"

section \<open>Requests, approvals and attendance\<close>

datatype leave_status = PENDING_L1 | PENDING_L2 | LEAVE_APPROVED | LEAVE_REJECTED | LEAVE_CANCELLED

record leave_request_row =
  lq_id :: id
  lq_employee :: id
  lq_type :: id
  lq_start :: date
  lq_end :: date
  lq_days :: decimal
  lq_half_day :: bool
  lq_lop :: bool
  lq_event_date :: "date option"
  lq_status :: leave_status
  lq_l1_approver :: "id option"
  lq_l1_decided :: "date option"
  lq_l2_approver :: "id option"
  lq_l2_decided :: "date option"

datatype leave_decision = DECISION_APPROVED | DECISION_REJECTED | DECISION_ESCALATED

record leave_approval_row =
  la_request :: id
  la_level :: nat
  la_approver :: "id option"
  la_decision :: leave_decision

datatype attendance_status =
    AT_PRESENT | AT_LATE | AT_ON_LEAVE | AT_WEEKLY_OFF | AT_HOLIDAY | AT_ABSENT | AT_PENDING_REGULARIZATION

datatype attendance_source = WEB | BIOMETRIC | GPS | IMPORT | MANUAL

record attendance_row =
  at_employee :: id
  at_date :: date
  at_check_in :: "date option"
  at_check_out :: "date option"
  at_status :: attendance_status
  at_source :: attendance_source

text \<open>The row a service creates with a status alone: the columns' defaults elsewhere.\<close>

definition plain_day :: "id \<Rightarrow> date \<Rightarrow> attendance_status \<Rightarrow> attendance_row" where
  "plain_day e d st = \<lparr>at_employee = e, at_date = d, at_check_in = None, at_check_out = None, at_status = st, at_source = WEB\<rparr>"

lemma plain_day_simps [simp]:
  "at_employee (plain_day e d st) = e" "at_date (plain_day e d st) = d" "at_check_in (plain_day e d st) = None"
  "at_check_out (plain_day e d st) = None" "at_status (plain_day e d st) = st" "at_source (plain_day e d st) = WEB"
  by (simp_all add: plain_day_def)

section \<open>Employees, holidays, settings\<close>

record leave_employee =
  le_id :: id
  le_gender :: "string option"
  le_joined :: "date option"
  le_manager :: "id option"
  le_separated :: bool

record holiday_row =
  ho_id :: id
  ho_date :: date
  ho_name :: string
  ho_optional :: bool

datatype single_approver = BY_HR | BY_MANAGER

record leave_settings =
  ls_approval_levels :: int
  ls_single_approver :: single_approver
  ls_escalation_days :: int
  ls_allow_lop :: bool
  ls_fy_start_month :: int
  ls_weekly_offs :: "int list"
  ls_go_live :: "date option"

text \<open>A queued escalation: request, level, delay in days. A second job of one identity is dropped.\<close>

type_synonym escalation_job = "id \<times> nat \<times> int"

record leave_db =
  lv_settings :: leave_settings
  lv_types :: "leave_type_row table"
  lv_employees :: "leave_employee table"
  lv_holidays :: "holiday_row table"
  lv_balances :: "leave_balance_row table"
  lv_ledger :: "leave_ledger_row table"
  lv_requests :: "leave_request_row table"
  lv_approvals :: "leave_approval_row table"
  lv_attendance :: "attendance_row table"
  lv_attachments :: "id set"
  lv_jobs :: "escalation_job list"
  lv_outbox :: "(string \<times> string) list"

section \<open>Messages and checks\<close>

datatype leave_msg =
    RowMissing
  | NumericOverflow
  | NotLinkedToEmployee
  | EndBeforeStart
  | HalfDayNeedsOneDay
  | NoticeTooShort
  | GenderRestricted
  | NotOptionalHoliday int
  | EventRefused event_problem
  | LopDisabled
  | NotApplicant
  | NotReportingManager
  | NotFinalApprover
  | NotAuthorizedToReject
  | NotPendingApproval leave_status
  | DocumentRequired
  | RequestClosed leave_status
  | NotAuthorizedToView
  | OnlyCurrentLeaveYear
  | TypeConfig "config_problem list"
  | UniqueViolation

type_synonym 'a leave_answer = "(leave_msg exn, 'a) result"

definition is_admin :: "auth_user \<Rightarrow> bool" where
  "is_admin u \<longleftrightarrow> user_role u = COMPANY_ADMIN \<or> user_role u = HR_MANAGER"

definition row_or_throw :: "'a option \<Rightarrow> 'a leave_answer" where
  "row_or_throw r = (case r of None \<Rightarrow> Inl (Crash RowMissing) | Some x \<Rightarrow> Inr x)"

lemma row_or_throw_Inr [simp]: "row_or_throw r = Inr x \<longleftrightarrow> r = Some x"
  by (simp add: row_or_throw_def split: option.splits)

section \<open>Days columns\<close>

text \<open>
  Day columns are \<open>numeric(6, 2)\<close>. Prisma sends a JavaScript number as its decimal text, so an
  increment adds that decimal and rounds to hundredths; a number read from a column is the nearest
  double. A request of ten thousand days or more does not fit the column and fails; the balances'
  sums are taken not to reach that size.
\<close>

definition column_add :: "decimal \<Rightarrow> number \<Rightarrow> decimal" where
  "column_add v x = half_up_places 2 (v + of_number x)"

definition num :: "decimal \<Rightarrow> number" where
  "num v = js_fl v"

definition fits_days_column :: "number \<Rightarrow> bool" where
  "fits_days_column x \<longleftrightarrow> \<bar>days_col x\<bar> < 10 ^ 4"

definition hundredths :: "decimal \<Rightarrow> bool" where
  "hundredths d \<longleftrightarrow> (\<exists>k. d = of_int k / 100 \<and> \<bar>k\<bar> \<le> 10 ^ 9)"

lemma hundredths_places: "hundredths d \<Longrightarrow> half_up_places 2 d = d"
  unfolding hundredths_def using half_up_places_near [of d] by force

lemma num_cents: "num (of_int k / 100) = cents k"
  by (simp add: num_def cents_def)

lemma days_col_num: "hundredths d \<Longrightarrow> days_col (num d) = d"
proof -
  assume "hundredths d"
  then obtain k where "d = of_int k / 100" "\<bar>k\<bar> \<le> 10 ^ 9" by (auto simp: hundredths_def)
  then show ?thesis by (simp only: num_cents days_col_cents)
qed

definition on_grid :: "decimal \<Rightarrow> bool" where
  "on_grid d \<longleftrightarrow> (\<exists>k::int. d = of_int k / 100)"

lemma on_grid_simps [simp]:
  "on_grid 0" "on_grid a \<Longrightarrow> on_grid b \<Longrightarrow> on_grid (a + b)" "on_grid a \<Longrightarrow> on_grid b \<Longrightarrow> on_grid (a - b)"
  "on_grid a \<Longrightarrow> on_grid (- a)" "hundredths a \<Longrightarrow> on_grid a"
proof -
  show "on_grid 0" unfolding on_grid_def by (rule exI [of _ 0]) simp
  assume a: "on_grid a"
  then show "on_grid (- a)" unfolding on_grid_def by (auto intro: exI [of _ "- k" for k])
  show "on_grid b \<Longrightarrow> on_grid (a + b)"
    using a unfolding on_grid_def by (auto simp: add_divide_distrib [symmetric] intro: exI [of _ "j + k" for j k])
  show "on_grid b \<Longrightarrow> on_grid (a - b)"
    using a unfolding on_grid_def by (auto simp: diff_divide_distrib [symmetric] intro: exI [of _ "j - k" for j k])
next
  show "hundredths a \<Longrightarrow> on_grid a" by (auto simp: hundredths_def on_grid_def)
qed

text \<open>Adding a number of whole hundredths to a column adds exactly that many.\<close>

lemma column_add_exact:
  assumes "on_grid v" and "hundredths d"
  shows "column_add v (num d) = v + d"
proof -
  from assms obtain j k where v: "v = of_int j / 100" and d: "d = of_int k / 100" "\<bar>k\<bar> \<le> 10 ^ 9"
    by (auto simp: on_grid_def hundredths_def)
  have "\<bar>cents k\<bar> \<le> 10 ^ 8" using about_bound [OF about_cents [OF d(2)] d(2)] by simp
  from of_number_near [OF this] cents_near [OF d(2)]
  have "\<bar>v + of_number (cents k) - of_int (j + k) / 100\<bar> \<le> 1 / 1000"
    unfolding v abs_le_iff by (simp add: add_divide_distrib)
  from half_up_places_near [OF this] show ?thesis
    by (simp add: column_add_def num_cents d v add_divide_distrib)
qed

lemma num_minus: "num (- d) = - num d"
  by (simp add: num_def js.fl_neg)

end
