(* ===== verification/Hierarchy.thy ===== *)
theory Hierarchy
  imports PayrollState
begin

text \<open>
  \<open>apps/api/src/common/reporting-hierarchy.ts\<close>: everybody below a manager, any depth, by a
  breadth-first search that survives cycles. Leave and attendance restrict a line manager's view
  with it.
\<close>

section \<open>The search\<close>

record report_edge =
  re_id :: id
  re_manager :: "id option"

definition add_report :: "(id \<rightharpoonup> id list) \<Rightarrow> report_edge \<Rightarrow> (id \<rightharpoonup> id list)" where
  "add_report m e =
     (case re_manager e of
        None \<Rightarrow> m
      | Some g \<Rightarrow> if g = [] then m
          else m(g \<mapsto> (case m g of None \<Rightarrow> [] | Some l \<Rightarrow> l) @ [re_id e]))"

definition direct_reports_of :: "report_edge list \<Rightarrow> (id \<rightharpoonup> id list)" where
  "direct_reports_of es = foldl add_report Map.empty es"

definition reports_or_none :: "report_edge list \<Rightarrow> id \<Rightarrow> id list" where
  "reports_or_none es g = (case direct_reports_of es g of None \<Rightarrow> [] | Some l \<Rightarrow> l)"

lemma direct_reports_filter:
  "g \<noteq> [] \<Longrightarrow> reports_or_none es g = map re_id (filter (\<lambda>e. re_manager e = Some g) es)"
  by (induction es rule: rev_induct)
    (auto simp: reports_or_none_def direct_reports_of_def add_report_def split: option.splits)

lemma direct_reports_empty: "reports_or_none es [] = []"
  by (induction es rule: rev_induct)
    (auto simp: reports_or_none_def direct_reports_of_def add_report_def split: option.splits)

definition known_managers :: "report_edge list \<Rightarrow> id set" where
  "known_managers es = (\<lambda>e. case re_manager e of None \<Rightarrow> [] | Some g \<Rightarrow> g) ` set es"

lemma reports_of_unknown: "g \<notin> known_managers es \<Longrightarrow> reports_or_none es g = []"
  by (cases "g = []") (force simp: direct_reports_empty direct_reports_filter known_managers_def filter_empty_conv)+

function walk_reports :: "report_edge list \<Rightarrow> id list \<Rightarrow> id set \<Rightarrow> id set" where
  "walk_reports es [] result = result"
| "walk_reports es (i # queue) result =
     (if i \<in> result then walk_reports es queue result
      else walk_reports es (queue @ reports_or_none es i) (insert i result))"
  by pat_completeness auto
termination
proof (relation "inv_image (less_than <*lex*> less_than)
    (\<lambda>(es, queue, result). (card (known_managers es - result), length queue))")
  fix es i queue and result :: "id set"
  assume "i \<notin> result"
  show "((es, queue @ reports_or_none es i, insert i result), es, i # queue, result)
    \<in> inv_image (less_than <*lex*> less_than) (\<lambda>(es, queue, result). (card (known_managers es - result), length queue))"
  proof (cases "i \<in> known_managers es")
    case True
    have "finite (known_managers es)" by (simp add: known_managers_def)
    then have "card (known_managers es - insert i result) < card (known_managers es - result)"
      using True \<open>i \<notin> result\<close> by (intro psubset_card_mono) auto
    then show ?thesis by simp
  next
    case False
    then have "known_managers es - insert i result = known_managers es - result" by blast
    with False show ?thesis by (simp add: reports_of_unknown)
  qed
qed auto

definition recursive_report_ids :: "report_edge list \<Rightarrow> id \<Rightarrow> id set" where
  "recursive_report_ids es manager = walk_reports es (reports_or_none es manager) {}"

section \<open>The search finds the subtree\<close>

text \<open>Who reports to whom, and the people below somebody along any number of such steps.\<close>

definition reports_to :: "report_edge list \<Rightarrow> id \<Rightarrow> id \<Rightarrow> bool" where
  "reports_to es g i \<longleftrightarrow> i \<in> set (reports_or_none es g)"

lemma reports_to_iff: "g \<noteq> [] \<Longrightarrow> reports_to es g i \<longleftrightarrow> (\<exists>e \<in> set es. re_id e = i \<and> re_manager e = Some g)"
  by (auto simp: reports_to_def direct_reports_filter)

text \<open>
  Everybody the rest of the walk can reach is in the result, in the queue or below somebody in it;
  \<open>first\<close> are people the walk starts with as visited, whose reports it does not look at.
\<close>

lemma walk_from_sound:
  assumes "\<forall>i \<in> set queue \<union> (result - first). (reports_to es)\<^sup>+\<^sup>+ g i"
  shows "\<forall>i \<in> walk_reports es queue result - first. (reports_to es)\<^sup>+\<^sup>+ g i"
  using assms
proof (induction es queue result rule: walk_reports.induct)
  case (2 es i queue result)
  show ?case
  proof (cases "i \<in> result")
    case True
    with 2(1) [OF True] 2(3) show ?thesis by simp
  next
    case False
    have i: "(reports_to es)\<^sup>+\<^sup>+ g i" using 2(3) by simp
    have "(reports_to es)\<^sup>+\<^sup>+ g j" if "j \<in> set (reports_or_none es i)" for j
      using tranclp.trancl_into_trancl [OF i] that by (simp add: reports_to_def)
    with 2(3) i have "\<forall>j \<in> set (queue @ reports_or_none es i) \<union> (insert i result - first). (reports_to es)\<^sup>+\<^sup>+ g j" by auto
    from 2(2) [OF False this] False show ?thesis by auto
  qed
qed simp

lemma walk_from_closed:
  assumes "\<forall>i \<in> result - first. \<forall>j. reports_to es i j \<longrightarrow> j \<in> set queue \<union> result"
  shows "set queue \<union> result \<subseteq> walk_reports es queue result
    \<and> (\<forall>i \<in> walk_reports es queue result - first. \<forall>j. reports_to es i j \<longrightarrow> j \<in> walk_reports es queue result)"
  using assms
proof (induction es queue result rule: walk_reports.induct)
  case (2 es i queue result)
  show ?case
  proof (cases "i \<in> result")
    case True
    have "\<forall>i \<in> result - first. \<forall>j. reports_to es i j \<longrightarrow> j \<in> set queue \<union> result" using True 2(3) by auto
    from 2(1) [OF True this] True show ?thesis by auto
  next
    case False
    have "\<forall>k \<in> insert i result - first. \<forall>j. reports_to es k j \<longrightarrow> j \<in> set (queue @ reports_or_none es i) \<union> insert i result"
      using 2(3) by (auto simp: reports_to_def)
    from 2(2) [OF False this] False show ?thesis by auto
  qed
qed simp

lemma recursive_report_ids_eq: "recursive_report_ids es g = {i. (reports_to es)\<^sup>+\<^sup>+ g i}"
proof (intro equalityI subsetI)
  fix i assume "i \<in> recursive_report_ids es g"
  moreover have "\<forall>i \<in> set (reports_or_none es g) \<union> ({} - {}). (reports_to es)\<^sup>+\<^sup>+ g i"
    by (auto simp: reports_to_def)
  from walk_from_sound [OF this] have "\<forall>i \<in> recursive_report_ids es g. (reports_to es)\<^sup>+\<^sup>+ g i"
    by (simp add: recursive_report_ids_def)
  ultimately show "i \<in> {i. (reports_to es)\<^sup>+\<^sup>+ g i}" by simp
next
  fix i assume "i \<in> {i. (reports_to es)\<^sup>+\<^sup>+ g i}"
  then have "(reports_to es)\<^sup>+\<^sup>+ g i" by simp
  moreover have closed: "set (reports_or_none es g) \<subseteq> recursive_report_ids es g"
    "\<forall>i \<in> recursive_report_ids es g. \<forall>j. reports_to es i j \<longrightarrow> j \<in> recursive_report_ids es g"
    using walk_from_closed [of "{}" "{}" es "reports_or_none es g"] unfolding recursive_report_ids_def by auto
  ultimately show "i \<in> recursive_report_ids es g"
    by (induction rule: tranclp_induct) (auto simp: reports_to_def)
qed

text \<open>
  The people a line manager sees are those below them: the search ends on every table, cyclic
  or not, and finds exactly the employees reachable from the manager by one or more reporting
  steps (the manager included only when the table makes them report to themselves).
\<close>

theorem recursive_reports_are_subtree:
  "recursive_report_ids es manager = {i. (reports_to es)\<^sup>+\<^sup>+ manager i}"
  by (rule recursive_report_ids_eq)

end
