(* ===== verification/LeaveRequests.thy ===== *)
theory LeaveRequests
  imports LeaveState Hierarchy
begin

text \<open>
  \<open>LeaveService\<close> (\<open>apps/api/src/leave/leave.service.ts\<close>) and the escalation job
  (\<open>leave-escalation.processor.ts\<close>): applying for leave, deciding, cancelling, and the balance,
  ledger and attendance movements a decision makes. Each operation answers with an exception or the
  next state; a database row's id and the current time are arguments.
\<close>

section \<open>Days of a range\<close>

definition holiday_dates_between :: "date \<Rightarrow> date \<Rightarrow> leave_db \<Rightarrow> int set" where
  "holiday_dates_between start e s =
     set (map (\<lambda>h. iso_day (ho_date h))
       (filter (\<lambda>h. start \<le> ho_date h \<and> ho_date h \<le> e \<and> \<not> ho_optional h) (lv_holidays s)))"

definition optional_dates_between :: "date \<Rightarrow> date \<Rightarrow> leave_db \<Rightarrow> int set" where
  "optional_dates_between start e s =
     set (map (\<lambda>h. iso_day (ho_date h))
       (filter (\<lambda>h. start \<le> ho_date h \<and> ho_date h \<le> e \<and> ho_optional h) (lv_holidays s)))"

text \<open>The leave service has its own copy of the working day loop.\<close>

function count_leave_days :: "date \<Rightarrow> date \<Rightarrow> int set \<Rightarrow> int list \<Rightarrow> int \<Rightarrow> int" where
  "count_leave_days cur e holidays offs n =
     (if cur \<le> e
      then count_leave_days (cur + DAY_MS) e holidays offs
        (if iso_day cur \<notin> holidays \<and> utc_day cur \<notin> set offs then n + 1 else n)
      else n)"
  by pat_completeness auto
termination by (relation "measure (\<lambda>(cur, e, _). nat (e - cur + 1))") (auto simp: DAY_MS_def)

declare count_leave_days.simps [simp del]

function only_optional_holidays :: "date \<Rightarrow> date \<Rightarrow> int set \<Rightarrow> int list \<Rightarrow> int set \<Rightarrow> unit leave_answer" where
  "only_optional_holidays cur e holidays offs optional =
     (if cur \<le> e
      then if iso_day cur \<notin> holidays \<and> utc_day cur \<notin> set offs \<and> iso_day cur \<notin> optional
           then Inl (BadRequest (NotOptionalHoliday (iso_day cur)))
           else only_optional_holidays (cur + DAY_MS) e holidays offs optional
      else Inr ())"
  by pat_completeness auto
termination by (relation "measure (\<lambda>(cur, e, _). nat (e - cur + 1))") (auto simp: DAY_MS_def)

declare only_optional_holidays.simps [simp del]

section \<open>Balances and the ledger\<close>

definition is_balance :: "id \<Rightarrow> id \<Rightarrow> int \<Rightarrow> leave_balance_row \<Rightarrow> bool" where
  "is_balance e t y b \<longleftrightarrow> lb_employee b = e \<and> lb_type b = t \<and> lb_year b = y"

definition find_balance :: "id \<Rightarrow> id \<Rightarrow> int \<Rightarrow> leave_db \<Rightarrow> leave_balance_row option" where
  "find_balance e t y s = find_row (is_balance e t y) (lv_balances s)"

definition available :: "leave_balance_row \<Rightarrow> number" where
  "available b = js_fl (num (lb_accrued b) - num (lb_used b))"

text \<open>
  Upsert the balance of an employee, a type and a year, then append the ledger row with the balance
  after it: what \<open>adjustBalanceManual\<close>, \<open>grantEventDays\<close>, \<open>adjustUsedDays\<close> and the
  comp-off credits have in common.
\<close>

definition post_movement ::
  "id \<Rightarrow> id \<Rightarrow> int \<Rightarrow> (leave_balance_row \<Rightarrow> leave_balance_row) \<Rightarrow> leave_balance_row \<Rightarrow> number \<Rightarrow> ledger_source
    \<Rightarrow> id option \<Rightarrow> date \<Rightarrow> leave_db \<Rightarrow> leave_db" where
  "post_movement e t y upd new delta source actor now s =
     (let s1 = s\<lparr>lv_balances := upsert_row (is_balance e t y) upd new (lv_balances s)\<rparr>;
          after = (case find_balance e t y s1 of None \<Rightarrow> 0 | Some b \<Rightarrow> available b)
      in s1\<lparr>lv_ledger := lv_ledger s1 @ [\<lparr>ll_employee = e, ll_type = t, ll_occurred_at = now,
           ll_delta = days_col delta, ll_balance_after = days_col after, ll_source = source, ll_actor = actor\<rparr>]\<rparr>)"

definition new_balance :: "id \<Rightarrow> id \<Rightarrow> int \<Rightarrow> number \<Rightarrow> number \<Rightarrow> leave_balance_row" where
  "new_balance e t y accrued used =
     \<lparr>lb_employee = e, lb_type = t, lb_year = y, lb_accrued = days_col accrued, lb_used = days_col used\<rparr>"

definition add_accrued :: "number \<Rightarrow> leave_balance_row \<Rightarrow> leave_balance_row" where
  "add_accrued d b = b\<lparr>lb_accrued := column_add (lb_accrued b) d\<rparr>"

definition add_used :: "number \<Rightarrow> leave_balance_row \<Rightarrow> leave_balance_row" where
  "add_used d b = b\<lparr>lb_used := column_add (lb_used b) d\<rparr>"

definition grant_event_days :: "id \<Rightarrow> id \<Rightarrow> int \<Rightarrow> number \<Rightarrow> id \<Rightarrow> date \<Rightarrow> leave_db \<Rightarrow> leave_db" where
  "grant_event_days e t y delta actor now s =
     post_movement e t y (add_accrued delta) (new_balance e t y (max delta 0) 0) delta EVENT_GRANT (Some actor) now s"

definition adjust_used_days ::
  "id \<Rightarrow> id \<Rightarrow> int \<Rightarrow> number \<Rightarrow> ledger_source \<Rightarrow> id option \<Rightarrow> date \<Rightarrow> leave_db \<Rightarrow> leave_db" where
  "adjust_used_days e t y delta source actor now s =
     post_movement e t y (add_used delta) (new_balance e t y 0 (max delta 0)) (- delta) source actor now s"

definition adjust_balance_manual :: "id \<Rightarrow> id \<Rightarrow> int \<Rightarrow> number \<Rightarrow> auth_user \<Rightarrow> date \<Rightarrow> leave_db \<Rightarrow> leave_db" where
  "adjust_balance_manual e t y delta user now s =
     post_movement e t y (add_accrued delta) (new_balance e t y (max delta 0) 0) delta HR_ADJUSTMENT
       (Some (sub user)) now s"

definition comp_off_type :: "leave_db \<Rightarrow> leave_type_row option" where
  "comp_off_type s = find_row lt_comp_off (lv_types s)"

definition credit_comp_off :: "id \<Rightarrow> date \<Rightarrow> date \<Rightarrow> leave_db \<Rightarrow> leave_db" where
  "credit_comp_off e d now s =
     (case comp_off_type s of
        None \<Rightarrow> s
      | Some t \<Rightarrow>
          if find_row (\<lambda>l. ll_employee l = e \<and> ll_type l = lt_id t \<and> ll_source l = COMP_OFF_CREDIT
               \<and> d \<le> ll_occurred_at l \<and> ll_occurred_at l < d + DAY_MS) (lv_ledger s) \<noteq> None
          then s
          else let y = resolve_leave_year d (ls_fy_start_month (lv_settings s))
               in post_movement e (lt_id t) y (add_accrued 1) (new_balance e (lt_id t) y 1 0) 1
                    COMP_OFF_CREDIT None now s)"

definition credit_overtime_comp_off :: "id \<Rightarrow> number \<Rightarrow> date \<Rightarrow> date \<Rightarrow> leave_db \<Rightarrow> leave_db" where
  "credit_overtime_comp_off e days month_first now s =
     (case comp_off_type s of
        None \<Rightarrow> s
      | Some t \<Rightarrow>
          let y = resolve_leave_year month_first (ls_fy_start_month (lv_settings s))
          in post_movement e (lt_id t) y (add_accrued days) (new_balance e (lt_id t) y days 0) days
               COMP_OFF_CREDIT None now s)"

section \<open>Attendance\<close>

definition mark_day :: "id \<Rightarrow> date \<Rightarrow> bool \<Rightarrow> leave_db \<Rightarrow> leave_db" where
  "mark_day e d on_leave s =
     (if on_leave
      then s\<lparr>lv_attendance := upsert_row (\<lambda>r. at_employee r = e \<and> at_date r = d) (\<lambda>r. r)
        (plain_day e d AT_ON_LEAVE) (lv_attendance s)\<rparr>
      else s\<lparr>lv_attendance := filter (\<lambda>r. \<not> (at_employee r = e \<and> at_date r = d \<and> at_status r = AT_ON_LEAVE))
        (lv_attendance s)\<rparr>)"

function sync_attendance :: "id \<Rightarrow> date \<Rightarrow> date \<Rightarrow> int set \<Rightarrow> int list \<Rightarrow> bool \<Rightarrow> leave_db \<Rightarrow> leave_db" where
  "sync_attendance emp cur e holidays offs on_leave s =
     (if cur \<le> e
      then sync_attendance emp (cur + DAY_MS) e holidays offs on_leave
        (if iso_day cur \<notin> holidays \<and> utc_day cur \<notin> set offs then mark_day emp cur on_leave s else s)
      else s)"
  by pat_completeness auto
termination by (relation "measure (\<lambda>(_, cur, e, _). nat (e - cur + 1))") (auto simp: DAY_MS_def)

declare sync_attendance.simps [simp del]

section \<open>Queue, notifications, small writes\<close>

definition leave_notify :: "string \<Rightarrow> string \<Rightarrow> leave_db \<Rightarrow> leave_db" where
  "leave_notify template key s = s\<lparr>lv_outbox := lv_outbox s @ [(template, key)]\<rparr>"

definition leave_key :: "id \<Rightarrow> string \<Rightarrow> string" where
  "leave_key r what = ''leave:'' @ r @ what"

definition schedule_escalation :: "id \<Rightarrow> nat \<Rightarrow> leave_db \<Rightarrow> leave_db" where
  "schedule_escalation r level s =
     (if \<exists>j \<in> set (lv_jobs s). fst j = r \<and> fst (snd j) = level then s
      else s\<lparr>lv_jobs := lv_jobs s @ [(r, level, ls_escalation_days (lv_settings s))]\<rparr>)"

definition record_approval :: "id \<Rightarrow> nat \<Rightarrow> id option \<Rightarrow> leave_decision \<Rightarrow> leave_db \<Rightarrow> leave_db" where
  "record_approval r level approver decision s = s\<lparr>lv_approvals := lv_approvals s @
     [\<lparr>la_request = r, la_level = level, la_approver = approver, la_decision = decision\<rparr>]\<rparr>"

definition find_request :: "leave_db \<Rightarrow> id \<Rightarrow> leave_request_row option" where
  "find_request s r = find_row (\<lambda>q. lq_id q = r) (lv_requests s)"

definition set_request :: "id \<Rightarrow> (leave_request_row \<Rightarrow> leave_request_row) \<Rightarrow> leave_db \<Rightarrow> leave_db" where
  "set_request r f s = s\<lparr>lv_requests := update_rows (\<lambda>q. lq_id q = r) f (lv_requests s)\<rparr>"

definition find_type :: "leave_db \<Rightarrow> id \<Rightarrow> leave_type_row option" where
  "find_type s t = find_row (\<lambda>r. lt_id r = t) (lv_types s)"

definition find_employee :: "leave_db \<Rightarrow> id \<Rightarrow> leave_employee option" where
  "find_employee s e = find_row (\<lambda>r. le_id r = e) (lv_employees s)"

section \<open>Applying\<close>

record apply_dto =
  ad_type :: id
  ad_start :: date
  ad_end :: date
  ad_half_day :: bool
  ad_event_date :: "date option"

definition to_event_policy :: "leave_type_row \<Rightarrow> event_policy option" where
  "to_event_policy t =
     (if lt_grant_mode t \<noteq> ON_EVENT then None
      else Some \<lparr>ep_name = lt_name t, ep_gender = lt_gender t,
        ep_days = (case lt_days_per_event t of None \<Rightarrow> 0 | Some d \<Rightarrow> num d),
        ep_reduced_days = map_option num (lt_reduced_days t), ep_reduced_after = lt_reduced_after t,
        ep_calendar_days = lt_calendar_days t, ep_max_events = lt_max_events t, ep_label = lt_event_label t,
        ep_window_before = lt_window_before t, ep_window_after = lt_window_after t,
        ep_min_service = lt_min_service_days t\<rparr>)"

definition notice_too_short :: "leave_type_row \<Rightarrow> date \<Rightarrow> date \<Rightarrow> bool" where
  "notice_too_short t start now \<longleftrightarrow> 0 < lt_min_notice_days t
     \<and> js_fl (of_int (start - now) / of_int DAY_MS) < of_int (lt_min_notice_days t)"

definition gender_mismatch :: "leave_type_row \<Rightarrow> leave_employee \<Rightarrow> bool" where
  "gender_mismatch t emp \<longleftrightarrow> lt_gender t \<noteq> ANY
     \<and> (case normal_gender (le_gender emp) of None \<Rightarrow> False | Some g \<Rightarrow> g \<noteq> lt_gender t)"

text \<open>Pending or approved: the requests that count against an event.\<close>

definition live_status :: "leave_status \<Rightarrow> bool" where
  "live_status st \<longleftrightarrow> st = PENDING_L1 \<or> st = PENDING_L2 \<or> st = LEAVE_APPROVED"

definition event_requests :: "id \<Rightarrow> id \<Rightarrow> leave_db \<Rightarrow> leave_request_row list" where
  "event_requests e t s = filter (\<lambda>q. lq_employee q = e \<and> lq_type q = t \<and> live_status (lq_status q)) (lv_requests s)"

definition event_day :: "leave_request_row \<Rightarrow> int option" where
  "event_day q = map_option iso_day (lq_event_date q)"

definition add_days :: "number \<Rightarrow> leave_request_row \<Rightarrow> number" where
  "add_days d q = js_fl (d + num (lq_days q))"

definition event_request_of ::
  "event_policy \<Rightarrow> leave_employee \<Rightarrow> apply_dto \<Rightarrow> number \<Rightarrow> leave_request_row list \<Rightarrow> event_request" where
  "event_request_of p emp dto days active =
     \<lparr>er_policy = p, er_gender = le_gender emp, er_joined = le_joined emp, er_event = ad_event_date dto,
      er_start = ad_start dto, er_days = days, er_half_day = ad_half_day dto,
      er_active_events = List.map_filter event_day active,
      er_already = foldl add_days 0
        (filter (\<lambda>q. event_day q = map_option iso_day (ad_event_date dto)) active)\<rparr>"

definition request_days :: "event_policy option \<Rightarrow> apply_dto \<Rightarrow> int set \<Rightarrow> int list \<Rightarrow> number" where
  "request_days policy dto holidays offs =
     (if (case policy of None \<Rightarrow> False | Some p \<Rightarrow> ep_calendar_days p)
      then of_int (calendar_days (ad_start dto) (ad_end dto))
      else if ad_half_day dto then 1 / 2
      else of_int (count_leave_days (ad_start dto) (ad_end dto) holidays offs 0))"

text \<open>Whether a request is loss of pay; for an event-based type, whether its rules are met.\<close>

definition decide_lop ::
  "event_policy option \<Rightarrow> leave_employee \<Rightarrow> leave_balance_row option \<Rightarrow> apply_dto \<Rightarrow> number \<Rightarrow> leave_db \<Rightarrow> bool leave_answer" where
  "decide_lop policy emp balance dto days s =
     (case policy of
        Some p \<Rightarrow>
          (case event_request_problem (event_request_of p emp dto days (event_requests (le_id emp) (ad_type dto) s)) of
             Some x \<Rightarrow> Inl (BadRequest (EventRefused x))
           | None \<Rightarrow> Inr False)
      | None \<Rightarrow>
          Inr (\<not> ad_half_day dto \<and> (case balance of None \<Rightarrow> 0 | Some b \<Rightarrow> available b) < days))"

definition first_status :: "leave_settings \<Rightarrow> leave_employee \<Rightarrow> leave_status" where
  "first_status ls emp =
     (if (ls_approval_levels ls = 2 \<or> ls_single_approver ls = BY_MANAGER)
         \<and> (case le_manager emp of None \<Rightarrow> False | Some g \<Rightarrow> g \<noteq> [])
      then PENDING_L1 else PENDING_L2)"

definition apply_guards ::
  "apply_dto \<Rightarrow> auth_user \<Rightarrow> date \<Rightarrow> leave_db \<Rightarrow> (leave_employee \<times> leave_type_row \<times> int set) leave_answer" where
  "apply_guards dto user now s =
     (case user_employee user of
        None \<Rightarrow> Inl (BadRequest NotLinkedToEmployee)
      | Some e \<Rightarrow>
          if e = [] then Inl (BadRequest NotLinkedToEmployee)
          else if ad_end dto < ad_start dto then Inl (BadRequest EndBeforeStart)
          else if ad_half_day dto \<and> ad_start dto \<noteq> ad_end dto then Inl (BadRequest HalfDayNeedsOneDay)
          else and_then (row_or_throw (find_employee s e)) (\<lambda>emp.
               and_then (row_or_throw (find_type s (ad_type dto))) (\<lambda>t.
               let holidays = holiday_dates_between (ad_start dto) (ad_end dto) s
               in if notice_too_short t (ad_start dto) now then Inl (BadRequest NoticeTooShort)
                  else if gender_mismatch t emp then Inl (BadRequest GenderRestricted)
                  else and_then (if lt_restricted_holiday t
                       then only_optional_holidays (ad_start dto) (ad_end dto) holidays
                         (ls_weekly_offs (lv_settings s)) (optional_dates_between (ad_start dto) (ad_end dto) s)
                       else Inr ()) (\<lambda>_. Inr (emp, t, holidays)))))"

definition new_request :: "id \<Rightarrow> leave_employee \<Rightarrow> apply_dto \<Rightarrow> event_policy option \<Rightarrow> number \<Rightarrow> bool \<Rightarrow> leave_status \<Rightarrow> leave_request_row" where
  "new_request r emp dto policy days lop st =
     \<lparr>lq_id = r, lq_employee = le_id emp, lq_type = ad_type dto, lq_start = ad_start dto, lq_end = ad_end dto,
      lq_days = days_col days, lq_half_day = ad_half_day dto, lq_lop = lop,
      lq_event_date = (if policy = None then None else ad_event_date dto), lq_status = st,
      lq_l1_approver = None, lq_l1_decided = None, lq_l2_approver = None, lq_l2_decided = None\<rparr>"

definition apply_leave :: "id \<Rightarrow> apply_dto \<Rightarrow> auth_user \<Rightarrow> date \<Rightarrow> leave_db \<Rightarrow> leave_db leave_answer" where
  "apply_leave r dto user now s =
     and_then (apply_guards dto user now s) (\<lambda>(emp, t, holidays).
     let ls = lv_settings s;
         policy = to_event_policy t;
         days = request_days policy dto holidays (ls_weekly_offs ls);
         balance = find_balance (le_id emp) (ad_type dto) (resolve_leave_year (ad_start dto) (ls_fy_start_month ls)) s
     in and_then (decide_lop policy emp balance dto days s) (\<lambda>lop.
        if lop \<and> \<not> ls_allow_lop ls then Inl (BadRequest LopDisabled)
        else if \<not> fits_days_column days then Inl (Crash NumericOverflow)
        else let st = first_status ls emp; level = (if st = PENDING_L1 then 1 else 2)
             in Inr (leave_notify ''LEAVE_PENDING_APPROVAL''
                  (leave_key r (if level = 1 then '':pending:L1'' else '':pending:L2''))
                  (schedule_escalation r level
                    (s\<lparr>lv_requests := lv_requests s @ [new_request r emp dto policy days lop st]\<rparr>)))))"

section \<open>Attaching\<close>

definition attachable :: "leave_status \<Rightarrow> bool" where
  "attachable st \<longleftrightarrow> st \<noteq> LEAVE_CANCELLED \<and> st \<noteq> LEAVE_REJECTED"

definition attach_leave :: "id \<Rightarrow> auth_user \<Rightarrow> leave_db \<Rightarrow> leave_db leave_answer" where
  "attach_leave r user s =
     and_then (row_or_throw (find_request s r)) (\<lambda>q.
     if Some (lq_employee q) \<noteq> user_employee user \<and> \<not> is_admin user then Inl (Forbidden NotApplicant)
     else if \<not> attachable (lq_status q) then Inl (BadRequest (RequestClosed (lq_status q)))
     else Inr (s\<lparr>lv_attachments := insert r (lv_attachments s)\<rparr>))"

section \<open>Deciding\<close>

definition approver_or :: "auth_user \<Rightarrow> id option \<Rightarrow> id option" where
  "approver_or user old = (case user_employee user of None \<Rightarrow> old | Some e \<Rightarrow> Some e)"

definition is_reporting_manager :: "leave_db \<Rightarrow> leave_request_row \<Rightarrow> auth_user \<Rightarrow> bool" where
  "is_reporting_manager s q user \<longleftrightarrow>
     (case find_employee s (lq_employee q) of None \<Rightarrow> False | Some emp \<Rightarrow> le_manager emp = user_employee user)"

text \<open>What a final approval posts: the event's grant, the used days, the attendance of the leave.\<close>

definition post_approval :: "leave_request_row \<Rightarrow> leave_type_row \<Rightarrow> auth_user \<Rightarrow> date \<Rightarrow> leave_db \<Rightarrow> leave_db" where
  "post_approval q t user now s =
     (let ls = lv_settings s;
          y = resolve_leave_year (lq_start q) (ls_fy_start_month ls);
          s1 = (if lt_grant_mode t = ON_EVENT
                then grant_event_days (lq_employee q) (lq_type q) y (num (lq_days q)) (sub user) now s else s);
          s2 = (if lq_lop q then s1
                else adjust_used_days (lq_employee q) (lq_type q) y (num (lq_days q)) REQUEST_APPROVED (Some (sub user)) now s1)
      in sync_attendance (lq_employee q) (lq_start q) (lq_end q)
           (holiday_dates_between (lq_start q) (lq_end q) s2) (ls_weekly_offs ls) True s2)"

definition mark_approved :: "nat \<Rightarrow> auth_user \<Rightarrow> date \<Rightarrow> leave_request_row \<Rightarrow> leave_request_row" where
  "mark_approved level user now q =
     (if level = 1
      then q\<lparr>lq_status := LEAVE_APPROVED, lq_l1_approver := approver_or user (lq_l1_approver q), lq_l1_decided := Some now\<rparr>
      else q\<lparr>lq_status := LEAVE_APPROVED, lq_l2_approver := approver_or user (lq_l2_approver q), lq_l2_decided := Some now\<rparr>)"

definition final_approve ::
  "leave_request_row \<Rightarrow> nat \<Rightarrow> auth_user \<Rightarrow> date \<Rightarrow> leave_db \<Rightarrow> leave_db leave_answer" where
  "final_approve q level user now s =
     and_then (row_or_throw (find_type s (lq_type q))) (\<lambda>t.
     if lt_grant_mode t = ON_EVENT \<and> lt_requires_document t \<and> lq_id q \<notin> lv_attachments s
     then Inl (BadRequest DocumentRequired)
     else Inr (leave_notify ''LEAVE_DECIDED'' (leave_key (lq_id q) '':decided:APPROVED'')
       (record_approval (lq_id q) level (user_employee user) DECISION_APPROVED
         (set_request (lq_id q) (mark_approved level user now) (post_approval q t user now s)))))"

definition approve_first_level :: "leave_request_row \<Rightarrow> auth_user \<Rightarrow> date \<Rightarrow> leave_db \<Rightarrow> leave_db" where
  "approve_first_level q user now s =
     leave_notify ''LEAVE_PENDING_APPROVAL'' (leave_key (lq_id q) '':pending:L2'')
       (leave_notify ''LEAVE_DECIDED'' (leave_key (lq_id q) '':decided:L1_APPROVED'')
         (schedule_escalation (lq_id q) 2
           (record_approval (lq_id q) 1 (user_employee user) DECISION_APPROVED
             (set_request (lq_id q) (\<lambda>x. x\<lparr>lq_status := PENDING_L2,
                lq_l1_approver := approver_or user (lq_l1_approver x), lq_l1_decided := Some now\<rparr>) s))))"

definition approve_leave :: "id \<Rightarrow> auth_user \<Rightarrow> date \<Rightarrow> leave_db \<Rightarrow> leave_db leave_answer" where
  "approve_leave r user now s =
     and_then (row_or_throw (find_request s r)) (\<lambda>q.
     let ls = lv_settings s in
     case lq_status q of
       PENDING_L1 \<Rightarrow>
         if \<not> is_reporting_manager s q user \<and> \<not> is_admin user then Inl (Forbidden NotReportingManager)
         else if ls_approval_levels ls = 1 \<and> ls_single_approver ls = BY_MANAGER then final_approve q 1 user now s
         else Inr (approve_first_level q user now s)
     | PENDING_L2 \<Rightarrow>
         if \<not> is_admin user then Inl (Forbidden NotFinalApprover) else final_approve q 2 user now s
     | st \<Rightarrow> Inl (BadRequest (NotPendingApproval st)))"

definition reject_leave :: "id \<Rightarrow> auth_user \<Rightarrow> leave_db \<Rightarrow> leave_db leave_answer" where
  "reject_leave r user s =
     and_then (row_or_throw (find_request s r)) (\<lambda>q.
     if \<not> is_reporting_manager s q user \<and> \<not> is_admin user then Inl (Forbidden NotAuthorizedToReject)
     else Inr (leave_notify ''LEAVE_DECIDED'' (leave_key r '':decided:REJECTED'')
       (record_approval r (if lq_status q = PENDING_L1 then 1 else 2) (user_employee user) DECISION_REJECTED
         (set_request r (\<lambda>x. x\<lparr>lq_status := LEAVE_REJECTED\<rparr>) s))))"

section \<open>Cancelling\<close>

definition post_cancellation :: "leave_request_row \<Rightarrow> auth_user \<Rightarrow> date \<Rightarrow> leave_db \<Rightarrow> leave_db" where
  "post_cancellation q user now s =
     (let ls = lv_settings s;
          y = resolve_leave_year (lq_start q) (ls_fy_start_month ls);
          s1 = (if lq_lop q then s
                else adjust_used_days (lq_employee q) (lq_type q) y (- num (lq_days q)) REQUEST_CANCELLED (Some (sub user)) now s);
          s2 = (if lq_event_date q = None then s1
                else grant_event_days (lq_employee q) (lq_type q) y (- num (lq_days q)) (sub user) now s1)
      in sync_attendance (lq_employee q) (lq_start q) (lq_end q)
           (holiday_dates_between (lq_start q) (lq_end q) s2) (ls_weekly_offs ls) False s2)"

definition cancel_leave :: "id \<Rightarrow> auth_user \<Rightarrow> date \<Rightarrow> leave_db \<Rightarrow> leave_db leave_answer" where
  "cancel_leave r user now s =
     and_then (row_or_throw (find_request s r)) (\<lambda>q.
     if Some (lq_employee q) \<noteq> user_employee user \<and> \<not> is_admin user then Inl (Forbidden NotApplicant)
     else let s1 = (if lq_status q = LEAVE_APPROVED then post_cancellation q user now s else s);
              s2 = set_request r (\<lambda>x. x\<lparr>lq_status := LEAVE_CANCELLED\<rparr>) s1
          in Inr (if live_status (lq_status q)
                  then leave_notify ''LEAVE_CANCELLED'' (leave_key r '':cancelled'') s2 else s2))"

section \<open>The escalation job\<close>

definition escalate :: "id \<Rightarrow> nat \<Rightarrow> leave_db \<Rightarrow> leave_db" where
  "escalate r level s =
     (case find_request s r of
        None \<Rightarrow> s
      | Some q \<Rightarrow>
          if lq_status q \<noteq> (if level = 1 then PENDING_L1 else PENDING_L2) then s
          else if level = 1
          then leave_notify ''LEAVE_PENDING_APPROVAL'' (leave_key r '':pending:L2'')
            (schedule_escalation r 2 (record_approval r 1 None DECISION_ESCALATED
              (set_request r (\<lambda>x. x\<lparr>lq_status := PENDING_L2\<rparr>) s)))
          else leave_notify ''LEAVE_ESCALATED'' (leave_key r '':escalated:L2'')
            (record_approval r 2 None DECISION_ESCALATED s))"

section \<open>Reading\<close>

definition people_edges :: "leave_db \<Rightarrow> report_edge list" where
  "people_edges s = map (\<lambda>e. \<lparr>re_id = le_id e, re_manager = le_manager e\<rparr>) (lv_employees s)"

definition assert_can_view_employee :: "id \<Rightarrow> auth_user \<Rightarrow> leave_db \<Rightarrow> unit leave_answer" where
  "assert_can_view_employee e user s =
     (if is_admin user \<or> user_role user = AUDITOR then Inr ()
      else if user_employee user = Some e then Inr ()
      else case user_employee user of
        None \<Rightarrow> Inl (Forbidden NotAuthorizedToView)
      | Some g \<Rightarrow> if user_role user = LINE_MANAGER \<and> g \<noteq> [] \<and> e \<in> recursive_report_ids (people_edges s) g
          then Inr () else Inl (Forbidden NotAuthorizedToView))"

definition get_leave_request :: "id \<Rightarrow> auth_user \<Rightarrow> leave_db \<Rightarrow> leave_request_row leave_answer" where
  "get_leave_request r user s =
     and_then (row_or_throw (find_request s r)) (\<lambda>q.
     and_then (assert_can_view_employee (lq_employee q) user s) (\<lambda>_. Inr q))"

definition list_for_employee :: "id \<Rightarrow> auth_user \<Rightarrow> leave_db \<Rightarrow> leave_request_row list leave_answer" where
  "list_for_employee e user s =
     and_then (assert_can_view_employee e user s) (\<lambda>_. Inr (rev (filter (\<lambda>q. lq_employee q = e) (lv_requests s))))"

definition pending_approvals :: "auth_user \<Rightarrow> leave_db \<Rightarrow> leave_request_row list" where
  "pending_approvals user s =
     filter (\<lambda>q. (case user_employee user of None \<Rightarrow> False
                  | Some g \<Rightarrow> g \<noteq> [] \<and> lq_status q = PENDING_L1
                      \<and> (case find_employee s (lq_employee q) of None \<Rightarrow> False | Some emp \<Rightarrow> le_manager emp = Some g))
              \<or> is_admin user \<and> lq_status q = PENDING_L2) (lv_requests s)"

definition get_encashable_balance :: "id \<Rightarrow> date \<Rightarrow> leave_db \<Rightarrow> number" where
  "get_encashable_balance e as_of s =
     foldl (\<lambda>sum b. js_fl (sum + available b)) 0
       (filter (\<lambda>b. lb_employee b = e \<and> lb_year b = resolve_leave_year as_of (ls_fy_start_month (lv_settings s))
          \<and> (case find_type s (lb_type b) of None \<Rightarrow> False | Some t \<Rightarrow> lt_encashable t)) (lv_balances s))"

definition approved_lop_days :: "date \<Rightarrow> date \<Rightarrow> leave_db \<Rightarrow> id \<Rightarrow> int" where
  "approved_lop_days start e s emp =
     (let last_ms = e - 1; holidays = holiday_dates_between start last_ms s
      in foldl (\<lambda>sum q. sum + count_leave_days (if lq_start q < start then start else lq_start q)
            (if last_ms < lq_end q then last_ms else lq_end q) holidays (ls_weekly_offs (lv_settings s)) 0) 0
          (filter (\<lambda>q. lq_employee q = emp \<and> lq_status q = LEAVE_APPROVED \<and> lq_lop q
             \<and> lq_start q < e \<and> start \<le> lq_end q) (lv_requests s)))"

end
