(* ===== verification/LeaveBooks.thy ===== *)
theory LeaveBooks
  imports LeaveRequests
begin

text \<open>
  The requests the leave module serves, and what they keep true of the books: the ledger explains
  the balances, and the days used are the days of the approved leave.
\<close>

section \<open>The operations as requests\<close>

datatype leave_op =
    Apply id apply_dto
  | Approve id
  | Reject id
  | Cancel id
  | Escalate id nat
  | AdjustBalance id id int number
  | CompOff id date
  | OvertimeCompOff id number date
  | Attach id

text \<open>A request's id is new; manual adjustments are for HR (a guard of the route).\<close>

fun serve :: "leave_op \<Rightarrow> auth_user \<Rightarrow> date \<Rightarrow> leave_db \<Rightarrow> leave_db leave_answer" where
  "serve (Apply r dto) user now s =
     (if find_request s r \<noteq> None then Inl (Crash RowMissing) else apply_leave r dto user now s)"
| "serve (Approve r) user now s = approve_leave r user now s"
| "serve (Reject r) user now s = reject_leave r user s"
| "serve (Cancel r) user now s = cancel_leave r user now s"
| "serve (Escalate r level) user now s = Inr (escalate r level s)"
| "serve (AdjustBalance e t y d) user now s =
     (if is_admin user then Inr (adjust_balance_manual e t y d user now s) else Inl (Forbidden NotAuthorizedToView))"
| "serve (CompOff e d) user now s = Inr (credit_comp_off e d now s)"
| "serve (OvertimeCompOff e days first) user now s = Inr (credit_overtime_comp_off e days first now s)"
| "serve (Attach r) user now s = attach_leave r user s"

definition leave_step :: "leave_db \<Rightarrow> leave_db \<Rightarrow> bool" where
  "leave_step s s' \<longleftrightarrow> (\<exists>op user now. serve op user now s = Inr s')"

section \<open>Sums over a table\<close>

definition total :: "('r \<Rightarrow> decimal) \<Rightarrow> 'r table \<Rightarrow> decimal" where
  "total g t = sum_list (map g t)"

lemma total_simps [simp]:
  "total g [] = 0" "total g (r # t) = g r + total g t" "total g (t @ u) = total g t + total g u"
  by (simp_all add: total_def)

text \<open>Updating the one row a unique key selects changes the sum by what the row changes.\<close>

lemma total_update_row:
  assumes "distinct (map key t)" and "find_row (\<lambda>r. key r = k) t = Some r"
  shows "total g (update_rows (\<lambda>r. key r = k) f t) = total g t + (g (f r) - g r)"
  using assms
proof (induction t)
  case (Cons x t)
  show ?case
  proof (cases "key x = k")
    case True
    with Cons.prems have "r = x" "\<forall>y \<in> set t. key y \<noteq> k" by (auto simp: image_iff)
    with True show ?thesis by (simp add: update_rows_none)
  next
    case False
    with Cons show ?thesis by simp
  qed
qed simp

definition balance_key :: "leave_balance_row \<Rightarrow> id \<times> id \<times> int" where
  "balance_key b = (lb_employee b, lb_type b, lb_year b)"

lemma is_balance_key: "is_balance e t y = (\<lambda>b. balance_key b = (e, t, y))"
  by (auto simp: is_balance_def balance_key_def fun_eq_iff)

text \<open>What is available to an employee for a type over all years, and what the ledger says.\<close>

definition balance_value :: "leave_balance_row \<Rightarrow> decimal" where
  "balance_value b = lb_accrued b - lb_used b"

definition of_pair :: "id \<Rightarrow> id \<Rightarrow> (leave_balance_row \<Rightarrow> decimal) \<Rightarrow> leave_balance_row \<Rightarrow> decimal" where
  "of_pair e t g b = (if lb_employee b = e \<and> lb_type b = t then g b else 0)"

definition available_days :: "id \<Rightarrow> id \<Rightarrow> leave_db \<Rightarrow> decimal" where
  "available_days e t s = total (of_pair e t balance_value) (lv_balances s)"

definition used_days :: "id \<Rightarrow> id \<Rightarrow> leave_db \<Rightarrow> decimal" where
  "used_days e t s = total (of_pair e t lb_used) (lv_balances s)"

definition ledger_days :: "id \<Rightarrow> id \<Rightarrow> leave_db \<Rightarrow> decimal" where
  "ledger_days e t s = total (\<lambda>l. if ll_employee l = e \<and> ll_type l = t then ll_delta l else 0) (lv_ledger s)"

definition approved_days :: "id \<Rightarrow> id \<Rightarrow> leave_db \<Rightarrow> decimal" where
  "approved_days e t s = total (\<lambda>q. if lq_employee q = e \<and> lq_type q = t \<and> lq_status q = LEAVE_APPROVED \<and> \<not> lq_lop q
     then lq_days q else 0) (lv_requests s)"

definition balances_ok :: "leave_db \<Rightarrow> bool" where
  "balances_ok s \<longleftrightarrow> distinct (map balance_key (lv_balances s))
     \<and> (\<forall>b \<in> set (lv_balances s). on_grid (lb_accrued b) \<and> on_grid (lb_used b))"

section \<open>One movement\<close>

text \<open>
  A movement of \<open>d\<close> days: the update adds \<open>d\<close> to what is available and \<open>u\<close> to what is used, a row
  that did not exist starts with the same amounts.
\<close>

definition movement ::
  "id \<Rightarrow> id \<Rightarrow> int \<Rightarrow> (leave_balance_row \<Rightarrow> leave_balance_row) \<Rightarrow> leave_balance_row \<Rightarrow> decimal \<Rightarrow> decimal \<Rightarrow> leave_db \<Rightarrow> bool" where
  "movement e t y upd new d u s \<longleftrightarrow>
     (\<forall>b. on_grid (lb_accrued b) \<and> on_grid (lb_used b) \<longrightarrow>
        balance_key (upd b) = balance_key b \<and> on_grid (lb_accrued (upd b)) \<and> on_grid (lb_used (upd b))
        \<and> balance_value (upd b) = balance_value b + d \<and> lb_used (upd b) = lb_used b + u)
     \<and> balance_key new = (e, t, y) \<and> on_grid (lb_accrued new) \<and> on_grid (lb_used new)
     \<and> (find_balance e t y s = None \<longrightarrow> balance_value new = d \<and> lb_used new = u)"

lemma post_movement_effect:
  assumes ok: "balances_ok s" and m: "movement e t y upd new d u s" and delta: "days_col delta = d"
    and s'_def: "s' = post_movement e t y upd new delta source actor now s"
  shows "balances_ok s'"
    and "available_days e' t' s' = available_days e' t' s + (if e' = e \<and> t' = t then d else 0)"
    and "used_days e' t' s' = used_days e' t' s + (if e' = e \<and> t' = t then u else 0)"
    and "ledger_days e' t' s' = ledger_days e' t' s + (if e' = e \<and> t' = t then d else 0)"
    and "find_balance e t y s' \<noteq> None"
    and "find_balance e' t' y' s \<noteq> None \<Longrightarrow> find_balance e' t' y' s' \<noteq> None"
proof -
  let ?p = "\<lambda>b. balance_key b = (e, t, y)"
  have bal: "lv_balances s' = upsert_row ?p upd new (lv_balances s)"
    by (simp add: s'_def post_movement_def Let_def is_balance_key)
  have grid: "on_grid (lb_accrued b)" "on_grid (lb_used b)" if "b \<in> set (lv_balances s)" for b
    using ok that by (auto simp: balances_ok_def)
  have dist: "distinct (map balance_key (lv_balances s))" using ok by (simp add: balances_ok_def)
  have sums: "total (of_pair e' t' g) (lv_balances s') = total (of_pair e' t' g) (lv_balances s)
      + (if e' = e \<and> t' = t then w else 0)"
    if g: "\<And>b. on_grid (lb_accrued b) \<Longrightarrow> on_grid (lb_used b) \<Longrightarrow> g (upd b) = g b + w"
      and new: "find_balance e t y s = None \<Longrightarrow> g new = w" for g w
  proof (cases "find_row ?p (lv_balances s)")
    case None
    then have "find_balance e t y s = None" by (simp add: find_balance_def is_balance_key)
    from new [OF this] None m show ?thesis
      unfolding bal by (auto simp: upsert_row_def of_pair_def movement_def balance_key_def)
  next
    case (Some r)
    then have r: "r \<in> set (lv_balances s)" "balance_key r = (e, t, y)" using find_row_SomeD by fastforce+
    have k: "balance_key (upd r) = (e, t, y)" using m grid [OF r(1)] r(2) by (simp add: movement_def)
    have "total (of_pair e' t' g) (lv_balances s') = total (of_pair e' t' g) (lv_balances s)
        + (of_pair e' t' g (upd r) - of_pair e' t' g r)"
      unfolding bal upsert_row_def using Some by (simp del: find_row_None add: total_update_row [OF dist Some])
    also have "of_pair e' t' g (upd r) - of_pair e' t' g r = (if e' = e \<and> t' = t then w else 0)"
      using g [OF grid [OF r(1)]] k r(2) by (auto simp: of_pair_def balance_key_def)
    finally show ?thesis .
  qed
  show "available_days e' t' s' = available_days e' t' s + (if e' = e \<and> t' = t then d else 0)"
    unfolding available_days_def using m by (intro sums) (auto simp: movement_def)
  show "used_days e' t' s' = used_days e' t' s + (if e' = e \<and> t' = t then u else 0)"
    unfolding used_days_def using m by (intro sums) (auto simp: movement_def)
  show "ledger_days e' t' s' = ledger_days e' t' s + (if e' = e \<and> t' = t then d else 0)"
    using delta by (simp add: s'_def post_movement_def Let_def ledger_days_def)
  have keys: "map balance_key (update_rows ?p upd (lv_balances s)) = map balance_key (lv_balances s)"
    using m grid by (auto simp: update_rows_def movement_def)
  show "balances_ok s'"
  proof (cases "find_row ?p (lv_balances s) = None")
    case True
    with ok m show ?thesis
      unfolding balances_ok_def bal by (auto simp: upsert_row_def movement_def)
  next
    case False
    have "on_grid (lb_accrued b) \<and> on_grid (lb_used b)" if "b \<in> set (update_rows ?p upd (lv_balances s))" for b
      using that grid m by (auto simp: update_rows_def movement_def split: if_splits)
    with False dist keys show ?thesis
      unfolding balances_ok_def bal upsert_row_def if_not_P [OF False] by simp
  qed
  have found: "find_balance e' t' y' z \<noteq> None \<longleftrightarrow> (e', t', y') \<in> set (map balance_key (lv_balances z))" for e' t' y' z
    by (force simp: find_balance_def is_balance_key)
  have keys': "set (map balance_key (lv_balances s')) = insert (e, t, y) (set (map balance_key (lv_balances s)))"
  proof (cases "find_row ?p (lv_balances s)")
    case None
    then show ?thesis unfolding bal using m by (simp add: upsert_row_def movement_def)
  next
    case (Some r)
    then have "(e, t, y) \<in> set (map balance_key (lv_balances s))" using find_row_SomeD by force
    with Some show ?thesis unfolding bal upsert_row_def using keys by (simp del: find_row_None set_map add: insert_absorb)
  qed
  show "find_balance e t y s' \<noteq> None" unfolding found keys' by simp
  show "find_balance e' t' y' s \<noteq> None \<Longrightarrow> find_balance e' t' y' s' \<noteq> None" unfolding found keys' by simp
qed

lemma hundredths_zero [simp]: "hundredths 0"
  unfolding hundredths_def by (rule exI [of _ 0]) simp

lemma hundredths_minus: "hundredths d \<Longrightarrow> hundredths (- d)"
  unfolding hundredths_def by (auto intro: exI [of _ "- k" for k])

lemma hundredths_max_0: "hundredths d \<Longrightarrow> hundredths (max d 0)"
  by (simp add: max_def)

lemma num_nonneg: "0 \<le> d \<Longrightarrow> 0 \<le> num d"
  by (simp add: num_def js.fl_nonneg)

lemma nonneg_num:
  assumes "hundredths c" and "0 \<le> num c"
  shows "0 \<le> c"
proof (rule ccontr)
  obtain k where k: "c = of_int k / 100" using assms(1) by (auto simp: hundredths_def)
  assume "\<not> 0 \<le> c"
  with k have "0 < cents (- k)" by (simp add: cents_pos)
  moreover have "cents (- k) = - num c" unfolding k num_cents by (simp add: cents_def js.fl_neg)
  ultimately show False using assms(2) by simp
qed

lemma num_max_0: "max (num d) 0 = num (max d 0)"
  using num_nonneg [of d] num_nonneg [of "- d"] by (auto simp: max_def num_minus) (simp_all add: num_def)

text \<open>The two kinds of movement: of what is accrued and of what is used.\<close>

lemma accrued_movement:
  assumes d: "hundredths d" and "find_balance e t y s = None \<Longrightarrow> 0 \<le> d"
  shows "movement e t y (add_accrued (num d)) (new_balance e t y (max (num d) 0) 0) d 0 s"
  using assms days_col_num [OF d] days_col_num [of "max d 0"] days_col_cents [of 0] column_add_exact [OF _ d]
    hundredths_max_0 [OF d]
  unfolding movement_def
  by (auto simp: add_accrued_def new_balance_def balance_key_def balance_value_def num_max_0)

lemma used_movement:
  assumes d: "hundredths d" and "find_balance e t y s = None \<Longrightarrow> 0 \<le> d"
  shows "movement e t y (add_used (num d)) (new_balance e t y 0 (max (num d) 0)) (- d) d s"
  using assms days_col_num [OF d] days_col_num [of "max d 0"] days_col_cents [of 0] column_add_exact [OF _ d]
    hundredths_max_0 [OF d]
  unfolding movement_def
  by (auto simp: add_used_def new_balance_def balance_key_def balance_value_def num_max_0)

section \<open>Which tables an operation touches\<close>

lemma mark_day_only: "mark_day e d on_leave s = s\<lparr>lv_attendance := lv_attendance (mark_day e d on_leave s)\<rparr>"
  by (simp add: mark_day_def)

lemma sync_attendance_only:
  "sync_attendance emp cur e hs offs on_leave s = s\<lparr>lv_attendance := lv_attendance (sync_attendance emp cur e hs offs on_leave s)\<rparr>"
proof (induction emp cur e hs offs on_leave s rule: sync_attendance.induct)
  case (1 emp cur e hs offs on_leave s)
  show ?case
  proof (cases "cur \<le> e")
    case True
    let ?s = "if iso_day cur \<notin> hs \<and> utc_day cur \<notin> set offs then mark_day emp cur on_leave s else s"
    have "sync_attendance emp (cur + DAY_MS) e hs offs on_leave ?s
        = ?s\<lparr>lv_attendance := lv_attendance (sync_attendance emp (cur + DAY_MS) e hs offs on_leave ?s)\<rparr>"
      by (rule 1 [OF True])
    also have "\<dots> = s\<lparr>lv_attendance := lv_attendance (sync_attendance emp (cur + DAY_MS) e hs offs on_leave ?s)\<rparr>"
      by (auto simp: mark_day_def)
    finally show ?thesis using True by (subst (1 2) sync_attendance.simps) simp
  next
    case False
    then show ?thesis by (subst (1 2) sync_attendance.simps) simp
  qed
qed

lemma sync_attendance_tables [simp]:
  "lv_settings (sync_attendance emp cur e hs offs b s) = lv_settings s"
  "lv_types (sync_attendance emp cur e hs offs b s) = lv_types s"
  "lv_employees (sync_attendance emp cur e hs offs b s) = lv_employees s"
  "lv_holidays (sync_attendance emp cur e hs offs b s) = lv_holidays s"
  "lv_balances (sync_attendance emp cur e hs offs b s) = lv_balances s"
  "lv_ledger (sync_attendance emp cur e hs offs b s) = lv_ledger s"
  "lv_requests (sync_attendance emp cur e hs offs b s) = lv_requests s"
  "lv_approvals (sync_attendance emp cur e hs offs b s) = lv_approvals s"
  by (subst sync_attendance_only, simp)+

lemma post_movement_tables [simp]:
  "lv_settings (post_movement e t y u n d src a now s) = lv_settings s"
  "lv_types (post_movement e t y u n d src a now s) = lv_types s"
  "lv_employees (post_movement e t y u n d src a now s) = lv_employees s"
  "lv_holidays (post_movement e t y u n d src a now s) = lv_holidays s"
  "lv_requests (post_movement e t y u n d src a now s) = lv_requests s"
  "lv_approvals (post_movement e t y u n d src a now s) = lv_approvals s"
  "lv_attendance (post_movement e t y u n d src a now s) = lv_attendance s"
  by (simp_all add: post_movement_def Let_def)

lemma small_writes_tables [simp]:
  "lv_balances (leave_notify a k s) = lv_balances s" "lv_balances (schedule_escalation r l s) = lv_balances s"
  "lv_balances (record_approval r l ap dc s) = lv_balances s" "lv_balances (set_request r f s) = lv_balances s"
  "lv_ledger (leave_notify a k s) = lv_ledger s" "lv_ledger (schedule_escalation r l s) = lv_ledger s"
  "lv_ledger (record_approval r l ap dc s) = lv_ledger s" "lv_ledger (set_request r f s) = lv_ledger s"
  "lv_requests (leave_notify a k s) = lv_requests s" "lv_requests (schedule_escalation r l s) = lv_requests s"
  "lv_requests (record_approval r l ap dc s) = lv_requests s"
  "lv_settings (leave_notify a k s) = lv_settings s" "lv_settings (schedule_escalation r l s) = lv_settings s"
  "lv_settings (record_approval r l ap dc s) = lv_settings s" "lv_settings (set_request r f s) = lv_settings s"
  "lv_types (leave_notify a k s) = lv_types s" "lv_types (schedule_escalation r l s) = lv_types s"
  "lv_types (record_approval r l ap dc s) = lv_types s" "lv_types (set_request r f s) = lv_types s"
  "lv_employees (leave_notify a k s) = lv_employees s" "lv_employees (schedule_escalation r l s) = lv_employees s"
  "lv_employees (record_approval r l ap dc s) = lv_employees s" "lv_employees (set_request r f s) = lv_employees s"
  "lv_attendance (leave_notify a k s) = lv_attendance s" "lv_attendance (schedule_escalation r l s) = lv_attendance s"
  "lv_attendance (record_approval r l ap dc s) = lv_attendance s" "lv_attendance (set_request r f s) = lv_attendance s"
  by (simp_all add: leave_notify_def schedule_escalation_def record_approval_def set_request_def)

lemma set_request_requests [simp]:
  "lv_requests (set_request r f s) = update_rows (\<lambda>q. lq_id q = r) f (lv_requests s)"
  by (simp add: set_request_def)

lemma find_balance_cong: "lv_balances s' = lv_balances s \<Longrightarrow> find_balance e t y s' = find_balance e t y s"
  by (simp add: find_balance_def)

section \<open>The books\<close>

definition leave_year_of :: "leave_db \<Rightarrow> leave_request_row \<Rightarrow> int" where
  "leave_year_of s q = resolve_leave_year (lq_start q) (ls_fy_start_month (lv_settings s))"

definition request_ok :: "leave_db \<Rightarrow> leave_request_row \<Rightarrow> bool" where
  "request_ok s q \<longleftrightarrow> hundredths (lq_days q) \<and> 0 \<le> lq_days q \<and> (lq_lop q \<longrightarrow> lq_event_date q = None)
     \<and> (lq_status q = LEAVE_APPROVED \<and> \<not> lq_lop q \<longrightarrow>
          find_balance (lq_employee q) (lq_type q) (leave_year_of s q) s \<noteq> None)"

definition books_ok :: "leave_db \<Rightarrow> bool" where
  "books_ok s \<longleftrightarrow> balances_ok s \<and> distinct (map lq_id (lv_requests s)) \<and> (\<forall>q \<in> set (lv_requests s). request_ok s q)"

text \<open>What is available that the ledger does not explain, and what is used that no approved leave explains.\<close>

definition unexplained :: "id \<Rightarrow> id \<Rightarrow> leave_db \<Rightarrow> decimal \<times> decimal" where
  "unexplained e t s = (available_days e t s - ledger_days e t s, used_days e t s - approved_days e t s)"

lemma adjust_used_effect:
  assumes "balances_ok s" and "hundredths d" and "find_balance e t y s = None \<Longrightarrow> 0 \<le> d"
    and s': "s' = adjust_used_days e t y (num d) src actor now s"
  shows "balances_ok s'"
    and "available_days e' t' s' - ledger_days e' t' s' = available_days e' t' s - ledger_days e' t' s"
    and "used_days e' t' s' = used_days e' t' s + (if e' = e \<and> t' = t then d else 0)"
    and "find_balance e t y s' \<noteq> None"
    and "find_balance e' t' y' s \<noteq> None \<Longrightarrow> find_balance e' t' y' s' \<noteq> None"
  using post_movement_effect [OF assms(1) used_movement [OF assms(2,3)] _ s' [unfolded adjust_used_days_def]]
    days_col_num [OF hundredths_minus [OF assms(2)]]
  by (simp_all add: num_minus)

lemma grant_effect:
  assumes "balances_ok s" and "hundredths d" and "find_balance e t y s = None \<Longrightarrow> 0 \<le> d"
    and s': "s' = post_movement e t y (add_accrued (num d)) (new_balance e t y (max (num d) 0) 0) (num d) src actor now s"
  shows "balances_ok s'"
    and "available_days e' t' s' - ledger_days e' t' s' = available_days e' t' s - ledger_days e' t' s"
    and "used_days e' t' s' = used_days e' t' s"
    and "find_balance e t y s' \<noteq> None"
    and "find_balance e' t' y' s \<noteq> None \<Longrightarrow> find_balance e' t' y' s' \<noteq> None"
  using post_movement_effect [OF assms(1) accrued_movement [OF assms(2,3)] _ s'] days_col_num [OF assms(2)]
  by simp_all

lemma post_approval_effect:
  assumes ok: "balances_ok s" and d: "hundredths (lq_days q)" "0 \<le> lq_days q"
    and s': "s' = post_approval q t user now s"
  shows "balances_ok s'"
    and "available_days e' t' s' - ledger_days e' t' s' = available_days e' t' s - ledger_days e' t' s"
    and "used_days e' t' s' = used_days e' t' s
      + (if e' = lq_employee q \<and> t' = lq_type q \<and> \<not> lq_lop q then lq_days q else 0)"
    and "\<not> lq_lop q \<Longrightarrow> find_balance (lq_employee q) (lq_type q) (leave_year_of s q) s' \<noteq> None"
    and "find_balance e' t' y' s \<noteq> None \<Longrightarrow> find_balance e' t' y' s' \<noteq> None"
    and "lv_requests s' = lv_requests s" and "lv_settings s' = lv_settings s"
proof -
  let ?e = "lq_employee q" and ?t = "lq_type q" and ?y = "leave_year_of s q"
  define s1 where "s1 = (if lt_grant_mode t = ON_EVENT
    then grant_event_days ?e ?t ?y (num (lq_days q)) (sub user) now s else s)"
  define s2 where "s2 = (if lq_lop q then s1
    else adjust_used_days ?e ?t ?y (num (lq_days q)) REQUEST_APPROVED (Some (sub user)) now s1)"
  have s'2: "lv_balances s' = lv_balances s2" "lv_ledger s' = lv_ledger s2" "lv_requests s' = lv_requests s2"
    "lv_settings s' = lv_settings s2"
    by (simp_all add: s' post_approval_def Let_def s1_def s2_def leave_year_of_def)
  have one: "balances_ok s1"
    "available_days e' t' s1 - ledger_days e' t' s1 = available_days e' t' s - ledger_days e' t' s"
    "used_days e' t' s1 = used_days e' t' s"
    "find_balance e' t' y' s \<noteq> None \<Longrightarrow> find_balance e' t' y' s1 \<noteq> None"
    "lv_requests s1 = lv_requests s" "lv_settings s1 = lv_settings s" for e' t' y'
    using ok grant_effect [OF ok d(1) _ refl, of ?e ?t ?y] d(2)
    by (auto simp: s1_def grant_event_days_def)
  have two: "balances_ok s2"
    "available_days e' t' s2 - ledger_days e' t' s2 = available_days e' t' s1 - ledger_days e' t' s1"
    "used_days e' t' s2 = used_days e' t' s1 + (if e' = ?e \<and> t' = ?t \<and> \<not> lq_lop q then lq_days q else 0)"
    "\<not> lq_lop q \<Longrightarrow> find_balance ?e ?t ?y s2 \<noteq> None"
    "find_balance e' t' y' s1 \<noteq> None \<Longrightarrow> find_balance e' t' y' s2 \<noteq> None"
    "lv_requests s2 = lv_requests s1" "lv_settings s2 = lv_settings s1" for e' t' y'
    using one(1) adjust_used_effect [OF one(1) d(1) _ refl, of ?e ?t ?y] d(2)
    by (auto simp: s2_def adjust_used_days_def)
  note eq = s'2 balances_ok_def available_days_def used_days_def ledger_days_def find_balance_def
  show "balances_ok s'" using two(1) by (simp add: eq)
  show "available_days e' t' s' - ledger_days e' t' s' = available_days e' t' s - ledger_days e' t' s"
    using one(2) two(2) by (simp add: eq)
  show "used_days e' t' s' = used_days e' t' s + (if e' = ?e \<and> t' = ?t \<and> \<not> lq_lop q then lq_days q else 0)"
    using one(3) two(3) by (simp add: eq)
  show "\<not> lq_lop q \<Longrightarrow> find_balance ?e ?t ?y s' \<noteq> None" using two(4) find_balance_cong [OF s'2(1)] by simp
  show "find_balance e' t' y' s \<noteq> None \<Longrightarrow> find_balance e' t' y' s' \<noteq> None"
    using one(4) two(5) find_balance_cong [OF s'2(1)] by simp
  show "lv_requests s' = lv_requests s" "lv_settings s' = lv_settings s" using one(5,6) two(6,7) by (simp_all add: s'2)
qed

lemma post_cancellation_effect:
  assumes ok: "balances_ok s" and d: "hundredths (lq_days q)"
    and row: "\<not> lq_lop q \<longrightarrow> find_balance (lq_employee q) (lq_type q) (leave_year_of s q) s \<noteq> None"
    and lop: "lq_lop q \<longrightarrow> lq_event_date q = None"
    and s': "s' = post_cancellation q user now s"
  shows "balances_ok s'"
    and "available_days e' t' s' - ledger_days e' t' s' = available_days e' t' s - ledger_days e' t' s"
    and "used_days e' t' s' = used_days e' t' s
      - (if e' = lq_employee q \<and> t' = lq_type q \<and> \<not> lq_lop q then lq_days q else 0)"
    and "find_balance e' t' y' s \<noteq> None \<Longrightarrow> find_balance e' t' y' s' \<noteq> None"
    and "lv_requests s' = lv_requests s" and "lv_settings s' = lv_settings s"
proof -
  let ?e = "lq_employee q" and ?t = "lq_type q" and ?y = "leave_year_of s q"
  define s1 where "s1 = (if lq_lop q then s
    else adjust_used_days ?e ?t ?y (num (- lq_days q)) REQUEST_CANCELLED (Some (sub user)) now s)"
  define s2 where "s2 = (if lq_event_date q = None then s1
    else grant_event_days ?e ?t ?y (num (- lq_days q)) (sub user) now s1)"
  have m: "hundredths (- lq_days q)" using d by (rule hundredths_minus)
  have s'2: "lv_balances s' = lv_balances s2" "lv_ledger s' = lv_ledger s2" "lv_requests s' = lv_requests s2"
    "lv_settings s' = lv_settings s2"
    by (simp_all add: s' post_cancellation_def Let_def s1_def s2_def leave_year_of_def num_minus)
  have one: "balances_ok s1"
    "available_days e' t' s1 - ledger_days e' t' s1 = available_days e' t' s - ledger_days e' t' s"
    "used_days e' t' s1 = used_days e' t' s - (if e' = ?e \<and> t' = ?t \<and> \<not> lq_lop q then lq_days q else 0)"
    "\<not> lq_lop q \<Longrightarrow> find_balance ?e ?t ?y s1 \<noteq> None"
    "find_balance e' t' y' s \<noteq> None \<Longrightarrow> find_balance e' t' y' s1 \<noteq> None"
    "lv_requests s1 = lv_requests s" "lv_settings s1 = lv_settings s" for e' t' y'
    using ok adjust_used_effect [OF ok m _ refl, of ?e ?t ?y] row
    by (auto simp: s1_def adjust_used_days_def)
  have row1: "find_balance ?e ?t ?y s1 \<noteq> None" if "lq_event_date q \<noteq> None"
  proof -
    have "\<not> lq_lop q" using lop that by blast
    then show ?thesis by (rule one(4))
  qed
  have two: "balances_ok s2"
    "available_days e' t' s2 - ledger_days e' t' s2 = available_days e' t' s1 - ledger_days e' t' s1"
    "used_days e' t' s2 = used_days e' t' s1"
    "find_balance e' t' y' s1 \<noteq> None \<Longrightarrow> find_balance e' t' y' s2 \<noteq> None"
    "lv_requests s2 = lv_requests s1" "lv_settings s2 = lv_settings s1" for e' t' y'
    using one(1) grant_effect [OF one(1) m _ refl, of ?e ?t ?y] row1
    by (cases "lq_event_date q = None"; simp add: s2_def grant_event_days_def)+
  note eq = s'2 balances_ok_def available_days_def used_days_def ledger_days_def
  show "balances_ok s'" using two(1) by (simp add: eq)
  show "available_days e' t' s' - ledger_days e' t' s' = available_days e' t' s - ledger_days e' t' s"
    using one(2) two(2) by (simp add: eq)
  show "used_days e' t' s' = used_days e' t' s - (if e' = ?e \<and> t' = ?t \<and> \<not> lq_lop q then lq_days q else 0)"
    using one(3) two(3) by (simp add: eq)
  show "find_balance e' t' y' s \<noteq> None \<Longrightarrow> find_balance e' t' y' s' \<noteq> None"
    using one(5) two(4) find_balance_cong [OF s'2(1)] by simp
  show "lv_requests s' = lv_requests s" "lv_settings s' = lv_settings s" using one(6,7) two(5,6) by (simp_all add: s'2)
qed

section \<open>Every request keeps the books\<close>

text \<open>
  The requests the books rest on: a manual correction and an overtime credit come in whole
  hundredths and do not take days from a balance that does not exist; a decided approval is not
  rejected afterwards (the code does not stop that, see below).
\<close>

definition days_number :: "number \<Rightarrow> bool" where
  "days_number x \<longleftrightarrow> num (days_col x) = x \<and> \<bar>days_col x\<bar> \<le> 10 ^ 6"

lemma days_numberE:
  assumes "days_number x"
  obtains c where "hundredths c" and "x = num c"
proof
  show "x = num (days_col x)" using assms by (simp add: days_number_def)
  obtain k :: int where k: "days_col x = of_int k / 10 ^ 2"
    using decjs.dp_grid [of 2 "of_number x"] by (auto simp: days_col_def decimal_js_def)
  then have "(of_int k :: rat) = days_col x * 100" by simp
  then have "\<bar>of_int k :: rat\<bar> \<le> 10 ^ 8" using assms by (simp only:) (simp add: days_number_def abs_mult)
  then have "of_int \<bar>k\<bar> \<le> (of_int (10 ^ 8) :: rat)" by simp
  then have "\<bar>k\<bar> \<le> 10 ^ 8" unfolding of_int_le_iff .
  then show "hundredths (days_col x)" unfolding hundredths_def using k by (intro exI [of _ k]) simp
qed

fun orderly :: "leave_op \<Rightarrow> leave_db \<Rightarrow> bool" where
  "orderly (AdjustBalance e t y d) s \<longleftrightarrow> days_number d \<and> (0 \<le> d \<or> find_balance e t y s \<noteq> None)"
| "orderly (OvertimeCompOff e d first) s \<longleftrightarrow> days_number d \<and> 0 \<le> d"
| "orderly (Reject r) s \<longleftrightarrow> (case find_request s r of None \<Rightarrow> True | Some q \<Rightarrow> lq_status q \<noteq> LEAVE_APPROVED)"
| "orderly _ s \<longleftrightarrow> True"

lemma request_ok_mono:
  assumes "\<And>e t y. find_balance e t y s \<noteq> None \<Longrightarrow> find_balance e t y s' \<noteq> None"
    and "lv_settings s' = lv_settings s" and "request_ok s q"
  shows "request_ok s' q"
  using assms(1) [of "lq_employee q" "lq_type q" "leave_year_of s q"] assms(2,3)
  by (auto simp: request_ok_def leave_year_of_def)

text \<open>A status change of one request, after the movements its handler posted.\<close>

lemma decided_request:
  assumes ok: "books_ok s" and q: "find_request s r = Some q"
    and s1: "balances_ok s1" "\<And>e t y. find_balance e t y s \<noteq> None \<Longrightarrow> find_balance e t y s1 \<noteq> None"
      "lv_requests s1 = lv_requests s" "lv_settings s1 = lv_settings s"
    and f: "lq_id (f q) = lq_id q" "request_ok s1 (f q)"
    and s': "lv_balances s' = lv_balances s1" "lv_settings s' = lv_settings s1"
      "lv_requests s' = update_rows (\<lambda>q. lq_id q = r) f (lv_requests s1)"
  shows "books_ok s'"
    and "approved_days e t s' = approved_days e t s
      + (if lq_employee (f q) = e \<and> lq_type (f q) = t \<and> lq_status (f q) = LEAVE_APPROVED \<and> \<not> lq_lop (f q)
         then lq_days (f q) else 0)
      - (if lq_employee q = e \<and> lq_type q = t \<and> lq_status q = LEAVE_APPROVED \<and> \<not> lq_lop q then lq_days q else 0)"
proof -
  have dist: "distinct (map lq_id (lv_requests s))" and rows: "\<forall>x \<in> set (lv_requests s). request_ok s x"
    using ok by (simp_all add: books_ok_def)
  have q': "find_row (\<lambda>q. lq_id q = r) (lv_requests s) = Some q" using q by (simp add: find_request_def)
  have inj: "inj_on lq_id (set (lv_requests s))" using dist by (simp add: distinct_map)
  have only: "x = q" if "x \<in> set (lv_requests s)" "lq_id x = r" for x
    using inj_onD [OF inj, of x q] that find_row_SomeD [OF q'] by simp
  have cong: "request_ok s' x \<longleftrightarrow> request_ok s1 x" for x
    using s'(1,2) by (simp add: request_ok_def leave_year_of_def find_balance_cong [OF s'(1)])
  have "request_ok s' x" if "x \<in> set (lv_requests s')" for x
  proof -
    from that obtain z where z: "z \<in> set (lv_requests s)" "x = (if lq_id z = r then f z else z)"
      unfolding s'(3) s1(3) by (auto simp: in_set_update_rows)
    show ?thesis
      using z only [of z] f(2) rows request_ok_mono [OF s1(2,4), of z] by (auto simp: cong)
  qed
  moreover have "map lq_id (lv_requests s') = map lq_id (lv_requests s)"
    unfolding s'(3) s1(3) update_rows_def using only f(1) by auto
  ultimately show "books_ok s'"
    using s1(1) s'(1) dist by (simp add: books_ok_def balances_ok_def)
  show "approved_days e t s' = approved_days e t s
      + (if lq_employee (f q) = e \<and> lq_type (f q) = t \<and> lq_status (f q) = LEAVE_APPROVED \<and> \<not> lq_lop (f q)
         then lq_days (f q) else 0)
      - (if lq_employee q = e \<and> lq_type q = t \<and> lq_status q = LEAVE_APPROVED \<and> \<not> lq_lop q then lq_days q else 0)"
    unfolding approved_days_def s'(3) s1(3) total_update_row [OF dist q'] by simp
qed

lemma request_ok_same_books:
  assumes "lv_balances s' = lv_balances s" and "lv_settings s' = lv_settings s"
  shows "request_ok s' q \<longleftrightarrow> request_ok s q"
  using assms by (simp add: request_ok_def leave_year_of_def find_balance_def)

lemma same_books:
  assumes "lv_balances s' = lv_balances s" and "lv_ledger s' = lv_ledger s" and "lv_requests s' = lv_requests s"
    and "lv_settings s' = lv_settings s"
  shows "books_ok s' \<longleftrightarrow> books_ok s" and "unexplained e t s' = unexplained e t s"
  using assms by (simp_all add: books_ok_def balances_ok_def request_ok_same_books [OF assms(1,4)]
      unexplained_def available_days_def ledger_days_def used_days_def approved_days_def)

text \<open>A status change without movements, of a request that neither was nor becomes approved.\<close>

lemma undecided_books:
  assumes ok: "books_ok s" and q: "find_request s r = Some q" "lq_status q \<noteq> LEAVE_APPROVED"
    and f: "lq_id (f q) = lq_id q" "lq_status (f q) \<noteq> LEAVE_APPROVED" "lq_days (f q) = lq_days q"
      "lq_lop (f q) = lq_lop q" "lq_event_date (f q) = lq_event_date q"
    and s': "lv_balances s' = lv_balances s" "lv_ledger s' = lv_ledger s" "lv_settings s' = lv_settings s"
      "lv_requests s' = update_rows (\<lambda>q. lq_id q = r) f (lv_requests s)"
  shows "books_ok s' \<and> unexplained e t s' = unexplained e t s"
proof -
  have "q \<in> set (lv_requests s)" using q(1) find_row_SomeD unfolding find_request_def by fastforce
  then have "request_ok s (f q)" using ok f by (auto simp: books_ok_def request_ok_def)
  from decided_request [OF ok q(1) _ _ refl refl f(1) this s'(1,3,4)] ok q(2) f(2) s'(1,2)
  show ?thesis by (simp add: books_ok_def unexplained_def available_days_def ledger_days_def used_days_def)
qed

lemma movement_books:
  assumes ok: "books_ok s" and d: "hundredths d" "0 \<le> d \<or> find_balance e t y s \<noteq> None"
    and s': "s' = post_movement e t y (add_accrued (num d)) (new_balance e t y (max (num d) 0) 0) (num d) src actor now s"
  shows "books_ok s' \<and> unexplained e' t' s' = unexplained e' t' s"
proof -
  have bal: "balances_ok s" using ok by (simp add: books_ok_def)
  have "find_balance e t y s = None \<Longrightarrow> 0 \<le> d" using d(2) by auto
  note eff = grant_effect [OF bal d(1) this s']
  have "lv_requests s' = lv_requests s" "lv_settings s' = lv_settings s" by (simp_all add: s')
  with eff ok show ?thesis
    using request_ok_mono [of s s'] by (auto simp: books_ok_def unexplained_def approved_days_def)
qed

lemma final_approve_books:
  assumes ok: "books_ok s" and q: "find_request s r = Some q" "lq_status q \<noteq> LEAVE_APPROVED"
    and s': "final_approve q level user now s = Inr s'"
  shows "books_ok s' \<and> unexplained e t s' = unexplained e t s"
proof -
  from s' obtain ty where s'_eq: "s' = leave_notify ''LEAVE_DECIDED'' (leave_key (lq_id q) '':decided:APPROVED'')
       (record_approval (lq_id q) level (user_employee user) DECISION_APPROVED
         (set_request (lq_id q) (mark_approved level user now) (post_approval q ty user now s)))"
    by (auto simp: final_approve_def and_then_Inr_iff split: if_splits)
  have mem: "q \<in> set (lv_requests s)" "lq_id q = r"
    using q(1) find_row_SomeD unfolding find_request_def by fastforce+
  then have rq: "hundredths (lq_days q)" "0 \<le> lq_days q" "lq_lop q \<longrightarrow> lq_event_date q = None"
    and bal: "balances_ok s" using ok by (auto simp: books_ok_def request_ok_def)
  note eff = post_approval_effect [OF bal rq(1,2) refl, where t = ty and user = user and now = now]
  let ?f = "mark_approved level user now"
  have f: "lq_id (?f q) = lq_id q" "lq_employee (?f q) = lq_employee q" "lq_type (?f q) = lq_type q"
    "lq_days (?f q) = lq_days q" "lq_lop (?f q) = lq_lop q" "lq_status (?f q) = LEAVE_APPROVED"
    "lq_event_date (?f q) = lq_event_date q" "lq_start (?f q) = lq_start q"
    by (simp_all add: mark_approved_def)
  have "request_ok (post_approval q ty user now s) (?f q)"
    using rq eff(4,7) f by (auto simp: request_ok_def leave_year_of_def)
  from decided_request [where f = ?f and s' = s', OF ok q(1) eff(1) eff(5) eff(6,7) f(1) this] mem(2) q(2) eff(2,3,6)
  show ?thesis
    by (simp add: s'_eq f unexplained_def available_days_def ledger_days_def used_days_def)
qed

text \<open>The ways a request is approved.\<close>

lemma approve_leave_cases:
  assumes "approve_leave r user now s = Inr s'" and "find_request s r = Some q"
  shows "lq_status q = PENDING_L1 \<and> (is_reporting_manager s q user \<or> is_admin user)
      \<and> (if ls_approval_levels (lv_settings s) = 1 \<and> ls_single_approver (lv_settings s) = BY_MANAGER
          then final_approve q 1 user now s = Inr s' else s' = approve_first_level q user now s)
    \<or> lq_status q = PENDING_L2 \<and> is_admin user \<and> final_approve q 2 user now s = Inr s'"
  using assms by (cases "lq_status q") (auto simp: approve_leave_def Let_def row_or_throw_def split: if_split_asm)

lemma approve_books:
  assumes ok: "books_ok s" and s': "approve_leave r user now s = Inr s'"
  shows "books_ok s' \<and> unexplained e t s' = unexplained e t s"
proof -
  from s' obtain q where q: "find_request s r = Some q" by (auto simp: approve_leave_def and_then_Inr_iff)
  have id: "lq_id q = r" using q find_row_SomeD unfolding find_request_def by fastforce
  have "lq_status q \<noteq> LEAVE_APPROVED \<and> ((\<exists>level. final_approve q level user now s = Inr s')
      \<or> s' = approve_first_level q user now s)"
    using approve_leave_cases [OF s' q] by (auto split: if_split_asm)
  then consider (final) level where "lq_status q \<noteq> LEAVE_APPROVED" "final_approve q level user now s = Inr s'"
    | (first) "lq_status q \<noteq> LEAVE_APPROVED" "s' = approve_first_level q user now s"
    by blast
  then show ?thesis
  proof cases
    case final
    then show ?thesis using final_approve_books [OF ok q] by blast
  next
    case first
    show ?thesis
      by (rule undecided_books [OF ok q first(1), where f = "\<lambda>x. x\<lparr>lq_status := PENDING_L2,
          lq_l1_approver := approver_or user (lq_l1_approver x), lq_l1_decided := Some now\<rparr>"])
        (simp_all add: first(2) approve_first_level_def id)
  qed
qed

lemma reject_books:
  assumes ok: "books_ok s" and "orderly (Reject r) s" and s': "reject_leave r user s = Inr s'"
  shows "books_ok s' \<and> unexplained e t s' = unexplained e t s"
proof -
  from s' obtain q where q: "find_request s r = Some q" by (auto simp: reject_leave_def and_then_Inr_iff)
  then have st: "lq_status q \<noteq> LEAVE_APPROVED" using assms(2) by simp
  show ?thesis
    by (rule undecided_books [OF ok q st, where f = "\<lambda>x. x\<lparr>lq_status := LEAVE_REJECTED\<rparr>"])
      (use s' q in \<open>auto simp: reject_leave_def row_or_throw_def split: if_splits\<close>)
qed

lemma escalate_books:
  assumes ok: "books_ok s"
  shows "books_ok (escalate r level s) \<and> unexplained e t (escalate r level s) = unexplained e t s"
proof (cases "find_request s r")
  case (Some q)
  consider "lq_status q \<noteq> (if level = 1 then PENDING_L1 else PENDING_L2)"
    | "lq_status q = PENDING_L1" "level = 1" | "lq_status q = PENDING_L2" "level \<noteq> 1"
    by (cases "level = 1") auto
  then show ?thesis
  proof cases
    case 2
    then have st: "lq_status q \<noteq> LEAVE_APPROVED" by simp
    show ?thesis
      by (rule undecided_books [OF ok Some st, where f = "\<lambda>x. x\<lparr>lq_status := PENDING_L2\<rparr>"])
        (use Some 2 in \<open>simp_all add: escalate_def\<close>)
  next
    case 3
    then have eq: "lv_balances (escalate r level s) = lv_balances s" "lv_ledger (escalate r level s) = lv_ledger s"
      "lv_requests (escalate r level s) = lv_requests s" "lv_settings (escalate r level s) = lv_settings s"
      using Some by (simp_all add: escalate_def)
    show ?thesis using same_books [OF eq] ok by simp
  qed (use Some ok in \<open>simp add: escalate_def\<close>)
qed (simp add: escalate_def ok)

lemma cancel_books:
  assumes ok: "books_ok s" and s': "cancel_leave r user now s = Inr s'"
  shows "books_ok s' \<and> unexplained e t s' = unexplained e t s"
proof -
  from s' obtain q where q: "find_request s r = Some q" by (auto simp: cancel_leave_def and_then_Inr_iff)
  let ?f = "\<lambda>x. x\<lparr>lq_status := LEAVE_CANCELLED\<rparr>"
  show ?thesis
  proof (cases "lq_status q = LEAVE_APPROVED")
    case False
    show ?thesis
      by (rule undecided_books [OF ok q False, where f = ?f])
        (use s' q False in \<open>auto simp: cancel_leave_def row_or_throw_def Let_def split: if_splits\<close>)
  next
    case True
    have mem: "q \<in> set (lv_requests s)" using q find_row_SomeD unfolding find_request_def by fastforce
    then have rq: "hundredths (lq_days q)" "0 \<le> lq_days q" "lq_lop q \<longrightarrow> lq_event_date q = None"
      "\<not> lq_lop q \<longrightarrow> find_balance (lq_employee q) (lq_type q) (leave_year_of s q) s \<noteq> None"
      and bal: "balances_ok s" using ok True by (auto simp: books_ok_def request_ok_def)
    note eff = post_cancellation_effect [OF bal rq(1) rq(4) rq(3) refl, where user = user and now = now]
    have s'_eq: "s' = leave_notify ''LEAVE_CANCELLED'' (leave_key r '':cancelled'')
        (set_request r ?f (post_cancellation q user now s))"
      using s' q True by (auto simp: cancel_leave_def row_or_throw_def Let_def live_status_def split: if_splits)
    have "request_ok (post_cancellation q user now s) (?f q)" using rq by (auto simp: request_ok_def)
    from decided_request [where f = ?f and s' = s', OF ok q eff(1) eff(4) eff(5,6) _ this] True eff(2,3,5)
    show ?thesis by (simp add: s'_eq unexplained_def available_days_def ledger_days_def used_days_def)
  qed
qed

lemma count_leave_days_ge: "n \<le> count_leave_days cur e hs offs n"
proof (induction cur e hs offs n rule: count_leave_days.induct)
  case (1 cur e hs offs n)
  show ?case
  proof (cases "cur \<le> e")
    case True
    from 1 [OF this] show ?thesis by (subst count_leave_days.simps) (auto split: if_splits)
  qed (subst count_leave_days.simps, simp)
qed

text \<open>The days of a request are whole or a half, and never negative.\<close>

lemma request_days_nonneg:
  assumes "ad_start dto \<le> ad_end dto"
  shows "0 \<le> request_days policy dto hs offs \<and> (\<exists>k. request_days policy dto hs offs = of_int k / 2)"
proof -
  have half: "\<exists>k. of_int n = (of_int k / 2 :: rat)" for n :: int by (rule exI [of _ "2 * n"]) simp
  have "0 \<le> calendar_days (ad_start dto) (ad_end dto)"
  proof -
    have "0 \<le> js_fl (of_int (ad_end dto - ad_start dto) / of_int DAY_MS)" using assms
      by (intro js.fl_nonneg) (simp add: DAY_MS_def)
    then have "0 \<le> half_up_int (js_fl (of_int (ad_end dto - ad_start dto) / of_int DAY_MS))"
      by (intro half_up.rnd_ge) simp
    then show ?thesis by (simp add: calendar_days_def)
  qed
  then show ?thesis
    using count_leave_days_ge [of 0 "ad_start dto" "ad_end dto" hs offs] half
    by (auto simp: request_days_def intro: exI [of _ 1])
qed

lemma days_col_half:
  assumes "fits_days_column x" and "x = of_int k / 2" and "0 \<le> x"
  shows "days_col x = x \<and> hundredths (days_col x)"
proof (cases "k \<le> 2 * 10 ^ 7")
  case True
  with assms have k: "\<bar>50 * k\<bar> \<le> 10 ^ 9" "\<bar>k\<bar> \<le> int 2 ^ 53" by simp_all
  have "cents (50 * k) = x" using js.fl_exact [OF k(2), of 1] assms(2) by (simp add: cents_def)
  with days_col_cents [OF k(1)] have eq: "days_col x = of_int (50 * k) / 100" by simp
  also have "\<dots> = x" using assms(2) by simp
  finally show ?thesis unfolding hundredths_def using k(1) eq by blast
next
  case False
  then have big: "10 ^ 7 \<le> x" using assms(2) by simp
  have "of_number x \<ge> 10 ^ 6"
  proof (cases x rule: of_number_cases)
    case 1
    with big show ?thesis by simp
  next
    case 2
    then have "x \<le> of_number x + \<bar>of_number x\<bar> / 10 ^ 15" using js_err [of "of_number x"] by linarith
    with big show ?thesis by (simp add: abs_if split: if_splits)
  qed
  then have "\<bar>days_col x\<bar> \<ge> 10 ^ 4"
    using half_up.rnd_ge [of "10 ^ 8" "\<bar>of_number x\<bar> * 100"]
    by (simp add: days_col_def half_up_places_def)
  with assms(1) show ?thesis by (simp add: fits_days_column_def)
qed

text \<open>What a served application adds: one request, pending, with the facts its guards checked.\<close>

lemma apply_leave_Inr:
  assumes "apply_leave r dto user now s = Inr s'"
  obtains emp t hs lop where
    "apply_guards dto user now s = Inr (emp, t, hs)"
    "decide_lop (to_event_policy t) emp
      (find_balance (le_id emp) (ad_type dto) (resolve_leave_year (ad_start dto) (ls_fy_start_month (lv_settings s))) s)
      dto (request_days (to_event_policy t) dto hs (ls_weekly_offs (lv_settings s))) s = Inr lop"
    "lop \<longrightarrow> ls_allow_lop (lv_settings s)"
    "fits_days_column (request_days (to_event_policy t) dto hs (ls_weekly_offs (lv_settings s)))"
    "lv_requests s' = lv_requests s @ [new_request r emp dto (to_event_policy t)
      (request_days (to_event_policy t) dto hs (ls_weekly_offs (lv_settings s))) lop (first_status (lv_settings s) emp)]"
    "lv_balances s' = lv_balances s" "lv_ledger s' = lv_ledger s" "lv_settings s' = lv_settings s"
    "lv_types s' = lv_types s" "lv_employees s' = lv_employees s"
proof -
  from assms obtain emp t hs where g: "apply_guards dto user now s = Inr (emp, t, hs)"
    by (auto simp: apply_leave_def and_then_Inr_iff)
  then obtain lop where "decide_lop (to_event_policy t) emp
      (find_balance (le_id emp) (ad_type dto) (resolve_leave_year (ad_start dto) (ls_fy_start_month (lv_settings s))) s)
      dto (request_days (to_event_policy t) dto hs (ls_weekly_offs (lv_settings s))) s = Inr lop"
    using assms by (auto simp: apply_leave_def and_then_Inr_iff Let_def)
  with assms g show thesis
    by (intro that [OF g]) (auto simp: apply_leave_def Let_def leave_notify_def schedule_escalation_def split: if_splits)
qed

lemma apply_guards_dates: "apply_guards dto user now s = Inr x \<Longrightarrow> ad_start dto \<le> ad_end dto"
  by (auto simp: apply_guards_def split: option.splits if_splits)

lemma apply_books:
  assumes ok: "books_ok s" and new: "find_request s r = None" and s': "apply_leave r dto user now s = Inr s'"
  shows "books_ok s' \<and> unexplained e t s' = unexplained e t s"
  using s'
proof (cases rule: apply_leave_Inr)
  case (1 emp ty hs lop)
  let ?days = "request_days (to_event_policy ty) dto hs (ls_weekly_offs (lv_settings s))"
  let ?q = "new_request r emp dto (to_event_policy ty) ?days lop (first_status (lv_settings s) emp)"
  obtain k where "0 \<le> ?days" "?days = of_int k / 2"
    using request_days_nonneg [OF apply_guards_dates [OF 1(1)]] by blast
  from days_col_half [OF 1(4) this(2,1)] this(1)
  have days: "days_col ?days = ?days" "hundredths (days_col ?days)" "0 \<le> days_col ?days" by auto
  have st: "lq_status ?q \<noteq> LEAVE_APPROVED" by (simp add: new_request_def first_status_def)
  have lop: "lop \<longrightarrow> to_event_policy ty = None"
    using 1(2) by (auto simp: decide_lop_def split: option.splits)
  have rq: "request_ok s ?q" using days st lop by (auto simp: request_ok_def new_request_def first_status_def)
  have "lq_id ?q \<notin> lq_id ` set (lv_requests s)" using new by (auto simp: find_request_def new_request_def)
  then show ?thesis
    using ok 1(5-8) rq st
    by (auto simp: books_ok_def balances_ok_def request_ok_same_books [OF 1(6,8)] unexplained_def available_days_def
        ledger_days_def used_days_def approved_days_def)
qed

lemma serve_books:
  assumes ok: "books_ok s" and ord: "orderly op s" and s': "serve op user now s = Inr s'"
  shows "books_ok s' \<and> unexplained e t s' = unexplained e t s"
proof (cases op)
  case (Apply r dto)
  with s' show ?thesis by (intro apply_books [OF ok]) (auto split: if_splits)
next
  case (AdjustBalance e' t' y d)
  with ord have n: "days_number d" and d: "0 \<le> d \<or> find_balance e' t' y s \<noteq> None" by simp_all
  from n obtain c where c: "hundredths c" "d = num c" by (rule days_numberE)
  have "0 \<le> c \<or> find_balance e' t' y s \<noteq> None" using d nonneg_num [OF c(1)] c(2) by blast
  moreover have "s' = post_movement e' t' y (add_accrued (num c)) (new_balance e' t' y (max (num c) 0) 0) (num c)
      HR_ADJUSTMENT (Some (sub user)) now s"
    using AdjustBalance s' c(2) by (simp add: adjust_balance_manual_def split: if_splits)
  ultimately show ?thesis by (rule movement_books [OF ok c(1)])
next
  case (CompOff e' d)
  have one: "num 1 = 1" "hundredths 1" unfolding num_def hundredths_def by (simp, rule exI [of _ 100], simp)
  show ?thesis
  proof (cases "s' = s")
    case False
    with CompOff s' obtain t' y where "s' = post_movement e' t' y (add_accrued (num 1))
        (new_balance e' t' y (max (num 1) 0) 0) (num 1) COMP_OFF_CREDIT None now s"
      unfolding one by (auto simp: credit_comp_off_def Let_def split: option.splits if_splits)
    from movement_books [OF ok one(2) _ this] show ?thesis by simp
  qed (simp add: ok)
next
  case (OvertimeCompOff e' d first)
  with ord have n: "days_number d" "0 \<le> d" by simp_all
  from n(1) obtain c where c: "hundredths c" "d = num c" by (rule days_numberE)
  with n(2) have "0 \<le> c" using nonneg_num by blast
  note c = c this
  then have max: "max (num c) 0 = num c" using num_nonneg by simp
  show ?thesis
  proof (cases "s' = s")
    case False
    with OvertimeCompOff s' c(2) obtain t' y where "s' = post_movement e' t' y (add_accrued (num c))
        (new_balance e' t' y (max (num c) 0) 0) (num c) COMP_OFF_CREDIT None now s"
      unfolding max by (auto simp: credit_overtime_comp_off_def Let_def split: option.splits)
    from movement_books [OF ok c(1) _ this] c(3) show ?thesis by simp
  qed (simp add: ok)
next
  case (Attach r)
  with s' have "\<exists>A. s' = s\<lparr>lv_attachments := A\<rparr>"
    by (auto simp: attach_leave_def and_then_Inr_iff split: if_splits)
  then show ?thesis using same_books [of s' s] ok by auto
next
  case (Approve r)
  with s' have "approve_leave r user now s = Inr s'" by simp
  then show ?thesis by (rule approve_books [OF ok])
next
  case (Reject r)
  with s' ord have "reject_leave r user s = Inr s'" "orderly (Reject r) s" by simp_all
  then show ?thesis by (intro reject_books [OF ok])
next
  case (Cancel r)
  with s' have "cancel_leave r user now s = Inr s'" by simp
  then show ?thesis by (rule cancel_books [OF ok])
next
  case (Escalate r level)
  with s' have "s' = escalate r level s" by simp
  then show ?thesis using escalate_books [OF ok] by simp
qed

section \<open>The books over any run of requests\<close>

definition orderly_step :: "leave_db \<Rightarrow> leave_db \<Rightarrow> bool" where
  "orderly_step s s' \<longleftrightarrow> (\<exists>op user now. orderly op s \<and> serve op user now s = Inr s')"

lemma orderly_steps_books:
  assumes "orderly_step\<^sup>*\<^sup>* s s'" and "books_ok s"
  shows "books_ok s' \<and> unexplained e t s' = unexplained e t s"
  using assms
proof (induction rule: rtranclp_induct)
  case (step u v)
  then obtain op user now where "orderly op u" "serve op user now u = Inr v" by (auto simp: orderly_step_def)
  from serve_books [OF _ this] step show ?case by simp
qed simp

text \<open>Serving a list of requests in turn.\<close>

fun serve_all :: "(leave_op \<times> auth_user \<times> date) list \<Rightarrow> leave_db \<Rightarrow> leave_db option" where
  "serve_all [] s = Some s"
| "serve_all ((op, user, now) # rs) s =
     (if orderly op s then case serve op user now s of Inl _ \<Rightarrow> None | Inr s1 \<Rightarrow> serve_all rs s1 else None)"

lemma serve_all_steps: "serve_all rs s = Some s' \<Longrightarrow> orderly_step\<^sup>*\<^sup>* s s'"
proof (induction rs s rule: serve_all.induct)
  case (2 op user now rs s)
  then obtain s1 where s1: "orderly op s" "serve op user now s = Inr s1" "orderly_step\<^sup>*\<^sup>* s1 s'"
    by (auto split: if_splits sum.splits)
  then have "orderly_step s s1" by (auto simp: orderly_step_def)
  then show ?case using s1(3) by (rule converse_rtranclp_into_rtranclp)
qed simp


text \<open>
  C9. The days used are the days on leave: the used days of an employee and a type are those of the
  approved requests that are not loss of pay, through any such sequence: an approval adds exactly
  its days, a cancellation of an approved request gives exactly those back, a second cancellation,
  an escalation or a rejection of a pending request changes nothing.
\<close>

theorem used_is_approved_leave:
  assumes "orderly_step\<^sup>*\<^sup>* s s'" and "books_ok s" and "used_days e t s = approved_days e t s"
  shows "used_days e t s' = approved_days e t s'"
  using orderly_steps_books [OF assms(1,2), of e t] assms(3) by (simp add: unexplained_def)

section \<open>A sample tenant\<close>

definition casual_leave :: leave_type_row where
  "casual_leave = \<lparr>lt_id = ''cl'', lt_name = ''Casual Leave'', lt_code = ''CL'', lt_annual_quota = 12,
     lt_carry_forward_cap = 5, lt_min_notice_days = 0, lt_active = True, lt_frequency = MONTHLY, lt_gender = ANY,
     lt_comp_off = False, lt_encashable = True, lt_restricted_holiday = False, lt_grant_mode = ACCRUED,
     lt_days_per_event = None, lt_reduced_days = None, lt_reduced_after = None, lt_calendar_days = False,
     lt_max_events = None, lt_event_label = None, lt_window_before = 0, lt_window_after = 0,
     lt_min_service_days = 0, lt_requires_document = False,
     lt_color = ''#2b5a8c'', lt_paid = True, lt_requires_approval = True, lt_statutory = False\<rparr>"

definition paternity_leave :: leave_type_row where
  "paternity_leave = casual_leave\<lparr>lt_id := ''pl'', lt_name := ''Paternity Leave'', lt_code := ''PL'',
     lt_annual_quota := 0, lt_gender := MALE, lt_encashable := False, lt_grant_mode := ON_EVENT,
     lt_days_per_event := Some 5, lt_max_events := Some 2, lt_event_label := Some ''Date of birth'',
     lt_window_after := 90\<rparr>"

definition sample_leave :: leave_db where
  "sample_leave = \<lparr>
     lv_settings = \<lparr>ls_approval_levels = 2, ls_single_approver = BY_HR, ls_escalation_days = 3, ls_allow_lop = True,
       ls_fy_start_month = 4, ls_weekly_offs = [0, 6], ls_go_live = None\<rparr>,
     lv_types = [casual_leave, paternity_leave],
     lv_employees = [\<lparr>le_id = ''e1'', le_gender = Some ''Male'', le_joined = Some (date_utc 2020 0 1),
         le_manager = Some ''m1'', le_separated = False\<rparr>,
       \<lparr>le_id = ''m1'', le_gender = None, le_joined = None, le_manager = None, le_separated = False\<rparr>],
     lv_holidays = [\<lparr>ho_id = ''h1'', ho_date = date_utc 2026 3 14, ho_name = ''Ambedkar Jayanti'', ho_optional = False\<rparr>],
     lv_balances = [\<lparr>lb_employee = ''e1'', lb_type = ''cl'', lb_year = 2026, lb_accrued = 12, lb_used = 0\<rparr>],
     lv_ledger = [\<lparr>ll_employee = ''e1'', ll_type = ''cl'', ll_occurred_at = date_utc 2026 3 1, ll_delta = 12,
       ll_balance_after = 12, ll_source = OPENING_BALANCE, ll_actor = None\<rparr>],
     lv_requests = [], lv_approvals = [], lv_attendance = [], lv_attachments = {}, lv_jobs = [], lv_outbox = []\<rparr>"

definition employee_user :: auth_user where
  "employee_user = \<lparr>sub = ''u1'', user_role = EMPLOYEE, user_employee = Some ''e1''\<rparr>"

definition manager_user :: auth_user where
  "manager_user = \<lparr>sub = ''u2'', user_role = LINE_MANAGER, user_employee = Some ''m1''\<rparr>"

definition hr_user :: auth_user where
  "hr_user = \<lparr>sub = ''u3'', user_role = HR_MANAGER, user_employee = None\<rparr>"

definition sample_now :: date where "sample_now = date_utc 2026 3 6"

definition sample_row :: "leave_status \<Rightarrow> leave_request_row" where
  "sample_row st = \<lparr>lq_id = ''r1'', lq_employee = ''e1'', lq_type = ''cl'', lq_start = date_utc 2026 3 13,
     lq_end = date_utc 2026 3 13, lq_days = 1, lq_half_day = False, lq_lop = False, lq_event_date = None,
     lq_status = st, lq_l1_approver = None, lq_l1_decided = None, lq_l2_approver = None, lq_l2_decided = None\<rparr>"

definition sample_with :: "leave_status \<Rightarrow> leave_db" where
  "sample_with st = sample_leave\<lparr>lv_requests := [sample_row st]\<rparr>"

definition served :: "leave_op \<Rightarrow> auth_user \<Rightarrow> leave_db \<Rightarrow> leave_db" where
  "served op user s = (case serve op user sample_now s of Inl _ \<Rightarrow> s | Inr s' \<Rightarrow> s')"

definition request_status :: "leave_db \<Rightarrow> id \<Rightarrow> leave_status option" where
  "request_status s r = (case find_request s r of None \<Rightarrow> None | Some q \<Rightarrow> Some (lq_status q))"

definition goes_through :: "leave_op \<Rightarrow> auth_user \<Rightarrow> leave_db \<Rightarrow> bool" where
  "goes_through op user s = (case serve op user sample_now s of Inl _ \<Rightarrow> False | Inr _ \<Rightarrow> True)"

lemma servedD: "goes_through op user s \<Longrightarrow> serve op user sample_now s = Inr (served op user s)"
  by (auto simp: goes_through_def served_def split: sum.splits)

lemmas sample_simps = find_request_def find_type_def row_or_throw_def Let_def sample_with_def sample_row_def
  sample_leave_def casual_leave_def hr_user_def employee_user_def is_admin_def

text \<open>One day of leave, approved by HR.\<close>

definition sample_approved :: leave_db where
  "sample_approved = served (Approve ''r1'') hr_user (sample_with PENDING_L2)"

lemma sample_approval: "goes_through (Approve ''r1'') hr_user (sample_with PENDING_L2)"
  by (simp add: goes_through_def approve_leave_def final_approve_def sample_simps)

lemma sample_steps: "orderly_step\<^sup>*\<^sup>* (sample_with PENDING_L2) sample_approved"
proof -
  have "orderly_step (sample_with PENDING_L2) sample_approved"
    using servedD [OF sample_approval] unfolding sample_approved_def orderly_step_def
    by (intro exI [of _ "Approve ''r1''"] exI [of _ hr_user] exI [of _ sample_now]) simp
  then show ?thesis by (rule r_into_rtranclp)
qed

lemma sample_books: "books_ok (sample_with PENDING_L2)"
proof -
  have "on_grid 12" unfolding on_grid_def by (rule exI [of _ 1200]) simp
  moreover have "hundredths 1" unfolding hundredths_def by (rule exI [of _ 100]) simp
  ultimately show ?thesis
    by (simp add: books_ok_def balances_ok_def request_ok_def sample_with_def sample_leave_def sample_row_def)
qed

lemma sample_balanced:
  "available_days ''e1'' ''cl'' (sample_with PENDING_L2) = ledger_days ''e1'' ''cl'' (sample_with PENDING_L2)"
  "used_days ''e1'' ''cl'' (sample_with PENDING_L2) = approved_days ''e1'' ''cl'' (sample_with PENDING_L2)"
  by (simp_all add: available_days_def ledger_days_def used_days_def approved_days_def sample_with_def sample_leave_def
      sample_row_def of_pair_def balance_value_def)


theorem used_is_approved_leave_witness:
  "used_days ''e1'' ''cl'' sample_approved = approved_days ''e1'' ''cl'' sample_approved"
  by (rule used_is_approved_leave [OF sample_steps sample_books sample_balanced(2)])

text \<open>
  Nothing stops the rejection of an approved request: the days it used stay used (and its
  attendance stays).
\<close>

lemma rejected_after_approval:
  fixes s :: leave_db
  defines "s \<equiv> (sample_with LEAVE_APPROVED)\<lparr>lv_balances :=
    [\<lparr>lb_employee = ''e1'', lb_type = ''cl'', lb_year = 2026, lb_accrued = 12, lb_used = 1\<rparr>]\<rparr>"
  shows "goes_through (Reject ''r1'') hr_user s" "used_days ''e1'' ''cl'' s = approved_days ''e1'' ''cl'' s"
    and "used_days ''e1'' ''cl'' (served (Reject ''r1'') hr_user s) = 1"
    and "approved_days ''e1'' ''cl'' (served (Reject ''r1'') hr_user s) = 0"
  by (simp_all add: s_def goes_through_def served_def reject_leave_def used_days_def approved_days_def of_pair_def sample_simps)

text \<open>A correction that takes days from a balance that does not exist writes the ledger only.\<close>

lemma correction_lost:
  "case serve (AdjustBalance ''e1'' ''pl'' 2026 (- 1)) hr_user sample_now sample_leave of
     Inl _ \<Rightarrow> False
   | Inr s \<Rightarrow> available_days ''e1'' ''pl'' s = 0 \<and> ledger_days ''e1'' ''pl'' s = - 1"
  by code_simp

end
