(* ===== verification/LeaveProperties.thy ===== *)
theory LeaveProperties
  imports LeaveBooks Lifecycle
begin

text \<open>
  The life of a leave request: who may move it, which statuses are final, the limits of event-based
  leave, and the attendance a decision writes.
\<close>

section \<open>How a request moves\<close>

definition single_manager :: "leave_db \<Rightarrow> bool" where
  "single_manager s \<longleftrightarrow> ls_approval_levels (lv_settings s) = 1 \<and> ls_single_approver (lv_settings s) = BY_MANAGER"

definition may_decide :: "leave_db \<Rightarrow> leave_request_row \<Rightarrow> auth_user \<Rightarrow> bool" where
  "may_decide s q user \<longleftrightarrow> is_reporting_manager s q user \<or> is_admin user"

definition may_cancel :: "leave_request_row \<Rightarrow> auth_user \<Rightarrow> bool" where
  "may_cancel q user \<longleftrightarrow> Some (lq_employee q) = user_employee user \<or> is_admin user"

inductive request_move :: "leave_db \<Rightarrow> leave_request_row \<Rightarrow> leave_op \<Rightarrow> auth_user \<Rightarrow> leave_status \<Rightarrow> bool" where
  first_level: "lq_status q = PENDING_L1 \<Longrightarrow> may_decide s q user \<Longrightarrow> \<not> single_manager s \<Longrightarrow>
    request_move s q (Approve (lq_id q)) user PENDING_L2"
| manager_final: "lq_status q = PENDING_L1 \<Longrightarrow> may_decide s q user \<Longrightarrow> single_manager s \<Longrightarrow>
    request_move s q (Approve (lq_id q)) user LEAVE_APPROVED"
| hr_final: "lq_status q = PENDING_L2 \<Longrightarrow> is_admin user \<Longrightarrow>
    request_move s q (Approve (lq_id q)) user LEAVE_APPROVED"
| rejected: "may_decide s q user \<Longrightarrow> request_move s q (Reject (lq_id q)) user LEAVE_REJECTED"
| cancelled: "may_cancel q user \<Longrightarrow> request_move s q (Cancel (lq_id q)) user LEAVE_CANCELLED"
| escalated: "lq_status q = PENDING_L1 \<Longrightarrow> request_move s q (Escalate (lq_id q) 1) user PENDING_L2"

inductive_cases request_move_approvedE: "request_move s q op user LEAVE_APPROVED"
inductive_cases request_move_pendingE: "request_move s q op user PENDING_L2"
inductive_simps request_move_L1 [simp]: "request_move s q op user PENDING_L1"

definition request_facts :: "leave_request_row \<Rightarrow> id \<times> id \<times> id \<times> date \<times> date \<times> decimal \<times> bool \<times> bool \<times> date option" where
  "request_facts q = (lq_id q, lq_employee q, lq_type q, lq_start q, lq_end q, lq_days q, lq_half_day q, lq_lop q, lq_event_date q)"

lemma request_factsD:
  assumes "request_facts q' = request_facts q"
  shows "lq_id q' = lq_id q" "lq_employee q' = lq_employee q" "lq_type q' = lq_type q" "lq_start q' = lq_start q"
    "lq_end q' = lq_end q" "lq_days q' = lq_days q" "lq_lop q' = lq_lop q" "lq_event_date q' = lq_event_date q"
  using assms by (simp_all add: request_facts_def)

text \<open>A status change: the row with the id gets the status and keeps what was asked for.\<close>

definition moves_to :: "leave_db \<Rightarrow> leave_db \<Rightarrow> id \<Rightarrow> leave_status \<Rightarrow> bool" where
  "moves_to s s' r st \<longleftrightarrow> (\<exists>f. lv_requests s' = update_rows (\<lambda>q. lq_id q = r) f (lv_requests s)
     \<and> (\<forall>q. request_facts (f q) = request_facts q \<and> lq_status (f q) = st))"

lemma moves_toI:
  assumes "lv_requests s' = update_rows (\<lambda>q. lq_id q = r) f (lv_requests s)"
    and "\<And>q. request_facts (f q) = request_facts q \<and> lq_status (f q) = st"
  shows "moves_to s s' r st"
  using assms unfolding moves_to_def by blast

lemma post_approval_tables [simp]:
  "lv_requests (post_approval q t user now s) = lv_requests s" "lv_types (post_approval q t user now s) = lv_types s"
  "lv_settings (post_approval q t user now s) = lv_settings s"
  by (simp_all add: post_approval_def Let_def grant_event_days_def adjust_used_days_def)

lemma post_cancellation_tables [simp]:
  "lv_requests (post_cancellation q user now s) = lv_requests s" "lv_types (post_cancellation q user now s) = lv_types s"
  "lv_settings (post_cancellation q user now s) = lv_settings s"
  by (simp_all add: post_cancellation_def Let_def grant_event_days_def adjust_used_days_def)

lemma final_approve_moves:
  assumes "final_approve q level user now s = Inr s'"
  shows "moves_to s s' (lq_id q) LEAVE_APPROVED"
    and "\<exists>t. find_type s (lq_type q) = Some t \<and> (lt_grant_mode t = ON_EVENT \<and> lt_requires_document t
      \<longrightarrow> lq_id q \<in> lv_attachments s)"
  using assms
  by (auto simp: final_approve_def and_then_Inr_iff request_facts_def mark_approved_def split: if_splits
      intro!: moves_toI)

text \<open>What serving a request does to the requests' table.\<close>

lemma serve_requests:
  assumes "serve op user now s = Inr s'"
  shows "lv_requests s' = lv_requests s
    \<or> (\<exists>r dto. op = Apply r dto \<and> find_request s r = None \<and> apply_leave r dto user now s = Inr s')
    \<or> (\<exists>r q st. find_request s r = Some q \<and> request_move s q op user st \<and> moves_to s s' r st)"
proof (cases op)
  case (Apply r dto)
  with assms show ?thesis by (auto split: if_splits)
next
  case (Approve r)
  with assms obtain q where q: "find_request s r = Some q" by (auto simp: approve_leave_def and_then_Inr_iff)
  have id: "lq_id q = r" using q find_row_SomeD unfolding find_request_def by fastforce
  from Approve assms have "approve_leave r user now s = Inr s'" by simp
  from approve_leave_cases [OF this q] consider
      (final1) "lq_status q = PENDING_L1" "may_decide s q user" "single_manager s" "final_approve q 1 user now s = Inr s'"
    | (first) "lq_status q = PENDING_L1" "may_decide s q user" "\<not> single_manager s" "s' = approve_first_level q user now s"
    | (final2) "lq_status q = PENDING_L2" "is_admin user" "final_approve q 2 user now s = Inr s'"
    unfolding may_decide_def single_manager_def by (auto split: if_split_asm)
  then show ?thesis
  proof cases
    case first
    have "moves_to s s' r PENDING_L2"
      unfolding first(4) approve_first_level_def id by (rule moves_toI) (auto simp: request_facts_def)
    moreover have "request_move s q op user PENDING_L2"
      using first_level [OF first(1-3)] by (simp add: Approve id)
    ultimately show ?thesis using q by blast
  next
    case final1
    have "request_move s q op user LEAVE_APPROVED" using manager_final [OF final1(1-3)] by (simp add: Approve id)
    then show ?thesis using final_approve_moves(1) [OF final1(4)] q unfolding id by blast
  next
    case final2
    have "request_move s q op user LEAVE_APPROVED" using hr_final [OF final2(1,2)] by (simp add: Approve id)
    then show ?thesis using final_approve_moves(1) [OF final2(3)] q unfolding id by blast
  qed
next
  case (Reject r)
  with assms obtain q where q: "find_request s r = Some q" "may_decide s q user"
    and s': "lv_requests s' = update_rows (\<lambda>q. lq_id q = r) (\<lambda>x. x\<lparr>lq_status := LEAVE_REJECTED\<rparr>) (lv_requests s)"
    by (auto simp: reject_leave_def and_then_Inr_iff may_decide_def split: if_splits)
  have id: "lq_id q = r" using q(1) find_row_SomeD unfolding find_request_def by fastforce
  have "moves_to s s' r LEAVE_REJECTED" using s' by (rule moves_toI) (simp add: request_facts_def)
  moreover have "request_move s q op user LEAVE_REJECTED" using rejected [OF q(2)] by (simp add: Reject id)
  ultimately show ?thesis using q(1) by blast
next
  case (Cancel r)
  with assms obtain q where q: "find_request s r = Some q" "may_cancel q user"
    and s': "lv_requests s' = update_rows (\<lambda>q. lq_id q = r) (\<lambda>x. x\<lparr>lq_status := LEAVE_CANCELLED\<rparr>) (lv_requests s)"
    by (auto simp: cancel_leave_def and_then_Inr_iff may_cancel_def Let_def split: if_splits)
  have id: "lq_id q = r" using q(1) find_row_SomeD unfolding find_request_def by fastforce
  have "moves_to s s' r LEAVE_CANCELLED" using s' by (rule moves_toI) (simp add: request_facts_def)
  moreover have "request_move s q op user LEAVE_CANCELLED" using cancelled [OF q(2)] by (simp add: Cancel id)
  ultimately show ?thesis using q(1) by blast
next
  case (Escalate r level)
  with assms have s': "s' = escalate r level s" by simp
  show ?thesis
  proof (cases "\<exists>q. find_request s r = Some q \<and> lq_status q = PENDING_L1 \<and> level = 1")
    case True
    then obtain q where q: "find_request s r = Some q" "lq_status q = PENDING_L1" "level = 1" by blast
    have id: "lq_id q = r" using q(1) find_row_SomeD unfolding find_request_def by fastforce
    have "lv_requests s' = update_rows (\<lambda>q. lq_id q = r) (\<lambda>x. x\<lparr>lq_status := PENDING_L2\<rparr>) (lv_requests s)"
      using q by (simp add: s' escalate_def)
    then have "moves_to s s' r PENDING_L2" by (rule moves_toI) (simp add: request_facts_def)
    moreover have "request_move s q op user PENDING_L2"
      using escalated [OF q(2)] q(3) by (simp add: Escalate id)
    ultimately show ?thesis using q(1) by blast
  next
    case False
    then have "lv_requests s' = lv_requests s" by (auto simp: s' escalate_def split: option.splits)
    then show ?thesis by simp
  qed
next
  case (Attach r)
  with assms show ?thesis by (auto simp: attach_leave_def and_then_Inr_iff split: if_splits)
next
  case (CompOff e d)
  with assms show ?thesis by (auto simp: credit_comp_off_def Let_def split: option.splits if_splits)
next
  case (OvertimeCompOff e d first)
  with assms show ?thesis by (auto simp: credit_overtime_comp_off_def Let_def split: option.splits if_splits)
next
  case (AdjustBalance e t y d)
  with assms show ?thesis by (auto simp: adjust_balance_manual_def split: if_splits)
qed

section \<open>Closed requests\<close>

definition closed_status :: "leave_status \<Rightarrow> bool" where
  "closed_status st \<longleftrightarrow> st = LEAVE_REJECTED \<or> st = LEAVE_CANCELLED"

lemma closed_not_live: "closed_status st \<longleftrightarrow> \<not> live_status st"
  by (cases st) (simp_all add: closed_status_def live_status_def)

definition status_of_request :: "leave_db \<Rightarrow> id \<Rightarrow> leave_status option" where
  "status_of_request s r = map_option lq_status (find_request s r)"

lemma moves_to_find:
  assumes "moves_to s s' r st"
  shows "find_request s r = Some q \<Longrightarrow> \<exists>q'. find_request s' r = Some q' \<and> request_facts q' = request_facts q \<and> lq_status q' = st"
    and "k \<noteq> r \<Longrightarrow> find_request s' k = find_request s k"
proof -
  obtain f where f: "lv_requests s' = update_rows (\<lambda>q. lq_id q = r) f (lv_requests s)"
    "request_facts (f q) = request_facts q" "lq_status (f q) = st" for q
    using assms by (auto simp: moves_to_def)
  have id: "lq_id (f q) = lq_id q" for q using f(2) by (rule request_factsD)
  show "\<exists>q'. find_request s' r = Some q' \<and> request_facts q' = request_facts q \<and> lq_status q' = st"
    if "find_request s r = Some q"
    using that f(2,3) unfolding find_request_def f(1) by (subst find_row_update_same) (simp_all add: id)
  show "find_request s' k = find_request s k" if "k \<noteq> r"
    using that unfolding find_request_def f(1) by (intro find_row_update_other) (auto simp: id)
qed

lemma request_move_from_live:
  "request_move s q op user st \<Longrightarrow> live_status st \<Longrightarrow> live_status (lq_status q)"
  by (induction rule: request_move.induct) (auto simp: live_status_def)

lemma apply_requests:
  assumes "apply_leave r dto user now s = Inr s'"
  shows "\<exists>q. lv_requests s' = lv_requests s @ [q]"
  using assms by (cases rule: apply_leave_Inr) auto

text \<open>A step keeps what a request asks for, and a closed status.\<close>

lemma step_keeps_request:
  assumes "leave_step s s'" and "find_request s k = Some q"
  shows "\<exists>q'. find_request s' k = Some q' \<and> request_facts q' = request_facts q
    \<and> (closed_status (lq_status q) \<longrightarrow> closed_status (lq_status q'))"
proof -
  obtain op user now where "serve op user now s = Inr s'" using assms(1) by (auto simp: leave_step_def)
  from serve_requests [OF this] consider (same) "lv_requests s' = lv_requests s"
    | (new) r dto where "apply_leave r dto user now s = Inr s'"
    | (move) r z st where "find_request s r = Some z" "request_move s z op user st" "moves_to s s' r st"
    by blast
  then show ?thesis
  proof cases
    case same
    then show ?thesis using assms(2) by (simp add: find_request_def)
  next
    case new
    from apply_requests [OF this] obtain x where "lv_requests s' = lv_requests s @ [x]" by blast
    then have "find_request s' k = Some q" using assms(2) by (simp add: find_request_def find_row_append)
    then show ?thesis by simp
  next
    case move
    show ?thesis
    proof (cases "k = r")
      case True
      with move(1) assms(2) have "z = q" by simp
      with moves_to_find(1) [OF move(3)] move(2) assms(2) True request_move_from_live [OF move(2)]
      show ?thesis by (auto simp: closed_not_live)
    next
      case False
      with moves_to_find(2) [OF move(3)] assms(2) show ?thesis by simp
    qed
  qed
qed

interpretation closed_requests: absorbing_states leave_step status_of_request closed_status
proof
  fix s s' k a
  assume "leave_step s s'" and "status_of_request s k = Some a" and "closed_status a"
  then show "\<exists>b. status_of_request s' k = Some b \<and> closed_status b"
    using step_keeps_request by (force simp: status_of_request_def)
qed

lemma steps_keep_request:
  assumes "leave_step\<^sup>*\<^sup>* s s'" and "find_request s k = Some q"
  shows "\<exists>q'. find_request s' k = Some q' \<and> request_facts q' = request_facts q"
  using assms
proof (induction rule: rtranclp_induct)
  case (step u v)
  then obtain x where "find_request u k = Some x" "request_facts x = request_facts q" by blast
  with step_keeps_request [OF step.hyps(2)] show ?case by metis
qed blast

text \<open>
  C12. A rejected or cancelled request is over: whatever is served afterwards, the request is still
  there, asks for the same leave (who, what type, which dates and days, loss of pay or not), and is
  never pending or approved again.
\<close>

theorem closed_request_stays_closed:
  assumes "leave_step\<^sup>*\<^sup>* s s'" and "find_request s r = Some q"
    and "lq_status q = LEAVE_REJECTED \<or> lq_status q = LEAVE_CANCELLED"
  shows "\<exists>q'. find_request s' r = Some q' \<and> request_facts q' = request_facts q
    \<and> (lq_status q' = LEAVE_REJECTED \<or> lq_status q' = LEAVE_CANCELLED)"
proof -
  obtain q' where q': "find_request s' r = Some q'" "request_facts q' = request_facts q"
    using steps_keep_request [OF assms(1,2)] by blast
  have "status_of_request s r = Some (lq_status q)" using assms(2) by (simp add: status_of_request_def)
  from closed_requests.closed_forever [OF assms(1) this] assms(3) q'
  show ?thesis by (auto simp: closed_status_def status_of_request_def)
qed


section \<open>Samples\<close>

lemma servedI: "goes_through op user s \<Longrightarrow> leave_step s (served op user s)"
  using servedD [of op user s] by (auto simp: leave_step_def)

lemma request_statusD: "request_status s r = Some st \<Longrightarrow> \<exists>q. find_request s r = Some q \<and> lq_status q = st"
  by (auto simp: request_status_def split: option.splits)

lemma sample_statuses:
  "goes_through (Cancel ''r1'') employee_user (sample_with LEAVE_REJECTED)"
  "request_status (sample_with LEAVE_REJECTED) ''r1'' = Some LEAVE_REJECTED"
  "goes_through (Approve ''r1'') hr_user (sample_with PENDING_L2)"
  "request_status (sample_with PENDING_L2) ''r1'' = Some PENDING_L2"
  "request_status (served (Approve ''r1'') hr_user (sample_with PENDING_L2)) ''r1'' = Some LEAVE_APPROVED"
  by (simp_all add: goes_through_def served_def request_status_def cancel_leave_def approve_leave_def final_approve_def
      find_request_def find_type_def row_or_throw_def Let_def sample_with_def sample_row_def sample_leave_def
      casual_leave_def hr_user_def employee_user_def is_admin_def live_status_def mark_approved_def)

theorem closed_request_stays_closed_witness:
  "\<exists>q'. find_request (served (Cancel ''r1'') employee_user (sample_with LEAVE_REJECTED)) ''r1'' = Some q'
    \<and> (lq_status q' = LEAVE_REJECTED \<or> lq_status q' = LEAVE_CANCELLED)"
proof -
  have "leave_step\<^sup>*\<^sup>* (sample_with LEAVE_REJECTED) (served (Cancel ''r1'') employee_user (sample_with LEAVE_REJECTED))"
    using servedI [OF sample_statuses(1)] by (rule r_into_rtranclp)
  moreover obtain q where "find_request (sample_with LEAVE_REJECTED) ''r1'' = Some q" "lq_status q = LEAVE_REJECTED"
    using request_statusD [OF sample_statuses(2)] by blast
  ultimately show ?thesis using closed_request_stays_closed by blast
qed


text \<open>
  An employee without a reporting manager and a line manager whose account has no employee record:
  both references are \<open>null\<close>, they compare equal, and the stranger may reject the request.
\<close>

lemma stranger_rejects:
  "goes_through (Reject ''r1'') \<lparr>sub = ''u9'', user_role = LINE_MANAGER, user_employee = None\<rparr>
    ((sample_with PENDING_L1)\<lparr>lv_employees := [\<lparr>le_id = ''e1'', le_gender = None, le_joined = None, le_manager = None, le_separated = False\<rparr>]\<rparr>)"
  by (simp add: goes_through_def reject_leave_def find_request_def row_or_throw_def is_reporting_manager_def
      find_employee_def sample_with_def sample_row_def)

end
