(* ===== verification/EventLimits.thy ===== *)
theory EventLimits
  imports LeaveProperties
begin

text \<open>
  The limits of event-based leave hold over any sequence of requests: the days taken for one event
  stay within the type's allowance, and the number of events within its limit. Requests with the
  same event date share the allowance; only pending and approved requests count.
\<close>

section \<open>Days of an event\<close>

definition for_event :: "id \<Rightarrow> id \<Rightarrow> int \<Rightarrow> leave_request_row \<Rightarrow> bool" where
  "for_event e t d q \<longleftrightarrow> lq_employee q = e \<and> lq_type q = t \<and> live_status (lq_status q) \<and> event_day q = Some d"

definition event_days :: "id \<Rightarrow> id \<Rightarrow> int \<Rightarrow> leave_db \<Rightarrow> decimal" where
  "event_days e t d s = total (\<lambda>q. if for_event e t d q then lq_days q else 0) (lv_requests s)"

definition live_events :: "id \<Rightarrow> id \<Rightarrow> leave_db \<Rightarrow> int set" where
  "live_events e t s = {d. \<exists>q \<in> set (lv_requests s). for_event e t d q}"

definition column_or_zero :: "decimal option \<Rightarrow> decimal" where
  "column_or_zero d = (case d of None \<Rightarrow> 0 | Some x \<Rightarrow> x)"

definition largest_allowance :: "leave_type_row \<Rightarrow> decimal" where
  "largest_allowance t = max (column_or_zero (lt_days_per_event t)) (column_or_zero (lt_reduced_days t))"

text \<open>The tables' types: distinct ids, days in halves, allowances in hundredths.\<close>

definition half_days :: "decimal \<Rightarrow> bool" where
  "half_days x \<longleftrightarrow> 0 \<le> x \<and> (\<exists>k. x = of_int k / 2)"

definition requests_typed :: "leave_db \<Rightarrow> bool" where
  "requests_typed s \<longleftrightarrow> distinct (map lq_id (lv_requests s)) \<and> (\<forall>q \<in> set (lv_requests s). half_days (lq_days q))"

definition type_typed :: "leave_type_row \<Rightarrow> bool" where
  "type_typed t \<longleftrightarrow> hundredths (column_or_zero (lt_days_per_event t)) \<and> hundredths (column_or_zero (lt_reduced_days t))
     \<and> 0 \<le> column_or_zero (lt_days_per_event t) \<and> 0 \<le> column_or_zero (lt_reduced_days t)"

lemma half_days_add: "half_days x \<Longrightarrow> half_days y \<Longrightarrow> half_days (x + y)"
  unfolding half_days_def by (auto simp: add_divide_distrib [symmetric] intro: exI [of _ "j + k" for j k])

lemma half_days_0 [simp]: "half_days 0"
  unfolding half_days_def by (auto intro: exI [of _ 0])

lemma js_fl_half:
  assumes "half_days x" and "x \<le> 10 ^ 7"
  shows "js_fl x = x"
proof -
  obtain k where k: "x = of_int k / 2" "0 \<le> x" using assms(1) by (auto simp: half_days_def)
  then have "(of_int \<bar>k\<bar> :: rat) \<le> of_int (2 * 10 ^ 7)" using assms(2) by simp
  then have "\<bar>k\<bar> \<le> 2 * 10 ^ 7" unfolding of_int_le_iff .
  then have "\<bar>k\<bar> \<le> int 2 ^ 53" by simp
  from js.fl_exact [OF this, of 1] show ?thesis by (simp add: k)
qed

text \<open>The double sum of the days already taken is exact while it stays in range.\<close>

lemma total_nonneg: "(\<And>r. r \<in> set t \<Longrightarrow> 0 \<le> g r) \<Longrightarrow> 0 \<le> total g t"
  unfolding total_def by (rule sum_list_nonneg) auto

lemma add_days_exact:
  assumes "\<forall>q \<in> set qs. half_days (lq_days q)" and "half_days acc" and "acc + total lq_days qs \<le> 10 ^ 7"
  shows "foldl add_days acc qs = acc + total lq_days qs"
  using assms
proof (induction qs arbitrary: acc)
  case (Cons q qs)
  have rest: "0 \<le> total lq_days qs" using Cons.prems(1) by (intro total_nonneg) (auto simp: half_days_def)
  have q: "half_days (lq_days q)" "0 \<le> acc" "0 \<le> lq_days q"
    using Cons.prems(1,2) by (auto simp: half_days_def)
  have sum: "half_days (acc + lq_days q)" using half_days_add [OF Cons.prems(2) q(1)] .
  have "num (lq_days q) = lq_days q"
    unfolding num_def using Cons.prems(3) rest q by (intro js_fl_half [OF q(1)]) simp
  moreover have "js_fl (acc + lq_days q) = acc + lq_days q"
    using Cons.prems(3) rest by (intro js_fl_half [OF sum]) simp
  ultimately have "add_days acc q = acc + lq_days q" by (simp add: add_days_def)
  with Cons.IH [of "acc + lq_days q"] Cons.prems sum show ?case by (simp add: add.assoc)
qed simp

lemma half_days_total: "\<forall>q \<in> set qs. half_days (lq_days q) \<Longrightarrow> half_days (total lq_days qs)"
  by (induction qs) (auto intro: half_days_add)

lemma total_filter: "total g (filter p t) = total (\<lambda>r. if p r then g r else 0) t"
  by (induction t) auto

lemma total_cong: "(\<And>r. r \<in> set t \<Longrightarrow> g r = h r) \<Longrightarrow> total g t = total h t"
  by (simp add: total_def cong: map_cong)

text \<open>A request that fits what is left of an allowance keeps the sum within it.\<close>

lemma fits_allowance:
  assumes a: "hundredths a" "0 \<le> a" and t: "half_days taken" "taken \<le> b" and b: "a \<le> b" "hundredths b"
    and d: "half_days days" "days \<le> max 0 (js_fl (num a - taken))"
  shows "taken + days \<le> b"
proof (cases "days = 0")
  case False
  obtain i where i: "a = of_int i / 100" "\<bar>i\<bar> \<le> 10 ^ 9" using a(1) by (auto simp: hundredths_def)
  obtain k where k: "b = of_int k / 100" "\<bar>k\<bar> \<le> 10 ^ 9" using b(2) by (auto simp: hundredths_def)
  obtain j where j: "taken = of_int (50 * j) / 100" "0 \<le> taken" using t(1) by (auto simp: half_days_def)
  obtain m where m: "days = of_int (50 * m) / 100" "0 \<le> days" using d(1) by (auto simp: half_days_def)
  have "of_int (50 * j) \<le> (of_int k :: rat)" using t(2) j k by simp
  then have "50 * j \<le> k" unfolding of_int_le_iff .
  moreover have "0 \<le> 50 * j" using j by simp
  ultimately have jb: "\<bar>50 * j\<bar> \<le> 10 ^ 9" using k(2) by simp
  have "close_to taken (50 * j)" by (simp add: close_to_def j)
  then have "about (js_fl (num a - taken)) (i - 50 * j)"
    unfolding i(1) num_cents by (intro about_diff close_cents i(2) jb)
  moreover have "days \<le> js_fl (num a - taken)" using d(2) m(2) False by (auto simp: max_def split: if_splits)
  ultimately have "of_int (50 * m) - of_int (i - 50 * j) \<le> (1 / 10 :: rat)"
    unfolding about_def m(1) abs_le_iff by (simp add: diff_divide_distrib)
  then have "(of_int (50 * m - (i - 50 * j)) :: rat) < of_int 1" by simp
  then have "50 * m - (i - 50 * j) < 1" unfolding of_int_less_iff .
  then have "of_int (50 * m + 50 * j) \<le> (of_int i :: rat)" unfolding of_int_le_iff by simp
  then have "taken + days \<le> a" unfolding i(1) j(1) m(1) by (simp add: field_simps)
  with b(1) show ?thesis by simp
qed (use t in simp)

section \<open>The steps\<close>

lemma event_day_facts: "request_facts q' = request_facts q \<Longrightarrow> event_day q' = event_day q"
  unfolding event_day_def by (drule request_factsD(8)) simp

text \<open>A move of one request never adds to an event: only a live request moves to a live status.\<close>

lemma move_events:
  assumes typed: "requests_typed s" and r: "find_request s r = Some z" and m: "request_move s z op user st"
    and mv: "moves_to s s' r st"
  shows "requests_typed s'" and "event_days e t d s' \<le> event_days e t d s" and "live_events e t s' \<subseteq> live_events e t s"
proof -
  obtain f where f: "lv_requests s' = update_rows (\<lambda>q. lq_id q = r) f (lv_requests s)"
    "request_facts (f q) = request_facts q" "lq_status (f q) = st" for q
    using mv by (auto simp: moves_to_def)
  note facts = request_factsD [OF f(2)]
  have dist: "distinct (map lq_id (lv_requests s))" and days: "\<forall>q \<in> set (lv_requests s). half_days (lq_days q)"
    using typed by (simp_all add: requests_typed_def)
  have z: "find_row (\<lambda>q. lq_id q = r) (lv_requests s) = Some z" using r by (simp add: find_request_def)
  then have zin: "z \<in> set (lv_requests s)" "lq_id z = r" using find_row_SomeD by fastforce+
  have only: "q = z" if "q \<in> set (lv_requests s)" "lq_id q = r" for q
    using dist that zin by (auto simp: distinct_map dest: inj_onD)
  have "map lq_id (lv_requests s') = map lq_id (lv_requests s)" unfolding f(1) by (simp add: map_update_rows facts)
  then show "requests_typed s'"
    using dist days by (auto simp: requests_typed_def f(1) in_set_update_rows facts)
  have live: "for_event e t d (f z) \<Longrightarrow> for_event e t d z" for d
    using request_move_from_live [OF m] by (auto simp: for_event_def facts f(3) event_day_facts [OF f(2)])
  have "0 \<le> lq_days z" using days zin by (auto simp: half_days_def)
  then show "event_days e t d s' \<le> event_days e t d s"
    unfolding event_days_def f(1) total_update_row [OF dist z] using live [of d] by (auto simp: facts)
  show "live_events e t s' \<subseteq> live_events e t s"
  proof
    fix d assume "d \<in> live_events e t s'"
    then obtain q where "q \<in> set (lv_requests s)" "for_event e t d (if lq_id q = r then f q else q)"
      by (auto simp: live_events_def f(1) in_set_update_rows)
    then have "q \<in> set (lv_requests s) \<and> for_event e t d q" using live [of d] only [of q] by (auto split: if_splits)
    then show "d \<in> live_events e t s" by (auto simp: live_events_def)
  qed
qed

lemma set_map_filter: "set (List.map_filter f xs) = {y. \<exists>x \<in> set xs. f x = Some y}"
  by (force simp: List.map_filter_def)

lemma active_events: "set (List.map_filter event_day (event_requests e t s)) = live_events e t s"
  by (auto simp: set_map_filter event_requests_def live_events_def for_event_def)

lemma finite_live_events: "finite (live_events e t s)"
  unfolding active_events [symmetric] by simp

lemma already_taken:
  "total lq_days (filter (\<lambda>q. event_day q = Some d) (event_requests e t s)) = event_days e t d s"
  unfolding total_filter event_requests_def event_days_def for_event_def by (rule total_cong) simp

text \<open>The allowance the code picks is one of the two columns.\<close>

lemma num_0 [simp]: "num 0 = 0"
  by (simp add: num_def)

lemma event_allowance_column:
  assumes "to_event_policy ty = Some p" and "type_typed ty"
  obtains a where "event_allowance p n = num a" "hundredths a" "0 \<le> a" "a \<le> largest_allowance ty"
proof (cases "lt_reduced_days ty \<noteq> None \<and> (\<exists>m. lt_reduced_after ty = Some m \<and> m \<le> int n)")
  case True
  then show thesis
    using assms that [of "column_or_zero (lt_reduced_days ty)"]
    by (auto simp: to_event_policy_def event_allowance_def type_typed_def column_or_zero_def largest_allowance_def
        split: if_splits)
next
  case False
  then have "event_allowance p n = num (column_or_zero (lt_days_per_event ty))"
    using assms(1) by (auto simp: to_event_policy_def event_allowance_def column_or_zero_def
        split: if_splits option.splits)
  then show thesis
    using assms(2) that [of "column_or_zero (lt_days_per_event ty)"]
    by (simp add: type_typed_def largest_allowance_def)
qed

lemma apply_guards_type: "apply_guards dto user now s = Inr (emp, t, hs) \<Longrightarrow> find_type s (ad_type dto) = Some t"
  by (auto simp: apply_guards_def Let_def and_then_Inr_iff split: option.splits if_splits)

lemma event_request_ok:
  assumes "event_request_problem i = None"
  obtains ev where "er_event i = Some ev" "limit_problem i ev = None" "allowance_problem i ev = None"
  using assms by (auto simp: event_request_problem_def first_problem_None split: option.splits if_splits)

lemma largest_bound: "type_typed ty \<Longrightarrow> hundredths (largest_allowance ty) \<and> largest_allowance ty \<le> 10 ^ 7"
proof -
  assume "type_typed ty"
  then have h: "hundredths (largest_allowance ty)" by (simp add: type_typed_def largest_allowance_def max_def)
  then obtain k where k: "largest_allowance ty = of_int k / 100" "\<bar>k\<bar> \<le> 10 ^ 9" by (auto simp: hundredths_def)
  then have "(of_int k :: rat) \<le> of_int (10 ^ 9)" unfolding of_int_le_iff by simp
  then have "largest_allowance ty \<le> 10 ^ 7" using k(1) by simp
  with h show ?thesis ..
qed

text \<open>What an accepted application asks for, when it is for an event of a type.\<close>

lemma accepted_event:
  assumes typed: "requests_typed s" "type_typed ty" "find_type s t = Some ty"
    and ap: "apply_leave r dto user now s = Inr s'"
    and taken: "event_days e t d s \<le> largest_allowance ty"
  obtains (other) q where "lv_requests s' = lv_requests s @ [q]" "lq_id q = r" "half_days (lq_days q)" "\<not> for_event e t d q"
  | (event) q where "lv_requests s' = lv_requests s @ [q]" "lq_id q = r" "half_days (lq_days q)" "for_event e t d q"
      "event_days e t d s + lq_days q \<le> largest_allowance ty"
      "\<forall>m. lt_max_events ty = Some m \<longrightarrow> d \<in> live_events e t s \<or> int (card (live_events e t s)) < m"
  using ap
proof (cases rule: apply_leave_Inr)
  case (1 emp ty' hs lop)
  let ?policy = "to_event_policy ty'"
  let ?days = "request_days ?policy dto hs (ls_weekly_offs (lv_settings s))"
  define q where "q = new_request r emp dto ?policy ?days lop (first_status (lv_settings s) emp)"
  obtain k where "0 \<le> ?days" "?days = of_int k / 2"
    using request_days_nonneg [OF apply_guards_dates [OF 1(1)]] by blast
  moreover from days_col_half [OF 1(4) this(2,1)] have col: "days_col ?days = ?days" by simp
  ultimately have half: "half_days ?days" "lq_days q = ?days" by (auto simp: half_days_def q_def new_request_def)
  have rows: "lv_requests s' = lv_requests s @ [q]" and id: "lq_id q = r" using 1(5) by (simp_all add: q_def new_request_def)
  show thesis
  proof (cases "for_event e t d q")
    case False
    with rows id half show thesis by (intro other) simp_all
  next
    case True
    have "lq_employee q = e" "lq_type q = t" and ed: "event_day q = Some d" using True by (simp_all add: for_event_def)
    then have et: "le_id emp = e" "ad_type dto = t" by (simp_all add: q_def new_request_def)
    have ty': "ty' = ty" using apply_guards_type [OF 1(1)] typed(3) et by simp
    obtain p where p: "?policy = Some p" using ed by (auto simp: q_def new_request_def event_day_def split: if_splits)
    obtain ev0 where ev0: "ad_event_date dto = Some ev0" "iso_day ev0 = d"
      using ed p by (auto simp: q_def new_request_def event_day_def)
    let ?i = "event_request_of p emp dto ?days (event_requests e t s)"
    have "event_request_problem ?i = None" using 1(2) p et by (auto simp: decide_lop_def split: option.splits)
    then obtain ev where ev: "er_event ?i = Some ev" "limit_problem ?i ev = None" "allowance_problem ?i ev = None"
      by (rule event_request_ok)
    have evd: "ev = ev0" using ev(1) ev0 by (simp add: event_request_of_def)
    have halves: "\<forall>q \<in> set (lv_requests s). half_days (lq_days q)" using typed(1) by (simp add: requests_typed_def)
    have "half_days (event_days e t d s)"
      unfolding already_taken [symmetric] using halves by (intro half_days_total) (auto simp: event_requests_def)
    moreover have "er_already ?i = event_days e t d s"
    proof -
      have "er_already ?i = foldl add_days 0 (filter (\<lambda>q. event_day q = Some d) (event_requests e t s))"
        by (simp add: event_request_of_def ev0)
      also have "\<dots> = 0 + total lq_days (filter (\<lambda>q. event_day q = Some d) (event_requests e t s))"
      proof (rule add_days_exact)
        show "\<forall>q \<in> set (filter (\<lambda>q. event_day q = Some d) (event_requests e t s)). half_days (lq_days q)"
          using halves by (simp add: event_requests_def)
        show "0 + total lq_days (filter (\<lambda>q. event_day q = Some d) (event_requests e t s)) \<le> 10 ^ 7"
          unfolding already_taken using taken largest_bound [OF typed(2)] by simp
      qed simp
      finally show ?thesis by (simp add: already_taken)
    qed
    moreover obtain a where a: "event_allowance p (earlier_events ?i ev) = num a" "hundredths a" "0 \<le> a"
      "a \<le> largest_allowance ty"
      using event_allowance_column [OF p [unfolded ty'] typed(2)] .
    moreover have "?days \<le> max 0 (js_fl (num a - event_days e t d s))"
      using ev(3) calculation(2) a(1)
      by (simp add: allowance_problem_def Let_def event_request_of_def not_less le_max_iff_disj split: if_splits)
    ultimately have "event_days e t d s + ?days \<le> largest_allowance ty"
      using taken half(1) largest_bound [OF typed(2)] by (intro fits_allowance [of a]) simp_all
    then have fits: "event_days e t d s + lq_days q \<le> largest_allowance ty" unfolding half(2) .
    have "d \<in> live_events e t s \<or> int (card (live_events e t s)) < m" if m: "lt_max_events ty = Some m" for m
    proof -
      have "ep_max_events p = Some m" using p m by (auto simp: ty' to_event_policy_def split: if_splits)
      then have "d \<in> live_events e t s \<or> int (earlier_events ?i ev) < m"
        using ev(2) ev0 evd
        by (auto simp: limit_problem_def event_request_of_def active_events split: if_splits)
      moreover have "d \<notin> live_events e t s \<Longrightarrow> earlier_events ?i ev = card (live_events e t s)"
        using ev0 evd active_events [of e t s]
        by (auto simp: earlier_events_def event_request_of_def intro!: arg_cong [of _ _ card])
      ultimately show ?thesis by (cases "d \<in> live_events e t s") simp_all
    qed
    then have "\<forall>m. lt_max_events ty = Some m \<longrightarrow> d \<in> live_events e t s \<or> int (card (live_events e t s)) < m" by blast
    moreover have "half_days (lq_days q)" unfolding half(2) by (rule half(1))
    ultimately show thesis using event [OF rows id _ True fits] by blast
  qed
qed

definition within_limits :: "id \<Rightarrow> id \<Rightarrow> leave_type_row \<Rightarrow> leave_db \<Rightarrow> bool" where
  "within_limits e t ty s \<longleftrightarrow> (\<forall>d. event_days e t d s \<le> largest_allowance ty)
     \<and> (\<forall>m. lt_max_events ty = Some m \<longrightarrow> int (card (live_events e t s)) \<le> m)"

lemma events_of_rows:
  assumes "lv_requests s' = lv_requests s @ [q]"
  shows "event_days e t d s' = event_days e t d s + (if for_event e t d q then lq_days q else 0)"
    and "live_events e t s' = live_events e t s \<union> {d. for_event e t d q}"
  using assms by (auto simp: event_days_def live_events_def)

lemma for_event_unique: "for_event e t d q \<Longrightarrow> for_event e t d' q \<Longrightarrow> d' = d"
  by (simp add: for_event_def)

lemma event_step:
  assumes step: "leave_step s s'" and typed: "requests_typed s" "type_typed ty" "find_type s t = Some ty"
    and ok: "within_limits e t ty s"
  shows "requests_typed s' \<and> within_limits e t ty s'"
proof -
  obtain op user now where op: "serve op user now s = Inr s'" using step by (auto simp: leave_step_def)
  from serve_requests [OF op] consider (same) "lv_requests s' = lv_requests s"
    | (new) r dto where "find_request s r = None" "apply_leave r dto user now s = Inr s'"
    | (move) r z st where "find_request s r = Some z" "request_move s z op user st" "moves_to s s' r st"
    by blast
  then show ?thesis
  proof cases
    case same
    then show ?thesis using typed(1) ok
      unfolding requests_typed_def within_limits_def event_days_def live_events_def by simp
  next
    case move
    have card: "card (live_events e t s') \<le> card (live_events e t s)"
      by (rule card_mono [OF finite_live_events move_events(3) [OF typed(1) move]])
    have "within_limits e t ty s'"
      unfolding within_limits_def
    proof (intro conjI allI impI)
      show "event_days e t d s' \<le> largest_allowance ty" for d
        using move_events(2) [OF typed(1) move, of e t d] ok order_trans unfolding within_limits_def by blast
      show "int (card (live_events e t s')) \<le> m" if "lt_max_events ty = Some m" for m
        using ok that card unfolding within_limits_def by force
    qed
    with move_events(1) [OF typed(1) move] show ?thesis by simp
  next
    case new
    have taken: "event_days e t d s \<le> largest_allowance ty" for d using ok by (simp add: within_limits_def)
    obtain q where q: "lv_requests s' = lv_requests s @ [q]" "lq_id q = r" "half_days (lq_days q)"
      and fits: "for_event e t d q \<Longrightarrow> event_days e t d s + lq_days q \<le> largest_allowance ty
        \<and> (\<forall>m. lt_max_events ty = Some m \<longrightarrow> d \<in> live_events e t s \<or> int (card (live_events e t s)) < m)" for d
    proof -
      obtain q where q: "lv_requests s' = lv_requests s @ [q]" "lq_id q = r" "half_days (lq_days q)"
        using accepted_event [OF typed new(2) taken [of 0]] by metis
      have "for_event e t d q \<Longrightarrow> event_days e t d s + lq_days q \<le> largest_allowance ty
        \<and> (\<forall>m. lt_max_events ty = Some m \<longrightarrow> d \<in> live_events e t s \<or> int (card (live_events e t s)) < m)" for d
        using typed new(2) taken [of d]
        by (cases rule: accepted_event) (use q(1) in auto)
      with q show thesis by (rule that)
    qed
    have "requests_typed s'"
      using q typed(1) new(1) by (auto simp: find_request_def requests_typed_def)
    moreover have "event_days e t d s' \<le> largest_allowance ty" for d
      using fits [of d] taken [of d] by (simp add: events_of_rows [OF q(1)])
    moreover have "int (card (live_events e t s')) \<le> m" if m: "lt_max_events ty = Some m" for m
    proof (cases "\<exists>d. for_event e t d q")
      case True
      then obtain d where d: "for_event e t d q" by blast
      then have "{d. for_event e t d q} = {d}" using for_event_unique by blast
      then have "live_events e t s' = insert d (live_events e t s)" by (simp add: events_of_rows [OF q(1)])
      then show ?thesis
        using fits [OF d] m ok finite_live_events [of e t s]
        by (auto simp: within_limits_def card_insert_if)
    next
      case False
      then show ?thesis using m ok by (simp add: within_limits_def events_of_rows [OF q(1)])
    qed
    ultimately show ?thesis by (simp add: within_limits_def)
  qed
qed

text \<open>No request changes the leave types.\<close>

lemma post_movement_keeps [simp]:
  "lv_types (grant_event_days e t y d a now s) = lv_types s" "lv_types (adjust_used_days e t y d src a' now s) = lv_types s"
  "lv_types (adjust_balance_manual e t y d user now s) = lv_types s"
  "lv_types (credit_comp_off e when now s) = lv_types s" "lv_types (credit_overtime_comp_off e d when now s) = lv_types s"
  by (simp_all add: grant_event_days_def adjust_used_days_def adjust_balance_manual_def credit_comp_off_def
      credit_overtime_comp_off_def Let_def split: option.split)

lemma decisions_keep_types:
  "final_approve q l user now s = Inr s' \<Longrightarrow> lv_types s' = lv_types s"
  "lv_types (approve_first_level q user now s) = lv_types s"
  by (auto simp: final_approve_def approve_first_level_def and_then_Inr_iff split: if_splits)

lemma serve_types:
  assumes "serve op user now s = Inr s'"
  shows "lv_types s' = lv_types s"
proof (cases op)
  case (Apply r dto)
  with assms have "apply_leave r dto user now s = Inr s'" by (simp split: if_splits)
  then show ?thesis by (rule apply_leave_Inr)
next
  case (Approve r)
  with assms obtain q where q: "find_request s r = Some q" by (auto simp: approve_leave_def and_then_Inr_iff)
  from Approve assms have "approve_leave r user now s = Inr s'" by simp
  from approve_leave_cases [OF this q] show ?thesis
    by (auto simp: decisions_keep_types split: if_splits dest: decisions_keep_types(1))
next
  case (Reject r)
  with assms show ?thesis by (auto simp: reject_leave_def and_then_Inr_iff split: if_splits)
next
  case (Cancel r)
  with assms show ?thesis by (auto simp: cancel_leave_def and_then_Inr_iff Let_def split: if_splits)
next
  case (Attach r)
  with assms show ?thesis by (auto simp: attach_leave_def and_then_Inr_iff split: if_splits)
qed (use assms in \<open>auto simp: escalate_def split: option.splits if_splits\<close>)

text \<open>
  C10. Nobody takes more event leave than the policy grants. For a leave type whose columns fit the
  table, if the pending and approved requests of an employee for each event total at most the
  larger of the type's two allowances, and the number of distinct events is within the limit, then
  this holds after any sequence of requests: applications (which add up what is already taken in
  double arithmetic before they compare), decisions, cancellations, escalations, corrections.
\<close>

theorem event_leave_within_limits:
  assumes "leave_step\<^sup>*\<^sup>* s s'" and "requests_typed s" and "type_typed ty" and "find_type s t = Some ty"
    and "within_limits e t ty s"
  shows "within_limits e t ty s'"
proof -
  have "requests_typed s' \<and> find_type s' t = Some ty \<and> within_limits e t ty s'"
    using assms
  proof (induction rule: rtranclp_induct)
    case (step u v)
    then have "find_type v t = Some ty" by (auto simp: leave_step_def find_type_def dest: serve_types)
    with event_step [OF step.hyps(2)] step show ?case by blast
  qed simp
  then show ?thesis by blast
qed

section \<open>A sample\<close>

definition sample_event :: leave_db where
  "sample_event = sample_leave\<lparr>lv_requests := [(sample_row PENDING_L2)\<lparr>lq_type := ''pl'', lq_days := 5,
     lq_event_date := Some (date_utc 2026 3 1)\<rparr>]\<rparr>"

lemmas sample_event_simps = sample_event_def sample_row_def sample_leave_def casual_leave_def paternity_leave_def

lemma sample_event_facts:
  "goes_through (Approve ''r1'') hr_user sample_event"
  "find_type sample_event ''pl'' = Some paternity_leave"
  by (simp_all add: goes_through_def approve_leave_def final_approve_def find_request_def find_type_def row_or_throw_def
      Let_def hr_user_def is_admin_def sample_event_simps)

lemma sample_event_typed: "requests_typed sample_event" "type_typed paternity_leave"
proof -
  have "half_days 5" unfolding half_days_def by (auto intro: exI [of _ 10])
  then show "requests_typed sample_event" by (simp add: requests_typed_def sample_event_simps)
  have "hundredths 5" "hundredths 0" unfolding hundredths_def by (rule exI [of _ 500], simp) (rule exI [of _ 0], simp)
  then show "type_typed paternity_leave" by (simp add: type_typed_def column_or_zero_def sample_event_simps)
qed

lemma sample_event_within: "within_limits ''e1'' ''pl'' paternity_leave sample_event"
proof -
  have "live_events ''e1'' ''pl'' sample_event \<subseteq> {iso_day (date_utc 2026 3 1)}"
    by (auto simp: live_events_def for_event_def event_day_def sample_event_simps)
  then have "card (live_events ''e1'' ''pl'' sample_event) \<le> 1" using card_mono [of "{iso_day (date_utc 2026 3 1)}"] by simp
  then show ?thesis
    by (auto simp: within_limits_def event_days_def largest_allowance_def column_or_zero_def sample_event_simps)
qed

theorem event_leave_within_limits_witness:
  "within_limits ''e1'' ''pl'' paternity_leave (served (Approve ''r1'') hr_user sample_event)"
  by (rule event_leave_within_limits [OF r_into_rtranclp [of leave_step, OF servedI [OF sample_event_facts(1)]]
        sample_event_typed sample_event_facts(2) sample_event_within])

end
