(* ===== verification/LeavePolicy.thy ===== *)
theory LeavePolicy
  imports LeaveState
begin

text \<open>
  The policy jobs: \<open>LeaveEntitlementService\<close> (\<open>leave-entitlement.service.ts\<close>), which
  credits what the policy owes and carries unused days into a new leave year, the daily job
  (\<open>leave-accrual.processor.ts\<close>) and the recalculation of a year's credits
  (\<open>leave-policy-recalc.service.ts\<close>). A run reads one snapshot of the tables, plans its writes
  and then makes them; rows come in table order.
\<close>

section \<open>Planning writes\<close>

record ledger_write =
  gw_employee :: id
  gw_type :: id
  gw_delta :: number
  gw_after :: number
  gw_source :: ledger_source
  gw_at :: date

record policy_writes =
  pw_new :: "(id \<times> id \<times> number) list"
  pw_increments :: "(id \<times> id \<times> number) list"
  pw_ledger :: "ledger_write list"

definition no_writes :: policy_writes where
  "no_writes = \<lparr>pw_new = [], pw_increments = [], pw_ledger = []\<rparr>"

fun running_entries :: "id \<Rightarrow> id \<Rightarrow> ledger_source \<Rightarrow> number \<Rightarrow> credit list \<Rightarrow> ledger_write list" where
  "running_entries e t src running [] = []"
| "running_entries e t src running (c # cs) =
     (let after = round2 (js_fl (running + cr_amount c))
      in \<lparr>gw_employee = e, gw_type = t, gw_delta = cr_amount c, gw_after = after, gw_source = src,
          gw_at = cr_occurred_at c\<rparr> # running_entries e t src after cs)"

definition sum_credits :: "credit list \<Rightarrow> number" where
  "sum_credits cs = round2 (foldl (\<lambda>s c. js_fl (s + cr_amount c)) 0 cs)"

definition available_of :: "leave_balance_row \<Rightarrow> number" where
  "available_of b = js_fl (num (lb_accrued b) - num (lb_used b))"

definition plan :: "id \<Rightarrow> id \<Rightarrow> leave_balance_row option \<Rightarrow> credit list \<Rightarrow> ledger_source \<Rightarrow> policy_writes \<Rightarrow> policy_writes" where
  "plan e t bal cs src ws =
     (let running = (case bal of None \<Rightarrow> 0 | Some b \<Rightarrow> available_of b);
          ws1 = ws\<lparr>pw_ledger := pw_ledger ws @ running_entries e t src running cs\<rparr>
      in case bal of
           Some _ \<Rightarrow> ws1\<lparr>pw_increments := pw_increments ws1 @ [(e, t, sum_credits cs)]\<rparr>
         | None \<Rightarrow> ws1\<lparr>pw_new := pw_new ws1 @ [(e, t, sum_credits cs)]\<rparr>)"

section \<open>Making the writes\<close>

definition has_key :: "id \<Rightarrow> id \<Rightarrow> int \<Rightarrow> leave_balance_row \<Rightarrow> bool" where
  "has_key e t y b \<longleftrightarrow> lb_employee b = e \<and> lb_type b = t \<and> lb_year b = y"

definition balance_of :: "id \<Rightarrow> id \<Rightarrow> int \<Rightarrow> leave_db \<Rightarrow> leave_balance_row option" where
  "balance_of e t y s = find_row (has_key e t y) (lv_balances s)"

definition created_balance :: "int \<Rightarrow> id \<times> id \<times> number \<Rightarrow> leave_balance_row" where
  "created_balance y = (\<lambda>(e, t, d). \<lparr>lb_employee = e, lb_type = t, lb_year = y, lb_accrued = days_col d, lb_used = 0\<rparr>)"

definition increment_balance :: "int \<Rightarrow> leave_balance_row table \<Rightarrow> id \<times> id \<times> number \<Rightarrow> leave_balance_row table" where
  "increment_balance y bs = (\<lambda>(e, t, d). update_rows (has_key e t y) (\<lambda>b. b\<lparr>lb_accrued := column_add (lb_accrued b) d\<rparr>) bs)"

definition ledger_row :: "ledger_write \<Rightarrow> leave_ledger_row" where
  "ledger_row g = \<lparr>ll_employee = gw_employee g, ll_type = gw_type g, ll_occurred_at = gw_at g,
     ll_delta = days_col (gw_delta g), ll_balance_after = days_col (gw_after g), ll_source = gw_source g, ll_actor = None\<rparr>"

definition write_policy :: "int \<Rightarrow> policy_writes \<Rightarrow> leave_db \<Rightarrow> (nat \<times> nat) \<times> leave_db" where
  "write_policy y ws s =
     ((length (pw_ledger ws), length (pw_new ws)),
      s\<lparr>lv_balances := foldl (increment_balance y) (lv_balances s @ map (created_balance y) (pw_new ws)) (pw_increments ws),
        lv_ledger := lv_ledger s @ map ledger_row (pw_ledger ws)\<rparr>)"

section \<open>Crediting what the policy owes\<close>

record policy_scope =
  ps_employees :: "id list option"
  ps_types :: "id list option"

definition everyone :: policy_scope where
  "everyone = \<lparr>ps_employees = None, ps_types = None\<rparr>"

definition in_scope :: "id list option \<Rightarrow> id \<Rightarrow> bool" where
  "in_scope ids i \<longleftrightarrow> (case ids of None \<Rightarrow> True | Some xs \<Rightarrow> i \<in> set xs)"

definition policy_types :: "policy_scope \<Rightarrow> leave_db \<Rightarrow> leave_type_row list" where
  "policy_types sc s = filter (\<lambda>t. lt_active t \<and> \<not> lt_comp_off t \<and> lt_grant_mode t = ACCRUED
     \<and> in_scope (ps_types sc) (lt_id t) \<and> 0 < num (lt_annual_quota t)) (lv_types s)"

definition policy_employees :: "policy_scope \<Rightarrow> leave_db \<Rightarrow> leave_employee list" where
  "policy_employees sc s = filter (\<lambda>e. in_scope (ps_employees sc) (le_id e) \<and> \<not> le_separated e) (lv_employees s)"

definition in_window :: "leave_window \<Rightarrow> date \<Rightarrow> bool" where
  "in_window w d \<longleftrightarrow> lw_start w \<le> d \<and> d < lw_end w"

definition policy_ledger :: "leave_window \<Rightarrow> id \<Rightarrow> id \<Rightarrow> leave_db \<Rightarrow> leave_ledger_row list" where
  "policy_ledger w e t s = filter (\<lambda>l. ll_employee l = e \<and> ll_type l = t
     \<and> (ll_source l = ACCRUAL \<or> ll_source l = ACCRUAL_REVERSAL \<or> ll_source l = OPENING_BALANCE)
     \<and> in_window w (ll_occurred_at l)) (lv_ledger s)"

definition accruals :: "leave_ledger_row list \<Rightarrow> leave_ledger_row list" where
  "accruals rows = filter (\<lambda>l. ll_source l \<noteq> OPENING_BALANCE) rows"

definition accrued_so_far :: "leave_ledger_row list \<Rightarrow> number" where
  "accrued_so_far rows = foldl (\<lambda>a l. js_fl (a + num (ll_delta l))) 0 (accruals rows)"

definition period_start_of :: "accrual_frequency \<Rightarrow> leave_window \<Rightarrow> leave_ledger_row \<Rightarrow> date option" where
  "period_start_of f w l = map_option p_start (period_containing f w (ll_occurred_at l))"

definition period_net :: "accrual_frequency \<Rightarrow> leave_window \<Rightarrow> leave_ledger_row list \<Rightarrow> date \<Rightarrow> number" where
  "period_net f w rows d = foldl (\<lambda>a l. round2 (js_fl (a + num (ll_delta l)))) 0
     (filter (\<lambda>l. period_start_of f w l = Some d) (accruals rows))"

definition credited_periods :: "accrual_frequency \<Rightarrow> leave_window \<Rightarrow> leave_ledger_row list \<Rightarrow> date set" where
  "credited_periods f w rows =
     set (filter (\<lambda>d. 0 < period_net f w rows d) (List.map_filter (period_start_of f w) (accruals rows)))"

definition policy_input :: "leave_window \<Rightarrow> date \<Rightarrow> leave_db \<Rightarrow> leave_employee \<Rightarrow> leave_type_row \<Rightarrow> credit_input" where
  "policy_input w day s emp t =
     (let rows = policy_ledger w (le_id emp) (lt_id t) s
      in \<lparr>ci_frequency = lt_frequency t, ci_quota = num (lt_annual_quota t), ci_window = w,
          ci_start = effective_start w (le_joined emp) (ls_go_live (lv_settings s)), ci_today = day,
          ci_credited = credited_periods (lt_frequency t) w rows, ci_accrued = accrued_so_far rows,
          ci_opening = (\<exists>l \<in> set rows. ll_source l = OPENING_BALANCE)\<rparr>)"

definition plan_defaults :: "leave_window \<Rightarrow> date \<Rightarrow> leave_db \<Rightarrow> policy_writes \<Rightarrow> leave_employee \<times> leave_type_row \<Rightarrow> policy_writes" where
  "plan_defaults w day s ws = (\<lambda>(emp, t).
     let cs = credits_due (policy_input w day s emp t)
     in if cs = [] then ws
        else plan (le_id emp) (lt_id t) (balance_of (le_id emp) (lt_id t) (lw_year w) s) cs ACCRUAL ws)"

definition current_window :: "date \<Rightarrow> leave_db \<Rightarrow> leave_window" where
  "current_window day s = leave_year_window (resolve_leave_year day (ls_fy_start_month (lv_settings s)))
     (ls_fy_start_month (lv_settings s))"

definition apply_policy_defaults :: "policy_scope \<Rightarrow> date \<Rightarrow> leave_db \<Rightarrow> (nat \<times> nat) \<times> leave_db" where
  "apply_policy_defaults sc today s =
     (if ps_employees sc = Some [] then ((0, 0), s)
      else let day = utc_midnight today; w = current_window day s
           in write_policy (lw_year w)
                (foldl (plan_defaults w day s) no_writes (List.product (policy_employees sc s) (policy_types sc s))) s)"

section \<open>Carrying days forward\<close>

definition carry_types :: "leave_db \<Rightarrow> leave_type_row list" where
  "carry_types s = filter (\<lambda>t. lt_active t \<and> lt_grant_mode t = ACCRUED \<and> 0 < num (lt_carry_forward_cap t)) (lv_types s)"

definition carry_cap :: "leave_db \<Rightarrow> id \<Rightarrow> number" where
  "carry_cap s t = (case find_row (\<lambda>r. lt_id r = t) (carry_types s) of None \<Rightarrow> 0 | Some r \<Rightarrow> num (lt_carry_forward_cap r))"

definition already_carried :: "leave_window \<Rightarrow> id \<Rightarrow> id \<Rightarrow> leave_db \<Rightarrow> bool" where
  "already_carried w e t s \<longleftrightarrow> (\<exists>l \<in> set (lv_ledger s). ll_employee l = e \<and> ll_type l = t
     \<and> ll_source l = CARRY_FORWARD \<and> in_window w (ll_occurred_at l))"

definition previous_balances :: "leave_window \<Rightarrow> leave_db \<Rightarrow> leave_balance_row list" where
  "previous_balances w s = filter (\<lambda>b. lb_employee b \<in> set (map le_id (filter (\<lambda>e. \<not> le_separated e) (lv_employees s)))
     \<and> lb_type b \<in> set (map lt_id (carry_types s)) \<and> lb_year b = lw_year w - 1) (lv_balances s)"

definition plan_carry :: "leave_window \<Rightarrow> leave_db \<Rightarrow> policy_writes \<Rightarrow> leave_balance_row \<Rightarrow> policy_writes" where
  "plan_carry w s ws prev =
     (let e = lb_employee prev; t = lb_type prev;
          amount = carry_forward_days (available_of prev) (carry_cap s t)
      in if already_carried w e t s \<or> amount \<le> 0 then ws
         else plan e t (balance_of e t (lw_year w) s)
           [\<lparr>cr_period_start = lw_start w, cr_occurred_at = lw_start w, cr_amount = amount\<rparr>] CARRY_FORWARD ws)"

definition apply_carry_forward :: "date \<Rightarrow> leave_db \<Rightarrow> (nat \<times> nat) \<times> leave_db" where
  "apply_carry_forward today s =
     (let day = utc_midnight today; w = current_window day s
      in if lw_start w + 7 * DAY_MS \<le> day then ((0, 0), s)
         else write_policy (lw_year w) (foldl (plan_carry w s) no_writes (previous_balances w s)) s)"

section \<open>The daily job\<close>

text \<open>The setup state says when company setup was submitted; before that nothing is credited.\<close>

definition accrue_for_tenant :: "date option \<Rightarrow> date \<Rightarrow> leave_db \<Rightarrow> leave_db" where
  "accrue_for_tenant completed_at today s =
     (case completed_at of
        None \<Rightarrow> s
      | Some _ \<Rightarrow> snd (apply_policy_defaults everyone today (snd (apply_carry_forward today s))))"

section \<open>Apply the policy now\<close>

definition initialize_yearly_balances :: "id \<Rightarrow> int \<Rightarrow> date \<Rightarrow> leave_db \<Rightarrow> ((nat \<times> nat) \<times> leave_db) leave_answer" where
  "initialize_yearly_balances t y now s =
     (if y \<noteq> resolve_leave_year now (ls_fy_start_month (lv_settings s)) then Inl (BadRequest OnlyCurrentLeaveYear)
      else and_then (row_or_throw (find_row (\<lambda>r. lt_id r = t) (lv_types s))) (\<lambda>_.
        Inr (apply_policy_defaults \<lparr>ps_employees = None, ps_types = Some [t]\<rparr> now s)))"

end
