(* ===== verification/EntitlementProperties.thy ===== *)
theory EntitlementProperties
  imports LeaveEntitlement
begin

text \<open>
  What the entitlement arithmetic guarantees: it agrees with whole hundredths, stays inside the
  quota and the effective start, and may be run on any days, in one go or day by day, with the same
  result.
\<close>

section \<open>Credits in hundredths\<close>

definition total_cents :: "(date \<times> date \<times> int) list \<Rightarrow> int" where
  "total_cents xs = sum_list (map (\<lambda>(_, _, k). k) xs)"

definition credit_cents :: "credit \<Rightarrow> int" where
  "credit_cents c = half_up_int (js_fl (cr_amount c * 100))"

definition credited_cents :: "credit list \<Rightarrow> int" where
  "credited_cents cs = sum_list (map credit_cents cs)"

lemma total_cents_simps [simp]:
  "total_cents [] = 0"
  "total_cents ((s, d, k) # xs) = k + total_cents xs"
  by (simp_all add: total_cents_def)

lemma accrue_cents_nil: "r \<le> 0 \<Longrightarrow> accrue_cents i pp r ps = []"
  by (induction ps) (auto simp: Let_def min_def)

lemma accrue_cents_total: "0 \<le> r \<Longrightarrow> total_cents (accrue_cents i pp r ps) \<le> r"
proof (induction ps arbitrary: r)
  case (Cons p ps)
  let ?k = "min (due_cents (ci_start i) pp p) r"
  have "?k \<le> r" by simp
  with Cons.prems Cons.IH [of r] Cons.IH [of "r - ?k"] show ?case by (simp add: Let_def del: min_le_iff_disj)
qed simp

definition in_some_period :: "credit_input \<Rightarrow> period list \<Rightarrow> date \<times> date \<times> int \<Rightarrow> bool" where
  "in_some_period i ps = (\<lambda>(s, d, k). s \<in> p_start ` set ps \<and> s \<notin> ci_credited i
     \<and> s \<le> ci_today i \<and> d = max s (ci_start i) \<and> 0 < k)"

lemma accrue_cents_in_period: "x \<in> set (accrue_cents i pp r ps) \<Longrightarrow> in_some_period i ps x"
proof (induction ps arbitrary: r)
  case (Cons p ps)
  from Cons.prems consider "x \<in> set (accrue_cents i pp r ps)"
    | "x \<in> set (accrue_cents i pp (r - min (due_cents (ci_start i) pp p) r) ps)"
    | "x = (p_start p, max (p_start p) (ci_start i), min (due_cents (ci_start i) pp p) r)"
      "p_start p \<le> ci_today i" "p_start p \<notin> ci_credited i" "0 < min (due_cents (ci_start i) pp p) r"
    by (auto simp: Let_def not_less not_le split: if_splits)
  then show ?case
    by cases (use Cons.IH in \<open>auto simp: in_some_period_def\<close>)
qed simp

lemma accrue_cents_starts: "fst ` set (accrue_cents i pp r ps) \<subseteq> p_start ` set ps"
  using accrue_cents_in_period [of _ i pp r ps] by (auto simp: in_some_period_def)

lemma chained_first: "chained (p # ps) \<Longrightarrow> p_start p \<notin> p_start ` set ps"
  by force

lemma accrue_cents_distinct: "chained ps \<Longrightarrow> distinct (map fst (accrue_cents i pp r ps))"
proof (induction ps arbitrary: r)
  case (Cons p ps)
  then have "p_start p \<notin> fst ` set (accrue_cents i pp r' ps)" for r'
    using chained_first [OF Cons.prems] accrue_cents_starts [of i pp r' ps] by blast
  with Cons show ?case by (auto simp: Let_def)
qed simp

lemma accrue_cents_cong:
  assumes "\<forall>p \<in> set ps. p_start p \<in> ci_credited i \<longleftrightarrow> p_start p \<in> ci_credited j"
    and "ci_start i = ci_start j" and "ci_today i = ci_today j"
  shows "accrue_cents i pp r ps = accrue_cents j pp r ps"
  using assms by (induction ps arbitrary: r) (auto simp: Let_def)

text \<open>
  Running on a later day after a run on an earlier one, which marked the periods it credited and
  took its credits off the rest of the quota, adds what a single later run would have added.
\<close>

lemma accrue_cents_catch_up:
  assumes "chained ps" and "t1 \<le> t2"
    and "\<forall>p \<in> set ps. p_start p \<in> C \<longleftrightarrow> p_start p \<in> fst ` set (accrue_cents (i\<lparr>ci_today := t1\<rparr>) pp r ps)"
  shows "accrue_cents (i\<lparr>ci_today := t2\<rparr>) pp r ps = accrue_cents (i\<lparr>ci_today := t1\<rparr>) pp r ps
    @ accrue_cents (i\<lparr>ci_today := t2, ci_credited := ci_credited i \<union> C\<rparr>) pp
        (r - total_cents (accrue_cents (i\<lparr>ci_today := t1\<rparr>) pp r ps)) ps"
  using assms(1,3)
proof (induction ps arbitrary: r)
  case (Cons p ps)
  let ?xs = "\<lambda>r. accrue_cents (i\<lparr>ci_today := t1\<rparr>) pp r ps" and ?k = "min (due_cents (ci_start i) pp p) r"
  have ch: "chained ps" and new: "p_start p \<notin> fst ` set (?xs r')" for r'
    using Cons.prems(1) chained_first [OF Cons.prems(1)] accrue_cents_starts [of _ pp r' ps] by auto
  consider "t1 < p_start p"
    | "p_start p \<le> t1" "p_end p \<le> ci_start i \<or> p_start p \<in> ci_credited i"
    | "p_start p \<le> t1" "\<not> (p_end p \<le> ci_start i \<or> p_start p \<in> ci_credited i)" "?k \<le> 0"
    | "p_start p \<le> t1" "\<not> (p_end p \<le> ci_start i \<or> p_start p \<in> ci_credited i)" "0 < ?k"
    by linarith
  then show ?case
  proof cases
    case 1
    then have nil: "accrue_cents (i\<lparr>ci_today := t1\<rparr>) pp r (p # ps) = []" by (simp add: Let_def)
    show ?thesis
      unfolding nil using Cons.prems(2)
      by (subst accrue_cents_cong [of "p # ps" _ "i\<lparr>ci_today := t2, ci_credited := ci_credited i \<union> C\<rparr>"])
        (auto simp: nil simp del: accrue_cents.simps)
  next
    case 2
    with assms(2) have "accrue_cents (i\<lparr>ci_today := t\<rparr>) pp r' (p # ps) = accrue_cents (i\<lparr>ci_today := t\<rparr>) pp r' ps"
      if "t \<in> {t1, t2}" for t r' using that by (auto simp: Let_def)
    moreover from 2 assms(2)
    have "accrue_cents (i\<lparr>ci_today := t2, ci_credited := ci_credited i \<union> C\<rparr>) pp r' (p # ps)
      = accrue_cents (i\<lparr>ci_today := t2, ci_credited := ci_credited i \<union> C\<rparr>) pp r' ps" for r'
      by (auto simp: Let_def)
    ultimately show ?thesis using Cons.IH [OF ch, of r] Cons.prems(2) by (simp del: accrue_cents.simps)
  next
    case 3
    then have eq1: "accrue_cents (i\<lparr>ci_today := t1\<rparr>) pp r (p # ps) = ?xs r"
      and eq2: "accrue_cents (i\<lparr>ci_today := t2\<rparr>) pp r (p # ps) = accrue_cents (i\<lparr>ci_today := t2\<rparr>) pp r ps"
      using assms(2) by (auto simp: Let_def)
    have notC: "p_start p \<notin> C" using Cons.prems(2) new [of r] unfolding eq1 by auto
    have "min (due_cents (ci_start i) pp p) (r - total_cents (?xs r)) \<le> 0"
      using 3(3) accrue_cents_nil [of r] by (auto simp: min_def split: if_splits)
    then have "accrue_cents (i\<lparr>ci_today := t2, ci_credited := ci_credited i \<union> C\<rparr>) pp (r - total_cents (?xs r)) (p # ps)
      = accrue_cents (i\<lparr>ci_today := t2, ci_credited := ci_credited i \<union> C\<rparr>) pp (r - total_cents (?xs r)) ps"
      using 3 assms(2) by (auto simp: Let_def)
    with Cons.IH [OF ch, of r] Cons.prems(2) show ?thesis unfolding eq1 eq2 by simp
  next
    case 4
    then have eq1: "accrue_cents (i\<lparr>ci_today := t1\<rparr>) pp r (p # ps)
        = (p_start p, max (p_start p) (ci_start i), ?k) # ?xs (r - ?k)"
      and eq2: "accrue_cents (i\<lparr>ci_today := t2\<rparr>) pp r (p # ps)
        = (p_start p, max (p_start p) (ci_start i), ?k) # accrue_cents (i\<lparr>ci_today := t2\<rparr>) pp (r - ?k) ps"
      using assms(2) by (auto simp: Let_def)
    have C: "p_start p \<in> C" using Cons.prems(2) unfolding eq1 by auto
    have "\<forall>q \<in> set ps. p_start q \<in> C \<longleftrightarrow> p_start q \<in> fst ` set (?xs (r - ?k))"
      using Cons.prems(2) chained_first [OF Cons.prems(1)] unfolding eq1 by (auto simp: image_iff)
    note IH = Cons.IH [OF ch this]
    have "accrue_cents (i\<lparr>ci_today := t2, ci_credited := ci_credited i \<union> C\<rparr>) pp r' (p # ps)
      = accrue_cents (i\<lparr>ci_today := t2, ci_credited := ci_credited i \<union> C\<rparr>) pp r' ps" for r'
      using C 4(1) assms(2) by (simp add: Let_def)
    then show ?thesis unfolding eq1 eq2 using IH by (simp add: algebra_simps del: accrue_cents.simps)
  qed
qed simp

section \<open>The hundredths of a credit\<close>

lemma credits_in_cents_bounds:
  assumes "proper_input i q a" and "x \<in> set (credits_in_cents i q a)"
  shows "0 < snd (snd x) \<and> snd (snd x) \<le> 10 ^ 8"
proof -
  let ?xs = "credits_in_cents i q a"
  have pos: "\<forall>x \<in> set ?xs. 0 < snd (snd x)"
    using accrue_cents_in_period [of _ i]
    by (auto simp: credits_in_cents_def annual_cents_def Let_def in_some_period_def split: if_splits)
  have "total_cents ?xs \<le> q - a" if "?xs \<noteq> []"
    using that accrue_cents_total [of "q - a" i]
    by (auto simp: credits_in_cents_def annual_cents_def Let_def split: if_splits)
  moreover have "snd (snd x) \<le> total_cents ?xs"
    using assms(2) pos unfolding total_cents_def
    by (intro member_le_sum_list [of _ "map _ ?xs"]) (auto simp: case_prod_beta)
  moreover have "q - a \<le> 10 ^ 8" using assms(1) by (auto simp: proper_input_def abs_le_iff)
  ultimately show ?thesis using assms(2) pos by (cases ?xs) auto
qed

lemma credit_cents_of:
  assumes "0 < k" and "k \<le> 10 ^ 8"
  shows "credit_cents (credit_of (s, d, k)) = k"
proof -
  have k: "\<bar>k\<bar> \<le> 10 ^ 9" using assms by simp
  have "\<bar>js_fl (cents k * 100) - cents k * 100\<bar> \<le> \<bar>cents k * 100\<bar> / 10 ^ 15" by (rule js_err)
  also have "\<dots> \<le> 1 / 1000" using about_bound [OF about_cents [OF k] k] by (simp add: abs_mult)
  finally have "\<bar>js_fl (cents k * 100) - of_int k\<bar> < 1 / 2"
    using cents_near [OF k] unfolding abs_le_iff abs_less_iff by simp
  then show ?thesis by (simp add: credit_cents_def credit_of_def half_up_int_near)
qed

lemma credited_cents_due:
  assumes "proper_input i q a"
  shows "credited_cents (credits_due i) = total_cents (credits_in_cents i q a)"
proof -
  have "credit_cents (credit_of x) = (\<lambda>(_, _, k). k) x" if "x \<in> set (credits_in_cents i q a)" for x
    using credits_in_cents_bounds [OF assms that] credit_cents_of [of "snd (snd x)" "fst x" "fst (snd x)"]
    by (simp add: case_prod_beta)
  then show ?thesis
    unfolding credited_cents_def total_cents_def credits_due_cents [OF assms]
    by (simp add: comp_def cong: map_cong)
qed

section \<open>Within the quota, never before the start, never twice\<close>

lemma credits_in_cents_total: "total_cents (credits_in_cents i q a) \<le> max 0 (q - a)"
  using accrue_cents_total [of "q - a" i]
  by (auto simp: credits_in_cents_def annual_cents_def Let_def max_def)

lemma credits_in_cents_places:
  assumes "(s, d, k) \<in> set (credits_in_cents i q a)"
  shows "s \<notin> ci_credited i \<and> d = (if ci_frequency i = ANNUAL then ci_start i else max s (ci_start i))
    \<and> ci_start i \<le> d \<and> d \<le> ci_today i"
proof (cases "ci_frequency i = ANNUAL")
  case True
  with assms show ?thesis by (auto simp: credits_in_cents_def annual_cents_def Let_def split: if_splits)
next
  case False
  with assms have go: "ci_start i \<le> ci_today i"
    and "\<exists>pp. (s, d, k) \<in> set (accrue_cents i pp (q - a) (accrual_periods (ci_frequency i) (ci_window i)))"
    by (auto simp: credits_in_cents_def Let_def split: if_splits)
  then obtain pp where "(s, d, k) \<in> set (accrue_cents i pp (q - a) (accrual_periods (ci_frequency i) (ci_window i)))"
    by blast
  from accrue_cents_in_period [OF this] False go show ?thesis by (auto simp: in_some_period_def)
qed

lemma credits_in_cents_distinct:
  assumes "proper_input i q a"
  shows "distinct (map fst (credits_in_cents i q a))"
proof -
  have "chained (accrual_periods (ci_frequency i) (ci_window i))"
    using assms by (intro accrual_periods_chained) (simp add: proper_input_def)
  from accrue_cents_distinct [OF this] show ?thesis
    by (simp add: credits_in_cents_def annual_cents_def Let_def)
qed

lemma map_credit_of_simps:
  "map cr_period_start (map credit_of xs) = map fst xs"
  "map cr_occurred_at (map credit_of xs) = map (fst \<circ> snd) xs"
  "map cr_amount (map credit_of xs) = map (cents \<circ> snd \<circ> snd) xs"
  by (simp_all add: credit_of_def case_prod_beta comp_def)

text \<open>
  C26. The doubles lose nothing: for a quota and a ledger sum that are hundredths of a day (within the
  columns' range), the credits \<open>creditsDue\<close> computes with rounded JavaScript numbers are those of
  the same loop over whole hundredths with exact sums and comparisons.
\<close>

theorem credits_in_hundredths:
  assumes "proper_input i q a"
  shows "credits_due i = map credit_of (credits_in_cents i q a)"
  using assms by (rule credits_due_cents)

text \<open>
  What is credited stays inside the rules: every credit is positive and dated between the
  effective start and today, no period is credited twice or again, and together with what was
  accrued before the credits never exceed the annual quota.
\<close>

theorem credits_within_rules:
  assumes "proper_input i q a"
  shows "(\<forall>c \<in> set (credits_due i). 0 < cr_amount c \<and> ci_start i \<le> cr_occurred_at c
      \<and> cr_occurred_at c \<le> ci_today i \<and> cr_period_start c \<notin> ci_credited i)
    \<and> distinct (map cr_period_start (credits_due i))
    \<and> credited_cents (credits_due i) \<le> max 0 (q - a)"
proof (intro conjI ballI)
  note eq = credits_due_cents [OF assms]
  fix c assume "c \<in> set (credits_due i)"
  then obtain s d k where x: "(s, d, k) \<in> set (credits_in_cents i q a)" and c: "c = credit_of (s, d, k)"
    unfolding eq by force
  show "0 < cr_amount c" "ci_start i \<le> cr_occurred_at c" "cr_occurred_at c \<le> ci_today i"
    "cr_period_start c \<notin> ci_credited i"
    using credits_in_cents_bounds [OF assms x] credits_in_cents_places [OF x]
    by (simp_all add: c credit_of_def cents_pos)
next
  show "distinct (map cr_period_start (credits_due i))"
    unfolding credits_due_cents [OF assms] map_credit_of_simps by (rule credits_in_cents_distinct [OF assms])
  show "credited_cents (credits_due i) \<le> max 0 (q - a)"
    unfolding credited_cents_due [OF assms] by (rule credits_in_cents_total)
qed

section \<open>Any days will do\<close>

lemma credits_in_cents_catch_up:
  assumes "100 \<le> utc_year (lw_start (ci_window i))" and "t1 \<le> t2"
    and "C = fst ` set (credits_in_cents (i\<lparr>ci_today := t1\<rparr>) q a)"
    and "a' = a + total_cents (credits_in_cents (i\<lparr>ci_today := t1\<rparr>) q a)"
  shows "credits_in_cents (i\<lparr>ci_today := t2\<rparr>) q a = credits_in_cents (i\<lparr>ci_today := t1\<rparr>) q a
    @ credits_in_cents (i\<lparr>ci_today := t2, ci_credited := ci_credited i \<union> C\<rparr>) q a'"
proof (cases "credits_in_cents (i\<lparr>ci_today := t1\<rparr>) q a = []")
  case True
  then show ?thesis using assms(3,4) by simp
next
  case False
  let ?ps = "accrual_periods (ci_frequency i) (ci_window i)"
  let ?pp = "js_fl (cents q / of_nat (length ?ps))" and ?j = "\<lambda>t. i\<lparr>ci_today := t\<rparr>"
  have go: "0 < q" "a < q" "ci_start i < lw_end (ci_window i)" "ci_start i \<le> t1"
    using False by (auto simp: credits_in_cents_def not_le split: if_splits)
  show ?thesis
  proof (cases "ci_frequency i = ANNUAL")
    case True
    with go assms(2-4) False show ?thesis
      by (auto simp: credits_in_cents_def annual_cents_def Let_def)
  next
    case periodic: False
    let ?xs = "accrue_cents (?j t1) ?pp (q - a) ?ps"
    have eq: "credits_in_cents (?j t1) q a = ?xs" "credits_in_cents (?j t2) q a = accrue_cents (?j t2) ?pp (q - a) ?ps"
      using go assms(2) periodic by (simp_all add: credits_in_cents_def Let_def)
    have C: "C = fst ` set ?xs" and a': "q - a' = q - a - total_cents ?xs" using assms(3,4) by (simp_all add: eq)
    have later: "credits_in_cents (i\<lparr>ci_today := t2, ci_credited := ci_credited i \<union> C\<rparr>) q a'
      = accrue_cents (i\<lparr>ci_today := t2, ci_credited := ci_credited i \<union> C\<rparr>) ?pp (q - a - total_cents ?xs) ?ps"
      unfolding a' [symmetric] using go assms(2) periodic accrue_cents_nil [of "q - a'"]
      by (auto simp: credits_in_cents_def Let_def)
    show ?thesis
      unfolding eq later
      by (rule accrue_cents_catch_up [OF accrual_periods_chained [OF assms(1)] assms(2)]) (simp add: C)
  qed
qed

lemma credits_in_cents_accrued: "credits_in_cents (i\<lparr>ci_accrued := x\<rparr>) q a = credits_in_cents i q a"
proof -
  have "accrue_cents (i\<lparr>ci_accrued := x\<rparr>) pp r ps = accrue_cents i pp r ps" for pp r ps
    by (rule accrue_cents_cong) simp_all
  then show ?thesis by (simp add: credits_in_cents_def annual_cents_def Let_def)
qed

text \<open>
  When the job runs does not matter: whatever an early run credited, a later run that finds those
  periods in the ledger adds exactly what a single later run would have credited besides. Running
  daily, after missed days or twice on one day gives the same credits; in particular a second run
  adds nothing.
\<close>

theorem credits_catch_up:
  assumes "proper_input i q a" and "t1 \<le> t2"
    and "early = credits_due (i\<lparr>ci_today := t1\<rparr>)"
    and "rest = i\<lparr>ci_today := t2, ci_credited := ci_credited i \<union> set (map cr_period_start early), ci_accrued := accrued\<rparr>"
    and "close_to accrued (a + credited_cents early)" and "\<bar>a + credited_cents early\<bar> \<le> 10 ^ 7"
  shows "credits_due (i\<lparr>ci_today := t2\<rparr>) = early @ credits_due rest"
proof -
  have p: "proper_input (i\<lparr>ci_today := t\<rparr>) q a" for t using assms(1) by (simp add: proper_input_def)
  let ?xs = "credits_in_cents (i\<lparr>ci_today := t1\<rparr>) q a"
  have early: "early = map credit_of ?xs" unfolding assms(3) by (rule credits_due_cents [OF p])
  have total: "credited_cents early = total_cents ?xs" unfolding assms(3) by (rule credited_cents_due [OF p])
  have starts: "set (map cr_period_start early) = fst ` set ?xs" unfolding early map_credit_of_simps by simp
  have rest: "proper_input rest q (a + total_cents ?xs)"
    using assms(1,5,6) unfolding total assms(4) by (simp add: proper_input_def)
  have eq: "credits_in_cents rest q b = credits_in_cents
      (i\<lparr>ci_today := t2, ci_credited := ci_credited i \<union> fst ` set ?xs\<rparr>) q b" for b
    using credits_in_cents_accrued [of accrued "i\<lparr>ci_today := t2, ci_credited := ci_credited i \<union> fst ` set ?xs\<rparr>"]
    unfolding assms(4) starts by simp
  have "100 \<le> utc_year (lw_start (ci_window i))" using assms(1) by (simp add: proper_input_def)
  note credits_in_cents_catch_up [OF this assms(2) refl refl, of q a]
  then show ?thesis
    unfolding credits_due_cents [OF p] credits_due_cents [OF rest] early eq by simp
qed

section \<open>A full year\<close>

lemma accrue_cents_full:
  assumes "0 \<le> r" and "0 \<le> due"
    and "\<forall>p \<in> set ps. ci_start i \<le> p_start p \<and> p_start p < p_end p \<and> p_start p \<le> ci_today i"
    and "ci_credited i = {}" and due: "due = half_up_int (js_fl (pp * 100))"
  shows "total_cents (accrue_cents i pp r ps) = min r (of_nat (length ps) * due)"
  using assms(1,3)
proof (induction ps arbitrary: r)
  case (Cons p ps)
  have d: "due_cents (ci_start i) pp p = due" using Cons.prems(2) by (auto simp: due_cents_def due)
  have tail: "total_cents (accrue_cents i pp r' ps) = min r' (of_nat (length ps) * due)" if "0 \<le> r'" for r'
    using Cons.IH [OF that] Cons.prems(2) by simp
  let ?k = "min due r"
  have step: "accrue_cents i pp r (p # ps) = (if ?k \<le> 0 then accrue_cents i pp r ps
      else (p_start p, max (p_start p) (ci_start i), ?k) # accrue_cents i pp (r - ?k) ps)"
    using Cons.prems(2) assms(4) by (auto simp: d Let_def)
  have n: "0 \<le> int (length ps) * due" "0 \<le> (1 + int (length ps)) * due" using assms(2) by simp_all
  show ?case
  proof (cases "?k \<le> 0")
    case True
    then have "r = 0 \<or> due = 0" using Cons.prems(1) assms(2) by (auto simp: min_def split: if_splits)
    then have "min r (int (length ps) * due) = min r (int (length (p # ps)) * due)"
      using min_absorb1 [OF n(1)] min_absorb1 [OF n(2)] by auto
    with True tail [OF Cons.prems(1)] show ?thesis unfolding step by simp
  next
    case False
    have "total_cents (accrue_cents i pp r (p # ps)) = ?k + min (r - ?k) (int (length ps) * due)"
      unfolding step using False tail [of "r - ?k"] by simp
    also have "\<dots> = min r (int (length (p # ps)) * due)"
      using n by (auto simp: min_def algebra_simps)
    finally show ?thesis .
  qed
qed simp

lemma chained_nonempty: "chained ps \<Longrightarrow> p \<in> set ps \<Longrightarrow> p_start p < p_end p"
  by (induction ps rule: chained.induct) auto

text \<open>A share of the quota rounded to hundredths is within half a hundredth of the exact share.\<close>

lemma period_share_near:
  assumes "0 \<le> q" and "q \<le> 10 ^ 6" and n: "n \<in> {4, 12}"
    and due: "due = half_up_int (js_fl (js_fl (cents q / of_int n) * 100))"
  shows "0 \<le> due \<and> \<bar>n * due - q\<bar> \<le> n div 2"
proof -
  let ?c = "cents q" and ?pp = "js_fl (cents q / of_int n)"
  have c: "0 \<le> ?c" "?c \<le> 10 ^ 4 + 1" using cents_range [OF assms(1,2)] by simp_all
  have near: "\<bar>?c - of_int q / 100\<bar> \<le> 1 / 10 ^ 8" using assms by (intro cents_near) simp
  have e1: "\<bar>?pp - ?c / of_int n\<bar> \<le> 1 / 10 ^ 8"
    using n c by (intro order_trans [OF js_err]) (auto simp: abs_divide)
  have pp: "0 \<le> ?pp" "?pp \<le> 10 ^ 4 + 2" using e1 c n unfolding abs_le_iff by (auto intro!: js.fl_nonneg)
  have e2: "\<bar>js_fl (?pp * 100) - ?pp * 100\<bar> \<le> 1 / 10 ^ 6"
    using pp by (intro order_trans [OF js_err]) (simp add: abs_mult)
  have "\<bar>of_int due - js_fl (?pp * 100)\<bar> \<le> 1 / 2" unfolding due by (rule half_up.rnd_near)
  with e1 e2 near n have "\<bar>of_int n * of_int due - of_int q :: rat\<bar> < of_int (n div 2) + 1"
    unfolding abs_le_iff abs_less_iff by auto
  then have "of_int \<bar>n * due - q\<bar> < (of_int (n div 2 + 1) :: rat)" by simp
  then have "\<bar>n * due - q\<bar> < n div 2 + 1" by (simp only: of_int_less_iff)
  moreover have "0 \<le> due" unfolding due by (rule half_up.rnd_ge) (simp add: js.fl_nonneg pp)
  ultimately show ?thesis by simp
qed

text \<open>
  A full year comes to the quota, but for rounding: an employee in service from the first day of
  the leave year has, once the last period has started, the quota less at most half a hundredth per
  period (six hundredths for a monthly type, two for a quarterly one), and never more.
\<close>

theorem full_year_credit:
  assumes "proper_input i q 0" and "0 < q" and "ci_frequency i \<noteq> ANNUAL" and "ci_credited i = {}"
    and "ci_start i = lw_start (ci_window i)"
    and "\<forall>p \<in> set (accrual_periods (ci_frequency i) (ci_window i)). ci_start i \<le> p_start p \<and> p_start p \<le> ci_today i"
  shows "q - (if ci_frequency i = MONTHLY then 6 else 2) \<le> credited_cents (credits_due i)
    \<and> credited_cents (credits_due i) \<le> q"
proof -
  let ?ps = "accrual_periods (ci_frequency i) (ci_window i)" and ?n = "if ci_frequency i = MONTHLY then 12 else 4 :: int"
  define pp where "pp = js_fl (cents q / of_nat (length ?ps))"
  define due where "due = half_up_int (js_fl (pp * 100))"
  have w: "lw_start (ci_window i) < lw_end (ci_window i)" "q \<le> 10 ^ 6" "100 \<le> utc_year (lw_start (ci_window i))"
    using assms(1) by (simp_all add: proper_input_def)
  have ps: "?ps \<noteq> []" using length_accrual_periods [of "ci_frequency i" "ci_window i"] by (auto split: if_splits)
  then have "ci_start i \<le> ci_today i" using assms(6) by (meson list.set_sel(1) order_trans)
  with assms w have eq: "credits_in_cents i q 0 = accrue_cents i pp q ?ps"
    by (simp add: credits_in_cents_def Let_def pp_def)
  have near: "0 \<le> due \<and> \<bar>?n * due - q\<bar> \<le> ?n div 2"
    using assms(2) w(2) by (intro period_share_near) (simp_all add: due_def pp_def length_accrual_periods)
  have chained: "chained ?ps" by (rule accrual_periods_chained [OF w(3)])
  have "p_start p < p_end p" if "p \<in> set ?ps" for p using chained that by (rule chained_nonempty)
  then have "total_cents (credits_in_cents i q 0) = min q (of_nat (length ?ps) * due)"
    unfolding eq using assms near by (intro accrue_cents_full) (auto simp: due_def)
  with near show ?thesis
    unfolding credited_cents_due [OF assms(1)] by (auto simp: length_accrual_periods abs_le_iff min_def split: if_splits)
qed

section \<open>Samples\<close>

text \<open>Fifteen days a year by the month, joined on 16 April 2026 in an April year, run on 10 June.\<close>

definition sample_policy :: credit_input where
  "sample_policy = \<lparr>ci_frequency = MONTHLY, ci_quota = cents 1500, ci_window = leave_year_window 2026 4,
     ci_start = date_utc 2026 3 16, ci_today = date_utc 2026 5 10, ci_credited = {}, ci_accrued = 0, ci_opening = False\<rparr>"

lemma sample_credits:
  "credits_in_cents sample_policy 1500 0 =
     [(date_utc 2026 3 1, date_utc 2026 3 16, 100), (date_utc 2026 4 1, date_utc 2026 4 1, 125),
      (date_utc 2026 5 1, date_utc 2026 5 1, 125)]"
  by code_simp

lemma sample_proper: "proper_input (sample_policy\<lparr>ci_today := t, ci_start := u\<rparr>) 1500 0"
  using leave_year_window_proper [of 2026 4] by (simp add: proper_input_def sample_policy_def close_to_def)

lemma sample_same: "sample_policy = sample_policy\<lparr>ci_today := ci_today sample_policy, ci_start := ci_start sample_policy\<rparr>"
  by simp

lemmas sample_proper0 = sample_proper [where t = "ci_today sample_policy" and u = "ci_start sample_policy", folded sample_same]

theorem credits_in_hundredths_witness:
  "credits_due sample_policy = map credit_of [(date_utc 2026 3 1, date_utc 2026 3 16, 100),
     (date_utc 2026 4 1, date_utc 2026 4 1, 125), (date_utc 2026 5 1, date_utc 2026 5 1, 125)]"
  using credits_in_hundredths [OF sample_proper0] unfolding sample_credits .

theorem credits_within_rules_witness:
  "credited_cents (credits_due sample_policy) \<le> max 0 (1500 - 0) \<and> distinct (map cr_period_start (credits_due sample_policy))"
  using credits_within_rules [OF sample_proper0] by blast

text \<open>Run on 20 April and again on 10 June, or only on 10 June.\<close>

lemma sample_april:
  "credits_in_cents (sample_policy\<lparr>ci_today := date_utc 2026 3 20\<rparr>) 1500 0 = [(date_utc 2026 3 1, date_utc 2026 3 16, 100)]"
  by code_simp

theorem credits_catch_up_witness:
  "credits_due (sample_policy\<lparr>ci_today := date_utc 2026 5 10\<rparr>) =
     credits_due (sample_policy\<lparr>ci_today := date_utc 2026 3 20\<rparr>) @
     credits_due (sample_policy\<lparr>ci_today := date_utc 2026 5 10, ci_credited := {date_utc 2026 3 1}, ci_accrued := cents 100\<rparr>)"
proof -
  let ?early = "credits_due (sample_policy\<lparr>ci_today := date_utc 2026 3 20\<rparr>)"
  have p: "proper_input (sample_policy\<lparr>ci_today := date_utc 2026 3 20\<rparr>) 1500 0"
    using sample_proper [where t = "date_utc 2026 3 20" and u = "ci_start sample_policy"] by simp
  have starts: "set (map cr_period_start ?early) = {date_utc 2026 3 1}"
    unfolding credits_due_cents [OF p] sample_april by (simp add: credit_of_def)
  have total: "credited_cents ?early = 100" unfolding credited_cents_due [OF p] sample_april by simp
  have "date_utc 2026 3 20 \<le> date_utc 2026 5 10" by code_simp
  note credits_catch_up [OF sample_proper0 this refl refl, unfolded starts total]
  moreover have "ci_credited sample_policy = {}" by (simp add: sample_policy_def)
  ultimately show ?thesis using close_cents [of 100] by simp
qed

theorem full_year_credit_witness:
  "1494 \<le> credited_cents (credits_due (sample_policy\<lparr>ci_today := date_utc 2027 2 31, ci_start := date_utc 2026 3 1\<rparr>))"
proof -
  let ?i = "sample_policy\<lparr>ci_today := date_utc 2027 2 31, ci_start := date_utc 2026 3 1\<rparr>"
  have ps: "list_all (\<lambda>p. ci_start ?i \<le> p_start p \<and> p_start p \<le> ci_today ?i)
    (accrual_periods (ci_frequency ?i) (ci_window ?i))" by code_simp
  have "ci_start ?i = lw_start (ci_window ?i)" by (simp add: sample_policy_def leave_year_window_def)
  from full_year_credit [OF sample_proper _ _ _ this] ps show ?thesis by (simp add: sample_policy_def list_all_iff)
qed

text \<open>A monthly type of ten days never reaches ten days: twelve months of 0.83 are 9.96.\<close>

lemma ten_days_fall_short:
  "total_cents (credits_in_cents (sample_policy\<lparr>ci_quota := cents 1000, ci_start := date_utc 2026 3 1,
     ci_today := date_utc 2027 2 31\<rparr>) 1000 0) = 996"
  by code_simp

end
