(* ===== verification/PolicyRuns.thy ===== *)
theory PolicyRuns
  imports LeavePolicy EntitlementProperties
begin

text \<open>
  What a policy run reads from the ledger and leaves in it: the sums of doubles are those of whole
  hundredths, and after a run every period it credited counts as credited, so that a second run has
  nothing left to do.
\<close>

section \<open>Ledger sums in hundredths\<close>

definition row_cents :: "leave_ledger_row \<Rightarrow> int" where
  "row_cents l = half_up_int (ll_delta l * 100)"

definition net_cents :: "leave_ledger_row list \<Rightarrow> int" where
  "net_cents rows = sum_list (map row_cents rows)"

definition gross_cents :: "leave_ledger_row list \<Rightarrow> int" where
  "gross_cents rows = sum_list (map (\<lambda>l. \<bar>row_cents l\<bar>) rows)"

lemma net_cents_simps [simp]:
  "net_cents [] = 0" "net_cents (l # ls) = row_cents l + net_cents ls" "net_cents (ls @ ks) = net_cents ls + net_cents ks"
  by (simp_all add: net_cents_def)

lemma gross_cents_simps [simp]:
  "gross_cents [] = 0" "gross_cents (l # ls) = \<bar>row_cents l\<bar> + gross_cents ls" "gross_cents (ls @ ks) = gross_cents ls + gross_cents ks"
  by (simp_all add: gross_cents_def)

lemma gross_cents_nonneg [simp]: "0 \<le> gross_cents rows"
  by (induction rows) auto

lemma net_le_gross: "\<bar>net_cents rows\<bar> \<le> gross_cents rows"
  by (induction rows) auto

lemma gross_cents_filter: "gross_cents (filter p rows) \<le> gross_cents rows"
  by (induction rows) auto

lemma row_cents_exact:
  assumes "hundredths (ll_delta l)"
  shows "ll_delta l = of_int (row_cents l) / 100"
proof -
  obtain k where k: "ll_delta l = of_int k / 100" using assms by (auto simp: hundredths_def)
  then have "row_cents l = k" by (simp add: row_cents_def half_up_int_near)
  with k show ?thesis by simp
qed

lemma num_row: "hundredths (ll_delta l) \<Longrightarrow> num (ll_delta l) = cents (row_cents l)"
  by (subst row_cents_exact) (simp_all add: num_cents)

text \<open>The plain double sum stays close to the exact one, the rounded one is exact.\<close>

lemma add_close:
  assumes x: "\<bar>x - of_int a / 100\<bar> \<le> e" and e: "e \<le> 1 / 10" and a: "\<bar>a\<bar> \<le> 10 ^ 8" and k: "\<bar>k\<bar> \<le> 10 ^ 8"
  shows "\<bar>js_fl (x + cents k) - of_int (a + k) / 100\<bar> \<le> e + 1 / 10 ^ 7"
proof -
  have ak: "\<bar>of_int a :: rat\<bar> \<le> 10 ^ 8" "\<bar>of_int k :: rat\<bar> \<le> 10 ^ 8"
    using a k of_int_le_iff [of "\<bar>a\<bar>" "10 ^ 8", where ?'a = rat] of_int_le_iff [of "\<bar>k\<bar>" "10 ^ 8", where ?'a = rat]
    by simp_all
  have c: "\<bar>cents k - of_int k / 100\<bar> \<le> 1 / 10 ^ 8" using k by (intro cents_near) simp
  have "\<bar>x + cents k\<bar> \<le> 10 ^ 7" using x e c ak unfolding abs_le_iff by simp
  with js_err [of "x + cents k"] have "\<bar>js_fl (x + cents k) - (x + cents k)\<bar> \<le> 1 / 10 ^ 8"
    by (simp add: field_simps)
  with x c show ?thesis unfolding abs_le_iff by (simp add: add_divide_distrib)
qed

lemma fold_close:
  assumes "\<bar>x - of_int a / 100\<bar> \<le> e" and "e + of_nat (length ks) / 10 ^ 7 \<le> 1 / 10"
    and "\<bar>a\<bar> + (\<Sum>k \<leftarrow> ks. \<bar>k\<bar>) \<le> 10 ^ 8"
  shows "\<bar>foldl (\<lambda>a k. js_fl (a + cents k)) x ks - of_int (a + sum_list ks) / 100\<bar> \<le> e + of_nat (length ks) / 10 ^ 7"
  using assms
proof (induction ks arbitrary: x a e)
  case (Cons k ks)
  have nn: "0 \<le> (\<Sum>k \<leftarrow> ks. \<bar>k\<bar>)" by (rule sum_list_nonneg) auto
  have b: "\<bar>a\<bar> \<le> 10 ^ 8" "\<bar>k\<bar> \<le> 10 ^ 8" "\<bar>a + k\<bar> + (\<Sum>k \<leftarrow> ks. \<bar>k\<bar>) \<le> 10 ^ 8"
    using Cons.prems(3) nn unfolding list.map sum_list.Cons by linarith+
  have e: "e \<le> 1 / 10" "e + 1 / 10 ^ 7 + of_nat (length ks) / 10 ^ 7 \<le> 1 / 10"
    using Cons.prems(2) order_trans [of e "e + of_nat (length (k # ks)) / 10 ^ 7"] by (simp_all add: add_divide_distrib)
  have "\<bar>js_fl (x + cents k) - of_int (a + k) / 100\<bar> \<le> e + 1 / 10 ^ 7"
    by (rule add_close [OF Cons.prems(1) e(1) b(1,2)])
  from Cons.IH [OF this e(2) b(3)] show ?case by (simp add: add.assoc add_divide_distrib)
qed simp

lemma fold_close_0:
  assumes "length ks \<le> 900" and "(\<Sum>k \<leftarrow> ks. \<bar>k\<bar>) \<le> 10 ^ 8"
  shows "close_to (foldl (\<lambda>a k. js_fl (a + cents k)) 0 ks) (sum_list ks)"
proof -
  have n: "(of_nat (length ks) :: rat) \<le> 900" using assms(1) by simp
  then have "\<bar>foldl (\<lambda>a k. js_fl (a + cents k)) 0 ks - of_int (0 + sum_list ks) / 100\<bar> \<le> 0 + of_nat (length ks) / 10 ^ 7"
    using assms(2) by (intro fold_close) simp_all
  with n show ?thesis unfolding close_to_def by simp
qed

lemma fold_rows:
  "\<forall>l \<in> set rows. hundredths (ll_delta l) \<Longrightarrow>
    foldl (\<lambda>a l. js_fl (a + num (ll_delta l))) x rows = foldl (\<lambda>a k. js_fl (a + cents k)) x (map row_cents rows)"
  by (induction rows arbitrary: x) (simp_all add: num_row)

lemma fold_round2:
  assumes "\<forall>l \<in> set rows. hundredths (ll_delta l)" and "\<bar>a\<bar> + gross_cents rows \<le> 10 ^ 8"
  shows "foldl (\<lambda>a l. round2 (js_fl (a + num (ll_delta l)))) (cents a) rows = cents (a + net_cents rows)"
  using assms
proof (induction rows arbitrary: a)
  case (Cons l ls)
  have b: "\<bar>a\<bar> \<le> 10 ^ 8" "\<bar>row_cents l\<bar> \<le> 10 ^ 8" "\<bar>a + row_cents l\<bar> + gross_cents ls \<le> 10 ^ 8"
    using Cons.prems(2) gross_cents_nonneg [of ls] unfolding gross_cents_simps by linarith+
  have "round2 (js_fl (cents a + num (ll_delta l))) = cents (a + row_cents l)"
    using Cons.prems(1) round2_sum [OF b(1,2)] by (simp add: num_row)
  with Cons.IH [of "a + row_cents l"] Cons.prems b(3) show ?case by (simp add: add.assoc)
qed simp

text \<open>A pair's entries of one leave year: at most a thousand, hundredths, and sums within the columns.\<close>

definition small_ledger :: "nat \<Rightarrow> int \<Rightarrow> leave_ledger_row list \<Rightarrow> bool" where
  "small_ledger n m rows \<longleftrightarrow> length rows \<le> n \<and> gross_cents rows \<le> m \<and> (\<forall>l \<in> set rows. hundredths (ll_delta l))"

lemma small_ledger_filter: "small_ledger n m rows \<Longrightarrow> small_ledger n m (filter p rows)"
  using gross_cents_filter [of p rows] by (auto simp: small_ledger_def intro: order_trans [OF length_filter_le])

lemma accrued_close:
  assumes "small_ledger 900 (10 ^ 7) rows"
  shows "close_to (accrued_so_far rows) (net_cents (accruals rows))"
proof -
  have s: "small_ledger 900 (10 ^ 7) (accruals rows)" unfolding accruals_def by (rule small_ledger_filter [OF assms])
  then show ?thesis
    using fold_close_0 [of "map row_cents (accruals rows)"]
    by (simp add: accrued_so_far_def fold_rows small_ledger_def net_cents_def gross_cents_def comp_def)
qed

definition period_cents :: "accrual_frequency \<Rightarrow> leave_window \<Rightarrow> leave_ledger_row list \<Rightarrow> date \<Rightarrow> int" where
  "period_cents f w rows d = net_cents (filter (\<lambda>l. period_start_of f w l = Some d) (accruals rows))"

lemma period_net_cents:
  assumes "small_ledger n (10 ^ 7) rows"
  shows "period_net f w rows d = cents (period_cents f w rows d)"
proof -
  let ?rows = "filter (\<lambda>l. period_start_of f w l = Some d) (accruals rows)"
  have "small_ledger n (10 ^ 7) ?rows" unfolding accruals_def by (intro small_ledger_filter assms)
  then show ?thesis
    using fold_round2 [of ?rows 0] by (simp add: period_net_def period_cents_def small_ledger_def)
qed

lemma credited_periods_iff:
  assumes "small_ledger n (10 ^ 7) rows"
  shows "d \<in> credited_periods f w rows \<longleftrightarrow> 0 < period_cents f w rows d"
proof
  show "0 < period_cents f w rows d" if "d \<in> credited_periods f w rows"
    using that period_net_cents [OF assms, of f w d] by (auto simp: credited_periods_def cents_pos)
  assume pos: "0 < period_cents f w rows d"
  then have "filter (\<lambda>l. period_start_of f w l = Some d) (accruals rows) \<noteq> []"
    unfolding period_cents_def by (intro notI) simp
  then obtain l where "l \<in> set (accruals rows)" "period_start_of f w l = Some d" by (auto simp: filter_empty_conv)
  then have "d \<in> set (List.map_filter (period_start_of f w) (accruals rows))"
    by (force simp: List.map_filter_def)
  with pos period_net_cents [OF assms, of f w d] show "d \<in> credited_periods f w rows"
    by (simp add: credited_periods_def cents_pos)
qed

section \<open>Where a credit is dated\<close>

lemma accrue_cents_open:
  "x \<in> set (accrue_cents i pp r ps) \<Longrightarrow> \<exists>p \<in> set ps. fst x = p_start p \<and> ci_start i < p_end p
     \<and> fst (snd x) = max (p_start p) (ci_start i)"
proof (induction ps arbitrary: r)
  case (Cons p ps)
  from Cons.prems consider "x \<in> set (accrue_cents i pp r ps)"
    | "x \<in> set (accrue_cents i pp (r - min (due_cents (ci_start i) pp p) r) ps)"
    | "x = (p_start p, max (p_start p) (ci_start i), min (due_cents (ci_start i) pp p) r)" "ci_start i < p_end p"
    by (auto simp: Let_def not_less not_le split: if_splits)
  then show ?case by cases (use Cons.IH in \<open>auto simp: Let_def\<close>)
qed simp

lemma chained_find:
  assumes "chained ps" and "p \<in> set ps" and "p_start p \<le> d" and "d < p_end p"
  shows "find_row (\<lambda>p. p_start p \<le> d \<and> d < p_end p) ps = Some p"
  using assms
proof (induction ps)
  case (Cons q ps)
  show ?case
  proof (cases "p = q")
    case False
    with Cons.prems have "p \<in> set ps" "p_end q \<le> p_start p" by auto
    with Cons show ?thesis by auto
  qed (use Cons.prems in simp)
qed simp

lemma date_utc_months_le: "100 \<le> y \<Longrightarrow> date_utc y m 1 \<le> date_utc y (m + int n) 1"
  using date_utc_months_less [of y n m] by (cases "n = 0") auto

lemma periods_inside:
  assumes w: "w = leave_year_window y m" and y: "100 \<le> y" and m: "1 \<le> m" "m \<le> 12" and p: "p \<in> set (accrual_periods f w)"
  shows "lw_start w \<le> p_start p \<and> p_end p \<le> lw_end w"
proof -
  have r: "utc_year (lw_start w) = y" "utc_month (lw_start w) = m - 1"
    using utc_readers [of y "m - 1" 1] days_in_month_bounds [of "m - 1" y] y m by (simp_all add: w leave_year_window_def)
  have e: "lw_end w = date_utc y (m - 1 + int 12) 1"
    using y make_day_carry [of y "m - 1" 1] by (simp add: w leave_year_window_def date_utc_def)
  have b: "lw_start w = date_utc y (m - 1) 1" by (simp add: w leave_year_window_def)
  have "\<exists>i step. p_start p = date_utc y (m - 1 + int i) 1 \<and> p_end p = date_utc y (m - 1 + int i + int step) 1 \<and> i + step \<le> 12"
  proof (cases "f = MONTHLY")
    case True
    with p have "p \<in> (\<lambda>i. \<lparr>p_start = date_utc y (m - 1 + int i) 1, p_end = date_utc y (m - 1 + int i + 1) 1\<rparr>) `
      set [0, 1, 2, 3, 4, 5, 6, 7, 8, 9, 10, 11]" unfolding accrual_periods_eq Let_def r by (simp only: if_True refl set_map)
    then obtain i where i: "p = \<lparr>p_start = date_utc y (m - 1 + int i) 1, p_end = date_utc y (m - 1 + int i + 1) 1\<rparr>"
      "i \<in> set [0, 1, 2, 3, 4, 5, 6, 7, 8, 9, 10, 11]" by (rule imageE)
    from i(2) have "i \<le> 11" by (simp, elim disjE) simp_all
    then show ?thesis by (intro exI [of _ i] exI [of _ 1]) (simp add: i(1))
  next
    case False
    with p have "p \<in> (\<lambda>i. \<lparr>p_start = date_utc y (m - 1 + int i) 1, p_end = date_utc y (m - 1 + int i + 3) 1\<rparr>) `
      set [0, 3, 6, 9]" unfolding accrual_periods_eq Let_def r by (simp only: if_False set_map)
    then obtain i where i: "p = \<lparr>p_start = date_utc y (m - 1 + int i) 1, p_end = date_utc y (m - 1 + int i + 3) 1\<rparr>"
      "i \<in> set [0, 3, 6, 9]" by (rule imageE)
    from i(2) have "i \<le> 9" by (simp, elim disjE) simp_all
    then show ?thesis by (intro exI [of _ i] exI [of _ 3]) (simp add: i(1))
  qed
  then obtain i step where pos: "p_start p = date_utc y (m - 1 + int i) 1"
    "p_end p = date_utc y (m - 1 + int (i + step)) 1" "i + step \<le> 12" by (auto simp: add.assoc)
  have "date_utc y (m - 1 + int (i + step)) 1 \<le> date_utc y (m - 1 + int (i + step) + int (12 - (i + step))) 1"
    by (rule date_utc_months_le [OF y])
  moreover have "m - 1 + int (i + step) + int (12 - (i + step)) = m - 1 + int 12" using pos(3) by simp
  ultimately show ?thesis using date_utc_months_le [OF y, of "m - 1" i] by (simp only: b e pos)
qed

text \<open>A credit's entry falls into the leave year and into the period the credit is for.\<close>

lemma credit_places:
  assumes w: "ci_window i = leave_year_window y m" and y: "100 \<le> y" and m: "1 \<le> m" "m \<le> 12"
    and start: "lw_start (ci_window i) \<le> ci_start i" and x: "(s, d, k) \<in> set (credits_in_cents i q a)"
  shows "in_window (ci_window i) d \<and> map_option p_start (period_containing (ci_frequency i) (ci_window i) d) = Some s"
proof (cases "ci_frequency i = ANNUAL")
  case True
  with x have "s = lw_start (ci_window i)" "d = ci_start i" "ci_start i < lw_end (ci_window i)"
    by (auto simp: credits_in_cents_def annual_cents_def Let_def split: if_splits)
  with True start show ?thesis by (simp add: in_window_def period_containing_def)
next
  case False
  let ?ps = "accrual_periods (ci_frequency i) (ci_window i)"
  from False x obtain pp where "(s, d, k) \<in> set (accrue_cents i pp (q - a) ?ps)"
    by (auto simp: credits_in_cents_def Let_def split: if_splits)
  from accrue_cents_open [OF this] obtain p where p: "p \<in> set ?ps" "s = p_start p" "ci_start i < p_end p"
    "d = max (p_start p) (ci_start i)" by auto
  have ch: "chained ?ps" using leave_year_window_proper(2) [OF y m] y by (intro accrual_periods_chained) (simp add: w)
  have ne: "p_start q < p_end q" if "q \<in> set ?ps" for q using ch that by (rule chained_nonempty)
  have d: "p_start p \<le> d" "d < p_end p" using p(3,4) ne [OF p(1)] by auto
  have in_w: "in_window (ci_window i) d" using periods_inside [OF w y m p(1)] d by (auto simp: in_window_def)
  with chained_find [OF ch p(1) d] False p(2) show ?thesis
    by (auto simp: period_containing_def in_window_def)
qed

end
