(* ===== verification/PolicyBooks.thy ===== *)
theory PolicyBooks
  imports PolicyRuns LeaveBooks
begin

text \<open>
  A run that credits days - the policy run and the carry-forward run are two instances of one
  interface - adds to every balance exactly what it writes to the ledger.
\<close>

section \<open>Increments and new balances\<close>

definition whole_cents :: "number \<Rightarrow> bool" where
  "whole_cents x \<longleftrightarrow> (\<exists>k. x = cents k \<and> \<bar>k\<bar> \<le> 10 ^ 8)"

lemma whole_centsE:
  assumes "whole_cents x"
  obtains k where "x = num (days_col x)" "hundredths (days_col x)" "x = cents k" "days_col x = of_int k / 100" "\<bar>k\<bar> \<le> 10 ^ 8"
proof -
  obtain k where k: "x = cents k" "\<bar>k\<bar> \<le> 10 ^ 8" using assms by (auto simp: whole_cents_def)
  moreover from k have c: "days_col x = of_int k / 100" by (simp add: days_col_cents)
  moreover have "x = num (days_col x)" unfolding c num_cents by (rule k(1))
  moreover from k c have "hundredths (days_col x)" unfolding hundredths_def by (intro exI [of _ k]) simp
  ultimately show thesis by (intro that)
qed

definition pair_days :: "id \<Rightarrow> id \<Rightarrow> (id \<times> id \<times> number) list \<Rightarrow> decimal" where
  "pair_days e t ps = (\<Sum>(e', t', d) \<leftarrow> ps. if e' = e \<and> t' = t then days_col d else 0)"

lemma pair_days_simps [simp]:
  "pair_days e t [] = 0"
  "pair_days e t ((e', t', d) # ps) = (if e' = e \<and> t' = t then days_col d else 0) + pair_days e t ps"
  "pair_days e t (ps @ qs) = pair_days e t ps + pair_days e t qs"
  by (simp_all add: pair_days_def)

definition table_ok :: "leave_balance_row table \<Rightarrow> bool" where
  "table_ok bs \<longleftrightarrow> distinct (map balance_key bs) \<and> (\<forall>b \<in> set bs. on_grid (lb_accrued b) \<and> on_grid (lb_used b))"

lemma has_key_iff: "has_key e t y = (\<lambda>b. balance_key b = (e, t, y))"
  by (auto simp: fun_eq_iff has_key_def balance_key_def)

lemma increment_effect:
  assumes ok: "table_ok bs" and d: "whole_cents d" and k: "(e', t', y) \<in> balance_key ` set bs"
    and bs': "bs' = increment_balance y bs (e', t', d)"
  shows "table_ok bs' \<and> map balance_key bs' = map balance_key bs
    \<and> total (of_pair e t balance_value) bs' = total (of_pair e t balance_value) bs + (if e' = e \<and> t' = t then days_col d else 0)
    \<and> total (of_pair e t lb_used) bs' = total (of_pair e t lb_used) bs"
proof -
  let ?p = "\<lambda>b. balance_key b = (e', t', y)" and ?f = "\<lambda>b. b\<lparr>lb_accrued := column_add (lb_accrued b) d\<rparr>"
  have bs'_eq: "bs' = update_rows ?p ?f bs" by (simp add: bs' increment_balance_def has_key_iff)
  obtain r where r: "find_row ?p bs = Some r"
    using k by (cases "find_row ?p bs") auto
  then have rin: "r \<in> set bs" "balance_key r = (e', t', y)" using find_row_SomeD by fastforce+
  have dist: "distinct (map balance_key bs)" using ok by (simp add: table_ok_def)
  obtain c where c: "d = num (days_col d)" "hundredths (days_col d)" using d by (rule whole_centsE)
  have add: "column_add v d = v + days_col d" if "on_grid v" for v
    using column_add_exact [OF that c(2)] c(1) by simp
  have grid: "on_grid (lb_accrued r)" using ok rin(1) by (simp add: table_ok_def)
  have key: "balance_key (?f b) = balance_key b" for b by (simp add: balance_key_def)
  have keys: "map balance_key bs' = map balance_key bs" unfolding bs'_eq by (simp add: update_rows_def key)
  have "of_pair e t g (?f r) - of_pair e t g r = (if e' = e \<and> t' = t then w else 0)"
    if "g (?f r) = g r + w" for g w
    using that rin(2) by (auto simp: of_pair_def balance_key_def)
  from this [of balance_value "days_col d"] this [of lb_used 0] add [OF grid]
  have "total (of_pair e t balance_value) bs' = total (of_pair e t balance_value) bs + (if e' = e \<and> t' = t then days_col d else 0)"
    "total (of_pair e t lb_used) bs' = total (of_pair e t lb_used) bs"
    unfolding bs'_eq by (simp_all add: total_update_row [OF dist r] balance_value_def)
  moreover have "table_ok bs'"
    using dist keys ok add c(2) unfolding table_ok_def by (auto simp: bs'_eq in_set_update_rows)
  ultimately show ?thesis using keys by simp
qed

lemma increments_effect:
  assumes "table_ok bs" and "\<forall>(e, t, d) \<in> set incs. whole_cents d \<and> (e, t, y) \<in> balance_key ` set bs"
    and "bs' = foldl (increment_balance y) bs incs"
  shows "table_ok bs' \<and> map balance_key bs' = map balance_key bs
    \<and> total (of_pair e t balance_value) bs' = total (of_pair e t balance_value) bs + pair_days e t incs
    \<and> total (of_pair e t lb_used) bs' = total (of_pair e t lb_used) bs"
  using assms
proof (induction incs arbitrary: bs)
  case (Cons i incs)
  obtain e' t' d where i: "i = (e', t', d)" by (cases i)
  let ?b1 = "increment_balance y bs (e', t', d)"
  have d: "whole_cents d" "(e', t', y) \<in> balance_key ` set bs" using Cons.prems(2) by (auto simp: i)
  note one = increment_effect [OF Cons.prems(1) d refl, of e t]
  then have "balance_key ` set ?b1 = balance_key ` set bs" by (metis list.set_map)
  with Cons.prems(2) have "\<forall>(e, t, d) \<in> set incs. whole_cents d \<and> (e, t, y) \<in> balance_key ` set ?b1" by auto
  from Cons.IH [OF _ this] one Cons.prems(3) show ?case by (simp add: i)
qed simp

lemma created_effect:
  assumes "\<forall>(e, t, d) \<in> set news. whole_cents d"
  shows "total (of_pair e t balance_value) (map (created_balance y) news) = pair_days e t news
    \<and> total (of_pair e t lb_used) (map (created_balance y) news) = 0
    \<and> (\<forall>b \<in> set (map (created_balance y) news). on_grid (lb_accrued b) \<and> on_grid (lb_used b))"
  using assms
proof (induction news)
  case (Cons n ns)
  obtain e' t' d where n: "n = (e', t', d)" by (cases n)
  then have "whole_cents d" using Cons.prems by simp
  then have "hundredths (days_col d)" by (rule whole_centsE)
  with Cons show ?case by (auto simp: n created_balance_def of_pair_def balance_value_def)
qed simp

section \<open>The writes of a run\<close>

definition post_new :: "('x \<Rightarrow> id) \<Rightarrow> ('x \<Rightarrow> id) \<Rightarrow> ('x \<Rightarrow> leave_balance_row option) \<Rightarrow> ('x \<Rightarrow> credit list) \<Rightarrow> 'x \<Rightarrow> (id \<times> id \<times> number) list" where
  "post_new e t bal cs x = (if cs x = [] \<or> bal x \<noteq> None then [] else [(e x, t x, sum_credits (cs x))])"

definition post_increment :: "('x \<Rightarrow> id) \<Rightarrow> ('x \<Rightarrow> id) \<Rightarrow> ('x \<Rightarrow> leave_balance_row option) \<Rightarrow> ('x \<Rightarrow> credit list) \<Rightarrow> 'x \<Rightarrow> (id \<times> id \<times> number) list" where
  "post_increment e t bal cs x = (if cs x = [] \<or> bal x = None then [] else [(e x, t x, sum_credits (cs x))])"

definition post_entries :: "('x \<Rightarrow> id) \<Rightarrow> ('x \<Rightarrow> id) \<Rightarrow> ('x \<Rightarrow> leave_balance_row option) \<Rightarrow> ('x \<Rightarrow> credit list) \<Rightarrow> ledger_source \<Rightarrow> 'x \<Rightarrow> ledger_write list" where
  "post_entries e t bal cs src x =
     running_entries (e x) (t x) src (case bal x of None \<Rightarrow> 0 | Some b \<Rightarrow> available_of b) (cs x)"

lemma foldl_plan:
  "foldl (\<lambda>ws x. if cs x = [] then ws else plan (e x) (t x) (bal x) (cs x) src ws) ws xs =
    \<lparr>pw_new = pw_new ws @ concat (map (post_new e t bal cs) xs),
     pw_increments = pw_increments ws @ concat (map (post_increment e t bal cs) xs),
     pw_ledger = pw_ledger ws @ concat (map (post_entries e t bal cs src) xs)\<rparr>"
proof (induction xs arbitrary: ws)
  case (Cons x xs)
  show ?case
    by (cases "bal x") (simp_all add: Cons.IH plan_def Let_def post_new_def post_increment_def post_entries_def)
qed simp

lemma ledger_row_entries:
  "map ll_delta (map ledger_row (running_entries e t src r cs)) = map (days_col \<circ> cr_amount) cs"
  "map ll_occurred_at (map ledger_row (running_entries e t src r cs)) = map cr_occurred_at cs"
  "l \<in> set (map ledger_row (running_entries e t src r cs)) \<Longrightarrow> ll_employee l = e \<and> ll_type l = t \<and> ll_source l = src"
  by (induction cs arbitrary: r) (auto simp: Let_def ledger_row_def)

text \<open>Of a list of groups, each with its own key, the rows of one key are one group.\<close>

lemma filter_concat_keys:
  assumes "distinct (map key xs)" and "\<And>x r. x \<in> set xs \<Longrightarrow> r \<in> set (g x) \<Longrightarrow> k r = key x"
  shows "filter (\<lambda>r. k r = v) (concat (map g xs)) = (case find_row (\<lambda>x. key x = v) xs of None \<Rightarrow> [] | Some x \<Rightarrow> g x)"
  using assms
proof (induction xs)
  case (Cons x xs)
  have IH: "filter (\<lambda>r. k r = v) (concat (map g xs)) = (case find_row (\<lambda>x. key x = v) xs of None \<Rightarrow> [] | Some x \<Rightarrow> g x)"
    using Cons by auto
  show ?case
  proof (cases "key x = v")
    case True
    have "find_row (\<lambda>x. key x = v) xs = None" using Cons.prems(1) True by (force simp: image_iff)
    moreover have "filter (\<lambda>r. k r = v) (g x) = g x" using Cons.prems(2) True by (auto intro: filter_True)
    ultimately show ?thesis using IH True by (simp add: find_row_def)
  next
    case False
    then have "filter (\<lambda>r. k r = v) (g x) = []"
      using Cons.prems(2) [OF list.set_intros(1)] by (auto simp: filter_empty_conv)
    with IH False show ?thesis by (simp add: find_row_def)
  qed
qed (simp add: find_row_def)

lemma total_by_pair: "total (\<lambda>l. if ll_employee l = e \<and> ll_type l = t then ll_delta l else 0) ls
    = sum_list (map ll_delta (filter (\<lambda>l. (ll_employee l, ll_type l) = (e, t)) ls))"
  by (induction ls) auto

lemma post_new_distinct:
  assumes "distinct (map (\<lambda>x. (e x, t x)) xs)"
  shows "distinct (map (\<lambda>(e, t, d). (e, t, y)) (concat (map (post_new e t bal cs) xs)))"
  using assms
proof (induction xs)
  case (Cons x xs)
  have "(e x, t x, y) \<notin> (\<lambda>(e, t, d). (e, t, y)) ` set (concat (map (post_new e t bal cs) xs))"
    using Cons.prems by (auto simp: post_new_def split: if_splits)
  with Cons show ?case by (simp add: post_new_def)
qed simp

section \<open>The interface of a crediting run\<close>

text \<open>
  A run over items (an employee and a type each, no pair twice), each with the credits it is owed in
  whole hundredths. The provider says when its tables are ready for that.
\<close>

locale credit_run =
  fixes ready :: "leave_db \<Rightarrow> bool" and items :: "leave_db \<Rightarrow> 'x list" and emp ty :: "'x \<Rightarrow> id"
    and owed :: "leave_db \<Rightarrow> 'x \<Rightarrow> credit list" and src :: ledger_source and year :: "leave_db \<Rightarrow> int"
    and run :: "leave_db \<Rightarrow> (nat \<times> nat) \<times> leave_db"
  assumes run_posts: "run s = write_policy (year s)
      (foldl (\<lambda>ws x. if owed s x = [] then ws
         else plan (emp x) (ty x) (balance_of (emp x) (ty x) (year s) s) (owed s x) src ws) no_writes (items s)) s"
    and distinct_items: "ready s \<Longrightarrow> distinct (map (\<lambda>x. (emp x, ty x)) (items s))"
    and owed_cents: "ready s \<Longrightarrow> x \<in> set (items s) \<Longrightarrow>
      \<exists>ks. map cr_amount (owed s x) = map cents ks \<and> (\<forall>k \<in> set ks. 0 < k) \<and> sum_list ks \<le> 2 * 10 ^ 7 \<and> length ks \<le> 900"
begin

lemma run_eq:
  fixes s
  defines "bal \<equiv> \<lambda>x. balance_of (emp x) (ty x) (year s) s"
  shows "lv_balances (snd (run s)) = foldl (increment_balance (year s))
      (lv_balances s @ map (created_balance (year s)) (concat (map (post_new emp ty bal (owed s)) (items s))))
      (concat (map (post_increment emp ty bal (owed s)) (items s)))"
    and "lv_ledger (snd (run s)) = lv_ledger s @ concat (map (\<lambda>x. map ledger_row (post_entries emp ty bal (owed s) src x)) (items s))"
    and "fst (run s) = (length (concat (map (post_entries emp ty bal (owed s) src) (items s))),
      length (concat (map (post_new emp ty bal (owed s)) (items s))))"
    and "snd (run s) = s\<lparr>lv_balances := lv_balances (snd (run s)), lv_ledger := lv_ledger (snd (run s))\<rparr>"
  unfolding run_posts bal_def foldl_plan by (simp_all add: write_policy_def no_writes_def map_concat comp_def)

lemma run_pair_ledger:
  assumes "ready s"
  shows "filter (\<lambda>l. (ll_employee l, ll_type l) = (e, t)) (lv_ledger (snd (run s))) =
    filter (\<lambda>l. (ll_employee l, ll_type l) = (e, t)) (lv_ledger s) @
    (case find_row (\<lambda>x. (emp x, ty x) = (e, t)) (items s) of None \<Rightarrow> []
     | Some x \<Rightarrow> map ledger_row (post_entries emp ty (\<lambda>x. balance_of (emp x) (ty x) (year s) s) (owed s) src x))"
proof -
  let ?g = "\<lambda>x. map ledger_row (post_entries emp ty (\<lambda>x. balance_of (emp x) (ty x) (year s) s) (owed s) src x)"
  have "filter (\<lambda>l. (ll_employee l, ll_type l) = (e, t)) (concat (map ?g (items s)))
      = (case find_row (\<lambda>x. (emp x, ty x) = (e, t)) (items s) of None \<Rightarrow> [] | Some x \<Rightarrow> ?g x)"
  proof (rule filter_concat_keys [OF distinct_items [OF assms]])
    show "(ll_employee r, ll_type r) = (emp x, ty x)" if "r \<in> set (?g x)" for x r
      using that ledger_row_entries(3) unfolding post_entries_def by blast
  qed
  then show ?thesis unfolding run_eq(2) by simp
qed

lemma owed_sum:
  assumes "ready s" and "x \<in> set (items s)"
  shows "whole_cents (sum_credits (owed s x)) \<and> days_col (sum_credits (owed s x)) = sum_list (map (days_col \<circ> cr_amount) (owed s x))"
proof -
  obtain ks where ks: "map cr_amount (owed s x) = map cents ks" "\<forall>k \<in> set ks. 0 < k" "sum_list ks \<le> 2 * 10 ^ 7" "length ks \<le> 900"
    using owed_cents [OF assms] by blast
  have abs: "map abs ks = ks" using ks(2) by (induct ks) auto
  have pos: "0 \<le> sum_list ks" using ks(2) by (intro sum_list_nonneg) auto
  have "foldl (\<lambda>s c. js_fl (s + cr_amount c)) 0 (owed s x) = foldl (\<lambda>a d. js_fl (a + d)) 0 (map cr_amount (owed s x))"
    by (simp add: foldl_map)
  also have "\<dots> = foldl (\<lambda>a k. js_fl (a + cents k)) 0 ks" unfolding ks(1) by (simp add: foldl_map)
  finally have "close_to (foldl (\<lambda>s c. js_fl (s + cr_amount c)) 0 (owed s x)) (sum_list ks)"
    using fold_close_0 [of ks] ks abs by simp
  then have sum: "sum_credits (owed s x) = cents (sum_list ks)"
    unfolding sum_credits_def using ks(3) pos by (intro round2_about close_about) simp_all
  then have whole: "whole_cents (sum_credits (owed s x))" unfolding whole_cents_def using pos ks(3) by (intro exI [of _ "sum_list ks"]) simp
  have le: "k \<le> sum_list ks" if "k \<in> set ks" for k
    using that ks(2) by (intro member_le_sum_list) auto
  have "map (days_col \<circ> cr_amount) (owed s x) = map days_col (map cents ks)" unfolding ks(1) [symmetric] by simp
  also have "\<dots> = map (\<lambda>k. of_int k / 100) ks"
    using le ks(2,3) by (force simp: days_col_cents)
  finally have cols: "map (days_col \<circ> cr_amount) (owed s x) = map (\<lambda>k. of_int k / 100) ks" .
  have "sum_list (map (\<lambda>k. of_int k / 100) ks) = (of_int (sum_list ks) / 100 :: rat)"
    by (induct ks) (simp_all add: add_divide_distrib)
  then have "sum_list (map (days_col \<circ> cr_amount) (owed s x)) = of_int (sum_list ks) / 100" unfolding cols .
  with whole sum pos ks(3) show ?thesis by (simp add: days_col_cents)
qed

lemma item_days:
  assumes "ready s" and "x \<in> set (items s)"
  shows "pair_days e t (post_new emp ty bal (owed s) x) + pair_days e t (post_increment emp ty bal (owed s) x)
    = total (\<lambda>l. if ll_employee l = e \<and> ll_type l = t then ll_delta l else 0) (map ledger_row (post_entries emp ty bal (owed s) src x))"
proof -
  let ?rows = "map ledger_row (post_entries emp ty bal (owed s) src x)"
  have rows: "filter (\<lambda>l. (ll_employee l, ll_type l) = (e, t)) ?rows = (if emp x = e \<and> ty x = t then ?rows else [])"
  proof -
    have k: "ll_employee l = emp x \<and> ll_type l = ty x" if "l \<in> set ?rows" for l
      using that ledger_row_entries(3) unfolding post_entries_def by blast
    have "filter (\<lambda>l. (ll_employee l, ll_type l) = (e, t)) ?rows = filter (\<lambda>l. emp x = e \<and> ty x = t) ?rows"
      by (rule filter_cong [OF refl]) (simp only: prod.inject k)
    then show ?thesis by simp
  qed
  have "total (\<lambda>l. if ll_employee l = e \<and> ll_type l = t then ll_delta l else 0) ?rows
      = (if emp x = e \<and> ty x = t then sum_list (map (days_col \<circ> cr_amount) (owed s x)) else 0)"
    unfolding total_by_pair rows by (simp add: post_entries_def ledger_row_entries(1) del: map_map)
  then show ?thesis using owed_sum [OF assms] by (simp add: post_new_def post_increment_def)
qed

lemma items_days:
  assumes "ready s" and "set xs \<subseteq> set (items s)"
  shows "pair_days e t (concat (map (post_new emp ty bal (owed s)) xs)) + pair_days e t (concat (map (post_increment emp ty bal (owed s)) xs))
    = total (\<lambda>l. if ll_employee l = e \<and> ll_type l = t then ll_delta l else 0)
        (concat (map (\<lambda>x. map ledger_row (post_entries emp ty bal (owed s) src x)) xs))"
  using assms(2)
proof (induction xs)
  case (Cons x xs)
  then have "x \<in> set (items s)" by simp
  from item_days [OF assms(1) this, of e t bal] Cons show ?case by (simp add: ac_simps)
qed simp

text \<open>The run's own effect on the books of a pair.\<close>

lemma run_balances:
  assumes r: "ready s" and ok: "balances_ok s"
  shows "balances_ok (snd (run s))
    \<and> available_days e t (snd (run s)) - ledger_days e t (snd (run s)) = available_days e t s - ledger_days e t s
    \<and> used_days e t (snd (run s)) = used_days e t s
    \<and> balance_key ` set (lv_balances s) \<subseteq> balance_key ` set (lv_balances (snd (run s)))"
proof -
  let ?y = "year s" and ?bal = "\<lambda>x. balance_of (emp x) (ty x) (year s) s"
  define news where "news = concat (map (post_new emp ty ?bal (owed s)) (items s))"
  define incs where "incs = concat (map (post_increment emp ty ?bal (owed s)) (items s))"
  define bs1 where "bs1 = lv_balances s @ map (created_balance ?y) news"
  have found: "?bal x = None \<longleftrightarrow> (emp x, ty x, ?y) \<notin> balance_key ` set (lv_balances s)" for x
    by (force simp: balance_of_def has_key_iff)
  have keys1: "map balance_key (map (created_balance ?y) ns) = map (\<lambda>(e, t, d). (e, t, ?y)) ns" for ns
    by (induction ns) (auto simp: created_balance_def balance_key_def)
  have new_in: "\<exists>x \<in> set (items s). n = (emp x, ty x, sum_credits (owed s x)) \<and> ?bal x = None" if "n \<in> set news" for n
    using that by (auto simp: news_def post_new_def split: if_splits)
  have inc_in: "\<exists>x \<in> set (items s). n = (emp x, ty x, sum_credits (owed s x)) \<and> ?bal x \<noteq> None" if "n \<in> set incs" for n
    using that by (auto simp: incs_def post_increment_def split: if_splits)
  have whole_new: "\<forall>(e, t, d) \<in> set news. whole_cents d"
  proof (clarify)
    fix e t d assume "(e, t, d) \<in> set news"
    from new_in [OF this] owed_sum [OF r] show "whole_cents d" by auto
  qed
  have dist_new: "distinct (map (\<lambda>(e, t, d). (e, t, ?y)) news)"
    unfolding news_def by (rule post_new_distinct [OF distinct_items [OF r]])
  have old: "table_ok (lv_balances s)" using ok by (simp add: balances_ok_def table_ok_def)
  have ok1: "table_ok bs1"
  proof -
    have "(e, t, ?y) \<notin> balance_key ` set (lv_balances s)" if "(e, t, d) \<in> set news" for e t d
      using new_in [OF that] found by auto
    then have "set (map balance_key (lv_balances s)) \<inter> set (map (\<lambda>(e, t, d). (e, t, ?y)) news) = {}" by auto
    then show ?thesis
      using old dist_new created_effect [OF whole_new, where y = ?y]
      unfolding table_ok_def bs1_def map_append keys1 distinct_append by auto
  qed
  have inc_ok: "\<forall>(e, t, d) \<in> set incs. whole_cents d \<and> (e, t, ?y) \<in> balance_key ` set bs1"
  proof (clarify)
    fix e t d assume "(e, t, d) \<in> set incs"
    from inc_in [OF this] obtain x where x: "x \<in> set (items s)" "e = emp x" "t = ty x" "d = sum_credits (owed s x)"
      "?bal x \<noteq> None" by auto
    then have "(e, t, ?y) \<in> balance_key ` set (lv_balances s)" using found [of x] by simp
    with owed_sum [OF r x(1)] x(4) show "whole_cents d \<and> (e, t, ?y) \<in> balance_key ` set bs1" by (auto simp: bs1_def)
  qed
  have bal: "lv_balances (snd (run s)) = foldl (increment_balance ?y) bs1 incs"
    unfolding run_eq(1) bs1_def news_def incs_def ..
  note fin = increments_effect [OF ok1 inc_ok bal, of e t]
  have days: "pair_days e t news + pair_days e t incs =
      total (\<lambda>l. if ll_employee l = e \<and> ll_type l = t then ll_delta l else 0)
        (concat (map (\<lambda>x. map ledger_row (post_entries emp ty ?bal (owed s) src x)) (items s)))"
    unfolding news_def incs_def by (rule items_days [OF r order_refl])
  have "available_days e t (snd (run s)) = available_days e t s + (pair_days e t news + pair_days e t incs)"
    unfolding available_days_def using fin created_effect [OF whole_new, where e = e and t = t and y = ?y]
    by (simp add: bs1_def)
  moreover have "ledger_days e t (snd (run s)) = ledger_days e t s + (pair_days e t news + pair_days e t incs)"
    unfolding ledger_days_def days run_eq(2) by simp
  moreover have "used_days e t (snd (run s)) = used_days e t s"
    unfolding used_days_def using fin created_effect [OF whole_new, where e = e and t = t and y = ?y]
    by (simp add: bs1_def)
  moreover have "balances_ok (snd (run s))" using fin unfolding balances_ok_def table_ok_def by blast
  moreover have "balance_key ` set (lv_balances s) \<subseteq> balance_key ` set (lv_balances (snd (run s)))"
  proof -
    have "balance_key ` set (lv_balances (snd (run s))) = balance_key ` set bs1" using fin by (metis list.set_map)
    then show ?thesis by (auto simp: bs1_def)
  qed
  ultimately show ?thesis by simp
qed

lemma run_tables:
  "lv_requests (snd (run s)) = lv_requests s" "lv_settings (snd (run s)) = lv_settings s"
  "lv_types (snd (run s)) = lv_types s" "lv_employees (snd (run s)) = lv_employees s"
  by (subst run_eq(4), simp)+

text \<open>Whatever the books did not explain before, they do not explain after.\<close>

lemma run_books:
  assumes r: "ready s" and ok: "books_ok s"
  shows "books_ok (snd (run s)) \<and> unexplained e t (snd (run s)) = unexplained e t s"
proof -
  note eff = run_balances [OF r]
  have bo: "balances_ok s" using ok by (simp add: books_ok_def)
  have found: "find_balance e t y z \<noteq> None \<longleftrightarrow> (e, t, y) \<in> balance_key ` set (lv_balances z)" for e t y z
    by (force simp: find_balance_def is_balance_key)
  have mono: "find_balance e t y s \<noteq> None \<Longrightarrow> find_balance e t y (snd (run s)) \<noteq> None" for e t y
    using eff [OF bo] unfolding found by blast
  have "\<forall>q \<in> set (lv_requests s). request_ok (snd (run s)) q"
    using ok request_ok_mono [OF mono run_tables(2)] unfolding books_ok_def by blast
  then have "books_ok (snd (run s))" using eff [OF bo] ok by (simp add: books_ok_def run_tables)
  moreover have "approved_days e t (snd (run s)) = approved_days e t s" by (simp add: approved_days_def run_tables)
  ultimately show ?thesis using eff [OF bo, of e t] by (simp add: unexplained_def)
qed

end

end
