(* ===== verification/PolicyProperties.thy ===== *)
theory PolicyProperties
  imports PolicyBooks LeaveProperties
begin

text \<open>
  The policy run and the carry-forward run as instances of a crediting run; what they guarantee:
  balances and ledger agree, a second run does nothing, days are carried once.
\<close>

section \<open>Tables a policy run can work on\<close>

definition clean_ids :: "leave_db \<Rightarrow> bool" where
  "clean_ids s \<longleftrightarrow> distinct (map le_id (lv_employees s)) \<and> distinct (map lt_id (lv_types s))"

definition clean_year :: "date \<Rightarrow> leave_db \<Rightarrow> bool" where
  "clean_year today s \<longleftrightarrow> 1 \<le> ls_fy_start_month (lv_settings s) \<and> ls_fy_start_month (lv_settings s) \<le> 12
     \<and> 100 \<le> resolve_leave_year (utc_midnight today) (ls_fy_start_month (lv_settings s))"

definition fits_column :: "decimal \<Rightarrow> bool" where
  "fits_column d \<longleftrightarrow> (\<exists>k. d = of_int k / 100 \<and> \<bar>k\<bar> \<le> 10 ^ 6)"

definition policy_ready :: "nat \<Rightarrow> int \<Rightarrow> date \<Rightarrow> leave_db \<Rightarrow> bool" where
  "policy_ready n m today s \<longleftrightarrow> clean_ids s \<and> clean_year today s
     \<and> (\<forall>t \<in> set (lv_types s). fits_column (lt_annual_quota t))
     \<and> (\<forall>e \<in> set (lv_employees s). \<forall>t \<in> set (lv_types s).
          small_ledger n m (policy_ledger (current_window (utc_midnight today) s) (le_id e) (lt_id t) s))"

definition quota_cents :: "leave_type_row \<Rightarrow> int" where
  "quota_cents t = half_up_int (lt_annual_quota t * 100)"

lemma fits_columnE:
  assumes "fits_column d"
  shows "d = of_int (half_up_int (d * 100)) / 100 \<and> \<bar>half_up_int (d * 100)\<bar> \<le> 10 ^ 6"
proof -
  obtain k where k: "d = of_int k / 100" "\<bar>k\<bar> \<le> 10 ^ 6" using assms by (auto simp: fits_column_def)
  then have "half_up_int (d * 100) = k" by (simp add: half_up_int_near)
  with k show ?thesis by simp
qed

lemma later_start_ge: "start \<le> later_start start d"
  by (auto simp: later_start_def split: option.splits)

lemma effective_start_ge: "lw_start w \<le> effective_start w a b"
  unfolding effective_start_def by simp (meson later_start_ge order_trans)

definition pair_input :: "date \<Rightarrow> leave_db \<Rightarrow> leave_employee \<Rightarrow> leave_type_row \<Rightarrow> credit_input" where
  "pair_input today s emp t = policy_input (current_window (utc_midnight today) s) (utc_midnight today) s emp t"

definition pair_rows :: "date \<Rightarrow> leave_db \<Rightarrow> leave_employee \<Rightarrow> leave_type_row \<Rightarrow> leave_ledger_row list" where
  "pair_rows today s emp t = policy_ledger (current_window (utc_midnight today) s) (le_id emp) (lt_id t) s"

lemma pair_input_proper:
  assumes y: "clean_year today s" and q: "fits_column (lt_annual_quota t)" and small: "small_ledger 900 (10 ^ 7) (pair_rows today s emp t)"
  shows "proper_input (pair_input today s emp t) (quota_cents t) (net_cents (accruals (pair_rows today s emp t)))"
proof -
  let ?w = "current_window (utc_midnight today) s" and ?rows = "pair_rows today s emp t"
  have "\<bar>net_cents (accruals ?rows)\<bar> \<le> 10 ^ 7"
    using net_le_gross [of "accruals ?rows"] gross_cents_filter [of _ ?rows] small
    unfolding accruals_def small_ledger_def by (meson order_trans)
  moreover note fits_columnE [OF q]
  then have "num (lt_annual_quota t) = cents (quota_cents t)" "quota_cents t \<le> 10 ^ 6"
    unfolding quota_cents_def by (metis num_cents, linarith)
  moreover have "lw_start ?w < lw_end ?w" "100 \<le> utc_year (lw_start ?w)"
    using y leave_year_window_proper [of "resolve_leave_year (utc_midnight today) (ls_fy_start_month (lv_settings s))"]
    by (simp_all add: clean_year_def current_window_def)
  moreover note accrued_close [OF small]
  ultimately show ?thesis
    by (simp add: proper_input_def pair_input_def policy_input_def pair_rows_def Let_def)
qed

lemma small_ledger_mono: "small_ledger n m rows \<Longrightarrow> n \<le> n' \<Longrightarrow> m \<le> m' \<Longrightarrow> small_ledger n' m' rows"
  by (auto simp: small_ledger_def)

lemma ready_pair:
  assumes "policy_ready n m today s" and "emp \<in> set (lv_employees s)" and "t \<in> set (lv_types s)" and "n \<le> 900" and "m \<le> 10 ^ 7"
  shows "clean_year today s" and "fits_column (lt_annual_quota t)" and "small_ledger n m (pair_rows today s emp t)"
    and "proper_input (pair_input today s emp t) (quota_cents t) (net_cents (accruals (pair_rows today s emp t)))"
proof -
  show r: "clean_year today s" "fits_column (lt_annual_quota t)" "small_ledger n m (pair_rows today s emp t)"
    using assms by (simp_all add: policy_ready_def pair_rows_def)
  show "proper_input (pair_input today s emp t) (quota_cents t) (net_cents (accruals (pair_rows today s emp t)))"
    by (rule pair_input_proper [OF r(1,2) small_ledger_mono [OF r(3) assms(4,5)]])
qed

lemma accrue_cents_length: "length (accrue_cents i pp r ps) \<le> length ps"
  by (induction ps arbitrary: r) (auto simp: Let_def le_SucI)

lemma credits_in_cents_length: "length (credits_in_cents i q a) \<le> 12"
proof -
  have "length (accrue_cents i pp r (accrual_periods (ci_frequency i) (ci_window i))) \<le> 12" for pp r
    using accrue_cents_length [of i pp r "accrual_periods (ci_frequency i) (ci_window i)"]
    by (rule order_trans) (simp add: length_accrual_periods)
  then show ?thesis by (simp add: credits_in_cents_def annual_cents_def Let_def)
qed

lemma owed_in_cents:
  assumes "proper_input i q a"
  shows "\<exists>ks. map cr_amount (credits_due i) = map cents ks \<and> (\<forall>k \<in> set ks. 0 < k) \<and> sum_list ks \<le> 2 * 10 ^ 7 \<and> length ks \<le> 900"
proof (intro exI conjI ballI)
  let ?ks = "map (snd \<circ> snd) (credits_in_cents i q a)"
  show "map cr_amount (credits_due i) = map cents ?ks"
    unfolding credits_due_cents [OF assms] map_credit_of_simps by simp
  show "0 < k" if "k \<in> set ?ks" for k using that credits_in_cents_bounds [OF assms] by auto
  have "total_cents (credits_in_cents i q a) = sum_list ?ks" by (simp add: total_cents_def split_def comp_def)
  with credits_in_cents_total [of i q a] assms show "sum_list ?ks \<le> 2 * 10 ^ 7"
    by (auto simp: proper_input_def)
  show "length ?ks \<le> 900" using credits_in_cents_length [of i q a] by simp
qed

section \<open>The policy run\<close>

definition policy_items :: "policy_scope \<Rightarrow> leave_db \<Rightarrow> (leave_employee \<times> leave_type_row) list" where
  "policy_items sc s = List.product (policy_employees sc s) (policy_types sc s)"

lemma policy_items_in: "(emp, t) \<in> set (policy_items sc s) \<Longrightarrow> emp \<in> set (lv_employees s) \<and> t \<in> set (lv_types s)"
  by (auto simp: policy_items_def policy_employees_def policy_types_def)

lemma policy_items_distinct:
  assumes "clean_ids s"
  shows "distinct (map (\<lambda>x. (le_id (fst x), lt_id (snd x))) (policy_items sc s))"
proof -
  have d: "distinct (map le_id (policy_employees sc s))" "distinct (map lt_id (policy_types sc s))"
    using assms unfolding clean_ids_def policy_employees_def policy_types_def by (auto intro: distinct_map_filter)
  then have "distinct (policy_items sc s)" unfolding policy_items_def by (intro distinct_product) (auto simp: distinct_map)
  moreover have "inj_on (\<lambda>x. (le_id (fst x), lt_id (snd x))) (set (policy_items sc s))"
    using d unfolding policy_items_def by (auto simp: inj_on_def distinct_map)
  ultimately show ?thesis by (simp add: distinct_map)
qed

lemma write_nothing: "write_policy y no_writes s = ((0, 0), s)"
  by (simp add: write_policy_def no_writes_def)

lemma policy_run_eq:
  "apply_policy_defaults sc today s = write_policy (lw_year (current_window (utc_midnight today) s))
     (foldl (\<lambda>ws x. if credits_due (pair_input today s (fst x) (snd x)) = [] then ws
        else plan (le_id (fst x)) (lt_id (snd x))
          (balance_of (le_id (fst x)) (lt_id (snd x)) (lw_year (current_window (utc_midnight today) s)) s)
          (credits_due (pair_input today s (fst x) (snd x))) ACCRUAL ws) no_writes (policy_items sc s)) s"
proof -
  let ?f = "\<lambda>ws x. if credits_due (pair_input today s (fst x) (snd x)) = [] then ws
        else plan (le_id (fst x)) (lt_id (snd x))
          (balance_of (le_id (fst x)) (lt_id (snd x)) (lw_year (current_window (utc_midnight today) s)) s)
          (credits_due (pair_input today s (fst x) (snd x))) ACCRUAL ws"
  have "plan_defaults (current_window (utc_midnight today) s) (utc_midnight today) s = ?f"
    by (simp add: fun_eq_iff plan_defaults_def pair_input_def Let_def split: prod.splits)
  moreover have "policy_items sc s = []" if "ps_employees sc = Some []"
    using that by (simp add: policy_items_def policy_employees_def in_scope_def)
  ultimately show ?thesis
    by (auto simp: apply_policy_defaults_def Let_def policy_items_def write_nothing)
qed

interpretation policy_run: credit_run "policy_ready 900 (10 ^ 7) today" "policy_items sc" "\<lambda>x. le_id (fst x)" "\<lambda>x. lt_id (snd x)"
  "\<lambda>s x. credits_due (pair_input today s (fst x) (snd x))" ACCRUAL
  "\<lambda>s. lw_year (current_window (utc_midnight today) s)" "apply_policy_defaults sc today"
  for today sc
proof
  fix s
  show "apply_policy_defaults sc today s = write_policy (lw_year (current_window (utc_midnight today) s))
     (foldl (\<lambda>ws x. if credits_due (pair_input today s (fst x) (snd x)) = [] then ws
        else plan (le_id (fst x)) (lt_id (snd x))
          (balance_of (le_id (fst x)) (lt_id (snd x)) (lw_year (current_window (utc_midnight today) s)) s)
          (credits_due (pair_input today s (fst x) (snd x))) ACCRUAL ws) no_writes (policy_items sc s)) s"
    by (rule policy_run_eq)
next
  fix s assume "policy_ready 900 (10 ^ 7) today s"
  then show "distinct (map (\<lambda>x. (le_id (fst x), lt_id (snd x))) (policy_items sc s))"
    by (intro policy_items_distinct) (simp add: policy_ready_def)
next
  fix s x assume "policy_ready 900 (10 ^ 7) today s" and "x \<in> set (policy_items sc s)"
  then have "proper_input (pair_input today s (fst x) (snd x)) (quota_cents (snd x))
      (net_cents (accruals (pair_rows today s (fst x) (snd x))))"
    using policy_items_in [of "fst x" "snd x" sc s]
    by (intro ready_pair(4) [where n = 900 and m = "10 ^ 7"]) simp_all
  then show "\<exists>ks. map cr_amount (credits_due (pair_input today s (fst x) (snd x))) = map cents ks
      \<and> (\<forall>k \<in> set ks. 0 < k) \<and> sum_list ks \<le> 2 * 10 ^ 7 \<and> length ks \<le> 900"
    by (rule owed_in_cents)
qed

section \<open>The carry-forward run\<close>

definition carry_ready :: "date \<Rightarrow> leave_db \<Rightarrow> bool" where
  "carry_ready today s \<longleftrightarrow> clean_year today s \<and> distinct (map balance_key (lv_balances s))
     \<and> (\<forall>b \<in> set (lv_balances s). fits_column (lb_accrued b) \<and> fits_column (lb_used b))
     \<and> (\<forall>t \<in> set (lv_types s). fits_column (lt_carry_forward_cap t))"

definition carry_late :: "date \<Rightarrow> leave_db \<Rightarrow> bool" where
  "carry_late today s \<longleftrightarrow> lw_start (current_window (utc_midnight today) s) + 7 * DAY_MS \<le> utc_midnight today"

definition carry_items :: "date \<Rightarrow> leave_db \<Rightarrow> leave_balance_row list" where
  "carry_items today s = (if carry_late today s then [] else previous_balances (current_window (utc_midnight today) s) s)"

definition carry_owed :: "date \<Rightarrow> leave_db \<Rightarrow> leave_balance_row \<Rightarrow> credit list" where
  "carry_owed today s prev =
     (let w = current_window (utc_midnight today) s; amount = carry_forward_days (available_of prev) (carry_cap s (lb_type prev))
      in if already_carried w (lb_employee prev) (lb_type prev) s \<or> amount \<le> 0 then []
         else [\<lparr>cr_period_start = lw_start w, cr_occurred_at = lw_start w, cr_amount = amount\<rparr>])"

lemma carry_run_eq:
  "apply_carry_forward today s = write_policy (lw_year (current_window (utc_midnight today) s))
     (foldl (\<lambda>ws x. if carry_owed today s x = [] then ws
        else plan (lb_employee x) (lb_type x)
          (balance_of (lb_employee x) (lb_type x) (lw_year (current_window (utc_midnight today) s)) s)
          (carry_owed today s x) CARRY_FORWARD ws) no_writes (carry_items today s)) s"
proof -
  have "plan_carry (current_window (utc_midnight today) s) s =
      (\<lambda>ws x. if carry_owed today s x = [] then ws
        else plan (lb_employee x) (lb_type x)
          (balance_of (lb_employee x) (lb_type x) (lw_year (current_window (utc_midnight today) s)) s)
          (carry_owed today s x) CARRY_FORWARD ws)"
    by (auto simp: fun_eq_iff plan_carry_def carry_owed_def Let_def)
  then show ?thesis
    by (simp add: apply_carry_forward_def carry_items_def carry_late_def Let_def write_nothing)
qed

lemma about_min: "about x a \<Longrightarrow> about y b \<Longrightarrow> about (min x y) (min a b)"
proof (cases "a \<le> b")
  assume xy: "about x a" "about y b"
  case True
  then have "(of_int a :: rat) \<le> of_int b" by simp
  with xy True show ?thesis unfolding about_def abs_le_iff by (cases "x \<le> y") (simp_all add: min_def)
next
  assume xy: "about x a" "about y b"
  case False
  then have "(of_int b :: rat) \<le> of_int a" by simp
  with xy False show ?thesis unfolding about_def abs_le_iff by (cases "x \<le> y") (simp_all add: min_def)
qed

lemma available_about:
  assumes "fits_column (lb_accrued b)" and "fits_column (lb_used b)"
  obtains j where "about (available_of b) j" "\<bar>j\<bar> \<le> 2 * 10 ^ 6" "lb_accrued b - lb_used b = of_int j / 100"
proof -
  obtain k l where k: "lb_accrued b = of_int k / 100" "\<bar>k\<bar> \<le> 10 ^ 6" and l: "lb_used b = of_int l / 100" "\<bar>l\<bar> \<le> 10 ^ 6"
    using assms by (auto simp: fits_column_def)
  have "about (available_of b) (k - l)"
    unfolding available_of_def k(1) l(1) num_cents using k(2) l(2) by (intro about_diff close_cents) simp_all
  moreover have "\<bar>k - l\<bar> \<le> 2 * 10 ^ 6" using k(2) l(2) by linarith
  moreover have "lb_accrued b - lb_used b = of_int (k - l) / 100" unfolding k(1) l(1) by (simp add: diff_divide_distrib)
  ultimately show thesis by (rule that)
qed

lemma carry_cap_cents:
  assumes "\<forall>t \<in> set (lv_types s). fits_column (lt_carry_forward_cap t)"
  obtains c where "carry_cap s t = cents c" "\<bar>c\<bar> \<le> 10 ^ 6"
proof (cases "find_row (\<lambda>r. lt_id r = t) (carry_types s)")
  case None
  then show thesis by (intro that [of 0]) (simp_all add: carry_cap_def del: find_row_None)
next
  case (Some r)
  then have "r \<in> set (lv_types s)" using find_row_SomeD by (fastforce simp: carry_types_def)
  with assms obtain k where k: "lt_carry_forward_cap r = of_int k / 100" "\<bar>k\<bar> \<le> 10 ^ 6" by (auto simp: fits_column_def)
  have "carry_cap s t = num (lt_carry_forward_cap r)" using Some by (simp add: carry_cap_def)
  also have "\<dots> = cents k" unfolding k(1) by (rule num_cents)
  finally show thesis using k(2) by (rule that)
qed

text \<open>The days carried are the smaller of what is available and the cap, in whole hundredths.\<close>

lemma carry_amount:
  assumes j: "about (available_of b) j" "\<bar>j\<bar> \<le> 2 * 10 ^ 6" and c: "carry_cap s t = cents c" "\<bar>c\<bar> \<le> 10 ^ 6"
  shows "carry_forward_days (available_of b) (carry_cap s t) = cents (max 0 (min j c))"
proof (cases "c \<le> 0 \<or> j \<le> 0")
  case True
  have "available_of b \<le> 0 \<or> carry_forward_days (available_of b) (carry_cap s t) = cents (min j c)" if "0 < c"
    using that round2_about [OF about_min [OF j(1) about_cents [of c]]] j(2) c
    by (auto simp: carry_forward_days_def cents_le_0)
  moreover have "cents (min j c) \<le> 0" using True by (auto simp: cents_le_0)
  moreover have "0 \<le> round2 (min (available_of b) (cents c))" if "0 < available_of b" "0 < c"
  proof -
    have "0 \<le> min (available_of b) (cents c) * 100" using that cents_pos [of c] by auto
    then have "0 \<le> half_up_int (js_fl (min (available_of b) (cents c) * 100))"
      using js.fl_nonneg half_up.rnd_ge [of 0] by fastforce
    then show ?thesis unfolding round2_cents using cents_mono [of 0] by force
  qed
  moreover have "0 \<le> cents k \<Longrightarrow> k \<le> 0 \<Longrightarrow> cents k = 0" for k using cents_le_0 order_antisym by blast
  ultimately show ?thesis using True c
    by (cases "0 < c"; cases "0 < available_of b") (auto simp: carry_forward_days_def cents_le_0 max_def)
next
  case False
  have "0 < available_of b" using j(1) False unfolding about_def abs_le_iff by simp
  moreover have "about (min (available_of b) (cents c)) (min j c)" using c(2) by (intro about_min j(1) about_cents) simp
  then have "round2 (min (available_of b) (cents c)) = cents (min j c)"
    using j(2) c(2) by (intro round2_about) auto
  ultimately show ?thesis using False c(1) by (simp add: carry_forward_days_def cents_le_0)
qed

interpretation carry_run: credit_run "carry_ready today" "carry_items today" lb_employee lb_type
  "carry_owed today" CARRY_FORWARD "\<lambda>s. lw_year (current_window (utc_midnight today) s)" "apply_carry_forward today"
  for today
proof
  fix s
  show "apply_carry_forward today s = write_policy (lw_year (current_window (utc_midnight today) s))
     (foldl (\<lambda>ws x. if carry_owed today s x = [] then ws
        else plan (lb_employee x) (lb_type x)
          (balance_of (lb_employee x) (lb_type x) (lw_year (current_window (utc_midnight today) s)) s)
          (carry_owed today s x) CARRY_FORWARD ws) no_writes (carry_items today s)) s"
    by (rule carry_run_eq)
next
  fix s assume r: "carry_ready today s"
  have "inj_on (\<lambda>x. (lb_employee x, lb_type x)) (set (carry_items today s))"
    using r by (auto simp: carry_ready_def distinct_map inj_on_def balance_key_def carry_items_def previous_balances_def)
  moreover have "distinct (carry_items today s)"
    using r by (auto simp: carry_ready_def distinct_map carry_items_def previous_balances_def)
  ultimately show "distinct (map (\<lambda>x. (lb_employee x, lb_type x)) (carry_items today s))" by (simp add: distinct_map)
next
  fix s x assume r: "carry_ready today s" and x: "x \<in> set (carry_items today s)"
  have "fits_column (lb_accrued x) \<and> fits_column (lb_used x)"
    using r x by (auto simp: carry_ready_def carry_items_def previous_balances_def split: if_splits)
  then obtain j where j: "about (available_of x) j" "\<bar>j\<bar> \<le> 2 * 10 ^ 6" using available_about by blast
  obtain c where c: "carry_cap s (lb_type x) = cents c" "\<bar>c\<bar> \<le> 10 ^ 6"
    using r carry_cap_cents [of s] unfolding carry_ready_def by blast
  note amount = carry_amount [OF j c]
  show "\<exists>ks. map cr_amount (carry_owed today s x) = map cents ks \<and> (\<forall>k \<in> set ks. 0 < k) \<and> sum_list ks \<le> 2 * 10 ^ 7 \<and> length ks \<le> 900"
  proof (cases "carry_owed today s x = []")
    case True
    then show ?thesis by (intro exI [of _ "[]"]) simp
  next
    case False
    then have "map cr_amount (carry_owed today s x) = [cents (max 0 (min j c))]" "0 < cents (max 0 (min j c))"
      using amount by (auto simp: carry_owed_def Let_def split: if_splits)
    then show ?thesis using c(2) by (intro exI [of _ "[max 0 (min j c)]"]) (auto simp: cents_pos)
  qed
qed

section \<open>A second run finds nothing to do\<close>

text \<open>The entries a run wrote for a pair, read back.\<close>

lemma new_rows_read:
  assumes "map ll_delta ls = map (\<lambda>x. of_int (snd (snd x)) / 100) xs" and "map ll_occurred_at ls = map (fst \<circ> snd) xs"
    and "\<And>x. x \<in> set xs \<Longrightarrow> map_option p_start (period_containing f w (fst (snd x))) = Some (fst x)"
    and "\<And>l. l \<in> set ls \<Longrightarrow> ll_source l = ACCRUAL"
  shows "net_cents (accruals ls) = total_cents xs"
    and "period_cents f w ls d = sum_list (map (snd \<circ> snd) (filter (\<lambda>x. fst x = d) xs))"
    and "gross_cents ls = sum_list (map (\<lambda>x. \<bar>snd (snd x)\<bar>) xs)" and "length ls = length xs"
proof -
  have "length ls = length xs" using arg_cong [OF assms(1), of length] by simp
  then have "net_cents (accruals ls) = total_cents xs
    \<and> period_cents f w ls d = sum_list (map (snd \<circ> snd) (filter (\<lambda>x. fst x = d) xs))
    \<and> gross_cents ls = sum_list (map (\<lambda>x. \<bar>snd (snd x)\<bar>) xs)"
    using assms
  proof (induction ls xs rule: list_induct2)
    case (Cons l ls x xs)
    have "row_cents l = snd (snd x)" using Cons.prems(1) by (simp add: row_cents_def half_up_int_near)
    moreover have "period_start_of f w l = Some (fst x)" using Cons.prems(2) Cons.prems(3) [of x] by (simp add: period_start_of_def)
    moreover have "ll_source l = ACCRUAL" using Cons.prems(4) by simp
    moreover have "total_cents (x # xs) = snd (snd x) + total_cents xs" by (cases x) simp
    ultimately show ?case using Cons by (simp add: accruals_def period_cents_def)
  qed (simp add: accruals_def period_cents_def)
  then show "net_cents (accruals ls) = total_cents xs"
    and "period_cents f w ls d = sum_list (map (snd \<circ> snd) (filter (\<lambda>x. fst x = d) xs))"
    and "gross_cents ls = sum_list (map (\<lambda>x. \<bar>snd (snd x)\<bar>) xs)" by simp_all
  show "length ls = length xs" by fact
qed

lemma accruals_append: "accruals (ls @ ks) = accruals ls @ accruals ks"
  by (simp add: accruals_def)

lemma period_cents_append: "period_cents f w (ls @ ks) d = period_cents f w ls d + period_cents f w ks d"
  by (simp add: period_cents_def accruals_append)

definition never_negative :: "date \<Rightarrow> leave_db \<Rightarrow> bool" where
  "never_negative today s \<longleftrightarrow> (\<forall>e \<in> set (lv_employees s). \<forall>t \<in> set (lv_types s). \<forall>d.
     0 \<le> period_cents (lt_frequency t) (current_window (utc_midnight today) s) (pair_rows today s e t) d)"

lemma policy_ledger_of_pair:
  "policy_ledger w e t s = filter (\<lambda>l. (ll_source l = ACCRUAL \<or> ll_source l = ACCRUAL_REVERSAL \<or> ll_source l = OPENING_BALANCE)
     \<and> in_window w (ll_occurred_at l)) (filter (\<lambda>l. (ll_employee l, ll_type l) = (e, t)) (lv_ledger s))"
  by (auto simp: policy_ledger_def intro!: filter_cong)

lemma period_sum:
  fixes xs :: "(date \<times> date \<times> int) list"
  assumes "\<forall>x \<in> set xs. 0 < snd (snd x)"
  shows "0 \<le> sum_list (map (snd \<circ> snd) (filter (\<lambda>x. fst x = d) xs))
    \<and> (0 < sum_list (map (snd \<circ> snd) (filter (\<lambda>x. fst x = d) xs)) \<longleftrightarrow> d \<in> fst ` set xs)"
  using assms by (induction xs) auto

lemma run_again:
  assumes r: "policy_ready 400 (4 * 10 ^ 6) today s" and nn: "never_negative today s"
    and s': "s' = snd (apply_policy_defaults sc today s)" and x: "(emp, t) \<in> set (policy_items sc s)"
  shows "credits_due (pair_input today s' emp t) = []"
proof -
  let ?w = "current_window (utc_midnight today) s" and ?i = "pair_input today s emp t" and ?f = "lt_frequency t"
  let ?q = "quota_cents t" and ?rows = "pair_rows today s emp t"
  let ?a = "net_cents (accruals ?rows)"
  define xs where "xs = credits_in_cents ?i ?q ?a"
  have in_db: "emp \<in> set (lv_employees s)" "t \<in> set (lv_types s)" using policy_items_in [OF x] by auto
  note pair = ready_pair [OF r in_db, simplified]
  have r9: "policy_ready 900 (10 ^ 7) today s"
    using r small_ledger_mono unfolding policy_ready_def by force
  have w': "current_window (utc_midnight today) s' = ?w" by (simp add: s' current_window_def policy_run.run_tables)
  define new where "new = map ledger_row (post_entries (\<lambda>x. le_id (fst x)) (\<lambda>x. lt_id (snd x))
    (\<lambda>x. balance_of (le_id (fst x)) (lt_id (snd x)) (lw_year ?w) s)
    (\<lambda>x. credits_due (pair_input today s (fst x) (snd x))) ACCRUAL (emp, t))"
  have due: "credits_due ?i = map credit_of xs" unfolding xs_def by (rule credits_due_cents [OF pair(4)])
  have xs_pos: "0 < snd (snd x) \<and> snd (snd x) \<le> 10 ^ 8" if "x \<in> set xs" for x
    using that credits_in_cents_bounds [OF pair(4)] unfolding xs_def by blast
  have deltas: "map ll_delta new = map (\<lambda>x. of_int (snd (snd x)) / 100) xs"
  proof -
    have "days_col (cents (snd (snd x))) = of_int (snd (snd x)) / 100" if "x \<in> set xs" for x
      using xs_pos [OF that] by (intro days_col_cents) simp
    then show ?thesis
      unfolding new_def post_entries_def ledger_row_entries(1) fst_conv snd_conv due
      unfolding map_map by (intro map_cong refl) (simp add: credit_of_def split_def)
  qed
  have dates: "map ll_occurred_at new = map (fst \<circ> snd) xs"
    unfolding new_def post_entries_def ledger_row_entries(2) by (simp add: due map_credit_of_simps del: map_map)
  have src: "ll_source l = ACCRUAL" if "l \<in> set new" for l
    using that ledger_row_entries(3) unfolding new_def post_entries_def by blast
  have i: "ci_window ?i = ?w" "ci_frequency ?i = ?f" "ci_today ?i = utc_midnight today"
    by (simp_all add: pair_input_def policy_input_def Let_def)
  have places: "in_window ?w (fst (snd x)) \<and> map_option p_start (period_containing ?f ?w (fst (snd x))) = Some (fst x)"
    if "x \<in> set xs" for x
    using that credit_places [of ?i _ _ "fst x" "fst (snd x)" "snd (snd x)" ?q ?a] pair(1) effective_start_ge [of ?w]
    by (simp add: xs_def i clean_year_def current_window_def pair_input_def policy_input_def Let_def)
  have "find_row (\<lambda>x. (le_id (fst x), lt_id (snd x)) = (le_id emp, lt_id t)) (policy_items sc s) = Some (emp, t)"
    using find_row_unique [of "\<lambda>x. (le_id (fst x), lt_id (snd x))" "policy_items sc s" "(emp, t)"]
      policy_items_distinct [of s sc] r x by (simp add: policy_ready_def unique_key_def)
  from policy_run.run_pair_ledger [OF r9, of "le_id emp" "lt_id t" sc, unfolded this]
  have rows': "pair_rows today s' emp t = ?rows @ new"
  proof -
    assume ledger: "filter (\<lambda>l. (ll_employee l, ll_type l) = (le_id emp, lt_id t)) (lv_ledger (snd (apply_policy_defaults sc today s))) =
      filter (\<lambda>l. (ll_employee l, ll_type l) = (le_id emp, lt_id t)) (lv_ledger s) @
      (case Some (emp, t) of None \<Rightarrow> [] | Some x \<Rightarrow> map ledger_row (post_entries (\<lambda>x. le_id (fst x)) (\<lambda>x. lt_id (snd x))
        (\<lambda>x. balance_of (le_id (fst x)) (lt_id (snd x)) (lw_year ?w) s)
        (\<lambda>x. credits_due (pair_input today s (fst x) (snd x))) ACCRUAL x))"
    have "in_window ?w (ll_occurred_at l)" if "l \<in> set new" for l
    proof -
      have "ll_occurred_at l \<in> set (map (fst \<circ> snd) xs)" using that unfolding dates [symmetric] by simp
      with places show ?thesis by auto
    qed
    with src show ?thesis
      unfolding pair_rows_def policy_ledger_of_pair w' unfolding s' ledger option.case new_def [symmetric] filter_append
      by (auto intro!: filter_True)
  qed
  have read: "net_cents (accruals new) = total_cents xs"
    "period_cents ?f ?w new d = sum_list (map (snd \<circ> snd) (filter (\<lambda>x. fst x = d) xs))"
    "gross_cents new = sum_list (map (\<lambda>x. \<bar>snd (snd x)\<bar>) xs)" "length new = length xs" for d
    using new_rows_read [where ls = new and xs = xs and f = ?f and w = ?w, OF deltas dates] places src by blast+
  have total: "total_cents xs \<le> 5 * 10 ^ 6" "0 \<le> total_cents xs" "gross_cents new = total_cents xs"
  proof -
    have abs: "map (\<lambda>x. \<bar>snd (snd x)\<bar>) xs = map (snd \<circ> snd) xs" using xs_pos by force
    show "gross_cents new = total_cents xs" unfolding read(3) abs by (simp add: total_cents_def split_def comp_def)
    then show "0 \<le> total_cents xs" using gross_cents_nonneg [of new] by simp
    have "\<bar>?a\<bar> \<le> 4 * 10 ^ 6"
      using net_le_gross [of "accruals ?rows"] gross_cents_filter [of "\<lambda>l. ll_source l \<noteq> OPENING_BALANCE" ?rows] pair(3)
      unfolding accruals_def small_ledger_def by simp
    then show "total_cents xs \<le> 5 * 10 ^ 6"
      using credits_in_cents_total [of ?i ?q ?a] pair(4) unfolding xs_def proper_input_def by auto
  qed
  have "length xs \<le> 12" unfolding xs_def by (rule credits_in_cents_length)
  moreover have "\<forall>l \<in> set new. hundredths (ll_delta l)"
  proof
    fix l assume "l \<in> set new"
    then have "ll_delta l \<in> set (map (\<lambda>x. of_int (snd (snd x)) / 100) xs)" unfolding deltas [symmetric] by simp
    with xs_pos show "hundredths (ll_delta l)" by (force simp: hundredths_def)
  qed
  ultimately have small': "small_ledger 900 (10 ^ 7) (?rows @ new)"
    using pair(3) total read(4) by (auto simp: small_ledger_def)
  have proper': "proper_input (pair_input today s' emp t) ?q (?a + total_cents xs)"
  proof -
    have "clean_year today s'" using pair(1) by (simp add: s' clean_year_def policy_run.run_tables)
    from pair_input_proper [OF this pair(2), of emp, unfolded rows', OF small'] read(1) show ?thesis
      by (simp add: accruals_append)
  qed
  have credited: "credited_periods ?f ?w (?rows @ new) = credited_periods ?f ?w ?rows \<union> fst ` set xs"
  proof (rule set_eqI)
    fix d
    have small: "small_ledger 900 (10 ^ 7) ?rows" by (rule small_ledger_mono [OF pair(3)]) simp_all
    have "0 \<le> period_cents ?f ?w ?rows d" using nn in_db by (simp add: never_negative_def)
    moreover have "0 < period_cents ?f ?w new d \<longleftrightarrow> d \<in> fst ` set xs" "0 \<le> period_cents ?f ?w new d"
      unfolding read(2) using period_sum [of xs d] xs_pos by blast+
    ultimately show "d \<in> credited_periods ?f ?w (?rows @ new) \<longleftrightarrow> d \<in> credited_periods ?f ?w ?rows \<union> fst ` set xs"
      unfolding credited_periods_iff [OF small'] Un_iff credited_periods_iff [OF small] period_cents_append by auto
  qed
  have i': "pair_input today s' emp t = ?i\<lparr>ci_credited := ci_credited ?i \<union> fst ` set xs, ci_accrued := accrued_so_far (?rows @ new)\<rparr>"
  proof -
    have go: "ls_go_live (lv_settings s') = ls_go_live (lv_settings s)" by (simp add: s' policy_run.run_tables)
    have led: "policy_ledger ?w (le_id emp) (lt_id t) s' = ?rows @ new" "policy_ledger ?w (le_id emp) (lt_id t) s = ?rows"
      using rows' by (simp_all add: pair_rows_def w')
    have open': "(\<exists>l \<in> set (?rows @ new). ll_source l = OPENING_BALANCE) = (\<exists>l \<in> set ?rows. ll_source l = OPENING_BALANCE)"
      using src by auto
    show ?thesis
      unfolding pair_input_def policy_input_def Let_def w' go led credited open' by simp
  qed
  have "100 \<le> utc_year (lw_start (ci_window ?i))" using pair(4) by (simp add: proper_input_def)
  from credits_in_cents_catch_up [OF this order_refl refl refl, of "utc_midnight today" ?q ?a]
  have "credits_in_cents (?i\<lparr>ci_credited := ci_credited ?i \<union> fst ` set xs\<rparr>) ?q (?a + total_cents xs) = []"
    by (simp add: xs_def i(3) [symmetric])
  then have "credits_in_cents (pair_input today s' emp t) ?q (?a + total_cents xs) = []"
    unfolding i' by (simp add: credits_in_cents_accrued)
  then show ?thesis unfolding credits_due_cents [OF proper'] by simp
qed

lemma foldl_skips: "(\<And>x. x \<in> set xs \<Longrightarrow> skip x) \<Longrightarrow> foldl (\<lambda>ws x. if skip x then ws else f ws x) ws xs = ws"
  by (induction xs) auto

text \<open>
  C18. A policy run may be repeated: on tables whose quotas and ledger entries are hundredths within
  the columns, and where no period's reversals exceed its accruals, the credits a run writes make a
  second run on the same day (the nightly job after "apply policy now", say) find nothing to credit;
  it creates no balance, writes no entry and leaves every table as it is.
\<close>

theorem policy_run_twice:
  assumes "policy_ready 400 (4 * 10 ^ 6) today s" and "never_negative today s" and "utc_midnight later = utc_midnight today"
  shows "apply_policy_defaults sc later (snd (apply_policy_defaults sc today s)) = ((0, 0), snd (apply_policy_defaults sc today s))"
proof -
  let ?s = "snd (apply_policy_defaults sc today s)"
  have same: "policy_items sc ?s = policy_items sc s"
    by (simp add: policy_items_def policy_employees_def policy_types_def policy_run.run_tables)
  have "credits_due (pair_input later ?s (fst x) (snd x)) = []" if "x \<in> set (policy_items sc ?s)" for x
    using run_again [OF assms(1,2) refl, of "fst x" "snd x" sc] that assms(3) by (simp add: same pair_input_def)
  then show ?thesis unfolding policy_run_eq [of sc later] by (subst foldl_skips) (simp_all add: write_nothing)
qed

section \<open>What carrying forward does\<close>

definition carried_entries :: "leave_window \<Rightarrow> id \<Rightarrow> id \<Rightarrow> leave_db \<Rightarrow> leave_ledger_row list" where
  "carried_entries w e t s = filter (\<lambda>l. ll_employee l = e \<and> ll_type l = t \<and> ll_source l = CARRY_FORWARD
     \<and> in_window w (ll_occurred_at l)) (lv_ledger s)"

lemma carried_of_pair:
  "carried_entries w e t s = filter (\<lambda>l. ll_source l = CARRY_FORWARD \<and> in_window w (ll_occurred_at l))
     (filter (\<lambda>l. (ll_employee l, ll_type l) = (e, t)) (lv_ledger s))"
  by (auto simp: carried_entries_def intro!: filter_cong)

lemma already_carried_iff: "already_carried w e t s \<longleftrightarrow> carried_entries w e t s \<noteq> []"
  by (auto simp: already_carried_def carried_entries_def filter_empty_conv)

text \<open>A carried credit is dated at the start of the leave year: inside that year, outside any other.\<close>

lemma window_starts:
  assumes "100 \<le> y" "100 \<le> y'" "1 \<le> m" "m \<le> 12"
  shows "in_window (leave_year_window y m) (lw_start (leave_year_window y' m)) \<longleftrightarrow> y = y'"
proof -
  have up: "date_utc a (m - 1) 1 < date_utc b (m - 1) 1" if "100 \<le> a" "a < b" for a b
  proof -
    have "date_utc a (m - 1) 1 < date_utc a (m - 1 + int (nat (12 * (b - a)))) 1"
      using that by (intro date_utc_months_less) simp_all
    also have "date_utc a (m - 1 + int (nat (12 * (b - a)))) 1 = date_utc b (m - 1) 1"
      using that make_day_shift [of a "m - 1" "b - a" 1] by (simp add: date_utc_def)
    finally show ?thesis .
  qed
  show ?thesis
  proof
    assume "in_window (leave_year_window y m) (lw_start (leave_year_window y' m))"
    then have "date_utc y (m - 1) 1 \<le> date_utc y' (m - 1) 1" "date_utc y' (m - 1) 1 < date_utc (y + 1) (m - 1) 1"
      by (simp_all add: in_window_def leave_year_window_def)
    moreover have "y' < y \<Longrightarrow> date_utc y' (m - 1) 1 < date_utc y (m - 1) 1" using up assms by simp
    moreover have "y + 1 < y' \<Longrightarrow> date_utc (y + 1) (m - 1) 1 < date_utc y' (m - 1) 1" using up [of "y + 1" y'] assms by simp
    ultimately show "y = y'" by (cases y y' rule: linorder_cases; cases "y + 1 = y'") force+
  qed (use assms up [of y "y + 1"] in \<open>auto simp: in_window_def leave_year_window_def\<close>)
qed

lemma carry_run_entries:
  assumes r: "carry_ready today s" and y: "100 \<le> y"
    and w: "w = leave_year_window y (ls_fy_start_month (lv_settings s))"
  shows "carried_entries w e t (snd (apply_carry_forward today s)) = carried_entries w e t s
    \<or> carried_entries w e t s = [] \<and> length (carried_entries w e t (snd (apply_carry_forward today s))) = 1"
proof -
  let ?w = "current_window (utc_midnight today) s"
  let ?new = "\<lambda>x. map ledger_row (post_entries lb_employee lb_type
    (\<lambda>x. balance_of (lb_employee x) (lb_type x) (lw_year ?w) s) (carry_owed today s) CARRY_FORWARD x)"
  have cy: "clean_year today s" using r by (simp add: carry_ready_def)
  show ?thesis
  proof (cases "find_row (\<lambda>x. (lb_employee x, lb_type x) = (e, t)) (carry_items today s)")
    case None
    then show ?thesis unfolding carried_of_pair carry_run.run_pair_ledger [OF r] None by simp
  next
    case (Some x)
    then have x: "lb_employee x = e" "lb_type x = t" using find_row_SomeD by fastforce+
    have led: "carried_entries w e t (snd (apply_carry_forward today s)) = carried_entries w e t s
        @ filter (\<lambda>l. ll_source l = CARRY_FORWARD \<and> in_window w (ll_occurred_at l)) (?new x)"
      unfolding carried_of_pair carry_run.run_pair_ledger [OF r] Some by simp
    show ?thesis
    proof (cases "carry_owed today s x = []")
      case True
      then show ?thesis unfolding led by (simp add: post_entries_def)
    next
      case False
      then obtain d where owed: "carry_owed today s x = [\<lparr>cr_period_start = lw_start ?w, cr_occurred_at = lw_start ?w, cr_amount = d\<rparr>]"
        and free: "\<not> already_carried ?w e t s" using x by (auto simp: carry_owed_def Let_def split: if_splits)
      have "w = ?w" if "in_window w (lw_start ?w)"
        using that window_starts [OF y, of "resolve_leave_year (utc_midnight today) (ls_fy_start_month (lv_settings s))"
          "ls_fy_start_month (lv_settings s)"] cy
        by (simp add: w current_window_def clean_year_def)
      with free show ?thesis
        unfolding led by (auto simp: post_entries_def owed ledger_row_def Let_def already_carried_iff)
    qed
  qed
qed

text \<open>What one pair gets: its unused days of the year before, at most the cap.\<close>

lemma carry_run_amount:
  assumes r: "carry_ready today s" and b: "b \<in> set (carry_items today s)"
    and free: "\<not> already_carried (current_window (utc_midnight today) s) (lb_employee b) (lb_type b) s"
    and ty: "find_row (\<lambda>r. lt_id r = lb_type b) (carry_types s) = Some ty"
  shows "map ll_delta (carried_entries (current_window (utc_midnight today) s) (lb_employee b) (lb_type b) (snd (apply_carry_forward today s)))
    = (let d = min (lb_accrued b - lb_used b) (lt_carry_forward_cap ty) in if 0 < d then [d] else [])"
proof -
  let ?w = "current_window (utc_midnight today) s" and ?e = "lb_employee b" and ?t = "lb_type b"
  let ?bal = "\<lambda>x. balance_of (lb_employee x) (lb_type x) (lw_year ?w) s"
  have cols: "fits_column (lb_accrued b)" "fits_column (lb_used b)"
    using r b by (auto simp: carry_ready_def carry_items_def previous_balances_def split: if_splits)
  obtain j where j: "about (available_of b) j" "\<bar>j\<bar> \<le> 2 * 10 ^ 6" "lb_accrued b - lb_used b = of_int j / 100"
    using available_about [OF cols] .
  have "ty \<in> set (lv_types s)" using ty find_row_SomeD by (fastforce simp: carry_types_def)
  then obtain c where c: "lt_carry_forward_cap ty = of_int c / 100" "\<bar>c\<bar> \<le> 10 ^ 6"
    using r by (auto simp: carry_ready_def fits_column_def)
  have "carry_cap s ?t = num (lt_carry_forward_cap ty)" using ty by (simp add: carry_cap_def)
  then have cap: "carry_cap s ?t = cents c" unfolding c(1) num_cents .
  have amount: "carry_forward_days (available_of b) (carry_cap s ?t) = cents (max 0 (min j c))"
    by (rule carry_amount [OF j(1,2) cap c(2)])
  have find: "find_row (\<lambda>x. (lb_employee x, lb_type x) = (?e, ?t)) (carry_items today s) = Some b"
    using find_row_unique [of "\<lambda>x. (lb_employee x, lb_type x)" "carry_items today s" b] b
      carry_run.distinct_items [OF r] by (simp add: unique_key_def)
  have led: "carried_entries ?w ?e ?t (snd (apply_carry_forward today s)) =
      filter (\<lambda>l. ll_source l = CARRY_FORWARD \<and> in_window ?w (ll_occurred_at l))
        (map ledger_row (post_entries lb_employee lb_type ?bal (carry_owed today s) CARRY_FORWARD b))"
    using free unfolding already_carried_iff carried_of_pair carry_run.run_pair_ledger [OF r] find by simp
  have start: "in_window ?w (lw_start ?w)"
    using window_starts r by (simp add: carry_ready_def clean_year_def current_window_def)
  define k where "k = min j c"
  have d: "min (lb_accrued b - lb_used b) (lt_carry_forward_cap ty) = of_int k / 100"
    unfolding j(3) c(1) k_def by (simp add: min_def divide_le_cancel)
  have col: "days_col (cents k) = of_int k / 100" using j(2) c(2) by (intro days_col_cents) (auto simp: k_def)
  have owed: "carry_owed today s b = (if k \<le> 0 then []
      else [\<lparr>cr_period_start = lw_start ?w, cr_occurred_at = lw_start ?w, cr_amount = cents k\<rparr>])"
    using free unfolding carry_owed_def amount Let_def k_def [symmetric] by (simp add: cents_le_0 max_def)
  show ?thesis
    unfolding led d Let_def using start col by (simp add: owed post_entries_def ledger_row_def Let_def)
qed

text \<open>
  C19. Unused leave is carried once and capped: in the first week of a leave year the carry-forward
  run writes, for a balance of the year before whose employee is still employed and whose type
  carries days, exactly one CARRY_FORWARD entry of the days left over, but at most the type's cap -
  and none if nothing is left over or an entry of the year exists already.
\<close>

theorem carry_forward_effect:
  assumes "carry_ready today s" and "b \<in> set (lv_balances s)" and "lb_year b + 1 = lw_year (current_window (utc_midnight today) s)"
    and "find_row (\<lambda>e. le_id e = lb_employee b \<and> \<not> le_separated e) (lv_employees s) \<noteq> None"
    and "find_row (\<lambda>r. lt_id r = lb_type b) (carry_types s) = Some ty"
    and "utc_midnight today < lw_start (current_window (utc_midnight today) s) + 7 * DAY_MS"
  shows "map ll_delta (carried_entries (current_window (utc_midnight today) s) (lb_employee b) (lb_type b) (snd (apply_carry_forward today s)))
    = (let before = map ll_delta (carried_entries (current_window (utc_midnight today) s) (lb_employee b) (lb_type b) s);
           d = min (lb_accrued b - lb_used b) (lt_carry_forward_cap ty)
       in if before = [] \<and> 0 < d then [d] else before)"
proof -
  let ?w = "current_window (utc_midnight today) s"
  have b: "b \<in> set (carry_items today s)"
  proof -
    obtain e where "e \<in> set (lv_employees s)" "le_id e = lb_employee b" "\<not> le_separated e" using assms(4) by auto
    then have "lb_employee b \<in> le_id ` {x \<in> set (lv_employees s). \<not> le_separated x}" by force
    moreover have "lb_type b \<in> lt_id ` set (carry_types s)" using find_row_SomeD [OF assms(5)] by force
    ultimately show ?thesis using assms(2,3,6) by (simp add: carry_items_def carry_late_def previous_balances_def)
  qed
  show ?thesis
  proof (cases "already_carried ?w (lb_employee b) (lb_type b) s")
    case False
    from carry_run_amount [OF assms(1) b False assms(5)] False show ?thesis
      by (simp add: already_carried_iff Let_def)
  next
    case True
    have "100 \<le> resolve_leave_year (utc_midnight today) (ls_fy_start_month (lv_settings s))"
      using assms(1) by (simp add: carry_ready_def clean_year_def)
    from carry_run_entries [OF assms(1) this refl, of "lb_employee b" "lb_type b"] True
    show ?thesis by (auto simp: already_carried_iff Let_def current_window_def)
  qed
qed

section \<open>A new tenant, and one at the start of a year\<close>

definition fresh_leave :: leave_db where
  "fresh_leave = sample_leave\<lparr>lv_balances := [], lv_ledger := []\<rparr>"

definition year_end_leave :: leave_db where
  "year_end_leave = sample_leave\<lparr>lv_balances := [\<lparr>lb_employee = ''e1'', lb_type = ''cl'', lb_year = 2025,
     lb_accrued = 12, lb_used = 4\<rparr>], lv_ledger := []\<rparr>"

lemma sample_window: "current_window (utc_midnight sample_now) sample_leave
    = \<lparr>lw_year = 2026, lw_start = date_utc 2026 3 1, lw_end = date_utc 2027 3 1\<rparr>"
  by code_simp

lemma sample_windows [simp]:
  "current_window (utc_midnight sample_now) fresh_leave = \<lparr>lw_year = 2026, lw_start = date_utc 2026 3 1, lw_end = date_utc 2027 3 1\<rparr>"
  "current_window (utc_midnight sample_now) year_end_leave = \<lparr>lw_year = 2026, lw_start = date_utc 2026 3 1, lw_end = date_utc 2027 3 1\<rparr>"
  using sample_window by (simp_all add: fresh_leave_def year_end_leave_def current_window_def)

lemma sample_years: "clean_year sample_now fresh_leave" "clean_year sample_now year_end_leave"
  using sample_windows by (simp_all add: clean_year_def current_window_def leave_year_window_def fresh_leave_def
      year_end_leave_def sample_leave_def)

lemma fits_column_int: "\<bar>k\<bar> \<le> 10000 \<Longrightarrow> fits_column (of_int k)"
  unfolding fits_column_def by (intro exI [of _ "100 * k"]) simp

lemma fits_columns [simp]: "fits_column 0" "fits_column 4" "fits_column 5" "fits_column 12"
  using fits_column_int [of 0] fits_column_int [of 4] fits_column_int [of 5] fits_column_int [of 12] by simp_all

lemma sample_types: "t \<in> set (lv_types sample_leave) \<Longrightarrow> t = casual_leave \<or> t = paternity_leave"
  by (simp add: sample_leave_def)

lemma sample_columns:
  assumes "t \<in> set (lv_types sample_leave)"
  shows "fits_column (lt_annual_quota t) \<and> fits_column (lt_carry_forward_cap t)"
  using sample_types [OF assms] by (auto simp: casual_leave_def paternity_leave_def)

lemma sample_ids: "clean_ids fresh_leave"
  by (simp add: clean_ids_def fresh_leave_def sample_leave_def casual_leave_def paternity_leave_def)

theorem policy_run_twice_witness:
  "apply_policy_defaults everyone sample_now (snd (apply_policy_defaults everyone sample_now fresh_leave))
     = ((0, 0), snd (apply_policy_defaults everyone sample_now fresh_leave))"
proof (rule policy_run_twice [OF _ _ refl])
  have none: "pair_rows sample_now fresh_leave e t = []" for e t
    by (simp add: pair_rows_def policy_ledger_def fresh_leave_def)
  then show "policy_ready 400 (4 * 10 ^ 6) sample_now fresh_leave"
    using sample_years sample_ids sample_columns
    by (simp add: policy_ready_def pair_rows_def small_ledger_def gross_cents_def) (simp add: fresh_leave_def)
  show "never_negative sample_now fresh_leave"
    by (simp add: never_negative_def none period_cents_def accruals_def net_cents_def)
qed

theorem carry_forward_effect_witness:
  "map ll_delta (carried_entries (current_window (utc_midnight sample_now) year_end_leave) ''e1'' ''cl''
     (snd (apply_carry_forward sample_now year_end_leave))) = [5]"
proof -
  let ?b = "\<lparr>lb_employee = ''e1'', lb_type = ''cl'', lb_year = 2025, lb_accrued = 12, lb_used = 4\<rparr>"
  have "carry_ready sample_now year_end_leave"
    using sample_years sample_columns unfolding carry_ready_def by (simp add: year_end_leave_def)
  moreover have "?b \<in> set (lv_balances year_end_leave)" by (simp add: year_end_leave_def)
  moreover have "find_row (\<lambda>e. le_id e = lb_employee ?b \<and> \<not> le_separated e) (lv_employees year_end_leave) \<noteq> None"
    by (simp add: year_end_leave_def sample_leave_def)
  moreover have "find_row (\<lambda>r. lt_id r = lb_type ?b) (carry_types year_end_leave) = Some casual_leave"
    by code_simp
  moreover have "utc_midnight sample_now < lw_start (current_window (utc_midnight sample_now) year_end_leave) + 7 * DAY_MS"
    by code_simp
  moreover have "lb_year ?b + 1 = lw_year (current_window (utc_midnight sample_now) year_end_leave)" by simp
  moreover have "carried_entries w ''e1'' ''cl'' year_end_leave = []" for w
    by (simp add: carried_entries_def year_end_leave_def)
  moreover have "lt_carry_forward_cap casual_leave = 5" by (simp add: casual_leave_def)
  ultimately show ?thesis
    using carry_forward_effect [of sample_now year_end_leave ?b casual_leave] by (simp del: sample_windows)
qed

end
