(* ===== verification/Imports.thy ===== *)
theory Imports
  imports BankFiles
begin

text \<open>
  Shared plumbing of the spreadsheet imports (\<open>apps/api/src/common/bulk-import.ts\<close>): headers, the
  CSV reader, the rows of a sheet, import dates and enum keys, the report. Strings are ASCII; a
  date string \<open>YYYY-MM-DD\<close> is represented by its UTC midnight. Reading an XLSX workbook is left to
  the library that does it; both readers give a grid of cells.
\<close>

section \<open>Text\<close>

definition to_lower :: "string \<Rightarrow> string" where
  "to_lower s = map (\<lambda>c. if is_upper c then char_of (ord c + 32) else c) s"

definition normalize_header :: "string \<Rightarrow> string" where
  "normalize_header h = filter (\<lambda>c. lower_char c \<or> is_digit c) (to_lower h)"

text \<open>Runs of other characters become one underscore; one at either end is cut off.\<close>

fun underscore_runs :: "bool \<Rightarrow> string \<Rightarrow> string" where
  "underscore_runs run [] = []"
| "underscore_runs run (c # cs) =
     (if is_upper c \<or> is_digit c then c # underscore_runs False cs
      else if run then underscore_runs True cs
      else CHR ''_'' # underscore_runs True cs)"

definition cut_underscore :: "string \<Rightarrow> string" where
  "cut_underscore s =
     (let t = (if s \<noteq> [] \<and> hd s = CHR ''_'' then tl s else s)
      in if t \<noteq> [] \<and> last t = CHR ''_'' then butlast t else t)"

definition to_enum_key :: "string \<Rightarrow> string" where
  "to_enum_key s = cut_underscore (underscore_runs False (to_upper (trim s)))"

section \<open>The CSV reader\<close>

abbreviation "RETURN \<equiv> CHR 0x0D"

definition after_return :: "char \<Rightarrow> string \<Rightarrow> string" where
  "after_return c cs = (case cs of [] \<Rightarrow> [] | d # ds \<Rightarrow> if c = RETURN \<and> d = NEWLINE then ds else cs)"

lemma after_return_length [simp]: "length (after_return c cs) \<le> length cs"
  by (simp add: after_return_def split: list.split)

function csv_grid :: "bool \<Rightarrow> string \<Rightarrow> string list \<Rightarrow> string \<Rightarrow> string list list" where
  "csv_grid quoted field row [] = (if field \<noteq> [] \<or> row \<noteq> [] then [row @ [field]] else [])"
| "csv_grid quoted field row (c # cs) =
     (if quoted
      then if c = QUOTE
           then if cs \<noteq> [] \<and> hd cs = QUOTE then csv_grid True (field @ [QUOTE]) row (tl cs)
                else csv_grid False field row cs
           else csv_grid True (field @ [c]) row cs
      else if c = QUOTE then csv_grid True field row cs
      else if c = COMMA then csv_grid False [] (row @ [field]) cs
      else if c = NEWLINE \<or> c = RETURN then (row @ [field]) # csv_grid False [] [] (after_return c cs)
      else csv_grid False (field @ [c]) row cs)"
  by pat_completeness auto
termination by (relation "measure (\<lambda>(_, _, _, s). length s)") (auto simp: le_imp_less_Suc)

definition read_csv_grid :: "string \<Rightarrow> string list list" where
  "read_csv_grid text = csv_grid False [] [] text"

section \<open>The rows of a sheet\<close>

datatype import_problem = NoHeaderRow | NoDataRows | TooManyRows nat

record sheet_row =
  sr_row :: nat
  sr_values :: "string \<rightharpoonup> string"

record parsed_sheet =
  sh_headers :: "string list"
  sh_rows :: "sheet_row list"

definition MAX_IMPORT_ROWS :: nat where "MAX_IMPORT_ROWS = 5000"

definition cell :: "string list \<Rightarrow> nat \<Rightarrow> string" where
  "cell cells col = (if col < length cells then trim (cells ! col) else [])"

definition row_values :: "string list \<Rightarrow> string list \<Rightarrow> string \<rightharpoonup> string" where
  "row_values headers cells =
     foldl (\<lambda>m (col, h). if h \<noteq> [] \<and> cell cells col \<noteq> [] then m(h \<mapsto> cell cells col) else m) Map.empty
       (List.enumerate 0 headers)"

definition blank_line :: "string list \<Rightarrow> bool" where
  "blank_line cells \<longleftrightarrow> list_all (\<lambda>c. trim c = []) cells"

definition sheet_of_grid :: "string list list \<Rightarrow> (import_problem exn, parsed_sheet) result" where
  "sheet_of_grid grid =
     (let headers = map normalize_header (case grid of [] \<Rightarrow> [] | h # _ \<Rightarrow> h);
          rows = map (\<lambda>(i, cells). \<lparr>sr_row = i, sr_values = row_values headers cells\<rparr>)
            (filter (\<lambda>(i, cells). \<not> blank_line cells) (List.enumerate 2 (tl grid)))
      in if list_all (\<lambda>h. h = []) headers then Inl (BadRequest NoHeaderRow)
         else if rows = [] then Inl (BadRequest NoDataRows)
         else if MAX_IMPORT_ROWS < length rows then Inl (BadRequest (TooManyRows (length rows)))
         else Inr \<lparr>sh_headers = filter (\<lambda>h. h \<noteq> []) headers, sh_rows = rows\<rparr>)"

section \<open>Dates\<close>

text \<open>Digits, a character, digits, a character, digits: the shape of every date pattern.\<close>

definition split_date :: "string \<Rightarrow> (string \<times> char \<times> string \<times> char \<times> string) option" where
  "split_date s =
     (case dropWhile is_digit s of
        [] \<Rightarrow> None
      | x # r \<Rightarrow>
          (case dropWhile is_digit r of
             [] \<Rightarrow> None
           | y # t \<Rightarrow> if list_all is_digit t
               then Some (takeWhile is_digit s, x, takeWhile is_digit r, y, t) else None))"

definition short_number :: "string \<Rightarrow> bool" where
  "short_number s \<longleftrightarrow> length s = 1 \<or> length s = 2"

text \<open>The date built from its parts, when it reads back as the same parts.\<close>

definition calendar_date :: "int \<Rightarrow> int \<Rightarrow> int \<Rightarrow> date option" where
  "calendar_date y m d =
     (let t = date_utc y (m - 1) d
      in if utc_year t = y \<and> utc_month t = m - 1 \<and> utc_date t = d then Some t else None)"

definition parse_import_date :: "string \<Rightarrow> date option" where
  "parse_import_date s =
     (case split_date s of
        None \<Rightarrow> None
      | Some (a, x, b, y, c) \<Rightarrow>
          if length a = 4 \<and> x = CHR ''-'' \<and> y = CHR ''-'' \<and> short_number b \<and> short_number c
          then calendar_date (digits_value a) (digits_value b) (digits_value c)
          else if short_number a \<and> short_number b \<and> length c = 4
            \<and> x \<in> set ''-/.'' \<and> y \<in> set ''-/.''
          then calendar_date (digits_value c) (digits_value b) (digits_value a)
          else None)"

section \<open>The report\<close>

record import_row =
  im_row :: nat
  im_success :: bool

record import_report =
  rp_dry_run :: bool
  rp_total :: nat
  rp_succeeded :: nat
  rp_failed :: nat
  rp_results :: "import_row list"

definition build_report :: "bool \<Rightarrow> import_row list \<Rightarrow> import_report" where
  "build_report dry results =
     (let ok = length (filter im_success results)
      in \<lparr>rp_dry_run = dry, rp_total = length results, rp_succeeded = ok, rp_failed = length results - ok,
          rp_results = results\<rparr>)"

section \<open>Properties\<close>

text \<open>What the reader makes of a quoted or a plain field.\<close>

definition readable :: "string \<Rightarrow> bool" where
  "readable s \<longleftrightarrow> RETURN \<notin> set s"

lemma csv_grid_quoted:
  "csv_grid True f r (double_quotes s @ QUOTE # c # rest) = csv_grid False (f @ s) r (c # rest)" if "c \<noteq> QUOTE"
proof (induction s arbitrary: f)
  case Nil
  then show ?case using that by (simp add: double_quotes_def del: csv_grid.simps) (simp add: that)
next
  case (Cons x s)
  from Cons [of "f @ [x]"] show ?case by (cases "x = QUOTE") (simp_all add: double_quotes_def)
qed

lemma csv_grid_plain:
  "plain s \<Longrightarrow> readable s \<Longrightarrow> csv_grid False f r (s @ rest) = csv_grid False (f @ s) r rest"
  by (induction s arbitrary: f) (auto simp: plain_def readable_def csv_special_def)

lemma csv_grid_field:
  assumes "readable s" and "c = COMMA \<or> c = NEWLINE"
  shows "csv_grid False [] r (csv_escape s @ c # rest) = csv_grid False s r (c # rest)"
proof (cases "plain s")
  case True
  then have "csv_escape s = s" by (simp add: csv_escape_def plain_def)
  with csv_grid_plain [OF True assms(1), of "[]" r "c # rest"] show ?thesis by simp
next
  case False
  then have "csv_escape s = QUOTE # double_quotes s @ [QUOTE]" by (simp add: csv_escape_def plain_def)
  moreover have "c \<noteq> QUOTE" using assms(2) by auto
  note csv_grid_quoted [OF this, of "[]" r s rest]
  ultimately show ?thesis by simp
qed

text \<open>A line of fields, ended by a line feed, reads back as those fields.\<close>

lemma csv_grid_line:
  assumes "\<forall>s \<in> set fs. readable s" and "fs \<noteq> []"
  shows "csv_grid False [] r (join COMMA (map csv_escape fs) @ NEWLINE # rest) = (r @ fs) # csv_grid False [] [] rest"
  using assms
proof (induction fs arbitrary: r rule: induct_list012)
  case (2 s)
  then show ?case using csv_grid_field [of s NEWLINE r rest] by (simp add: after_return_def split: list.split)
next
  case (3 s t fs)
  from 3(2) [of "r @ [s]"] 3(3) csv_grid_field [of s COMMA r "join COMMA (map csv_escape (t # fs)) @ NEWLINE # rest"]
  show ?case by simp
qed simp

lemma date_utc_midnight: "date_utc y m d mod DAY_MS = 0"
  by (simp add: date_utc_def)

text \<open>A calendar date is a midnight, and its parts come back.\<close>

lemma calendar_date_parts:
  "calendar_date y m d = Some t \<Longrightarrow> utc_year t = y \<and> utc_month t = m - 1 \<and> utc_date t = d \<and> t mod DAY_MS = 0"
  using date_utc_midnight [of y "m - 1" d] by (auto simp: calendar_date_def Let_def split: if_splits)

text \<open>Digits and points carry no carriage return.\<close>

lemma readable_to_fixed_2: "readable (to_fixed_2 x)"
proof -
  have digit: "digit n \<noteq> RETURN" if "0 \<le> n" "n < 10" for n
  proof
    assume "digit n = RETURN"
    then have "(of_char (digit n) :: int) = 13" by simp
    with of_char_digit [OF that] that show False by simp
  qed
  have nums: "readable (num_text n)" if "0 \<le> n" for n
    using that
  proof (induction n rule: num_text.induct)
    case (1 n)
    show ?case
    proof (cases "n < 10")
      case True
      with "1.prems" digit [of n] show ?thesis by (subst num_text.simps) (simp add: readable_def)
    next
      case False
      with 1 have "readable (num_text (n div 10))" by auto
      with False digit [of "n mod 10"] show ?thesis by (subst num_text.simps) (simp add: readable_def)
    qed
  qed
  have n: "0 \<le> half_up_int (\<bar>x\<bar> * 100)" by (rule half_up.rnd_ge) simp
  then have "readable (num_text (half_up_int (\<bar>x\<bar> * 100) div 100))" "readable (pad2 (half_up_int (\<bar>x\<bar> * 100) mod 100))"
    using nums by (auto simp: pos_imp_zdiv_nonneg_iff pad2_def Let_def readable_def)
  then show ?thesis by (auto simp: to_fixed_2_def Let_def readable_def)
qed

definition readable_row :: "bank_file_row \<Rightarrow> bool" where
  "readable_row r \<longleftrightarrow> readable (bf_employee_code r) \<and> readable (bf_employee_name r) \<and> readable (bf_account_number r)
     \<and> readable (bf_ifsc r) \<and> readable (or_empty (bf_bank_name r)) \<and> readable (or_empty (bf_payment_mode r))
     \<and> plain (or_empty (bf_payment_mode r))"

lemma csv_line_escaped:
  assumes "plain (or_empty (bf_payment_mode r))"
  shows "csv_line r = join COMMA (map csv_escape (row_fields r))"
proof -
  have "csv_escape s = s" if "plain s" for s using that by (simp add: csv_escape_def plain_def)
  with assms plain_to_fixed_2 show ?thesis by (simp add: csv_line_def row_fields_def)
qed

lemma csv_grid_lines:
  assumes "\<forall>r \<in> set rows. readable_row r" and "rows \<noteq> []"
  shows "csv_grid False [] [] (join NEWLINE (map csv_line rows) @ [NEWLINE]) = map row_fields rows"
  using assms
proof (induction rows rule: induct_list012)
  case (2 r)
  then have "\<forall>s \<in> set (row_fields r). readable s" "plain (or_empty (bf_payment_mode r))"
    by (auto simp: readable_row_def row_fields_def readable_to_fixed_2)
  from csv_grid_line [OF this(1), of "[]" "[]"] csv_line_escaped [OF this(2)] show ?case by (simp add: row_fields_def)
next
  case (3 r q rows)
  then have "\<forall>s \<in> set (row_fields r). readable s" "plain (or_empty (bf_payment_mode r))"
    by (auto simp: readable_row_def row_fields_def readable_to_fixed_2)
  from csv_grid_line [OF this(1), of "[]"] csv_line_escaped [OF this(2)] 3 show ?case
    by (simp add: row_fields_def del: csv_grid.simps)
qed simp

lemma generated_csv_grid:
  assumes "\<forall>r \<in> set rows. readable_row r"
  shows "read_csv_grid (generate_csv rows) = csv_header # map row_fields rows"
proof -
  have plain: "\<forall>s \<in> set csv_header. readable s \<and> csv_escape s = s"
    by (simp add: csv_header_def readable_def csv_escape_def csv_special_def)
  then have esc: "map csv_escape csv_header = csv_header" by (intro map_idI) simp
  have header: "csv_grid False [] [] (join COMMA csv_header @ NEWLINE # rest) = csv_header # csv_grid False [] [] rest" for rest
    using csv_grid_line [of csv_header "[]" rest] plain unfolding esc by (simp add: csv_header_def)
  show ?thesis
  proof (cases rows)
    case Nil
    then show ?thesis using header [of "[]"] by (simp add: read_csv_grid_def generate_csv_def)
  next
    case (Cons r rs)
    then have "generate_csv rows =
        join COMMA csv_header @ NEWLINE # (join NEWLINE (map csv_line rows) @ [NEWLINE])"
      by (simp add: generate_csv_def)
    then show ?thesis
      using header csv_grid_lines [OF assms] Cons by (simp add: read_csv_grid_def)
  qed
qed

text \<open>
  What the payroll writes, the imports can read: the grid that the import reader makes of a
  generated bank file is the header and, for every row in order, its seven values exactly, whatever
  commas, quotes and line feeds names and numbers contain (a carriage return would not survive, nor
  a payment mode with special characters, which the generator does not escape).
\<close>

theorem bank_file_reads_back:
  assumes "\<forall>r \<in> set rows. readable_row r"
  shows "read_csv_grid (generate_csv rows) = csv_header # map row_fields rows"
  by (rule generated_csv_grid [OF assms])

theorem bank_file_reads_back_witness:
  "read_csv_grid (generate_csv [sample_row]) = [csv_header, row_fields sample_row]"
  using bank_file_reads_back [of "[sample_row]"]
  by (simp add: sample_row_def readable_row_def readable_def or_empty_def plain_def csv_special_def)

end
