(* ===== verification/LeaveRecalc.thy ===== *)
theory LeaveRecalc
  imports LeavePolicy Imports
begin

text \<open>
  "Recalculate policy credits" (\<open>apps/api/src/leave/leave-policy-recalc.service.ts\<close>): reverse every
  policy credit of the current leave year, set the go-live date if one is given, and credit again.
  One transaction; a preview measures the result and rolls back. Names for display are left out.
\<close>

section \<open>Net credit per employee, type and period\<close>

record credit_group =
  cg_employee :: id
  cg_type :: id
  cg_start :: date
  cg_net :: number
  cg_at :: date

definition recalc_types :: "leave_db \<Rightarrow> leave_type_row list" where
  "recalc_types s = filter (\<lambda>t. lt_grant_mode t = ACCRUED \<and> \<not> lt_comp_off t) (lv_types s)"

definition recalc_ledger :: "leave_window \<Rightarrow> leave_db \<Rightarrow> leave_ledger_row list" where
  "recalc_ledger w s = filter (\<lambda>l. ll_type l \<in> set (map lt_id (recalc_types s))
     \<and> (ll_source l = ACCRUAL \<or> ll_source l = ACCRUAL_REVERSAL) \<and> in_window w (ll_occurred_at l)) (lv_ledger s)"

definition recalc_frequency :: "leave_db \<Rightarrow> id \<Rightarrow> accrual_frequency" where
  "recalc_frequency s t = (case find_row (\<lambda>r. lt_id r = t) (recalc_types s) of None \<Rightarrow> ANNUAL | Some r \<Rightarrow> lt_frequency r)"

definition same_group :: "leave_ledger_row \<Rightarrow> date \<Rightarrow> credit_group \<Rightarrow> bool" where
  "same_group l d g \<longleftrightarrow> cg_employee g = ll_employee l \<and> cg_type g = ll_type l \<and> cg_start g = d"

definition add_to_group :: "leave_ledger_row \<Rightarrow> credit_group \<Rightarrow> credit_group" where
  "add_to_group l g = g\<lparr>cg_net := round2 (js_fl (cg_net g + num (ll_delta l))),
     cg_at := (if cg_at g < ll_occurred_at l then cg_at g else ll_occurred_at l)\<rparr>"

definition new_group :: "leave_ledger_row \<Rightarrow> date \<Rightarrow> credit_group" where
  "new_group l d = \<lparr>cg_employee = ll_employee l, cg_type = ll_type l, cg_start = d,
     cg_net = round2 (js_fl (0 + num (ll_delta l))), cg_at = ll_occurred_at l\<rparr>"

definition group_entry :: "leave_window \<Rightarrow> leave_db \<Rightarrow> credit_group list \<Rightarrow> leave_ledger_row \<Rightarrow> credit_group list" where
  "group_entry w s gs l =
     (case period_start_of (recalc_frequency s (ll_type l)) w l of
        None \<Rightarrow> gs
      | Some d \<Rightarrow> upsert_row (same_group l d) (add_to_group l) (new_group l d) gs)"

definition credit_groups :: "leave_window \<Rightarrow> leave_db \<Rightarrow> credit_group list" where
  "credit_groups w s = foldl (group_entry w s) [] (recalc_ledger w s)"

section \<open>Reversals\<close>

record reversal_state =
  rv_by_key :: "((id \<times> id) \<times> number) list"
  rv_entries :: "leave_ledger_row list"

definition reversed_so_far :: "id \<times> id \<Rightarrow> reversal_state \<Rightarrow> number" where
  "reversed_so_far k r = (case map_of (rv_by_key r) k of None \<Rightarrow> 0 | Some x \<Rightarrow> x)"

definition num_of_balance :: "(leave_balance_row \<Rightarrow> decimal) \<Rightarrow> leave_balance_row option \<Rightarrow> number" where
  "num_of_balance g b = (case b of None \<Rightarrow> 0 | Some x \<Rightarrow> num (g x))"

definition reverse_group :: "id \<Rightarrow> int \<Rightarrow> leave_db \<Rightarrow> reversal_state \<Rightarrow> credit_group \<Rightarrow> reversal_state" where
  "reverse_group actor y s r g =
     (if cg_net g \<le> 0 then r
      else let k = (cg_employee g, cg_type g);
               b = balance_of (cg_employee g) (cg_type g) y s;
               amount = js_fl (reversed_so_far k r + cg_net g)
           in \<lparr>rv_by_key = upsert_row (\<lambda>e. fst e = k) (\<lambda>e. (k, amount)) (k, amount) (rv_by_key r),
               rv_entries = rv_entries r @ [\<lparr>ll_employee = cg_employee g, ll_type = cg_type g, ll_occurred_at = cg_at g,
                 ll_delta = days_col (- cg_net g),
                 ll_balance_after = days_col (round2 (js_fl (js_fl (num_of_balance lb_accrued b - amount) - num_of_balance lb_used b))),
                 ll_source = ACCRUAL_REVERSAL, ll_actor = Some actor\<rparr>]\<rparr>)"

definition column_sub :: "decimal \<Rightarrow> number \<Rightarrow> decimal" where
  "column_sub v x = half_up_places 2 (v - of_number x)"

definition decrement_balance :: "int \<Rightarrow> leave_balance_row table \<Rightarrow> (id \<times> id) \<times> number \<Rightarrow> leave_balance_row table" where
  "decrement_balance y bs = (\<lambda>((e, t), d). update_rows (has_key e t y) (\<lambda>b. b\<lparr>lb_accrued := column_sub (lb_accrued b) d\<rparr>) bs)"

definition reverse_credits :: "id \<Rightarrow> leave_window \<Rightarrow> leave_db \<Rightarrow> nat \<times> leave_db" where
  "reverse_credits actor w s =
     (let r = foldl (reverse_group actor (lw_year w) s) \<lparr>rv_by_key = [], rv_entries = []\<rparr> (credit_groups w s)
      in (length (rv_entries r),
          s\<lparr>lv_balances := foldl (decrement_balance (lw_year w)) (lv_balances s) (rv_by_key r),
            lv_ledger := lv_ledger s @ rv_entries r\<rparr>))"

section \<open>The recalculation\<close>

datatype recalc_problem = GoLiveNotADate | GoLiveTooFar

definition MAX_GO_LIVE_AHEAD_DAYS :: int where "MAX_GO_LIVE_AHEAD_DAYS = 90"

record recalc_input =
  rc_go_live :: "string option"
  rc_dry_run :: bool

record recalc_change =
  ch_employee :: id
  ch_type :: id
  ch_before :: number
  ch_after :: number

record recalc_result =
  rr_year :: int
  rr_go_live :: "date option"
  rr_reversed :: nat
  rr_credited :: nat
  rr_changes :: "recalc_change list"
  rr_negative :: nat

definition balances_of_year :: "int \<Rightarrow> leave_db \<Rightarrow> leave_balance_row list" where
  "balances_of_year y s = filter (\<lambda>b. lb_year b = y \<and> lb_type b \<in> set (map lt_id (recalc_types s))) (lv_balances s)"

definition avail :: "leave_balance_row option \<Rightarrow> number" where
  "avail b = (case b of None \<Rightarrow> 0 | Some x \<Rightarrow> round2 (available_of x))"

definition recalc_changes :: "int \<Rightarrow> leave_db \<Rightarrow> leave_db \<Rightarrow> recalc_change list" where
  "recalc_changes y s s' =
     map (\<lambda>b. \<lparr>ch_employee = lb_employee b, ch_type = lb_type b,
         ch_before = avail (balance_of (lb_employee b) (lb_type b) y s), ch_after = avail (Some b)\<rparr>)
       (filter (\<lambda>b. avail (Some b) \<noteq> avail (balance_of (lb_employee b) (lb_type b) y s)) (balances_of_year y s'))"

definition go_live_of :: "recalc_input \<Rightarrow> date \<Rightarrow> (recalc_problem exn, date option) result" where
  "go_live_of i now =
     (case rc_go_live i of
        None \<Rightarrow> Inr None
      | Some text \<Rightarrow>
          if text = [] then Inr None
          else case parse_import_date text of
                 None \<Rightarrow> Inl (BadRequest GoLiveNotADate)
               | Some d \<Rightarrow>
                   if MAX_GO_LIVE_AHEAD_DAYS < days_between_utc (utc_midnight now) d then Inl (BadRequest GoLiveTooFar)
                   else Inr (Some d))"

definition recalculate_credits :: "id \<Rightarrow> date option \<Rightarrow> date \<Rightarrow> leave_db \<Rightarrow> (nat \<times> nat) \<times> leave_db" where
  "recalculate_credits actor go now s =
     (let s1 = (case go of None \<Rightarrow> s | Some d \<Rightarrow> s\<lparr>lv_settings := (lv_settings s)\<lparr>ls_go_live := Some d\<rparr>\<rparr>);
          w = current_window (utc_midnight now) s;
          (reversed, s2) = reverse_credits actor w s1;
          ((credited, _), s3) = apply_policy_defaults everyone now s2
      in ((reversed, credited), s3))"

definition recalculate_policy :: "recalc_input \<Rightarrow> auth_user \<Rightarrow> date \<Rightarrow> leave_db \<Rightarrow> (recalc_problem exn, recalc_result \<times> leave_db) result" where
  "recalculate_policy i user now s =
     and_then (go_live_of i now) (\<lambda>go.
     let w = current_window (utc_midnight now) s;
         ((reversed, credited), s') = recalculate_credits (sub user) go now s;
         changes = recalc_changes (lw_year w) s s'
     in Inr (\<lparr>rr_year = lw_year w, rr_go_live = (case go of None \<Rightarrow> ls_go_live (lv_settings s) | Some d \<Rightarrow> Some d),
          rr_reversed = reversed, rr_credited = credited, rr_changes = changes,
          rr_negative = length (filter (\<lambda>c. ch_after c < 0) changes)\<rparr>,
        if rc_dry_run i then s else s'))"

section \<open>Separated employees\<close>

text \<open>
  The reversal takes the credits of every employee, the run that follows credits only those still
  employed: recalculating after a separation removes the leave a leaver had accrued (and with it
  what the final settlement would encash).
\<close>

definition leaver :: leave_db where
  "leaver = \<lparr>lv_settings = \<lparr>ls_approval_levels = 2, ls_single_approver = BY_HR, ls_escalation_days = 3, ls_allow_lop = True,
       ls_fy_start_month = 4, ls_weekly_offs = [0, 6], ls_go_live = None\<rparr>,
     lv_types = [\<lparr>lt_id = ''el'', lt_name = ''Earned Leave'', lt_code = ''EL'', lt_annual_quota = 12,
       lt_carry_forward_cap = 5, lt_min_notice_days = 0, lt_active = True, lt_frequency = ANNUAL, lt_gender = ANY,
       lt_comp_off = False, lt_encashable = True, lt_restricted_holiday = False, lt_grant_mode = ACCRUED,
       lt_days_per_event = None, lt_reduced_days = None, lt_reduced_after = None, lt_calendar_days = False,
       lt_max_events = None, lt_event_label = None, lt_window_before = 0, lt_window_after = 0,
       lt_min_service_days = 0, lt_requires_document = False, lt_color = [], lt_paid = True,
       lt_requires_approval = True, lt_statutory = False\<rparr>],
     lv_employees = [\<lparr>le_id = ''e1'', le_gender = None, le_joined = None, le_manager = None, le_separated = True\<rparr>],
     lv_holidays = [],
     lv_balances = [\<lparr>lb_employee = ''e1'', lb_type = ''el'', lb_year = 2026, lb_accrued = 12, lb_used = 0\<rparr>],
     lv_ledger = [\<lparr>ll_employee = ''e1'', ll_type = ''el'', ll_occurred_at = date_utc 2026 3 1, ll_delta = 12,
       ll_balance_after = 12, ll_source = ACCRUAL, ll_actor = None\<rparr>],
     lv_requests = [], lv_approvals = [], lv_attendance = [], lv_attachments = {}, lv_jobs = [], lv_outbox = []\<rparr>"

lemma leaver_reversed: "map lb_accrued (lv_balances (snd (reverse_credits ''hr'' (current_window (date_utc 2026 8 10) leaver) leaver))) = [0]"
  by code_simp

lemma leaver_loses_credits:
  "map lb_accrued (lv_balances (snd (recalculate_credits ''hr'' None (date_utc 2026 8 10) leaver))) = [0]"
proof -
  have day: "utc_midnight (date_utc 2026 8 10) = date_utc 2026 8 10" by code_simp
  have "lv_employees (snd (reverse_credits a w leaver)) = lv_employees leaver" for a w
    by (simp add: reverse_credits_def Let_def)
  then have none: "policy_employees everyone (snd (reverse_credits a w leaver)) = []" for a w
    by (simp add: policy_employees_def leaver_def)
  obtain n s where rev: "reverse_credits ''hr'' (current_window (date_utc 2026 8 10) leaver) leaver = (n, s)" by fastforce
  have "apply_policy_defaults everyone (date_utc 2026 8 10) s = ((0, 0), s)"
    using none [of "''hr''" "current_window (date_utc 2026 8 10) leaver"]
    by (simp add: apply_policy_defaults_def rev write_policy_def no_writes_def everyone_def Let_def)
  then show ?thesis using leaver_reversed by (simp add: recalculate_credits_def day rev)
qed

end
