(* ===== verification/LeaveConfig.thy ===== *)
theory LeaveConfig
  imports LeaveRequests "HOL-Library.List_Lexorder"
begin

text \<open>
  The leave service's configuration and its views (\<open>apps/api/src/leave/leave.service.ts\<close>): the
  leave settings, leave types, holidays, and what an employee, a manager or HR is shown. Columns are
  unique where the schema says so (a leave type's name and code, a holiday's date and name); a write
  that breaks one fails. Names are ordered by character code.
\<close>

section \<open>Settings\<close>

record settings_patch =
  sp_levels :: "int option"
  sp_single_approver :: "single_approver option"
  sp_escalation_days :: "int option"
  sp_allow_lop :: "bool option"
  sp_fy_start_month :: "int option"

definition keep :: "'a option \<Rightarrow> 'a \<Rightarrow> 'a" where
  "keep p old = (case p of None \<Rightarrow> old | Some new \<Rightarrow> new)"

lemma keep_simps [simp]: "keep None old = old" "keep (Some new) old = new"
  by (simp_all add: keep_def)

definition update_leave_settings :: "settings_patch \<Rightarrow> leave_db \<Rightarrow> leave_db" where
  "update_leave_settings p s = s\<lparr>lv_settings := (lv_settings s)\<lparr>
     ls_approval_levels := keep (sp_levels p) (ls_approval_levels (lv_settings s)),
     ls_single_approver := keep (sp_single_approver p) (ls_single_approver (lv_settings s)),
     ls_escalation_days := keep (sp_escalation_days p) (ls_escalation_days (lv_settings s)),
     ls_allow_lop := keep (sp_allow_lop p) (ls_allow_lop (lv_settings s)),
     ls_fy_start_month := keep (sp_fy_start_month p) (ls_fy_start_month (lv_settings s))\<rparr>\<rparr>"

section \<open>Leave types\<close>

text \<open>
  The fields of a create or an update request; a field that is absent is \<open>None\<close>, and where the
  request may clear a column a \<open>null\<close> is \<open>Some None\<close>.
\<close>

record type_patch =
  tp_name :: "string option"
  tp_code :: "string option"
  tp_color :: "string option"
  tp_annual_quota :: "number option"
  tp_carry_forward_cap :: "number option"
  tp_min_notice_days :: "int option"
  tp_active :: "bool option"
  tp_frequency :: "accrual_frequency option"
  tp_gender :: "gender_restriction option"
  tp_paid :: "bool option"
  tp_requires_approval :: "bool option"
  tp_comp_off :: "bool option"
  tp_restricted_holiday :: "bool option"
  tp_grant_mode :: "grant_mode option"
  tp_days_per_event :: "number option option"
  tp_reduced_days :: "number option option"
  tp_reduced_after :: "int option option"
  tp_calendar_days :: "bool option"
  tp_max_events :: "int option option"
  tp_event_label :: "string option option"
  tp_window_before :: "int option"
  tp_window_after :: "int option"
  tp_min_service_days :: "int option"
  tp_requires_document :: "bool option"
  tp_statutory :: "bool option"

definition list_types :: "bool \<Rightarrow> leave_db \<Rightarrow> leave_type_row list" where
  "list_types include_inactive s = sort_key lt_name (filter (\<lambda>t. include_inactive \<or> lt_active t) (lv_types s))"

definition assert_event_config :: "event_config \<Rightarrow> unit leave_answer" where
  "assert_event_config t =
     (if event_type_config_problems t = [] then Inr () else Inl (BadRequest (TypeConfig (event_type_config_problems t))))"

definition opt_num :: "decimal option \<Rightarrow> number option" where
  "opt_num v = map_option num v"

text \<open>What the checks read of a new type: the request alone; of a changed one: the row under the request.\<close>

definition new_config :: "type_patch \<Rightarrow> event_config" where
  "new_config p = \<lparr>ec_grant_mode = keep (tp_grant_mode p) ACCRUED,
     ec_days = (case tp_days_per_event p of None \<Rightarrow> None | Some d \<Rightarrow> Some (keep d 0)),
     ec_reduced_days = keep (tp_reduced_days p) None,
     ec_reduced_after = keep (tp_reduced_after p) None,
     ec_label = keep (tp_event_label p) None,
     ec_window_before = keep (tp_window_before p) 0,
     ec_window_after = keep (tp_window_after p) 0,
     ec_comp_off = keep (tp_comp_off p) False,
     ec_restricted_holiday = keep (tp_restricted_holiday p) False\<rparr>"

definition changed_config :: "type_patch \<Rightarrow> leave_type_row \<Rightarrow> event_config" where
  "changed_config p t = \<lparr>ec_grant_mode = keep (tp_grant_mode p) (lt_grant_mode t),
     ec_days = Some (keep (keep (tp_days_per_event p) (opt_num (lt_days_per_event t))) 0),
     ec_reduced_days = keep (tp_reduced_days p) (opt_num (lt_reduced_days t)),
     ec_reduced_after = keep (tp_reduced_after p) (lt_reduced_after t),
     ec_label = keep (tp_event_label p) (lt_event_label t),
     ec_window_before = keep (tp_window_before p) (lt_window_before t),
     ec_window_after = keep (tp_window_after p) (lt_window_after t),
     ec_comp_off = keep (tp_comp_off p) (lt_comp_off t),
     ec_restricted_holiday = keep (tp_restricted_holiday p) (lt_restricted_holiday t)\<rparr>"

definition fits :: "number option \<Rightarrow> bool" where
  "fits x \<longleftrightarrow> (case x of None \<Rightarrow> True | Some d \<Rightarrow> fits_days_column d)"

definition patch_fits :: "type_patch \<Rightarrow> bool" where
  "patch_fits p \<longleftrightarrow> fits (tp_annual_quota p) \<and> fits (tp_carry_forward_cap p)
     \<and> fits (keep (tp_days_per_event p) None) \<and> fits (keep (tp_reduced_days p) None)"

text \<open>The columns a request sets, and the defaults of the schema.\<close>

definition set_columns :: "type_patch \<Rightarrow> leave_type_row \<Rightarrow> leave_type_row" where
  "set_columns p t = t\<lparr>
     lt_name := keep (tp_name p) (lt_name t), lt_code := keep (tp_code p) (lt_code t),
     lt_annual_quota := keep (map_option days_col (tp_annual_quota p)) (lt_annual_quota t),
     lt_carry_forward_cap := keep (map_option days_col (tp_carry_forward_cap p)) (lt_carry_forward_cap t),
     lt_min_notice_days := keep (tp_min_notice_days p) (lt_min_notice_days t),
     lt_active := keep (tp_active p) (lt_active t), lt_frequency := keep (tp_frequency p) (lt_frequency t),
     lt_gender := keep (tp_gender p) (lt_gender t), lt_comp_off := keep (tp_comp_off p) (lt_comp_off t),
     lt_restricted_holiday := keep (tp_restricted_holiday p) (lt_restricted_holiday t),
     lt_grant_mode := keep (tp_grant_mode p) (lt_grant_mode t),
     lt_days_per_event := keep (map_option (map_option days_col) (tp_days_per_event p)) (lt_days_per_event t),
     lt_reduced_days := keep (map_option (map_option days_col) (tp_reduced_days p)) (lt_reduced_days t),
     lt_reduced_after := keep (tp_reduced_after p) (lt_reduced_after t),
     lt_calendar_days := keep (tp_calendar_days p) (lt_calendar_days t),
     lt_max_events := keep (tp_max_events p) (lt_max_events t),
     lt_event_label := keep (tp_event_label p) (lt_event_label t),
     lt_window_before := keep (tp_window_before p) (lt_window_before t),
     lt_window_after := keep (tp_window_after p) (lt_window_after t),
     lt_min_service_days := keep (tp_min_service_days p) (lt_min_service_days t),
     lt_requires_document := keep (tp_requires_document p) (lt_requires_document t),
     lt_color := keep (tp_color p) (lt_color t), lt_paid := keep (tp_paid p) (lt_paid t),
     lt_requires_approval := keep (tp_requires_approval p) (lt_requires_approval t),
     lt_statutory := keep (tp_statutory p) (lt_statutory t)\<rparr>"

definition blank_type :: "id \<Rightarrow> leave_type_row" where
  "blank_type i = \<lparr>lt_id = i, lt_name = [], lt_code = [], lt_annual_quota = 0, lt_carry_forward_cap = 0,
     lt_min_notice_days = 0, lt_active = True, lt_frequency = ANNUAL, lt_gender = ANY, lt_comp_off = False,
     lt_encashable = False, lt_restricted_holiday = False, lt_grant_mode = ACCRUED, lt_days_per_event = None,
     lt_reduced_days = None, lt_reduced_after = None, lt_calendar_days = False, lt_max_events = None,
     lt_event_label = None, lt_window_before = 0, lt_window_after = 0, lt_min_service_days = 0,
     lt_requires_document = False, lt_color = ''#2b5a8c'', lt_paid = True, lt_requires_approval = True,
     lt_statutory = False\<rparr>"

definition type_taken :: "leave_type_row \<Rightarrow> leave_db \<Rightarrow> bool" where
  "type_taken t s \<longleftrightarrow> (\<exists>u \<in> set (lv_types s). lt_id u \<noteq> lt_id t \<and> (lt_name u = lt_name t \<or> lt_code u = lt_code t))"

text \<open>\<open>i\<close> is the id the database draws: a fresh one. The name, the code and the quota are required.\<close>

definition create_type :: "id \<Rightarrow> type_patch \<Rightarrow> leave_db \<Rightarrow> (leave_type_row \<times> leave_db) leave_answer" where
  "create_type i p s =
     and_then (assert_event_config (new_config p)) (\<lambda>_.
       let t = set_columns p (blank_type i)
       in if \<not> patch_fits p then Inl (Crash NumericOverflow)
          else if type_taken t s then Inl (Crash UniqueViolation)
          else Inr (t, s\<lparr>lv_types := lv_types s @ [t]\<rparr>))"

definition update_type :: "id \<Rightarrow> type_patch \<Rightarrow> leave_db \<Rightarrow> (leave_type_row \<times> leave_db) leave_answer" where
  "update_type i p s =
     and_then (row_or_throw (find_type s i)) (\<lambda>current.
     and_then (assert_event_config (changed_config p current)) (\<lambda>_.
       let t = set_columns p current
       in if \<not> patch_fits p then Inl (Crash NumericOverflow)
          else if type_taken t s then Inl (Crash UniqueViolation)
          else Inr (t, s\<lparr>lv_types := update_rows (\<lambda>u. lt_id u = i) (set_columns p) (lv_types s)\<rparr>)))"

section \<open>Event leave an employee can request\<close>

record event_offer =
  eo_type :: id
  eo_label :: "string option"
  eo_calendar_days :: bool
  eo_requires_document :: bool
  eo_events_used :: nat
  eo_max_events :: "int option"
  eo_next_allowance :: number
  eo_window_before :: int
  eo_window_after :: int
  eo_gender_missing :: bool
  eo_esi_covered :: bool

definition offered :: "gender_restriction \<Rightarrow> string option \<Rightarrow> bool" where
  "offered r g \<longleftrightarrow> r = ANY \<or> (case g of None \<Rightarrow> True | Some t \<Rightarrow> to_upper (trim t) = [] \<or>
     (r = MALE \<and> to_upper (trim t) = ''MALE'') \<or> (r = FEMALE \<and> to_upper (trim t) = ''FEMALE''))"

definition event_offer :: "id \<Rightarrow> string option \<Rightarrow> string option \<Rightarrow> leave_db \<Rightarrow> leave_type_row \<Rightarrow> event_offer" where
  "event_offer e gender esic s t =
     (let used = card (set (List.map_filter (\<lambda>q. if lq_employee q = e \<and> lq_type q = lt_id t \<and> live_status (lq_status q)
            then map_option iso_day (lq_event_date q) else None) (lv_requests s)));
          exhausted = (case lt_max_events t of None \<Rightarrow> False | Some m \<Rightarrow> m \<le> int used)
      in \<lparr>eo_type = lt_id t, eo_label = lt_event_label t, eo_calendar_days = lt_calendar_days t,
          eo_requires_document = lt_requires_document t, eo_events_used = used, eo_max_events = lt_max_events t,
          eo_next_allowance = (case to_event_policy t of None \<Rightarrow> 0 | Some p \<Rightarrow> if exhausted then 0 else event_allowance p used),
          eo_window_before = lt_window_before t, eo_window_after = lt_window_after t,
          eo_gender_missing = (lt_gender t \<noteq> ANY \<and> (case gender of None \<Rightarrow> True | Some g \<Rightarrow> trim g = [])),
          eo_esi_covered = (lt_statutory t \<and> (case esic of None \<Rightarrow> False | Some n \<Rightarrow> n \<noteq> []))\<rparr>)"

text \<open>The employee's ESIC number is an argument: no other operation of the module reads it.\<close>

definition event_leave :: "id \<Rightarrow> string option \<Rightarrow> auth_user \<Rightarrow> leave_db \<Rightarrow> event_offer list leave_answer" where
  "event_leave e esic user s =
     and_then (assert_can_view_employee e user s) (\<lambda>_.
     and_then (row_or_throw (find_employee s e)) (\<lambda>emp.
       Inr (map (event_offer e (le_gender emp) esic s)
         (filter (\<lambda>t. offered (lt_gender t) (le_gender emp))
           (sort_key lt_name (filter (\<lambda>t. lt_active t \<and> lt_grant_mode t = ON_EVENT) (lv_types s)))))))"

end
