(* ===== verification/Holidays.thy ===== *)
theory Holidays
  imports LeaveConfig LeavePolicy Imports
begin

text \<open>
  Holidays: the list and its import (\<open>apps/api/src/leave/holiday-import.ts\<close>, and the holiday
  operations of \<open>leave.service.ts\<close>). A date \<open>YYYY-MM-DD\<close> is its UTC midnight; messages are values of
  a datatype.
\<close>

section \<open>Dates of a holiday file\<close>

datatype date_problem = NotADate | AmbiguousDate | NotACalendarDate

definition real_date :: "int \<Rightarrow> int \<Rightarrow> int \<Rightarrow> (date_problem, date) result" where
  "real_date y m d = (case calendar_date y m d of None \<Rightarrow> Inl NotACalendarDate | Some t \<Rightarrow> Inr t)"

definition parse_holiday_date :: "string \<Rightarrow> (date_problem, date) result" where
  "parse_holiday_date value =
     (case split_date (trim value) of
        None \<Rightarrow> Inl NotADate
      | Some (a, x, b, y, c) \<Rightarrow>
          if length a = 4 \<and> x = CHR ''-'' \<and> y = CHR ''-'' \<and> short_number b \<and> short_number c
          then real_date (digits_value a) (digits_value b) (digits_value c)
          else if short_number a \<and> short_number b \<and> length c = 4 \<and> x \<in> set ''-.'' \<and> y \<in> set ''-.''
          then real_date (digits_value c) (digits_value b) (digits_value a)
          else if short_number a \<and> short_number b \<and> length c = 4 \<and> x = CHR ''/'' \<and> y = CHR ''/''
          then if digits_value a \<le> 12 \<and> digits_value b \<le> 12 \<and> digits_value a \<noteq> digits_value b then Inl AmbiguousDate
               else real_date (digits_value c) (digits_value b) (digits_value a)
          else Inl NotADate)"

section \<open>Rows of a holiday file\<close>

record holiday_input =
  hi_row :: "nat option"
  hi_date :: date
  hi_name :: string
  hi_optional :: bool

datatype holiday_message =
    DateRequired
  | DateProblem date_problem
  | NameRequired
  | TypeUnknown string
  | ListedTwice
  | OutsideLeaveYears
  | PaidMonth
  | OnWeeklyOff
  | SameDay "string list"
  | ListEndsEarly date

datatype issue_level = ISSUE_ERROR | ISSUE_WARNING

record holiday_issue =
  hs_level :: issue_level
  hs_row :: "nat option"
  hs_date :: "date option"
  hs_message :: holiday_message

definition OPTIONAL_TYPES :: "string set" where
  "OPTIONAL_TYPES = {''OPTIONAL'', ''RESTRICTED'', ''RH'', ''FLOATING''}"

definition PUBLIC_TYPES :: "string set" where
  "PUBLIC_TYPES = {''PUBLIC'', ''NATIONAL'', ''GAZETTED'', ''COMPANY'', ''MANDATORY'', ''FIXED''}"

definition HOLIDAY_IMPORT_COLUMNS :: "string list" where
  "HOLIDAY_IMPORT_COLUMNS = [''date'', ''name'', ''type'']"

definition row_date :: "sheet_row \<Rightarrow> (holiday_message, date) result" where
  "row_date r = (case sr_values r ''date'' of
     None \<Rightarrow> Inl DateRequired
   | Some v \<Rightarrow> (case parse_holiday_date v of Inl p \<Rightarrow> Inl (DateProblem p) | Inr d \<Rightarrow> Inr d))"

definition row_name :: "sheet_row \<Rightarrow> (holiday_message, string) result" where
  "row_name r = (case sr_values r ''name'' of
     None \<Rightarrow> Inl NameRequired | Some n \<Rightarrow> if trim n = [] then Inl NameRequired else Inr (trim n))"

definition row_optional :: "sheet_row \<Rightarrow> (holiday_message, bool) result" where
  "row_optional r = (case sr_values r ''type'' of
     None \<Rightarrow> Inr False
   | Some t \<Rightarrow> if to_enum_key t \<in> OPTIONAL_TYPES then Inr True
       else if to_enum_key t \<in> PUBLIC_TYPES then Inr False else Inl (TypeUnknown t))"

definition error_of :: "('e, 'a) result \<Rightarrow> 'e list" where
  "error_of r = (case r of Inl e \<Rightarrow> [e] | Inr _ \<Rightarrow> [])"

definition row_errors :: "sheet_row \<Rightarrow> holiday_message list" where
  "row_errors r = error_of (row_date r) @ error_of (row_name r) @ error_of (row_optional r)"

definition row_holiday :: "sheet_row \<Rightarrow> holiday_input option" where
  "row_holiday r = (case (row_date r, row_name r, row_optional r) of
     (Inr d, Inr n, Inr opt) \<Rightarrow> Some \<lparr>hi_row = Some (sr_row r), hi_date = d, hi_name = n, hi_optional = opt\<rparr>
   | _ \<Rightarrow> None)"

record holiday_sheet =
  hh_holidays :: "holiday_input list"
  hh_issues :: "holiday_issue list"
  hh_ignored :: "string list"

definition parse_holiday_sheet :: "parsed_sheet \<Rightarrow> holiday_sheet" where
  "parse_holiday_sheet sheet =
     \<lparr>hh_holidays = List.map_filter row_holiday (sh_rows sheet),
      hh_issues = concat (map (\<lambda>r. map (\<lambda>m. \<lparr>hs_level = ISSUE_ERROR, hs_row = Some (sr_row r), hs_date = None, hs_message = m\<rparr>)
        (row_errors r)) (sh_rows sheet)),
      hh_ignored = filter (\<lambda>h. h \<notin> set (map normalize_header HOLIDAY_IMPORT_COLUMNS)) (sh_headers sheet)\<rparr>"

section \<open>The rules of a holiday list\<close>

type_synonym holiday_key = "date \<times> string"

record holiday_context =
  hc_current :: leave_window
  hc_next :: leave_window
  hc_weekly_offs :: "int list"
  hc_locked :: "string set"
  hc_existing :: "holiday_key set"

definition holiday_key :: "date \<Rightarrow> string \<Rightarrow> holiday_key" where
  "holiday_key d n = (d, to_lower (trim n))"

definition key_of :: "holiday_input \<Rightarrow> holiday_key" where
  "key_of h = holiday_key (hi_date h) (hi_name h)"

definition month_of :: "date \<Rightarrow> string" where
  "month_of d = period_text (utc_year d) (utc_month d + 1)"

text \<open>The first error of a holiday, given those listed before it.\<close>

definition holiday_error :: "holiday_context \<Rightarrow> holiday_input list \<Rightarrow> holiday_input \<Rightarrow> holiday_message option" where
  "holiday_error ctx seen h =
     (if key_of h \<in> set (map key_of seen) then Some ListedTwice
      else if hi_date h < lw_start (hc_current ctx) \<or> lw_end (hc_next ctx) \<le> hi_date h then Some OutsideLeaveYears
      else if month_of (hi_date h) \<in> hc_locked ctx \<and> key_of h \<notin> hc_existing ctx then Some PaidMonth
      else None)"

record holiday_check =
  hk_issues :: "holiday_issue list"
  hk_seen :: "holiday_input list"
  hk_named :: "(date \<times> string list) list"

definition row_of :: "holiday_input \<Rightarrow> nat option" where
  "row_of h = (if hi_row h = Some 0 then None else hi_row h)"

definition issue_at :: "issue_level \<Rightarrow> holiday_input \<Rightarrow> holiday_message \<Rightarrow> holiday_issue" where
  "issue_at l h m = \<lparr>hs_level = l, hs_row = row_of h, hs_date = Some (hi_date h), hs_message = m\<rparr>"

definition note_name :: "holiday_input \<Rightarrow> (date \<times> string list) list \<Rightarrow> (date \<times> string list) list" where
  "note_name h ns = upsert_row (\<lambda>n. fst n = hi_date h) (\<lambda>n. (fst n, snd n @ [hi_name h])) (hi_date h, [hi_name h]) ns"

definition check_holiday :: "holiday_context \<Rightarrow> holiday_check \<Rightarrow> holiday_input \<Rightarrow> holiday_check" where
  "check_holiday ctx k h =
     (case holiday_error ctx (hk_seen k) h of
        Some m \<Rightarrow> k\<lparr>hk_issues := hk_issues k @ [issue_at ISSUE_ERROR h m],
          hk_seen := (if m = ListedTwice then hk_seen k else hk_seen k @ [h])\<rparr>
      | None \<Rightarrow> \<lparr>hk_issues = hk_issues k
            @ (if utc_day (hi_date h) \<in> set (hc_weekly_offs ctx) then [issue_at ISSUE_WARNING h OnWeeklyOff] else []),
          hk_seen = hk_seen k @ [h], hk_named = note_name h (hk_named k)\<rparr>)"

definition same_day_issues :: "(date \<times> string list) list \<Rightarrow> holiday_issue list" where
  "same_day_issues ns = map (\<lambda>(d, names). \<lparr>hs_level = ISSUE_WARNING, hs_row = None, hs_date = Some d, hs_message = SameDay names\<rparr>)
     (filter (\<lambda>(d, names). 1 < length names) ns)"

definition ends_early :: "holiday_context \<Rightarrow> holiday_input list \<Rightarrow> holiday_issue list" where
  "ends_early ctx seen =
     (let w = hc_current ctx;
          ds = filter (\<lambda>d. lw_start w \<le> d \<and> d < lw_end w) (map hi_date seen);
          last_quarter = date_utc (utc_year (lw_end w)) (utc_month (lw_end w) - 3) 1
      in if ds \<noteq> [] \<and> Max (set ds) < last_quarter
         then [\<lparr>hs_level = ISSUE_WARNING, hs_row = None, hs_date = None, hs_message = ListEndsEarly (Max (set ds))\<rparr>] else [])"

definition validate_holidays :: "holiday_context \<Rightarrow> holiday_input list \<Rightarrow> holiday_issue list" where
  "validate_holidays ctx hs =
     (let k = foldl (check_holiday ctx) \<lparr>hk_issues = [], hk_seen = [], hk_named = []\<rparr> hs
      in hk_issues k @ same_day_issues (hk_named k) @ ends_early ctx (hk_seen k))"

section \<open>The list of holidays\<close>

definition list_holidays :: "int option \<Rightarrow> (date \<times> date) option \<Rightarrow> date \<Rightarrow> leave_db \<Rightarrow> holiday_row list" where
  "list_holidays y asked now s =
     (let m = ls_fy_start_month (lv_settings s);
          (from, before) = (case asked of
             Some (f, t) \<Rightarrow> (f, t + DAY_MS)
           | None \<Rightarrow> let w = leave_year_window (case y of None \<Rightarrow> resolve_leave_year now m | Some x \<Rightarrow> x) m in (lw_start w, lw_end w))
      in sort_key ho_date (filter (\<lambda>h. from \<le> ho_date h \<and> ho_date h < before) (lv_holidays s)))"

definition holiday_taken :: "holiday_row \<Rightarrow> leave_db \<Rightarrow> bool" where
  "holiday_taken h s \<longleftrightarrow> (\<exists>g \<in> set (lv_holidays s). ho_id g \<noteq> ho_id h \<and> ho_date g = ho_date h \<and> ho_name g = ho_name h)"

text \<open>Columns of type \<open>date\<close> keep the day of the time they are given.\<close>

definition create_holiday :: "id \<Rightarrow> date \<Rightarrow> string \<Rightarrow> bool option \<Rightarrow> leave_db \<Rightarrow> (holiday_row \<times> leave_db) leave_answer" where
  "create_holiday i d n opt s =
     (let h = \<lparr>ho_id = i, ho_date = utc_midnight d, ho_name = n, ho_optional = keep opt False\<rparr>
      in if holiday_taken h s then Inl (Crash UniqueViolation)
         else Inr (h, s\<lparr>lv_holidays := lv_holidays s @ [h]\<rparr>))"

definition update_holiday :: "id \<Rightarrow> date option \<Rightarrow> string option \<Rightarrow> bool option \<Rightarrow> leave_db \<Rightarrow> (holiday_row \<times> leave_db) leave_answer" where
  "update_holiday i d n opt s =
     and_then (row_or_throw (find_row (\<lambda>h. ho_id h = i) (lv_holidays s))) (\<lambda>row.
       let h = row\<lparr>ho_date := keep (map_option utc_midnight d) (ho_date row), ho_name := keep n (ho_name row),
             ho_optional := keep opt (ho_optional row)\<rparr>
       in if holiday_taken h s then Inl (Crash UniqueViolation)
          else Inr (h, s\<lparr>lv_holidays := update_rows (\<lambda>g. ho_id g = i) (\<lambda>_. h) (lv_holidays s)\<rparr>))"

definition delete_holiday :: "id \<Rightarrow> leave_db \<Rightarrow> leave_db leave_answer" where
  "delete_holiday i s =
     and_then (row_or_throw (find_row (\<lambda>h. ho_id h = i) (lv_holidays s))) (\<lambda>_.
       Inr (s\<lparr>lv_holidays := filter (\<lambda>h. ho_id h \<noteq> i) (lv_holidays s)\<rparr>))"

section \<open>The import\<close>

definition stored_keys :: "leave_db \<Rightarrow> holiday_key set" where
  "stored_keys s = set (map (\<lambda>h. holiday_key (ho_date h) (ho_name h)) (lv_holidays s))"

definition import_context :: "string set \<Rightarrow> date \<Rightarrow> leave_db \<Rightarrow> holiday_context" where
  "import_context locked now s =
     (let m = ls_fy_start_month (lv_settings s); y = resolve_leave_year now m
      in \<lparr>hc_current = leave_year_window y m, hc_next = leave_year_window (y + 1) m,
          hc_weekly_offs = ls_weekly_offs (lv_settings s), hc_locked = locked, hc_existing = stored_keys s\<rparr>)"

definition import_issues :: "string set \<Rightarrow> date \<Rightarrow> parsed_sheet \<Rightarrow> leave_db \<Rightarrow> holiday_issue list" where
  "import_issues locked now sheet s =
     hh_issues (parse_holiday_sheet sheet)
       @ validate_holidays (import_context locked now s) (hh_holidays (parse_holiday_sheet sheet))"

datatype import_action = CREATE_ROW | UPDATE_ROW

record holiday_result =
  hr_row :: nat
  hr_action :: "import_action option"
  hr_success :: bool
  hr_errors :: "holiday_message list"
  hr_warnings :: "holiday_message list"

definition row_messages :: "issue_level \<Rightarrow> nat \<Rightarrow> holiday_issue list \<Rightarrow> holiday_message list" where
  "row_messages l r is = map hs_message (filter (\<lambda>i. hs_row i = Some r \<and> hs_level i = l) is)"

definition action_of :: "holiday_key set \<Rightarrow> holiday_input \<Rightarrow> import_action" where
  "action_of existing h = (if key_of h \<in> existing then UPDATE_ROW else CREATE_ROW)"

definition holiday_results :: "string set \<Rightarrow> date \<Rightarrow> parsed_sheet \<Rightarrow> leave_db \<Rightarrow> holiday_result list" where
  "holiday_results locked now sheet s =
     (let is = import_issues locked now sheet s; hs = hh_holidays (parse_holiday_sheet sheet)
      in map (\<lambda>r. \<lparr>hr_row = sr_row r,
             hr_action = map_option (action_of (stored_keys s)) (find_row (\<lambda>h. hi_row h = Some (sr_row r)) hs),
             hr_success = (row_messages ISSUE_ERROR (sr_row r) is = []),
             hr_errors = row_messages ISSUE_ERROR (sr_row r) is,
             hr_warnings = row_messages ISSUE_WARNING (sr_row r) is\<rparr>) (sh_rows sheet))"

definition valid_holidays :: "string set \<Rightarrow> date \<Rightarrow> parsed_sheet \<Rightarrow> leave_db \<Rightarrow> holiday_input list" where
  "valid_holidays locked now sheet s =
     filter (\<lambda>h. case find_row (\<lambda>r. Some (hr_row r) = hi_row h) (holiday_results locked now sheet s) of
         None \<Rightarrow> False | Some r \<Rightarrow> hr_success r)
       (hh_holidays (parse_holiday_sheet sheet))"

text \<open>The upsert matches date and exact name; \<open>fresh\<close> is the id the database draws for a row of the sheet.\<close>

definition upsert_holiday :: "(nat \<Rightarrow> id) \<Rightarrow> holiday_row table \<Rightarrow> holiday_input \<Rightarrow> holiday_row table" where
  "upsert_holiday fresh t h =
     upsert_row (\<lambda>g. ho_date g = hi_date h \<and> ho_name g = hi_name h) (\<lambda>g. g\<lparr>ho_optional := hi_optional h\<rparr>)
       \<lparr>ho_id = fresh (case hi_row h of None \<Rightarrow> 0 | Some r \<Rightarrow> r), ho_date = hi_date h, ho_name = hi_name h,
        ho_optional = hi_optional h\<rparr> t"

record holiday_report =
  hq_report :: import_report
  hq_results :: "holiday_result list"
  hq_ignored :: "string list"
  hq_created :: nat
  hq_updated :: nat
  hq_warnings :: "holiday_message list"

definition import_holidays :: "(nat \<Rightarrow> id) \<Rightarrow> string set \<Rightarrow> bool \<Rightarrow> date \<Rightarrow> parsed_sheet \<Rightarrow> leave_db \<Rightarrow> holiday_report \<times> leave_db" where
  "import_holidays fresh locked dry now sheet s =
     (let results = holiday_results locked now sheet s; valid = valid_holidays locked now sheet s;
          is_new = (\<lambda>h. key_of h \<notin> stored_keys s)
      in (\<lparr>hq_report = build_report dry (map (\<lambda>r. \<lparr>im_row = hr_row r, im_success = hr_success r\<rparr>) results),
           hq_results = results, hq_ignored = hh_ignored (parse_holiday_sheet sheet),
           hq_created = length (filter is_new valid), hq_updated = length (filter (Not \<circ> is_new) valid),
           hq_warnings = map hs_message (filter (\<lambda>i. hs_row i = None) (import_issues locked now sheet s))\<rparr>,
          if dry then s else s\<lparr>lv_holidays := foldl (upsert_holiday fresh) (lv_holidays s) valid\<rparr>))"

end
