(* ===== verification/HolidayProperties.thy ===== *)
theory HolidayProperties
  imports Holidays LeaveBooks
begin

text \<open>
  What a holiday import guarantees: no day of a paid month becomes a holiday, importing twice is
  importing once, and a date it accepts has no second reading.
\<close>

section \<open>What a list of holidays is checked for\<close>

abbreviation no_checks :: holiday_check where
  "no_checks \<equiv> \<lparr>hk_issues = [], hk_seen = [], hk_named = []\<rparr>"

abbreviation checked :: "holiday_context \<Rightarrow> holiday_input list \<Rightarrow> holiday_check" where
  "checked ctx hs \<equiv> foldl (check_holiday ctx) no_checks hs"

lemma check_issues_grow: "set (hk_issues k) \<subseteq> set (hk_issues (foldl (check_holiday ctx) k hs))"
proof (induction hs arbitrary: k)
  case (Cons h hs)
  have "set (hk_issues k) \<subseteq> set (hk_issues (check_holiday ctx k h))"
    by (auto simp: check_holiday_def split: option.splits)
  with Cons [of "check_holiday ctx k h"] show ?case by auto
qed simp

lemma seen_keys: "key_of ` set (hk_seen (checked ctx hs)) = key_of ` set hs"
proof (induction hs rule: rev_induct)
  case (snoc h hs)
  have "holiday_error ctx seen h = Some ListedTwice \<Longrightarrow> key_of h \<in> key_of ` set seen" for seen
    by (auto simp: holiday_error_def split: if_splits)
  with snoc show ?case by (auto simp: check_holiday_def split: option.splits)
qed simp

lemma holiday_error_keys: "key_of ` set xs = key_of ` set ys \<Longrightarrow> holiday_error ctx xs = holiday_error ctx ys"
  by (simp add: holiday_error_def fun_eq_iff)

lemma error_reported:
  assumes "hs = before @ h # rest" and "holiday_error ctx before h = Some m"
  shows "issue_at ISSUE_ERROR h m \<in> set (validate_holidays ctx hs)"
proof -
  have "holiday_error ctx (hk_seen (checked ctx before)) h = Some m"
    using assms(2) holiday_error_keys [OF seen_keys] by metis
  then have "issue_at ISSUE_ERROR h m \<in> set (hk_issues (check_holiday ctx (checked ctx before) h))"
    by (simp add: check_holiday_def)
  then have "issue_at ISSUE_ERROR h m \<in> set (hk_issues (checked ctx hs))"
    using check_issues_grow [of "check_holiday ctx (checked ctx before) h" ctx rest] by (auto simp: assms(1))
  then show ?thesis by (simp add: validate_holidays_def Let_def)
qed

lemma check_adds_issue:
  assumes "i \<in> set (hk_issues (check_holiday ctx k h))" and "hs_level i = ISSUE_ERROR" and "i \<notin> set (hk_issues k)"
  obtains m where "holiday_error ctx (hk_seen k) h = Some m" "i = issue_at ISSUE_ERROR h m"
  using assms by (cases "holiday_error ctx (hk_seen k) h") (auto simp: check_holiday_def issue_at_def split: if_splits)

lemma checked_error:
  assumes "i \<in> set (hk_issues (checked ctx hs))" and "hs_level i = ISSUE_ERROR"
  shows "\<exists>before h rest m. hs = before @ h # rest \<and> holiday_error ctx before h = Some m \<and> i = issue_at ISSUE_ERROR h m"
  using assms(1)
proof (induction hs rule: rev_induct)
  case (snoc h hs)
  show ?case
  proof (cases "i \<in> set (hk_issues (checked ctx hs))")
    case True
    with snoc.IH obtain before g rest m where "hs = before @ g # rest" "holiday_error ctx before g = Some m" "i = issue_at ISSUE_ERROR g m"
      by blast
    then show ?thesis by (intro exI [of _ before] exI [of _ g] exI [of _ "rest @ [h]"] exI [of _ m]) simp
  next
    case False
    with snoc.prems assms(2) obtain m where m: "holiday_error ctx (hk_seen (checked ctx hs)) h = Some m" "i = issue_at ISSUE_ERROR h m"
      by (auto elim: check_adds_issue)
    with holiday_error_keys [OF seen_keys] have "holiday_error ctx hs h = Some m" by metis
    with m(2) show ?thesis by (intro exI [of _ hs] exI [of _ h] exI [of _ "[]"] exI [of _ m]) simp
  qed
qed simp

lemma reported_error:
  assumes "i \<in> set (validate_holidays ctx hs)" and "hs_level i = ISSUE_ERROR"
  obtains before h rest m where "hs = before @ h # rest" "holiday_error ctx before h = Some m" "i = issue_at ISSUE_ERROR h m"
proof -
  have "i \<in> set (hk_issues (checked ctx hs))"
    using assms by (auto simp: validate_holidays_def same_day_issues_def ends_early_def Let_def split: if_splits)
  from checked_error [OF this assms(2)] show ?thesis using that by blast
qed

section \<open>Sheets\<close>

text \<open>The rows of a sheet carry their numbers, from 2 on; so do its holidays.\<close>

lemma sheet_rows_numbered:
  assumes "sheet_of_grid grid = Inr sheet"
  shows "distinct (map sr_row (sh_rows sheet))" "\<forall>r \<in> set (sh_rows sheet). 2 \<le> sr_row r"
proof -
  let ?rows = "filter (\<lambda>(i, cells). \<not> blank_line cells) (List.enumerate 2 (tl grid))"
  let ?row = "\<lambda>(i, cells). \<lparr>sr_row = i, sr_values = row_values (map normalize_header (case grid of [] \<Rightarrow> [] | h # _ \<Rightarrow> h)) cells\<rparr>"
  have rows: "sh_rows sheet = map ?row ?rows"
    using assms by (auto simp: sheet_of_grid_def Let_def split: if_splits)
  have nums: "map sr_row (sh_rows sheet) = map fst ?rows" by (simp add: rows case_prod_unfold comp_def)
  have "distinct (map fst (filter p (List.enumerate 2 xs)))" for p :: "nat \<times> 'a \<Rightarrow> bool" and xs
    by (rule distinct_map_filter) simp
  then show "distinct (map sr_row (sh_rows sheet))" unfolding nums .
  have "\<forall>p \<in> set ?rows. 2 \<le> fst p" by (auto simp: in_set_enumerate_eq)
  then show "\<forall>r \<in> set (sh_rows sheet). 2 \<le> sr_row r" by (auto simp: rows case_prod_unfold)
qed

definition holidays_of :: "parsed_sheet \<Rightarrow> holiday_input list" where
  "holidays_of sheet = hh_holidays (parse_holiday_sheet sheet)"

lemma row_holiday_row: "row_holiday r = Some h \<Longrightarrow> hi_row h = Some (sr_row r) \<and> row_errors r = []"
  by (auto simp: row_holiday_def row_errors_def error_of_def split: sum.splits)

lemma distinct_rows: "distinct (map sr_row rows) \<Longrightarrow> distinct (map hi_row (List.map_filter row_holiday rows))"
proof (induction rows)
  case (Cons r rows)
  have "hi_row g \<noteq> Some (sr_row r)" if "g \<in> set (List.map_filter row_holiday rows)" for g
    using Cons.prems that row_holiday_row by (force simp: List.map_filter_def)
  then have "hi_row h \<noteq> hi_row g" if "row_holiday r = Some h" "g \<in> set (List.map_filter row_holiday rows)" for g h
    using that row_holiday_row by metis
  with Cons show ?case by (cases "row_holiday r") (auto simp: List.map_filter_simps image_iff)
qed (simp add: List.map_filter_simps)

lemma distinct_holidays: "sheet_of_grid grid = Inr sheet \<Longrightarrow> distinct (map hi_row (holidays_of sheet))"
  using distinct_rows [OF sheet_rows_numbered(1)] by (simp add: holidays_of_def parse_holiday_sheet_def)

text \<open>A holiday of the sheet is imported exactly when the list has no error for it.\<close>

lemma holiday_in_sheet:
  assumes "h \<in> set (holidays_of sheet)"
  obtains r where "r \<in> set (sh_rows sheet)" "row_holiday r = Some h"
  using assms by (auto simp: holidays_of_def parse_holiday_sheet_def List.map_filter_def)

lemma sheet_row_errors:
  assumes "sheet_of_grid grid = Inr sheet" and "r \<in> set (sh_rows sheet)" and "row_errors r = []"
    and "i \<in> set (hh_issues (parse_holiday_sheet sheet))"
  shows "hs_row i \<noteq> Some (sr_row r)"
proof
  assume "hs_row i = Some (sr_row r)"
  with assms(4) obtain q m where "q \<in> set (sh_rows sheet)" "sr_row q = sr_row r" "m \<in> set (row_errors q)"
    by (auto simp: parse_holiday_sheet_def)
  moreover have "q = r"
    using sheet_rows_numbered(1) [OF assms(1)] assms(2) calculation(1,2) by (meson inj_on_eq_iff distinct_map)
  ultimately show False using assms(3) by simp
qed

lemma split_unique:
  assumes d: "distinct (map f xs)" and x: "xs = b @ g # t" and y: "xs = b' @ h # t'" and k: "f g = f h"
  shows "b = b' \<and> g = h"
proof -
  have "map f xs ! length b = f g" "length b < length (map f xs)" by (simp_all add: x nth_append)
  moreover have "map f xs ! length b' = f h" "length b' < length (map f xs)" by (simp_all add: y nth_append)
  ultimately have "length b = length b'" using k by (simp only: nth_eq_iff_index_eq [OF d, symmetric])
  then show ?thesis using x y by simp
qed

definition passes :: "string set \<Rightarrow> date \<Rightarrow> leave_db \<Rightarrow> holiday_input list \<Rightarrow> holiday_input \<Rightarrow> bool" where
  "passes locked now s before h \<longleftrightarrow> holiday_error (import_context locked now s) before h = None"

text \<open>A holiday is valid when no error names its row.\<close>

lemma valid_no_errors:
  assumes sheet: "sheet_of_grid grid = Inr sheet" and r: "r \<in> set (sh_rows sheet)" "row_holiday r = Some h"
  shows "h \<in> set (valid_holidays locked now sheet s)
    \<longleftrightarrow> (\<forall>i \<in> set (import_issues locked now sheet s). hs_level i = ISSUE_ERROR \<longrightarrow> hs_row i \<noteq> Some (sr_row r))"
proof -
  let ?rs = "holiday_results locked now sheet s" and ?is = "import_issues locked now sheet s"
  have mem: "h \<in> set (holidays_of sheet)"
    using r by (force simp: holidays_of_def parse_holiday_sheet_def List.map_filter_def)
  have row: "hi_row h = Some (sr_row r)" using row_holiday_row [OF r(2)] by simp
  have keys: "unique_key hr_row ?rs"
    using sheet_rows_numbered(1) [OF sheet] by (simp add: unique_key_def holiday_results_def Let_def comp_def)
  have "\<exists>res \<in> set ?rs. hr_row res = sr_row q \<and> hr_success res = (row_messages ISSUE_ERROR (sr_row q) ?is = [])"
    if "q \<in> set (sh_rows sheet)" for q
    using that unfolding holiday_results_def Let_def by simp (rule bexI [of _ q], simp_all)
  then obtain res where res: "res \<in> set ?rs" "hr_row res = sr_row r" "hr_success res = (row_messages ISSUE_ERROR (sr_row r) ?is = [])"
    using r(1) by blast
  have "find_row (\<lambda>x. Some (hr_row x) = hi_row h) ?rs = Some res"
    using find_row_unique [OF keys res(1)] by (simp add: row res(2))
  with mem res(3) have "h \<in> set (valid_holidays locked now sheet s) \<longleftrightarrow> row_messages ISSUE_ERROR (sr_row r) ?is = []"
    by (simp add: valid_holidays_def holidays_of_def)
  then show ?thesis by (auto simp: row_messages_def filter_empty_conv)
qed

lemma valid_iff:
  assumes sheet: "sheet_of_grid grid = Inr sheet" and hs: "holidays_of sheet = before @ h # rest"
  shows "h \<in> set (valid_holidays locked now sheet s) \<longleftrightarrow> passes locked now s before h"
proof -
  have "h \<in> set (holidays_of sheet)" by (simp add: hs)
  then obtain r where r: "r \<in> set (sh_rows sheet)" "row_holiday r = Some h" by (rule holiday_in_sheet)
  let ?is = "import_issues locked now sheet s" and ?ctx = "import_context locked now s"
  have row: "hi_row h = Some (sr_row r)" "row_errors r = []" using row_holiday_row [OF r(2)] by auto
  have at: "row_of h = Some (sr_row r)" using row(1) sheet_rows_numbered(2) [OF sheet] r(1) by (auto simp: row_of_def)
  show ?thesis unfolding valid_no_errors [OF sheet r] passes_def
  proof
    assume none: "\<forall>i \<in> set ?is. hs_level i = ISSUE_ERROR \<longrightarrow> hs_row i \<noteq> Some (sr_row r)"
    show "holiday_error ?ctx before h = None"
    proof (rule ccontr)
      assume "holiday_error ?ctx before h \<noteq> None"
      then obtain m where "holiday_error ?ctx before h = Some m" by auto
      from error_reported [OF hs this] have "issue_at ISSUE_ERROR h m \<in> set ?is" by (simp add: import_issues_def holidays_of_def)
      with none at show False by (force simp: issue_at_def)
    qed
  next
    assume ok: "holiday_error ?ctx before h = None"
    show "\<forall>i \<in> set ?is. hs_level i = ISSUE_ERROR \<longrightarrow> hs_row i \<noteq> Some (sr_row r)"
    proof (intro ballI impI notI)
      fix i assume i: "i \<in> set ?is" "hs_level i = ISSUE_ERROR" "hs_row i = Some (sr_row r)"
      then have "i \<in> set (validate_holidays ?ctx (holidays_of sheet))"
        using sheet_row_errors [OF sheet r(1) row(2)] by (auto simp: import_issues_def holidays_of_def)
      then obtain b g t m where g: "holidays_of sheet = b @ g # t" "holiday_error ?ctx b g = Some m" "i = issue_at ISSUE_ERROR g m"
        using i(2) by (rule reported_error)
      then have "hi_row g = hi_row h" using i(3) row(1) by (simp add: issue_at_def row_of_def split: if_splits)
      with split_unique [OF distinct_holidays [OF sheet] g(1) hs] have "b = before \<and> g = h" by simp
      with ok g(2) show False by simp
    qed
  qed
qed

section \<open>Writing the valid holidays\<close>

lemma valid_split:
  assumes "sheet_of_grid grid = Inr sheet" and "h \<in> set (valid_holidays locked now sheet s)"
  obtains before rest where "holidays_of sheet = before @ h # rest" "passes locked now s before h"
proof -
  have "h \<in> set (holidays_of sheet)" using assms(2) by (simp add: valid_holidays_def holidays_of_def)
  then obtain before rest where "holidays_of sheet = before @ h # rest" by (auto simp: in_set_conv_decomp)
  with valid_iff [OF assms(1) this] assms(2) that show ?thesis by blast
qed

text \<open>No two valid holidays share a key.\<close>

lemma valid_sublist: "\<exists>p. valid_holidays locked now sheet s = filter p (holidays_of sheet)"
  by (auto simp: valid_holidays_def holidays_of_def)

lemma valid_keys_distinct:
  assumes sheet: "sheet_of_grid grid = Inr sheet"
  shows "distinct (map key_of (valid_holidays locked now sheet s))"
proof -
  let ?ok = "\<lambda>h. h \<in> set (valid_holidays locked now sheet s)"
  have "distinct (map key_of (filter ?ok hs))" if "holidays_of sheet = hs @ ts" for hs ts
    using that
  proof (induction hs arbitrary: ts rule: rev_induct)
    case (snoc h hs)
    then have IH: "distinct (map key_of (filter ?ok hs))" by simp
    show ?case
    proof (cases "?ok h")
      case True
      with valid_iff [OF sheet, of hs h ts] snoc.prems have "passes locked now s hs h" by simp
      then have "key_of h \<notin> set (map key_of hs)" by (auto simp: passes_def holiday_error_def split: if_splits)
      with IH True show ?thesis by auto
    qed (use IH in simp)
  qed simp
  from this [of "holidays_of sheet" "[]"] have "distinct (map key_of (filter ?ok (holidays_of sheet)))" by simp
  moreover obtain p where "valid_holidays locked now sheet s = filter p (holidays_of sheet)" using valid_sublist by blast
  then have "filter ?ok (holidays_of sheet) = valid_holidays locked now sheet s" by (auto intro: filter_cong)
  ultimately show ?thesis by simp
qed

definition same_holiday :: "holiday_input \<Rightarrow> holiday_row \<Rightarrow> bool" where
  "same_holiday h g \<longleftrightarrow> ho_date g = hi_date h \<and> ho_name g = hi_name h"

lemma upsert_holiday_rows:
  "g \<in> set (upsert_holiday fresh t h) \<Longrightarrow> g \<in> set t \<or> same_holiday h g \<and> ho_optional g = hi_optional h"
  by (auto simp: upsert_holiday_def upsert_row_def same_holiday_def in_set_update_rows simp del: find_row_None split: if_splits)

lemma upsert_holiday_keeps:
  assumes "g \<in> set t"
  shows "\<exists>g' \<in> set (upsert_holiday fresh t h). ho_id g' = ho_id g \<and> ho_date g' = ho_date g \<and> ho_name g' = ho_name g"
proof -
  let ?p = "\<lambda>g. ho_date g = hi_date h \<and> ho_name g = hi_name h" and ?f = "\<lambda>g. g\<lparr>ho_optional := hi_optional h\<rparr>"
  have "(if ?p g then ?f g else g) \<in> set (update_rows ?p ?f t)" using assms by (auto simp: update_rows_def)
  moreover have "ho_id (if ?p g then ?f g else g) = ho_id g \<and> ho_date (if ?p g then ?f g else g) = ho_date g
    \<and> ho_name (if ?p g then ?f g else g) = ho_name g" by simp
  ultimately show ?thesis using assms by (auto simp: upsert_holiday_def upsert_row_def simp del: find_row_None)
qed

lemma upserts_rows:
  "g \<in> set (foldl (upsert_holiday fresh) t hs) \<Longrightarrow> g \<in> set t \<or> (\<exists>h \<in> set hs. same_holiday h g)"
  by (induction hs arbitrary: t) (auto dest: upsert_holiday_rows)

lemma upserts_keep:
  "g \<in> set t \<Longrightarrow> \<exists>g' \<in> set (foldl (upsert_holiday fresh) t hs). ho_id g' = ho_id g \<and> ho_date g' = ho_date g \<and> ho_name g' = ho_name g"
proof (induction hs arbitrary: t g)
  case (Cons h hs)
  from upsert_holiday_keeps [OF Cons.prems] obtain g1 where g1: "g1 \<in> set (upsert_holiday fresh t h)"
    "ho_id g1 = ho_id g" "ho_date g1 = ho_date g" "ho_name g1 = ho_name g" by blast
  from Cons.IH [OF g1(1)] g1 show ?case by auto
qed auto


section \<open>Importing again\<close>

definition settled :: "holiday_row table \<Rightarrow> holiday_input \<Rightarrow> bool" where
  "settled t h \<longleftrightarrow> (\<exists>g \<in> set t. same_holiday h g) \<and> (\<forall>g \<in> set t. same_holiday h g \<longrightarrow> ho_optional g = hi_optional h)"

lemma upsert_holiday_cases:
  "upsert_holiday fresh t h =
     (if \<exists>g \<in> set t. same_holiday h g then update_rows (same_holiday h) (\<lambda>g. g\<lparr>ho_optional := hi_optional h\<rparr>) t
      else t @ [\<lparr>ho_id = fresh (case hi_row h of None \<Rightarrow> 0 | Some r \<Rightarrow> r), ho_date = hi_date h, ho_name = hi_name h, ho_optional = hi_optional h\<rparr>])"
  by (auto simp: upsert_holiday_def upsert_row_def same_holiday_def [abs_def])

lemma upsert_settles: "settled (upsert_holiday fresh t h) h"
proof (cases "\<exists>g \<in> set t. same_holiday h g")
  case True
  let ?f = "\<lambda>g. g\<lparr>ho_optional := hi_optional h\<rparr>"
  from True obtain g where "g \<in> set t" "same_holiday h g" by blast
  then have "?f g \<in> set (upsert_holiday fresh t h)" "same_holiday h (?f g)"
    using True by (auto simp: upsert_holiday_cases in_set_update_rows same_holiday_def)
  moreover have "ho_optional x = hi_optional h" if "x \<in> set (upsert_holiday fresh t h)" "same_holiday h x" for x
  proof -
    have "x \<in> (\<lambda>q. if same_holiday h q then ?f q else q) ` set t"
      using that(1) True by (simp add: upsert_holiday_cases update_rows_def)
    then obtain q where "x = (if same_holiday h q then ?f q else q)" by (rule imageE)
    with that(2) show ?thesis by (cases "same_holiday h q") simp_all
  qed
  ultimately show ?thesis unfolding settled_def by blast
qed (auto simp: upsert_holiday_cases settled_def same_holiday_def)

lemma upsert_other_settled:
  assumes "settled t h'" and "key_of h \<noteq> key_of h'"
  shows "settled (upsert_holiday fresh t h) h'"
proof -
  have no: "\<not> (same_holiday h g \<and> same_holiday h' g)" for g
    using assms(2) by (auto simp: same_holiday_def key_of_def)
  have h: "\<not> (hi_date h = hi_date h' \<and> hi_name h = hi_name h')" using assms(2) by (auto simp: key_of_def)
  show ?thesis
  proof (cases "\<exists>g \<in> set t. same_holiday h g")
    case True
    obtain g where g: "g \<in> set t" "same_holiday h' g" using assms(1) by (auto simp: settled_def)
    then have "g \<in> set (upsert_holiday fresh t h)" using True no [of g] by (auto simp: upsert_holiday_cases update_rows_def intro!: image_eqI [of _ _ g])
    moreover have "ho_optional x = hi_optional h'" if "x \<in> set (upsert_holiday fresh t h)" "same_holiday h' x" for x
      using that True assms(1) h by (auto simp: upsert_holiday_cases in_set_update_rows settled_def same_holiday_def split: if_splits)
    ultimately show ?thesis using g by (auto simp: settled_def)
  next
    case False
    with assms(1) h show ?thesis by (auto simp: upsert_holiday_cases settled_def same_holiday_def)
  qed
qed

lemma upserts_settle:
  "distinct (map key_of hs) \<Longrightarrow> h \<in> set hs \<Longrightarrow> settled (foldl (upsert_holiday fresh) t hs) h"
proof (induction hs rule: rev_induct)
  case (snoc x hs)
  then show ?case using upsert_settles upsert_other_settled by (auto simp: image_iff)
qed simp

lemma upsert_settled: "settled t h \<Longrightarrow> upsert_holiday fresh t h = t"
  by (auto simp: upsert_holiday_cases settled_def update_rows_def intro!: map_idI)

lemma upserts_settled: "(\<And>h. h \<in> set hs \<Longrightarrow> settled t h) \<Longrightarrow> foldl (upsert_holiday fresh) t hs = t"
  by (induction hs) (simp_all add: upsert_settled)

lemma valid_is_filter: "valid_holidays locked now sheet s = filter (\<lambda>h. h \<in> set (valid_holidays locked now sheet s)) (holidays_of sheet)"
proof -
  obtain p where "valid_holidays locked now sheet s = filter p (holidays_of sheet)" using valid_sublist by blast
  then show ?thesis by (auto intro: filter_cong)
qed

text \<open>After an import the keys stored are those of before and of the valid holidays.\<close>

lemma stored_after:
  assumes "lv_holidays s' = foldl (upsert_holiday fresh) (lv_holidays s) hs" and "distinct (map key_of hs)"
  shows "stored_keys s' = stored_keys s \<union> key_of ` set hs"
proof -
  have key: "same_holiday h g \<Longrightarrow> holiday_key (ho_date g) (ho_name g) = key_of h" for h g
    by (simp add: same_holiday_def key_of_def)
  have "k \<in> stored_keys s \<union> key_of ` set hs" if "k \<in> stored_keys s'" for k
  proof -
    from that obtain g where g: "g \<in> set (lv_holidays s')" "k = holiday_key (ho_date g) (ho_name g)" by (auto simp: stored_keys_def)
    from upserts_rows [OF g(1) [unfolded assms(1)]] g(2) key show ?thesis by (auto simp: stored_keys_def)
  qed
  moreover have "k \<in> stored_keys s'" if k: "k \<in> stored_keys s" for k
  proof -
    from k obtain g where g: "g \<in> set (lv_holidays s)" "k = holiday_key (ho_date g) (ho_name g)" by (auto simp: stored_keys_def)
    from upserts_keep [OF g(1)] obtain g' where "g' \<in> set (lv_holidays s')" "ho_date g' = ho_date g" "ho_name g' = ho_name g"
      unfolding assms(1) by blast
    with g(2) show ?thesis by (auto simp: stored_keys_def intro!: image_eqI [of _ _ g'])
  qed
  moreover have "key_of h \<in> stored_keys s'" if "h \<in> set hs" for h
  proof -
    from upserts_settle [OF assms(2) that] obtain g where "g \<in> set (lv_holidays s')" "same_holiday h g"
      unfolding settled_def assms(1) by blast
    with key [of h g] show ?thesis by (auto simp: stored_keys_def intro!: image_eqI [of _ _ g])
  qed
  ultimately show ?thesis by blast
qed

lemma passes_after:
  assumes sheet: "sheet_of_grid grid = Inr sheet" and hs: "holidays_of sheet = before @ h # rest"
    and set: "lv_settings s' = lv_settings s" and keys: "stored_keys s' = stored_keys s \<union> key_of ` set (valid_holidays locked now sheet s)"
  shows "passes locked now s' before h \<longleftrightarrow> passes locked now s before h"
proof
  show "passes locked now s before h \<Longrightarrow> passes locked now s' before h"
    using keys set by (auto simp: passes_def holiday_error_def import_context_def Let_def split: if_splits)
  assume p: "passes locked now s' before h"
  show "passes locked now s before h"
  proof (rule ccontr)
    assume no: "\<not> passes locked now s before h"
    with p keys set obtain v where v: "v \<in> set (valid_holidays locked now sheet s)" "key_of v = key_of h"
      and new: "key_of h \<notin> set (map key_of before)"
      by (auto simp: passes_def holiday_error_def import_context_def Let_def split: if_splits)
    from valid_split [OF sheet v(1)] obtain b r where b: "holidays_of sheet = b @ v # r" "passes locked now s b v" by blast
    then have old: "key_of v \<notin> set (map key_of b)" by (auto simp: passes_def holiday_error_def split: if_splits)
    consider "v \<in> set before" | "v = h" | "h \<in> set b"
    proof -
      from b(1) hs have "before @ h # rest = b @ v # r" by simp
      then show ?thesis using that
        by (auto simp: append_eq_append_conv2 append_eq_Cons_conv Cons_eq_append_conv)
    qed
    then show False
    proof cases
      case 2
      with valid_iff [OF sheet hs] v(1) no show False by simp
    next
      case 1
      then have "key_of v \<in> key_of ` set before" by (rule imageI)
      with new v(2) show False by simp
    next
      case 3
      then have "key_of h \<in> key_of ` set b" by (rule imageI)
      with old v(2) show False by simp
    qed
  qed
qed

text \<open>
  Importing a holiday file a second time changes nothing, whatever it contains and whatever was
  stored before: the commit leaves every valid holiday in place with its kind, the same rows are
  valid again (none is blocked by a month paid meanwhile it could not be before), and the second
  report creates none.
\<close>

theorem import_twice:
  assumes sheet: "sheet_of_grid grid = Inr sheet" and first: "import_holidays fresh locked False now sheet s = (rep, s')"
  shows "snd (import_holidays fresh' locked dry now sheet s') = s' \<and> hq_created (fst (import_holidays fresh' locked dry now sheet s')) = 0
    \<and> valid_holidays locked now sheet s' = valid_holidays locked now sheet s"
proof -
  let ?valid = "valid_holidays locked now sheet s"
  have s': "s' = s\<lparr>lv_holidays := foldl (upsert_holiday fresh) (lv_holidays s) ?valid\<rparr>"
    using first by (auto simp: import_holidays_def Let_def)
  have keys: "stored_keys s' = stored_keys s \<union> key_of ` set ?valid"
    by (rule stored_after [OF _ valid_keys_distinct [OF sheet]]) (simp add: s')
  have "h \<in> set (valid_holidays locked now sheet s') \<longleftrightarrow> h \<in> set ?valid" if mem: "h \<in> set (holidays_of sheet)" for h
  proof -
    from mem obtain before rest where hs: "holidays_of sheet = before @ h # rest" by (auto simp: in_set_conv_decomp)
    have "lv_settings s' = lv_settings s" by (simp add: s')
    from passes_after [OF sheet hs this keys] valid_iff [OF sheet hs] show ?thesis by simp
  qed
  then have same: "valid_holidays locked now sheet s' = ?valid"
    using valid_is_filter [of locked now sheet s'] valid_is_filter [of locked now sheet s] by (metis (no_types, lifting) filter_cong)
  have "foldl (upsert_holiday fresh') (lv_holidays s') ?valid = lv_holidays s'"
    using upserts_settle [OF valid_keys_distinct [OF sheet], where t = "lv_holidays s"] by (intro upserts_settled) (simp add: s')
  then have "snd (import_holidays fresh' locked dry now sheet s') = s'"
    by (simp add: import_holidays_def Let_def same)
  moreover have "filter (\<lambda>h. key_of h \<notin> stored_keys s') ?valid = []" unfolding keys by (auto simp: filter_empty_conv)
  ultimately show ?thesis by (simp add: import_holidays_def Let_def same)
qed

section \<open>Dates\<close>

lemma calendar_date_month: "calendar_date y m d = Some t \<Longrightarrow> 1 \<le> m \<and> m \<le> 12"
  using calendar_date_parts [of y m d t] utc_month_bounds [of t] by auto

text \<open>
  A date with slashes is never guessed: when an import accepts one, its day comes first and
  reading the month first gives no other date (it gives none at all, or the same one).
\<close>

theorem holiday_date_unambiguous:
  assumes "parse_holiday_date v = Inr t" and "split_date (trim v) = Some (a, CHR ''/'', b, CHR ''/'', c)"
  shows "calendar_date (digits_value c) (digits_value b) (digits_value a) = Some t
    \<and> calendar_date (digits_value c) (digits_value a) (digits_value b) \<in> {None, Some t}"
proof -
  have "\<not> (digits_value a \<le> 12 \<and> digits_value b \<le> 12 \<and> digits_value a \<noteq> digits_value b)"
    and first: "calendar_date (digits_value c) (digits_value b) (digits_value a) = Some t"
    using assms by (auto simp: parse_holiday_date_def real_date_def split: if_splits option.splits)
  moreover have "digits_value b \<le> 12" using calendar_date_month [OF first] by simp
  moreover have "calendar_date (digits_value c) (digits_value a) (digits_value b) = None" if "\<not> digits_value a \<le> 12"
    using that calendar_date_month [of "digits_value c" "digits_value a" "digits_value b"]
    by (cases "calendar_date (digits_value c) (digits_value a) (digits_value b)") auto
  ultimately show ?thesis by auto
qed

section \<open>A holiday file\<close>

definition sample_grid :: "string list list" where
  "sample_grid = [[''Date'', ''Name'', ''Type''], [''14-04-2026'', ''AMBEDKAR JAYANTI'', ''RH''],
     [''20-04-2026'', ''Founding Day'', []], [''15/08/2026'', ''Independence Day'', ''National'']]"

definition sample_sheet :: parsed_sheet where
  "sample_sheet = projr (sheet_of_grid sample_grid)"

lemma sample_sheet_read: "sheet_of_grid sample_grid = Inr sample_sheet"
proof -
  have "\<not> isl (sheet_of_grid sample_grid)" by code_simp
  then show ?thesis by (simp add: sample_sheet_def)
qed

definition sample_import :: "holiday_report \<times> leave_db" where
  "sample_import = import_holidays (\<lambda>r. ''h9'') {''2026-04''} False sample_now sample_sheet sample_leave"

lemma sample_import_eq:
  "import_holidays (\<lambda>r. ''h9'') {''2026-04''} False sample_now sample_sheet sample_leave = (fst sample_import, snd sample_import)"
  by (simp add: sample_import_def)


theorem import_twice_witness:
  "snd (import_holidays (\<lambda>r. ''h10'') {''2026-04''} False sample_now sample_sheet (snd sample_import)) = snd sample_import"
  using import_twice [OF sample_sheet_read sample_import_eq, of "\<lambda>r. ''h10''" False] by simp

theorem holiday_date_unambiguous_witness:
  "calendar_date 2026 8 15 = Some (date_utc 2026 7 15) \<and> calendar_date 2026 15 8 \<in> {None, Some (date_utc 2026 7 15)}"
proof -
  have "parse_holiday_date ''15/08/2026'' = Inr (date_utc 2026 7 15)" by code_simp
  moreover have "split_date (trim ''15/08/2026'') = Some (''15'', CHR ''/'', ''08'', CHR ''/'', ''2026'')" by code_simp
  moreover have "digits_value ''15'' = 15" "digits_value ''08'' = 8" "digits_value ''2026'' = 2026" by code_simp+
  ultimately show ?thesis using holiday_date_unambiguous [of "''15/08/2026''" "date_utc 2026 7 15" "''15''" "''08''" "''2026''"] by simp
qed

text \<open>
  A name in another case counts as stored, but the write matches the exact name: in a month that is
  paid the line passes as an update and adds a second row for the day.
\<close>

lemma other_case_adds_row:
  fixes h :: holiday_input
  defines "h \<equiv> \<lparr>hi_row = Some 2, hi_date = date_utc 2026 3 14, hi_name = ''AMBEDKAR JAYANTI'', hi_optional = True\<rparr>"
  shows "action_of (stored_keys sample_leave) h = UPDATE_ROW"
    and "map ho_name (upsert_holiday (\<lambda>r. ''h9'') (lv_holidays sample_leave) h) = [''Ambedkar Jayanti'', ''AMBEDKAR JAYANTI'']"
proof -
  have "to_lower (trim ''AMBEDKAR JAYANTI'') = to_lower (trim ''Ambedkar Jayanti'')" by code_simp
  then show "action_of (stored_keys sample_leave) h = UPDATE_ROW"
    by (simp add: h_def action_of_def stored_keys_def key_of_def holiday_key_def sample_leave_def)
qed (simp add: h_def upsert_holiday_def upsert_row_def sample_leave_def)

end
