(* ===== verification/LeaveTypes.thy ===== *)
theory LeaveTypes
  imports LeaveConfig LeaveBooks
begin

text \<open>
  What the configuration of leave types keeps: names and codes are unique, an event-based type can
  always be requested (it has days, an event to name, a bounded window), and no type is encashable.
\<close>

section \<open>Well-formed types\<close>

definition column_days :: "decimal option \<Rightarrow> bool" where
  "column_days v \<longleftrightarrow> (case v of None \<Rightarrow> True | Some d \<Rightarrow> hundredths d)"

definition event_ready :: "leave_type_row \<Rightarrow> bool" where
  "event_ready t \<longleftrightarrow> (lt_grant_mode t = ON_EVENT \<longrightarrow>
     (\<exists>d. lt_days_per_event t = Some d \<and> 0 < d \<and> (\<forall>r. lt_reduced_days t = Some r \<longrightarrow> r \<le> d))
     \<and> (lt_reduced_days t = None \<longleftrightarrow> lt_reduced_after t = None)
     \<and> (\<exists>l. lt_event_label t = Some l \<and> trim l \<noteq> [])
     \<and> lt_window_before t \<le> 365 \<and> lt_window_after t \<le> 365 \<and> \<not> lt_comp_off t \<and> \<not> lt_restricted_holiday t)"

definition type_ok :: "leave_type_row \<Rightarrow> bool" where
  "type_ok t \<longleftrightarrow> event_ready t \<and> column_days (lt_days_per_event t) \<and> column_days (lt_reduced_days t) \<and> \<not> lt_encashable t"

definition types_ok :: "leave_db \<Rightarrow> bool" where
  "types_ok s \<longleftrightarrow> (\<forall>t \<in> set (lv_types s). type_ok t)
     \<and> unique_key lt_id (lv_types s) \<and> unique_key lt_name (lv_types s) \<and> unique_key lt_code (lv_types s)"

text \<open>Requests give days in whole hundredths, as the columns hold them.\<close>

definition whole_hundredths :: "number option \<Rightarrow> bool" where
  "whole_hundredths v \<longleftrightarrow> (case v of None \<Rightarrow> True | Some x \<Rightarrow> \<exists>k. x = cents k \<and> \<bar>k\<bar> \<le> 10 ^ 9)"

definition exact_patch :: "type_patch \<Rightarrow> bool" where
  "exact_patch p \<longleftrightarrow> whole_hundredths (keep (tp_days_per_event p) None) \<and> whole_hundredths (keep (tp_reduced_days p) None)"

definition type_step :: "leave_db \<Rightarrow> leave_db \<Rightarrow> bool" where
  "type_step s s' \<longleftrightarrow> (\<exists>i p t. exact_patch p
     \<and> ((i \<notin> lt_id ` set (lv_types s) \<and> create_type i p s = Inr (t, s')) \<or> update_type i p s = Inr (t, s')))"

section \<open>Columns and the numbers they came from\<close>

lemma cents_less:
  assumes "\<bar>j\<bar> \<le> 10 ^ 9" "\<bar>k\<bar> \<le> 10 ^ 9" "j < k"
  shows "cents j < cents k"
proof -
  have "(of_int j :: rat) + 1 \<le> of_int k" using assms(3) by (metis of_int_1 of_int_add of_int_le_iff zless_imp_add1_zle)
  with cents_near [OF assms(1)] cents_near [OF assms(2)] show ?thesis unfolding abs_le_iff by (simp add: field_simps)
qed

lemma cents_le_iff: "\<bar>j\<bar> \<le> 10 ^ 9 \<Longrightarrow> \<bar>k\<bar> \<le> 10 ^ 9 \<Longrightarrow> cents j \<le> cents k \<longleftrightarrow> j \<le> k"
  using cents_less [of k j] cents_mono [of j k] by (auto simp: not_less [symmetric])

lemma days_col_order:
  assumes "\<bar>j\<bar> \<le> 10 ^ 9" "\<bar>k\<bar> \<le> 10 ^ 9"
  shows "days_col (cents j) \<le> days_col (cents k) \<longleftrightarrow> cents j \<le> cents k"
  using cents_le_iff [OF assms] assms by (simp add: days_col_cents divide_le_cancel)

lemma days_col_pos: "\<bar>k\<bar> \<le> 10 ^ 9 \<Longrightarrow> 0 < cents k \<Longrightarrow> 0 < days_col (cents k)"
  by (simp add: days_col_cents cents_pos)

lemma keep_column:
  assumes "column_days v" and "whole_hundredths (keep q None)"
  shows "keep (map_option (map_option days_col) q) v = map_option days_col (keep q (opt_num v)) \<and> whole_hundredths (keep q (opt_num v))"
proof (cases q)
  case None
  show ?thesis
  proof (cases v)
    case (Some d)
    with assms(1) have d: "hundredths d" by (simp add: column_days_def)
    then obtain k where "d = of_int k / 100" "\<bar>k\<bar> \<le> 10 ^ 9" unfolding hundredths_def by blast
    then have "num d = cents k \<and> \<bar>k\<bar> \<le> 10 ^ 9" by (simp only: num_cents)
    then have "whole_hundredths (Some (num d))" unfolding whole_hundredths_def by auto
    with None Some days_col_num [OF d] show ?thesis by (simp add: opt_num_def)
  qed (simp add: None opt_num_def whole_hundredths_def)
qed (use assms(2) in simp)

lemma column_of_whole: "whole_hundredths n \<Longrightarrow> column_days (map_option days_col n)"
  unfolding whole_hundredths_def column_days_def hundredths_def by (cases n) (auto simp: days_col_cents)

section \<open>What an accepted configuration means for the row\<close>

lemma accepted_event_row:
  assumes ok: "event_type_config_problems c = []" and mode: "ec_grant_mode c = lt_grant_mode t"
    and days: "\<And>x. ec_days c = Some x \<Longrightarrow> 0 < x \<Longrightarrow> n = Some x" "lt_days_per_event t = map_option days_col n" "whole_hundredths n"
    and red: "lt_reduced_days t = map_option days_col (ec_reduced_days c)" "whole_hundredths (ec_reduced_days c)"
    and rest: "ec_reduced_after c = lt_reduced_after t" "ec_label c = lt_event_label t" "ec_window_before c = lt_window_before t"
      "ec_window_after c = lt_window_after t" "ec_comp_off c = lt_comp_off t" "ec_restricted_holiday c = lt_restricted_holiday t"
  shows "event_ready t"
proof (cases "lt_grant_mode t = ON_EVENT")
  case True
  with ok mode obtain x where x: "ec_days c = Some x" "0 < x"
    by (auto simp: event_type_config_problems_def split: option.splits if_splits)
  with days(1) have n: "n = Some x" by simp
  with days(3) obtain k where k: "x = cents k" "\<bar>k\<bar> \<le> 10 ^ 9" by (auto simp: whole_hundredths_def)
  have "r \<le> days_col x" if "lt_reduced_days t = Some r" for r
  proof -
    from that red obtain y where y: "ec_reduced_days c = Some y" "r = days_col y" by auto
    with red(2) obtain j where j: "y = cents j" "\<bar>j\<bar> \<le> 10 ^ 9" by (auto simp: whole_hundredths_def)
    have "y \<le> x" using ok mode True x y(1) by (auto simp: event_type_config_problems_def split: if_splits)
    with y(2) j k show ?thesis by (simp add: days_col_order)
  qed
  moreover have "0 < days_col x" using x(2) k days_col_pos by simp
  moreover have "lt_days_per_event t = Some (days_col x)" using days(2) n by simp
  moreover have "lt_reduced_days t = None \<longleftrightarrow> lt_reduced_after t = None"
    using ok mode True red(1) rest(1) by (auto simp: event_type_config_problems_def split: if_splits)
  moreover have "\<exists>l. lt_event_label t = Some l \<and> trim l \<noteq> []"
    using ok mode True rest(2) by (auto simp: event_type_config_problems_def split: if_splits option.splits)
  moreover have "lt_window_before t \<le> 365 \<and> lt_window_after t \<le> 365 \<and> \<not> lt_comp_off t \<and> \<not> lt_restricted_holiday t"
    using ok mode True rest(3-6) by (auto simp: event_type_config_problems_def split: if_splits)
  ultimately show ?thesis by (simp add: event_ready_def)
qed (simp add: event_ready_def)

lemma assert_event_config_Inr [simp]: "assert_event_config c = Inr u \<longleftrightarrow> event_type_config_problems c = []"
  by (simp add: assert_event_config_def)

lemma new_type_ok:
  assumes "exact_patch p" and "event_type_config_problems (new_config p) = []"
  shows "type_ok (set_columns p (blank_type i))"
proof -
  let ?t = "set_columns p (blank_type i)"
  note d = keep_column [of None "tp_days_per_event p"] and r = keep_column [of None "tp_reduced_days p"]
  have cols: "lt_days_per_event ?t = map_option days_col (keep (tp_days_per_event p) None)" "whole_hundredths (keep (tp_days_per_event p) None)"
    "lt_reduced_days ?t = map_option days_col (keep (tp_reduced_days p) None)" "whole_hundredths (keep (tp_reduced_days p) None)"
    using d r assms(1) by (simp_all add: exact_patch_def column_days_def opt_num_def set_columns_def blank_type_def)
  have "event_ready ?t"
  proof (rule accepted_event_row [OF assms(2), where n = "keep (tp_days_per_event p) None"])
    show "keep (tp_days_per_event p) None = Some x" if "ec_days (new_config p) = Some x" "0 < x" for x
      using that by (auto simp: new_config_def keep_def split: option.splits)
  qed (use cols in \<open>simp_all add: new_config_def set_columns_def blank_type_def\<close>)
  with cols column_of_whole show ?thesis by (simp add: type_ok_def) (simp add: set_columns_def blank_type_def)
qed

lemma changed_type_ok:
  assumes "exact_patch p" and "event_type_config_problems (changed_config p u) = []" and "type_ok u"
  shows "type_ok (set_columns p u)"
proof -
  let ?t = "set_columns p u"
  have cols: "lt_days_per_event ?t = map_option days_col (keep (tp_days_per_event p) (opt_num (lt_days_per_event u)))"
    "whole_hundredths (keep (tp_days_per_event p) (opt_num (lt_days_per_event u)))"
    "lt_reduced_days ?t = map_option days_col (keep (tp_reduced_days p) (opt_num (lt_reduced_days u)))"
    "whole_hundredths (keep (tp_reduced_days p) (opt_num (lt_reduced_days u)))"
    using keep_column assms(1,3) by (simp_all add: exact_patch_def type_ok_def set_columns_def)
  have "event_ready ?t"
  proof (rule accepted_event_row [OF assms(2), where n = "keep (tp_days_per_event p) (opt_num (lt_days_per_event u))"])
    show "keep (tp_days_per_event p) (opt_num (lt_days_per_event u)) = Some x" if "ec_days (changed_config p u) = Some x" "0 < x" for x
      using that by (cases "keep (tp_days_per_event p) (opt_num (lt_days_per_event u))") (auto simp: changed_config_def)
  qed (use cols in \<open>simp_all add: changed_config_def set_columns_def\<close>)
  with cols column_of_whole assms(3) show ?thesis by (simp add: type_ok_def) (simp add: set_columns_def)
qed

section \<open>The invariant\<close>

lemma type_free:
  assumes "\<not> type_taken t s" and "u \<in> set (lv_types s)" and "lt_id u \<noteq> lt_id t"
  shows "lt_name u \<noteq> lt_name t \<and> lt_code u \<noteq> lt_code t"
  using assms by (auto simp: type_taken_def)

lemma create_type_ok:
  assumes "types_ok s" and "exact_patch p" and "i \<notin> lt_id ` set (lv_types s)" and "create_type i p s = Inr (t, s')"
  shows "types_ok s'"
proof -
  have t: "t = set_columns p (blank_type i)" "\<not> type_taken t s" "lv_types s' = lv_types s @ [t]" "event_type_config_problems (new_config p) = []"
    using assms(4) by (auto simp: create_type_def and_then_Inr_iff Let_def split: if_splits)
  then have i: "lt_id t = i" by (simp add: set_columns_def blank_type_def)
  have "type_ok t" using new_type_ok [OF assms(2) t(4)] t(1) by simp
  moreover have "lt_id u \<noteq> lt_id t \<and> lt_name u \<noteq> lt_name t \<and> lt_code u \<noteq> lt_code t" if "u \<in> set (lv_types s)" for u
  proof -
    from that assms(3) i have "lt_id u \<noteq> lt_id t" by (metis imageI)
    with type_free [OF t(2) that] show ?thesis by simp
  qed
  ultimately show ?thesis using assms(1) by (simp add: types_ok_def t(3) unique_key_append1)
qed

lemma unique_key_update_row:
  assumes "unique_key k t" and "unique_key j t" and u: "u \<in> set t"
    and free: "\<And>r. r \<in> set t \<Longrightarrow> j r \<noteq> j u \<Longrightarrow> k r \<noteq> k (f u)"
  shows "unique_key k (update_rows (\<lambda>r. j r = j u) f t)"
proof -
  have same: "r = u" if "r \<in> set t" "j r = j u" for r
    using that assms(2) u unique_key_eq [of j t r u] by simp
  have upd: "update_rows (\<lambda>r. j r = j u) f t = map (\<lambda>r. if r = u then f u else r) t"
    using same by (auto simp: update_rows_def)
  have "inj_on (\<lambda>r. k (if r = u then f u else r)) (set t)"
  proof (rule inj_onI)
    fix x y assume *: "x \<in> set t" "y \<in> set t" "k (if x = u then f u else x) = k (if y = u then f u else y)"
    have k: "k x = k y \<Longrightarrow> x = y" using *(1,2) assms(1) unique_key_eq [of k t x y] by simp
    show "x = y" using * k free same by (cases "x = u"; cases "y = u") metis+
  qed
  then show ?thesis using assms(1) unfolding unique_key_def upd by (simp add: distinct_map comp_def)
qed

lemma update_type_ok:
  assumes ok: "types_ok s" and "exact_patch p" and upd: "update_type i p s = Inr (t, s')"
  shows "types_ok s'"
proof -
  from upd obtain u where u: "find_type s i = Some u" "event_type_config_problems (changed_config p u) = []"
    "t = set_columns p u" "\<not> type_taken t s" "lv_types s' = update_rows (\<lambda>r. lt_id r = i) (set_columns p) (lv_types s)"
    by (auto simp: update_type_def and_then_Inr_iff Let_def split: if_splits)
  have mem: "u \<in> set (lv_types s)" "lt_id u = i" using u(1) find_row_SomeD [of _ "lv_types s" u] by (auto simp: find_type_def)
  have id: "lt_id (set_columns p r) = lt_id r" for r by (simp add: set_columns_def)
  have only: "r = u" if "r \<in> set (lv_types s)" "lt_id r = i" for r
    using that ok mem unique_key_eq [of lt_id "lv_types s" r u] by (simp add: types_ok_def)
  have "type_ok r" if "r \<in> set (lv_types s')" for r
  proof -
    from that obtain q where "q \<in> set (lv_types s)" "r = (if lt_id q = i then set_columns p q else q)"
      by (auto simp: u(5) in_set_update_rows)
    with only ok changed_type_ok [OF assms(2) u(2)] show ?thesis by (auto simp: types_ok_def split: if_splits)
  qed
  moreover have "unique_key lt_id (lv_types s')" using ok by (simp add: u(5) unique_key_update id types_ok_def)
  moreover have "unique_key lt_name (lv_types s')" "unique_key lt_code (lv_types s')"
    using unique_key_update_row [of lt_name "lv_types s" lt_id u "set_columns p"]
      unique_key_update_row [of lt_code "lv_types s" lt_id u "set_columns p"] ok mem type_free [OF u(4)] u(3) id
    by (simp_all add: u(5) types_ok_def)
  ultimately show ?thesis by (simp add: types_ok_def)
qed

lemma types_stay_ok:
  assumes "type_step\<^sup>*\<^sup>* s s'" and "types_ok s"
  shows "types_ok s'"
  using assms by (induction rule: rtranclp_induct) (auto simp: type_step_def intro: create_type_ok update_type_ok)


text \<open>No operation of the service makes a type encashable: the settlement finds nothing to encash.\<close>

lemma nothing_encashable:
  assumes "type_step\<^sup>*\<^sup>* s s'" and "types_ok s"
  shows "get_encashable_balance e as_of s' = 0"
proof -
  have "\<not> lt_encashable t" if "find_type s' i = Some t" for i t
    using types_stay_ok [OF assms] find_row_SomeD [of _ "lv_types s'" t] that by (auto simp: types_ok_def type_ok_def find_type_def)
  then have "filter (\<lambda>b. lb_employee b = e \<and> lb_year b = resolve_leave_year as_of (ls_fy_start_month (lv_settings s'))
      \<and> (case find_type s' (lb_type b) of None \<Rightarrow> False | Some t \<Rightarrow> lt_encashable t)) (lv_balances s') = []"
    by (auto simp: filter_empty_conv split: option.splits)
  then show ?thesis by (simp add: get_encashable_balance_def)
qed

section \<open>Two types of a new tenant\<close>

definition no_patch :: type_patch where
  "no_patch = \<lparr>tp_name = None, tp_code = None, tp_color = None, tp_annual_quota = None, tp_carry_forward_cap = None,
     tp_min_notice_days = None, tp_active = None, tp_frequency = None, tp_gender = None, tp_paid = None,
     tp_requires_approval = None, tp_comp_off = None, tp_restricted_holiday = None, tp_grant_mode = None,
     tp_days_per_event = None, tp_reduced_days = None, tp_reduced_after = None, tp_calendar_days = None,
     tp_max_events = None, tp_event_label = None, tp_window_before = None, tp_window_after = None,
     tp_min_service_days = None, tp_requires_document = None, tp_statutory = None\<rparr>"

definition marriage_patch :: type_patch where
  "marriage_patch = no_patch\<lparr>tp_name := Some ''Marriage Leave'', tp_code := Some ''MRL'', tp_annual_quota := Some 0,
     tp_grant_mode := Some ON_EVENT, tp_days_per_event := Some (Some 7), tp_event_label := Some (Some ''Marriage date''),
     tp_window_after := Some 30\<rparr>"

definition no_types :: leave_db where
  "no_types = sample_leave\<lparr>lv_types := []\<rparr>"

definition married :: leave_db where
  "married = snd (projr (create_type ''t1'' marriage_patch no_types))"

lemma marriage_created: "create_type ''t1'' marriage_patch no_types = Inr (set_columns marriage_patch (blank_type ''t1''), married)"
proof -
  have "event_type_config_problems (new_config marriage_patch) = []" "patch_fits marriage_patch" by code_simp+
  then have "create_type ''t1'' marriage_patch no_types = Inr (set_columns marriage_patch (blank_type ''t1''),
      no_types\<lparr>lv_types := lv_types no_types @ [set_columns marriage_patch (blank_type ''t1'')]\<rparr>)"
    by (simp add: create_type_def assert_event_config_def type_taken_def Let_def) (simp add: no_types_def)
  then show ?thesis by (simp add: married_def)
qed

lemma married_step: "type_step\<^sup>*\<^sup>* no_types married"
proof -
  have "exact_patch marriage_patch"
    using of_int_cents [of 7] by (auto simp: exact_patch_def whole_hundredths_def marriage_patch_def no_patch_def intro: exI [of _ 700])
  then have "type_step no_types married" unfolding type_step_def
    using marriage_created by (intro exI [of _ "''t1''"] exI [of _ marriage_patch] exI) (auto simp: no_types_def)
  then show ?thesis by (rule r_into_rtranclp)
qed

lemma no_types_ok: "types_ok no_types"
  by (simp add: types_ok_def no_types_def unique_key_def)


end
