(* ===== verification/LeaveViews.thy ===== *)
theory LeaveViews
  imports LeaveConfig
begin

text \<open>
  What the leave service shows (\<open>apps/api/src/leave/leave.service.ts\<close>): balances with the days
  pending and carried, the balances and the calendar of a team, the register of requests, the ledger.
  The names, departments and attachments joined in for display are left out. Sums of columns are the
  database's, exact; a number read from one is the nearest double.
\<close>

section \<open>Balances\<close>

record balance_view =
  bv_type :: id
  bv_year :: int
  bv_accrued :: number
  bv_carried :: number
  bv_used :: number
  bv_pending :: number

definition pending_days :: "leave_db \<Rightarrow> id \<Rightarrow> id \<Rightarrow> number" where
  "pending_days s e t = num (sum_list (map lq_days (filter (\<lambda>q. lq_employee q = e \<and> lq_type q = t
     \<and> (lq_status q = PENDING_L1 \<or> lq_status q = PENDING_L2)) (lv_requests s))))"

definition carried_forward :: "leave_db \<Rightarrow> int \<Rightarrow> id \<Rightarrow> id \<Rightarrow> number" where
  "carried_forward s y e t = num (sum_list (map ll_delta (filter (\<lambda>l. ll_employee l = e \<and> ll_type l = t
     \<and> ll_source l = CARRY_FORWARD \<and> date_utc y 0 1 \<le> ll_occurred_at l \<and> ll_occurred_at l < date_utc (y + 1) 0 1)
     (lv_ledger s))))"

definition to_balance_view :: "leave_db \<Rightarrow> int \<Rightarrow> leave_balance_row \<Rightarrow> balance_view" where
  "to_balance_view s y b =
     \<lparr>bv_type = lb_type b, bv_year = lb_year b, bv_accrued = num (lb_accrued b),
      bv_carried = carried_forward s y (lb_employee b) (lb_type b), bv_used = num (lb_used b),
      bv_pending = pending_days s (lb_employee b) (lb_type b)\<rparr>"

definition accrued_type :: "leave_db \<Rightarrow> id \<Rightarrow> bool" where
  "accrued_type s t \<longleftrightarrow> (case find_type s t of None \<Rightarrow> False | Some r \<Rightarrow> lt_grant_mode r = ACCRUED)"

definition employee_balances :: "leave_db \<Rightarrow> int \<Rightarrow> id \<Rightarrow> balance_view list" where
  "employee_balances s y e = map (to_balance_view s y)
     (filter (\<lambda>b. lb_employee b = e \<and> lb_year b = y \<and> accrued_type s (lb_type b)) (lv_balances s))"

definition year_or_current :: "int option \<Rightarrow> date \<Rightarrow> leave_db \<Rightarrow> int" where
  "year_or_current y now s = (case y of None \<Rightarrow> resolve_leave_year now (ls_fy_start_month (lv_settings s)) | Some x \<Rightarrow> x)"

definition get_balances :: "id \<Rightarrow> auth_user \<Rightarrow> int option \<Rightarrow> date \<Rightarrow> leave_db \<Rightarrow> balance_view list leave_answer" where
  "get_balances e user y now s =
     and_then (assert_can_view_employee e user s) (\<lambda>_. Inr (employee_balances s (year_or_current y now s) e))"

section \<open>The scope of a viewer\<close>

text \<open>Everyone for HR; a manager's subtree; nobody for a user without an employee record.\<close>

definition in_view :: "leave_db \<Rightarrow> auth_user \<Rightarrow> id \<Rightarrow> bool" where
  "in_view s user e \<longleftrightarrow> is_admin user
     \<or> (case user_employee user of None \<Rightarrow> False | Some g \<Rightarrow> g \<noteq> [] \<and> e \<in> recursive_report_ids (people_edges s) g)"

definition team_balances :: "auth_user \<Rightarrow> int option \<Rightarrow> date \<Rightarrow> leave_db \<Rightarrow> (id \<times> balance_view list) list" where
  "team_balances user y now s =
     map (\<lambda>e. (le_id e, employee_balances s (year_or_current y now s) (le_id e)))
       (filter (\<lambda>e. in_view s user (le_id e)) (lv_employees s))"

definition team_calendar :: "auth_user \<Rightarrow> date \<Rightarrow> date \<Rightarrow> leave_db \<Rightarrow> leave_request_row list" where
  "team_calendar user from until s =
     filter (\<lambda>q. live_status (lq_status q) \<and> lq_start q \<le> until \<and> from \<le> lq_end q \<and> in_view s user (lq_employee q))
       (lv_requests s)"

section \<open>The register and the ledger\<close>

record request_filter =
  qf_status :: "leave_status option"
  qf_type :: "id option"
  qf_department :: "id option"
  qf_from :: "date option"
  qf_to :: "date option"

text \<open>The department of an employee is not a column the leave tables hold: it is an argument.\<close>

definition list_requests :: "(id \<Rightarrow> id option) \<Rightarrow> request_filter \<Rightarrow> leave_db \<Rightarrow> leave_request_row list" where
  "list_requests department f s = rev (filter (\<lambda>q.
      (case qf_status f of None \<Rightarrow> True | Some st \<Rightarrow> lq_status q = st)
    \<and> (case qf_type f of None \<Rightarrow> True | Some t \<Rightarrow> lq_type q = t)
    \<and> (case qf_department f of None \<Rightarrow> True | Some d \<Rightarrow> department (lq_employee q) = Some d)
    \<and> (case qf_from f of None \<Rightarrow> True | Some d \<Rightarrow> d \<le> lq_end q)
    \<and> (case qf_to f of None \<Rightarrow> True | Some d \<Rightarrow> lq_start q \<le> d)) (lv_requests s))"

definition leave_ledger :: "id option \<Rightarrow> string option \<Rightarrow> leave_db \<Rightarrow> leave_ledger_row list" where
  "leave_ledger e code s =
     (let of_type = (case code of
           None \<Rightarrow> (\<lambda>_. True)
         | Some c \<Rightarrow> if c = [] then (\<lambda>_. True)
             else case find_row (\<lambda>t. lt_code t = c) (lv_types s) of None \<Rightarrow> (\<lambda>_. False) | Some t \<Rightarrow> (\<lambda>l. ll_type l = lt_id t))
      in rev (sort_key ll_occurred_at (filter (\<lambda>l. (case e of None \<Rightarrow> True | Some i \<Rightarrow> i = [] \<or> ll_employee l = i) \<and> of_type l)
           (lv_ledger s))))"

end
