(* ===== verification/Attendance.thy ===== *)
theory Attendance
  imports LeaveViews
begin

text \<open>
  Attendance (\<open>apps/api/src/attendance/attendance.service.ts\<close>, \<open>attendance.util.ts\<close>): clocking in
  and out, breaks, the month's figures, loss-of-pay days for payroll, overtime claims. An attendance
  record is identified by its employee and date, the unique key of the table; it holds the leave
  tables, which the service reads and, for comp-off, writes. Each operation is a function of the user,
  the time and the tables.
\<close>

section \<open>Tables\<close>

record break_row =
  bk_employee :: id
  bk_date :: date
  bk_start :: date
  bk_end :: "date option"

record punch_row =
  pu_employee :: id
  pu_at :: date
  pu_in :: bool
  pu_source :: attendance_source

datatype shift_type = FIXED | FLEXI | ROTATIONAL

record shift_row =
  sh_id :: id
  sh_name :: string
  sh_type :: shift_type
  sh_start :: string
  sh_end :: string
  sh_grace :: int
  sh_full_day :: decimal
  sh_half_day :: decimal
  sh_core_start :: "string option"
  sh_core_end :: "string option"
  sh_default :: bool

datatype regularization_status = RG_PENDING | RG_APPROVED | RG_REJECTED | RG_CANCELLED

datatype regularization_reason =
    MISSED_PUNCH_IN | MISSED_PUNCH_OUT | WRONG_PUNCH_TIME | FORGOT_TO_CLOCK_IN | FORGOT_TO_CLOCK_OUT
  | ON_DUTY_FIELD_WORK | OTHER_REASON

text \<open>\<open>rg_linked\<close>: the request refers to the attendance record of its employee and date.\<close>

record regularization_row =
  rg_id :: id
  rg_employee :: id
  rg_linked :: bool
  rg_date :: date
  rg_reason :: regularization_reason
  rg_check_in :: "date option"
  rg_check_out :: "date option"
  rg_status :: regularization_status
  rg_approver :: "id option"
  rg_decided :: "date option"

datatype claim_status = CLAIM_PENDING_MANAGER | CLAIM_PENDING_HR | CLAIM_APPROVED | CLAIM_REJECTED
datatype payout_mode = CASH | COMP_OFF

record claim_row =
  oc_id :: id
  oc_employee :: id
  oc_month :: string
  oc_hours :: decimal
  oc_mode :: payout_mode
  oc_status :: claim_status
  oc_manager :: "id option"
  oc_manager_decided :: "date option"
  oc_hr :: "id option"
  oc_hr_decided :: "date option"
  oc_reason :: "string option"

datatype attendance_mode = SELF_SERVICE | ROSTER | OFF

record attendance_settings =
  st_mode :: attendance_mode
  st_capture :: "attendance_source list"
  st_window_days :: int
  st_monthly_cap :: int
  st_auto_approve :: bool
  st_timezone :: string
  st_cutoff_day :: int

text \<open>The settings row joins the attendance settings with the tenant's time zone and cut-off day.\<close>

record attendance_db =
  av_leave :: leave_db
  av_settings :: attendance_settings
  av_shifts :: "shift_row table"
  av_shift_of :: "id \<rightharpoonup> id"
  av_breaks :: "break_row table"
  av_punches :: "punch_row table"
  av_regs :: "regularization_row table"
  av_claims :: "claim_row table"
  av_evidence :: "id set"
  av_audit :: "(id option \<times> string \<times> id) list"

section \<open>Messages and checks\<close>

datatype attendance_msg =
    NoEmployeeRecord
  | NoDefaultShift
  | AlreadyClockedIn
  | NotClockedIn
  | AlreadyClockedOut
  | EndBreakFirst
  | ClockInFirst
  | BreakInProgress
  | NoBreakInProgress
  | NoTrackedOvertime
  | ClaimExists
  | NotManagerLevel
  | NotHrLevel
  | ClaimNotPending claim_status
  | FutureDate
  | WindowPassed
  | CapReached
  | NotTheRequester
  | RequestNotPending regularization_status
  | NotAuthorizedToDecide
  | ShiftNotFound
  | DefaultShiftNeeded
  | NameTaken
  | NoSuchRow
  | LeaveProblem leave_msg

type_synonym 'a attendance_answer = "(attendance_msg exn, 'a) result"

definition row_or_crash :: "'a option \<Rightarrow> 'a attendance_answer" where
  "row_or_crash r = (case r of None \<Rightarrow> Inl (Crash NoSuchRow) | Some x \<Rightarrow> Inr x)"

lemma row_or_crash_Inr [simp]: "row_or_crash r = Inr x \<longleftrightarrow> r = Some x"
  by (simp add: row_or_crash_def split: option.splits)

definition require_employee :: "auth_user \<Rightarrow> id attendance_answer" where
  "require_employee user = (case user_employee user of
     None \<Rightarrow> Inl (BadRequest NoEmployeeRecord)
   | Some e \<Rightarrow> if e = [] then Inl (BadRequest NoEmployeeRecord) else Inr e)"

section \<open>Days and months\<close>

definition month_range :: "string \<Rightarrow> date \<times> date" where
  "month_range m = (date_utc (period_year m) (period_month m - 1) 1, date_utc (period_year m) (period_month m) 1)"

definition month_bounds_of :: "date \<Rightarrow> date \<times> date" where
  "month_bounds_of d = (date_utc (utc_year d) (utc_month d) 1, date_utc (utc_year d) (utc_month d + 1) 1)"

definition in_month :: "date \<times> date \<Rightarrow> date \<Rightarrow> bool" where
  "in_month r d \<longleftrightarrow> fst r \<le> d \<and> d < snd r"

text \<open>The time of a shift is text \<open>HH:MM\<close>; minutes past the hour carry.\<close>

definition clock_minutes :: "string \<Rightarrow> int" where
  "clock_minutes t = digits_value (takeWhile (\<lambda>c. c \<noteq> CHR '':'') t) * 60
     + digits_value (drop 1 (dropWhile (\<lambda>c. c \<noteq> CHR '':'') t))"

definition is_late_check_in :: "date \<Rightarrow> shift_row \<Rightarrow> bool" where
  "is_late_check_in t sh \<longleftrightarrow> utc_midnight t + (clock_minutes (sh_start sh) + sh_grace sh) * 60000 < t"

definition base_status_for :: "date \<Rightarrow> holiday_row option \<Rightarrow> int list \<Rightarrow> attendance_status" where
  "base_status_for d holiday offs =
     (if holiday \<noteq> None then AT_HOLIDAY else if utc_day d \<in> set offs then AT_WEEKLY_OFF else AT_ABSENT)"

section \<open>Reading the tables\<close>

definition day_key :: "id \<Rightarrow> date \<Rightarrow> attendance_row \<Rightarrow> bool" where
  "day_key e d r \<longleftrightarrow> at_employee r = e \<and> at_date r = d"

definition records :: "attendance_db \<Rightarrow> attendance_row table" where
  "records s = lv_attendance (av_leave s)"

definition find_record :: "id \<Rightarrow> date \<Rightarrow> attendance_db \<Rightarrow> attendance_row option" where
  "find_record e d s = find_row (day_key e d) (records s)"

definition set_records :: "(attendance_row table \<Rightarrow> attendance_row table) \<Rightarrow> attendance_db \<Rightarrow> attendance_db" where
  "set_records f s = s\<lparr>av_leave := (av_leave s)\<lparr>lv_attendance := f (lv_attendance (av_leave s))\<rparr>\<rparr>"

definition company_holiday :: "date \<Rightarrow> attendance_db \<Rightarrow> holiday_row option" where
  "company_holiday d s = find_row (\<lambda>h. ho_date h = d \<and> \<not> ho_optional h) (lv_holidays (av_leave s))"

definition weekly_offs :: "attendance_db \<Rightarrow> int list" where
  "weekly_offs s = ls_weekly_offs (lv_settings (av_leave s))"

definition breaks_of :: "attendance_db \<Rightarrow> attendance_row \<Rightarrow> break_row list" where
  "breaks_of s r = filter (\<lambda>b. bk_employee b = at_employee r \<and> bk_date b = at_date r) (av_breaks s)"

definition open_break :: "id \<Rightarrow> date \<Rightarrow> break_row \<Rightarrow> bool" where
  "open_break e d b \<longleftrightarrow> bk_employee b = e \<and> bk_date b = d \<and> bk_end b = None"

definition default_shift :: "attendance_db \<Rightarrow> shift_row option" where
  "default_shift s = find_row sh_default (av_shifts s)"

definition shift_of :: "attendance_db \<Rightarrow> id \<Rightarrow> shift_row option" where
  "shift_of s e = (case av_shift_of s e of None \<Rightarrow> None | Some i \<Rightarrow> find_row (\<lambda>x. sh_id x = i) (av_shifts s))"

definition resolve_shift :: "id \<Rightarrow> attendance_db \<Rightarrow> shift_row attendance_answer" where
  "resolve_shift e s =
     (case shift_of s e of
        Some sh \<Rightarrow> Inr sh
      | None \<Rightarrow> (case default_shift s of None \<Rightarrow> Inl (BadRequest NoDefaultShift) | Some sh \<Rightarrow> Inr sh))"

definition notify_att :: "string \<Rightarrow> string \<Rightarrow> attendance_db \<Rightarrow> attendance_db" where
  "notify_att template key s = s\<lparr>av_leave := leave_notify template key (av_leave s)\<rparr>"

definition audit_att :: "id option \<Rightarrow> string \<Rightarrow> id \<Rightarrow> attendance_db \<Rightarrow> attendance_db" where
  "audit_att actor action target s = s\<lparr>av_audit := av_audit s @ [(actor, action, target)]\<rparr>"

section \<open>Clocking in and out\<close>

definition clocked_in :: "attendance_row option \<Rightarrow> bool" where
  "clocked_in r \<longleftrightarrow> (case r of None \<Rightarrow> False | Some x \<Rightarrow> at_check_in x \<noteq> None \<and> at_check_out x = None)"

definition check_in_status :: "date \<Rightarrow> date \<Rightarrow> shift_row \<Rightarrow> attendance_db \<Rightarrow> attendance_status" where
  "check_in_status d now sh s =
     (if company_holiday d s \<noteq> None then AT_HOLIDAY
      else if utc_day d \<in> set (weekly_offs s) then AT_WEEKLY_OFF
      else if is_late_check_in now sh then AT_LATE else AT_PRESENT)"

definition add_punch :: "id \<Rightarrow> date \<Rightarrow> bool \<Rightarrow> attendance_db \<Rightarrow> attendance_db" where
  "add_punch e now dir s = s\<lparr>av_punches := av_punches s @ [\<lparr>pu_employee = e, pu_at = now, pu_in = dir, pu_source = WEB\<rparr>]\<rparr>"

definition clock_in :: "auth_user \<Rightarrow> date \<Rightarrow> attendance_db \<Rightarrow> attendance_db attendance_answer" where
  "clock_in user now s =
     and_then (require_employee user) (\<lambda>e.
       let d = utc_midnight now
       in if clocked_in (find_record e d s) then Inl (BadRequest AlreadyClockedIn)
          else and_then (resolve_shift e s) (\<lambda>sh.
            let st = check_in_status d now sh s;
                s1 = set_records (upsert_row (day_key e d)
                  (\<lambda>r. r\<lparr>at_check_in := Some now, at_check_out := None, at_source := WEB, at_status := st\<rparr>)
                  \<lparr>at_employee = e, at_date = d, at_check_in = Some now, at_check_out = None, at_status = st, at_source = WEB\<rparr>) s;
                s2 = add_punch e now True s1
            in Inr (if company_holiday d s \<noteq> None \<or> utc_day d \<in> set (weekly_offs s)
              then s2\<lparr>av_leave := credit_comp_off e d now (av_leave s2)\<rparr> else s2)))"

definition clock_out :: "auth_user \<Rightarrow> date \<Rightarrow> attendance_db \<Rightarrow> attendance_db attendance_answer" where
  "clock_out user now s =
     and_then (require_employee user) (\<lambda>e.
       let d = utc_midnight now
       in case find_record e d s of
            None \<Rightarrow> Inl (BadRequest NotClockedIn)
          | Some r \<Rightarrow>
              if at_check_in r = None then Inl (BadRequest NotClockedIn)
              else if at_check_out r \<noteq> None then Inl (BadRequest AlreadyClockedOut)
              else if find_row (open_break e d) (av_breaks s) \<noteq> None then Inl (BadRequest EndBreakFirst)
              else Inr (add_punch e now False
                (set_records (update_rows (day_key e d) (\<lambda>r. r\<lparr>at_check_out := Some now\<rparr>)) s)))"

section \<open>Breaks\<close>

definition start_break :: "auth_user \<Rightarrow> date \<Rightarrow> attendance_db \<Rightarrow> attendance_db attendance_answer" where
  "start_break user now s =
     and_then (require_employee user) (\<lambda>e.
       let d = utc_midnight now
       in if \<not> clocked_in (find_record e d s) then Inl (BadRequest ClockInFirst)
          else if find_row (open_break e d) (av_breaks s) \<noteq> None then Inl (BadRequest BreakInProgress)
          else Inr (s\<lparr>av_breaks := av_breaks s @ [\<lparr>bk_employee = e, bk_date = d, bk_start = now, bk_end = None\<rparr>]\<rparr>))"

text \<open>The first open break is closed.\<close>

fun update_first :: "('r \<Rightarrow> bool) \<Rightarrow> ('r \<Rightarrow> 'r) \<Rightarrow> 'r list \<Rightarrow> 'r list" where
  "update_first p f [] = []"
| "update_first p f (r # rs) = (if p r then f r # rs else r # update_first p f rs)"

definition end_break :: "auth_user \<Rightarrow> date \<Rightarrow> attendance_db \<Rightarrow> attendance_db attendance_answer" where
  "end_break user now s =
     and_then (require_employee user) (\<lambda>e.
       let d = utc_midnight now
       in if find_record e d s = None \<or> find_row (open_break e d) (av_breaks s) = None then Inl (BadRequest NoBreakInProgress)
          else Inr (s\<lparr>av_breaks := update_first (open_break e d) (\<lambda>b. b\<lparr>bk_end := Some now\<rparr>) (av_breaks s)\<rparr>))"

section \<open>Worked time\<close>

definition break_time :: "date \<Rightarrow> break_row list \<Rightarrow> int" where
  "break_time until bs = sum_list (map (\<lambda>b. (case bk_end b of None \<Rightarrow> until | Some t \<Rightarrow> t) - bk_start b) bs)"

definition target_ms :: "shift_row \<Rightarrow> number" where
  "target_ms sh = js_fl (js_fl (num (sh_full_day sh) * 3600) * 1000)"

record today_view =
  td_record :: "attendance_row option"
  td_effective :: int
  td_on_break :: bool
  td_target_hours :: number
  td_overtime :: number

definition today :: "auth_user \<Rightarrow> date \<Rightarrow> attendance_db \<Rightarrow> today_view attendance_answer" where
  "today user now s =
     and_then (require_employee user) (\<lambda>e. and_then (resolve_shift e s) (\<lambda>sh.
       Inr (case find_record e (utc_midnight now) s of
         None \<Rightarrow> \<lparr>td_record = None, td_effective = 0, td_on_break = False, td_target_hours = num (sh_full_day sh), td_overtime = 0\<rparr>
       | Some r \<Rightarrow>
           let out = (case at_check_out r of None \<Rightarrow> now | Some t \<Rightarrow> t);
               gross = (case at_check_in r of None \<Rightarrow> 0 | Some t \<Rightarrow> out - t);
               effective = max (gross - break_time now (breaks_of s r)) 0
           in \<lparr>td_record = Some r, td_effective = effective, td_on_break = (\<exists>b \<in> set (breaks_of s r). bk_end b = None),
               td_target_hours = num (sh_full_day sh), td_overtime = max (js_fl (of_int effective - target_ms sh)) 0\<rparr>)))"

definition month_records :: "id \<Rightarrow> string \<Rightarrow> attendance_db \<Rightarrow> attendance_row list" where
  "month_records e m s = filter (\<lambda>r. at_employee r = e \<and> in_month (month_range m) (at_date r)) (records s)"

definition calendar :: "auth_user \<Rightarrow> string \<Rightarrow> attendance_db \<Rightarrow> attendance_row list attendance_answer" where
  "calendar user m s = and_then (require_employee user) (\<lambda>e. Inr (sort_key at_date (month_records e m s)))"

text \<open>Hours beyond the target on the finished days, to one decimal.\<close>

definition day_overtime :: "attendance_db \<Rightarrow> shift_row \<Rightarrow> attendance_row \<Rightarrow> number" where
  "day_overtime s sh r =
     (case (at_check_in r, at_check_out r) of
        (Some i, Some out) \<Rightarrow> max (js_fl (of_int (max (out - i - break_time out (breaks_of s r)) 0) - target_ms sh)) 0
      | _ \<Rightarrow> 0)"

definition sum_overtime_hours :: "attendance_db \<Rightarrow> shift_row \<Rightarrow> attendance_row list \<Rightarrow> number" where
  "sum_overtime_hours s sh rs =
     (let ms = foldl (\<lambda>sum r. js_fl (sum + day_overtime s sh r)) 0 rs
      in js_fl (of_int (half_up_int (js_fl (js_fl (ms / 3600000) * 10))) / 10))"

definition tracked_overtime_hours :: "id \<Rightarrow> string \<Rightarrow> attendance_db \<Rightarrow> number attendance_answer" where
  "tracked_overtime_hours e m s = and_then (resolve_shift e s) (\<lambda>sh. Inr (sum_overtime_hours s sh (month_records e m s)))"

definition get_shift_hours :: "id \<Rightarrow> attendance_db \<Rightarrow> number attendance_answer" where
  "get_shift_hours e s = and_then (resolve_shift e s) (\<lambda>sh. Inr (num (sh_full_day sh)))"

section \<open>The month of the dashboard\<close>

record daily_attendance =
  da_date :: date
  da_status :: attendance_status
  da_check_in :: "int option"
  da_check_out :: "int option"
  da_worked :: "int option"
  da_break :: int

definition minutes_of_day_ist :: "date \<Rightarrow> int" where
  "minutes_of_day_ist t = (t mod DAY_MS div 3600000 * 60 + t mod 3600000 div 60000 + 330) mod 1440"

definition daily_break :: "attendance_db \<Rightarrow> attendance_row \<Rightarrow> int" where
  "daily_break s r = (if at_check_in r = None then 0 else sum_list (map (\<lambda>b.
     (case (case bk_end b of None \<Rightarrow> at_check_out r | Some t \<Rightarrow> Some t) of None \<Rightarrow> 0 | Some t \<Rightarrow> max (t - bk_start b) 0)) (breaks_of s r)))"

definition minutes_of :: "int \<Rightarrow> int" where
  "minutes_of ms = half_up_int (js_fl (of_int ms / 60000))"

definition daily_entry :: "attendance_db \<Rightarrow> attendance_row \<Rightarrow> daily_attendance" where
  "daily_entry s r =
     \<lparr>da_date = at_date r, da_status = at_status r, da_check_in = map_option minutes_of_day_ist (at_check_in r),
      da_check_out = map_option minutes_of_day_ist (at_check_out r),
      da_worked = (case (at_check_in r, at_check_out r) of
          (Some i, Some out) \<Rightarrow> Some (minutes_of (max (out - i - daily_break s r) 0)) | _ \<Rightarrow> None),
      da_break = minutes_of (daily_break s r)\<rparr>"

definition daily_series :: "attendance_db \<Rightarrow> attendance_row list \<Rightarrow> daily_attendance list" where
  "daily_series s rs = map (daily_entry s) (sort_key at_date rs)"

record month_stats =
  ms_present :: nat
  ms_working :: nat
  ms_punctuality :: int
  ms_remaining_leave :: number
  ms_breakdown :: "(id \<times> number) list"
  ms_overtime :: number
  ms_daily :: "daily_attendance list"
  ms_target_hours :: number

definition available_in_view :: "balance_view \<Rightarrow> number" where
  "available_in_view b = js_fl (js_fl (js_fl (bv_accrued b + bv_carried b) - bv_used b) - bv_pending b)"

definition leave_answer_of :: "'a leave_answer \<Rightarrow> 'a attendance_answer" where
  "leave_answer_of r = (case r of Inl (BadRequest m) \<Rightarrow> Inl (BadRequest (LeaveProblem m))
     | Inl (Forbidden m) \<Rightarrow> Inl (Forbidden (LeaveProblem m)) | Inl (NotFound m) \<Rightarrow> Inl (NotFound (LeaveProblem m))
     | Inl (Conflict m) \<Rightarrow> Inl (Conflict (LeaveProblem m)) | Inl (Unauthorized m) \<Rightarrow> Inl (Unauthorized (LeaveProblem m)) | Inl (Crash m) \<Rightarrow> Inl (Crash (LeaveProblem m)) | Inr x \<Rightarrow> Inr x)"

definition stats :: "auth_user \<Rightarrow> string \<Rightarrow> date \<Rightarrow> attendance_db \<Rightarrow> month_stats attendance_answer" where
  "stats user m now s =
     and_then (require_employee user) (\<lambda>e. and_then (resolve_shift e s) (\<lambda>sh.
     and_then (leave_answer_of (get_balances e user None now (av_leave s))) (\<lambda>balances.
       let rs = month_records e m s;
           present = length (filter (\<lambda>r. at_status r \<in> {AT_PRESENT, AT_LATE}) rs);
           late = length (filter (\<lambda>r. at_status r = AT_LATE) rs);
           breakdown = map (\<lambda>b. (bv_type b, available_in_view b)) balances
       in Inr \<lparr>ms_present = present,
           ms_working = length (filter (\<lambda>r. at_status r \<notin> {AT_WEEKLY_OFF, AT_HOLIDAY, AT_ON_LEAVE}) rs),
           ms_punctuality = (if 0 < present
             then half_up_int (js_fl (js_fl (of_int (int present - int late) / of_int (int present)) * 100)) else 100),
           ms_remaining_leave = foldl (\<lambda>sum b. js_fl (sum + snd b)) 0 breakdown, ms_breakdown = breakdown,
           ms_overtime = sum_overtime_hours s sh rs, ms_daily = daily_series s rs, ms_target_hours = num (sh_full_day sh)\<rparr>)))"

section \<open>Loss of pay\<close>

definition absent_days :: "id \<Rightarrow> string \<Rightarrow> attendance_db \<Rightarrow> int" where
  "absent_days e m s = int (length (filter (\<lambda>r. at_status r = AT_ABSENT) (month_records e m s)))"

definition get_lop_days :: "id \<Rightarrow> string \<Rightarrow> attendance_db \<Rightarrow> int" where
  "get_lop_days e m s =
     absent_days e m s + approved_lop_days (fst (month_range m)) (snd (month_range m)) (av_leave s) e"

text \<open>The batch counts the absences per employee and adds the unpaid leave of those who have any.\<close>

definition count_absence :: "(id \<rightharpoonup> int) \<Rightarrow> attendance_row \<Rightarrow> (id \<rightharpoonup> int)" where
  "count_absence m r = m(at_employee r \<mapsto> (case m (at_employee r) of None \<Rightarrow> 0 | Some n \<Rightarrow> n) + 1)"

definition unpaid_leave_employees :: "string \<Rightarrow> attendance_db \<Rightarrow> id list" where
  "unpaid_leave_employees m s = remdups (map lq_employee (filter (\<lambda>q. lq_status q = LEAVE_APPROVED \<and> lq_lop q
     \<and> lq_start q < snd (month_range m) \<and> fst (month_range m) \<le> lq_end q) (lv_requests (av_leave s))))"

definition add_unpaid :: "string \<Rightarrow> attendance_db \<Rightarrow> (id \<rightharpoonup> int) \<Rightarrow> id \<Rightarrow> (id \<rightharpoonup> int)" where
  "add_unpaid m s res e = res(e \<mapsto> (case res e of None \<Rightarrow> 0 | Some n \<Rightarrow> n)
     + approved_lop_days (fst (month_range m)) (snd (month_range m)) (av_leave s) e)"

definition get_lop_days_batch :: "string \<Rightarrow> attendance_db \<Rightarrow> (id \<rightharpoonup> int)" where
  "get_lop_days_batch m s =
     foldl (add_unpaid m s)
       (foldl count_absence Map.empty (filter (\<lambda>r. in_month (month_range m) (at_date r) \<and> at_status r = AT_ABSENT) (records s)))
       (unpaid_leave_employees m s)"

end
