(* ===== verification/AttendanceRequests.thy ===== *)
theory AttendanceRequests
  imports Attendance
begin

text \<open>
  The requests of \<open>attendance.service.ts\<close>: overtime claims, regularizations, marking by HR, shifts and
  settings. An id the database draws is an argument.
\<close>

section \<open>Overtime claims\<close>

definition find_claim :: "attendance_db \<Rightarrow> id \<Rightarrow> claim_row option" where
  "find_claim s i = find_row (\<lambda>c. oc_id c = i) (av_claims s)"

definition set_claim :: "id \<Rightarrow> (claim_row \<Rightarrow> claim_row) \<Rightarrow> attendance_db \<Rightarrow> attendance_db" where
  "set_claim i f s = s\<lparr>av_claims := update_rows (\<lambda>c. oc_id c = i) f (av_claims s)\<rparr>"

definition manager_of :: "id \<Rightarrow> attendance_db \<Rightarrow> id option" where
  "manager_of e s = (case find_employee (av_leave s) e of None \<Rightarrow> None | Some emp \<Rightarrow> le_manager emp)"

definition overtime_key :: "id \<Rightarrow> string \<Rightarrow> string" where
  "overtime_key i what = ''overtime:'' @ i @ what"

definition create_overtime_claim :: "id \<Rightarrow> string \<Rightarrow> payout_mode \<Rightarrow> auth_user \<Rightarrow> attendance_db \<Rightarrow> attendance_db attendance_answer" where
  "create_overtime_claim i m mode user s =
     and_then (require_employee user) (\<lambda>e.
     and_then (tracked_overtime_hours e m s) (\<lambda>hours.
       if hours \<le> 0 then Inl (BadRequest NoTrackedOvertime)
       else and_then (row_or_crash (find_employee (av_leave s) e)) (\<lambda>emp.
         let st = (if le_manager emp = None then CLAIM_PENDING_HR else CLAIM_PENDING_MANAGER)
         in if \<exists>c \<in> set (av_claims s). oc_employee c = e \<and> oc_month c = m then Inl (Conflict ClaimExists)
            else Inr (notify_att ''OVERTIME_CLAIM_PENDING_APPROVAL''
              (overtime_key i (if st = CLAIM_PENDING_HR then '':pending:PENDING_HR'' else '':pending:PENDING_MANAGER''))
              (s\<lparr>av_claims := av_claims s @ [\<lparr>oc_id = i, oc_employee = e, oc_month = m, oc_hours = days_col hours,
                oc_mode = mode, oc_status = st, oc_manager = None, oc_manager_decided = None, oc_hr = None,
                oc_hr_decided = None, oc_reason = None\<rparr>]\<rparr>)))))"

definition list_my_overtime_claims :: "auth_user \<Rightarrow> attendance_db \<Rightarrow> claim_row list attendance_answer" where
  "list_my_overtime_claims user s =
     and_then (require_employee user) (\<lambda>e. Inr (rev (sort_key oc_month (filter (\<lambda>c. oc_employee c = e) (av_claims s)))))"

text \<open>
  \<open>employee?.reportingManagerId === user.employeeId\<close>: an employee without a manager has \<open>null\<close>, a user
  without an employee record has \<open>null\<close>, an employee that does not exist gives \<open>undefined\<close>.
\<close>

definition can_decide_at_manager_level :: "id \<Rightarrow> auth_user \<Rightarrow> attendance_db \<Rightarrow> bool" where
  "can_decide_at_manager_level e user s \<longleftrightarrow> is_admin user
     \<or> (case find_employee (av_leave s) e of None \<Rightarrow> False | Some emp \<Rightarrow> le_manager emp = user_employee user)"

definition manager_decision :: "bool \<Rightarrow> auth_user \<Rightarrow> date \<Rightarrow> string option \<Rightarrow> claim_row \<Rightarrow> claim_row" where
  "manager_decision approve user now why c =
     (if approve then c\<lparr>oc_status := CLAIM_PENDING_HR, oc_manager := user_employee user, oc_manager_decided := Some now\<rparr>
      else c\<lparr>oc_status := CLAIM_REJECTED, oc_manager := user_employee user, oc_manager_decided := Some now, oc_reason := why\<rparr>)"

definition hr_decision :: "bool \<Rightarrow> auth_user \<Rightarrow> date \<Rightarrow> string option \<Rightarrow> claim_row \<Rightarrow> claim_row" where
  "hr_decision approve user now why c =
     (if approve then c\<lparr>oc_status := CLAIM_APPROVED, oc_hr := user_employee user, oc_hr_decided := Some now\<rparr>
      else c\<lparr>oc_status := CLAIM_REJECTED, oc_hr := user_employee user, oc_hr_decided := Some now, oc_reason := why\<rparr>)"

text \<open>Hours over hours of a day; the month's first day gives the leave year.\<close>

definition comp_off_days :: "number \<Rightarrow> number \<Rightarrow> number" where
  "comp_off_days worked per_day = (if 0 < per_day then js_fl (worked / per_day) else 0)"

text \<open>
  The approval is written before the shift is looked up: when there is none the request fails and the
  claim stays approved. The outcome is the error, if any, and the tables left behind.
\<close>

type_synonym 'a outcome = "attendance_msg exn option \<times> 'a"

definition decide_overtime_claim :: "id \<Rightarrow> bool \<Rightarrow> auth_user \<Rightarrow> string option \<Rightarrow> date \<Rightarrow> attendance_db \<Rightarrow> attendance_db outcome" where
  "decide_overtime_claim i approve user why now s =
     (case find_claim s i of
        None \<Rightarrow> (Some (Crash NoSuchRow), s)
      | Some c \<Rightarrow>
          (case oc_status c of
             CLAIM_PENDING_MANAGER \<Rightarrow>
               if \<not> can_decide_at_manager_level (oc_employee c) user s then (Some (Forbidden NotManagerLevel), s)
               else let s1 = set_claim i (manager_decision approve user now why) s
                    in (None, if approve
                      then notify_att ''OVERTIME_CLAIM_PENDING_APPROVAL'' (overtime_key i '':pending:PENDING_HR'')
                        (notify_att ''OVERTIME_CLAIM_DECIDED'' (overtime_key i '':decided:MANAGER_APPROVED'') s1)
                      else notify_att ''OVERTIME_CLAIM_DECIDED'' (overtime_key i '':decided:REJECTED'') s1)
           | CLAIM_PENDING_HR \<Rightarrow>
               if \<not> is_admin user then (Some (Forbidden NotHrLevel), s)
               else let s1 = set_claim i (hr_decision approve user now why) s
                    in if \<not> approve then (None, notify_att ''OVERTIME_CLAIM_DECIDED'' (overtime_key i '':decided:REJECTED'') s1)
                       else if oc_mode c = CASH then (None, notify_att ''OVERTIME_CLAIM_DECIDED'' (overtime_key i '':decided:APPROVED'') s1)
                       else (case get_shift_hours (oc_employee c) s1 of
                          Inl err \<Rightarrow> (Some err, s1)
                        | Inr h \<Rightarrow> (None, notify_att ''OVERTIME_CLAIM_DECIDED'' (overtime_key i '':decided:APPROVED'')
                            (s1\<lparr>av_leave := credit_overtime_comp_off (oc_employee c) (comp_off_days (num (oc_hours c)) h)
                              (fst (month_range (oc_month c))) now (av_leave s1)\<rparr>)))
           | st \<Rightarrow> (Some (BadRequest (ClaimNotPending st)), s)))"

definition payable_claim :: "claim_row \<Rightarrow> bool" where
  "payable_claim c \<longleftrightarrow> oc_status c = CLAIM_APPROVED \<and> oc_mode c = CASH"

definition get_approved_overtime :: "id \<Rightarrow> string \<Rightarrow> attendance_db \<Rightarrow> number" where
  "get_approved_overtime e m s =
     (case find_row (\<lambda>c. oc_employee c = e \<and> oc_month c = m) (av_claims s) of
        None \<Rightarrow> 0 | Some c \<Rightarrow> if payable_claim c then num (oc_hours c) else 0)"

definition get_approved_overtime_batch :: "string \<Rightarrow> attendance_db \<Rightarrow> (id \<rightharpoonup> number)" where
  "get_approved_overtime_batch m s =
     foldl (\<lambda>res c. res(oc_employee c \<mapsto> num (oc_hours c))) Map.empty
       (filter (\<lambda>c. oc_month c = m \<and> payable_claim c) (av_claims s))"

section \<open>Regularizations\<close>

record regularization_dto =
  rd_date :: date
  rd_reason :: regularization_reason
  rd_check_in :: "date option"
  rd_check_out :: "date option"

definition find_reg :: "attendance_db \<Rightarrow> id \<Rightarrow> regularization_row option" where
  "find_reg s i = find_row (\<lambda>q. rg_id q = i) (av_regs s)"

definition set_reg :: "id \<Rightarrow> (regularization_row \<Rightarrow> regularization_row) \<Rightarrow> attendance_db \<Rightarrow> attendance_db" where
  "set_reg i f s = s\<lparr>av_regs := update_rows (\<lambda>q. rg_id q = i) f (av_regs s)\<rparr>"

definition counted_reg :: "id \<Rightarrow> date \<times> date \<Rightarrow> regularization_row \<Rightarrow> bool" where
  "counted_reg e r q \<longleftrightarrow> rg_employee q = e \<and> in_month r (rg_date q) \<and> (rg_status q = RG_PENDING \<or> rg_status q = RG_APPROVED)"

definition days_since :: "date \<Rightarrow> date \<Rightarrow> int" where
  "days_since now d = half_up_int (js_fl (of_int (utc_midnight now - d) / of_int DAY_MS))"

definition set_day_status :: "id \<Rightarrow> date \<Rightarrow> attendance_status \<Rightarrow> attendance_db \<Rightarrow> attendance_db" where
  "set_day_status e d st s = set_records (update_rows (day_key e d) (\<lambda>r. r\<lparr>at_status := st\<rparr>)) s"

definition request_regularization :: "id \<Rightarrow> regularization_dto \<Rightarrow> auth_user \<Rightarrow> date \<Rightarrow> attendance_db \<Rightarrow> attendance_db attendance_answer" where
  "request_regularization i dto user now s =
     and_then (require_employee user) (\<lambda>e.
       let d = utc_midnight (rd_date dto); since = days_since now d; linked = (find_record e d s \<noteq> None)
       in if since < 0 then Inl (BadRequest FutureDate)
          else if st_window_days (av_settings s) < since then Inl (BadRequest WindowPassed)
          else if st_monthly_cap (av_settings s) \<le> int (length (filter (counted_reg e (month_bounds_of d)) (av_regs s)))
          then Inl (BadRequest CapReached)
          else let s1 = s\<lparr>av_regs := av_regs s @ [\<lparr>rg_id = i, rg_employee = e, rg_linked = linked, rg_date = d,
                 rg_reason = rd_reason dto, rg_check_in = rd_check_in dto, rg_check_out = rd_check_out dto,
                 rg_status = RG_PENDING, rg_approver = None, rg_decided = None\<rparr>]\<rparr>;
                 s2 = (if linked then set_day_status e d AT_PENDING_REGULARIZATION s1 else s1)
               in Inr (if find_employee (av_leave s) e \<noteq> None
                 then notify_att ''REGULARIZATION_PENDING_APPROVAL'' (''regularization:'' @ i @ '':pending'') s2 else s2))"

definition list_regularizations :: "auth_user \<Rightarrow> attendance_db \<Rightarrow> regularization_row list attendance_answer" where
  "list_regularizations user s = and_then (require_employee user) (\<lambda>e. Inr (rev (filter (\<lambda>q. rg_employee q = e) (av_regs s))))"

definition attach_evidence :: "id \<Rightarrow> auth_user \<Rightarrow> attendance_db \<Rightarrow> attendance_db attendance_answer" where
  "attach_evidence i user s =
     and_then (row_or_crash (find_reg s i)) (\<lambda>q.
       if Some (rg_employee q) \<noteq> user_employee user then Inl (Forbidden NotTheRequester)
       else if rg_status q \<noteq> RG_PENDING then Inl (BadRequest (RequestNotPending (rg_status q)))
       else Inr (s\<lparr>av_evidence := insert i (av_evidence s)\<rparr>))"

definition pending_regularizations :: "auth_user \<Rightarrow> attendance_db \<Rightarrow> regularization_row list" where
  "pending_regularizations user s =
     filter (\<lambda>q. rg_status q = RG_PENDING \<and> in_view (av_leave s) user (rg_employee q)) (av_regs s)"

definition cancel_regularization :: "id \<Rightarrow> auth_user \<Rightarrow> attendance_db \<Rightarrow> attendance_db attendance_answer" where
  "cancel_regularization i user s =
     and_then (row_or_crash (find_reg s i)) (\<lambda>q.
       if Some (rg_employee q) \<noteq> user_employee user then Inl (Forbidden NotTheRequester)
       else if rg_status q \<noteq> RG_PENDING then Inl (BadRequest (RequestNotPending (rg_status q)))
       else Inr (set_reg i (\<lambda>q. q\<lparr>rg_status := RG_CANCELLED\<rparr>) s))"

definition can_decide_regularization :: "id \<Rightarrow> auth_user \<Rightarrow> attendance_db \<Rightarrow> bool" where
  "can_decide_regularization e user s \<longleftrightarrow> is_admin user
     \<or> user_role user = LINE_MANAGER
       \<and> (case user_employee user of None \<Rightarrow> False | Some g \<Rightarrow> g \<noteq> [] \<and> e \<in> recursive_report_ids (people_edges (av_leave s)) g)"

definition decide_reg :: "regularization_status \<Rightarrow> auth_user \<Rightarrow> date \<Rightarrow> regularization_row \<Rightarrow> regularization_row" where
  "decide_reg st user now q = q\<lparr>rg_status := st,
     rg_approver := (case user_employee user of None \<Rightarrow> rg_approver q | Some a \<Rightarrow> Some a), rg_decided := Some now\<rparr>"

definition decided_notice :: "id \<Rightarrow> string \<Rightarrow> id \<Rightarrow> auth_user \<Rightarrow> attendance_db \<Rightarrow> attendance_db" where
  "decided_notice i action e user s =
     notify_att ''REGULARIZATION_DECIDED'' (''regularization:'' @ i @ '':decided'') (audit_att (Some (sub user)) action e s)"

definition or_else :: "'a option \<Rightarrow> 'a option \<Rightarrow> 'a option" where
  "or_else a b = (case a of None \<Rightarrow> b | Some x \<Rightarrow> Some x)"

text \<open>An undefined value leaves the column as it is.\<close>

definition approve_regularization :: "id \<Rightarrow> auth_user \<Rightarrow> date \<Rightarrow> attendance_db \<Rightarrow> attendance_db attendance_answer" where
  "approve_regularization i user now s =
     and_then (row_or_crash (find_reg s i)) (\<lambda>q.
       if \<not> can_decide_regularization (rg_employee q) user s then Inl (Forbidden NotAuthorizedToDecide)
       else if rg_status q \<noteq> RG_PENDING then Inl (BadRequest (RequestNotPending (rg_status q)))
       else and_then (resolve_shift (rg_employee q) s) (\<lambda>sh.
         let e = rg_employee q; d = rg_date q; existing = find_record e d s;
             check_in = or_else (rg_check_in q) (Option.bind existing at_check_in);
             check_out = or_else (rg_check_out q) (Option.bind existing at_check_out);
             st = (case check_in of None \<Rightarrow> AT_PRESENT | Some t \<Rightarrow> if is_late_check_in t sh then AT_LATE else AT_PRESENT);
             s1 = set_records (upsert_row (day_key e d)
               (\<lambda>r. r\<lparr>at_check_in := or_else check_in (at_check_in r), at_check_out := or_else check_out (at_check_out r),
                  at_status := st, at_source := MANUAL\<rparr>)
               \<lparr>at_employee = e, at_date = d, at_check_in = check_in, at_check_out = check_out, at_status = st, at_source = MANUAL\<rparr>) s
         in Inr (decided_notice i ''attendance.regularization_approved'' e user (set_reg i (decide_reg RG_APPROVED user now) s1))))"

definition reject_regularization :: "id \<Rightarrow> auth_user \<Rightarrow> date \<Rightarrow> attendance_db \<Rightarrow> attendance_db attendance_answer" where
  "reject_regularization i user now s =
     and_then (row_or_crash (find_reg s i)) (\<lambda>q.
       if \<not> can_decide_regularization (rg_employee q) user s then Inl (Forbidden NotAuthorizedToDecide)
       else if rg_status q \<noteq> RG_PENDING then Inl (BadRequest (RequestNotPending (rg_status q)))
       else let e = rg_employee q; d = rg_date q;
                s1 = (if rg_linked q then set_day_status e d (base_status_for d (company_holiday d s) (weekly_offs s)) s else s)
            in Inr (decided_notice i ''attendance.regularization_rejected'' e user (set_reg i (decide_reg RG_REJECTED user now) s1)))"

definition bulk_approve_regularizations :: "id list \<Rightarrow> auth_user \<Rightarrow> date \<Rightarrow> attendance_db \<Rightarrow> (id \<times> bool) list \<times> attendance_db" where
  "bulk_approve_regularizations ids user now s =
     foldl (\<lambda>(res, s) i. case approve_regularization i user now s of
         Inl _ \<Rightarrow> (res @ [(i, False)], s) | Inr s' \<Rightarrow> (res @ [(i, True)], s')) ([], s) ids"

section \<open>The team's day, and marking by HR\<close>

definition team_roster :: "auth_user \<Rightarrow> date option \<Rightarrow> date \<Rightarrow> attendance_db \<Rightarrow> (id \<times> attendance_row option) list" where
  "team_roster user day now s =
     (let d = utc_midnight (case day of None \<Rightarrow> now | Some t \<Rightarrow> t)
      in map (\<lambda>e. (le_id e, find_record (le_id e) d s)) (filter (\<lambda>e. in_view (av_leave s) user (le_id e)) (lv_employees (av_leave s))))"

record mark_dto =
  mk_employee :: id
  mk_date :: date
  mk_status :: attendance_status
  mk_check_in :: "date option"
  mk_check_out :: "date option"

definition mark_attendance :: "mark_dto \<Rightarrow> auth_user \<Rightarrow> attendance_db \<Rightarrow> attendance_db attendance_answer" where
  "mark_attendance dto user s =
     (let e = mk_employee dto; d = utc_midnight (mk_date dto)
      in if find_employee (av_leave s) e = None then Inl (Crash NoSuchRow)
         else Inr (audit_att (Some (sub user)) ''attendance.manually_marked'' e
           (set_records (upsert_row (day_key e d)
             (\<lambda>r. r\<lparr>at_check_in := or_else (mk_check_in dto) (at_check_in r), at_check_out := or_else (mk_check_out dto) (at_check_out r),
                at_status := mk_status dto, at_source := MANUAL\<rparr>)
             \<lparr>at_employee = e, at_date = d, at_check_in = mk_check_in dto, at_check_out = mk_check_out dto,
              at_status = mk_status dto, at_source = MANUAL\<rparr>) s)))"

section \<open>Shifts and settings\<close>

record shift_dto =
  sd_name :: "string option"
  sd_type :: "shift_type option"
  sd_start :: "string option"
  sd_end :: "string option"
  sd_grace :: "int option"
  sd_full_day :: "number option"
  sd_half_day :: "number option"
  sd_core_start :: "string option"
  sd_core_end :: "string option"
  sd_default :: "bool option"

definition set_shift :: "shift_dto \<Rightarrow> shift_row \<Rightarrow> shift_row" where
  "set_shift d x = x\<lparr>sh_name := keep (sd_name d) (sh_name x), sh_type := keep (sd_type d) (sh_type x),
     sh_start := keep (sd_start d) (sh_start x), sh_end := keep (sd_end d) (sh_end x),
     sh_grace := keep (sd_grace d) (sh_grace x),
     sh_full_day := keep (map_option days_col (sd_full_day d)) (sh_full_day x),
     sh_half_day := keep (map_option days_col (sd_half_day d)) (sh_half_day x),
     sh_core_start := or_else (sd_core_start d) (sh_core_start x), sh_core_end := or_else (sd_core_end d) (sh_core_end x),
     sh_default := keep (sd_default d) (sh_default x)\<rparr>"

definition blank_shift :: "id \<Rightarrow> shift_row" where
  "blank_shift i = \<lparr>sh_id = i, sh_name = [], sh_type = FIXED, sh_start = [], sh_end = [], sh_grace = 15,
     sh_full_day = 8, sh_half_day = 4, sh_core_start = None, sh_core_end = None, sh_default = False\<rparr>"

definition no_default :: "(shift_row \<Rightarrow> bool) \<Rightarrow> attendance_db \<Rightarrow> attendance_db" where
  "no_default p s = s\<lparr>av_shifts := update_rows (\<lambda>x. sh_default x \<and> p x) (\<lambda>x. x\<lparr>sh_default := False\<rparr>) (av_shifts s)\<rparr>"

definition shift_name_taken :: "shift_row \<Rightarrow> attendance_db \<Rightarrow> bool" where
  "shift_name_taken x s \<longleftrightarrow> (\<exists>y \<in> set (av_shifts s). sh_id y \<noteq> sh_id x \<and> sh_name y = sh_name x)"

definition list_shifts :: "attendance_db \<Rightarrow> shift_row list" where
  "list_shifts s = sort_key sh_name (av_shifts s)"

text \<open>The old default is cleared first, by a write of its own: it stays cleared when the second write fails.\<close>

definition create_shift :: "id \<Rightarrow> shift_dto \<Rightarrow> attendance_db \<Rightarrow> attendance_db outcome" where
  "create_shift i dto s =
     (let s1 = (if sd_default dto = Some True then no_default (\<lambda>_. True) s else s); x = set_shift dto (blank_shift i)
      in if shift_name_taken x s then (Some (Crash NameTaken), s1)
         else (None, s1\<lparr>av_shifts := av_shifts s1 @ [x]\<rparr>))"

definition update_shift :: "id \<Rightarrow> shift_dto \<Rightarrow> attendance_db \<Rightarrow> attendance_db outcome" where
  "update_shift i dto s =
     (case find_row (\<lambda>x. sh_id x = i) (av_shifts s) of
        None \<Rightarrow> (Some (NotFound ShiftNotFound), s)
      | Some x \<Rightarrow>
          let s1 = (if sd_default dto = Some True then no_default (\<lambda>y. sh_id y \<noteq> i) s else s)
          in if shift_name_taken (set_shift dto x) s then (Some (Crash NameTaken), s1)
             else (None, s1\<lparr>av_shifts := update_rows (\<lambda>y. sh_id y = i) (set_shift dto) (av_shifts s1)\<rparr>))"

text \<open>Deleting a shift takes it off the employees who had it.\<close>

definition delete_shift :: "id \<Rightarrow> attendance_db \<Rightarrow> attendance_db attendance_answer" where
  "delete_shift i s =
     (case find_row (\<lambda>x. sh_id x = i) (av_shifts s) of
        None \<Rightarrow> Inl (NotFound ShiftNotFound)
      | Some x \<Rightarrow>
          if sh_default x then Inl (BadRequest DefaultShiftNeeded)
          else Inr (s\<lparr>av_shifts := filter (\<lambda>y. sh_id y \<noteq> i) (av_shifts s),
            av_shift_of := (\<lambda>e. if av_shift_of s e = Some i then None else av_shift_of s e)\<rparr>))"

record config_patch =
  cp_mode :: "attendance_mode option"
  cp_capture :: "attendance_source list option"
  cp_window_days :: "int option"
  cp_monthly_cap :: "int option"
  cp_auto_approve :: "bool option"
  cp_timezone :: "string option"
  cp_weekly_offs :: "int list option"
  cp_cutoff_day :: "int option"

definition get_attendance_config :: "attendance_db \<Rightarrow> attendance_settings \<times> int list" where
  "get_attendance_config s = (av_settings s, weekly_offs s)"

definition update_attendance_config :: "config_patch \<Rightarrow> attendance_db \<Rightarrow> (attendance_settings \<times> int list) \<times> attendance_db" where
  "update_attendance_config p s =
     (let t = av_settings s; l = av_leave s;
          s' = s\<lparr>av_settings := \<lparr>st_mode = keep (cp_mode p) (st_mode t), st_capture = keep (cp_capture p) (st_capture t),
                   st_window_days = keep (cp_window_days p) (st_window_days t), st_monthly_cap = keep (cp_monthly_cap p) (st_monthly_cap t),
                   st_auto_approve = keep (cp_auto_approve p) (st_auto_approve t), st_timezone = keep (cp_timezone p) (st_timezone t),
                   st_cutoff_day = keep (cp_cutoff_day p) (st_cutoff_day t)\<rparr>,
                 av_leave := l\<lparr>lv_settings := (lv_settings l)\<lparr>ls_weekly_offs := keep (cp_weekly_offs p) (ls_weekly_offs (lv_settings l))\<rparr>\<rparr>\<rparr>
      in (get_attendance_config s', s'))"

end
