(* ===== verification/AttendanceJobs.thy ===== *)
theory AttendanceJobs
  imports AttendanceRequests
begin

text \<open>
  The daily jobs of attendance (\<open>apps/api/src/attendance/attendance-finalization.processor.ts\<close>) for one
  tenant: finalizing yesterday, and resolving open regularizations on the cut-off day.
\<close>

section \<open>Finalizing a day\<close>

definition has_outcome :: "attendance_row \<Rightarrow> bool" where
  "has_outcome r \<longleftrightarrow> at_check_in r \<noteq> None \<or> at_status r = AT_ON_LEAVE \<or> at_status r = AT_PENDING_REGULARIZATION"

definition punches_on :: "id \<Rightarrow> date \<Rightarrow> attendance_db \<Rightarrow> punch_row list" where
  "punches_on e d s = sort_key pu_at (filter (\<lambda>p. pu_employee p = e \<and> d \<le> pu_at p \<and> pu_at p < d + DAY_MS) (av_punches s))"

definition first_in :: "punch_row list \<Rightarrow> date option" where
  "first_in ps = map_option pu_at (find_row pu_in ps)"

definition last_out :: "punch_row list \<Rightarrow> date option" where
  "last_out ps = map_option pu_at (find_row (\<lambda>p. \<not> pu_in p) (rev ps))"

definition shift_for_job :: "id \<Rightarrow> attendance_db \<Rightarrow> shift_row option" where
  "shift_for_job e s = (case av_shift_of s e of None \<Rightarrow> default_shift s | Some i \<Rightarrow> find_row (\<lambda>x. sh_id x = i) (av_shifts s))"

definition put_status :: "id \<Rightarrow> date \<Rightarrow> attendance_status \<Rightarrow> attendance_db \<Rightarrow> attendance_db" where
  "put_status e d st s = set_records (upsert_row (day_key e d) (\<lambda>r. r\<lparr>at_status := st\<rparr>) (plain_day e d st)) s"

definition put_punches :: "id \<Rightarrow> date \<Rightarrow> punch_row list \<Rightarrow> attendance_db \<Rightarrow> attendance_db" where
  "put_punches e d ps s =
     (let ci = first_in ps; co = last_out ps;
          st = (case (ci, shift_for_job e s) of (Some t, Some sh) \<Rightarrow> if is_late_check_in t sh then AT_LATE else AT_PRESENT | _ \<Rightarrow> AT_PRESENT)
      in set_records (upsert_row (day_key e d)
        (\<lambda>r. r\<lparr>at_check_in := or_else ci (at_check_in r), at_check_out := or_else co (at_check_out r), at_status := st, at_source := IMPORT\<rparr>)
        \<lparr>at_employee = e, at_date = d, at_check_in = ci, at_check_out = co, at_status = st, at_source = IMPORT\<rparr>) s)"

text \<open>\<open>existing\<close> is the employee's record as it was read before the loop.\<close>

definition finalize_employee :: "date \<Rightarrow> attendance_status \<Rightarrow> attendance_db \<Rightarrow> attendance_db \<Rightarrow> id \<Rightarrow> attendance_db" where
  "finalize_employee d base s0 s e =
     (let existing = find_record e d s0
      in if (case existing of None \<Rightarrow> False | Some r \<Rightarrow> has_outcome r) then s
         else if base \<noteq> AT_ABSENT then put_status e d base s
         else if punches_on e d s \<noteq> [] then put_punches e d (punches_on e d s) s
         else put_status e d AT_ABSENT s)"

text \<open>Nothing before company setup is complete, and nothing before the day the company went live.\<close>

definition finalize_for_tenant :: "date option \<Rightarrow> date \<Rightarrow> attendance_db \<Rightarrow> attendance_db" where
  "finalize_for_tenant completed_at d s =
     (if completed_at = None then s
      else if (case ls_go_live (lv_settings (av_leave s)) of None \<Rightarrow> False | Some g \<Rightarrow> d < g) then s
      else foldl (finalize_employee d (base_status_for d (company_holiday d s) (weekly_offs s)) s) s
        (map le_id (lv_employees (av_leave s))))"

definition finalization_date :: "date \<Rightarrow> date" where
  "finalization_date now = utc_midnight (now - DAY_MS)"

section \<open>The cut-off day\<close>

definition auto_resolution :: "attendance_db \<Rightarrow> regularization_status" where
  "auto_resolution s = (if st_auto_approve (av_settings s) then RG_APPROVED else RG_REJECTED)"

definition resolved_record :: "regularization_status \<Rightarrow> regularization_row \<Rightarrow> attendance_row \<Rightarrow> attendance_row" where
  "resolved_record res q r =
     (if res = RG_APPROVED
      then r\<lparr>at_check_in := or_else (rg_check_in q) (at_check_in r), at_check_out := or_else (rg_check_out q) (at_check_out r),
        at_status := AT_PRESENT, at_source := MANUAL\<rparr>
      else r\<lparr>at_status := AT_ABSENT\<rparr>)"

definition resolve_request :: "date \<Rightarrow> regularization_status \<Rightarrow> attendance_db \<Rightarrow> regularization_row \<Rightarrow> attendance_db" where
  "resolve_request now res s q =
     (let s1 = set_reg (rg_id q) (\<lambda>x. x\<lparr>rg_status := res, rg_decided := Some now\<rparr>) s;
          s2 = (if rg_linked q then set_records (update_rows (day_key (rg_employee q) (rg_date q)) (resolved_record res q)) s1 else s1)
      in notify_att ''REGULARIZATION_DECIDED'' (''regularization:'' @ rg_id q @ '':decided'')
           (audit_att None ''attendance.regularization_auto_resolved'' (rg_employee q) s2))"

definition resolve_cutoff_for_tenant :: "date \<Rightarrow> attendance_db \<Rightarrow> attendance_db" where
  "resolve_cutoff_for_tenant now s =
     (let day = utc_midnight now
      in if utc_date day \<noteq> st_cutoff_day (av_settings s) then s
         else foldl (resolve_request now (auto_resolution s)) s
           (filter (\<lambda>q. rg_status q = RG_PENDING \<and> rg_date q < day) (av_regs s)))"

end
