(* ===== verification/AttendanceDays.thy ===== *)
theory AttendanceDays
  imports AttendanceJobs LeaveBooks
begin

text \<open>
  The days of attendance: what finalizing a day does to every employee, that it may run again, and
  that payroll's batch of loss-of-pay days is the single figure for everyone.
\<close>

section \<open>Writing one record\<close>

lemma day_key_self [simp]: "day_key (at_employee r) (at_date r) r"
  by (simp add: day_key_def)

lemma records_set [simp]: "records (set_records f s) = f (records s)"
  by (simp add: records_def set_records_def)

lemma set_records_keeps [simp]:
  "av_settings (set_records f s) = av_settings s" "av_shifts (set_records f s) = av_shifts s"
  "av_shift_of (set_records f s) = av_shift_of s" "av_breaks (set_records f s) = av_breaks s"
  "av_punches (set_records f s) = av_punches s" "av_regs (set_records f s) = av_regs s"
  "av_claims (set_records f s) = av_claims s" "lv_employees (av_leave (set_records f s)) = lv_employees (av_leave s)"
  "lv_settings (av_leave (set_records f s)) = lv_settings (av_leave s)"
  "lv_holidays (av_leave (set_records f s)) = lv_holidays (av_leave s)"
  "lv_requests (av_leave (set_records f s)) = lv_requests (av_leave s)"
  by (simp_all add: set_records_def)

lemma find_upsert:
  assumes "\<And>r. p r \<Longrightarrow> p (f r)" and "p new"
  shows "find_row p (upsert_row p f new t) = Some (case find_row p t of None \<Rightarrow> new | Some r \<Rightarrow> f r)"
  using assms find_row_append [of p t "[new]"] find_row_update_same [of p f t]
  by (auto simp: upsert_row_def simp del: find_row_None split: option.splits)

lemma find_upsert_other:
  assumes "\<And>r. p r \<Longrightarrow> \<not> q r" and "\<And>r. p r \<Longrightarrow> \<not> q (f r)" and "\<not> q new"
  shows "find_row q (upsert_row p f new t) = find_row q t"
  using assms find_row_append [of q t "[new]"] find_row_update_other [of p q f t]
  by (auto simp: upsert_row_def simp del: find_row_None split: option.splits)

lemma find_record_upsert:
  assumes "\<And>r. at_employee (f r) = at_employee r \<and> at_date (f r) = at_date r" and "at_employee new = e" and "at_date new = d"
  shows "find_record e' d' (set_records (upsert_row (day_key e d) f new) s)
    = (if e' = e \<and> d' = d then Some (case find_record e d s of None \<Rightarrow> new | Some r \<Rightarrow> f r) else find_record e' d' s)"
proof (cases "e' = e \<and> d' = d")
  case True
  have "day_key e d (f r)" if "day_key e d r" for r using that assms(1) [of r] by (simp add: day_key_def)
  moreover have "day_key e d new" using assms(2,3) by (simp add: day_key_def)
  ultimately show ?thesis using True find_upsert [of "day_key e d" f new "records s"] by (simp add: find_record_def)
next
  case False
  then have "find_row (day_key e' d') (upsert_row (day_key e d) f new (records s)) = find_row (day_key e' d') (records s)"
    using assms by (intro find_upsert_other) (auto simp: day_key_def)
  with False show ?thesis by (auto simp: find_record_def)
qed

section \<open>Finalizing\<close>

text \<open>What the job makes of an employee's day: a function of the day's record, its base status and the punches.\<close>

definition punched_row :: "punch_row list \<Rightarrow> shift_row option \<Rightarrow> attendance_row \<Rightarrow> attendance_row" where
  "punched_row ps sh r = r\<lparr>at_check_in := or_else (first_in ps) (at_check_in r), at_check_out := or_else (last_out ps) (at_check_out r),
     at_status := (case (first_in ps, sh) of (Some t, Some x) \<Rightarrow> if is_late_check_in t x then AT_LATE else AT_PRESENT | _ \<Rightarrow> AT_PRESENT),
     at_source := IMPORT\<rparr>"

definition finalized_day :: "date \<Rightarrow> attendance_db \<Rightarrow> id \<Rightarrow> attendance_row" where
  "finalized_day d s e =
     (let base = base_status_for d (company_holiday d s) (weekly_offs s); ps = punches_on e d s;
          fresh = plain_day e d AT_ABSENT; r = (case find_record e d s of None \<Rightarrow> fresh | Some r \<Rightarrow> r)
      in if (case find_record e d s of None \<Rightarrow> False | Some r \<Rightarrow> has_outcome r) then r
         else if base \<noteq> AT_ABSENT then r\<lparr>at_status := base\<rparr>
         else if ps \<noteq> [] then punched_row ps (shift_for_job e s) r
         else r\<lparr>at_status := AT_ABSENT\<rparr>)"

definition same_inputs :: "attendance_db \<Rightarrow> attendance_db \<Rightarrow> bool" where
  "same_inputs s t \<longleftrightarrow> av_punches t = av_punches s \<and> av_shifts t = av_shifts s \<and> av_shift_of t = av_shift_of s
     \<and> lv_employees (av_leave t) = lv_employees (av_leave s) \<and> lv_settings (av_leave t) = lv_settings (av_leave s)
     \<and> lv_holidays (av_leave t) = lv_holidays (av_leave s)"

lemma same_inputs_refl [simp]: "same_inputs s s"
  by (simp add: same_inputs_def)

lemma same_inputs_reads:
  assumes "same_inputs s t"
  shows "punches_on e d t = punches_on e d s" "shift_for_job e t = shift_for_job e s"
    "company_holiday d t = company_holiday d s" "weekly_offs t = weekly_offs s"
  using assms by (simp_all add: same_inputs_def punches_on_def shift_for_job_def default_shift_def company_holiday_def weekly_offs_def
      cong: option.case_cong)

lemma finalize_employee_effect:
  assumes s: "same_inputs s0 s" and e: "find_record e d s = find_record e d s0"
    and base: "base = base_status_for d (company_holiday d s0) (weekly_offs s0)"
  shows "same_inputs s0 (finalize_employee d base s0 s e)"
    and "find_record e' d' (finalize_employee d base s0 s e) = (if e' = e \<and> d' = d then Some (finalized_day d s0 e) else find_record e' d' s)"
proof -
  note reads = same_inputs_reads [OF s]
  show "same_inputs s0 (finalize_employee d base s0 s e)"
    using s by (simp add: finalize_employee_def put_status_def put_punches_def same_inputs_def Let_def)
  show "find_record e' d' (finalize_employee d base s0 s e) = (if e' = e \<and> d' = d then Some (finalized_day d s0 e) else find_record e' d' s)"
  proof (cases "case find_record e d s0 of None \<Rightarrow> False | Some r \<Rightarrow> has_outcome r")
    case True
    then show ?thesis using e by (auto simp: finalize_employee_def finalized_day_def Let_def split: option.splits)
  next
    case no: False
    show ?thesis
    proof (cases "base \<noteq> AT_ABSENT \<or> punches_on e d s0 = []")
      case True
      have "finalize_employee d base s0 s e = put_status e d base s"
        using no True by (auto simp: finalize_employee_def reads Let_def)
      moreover have "finalized_day d s0 e = (case find_record e d s0 of None \<Rightarrow> plain_day e d base | Some r \<Rightarrow> r\<lparr>at_status := base\<rparr>)"
        using no True by (auto simp: finalized_day_def base plain_day_def Let_def split: option.splits)
      ultimately show ?thesis by (simp add: put_status_def find_record_upsert e)
    next
      case False
      then have "finalize_employee d base s0 s e = put_punches e d (punches_on e d s0) s"
        using no by (auto simp: finalize_employee_def reads Let_def)
      moreover have "finalized_day d s0 e = punched_row (punches_on e d s0) (shift_for_job e s0)
          (case find_record e d s0 of None \<Rightarrow> plain_day e d AT_ABSENT | Some r \<Rightarrow> r)"
        using no False base by (simp add: finalized_day_def Let_def)
      ultimately show ?thesis
        by (auto simp: put_punches_def find_record_upsert e reads punched_row_def plain_day_def or_else_def Let_def split: option.splits)
    qed
  qed
qed

lemma finalize_all_effect:
  assumes "distinct es" and "same_inputs s0 s" and "\<forall>e \<in> set es. find_record e d s = find_record e d s0"
    and base: "base = base_status_for d (company_holiday d s0) (weekly_offs s0)"
  shows "same_inputs s0 (foldl (finalize_employee d base s0) s es)
    \<and> find_record e' d' (foldl (finalize_employee d base s0) s es)
      = (if d' = d \<and> e' \<in> set es then Some (finalized_day d s0 e') else find_record e' d' s)"
  using assms(1-3)
proof (induction es arbitrary: s)
  case (Cons e es)
  let ?s1 = "finalize_employee d base s0 s e"
  have one: "same_inputs s0 ?s1" "\<And>e' d'. find_record e' d' ?s1 = (if e' = e \<and> d' = d then Some (finalized_day d s0 e) else find_record e' d' s)"
    using finalize_employee_effect [OF Cons.prems(2) _ base] Cons.prems(3) by simp_all
  have "\<forall>x \<in> set es. find_record x d ?s1 = find_record x d s0" using Cons.prems one(2) by auto
  with Cons.IH [of ?s1] Cons.prems one show ?case by auto
qed simp

lemma finalization_run:
  assumes "completed_at \<noteq> None" and "case ls_go_live (lv_settings (av_leave s)) of None \<Rightarrow> True | Some g \<Rightarrow> g \<le> d"
    and "distinct (map le_id (lv_employees (av_leave s)))"
  shows "find_record e d' (finalize_for_tenant completed_at d s)
    = (if d' = d \<and> e \<in> le_id ` set (lv_employees (av_leave s)) then Some (finalized_day d s e) else find_record e d' s)"
proof -
  have "finalize_for_tenant completed_at d s = foldl (finalize_employee d (base_status_for d (company_holiday d s) (weekly_offs s)) s) s
      (map le_id (lv_employees (av_leave s)))"
    using assms(1,2) by (auto simp: finalize_for_tenant_def split: option.splits)
  then show ?thesis
    using finalize_all_effect [OF assms(3), of s s d "base_status_for d (company_holiday d s) (weekly_offs s)" e d'] by simp
qed


section \<open>Finalizing again\<close>

lemma finalized_again:
  assumes s': "find_record e d s' = Some (finalized_day d s e)" and i: "same_inputs s s'"
  shows "finalized_day d s' e = finalized_day d s e"
proof -
  note reads = same_inputs_reads [OF i]
  let ?base = "base_status_for d (company_holiday d s) (weekly_offs s)" and ?ps = "punches_on e d s"
  let ?r = "case find_record e d s of None \<Rightarrow> plain_day e d AT_ABSENT | Some r \<Rightarrow> r"
  have base: "?base = AT_ABSENT \<or> ?base = AT_HOLIDAY \<or> ?base = AT_WEEKLY_OFF" by (auto simp: base_status_for_def)
  have no: "\<not> has_outcome (?r\<lparr>at_status := st\<rparr>)" if "case find_record e d s of None \<Rightarrow> True | Some r \<Rightarrow> \<not> has_outcome r"
    "st \<notin> {AT_ON_LEAVE, AT_PENDING_REGULARIZATION}" for st
    using that by (auto simp: has_outcome_def split: option.splits)
  show ?thesis
  proof (cases "case find_record e d s of None \<Rightarrow> False | Some r \<Rightarrow> has_outcome r")
    case True
    then have "finalized_day d s e = ?r" "has_outcome ?r" by (auto simp: finalized_day_def Let_def split: option.splits)
    then show ?thesis using s' unfolding finalized_day_def [of d s'] by (simp add: Let_def)
  next
    case False
    then have none: "case find_record e d s of None \<Rightarrow> True | Some r \<Rightarrow> \<not> has_outcome r" by (auto split: option.splits)
    consider "?base \<noteq> AT_ABSENT" | "?base = AT_ABSENT" "?ps = []" | "?base = AT_ABSENT" "?ps \<noteq> []" by blast
    then show ?thesis
    proof cases
      case 1
      then have "finalized_day d s e = ?r\<lparr>at_status := ?base\<rparr>" using False by (simp add: finalized_day_def Let_def)
      with s' 1 no [OF none] base show ?thesis unfolding finalized_day_def [of d s'] by (auto simp: reads Let_def)
    next
      case 2
      then have "finalized_day d s e = ?r\<lparr>at_status := AT_ABSENT\<rparr>" using False by (simp add: finalized_day_def Let_def)
      with s' 2 no [OF none] show ?thesis unfolding finalized_day_def [of d s'] by (auto simp: reads Let_def)
    next
      case 3
      then have f: "finalized_day d s e = punched_row ?ps (shift_for_job e s) ?r" using False by (simp add: finalized_day_def Let_def)
      have same: "punched_row ?ps sh (punched_row ?ps sh r) = punched_row ?ps sh r" for sh r
        by (simp add: punched_row_def or_else_def split: option.splits)
      show ?thesis
        using s' 3 unfolding finalized_day_def [of d s'] f by (simp add: reads same Let_def)
    qed
  qed
qed

text \<open>
  The job may run again: finalizing a day a second time (a retry after an error in another tenant,
  a job that fired twice) leaves every employee's record of every day as the first run left it.
\<close>

theorem finalization_repeatable:
  assumes "distinct (map le_id (lv_employees (av_leave s)))"
  shows "find_record e d' (finalize_for_tenant completed_at d (finalize_for_tenant completed_at d s))
    = find_record e d' (finalize_for_tenant completed_at d s)"
proof (cases "completed_at \<noteq> None \<and> (case ls_go_live (lv_settings (av_leave s)) of None \<Rightarrow> True | Some g \<Rightarrow> g \<le> d)")
  case True
  let ?s = "finalize_for_tenant completed_at d s"
  note run = finalization_run [OF conjunct1 [OF True] conjunct2 [OF True] assms]
  have "?s = foldl (finalize_employee d (base_status_for d (company_holiday d s) (weekly_offs s)) s) s (map le_id (lv_employees (av_leave s)))"
    using True by (auto simp: finalize_for_tenant_def split: option.splits)
  then have same: "same_inputs s ?s"
    using finalize_all_effect [OF assms, of s s d "base_status_for d (company_holiday d s) (weekly_offs s)"] by simp
  then have same_tables: "lv_employees (av_leave ?s) = lv_employees (av_leave s)" "lv_settings (av_leave ?s) = lv_settings (av_leave s)"
    by (simp_all add: same_inputs_def)
  have again: "find_record e d' (finalize_for_tenant completed_at d ?s)
    = (if d' = d \<and> e \<in> le_id ` set (lv_employees (av_leave s)) then Some (finalized_day d ?s e) else find_record e d' ?s)"
    using finalization_run [where s = ?s and completed_at = completed_at and d = d and e = e and d' = d'] True assms same_tables by simp
  show ?thesis
  proof (cases "d' = d \<and> e \<in> le_id ` set (lv_employees (av_leave s))")
    case mem: True
    then have "find_record e d ?s = Some (finalized_day d s e)" using run [of e d] by simp
    from finalized_again [OF this same] show ?thesis using again run [of e d'] mem by simp
  qed (use again in auto)
next
  case False
  then have "finalize_for_tenant completed_at d s = s" by (auto simp: finalize_for_tenant_def split: option.splits)
  then show ?thesis by simp
qed

section \<open>Loss of pay, one by one and in a batch\<close>

lemma count_absences:
  "foldl count_absence m rs e = (if \<exists>r \<in> set rs. at_employee r = e
     then Some ((case m e of None \<Rightarrow> 0 | Some n \<Rightarrow> n) + int (length (filter (\<lambda>r. at_employee r = e) rs))) else m e)"
proof (induction rs arbitrary: m)
  case (Cons r rs)
  show ?case unfolding foldl_Cons Cons by (auto simp: count_absence_def)
qed simp

lemma add_unpaid_all:
  "distinct es \<Longrightarrow> foldl (add_unpaid m s) res es e = (if e \<in> set es
     then Some ((case res e of None \<Rightarrow> 0 | Some n \<Rightarrow> n) + approved_lop_days (fst (month_range m)) (snd (month_range m)) (av_leave s) e)
     else res e)"
proof (induction es arbitrary: res)
  case (Cons x es)
  then have IH: "foldl (add_unpaid m s) (add_unpaid m s res x) es e = (if e \<in> set es
     then Some ((case add_unpaid m s res x e of None \<Rightarrow> 0 | Some n \<Rightarrow> n) + approved_lop_days (fst (month_range m)) (snd (month_range m)) (av_leave s) e)
     else add_unpaid m s res x e)" by simp
  show ?case unfolding foldl_Cons IH using Cons.prems by (auto simp: add_unpaid_def)
qed simp

lemma no_unpaid_leave:
  assumes "e \<notin> set (unpaid_leave_employees m s)"
  shows "approved_lop_days (fst (month_range m)) (snd (month_range m)) (av_leave s) e = 0"
proof -
  have "filter (\<lambda>q. lq_employee q = e \<and> lq_status q = LEAVE_APPROVED \<and> lq_lop q
     \<and> lq_start q < snd (month_range m) \<and> fst (month_range m) \<le> lq_end q) (lv_requests (av_leave s)) = []"
    using assms by (auto simp: unpaid_leave_employees_def filter_empty_conv image_iff)
  then show ?thesis by (simp add: approved_lop_days_def Let_def)
qed

text \<open>
  Payroll's batch is everyone's figure: for each employee the loss-of-pay days the payroll run
  reads from the batch (none when the batch has no entry) are those the single query gives, absences
  and unpaid leave together.
\<close>

theorem lop_batch_is_single:
  "(case get_lop_days_batch m s e of None \<Rightarrow> 0 | Some n \<Rightarrow> n) = get_lop_days e m s"
proof -
  let ?rs = "filter (\<lambda>r. in_month (month_range m) (at_date r) \<and> at_status r = AT_ABSENT) (records s)"
  have mine: "filter (\<lambda>r. at_employee r = e) ?rs = filter (\<lambda>r. at_status r = AT_ABSENT) (month_records e m s)"
    by (auto simp: month_records_def intro: filter_cong)
  have none: "(\<not> (\<exists>r \<in> set ?rs. at_employee r = e)) = (filter (\<lambda>r. at_employee r = e) ?rs = [])"
    by (auto simp: filter_empty_conv)
  have abs: "(case foldl count_absence Map.empty ?rs e of None \<Rightarrow> 0 | Some n \<Rightarrow> n) = absent_days e m s"
    using none unfolding count_absences absent_days_def mine by auto
  have "distinct (unpaid_leave_employees m s)" by (simp add: unpaid_leave_employees_def)
  from add_unpaid_all [OF this] show ?thesis
    using abs no_unpaid_leave [of e m s] by (simp add: get_lop_days_batch_def get_lop_days_def)
qed

section \<open>A day of a small company\<close>

text \<open>
  Friday 13 March 2026, nobody was there; one employee has a punch from the door and one is on leave.
\<close>

definition sample_day :: date where "sample_day = date_utc 2026 3 13"

definition sample_shift :: shift_row where
  "sample_shift = \<lparr>sh_id = ''s1'', sh_name = ''General'', sh_type = FIXED, sh_start = ''09:30'', sh_end = ''18:30'', sh_grace = 15,
     sh_full_day = 8, sh_half_day = 4, sh_core_start = None, sh_core_end = None, sh_default = True\<rparr>"

definition sample_attendance :: attendance_db where
  "sample_attendance = \<lparr>av_leave = sample_leave\<lparr>lv_attendance := [plain_day ''m1'' sample_day AT_ON_LEAVE]\<rparr>,
     av_settings = \<lparr>st_mode = SELF_SERVICE, st_capture = [WEB], st_window_days = 7, st_monthly_cap = 2, st_auto_approve = False,
       st_timezone = ''Asia/Kolkata'', st_cutoff_day = 25\<rparr>,
     av_shifts = [sample_shift], av_shift_of = Map.empty, av_breaks = [],
     av_punches = [\<lparr>pu_employee = ''e1'', pu_at = sample_day + 36000000, pu_in = True, pu_source = BIOMETRIC\<rparr>],
     av_regs = [], av_claims = [], av_evidence = {}, av_audit = []\<rparr>"

lemma sample_attendance_ids: "distinct (map le_id (lv_employees (av_leave sample_attendance)))"
  by (simp add: sample_attendance_def sample_leave_def)


theorem finalization_repeatable_witness:
  "find_record ''e1'' sample_day (finalize_for_tenant (Some 0) sample_day (finalize_for_tenant (Some 0) sample_day sample_attendance))
    = find_record ''e1'' sample_day (finalize_for_tenant (Some 0) sample_day sample_attendance)"
  by (rule finalization_repeatable [OF sample_attendance_ids])

end
