(* ===== verification/AttendanceClaims.thy ===== *)
theory AttendanceClaims
  imports AttendanceDays Lifecycle
begin

text \<open>
  Attendance over time: the requests the module serves and its jobs as steps, what no sequence of them
  changes in decided overtime claims and regularizations, who approves overtime, and the monthly cap
  on regularizations.
\<close>

section \<open>The operations as steps\<close>

datatype attendance_op =
    ClockIn
  | ClockOut
  | StartBreak
  | EndBreak
  | ClaimOvertime id string payout_mode
  | DecideClaim id bool "string option"
  | Regularize id regularization_dto
  | AttachEvidence id
  | CancelRegularization id
  | ApproveRegularization id
  | RejectRegularization id
  | BulkApprove "id list"
  | Mark mark_dto
  | CreateShift id shift_dto
  | UpdateShift id shift_dto
  | DeleteShift id
  | Configure config_patch
  | Finalize "date option" date
  | CutOff
  | Leave leave_op

text \<open>A request that fails changes nothing.\<close>

definition served_or :: "'a \<Rightarrow> 'a attendance_answer \<Rightarrow> 'a" where
  "served_or s r = (case r of Inl _ \<Rightarrow> s | Inr s' \<Rightarrow> s')"

lemma served_or_simps [simp]: "served_or s (Inl x) = s" "served_or s (Inr t) = t"
  by (simp_all add: served_or_def)

text \<open>
  What leave does to attendance records: a record that goes takes its breaks along, and the
  regularization that refers to it keeps its row without the reference.
\<close>

definition relink :: "leave_db \<Rightarrow> attendance_db \<Rightarrow> attendance_db" where
  "relink l s =
     (let gone = (\<lambda>e d. find_row (day_key e d) (lv_attendance l) = None)
      in s\<lparr>av_leave := l, av_breaks := filter (\<lambda>b. \<not> gone (bk_employee b) (bk_date b)) (av_breaks s),
        av_regs := map (\<lambda>q. if gone (rg_employee q) (rg_date q) then q\<lparr>rg_linked := False\<rparr> else q) (av_regs s)\<rparr>)"

fun attend :: "attendance_op \<Rightarrow> auth_user \<Rightarrow> date \<Rightarrow> attendance_db \<Rightarrow> attendance_db" where
  "attend ClockIn user now s = served_or s (clock_in user now s)"
| "attend ClockOut user now s = served_or s (clock_out user now s)"
| "attend StartBreak user now s = served_or s (start_break user now s)"
| "attend EndBreak user now s = served_or s (end_break user now s)"
| "attend (ClaimOvertime i m mode) user now s = (if find_claim s i = None then served_or s (create_overtime_claim i m mode user s) else s)"
| "attend (DecideClaim i approve why) user now s = snd (decide_overtime_claim i approve user why now s)"
| "attend (Regularize i dto) user now s = (if find_reg s i = None then served_or s (request_regularization i dto user now s) else s)"
| "attend (AttachEvidence i) user now s = served_or s (attach_evidence i user s)"
| "attend (CancelRegularization i) user now s = served_or s (cancel_regularization i user s)"
| "attend (ApproveRegularization i) user now s = served_or s (approve_regularization i user now s)"
| "attend (RejectRegularization i) user now s = served_or s (reject_regularization i user now s)"
| "attend (BulkApprove ids) user now s = snd (bulk_approve_regularizations ids user now s)"
| "attend (Mark dto) user now s = served_or s (mark_attendance dto user s)"
| "attend (CreateShift i dto) user now s = snd (create_shift i dto s)"
| "attend (UpdateShift i dto) user now s = snd (update_shift i dto s)"
| "attend (DeleteShift i) user now s = served_or s (delete_shift i s)"
| "attend (Configure p) user now s = snd (update_attendance_config p s)"
| "attend (Finalize completed_at d) user now s = finalize_for_tenant completed_at d s"
| "attend CutOff user now s = resolve_cutoff_for_tenant now s"
| "attend (Leave op) user now s = (case serve op user now (av_leave s) of Inl _ \<Rightarrow> s | Inr l \<Rightarrow> relink l s)"

definition attendance_step :: "attendance_db \<Rightarrow> attendance_db \<Rightarrow> bool" where
  "attendance_step s s' \<longleftrightarrow> (\<exists>op user now. s' = attend op user now s)"

section \<open>What the steps leave alone\<close>

lemma writes_keep [simp]:
  "av_claims (notify_att t k s) = av_claims s" "av_claims (audit_att a x y s) = av_claims s"
  "av_claims (set_reg i f s) = av_claims s" "av_claims (set_day_status e d st s) = av_claims s"
  "av_claims (add_punch e now b s) = av_claims s" "av_claims (no_default p s) = av_claims s"
  "av_regs (notify_att t k s) = av_regs s" "av_regs (audit_att a x y s) = av_regs s"
  "av_regs (set_claim i g s) = av_regs s" "av_regs (set_day_status e d st s) = av_regs s"
  "av_regs (add_punch e now b s) = av_regs s" "av_regs (no_default p s) = av_regs s"
  "av_settings (notify_att t k s) = av_settings s" "av_settings (audit_att a x y s) = av_settings s"
  "av_settings (set_claim i g s) = av_settings s" "av_settings (set_day_status e d st s) = av_settings s"
  "av_settings (add_punch e now b s) = av_settings s" "av_settings (set_reg i f s) = av_settings s"
  "av_settings (no_default p s) = av_settings s"
  by (simp_all add: notify_att_def audit_att_def set_reg_def set_day_status_def add_punch_def no_default_def set_claim_def)

lemma relink_keeps [simp]:
  "av_claims (relink l s) = av_claims s" "av_settings (relink l s) = av_settings s"
  by (simp_all add: relink_def Let_def)

lemma foldl_invariant:
  assumes "I a" and "\<And>a x. x \<in> set xs \<Longrightarrow> I a \<Longrightarrow> I (f a x)"
  shows "I (foldl f a xs)"
  using assms by (induction xs arbitrary: a) auto

lemma foldl_keeps: "(\<And>s x. g (f s x) = g s) \<Longrightarrow> g (foldl f s xs) = g s"
  by (rule foldl_invariant [of "\<lambda>t. g t = g s"]) auto

lemma finalize_keeps [simp]:
  "av_claims (finalize_for_tenant c d s) = av_claims s" "av_regs (finalize_for_tenant c d s) = av_regs s"
  "av_settings (finalize_for_tenant c d s) = av_settings s"
proof -
  have one: "av_claims (finalize_employee d b s0 s e) = av_claims s" "av_regs (finalize_employee d b s0 s e) = av_regs s"
    "av_settings (finalize_employee d b s0 s e) = av_settings s" for b s0 s e
    by (simp_all add: finalize_employee_def put_status_def put_punches_def Let_def)
  show "av_claims (finalize_for_tenant c d s) = av_claims s" "av_regs (finalize_for_tenant c d s) = av_regs s"
    "av_settings (finalize_for_tenant c d s) = av_settings s"
    by (simp_all add: finalize_for_tenant_def foldl_keeps [of av_claims] foldl_keeps [of av_regs] foldl_keeps [of av_settings] one)
qed

lemma approve_keeps: "approve_regularization i user now s = Inr t \<Longrightarrow> av_claims t = av_claims s \<and> av_settings t = av_settings s"
  by (auto simp: approve_regularization_def and_then_Inr_iff decided_notice_def Let_def split: if_splits)

lemma bulk_preserves:
  assumes "\<And>s t i. i \<in> set ids \<Longrightarrow> I s \<Longrightarrow> approve_regularization i user now s = Inr t \<Longrightarrow> I t" and "I s"
  shows "I (snd (bulk_approve_regularizations ids user now s))"
  unfolding bulk_approve_regularizations_def
  by (rule foldl_invariant [of "\<lambda>p. I (snd p)"]) (use assms in \<open>auto split: sum.splits\<close>)

lemma resolve_cutoff_keeps [simp]:
  "av_claims (resolve_cutoff_for_tenant now s) = av_claims s" "av_settings (resolve_cutoff_for_tenant now s) = av_settings s"
proof -
  have one: "av_claims (resolve_request now res s q) = av_claims s" "av_settings (resolve_request now res s q) = av_settings s" for res s q
    by (simp_all add: resolve_request_def Let_def)
  show "av_claims (resolve_cutoff_for_tenant now s) = av_claims s" "av_settings (resolve_cutoff_for_tenant now s) = av_settings s"
    by (simp_all add: resolve_cutoff_for_tenant_def Let_def foldl_keeps [of av_claims] foldl_keeps [of av_settings] one)
qed

definition about_claims :: "attendance_op \<Rightarrow> bool" where
  "about_claims op \<longleftrightarrow> (case op of ClaimOvertime _ _ _ \<Rightarrow> True | DecideClaim _ _ _ \<Rightarrow> True | _ \<Rightarrow> False)"

lemma other_ops_keep_claims:
  assumes "\<not> about_claims op"
  shows "av_claims (attend op user now s) = av_claims s"
proof (cases op)
  case (BulkApprove ids)
  then show ?thesis using bulk_preserves [of ids "\<lambda>t. av_claims t = av_claims s" user now s] approve_keeps by auto
next
  case (ApproveRegularization i)
  then show ?thesis using approve_keeps [of i user now s] by (cases "approve_regularization i user now s") auto
qed (use assms in \<open>auto simp: about_claims_def served_or_def clock_in_def clock_out_def start_break_def end_break_def
    request_regularization_def attach_evidence_def cancel_regularization_def reject_regularization_def mark_attendance_def
    create_shift_def update_shift_def delete_shift_def update_attendance_config_def decided_notice_def and_then_def Let_def
    split: sum.splits option.splits if_splits\<close>)

section \<open>Overtime claims\<close>

definition decided_claim :: "claim_row \<Rightarrow> bool" where
  "decided_claim c \<longleftrightarrow> oc_status c = CLAIM_APPROVED \<or> oc_status c = CLAIM_REJECTED"

definition claim_key :: "claim_row \<Rightarrow> id \<times> string" where
  "claim_key c = (oc_employee c, oc_month c)"

text \<open>What a request does to the claims: nothing, one new claim, or one open claim decided.\<close>

definition decision :: "(claim_row \<Rightarrow> claim_row) \<Rightarrow> bool" where
  "decision f \<longleftrightarrow> (\<forall>c. oc_id (f c) = oc_id c \<and> oc_employee (f c) = oc_employee c \<and> oc_month (f c) = oc_month c
     \<and> oc_mode (f c) = oc_mode c \<and> oc_hours (f c) = oc_hours c)"

lemma decisions: "decision (manager_decision a user now why)" "decision (hr_decision a user now why)"
  by (simp_all add: decision_def manager_decision_def hr_decision_def)

lemma create_claim_effect:
  assumes "create_overtime_claim i m mode user s = Inr t"
  obtains c where "av_claims t = av_claims s @ [c]" "oc_id c = i" "\<not> decided_claim c" "claim_key c \<notin> claim_key ` set (av_claims s)"
proof -
  from assms have "\<exists>c. av_claims t = av_claims s @ [c] \<and> oc_id c = i \<and> \<not> decided_claim c \<and> claim_key c \<notin> claim_key ` set (av_claims s)"
    by (auto simp: create_overtime_claim_def and_then_Inr_iff decided_claim_def claim_key_def Let_def split: if_split_asm)
  with that show thesis by blast
qed

lemma decide_claim_effect:
  obtains "av_claims (snd (decide_overtime_claim i approve user why now s)) = av_claims s"
  | c f where "find_claim s i = Some c" "\<not> decided_claim c" "decision f"
      "av_claims (snd (decide_overtime_claim i approve user why now s)) = update_rows (\<lambda>c. oc_id c = i) f (av_claims s)"
      "oc_status (f c) = CLAIM_APPROVED \<Longrightarrow> oc_status c = CLAIM_PENDING_HR \<and> is_admin user \<and> approve"
proof (cases "av_claims (snd (decide_overtime_claim i approve user why now s)) = av_claims s")
  case False
  then obtain c where c: "find_claim s i = Some c" by (auto simp: decide_overtime_claim_def split: option.splits)
  consider (manager) "oc_status c = CLAIM_PENDING_MANAGER" | (hr) "oc_status c = CLAIM_PENDING_HR"
    using False c by (cases "oc_status c") (auto simp: decide_overtime_claim_def)
  then show thesis
  proof cases
    case manager
    then have "av_claims (snd (decide_overtime_claim i approve user why now s))
      = update_rows (\<lambda>c. oc_id c = i) (manager_decision approve user now why) (av_claims s)"
      using False c by (auto simp: decide_overtime_claim_def set_claim_def Let_def split: if_splits)
    from that(2) [OF c _ decisions(1) this] show thesis
      using manager by (cases approve) (simp_all add: decided_claim_def manager_decision_def)
  next
    case hr
    with False c have admin: "is_admin user" by (auto simp: decide_overtime_claim_def split: if_splits)
    then have "av_claims (snd (decide_overtime_claim i approve user why now s))
      = update_rows (\<lambda>c. oc_id c = i) (hr_decision approve user now why) (av_claims s)"
      using hr c by (auto simp: decide_overtime_claim_def set_claim_def Let_def split: sum.splits)
    from that(2) [OF c _ decisions(2) this] show thesis
      using hr admin by (cases approve) (simp_all add: decided_claim_def hr_decision_def)
  qed
qed (rule that(1))

lemma claims_after:
  obtains "av_claims (attend op user now s) = av_claims s"
  | c where "av_claims (attend op user now s) = av_claims s @ [c]" "oc_id c \<notin> oc_id ` set (av_claims s)"
      "\<not> decided_claim c" "claim_key c \<notin> claim_key ` set (av_claims s)"
  | i c f why approve where "op = DecideClaim i approve why" "find_claim s i = Some c" "\<not> decided_claim c" "decision f"
      "av_claims (attend op user now s) = update_rows (\<lambda>c. oc_id c = i) f (av_claims s)"
      "oc_status (f c) = CLAIM_APPROVED \<Longrightarrow> oc_status c = CLAIM_PENDING_HR \<and> is_admin user \<and> approve"
proof (cases op)
  case (ClaimOvertime i m mode)
  show thesis
  proof (cases "av_claims (attend op user now s) = av_claims s")
    case False
    with ClaimOvertime obtain t where t: "create_overtime_claim i m mode user s = Inr t" "find_claim s i = None"
      by (auto simp: served_or_def split: if_splits sum.splits)
    from create_claim_effect [OF t(1)] obtain c where "av_claims t = av_claims s @ [c]" "oc_id c = i" "\<not> decided_claim c"
      "claim_key c \<notin> claim_key ` set (av_claims s)" .
    with t show thesis using that(2) [of c] ClaimOvertime by (force simp: find_claim_def)
  qed (rule that(1))
next
  case (DecideClaim i approve why)
  show thesis
    by (rule decide_claim_effect [of i approve user why now s]) (use that(1) that(3) [OF DecideClaim] DecideClaim in auto)
qed (use that(1) other_ops_keep_claims [of op user now s] in \<open>auto simp: about_claims_def\<close>)

lemma find_claim_update:
  assumes "decision f"
  shows "find_row (\<lambda>c. oc_id c = k) (update_rows (\<lambda>c. oc_id c = i) f t)
    = (if k = i then map_option f (find_row (\<lambda>c. oc_id c = k) t) else find_row (\<lambda>c. oc_id c = k) t)"
  using assms by (induction t) (auto simp: decision_def)

lemma claim_stays:
  assumes "attendance_step s s'" and "find_claim s k = Some c" and "decided_claim c"
  shows "find_claim s' k = Some c"
proof -
  obtain op user now where s': "s' = attend op user now s" using assms(1) by (auto simp: attendance_step_def)
  from claims_after [of op user now s] show ?thesis
  proof cases
    case 1
    then show ?thesis using assms(2) s' by (simp add: find_claim_def)
  next
    case (2 n)
    then show ?thesis using assms(2) s' by (simp add: find_claim_def find_row_append)
  next
    case (3 i b f)
    then show ?thesis using assms(2,3) s' by (auto simp: find_claim_def find_claim_update)
  qed
qed

text \<open>The decided claim itself is the state that is never left.\<close>

interpretation decided: absorbing_states attendance_step find_claim "\<lambda>b. b = c \<and> decided_claim c" for c
  by unfold_locales (use claim_stays in blast)

text \<open>
  A decided overtime claim is final: once approved or rejected, no sequence of requests and jobs
  of the module changes anything in it.
\<close>

theorem decided_claim_final:
  assumes "attendance_step\<^sup>*\<^sup>* s s'" and "find_claim s i = Some c" and "decided_claim c"
  shows "find_claim s' i = Some c"
  using decided.closed_forever [OF assms(1,2), of c] assms(3) by simp

text \<open>
  Overtime is approved by HR or an administrator only: whatever the request, a claim that was not
  approved and is approved afterwards was waiting for HR, and the request was the approval of that
  claim by an HR manager or a company administrator.
\<close>

theorem overtime_approval_authority:
  assumes "find_claim s i = Some c" and "oc_status c \<noteq> CLAIM_APPROVED"
    and "find_claim (attend op user now s) i = Some c'" and "oc_status c' = CLAIM_APPROVED"
  shows "oc_status c = CLAIM_PENDING_HR \<and> is_admin user \<and> (\<exists>why. op = DecideClaim i True why)"
  using claims_after [of op user now s]
proof cases
  case 1
  then show ?thesis using assms by (simp add: find_claim_def)
next
  case (2 n)
  then show ?thesis using assms by (simp add: find_claim_def find_row_append)
next
  case (3 j b f why approve)
  then have "j = i" "c' = f c" "b = c" using assms by (auto simp: find_claim_def find_claim_update split: if_splits)
  with 3 assms(4) show ?thesis by blast
qed

section \<open>One claim a month\<close>

definition claims_ok :: "attendance_db \<Rightarrow> bool" where
  "claims_ok s \<longleftrightarrow> unique_key oc_id (av_claims s) \<and> unique_key claim_key (av_claims s)"

lemma claims_ok_step:
  assumes "attendance_step s s'" and "claims_ok s"
  shows "claims_ok s'"
proof -
  obtain op user now where s': "s' = attend op user now s" using assms(1) by (auto simp: attendance_step_def)
  from claims_after [of op user now s] show ?thesis
  proof cases
    case (2 c)
    then show ?thesis using assms(2) s' by (simp add: claims_ok_def unique_key_append1) (metis imageI)
  next
    case (3 i c f)
    then have "map oc_id (av_claims s') = map oc_id (av_claims s)" "map claim_key (av_claims s') = map claim_key (av_claims s)"
      by (auto simp: s' decision_def claim_key_def intro!: map_update_rows)
    then show ?thesis using assms(2) by (simp add: claims_ok_def unique_key_def)
  qed (use assms(2) s' in \<open>simp add: claims_ok_def\<close>)
qed

lemma find_row_fresh: "k r \<notin> k ` set t \<Longrightarrow> find_row (\<lambda>q. k q = k r) t = None"
proof -
  assume a: "k r \<notin> k ` set t"
  have "k q \<noteq> k r" if "q \<in> set t" for q using imageI [OF that, of k] a by auto
  then show ?thesis by simp
qed

lemma batch_hours:
  assumes "distinct (map oc_employee cs)"
  shows "foldl (\<lambda>res c. res(oc_employee c \<mapsto> num (oc_hours c))) res cs e
    = (case find_row (\<lambda>c. oc_employee c = e) cs of None \<Rightarrow> res e | Some c \<Rightarrow> Some (num (oc_hours c)))"
  using assms
proof (induction cs arbitrary: res)
  case (Cons c cs)
  then have "find_row (\<lambda>q. oc_employee q = oc_employee c) cs = None" by (intro find_row_fresh) simp
  with Cons show ?case by (cases "oc_employee c = e") (simp_all del: find_row_None)
qed simp

lemma find_row_cong: "(\<And>r. r \<in> set t \<Longrightarrow> p r = q r) \<Longrightarrow> find_row p t = find_row q t"
  by (induction t) (auto simp del: find_row_None)

lemma find_in_filter:
  assumes "unique_key k t"
  shows "find_row (\<lambda>r. k r = x) (filter p t) = (case find_row (\<lambda>r. k r = x) t of None \<Rightarrow> None | Some r \<Rightarrow> if p r then Some r else None)"
  using assms
proof (induction t)
  case (Cons r t)
  then have "find_row (\<lambda>q. k q = k r) t = None" by (intro find_row_fresh) (simp add: unique_key_def)
  with Cons show ?case by (cases "k r = x") (simp_all add: unique_key_def del: find_row_None)
qed simp

lemma batch_is_single:
  assumes "claims_ok s"
  shows "(case get_approved_overtime_batch m s e of None \<Rightarrow> 0 | Some h \<Rightarrow> h) = get_approved_overtime e m s"
proof -
  let ?cs = "filter (\<lambda>c. oc_month c = m \<and> payable_claim c) (av_claims s)"
  have key: "unique_key claim_key (av_claims s)" using assms by (simp add: claims_ok_def)
  then have "distinct (map claim_key ?cs)" by (simp add: unique_key_def distinct_map_filter)
  then have "distinct (map oc_employee ?cs)" by (auto simp: distinct_map inj_on_def claim_key_def)
  from batch_hours [OF this, of Map.empty e]
  have b: "get_approved_overtime_batch m s e = map_option (\<lambda>c. num (oc_hours c)) (find_row (\<lambda>c. oc_employee c = e) ?cs)"
    by (simp add: get_approved_overtime_batch_def map_option_case cong: option.case_cong)
  have "find_row (\<lambda>c. oc_employee c = e) ?cs = find_row (\<lambda>c. claim_key c = (e, m)) ?cs"
    by (rule find_row_cong) (auto simp: claim_key_def)
  also have "\<dots> = (case find_row (\<lambda>c. claim_key c = (e, m)) (av_claims s) of None \<Rightarrow> None
      | Some c \<Rightarrow> if oc_month c = m \<and> payable_claim c then Some c else None)" by (rule find_in_filter [OF key])
  also have "find_row (\<lambda>c. claim_key c = (e, m)) (av_claims s) = find_row (\<lambda>c. oc_employee c = e \<and> oc_month c = m) (av_claims s)"
    by (rule find_row_cong) (auto simp: claim_key_def)
  finally have f: "find_row (\<lambda>c. oc_employee c = e) ?cs = (case find_row (\<lambda>c. oc_employee c = e \<and> oc_month c = m) (av_claims s) of
    None \<Rightarrow> None | Some c \<Rightarrow> if oc_month c = m \<and> payable_claim c then Some c else None)" .
  show ?thesis
  proof (cases "find_row (\<lambda>c. oc_employee c = e \<and> oc_month c = m) (av_claims s)")
    case (Some c)
    then show ?thesis using find_row_SomeD [OF Some] by (simp add: b f get_approved_overtime_def)
  qed (simp del: find_row_None add: b f get_approved_overtime_def)
qed


section \<open>A claim waiting for HR\<close>

definition sample_claim :: "claim_status \<Rightarrow> claim_row" where
  "sample_claim st = \<lparr>oc_id = ''c1'', oc_employee = ''e1'', oc_month = ''2026-03'', oc_hours = 6, oc_mode = CASH, oc_status = st,
     oc_manager = None, oc_manager_decided = None, oc_hr = None, oc_hr_decided = None, oc_reason = None\<rparr>"

definition claimed :: "claim_status \<Rightarrow> attendance_db" where
  "claimed st = sample_attendance\<lparr>av_claims := [sample_claim st]\<rparr>"

lemma attendance_stepI: "attendance_step\<^sup>*\<^sup>* s (attend op user now s)"
  by (rule r_into_rtranclp) (auto simp: attendance_step_def)

lemma claimed_found: "find_claim (claimed st) ''c1'' = Some (sample_claim st)"
  by (simp add: find_claim_def claimed_def sample_claim_def)

lemma claimed_ok: "claims_ok (claimed st)"
  by (simp add: claims_ok_def claimed_def unique_key_def)

lemma claimed_approved:
  "find_claim (attend (DecideClaim ''c1'' True None) hr_user sample_now (claimed CLAIM_PENDING_HR)) ''c1''
    = Some (hr_decision True hr_user sample_now None (sample_claim CLAIM_PENDING_HR))"
  by (simp add: decide_overtime_claim_def find_claim_def claimed_def sample_claim_def hr_user_def is_admin_def
      set_claim_def notify_att_def hr_decision_def Let_def)

theorem decided_claim_final_witness:
  "find_claim (attend (DecideClaim ''c1'' False None) hr_user sample_now (claimed CLAIM_APPROVED)) ''c1'' = Some (sample_claim CLAIM_APPROVED)"
  by (rule decided_claim_final [OF attendance_stepI claimed_found]) (simp add: decided_claim_def sample_claim_def)

theorem overtime_approval_authority_witness:
  "oc_status (sample_claim CLAIM_PENDING_HR) = CLAIM_PENDING_HR \<and> is_admin hr_user
    \<and> (\<exists>why. DecideClaim ''c1'' True None = DecideClaim ''c1'' True why)"
  by (rule overtime_approval_authority [OF claimed_found _ claimed_approved]) (simp_all add: sample_claim_def hr_decision_def)


end
