(* ===== verification/Regularizations.thy ===== *)
theory Regularizations
  imports AttendanceClaims
begin

text \<open>
  Regularizations over time: a decided request stays as decided, and no employee ever has more open and
  approved requests for a month than the monthly cap.
\<close>

section \<open>Days of one month\<close>

lemma month_of_days:
  assumes "100 \<le> utc_year d"
  shows "month_bounds_of d = (make_day (utc_year d) (utc_month d) 1 * DAY_MS,
     (make_day (utc_year d) (utc_month d) 1 + days_in_month (utc_year d) (utc_month d)) * DAY_MS)"
  using assms make_day_next_month [OF utc_month_bounds, of "utc_year d" d] by (simp add: month_bounds_of_def date_utc_def)

lemma before_midnight: "t < d * DAY_MS \<longleftrightarrow> iso_day t < d"
  using midnight_le_iff [of d t] by (simp add: not_le [symmetric])

text \<open>A day lies in the month of another exactly when the two have the same month.\<close>

lemma same_month:
  assumes y: "100 \<le> utc_year d" and m: "in_month (month_bounds_of d) d'"
  shows "utc_year d' = utc_year d \<and> utc_month d' = utc_month d"
proof -
  let ?y = "utc_year d" and ?m = "utc_month d"
  let ?start = "day_from_year ?y + month_start (leap ?y) ?m"
  have day: "make_day ?y ?m 1 = ?start" using utc_month_bounds [of d] by (simp add: make_day_def Let_def)
  have b: "?start \<le> iso_day d'" "iso_day d' < ?start + days_in_month ?y ?m"
    using m unfolding month_of_days [OF y] in_month_def day by (simp_all add: midnight_le_iff before_midnight)
  note bd = month_start_range [OF utc_month_bounds, of "leap ?y" d]
  have year: "utc_year d' = ?y"
    unfolding utc_year_def [of d'] using b bd
    by (intro year_of_day_eqI) (auto simp: days_in_month_def days_in_year_def)
  moreover have "month_of_day (leap ?y) (day_in_year d') = ?m"
    using b year by (intro month_of_day_eq utc_month_bounds) (auto simp: day_in_year_def days_in_month_def)
  ultimately show ?thesis by (simp add: utc_month_def [of d'])
qed

lemma own_month:
  assumes "100 \<le> utc_year d"
  shows "in_month (month_bounds_of d) d"
proof -
  have day: "make_day (utc_year d) (utc_month d) 1 = day_from_year (utc_year d) + month_start (leap (utc_year d)) (utc_month d)"
    using utc_month_bounds [of d] by (simp add: make_day_def Let_def)
  show ?thesis
    using utc_date_bounds [of d]
    unfolding month_of_days [OF assms] in_month_def day by (simp add: midnight_le_iff before_midnight utc_date_def day_in_year_def)
qed

lemma same_bounds:
  assumes "100 \<le> utc_year d" and "in_month (month_bounds_of d) d'"
  shows "month_bounds_of d' = month_bounds_of d"
  using same_month [OF assms] by (simp add: month_bounds_of_def)

section \<open>What a step does to the requests\<close>

definition unlinked :: "regularization_row \<Rightarrow> regularization_row" where
  "unlinked q = q\<lparr>rg_linked := False\<rparr>"

lemma unlinked_fields:
  assumes "unlinked q' = unlinked q"
  shows "rg_status q' = rg_status q" "rg_id q' = rg_id q" "rg_employee q' = rg_employee q" "rg_date q' = rg_date q"
  using arg_cong [OF assms, of rg_status] arg_cong [OF assms, of rg_id] arg_cong [OF assms, of rg_employee]
    arg_cong [OF assms, of rg_date] by (simp_all add: unlinked_def)

text \<open>A request after a step: the same one, and but for its link unchanged when it was decided.\<close>

definition later_reg :: "regularization_row \<Rightarrow> regularization_row \<Rightarrow> bool" where
  "later_reg q q' \<longleftrightarrow> rg_id q' = rg_id q \<and> rg_employee q' = rg_employee q \<and> rg_date q' = rg_date q
     \<and> (rg_status q = RG_PENDING \<or> unlinked q' = unlinked q)"

definition later_regs :: "regularization_row list \<Rightarrow> regularization_row list \<Rightarrow> bool" where
  "later_regs = list_all2 later_reg"

lemma later_regs_refl [simp]: "later_regs t t"
  by (simp add: later_regs_def later_reg_def list_all2_same)

lemma list_all2_update_right:
  assumes "list_all2 P t u" and "\<And>x y. x \<in> set t \<Longrightarrow> P x y \<Longrightarrow> p y \<Longrightarrow> P x (f y)"
  shows "list_all2 P t (update_rows p f u)"
  using assms by (induction rule: list_all2_induct) auto

lemma pending_only:
  assumes "unique_key rg_id (av_regs s)" and "find_reg s i = Some q" and "rg_status q = RG_PENDING"
    and f: "\<And>x. rg_id (f x) = rg_id x \<and> rg_employee (f x) = rg_employee x \<and> rg_date (f x) = rg_date x"
  shows "later_regs (av_regs s) (av_regs (set_reg i f s))"
proof -
  have q: "q \<in> set (av_regs s)" "rg_id q = i" using assms(2) find_row_SomeD by (fastforce simp: find_reg_def)+
  have only: "x = q" if "x \<in> set (av_regs s)" "rg_id x = i" for x
    using that q assms(1) unique_key_eq [of rg_id "av_regs s" x q] by simp
  have "list_all2 later_reg (av_regs s) (update_rows (\<lambda>q. rg_id q = i) f (av_regs s))"
    unfolding update_rows_def list_all2_map2 list_all2_same using only assms(3) f by (auto simp: later_reg_def)
  then show ?thesis by (simp add: later_regs_def set_reg_def)
qed

lemma cutoff_regs:
  fixes s :: attendance_db
  assumes "unique_key rg_id (av_regs s)"
  shows "later_regs (av_regs s) (av_regs (resolve_cutoff_for_tenant now s))"
proof -
  let ?due = "filter (\<lambda>q. rg_status q = RG_PENDING \<and> rg_date q < utc_midnight now) (av_regs s)"
  have "later_regs (av_regs s) (av_regs (foldl (resolve_request now res) s ?due))" for res
  proof (rule foldl_invariant)
    fix t :: attendance_db and q assume q: "q \<in> set ?due" and t: "later_regs (av_regs s) (av_regs t)"
    have "list_all2 later_reg (av_regs s) (update_rows (\<lambda>x. rg_id x = rg_id q) (\<lambda>x. x\<lparr>rg_status := res, rg_decided := Some now\<rparr>) (av_regs t))"
    proof (rule list_all2_update_right)
      fix x y assume x: "x \<in> set (av_regs s)" "later_reg x y" "rg_id y = rg_id q"
      then have "rg_id x = rg_id q" by (simp add: later_reg_def)
      then have "x = q" using unique_key_eq [OF assms x(1)] q by auto
      then show "later_reg x (y\<lparr>rg_status := res, rg_decided := Some now\<rparr>)" using x q by (auto simp: later_reg_def)
    qed (use t in \<open>simp add: later_regs_def\<close>)
    then show "later_regs (av_regs s) (av_regs (resolve_request now res t q))"
      by (simp add: resolve_request_def later_regs_def set_reg_def Let_def)
  qed simp
  then show ?thesis by (simp add: resolve_cutoff_for_tenant_def Let_def)
qed

lemma approve_regs:
  assumes "unique_key rg_id (av_regs s)" and "approve_regularization i user now s = Inr t"
  shows "later_regs (av_regs s) (av_regs t)"
proof -
  from assms(2) obtain q where "find_reg s i = Some q" "rg_status q = RG_PENDING"
    "av_regs t = av_regs (set_reg i (decide_reg RG_APPROVED user now) s)"
    by (auto simp: approve_regularization_def and_then_Inr_iff decided_notice_def set_reg_def Let_def split: if_splits)
  then show ?thesis using pending_only [OF assms(1), of i q "decide_reg RG_APPROVED user now"] by (simp add: decide_reg_def)
qed

lemma later_regs_trans: "later_regs t u \<Longrightarrow> later_regs u v \<Longrightarrow> later_regs t v"
  unfolding later_regs_def by (rule list_all2_trans [of later_reg later_reg later_reg]) (auto simp: later_reg_def dest: unlinked_fields(1))

lemma later_ids: "later_regs t u \<Longrightarrow> map rg_id u = map rg_id t"
  unfolding later_regs_def by (induction rule: list_all2_induct) (auto simp: later_reg_def)

lemma relink_regs: "later_regs (av_regs s) (av_regs (relink l s))"
  by (simp add: relink_def later_regs_def later_reg_def unlinked_def list_all2_map2 list_all2_same Let_def)

lemma request_regs:
  assumes "request_regularization i dto user now s = Inr t"
  obtains q where "av_regs t = av_regs s @ [q]" "rg_id q = i" "rg_status q = RG_PENDING" "rg_date q = utc_midnight (rd_date dto)"
    "int (length (filter (counted_reg (rg_employee q) (month_bounds_of (rg_date q))) (av_regs s))) < st_monthly_cap (av_settings s)"
proof -
  from assms have "\<exists>q. av_regs t = av_regs s @ [q] \<and> rg_id q = i \<and> rg_status q = RG_PENDING \<and> rg_date q = utc_midnight (rd_date dto)
    \<and> int (length (filter (counted_reg (rg_employee q) (month_bounds_of (rg_date q))) (av_regs s))) < st_monthly_cap (av_settings s)"
    by (auto simp: request_regularization_def and_then_Inr_iff Let_def split: if_split_asm)
  with that show thesis by blast
qed

definition about_regs :: "attendance_op \<Rightarrow> bool" where
  "about_regs op \<longleftrightarrow> (case op of Regularize _ _ \<Rightarrow> True | CancelRegularization _ \<Rightarrow> True | ApproveRegularization _ \<Rightarrow> True
     | RejectRegularization _ \<Rightarrow> True | BulkApprove _ \<Rightarrow> True | CutOff \<Rightarrow> True | Leave _ \<Rightarrow> True | _ \<Rightarrow> False)"

lemma other_ops_keep_regs:
  assumes "\<not> about_regs op"
  shows "av_regs (attend op user now s) = av_regs s"
proof (cases op)
  case (DecideClaim i approve why)
  show ?thesis
    by (auto simp: DecideClaim decide_overtime_claim_def Let_def split: sum.splits option.splits claim_status.splits)
qed (use assms in \<open>auto simp: about_regs_def served_or_def clock_in_def clock_out_def start_break_def end_break_def
    create_overtime_claim_def attach_evidence_def mark_attendance_def
    create_shift_def update_shift_def delete_shift_def update_attendance_config_def and_then_def Let_def
    split: sum.splits option.splits if_splits\<close>)

lemma cancel_regs:
  assumes "unique_key rg_id (av_regs s)" and "cancel_regularization i user s = Inr t"
  shows "later_regs (av_regs s) (av_regs t)"
proof -
  from assms(2) obtain q where "find_reg s i = Some q" "rg_status q = RG_PENDING" "t = set_reg i (\<lambda>q. q\<lparr>rg_status := RG_CANCELLED\<rparr>) s"
    by (auto simp: cancel_regularization_def and_then_Inr_iff split: if_split_asm)
  with pending_only [OF assms(1)] show ?thesis by simp
qed

lemma reject_regs:
  assumes "unique_key rg_id (av_regs s)" and "reject_regularization i user now s = Inr t"
  shows "later_regs (av_regs s) (av_regs t)"
proof -
  from assms(2) obtain q where "find_reg s i = Some q" "rg_status q = RG_PENDING"
    "av_regs t = av_regs (set_reg i (decide_reg RG_REJECTED user now) s)"
    by (auto simp: reject_regularization_def and_then_Inr_iff decided_notice_def set_reg_def set_day_status_def Let_def split: if_split_asm)
  with pending_only [OF assms(1), of i q "decide_reg RG_REJECTED user now"] show ?thesis by (simp add: decide_reg_def)
qed

lemma bulk_regs:
  assumes "unique_key rg_id (av_regs s)"
  shows "later_regs (av_regs s) (av_regs (snd (bulk_approve_regularizations ids user now s)))"
proof -
  have "unique_key rg_id (av_regs t) \<and> later_regs (av_regs s) (av_regs t)"
    if "unique_key rg_id (av_regs u) \<and> later_regs (av_regs s) (av_regs u)" "approve_regularization i user now u = Inr t" for u t i
    using that approve_regs [of u i user now t] later_regs_trans [of "av_regs s" "av_regs u" "av_regs t"] later_ids [of "av_regs u" "av_regs t"]
    by (simp add: unique_key_def)
  then have "unique_key rg_id (av_regs (snd (bulk_approve_regularizations ids user now s)))
    \<and> later_regs (av_regs s) (av_regs (snd (bulk_approve_regularizations ids user now s)))"
    by (rule bulk_preserves [of ids "\<lambda>t. unique_key rg_id (av_regs t) \<and> later_regs (av_regs s) (av_regs t)"]) (simp_all add: assms)
  then show ?thesis by simp
qed

definition adds_request :: "attendance_op \<Rightarrow> auth_user \<Rightarrow> date \<Rightarrow> attendance_db \<Rightarrow> regularization_row \<Rightarrow> bool" where
  "adds_request op user now s q \<longleftrightarrow> av_regs (attend op user now s) = av_regs s @ [q] \<and> rg_id q \<notin> rg_id ` set (av_regs s)
     \<and> rg_status q = RG_PENDING \<and> (\<exists>i dto. op = Regularize i dto \<and> rg_date q = utc_midnight (rd_date dto))
     \<and> int (length (filter (counted_reg (rg_employee q) (month_bounds_of (rg_date q))) (av_regs s))) < st_monthly_cap (av_settings s)"

lemma regularize_regs:
  "av_regs (attend (Regularize i dto) user now s) = av_regs s \<or> (\<exists>q. adds_request (Regularize i dto) user now s q)"
proof (cases "find_reg s i = None")
  case True
  show ?thesis
  proof (cases "request_regularization i dto user now s")
    case (Inr t)
    from request_regs [OF Inr] obtain q where q: "av_regs t = av_regs s @ [q]" "rg_id q = i" "rg_status q = RG_PENDING"
      "rg_date q = utc_midnight (rd_date dto)"
      "int (length (filter (counted_reg (rg_employee q) (month_bounds_of (rg_date q))) (av_regs s))) < st_monthly_cap (av_settings s)" .
    have "rg_id q \<notin> rg_id ` set (av_regs s)" using True q(2) by (auto simp: find_reg_def)
    then have "adds_request (Regularize i dto) user now s q" using True q Inr unfolding adds_request_def by simp
    then show ?thesis by blast
  qed simp
qed auto

text \<open>A step changes no decided request, or adds one new request the cap had room for.\<close>

lemma regs_after:
  assumes "unique_key rg_id (av_regs s)"
  shows "later_regs (av_regs s) (av_regs (attend op user now s)) \<or> (\<exists>q. adds_request op user now s q)"
proof (cases "about_regs op")
  case True
  then show ?thesis
  proof (cases op)
    case (Regularize i dto)
    then show ?thesis using regularize_regs [of i dto user now s] by (elim disjE) simp_all
  next
    case (CancelRegularization i)
    then show ?thesis using cancel_regs [OF assms, of i user] by (cases "cancel_regularization i user s") simp_all
  next
    case (RejectRegularization i)
    then show ?thesis using reject_regs [OF assms, of i user now] by (cases "reject_regularization i user now s") simp_all
  next
    case (ApproveRegularization i)
    then show ?thesis using approve_regs [OF assms, of i user now] by (cases "approve_regularization i user now s") simp_all
  next
    case (BulkApprove ids)
    then show ?thesis using bulk_regs [OF assms] by simp
  next
    case CutOff
    then show ?thesis using cutoff_regs [OF assms] by simp
  next
    case (Leave lop)
    then show ?thesis using relink_regs by (cases "serve lop user now (av_leave s)") simp_all
  qed (use True in \<open>simp_all add: about_regs_def\<close>)
qed (simp add: other_ops_keep_regs)

section \<open>Decided requests\<close>

lemma decided_reg_step:
  assumes "attendance_step s s'" and key: "unique_key rg_id (av_regs s)"
  shows "unique_key rg_id (av_regs s')"
    and "find_reg s i = Some q \<Longrightarrow> rg_status q \<noteq> RG_PENDING \<Longrightarrow> \<exists>q'. find_reg s' i = Some q' \<and> unlinked q' = unlinked q"
proof -
  obtain op user now where s': "s' = attend op user now s" using assms(1) by (auto simp: attendance_step_def)
  consider (later) "later_regs (av_regs s) (av_regs s')" | (new) q where "adds_request op user now s q"
    using regs_after [OF key, of op user now] s' by blast
  then have "unique_key rg_id (av_regs s') \<and> (\<forall>q. find_reg s i = Some q \<and> rg_status q \<noteq> RG_PENDING
    \<longrightarrow> (\<exists>q'. find_reg s' i = Some q' \<and> unlinked q' = unlinked q))"
  proof cases
    case later
    then have "list_all2 later_reg (av_regs s) (av_regs s')" by (simp add: later_regs_def)
    then have "\<forall>q. find_row (\<lambda>q. rg_id q = i) (av_regs s) = Some q \<and> rg_status q \<noteq> RG_PENDING
      \<longrightarrow> (\<exists>q'. find_row (\<lambda>q. rg_id q = i) (av_regs s') = Some q' \<and> unlinked q' = unlinked q)"
      by (induction rule: list_all2_induct) (auto simp: later_reg_def)
    with later_ids [OF later] key show ?thesis by (simp add: unique_key_def find_reg_def)
  next
    case (new q)
    then have "av_regs s' = av_regs s @ [q]" "rg_id q \<notin> rg_id ` set (av_regs s)" by (simp_all add: adds_request_def s')
    with key show ?thesis by (simp add: unique_key_def find_reg_def find_row_append)
  qed
  then show "unique_key rg_id (av_regs s')"
    "find_reg s i = Some q \<Longrightarrow> rg_status q \<noteq> RG_PENDING \<Longrightarrow> \<exists>q'. find_reg s' i = Some q' \<and> unlinked q' = unlinked q" by blast+
qed

text \<open>
  A decided regularization stays as decided: once it is approved, rejected or cancelled, no sequence
  of requests and jobs changes its decision, who took it and when, its day or the times it asks for
  (only the reference to the attendance record can go, with the record).
\<close>

theorem decided_regularization_final:
  assumes "attendance_step\<^sup>*\<^sup>* s s'" and "unique_key rg_id (av_regs s)"
    and "find_reg s i = Some q" and "rg_status q \<noteq> RG_PENDING"
  shows "\<exists>q'. find_reg s' i = Some q' \<and> unlinked q' = unlinked q"
proof -
  from assms have "unique_key rg_id (av_regs s') \<and> (\<exists>q'. find_reg s' i = Some q' \<and> unlinked q' = unlinked q)"
  proof (induction rule: rtranclp_induct)
    case (step t u)
    then obtain r where r: "find_reg t i = Some r" "unlinked r = unlinked q" "unique_key rg_id (av_regs t)" by blast
    with step.prems(3) unlinked_fields(1) [OF r(2)] have "rg_status r \<noteq> RG_PENDING" by simp
    from decided_reg_step(2) [OF step.hyps(2) r(3,1) this] decided_reg_step(1) [OF step.hyps(2) r(3)] r(2) show ?case by auto
  qed simp
  then show ?thesis by blast
qed

section \<open>The monthly cap\<close>

definition month_count :: "id \<Rightarrow> date \<Rightarrow> attendance_db \<Rightarrow> int" where
  "month_count e d s = int (length (filter (counted_reg e (month_bounds_of d)) (av_regs s)))"

definition open_or_approved :: "regularization_row \<Rightarrow> bool" where
  "open_or_approved q \<longleftrightarrow> rg_status q = RG_PENDING \<or> rg_status q = RG_APPROVED"

text \<open>For every open or approved request: its employee's count for its month is within the cap.\<close>

definition within_cap :: "attendance_db \<Rightarrow> bool" where
  "within_cap s \<longleftrightarrow> unique_key rg_id (av_regs s) \<and> (\<forall>q \<in> set (av_regs s). 100 \<le> utc_year (rg_date q)
     \<and> (open_or_approved q \<longrightarrow> month_count (rg_employee q) (rg_date q) s \<le> st_monthly_cap (av_settings s)))"

text \<open>Steps that do not lower the cap; days from the year 100 on.\<close>

definition steady :: "attendance_op \<Rightarrow> attendance_db \<Rightarrow> bool" where
  "steady op s \<longleftrightarrow> (case op of
     Configure p \<Rightarrow> st_monthly_cap (av_settings s) \<le> keep (cp_monthly_cap p) (st_monthly_cap (av_settings s))
   | Regularize i dto \<Rightarrow> 100 \<le> utc_year (utc_midnight (rd_date dto))
   | _ \<Rightarrow> True)"

definition steady_step :: "attendance_db \<Rightarrow> attendance_db \<Rightarrow> bool" where
  "steady_step s s' \<longleftrightarrow> (\<exists>op user now. steady op s \<and> s' = attend op user now s)"

lemma cap_kept:
  assumes "steady op s"
  shows "st_monthly_cap (av_settings s) \<le> st_monthly_cap (av_settings (attend op user now s))"
proof (cases op)
  case (BulkApprove ids)
  then show ?thesis using bulk_preserves [of ids "\<lambda>t. av_settings t = av_settings s" user now s] approve_keeps by auto
next
  case (ApproveRegularization i)
  then show ?thesis using approve_keeps [of i user now s] by (cases "approve_regularization i user now s") auto
next
  case (DecideClaim i approve why)
  have "av_settings (attend op user now s) = av_settings s"
    by (auto simp: DecideClaim decide_overtime_claim_def Let_def split: sum.splits option.splits claim_status.splits)
  then show ?thesis by simp
next
  case (Leave lop)
  then show ?thesis by (cases "serve lop user now (av_leave s)") simp_all
qed (use assms in \<open>auto simp: steady_def served_or_def clock_in_def clock_out_def start_break_def end_break_def
    create_overtime_claim_def request_regularization_def attach_evidence_def cancel_regularization_def reject_regularization_def
    decided_notice_def mark_attendance_def create_shift_def update_shift_def delete_shift_def update_attendance_config_def
    and_then_def Let_def split: sum.splits option.splits if_splits\<close>)

lemma later_counts:
  assumes "later_regs t u"
  shows "length (filter (counted_reg e r) u) \<le> length (filter (counted_reg e r) t)"
  using assms unfolding later_regs_def
proof (induction rule: list_all2_induct)
  case (Cons q t q' u)
  have "counted_reg e r q" if "counted_reg e r q'"
    using that Cons(1) unlinked_fields(1) [of q' q] by (auto simp: later_reg_def counted_reg_def)
  with Cons(3) show ?case by auto
qed simp

lemma within_cap_later:
  assumes ok: "within_cap s" and l: "later_regs (av_regs s) (av_regs s')" and cap: "st_monthly_cap (av_settings s) \<le> st_monthly_cap (av_settings s')"
  shows "within_cap s'"
proof -
  have "100 \<le> utc_year (rg_date q') \<and> (open_or_approved q' \<longrightarrow> month_count (rg_employee q') (rg_date q') s' \<le> st_monthly_cap (av_settings s'))"
    if "q' \<in> set (av_regs s')" for q'
  proof -
    from that have "\<exists>i < length (av_regs s'). av_regs s' ! i = q'" by (simp only: in_set_conv_nth)
    then obtain i where i: "i < length (av_regs s')" "av_regs s' ! i = q'" by blast
    define q where "q = av_regs s ! i"
    have q: "q \<in> set (av_regs s)" "later_reg q q'"
      using l i unfolding later_regs_def q_def by (auto simp: list_all2_conv_all_nth)
    have "open_or_approved q" if "open_or_approved q'"
      using that q(2) unlinked_fields(1) [of q' q] by (auto simp: later_reg_def open_or_approved_def)
    moreover have "month_count e d s' \<le> month_count e d s" for e d using later_counts [OF l] by (simp add: month_count_def)
    ultimately show ?thesis using ok q cap unfolding within_cap_def later_reg_def by (metis order_trans)
  qed
  with ok later_ids [OF l] show ?thesis by (simp add: within_cap_def unique_key_def)
qed

lemma within_cap_added:
  assumes ok: "within_cap s" and a: "adds_request op user now s q" and st: "steady op s"
  shows "within_cap (attend op user now s)"
proof -
  let ?s' = "attend op user now s"
  have regs: "av_regs ?s' = av_regs s @ [q]" "rg_id q \<notin> rg_id ` set (av_regs s)" and y: "100 \<le> utc_year (rg_date q)"
    and room: "month_count (rg_employee q) (rg_date q) s < st_monthly_cap (av_settings s)"
    using a st by (auto simp: adds_request_def steady_def month_count_def)
  note cap = cap_kept [OF st, of user now]
  have count: "month_count e d ?s' = month_count e d s + (if counted_reg e (month_bounds_of d) q then 1 else 0)" for e d
    by (simp add: month_count_def regs(1))
  have "month_count (rg_employee p) (rg_date p) ?s' \<le> st_monthly_cap (av_settings ?s')"
    if p: "p \<in> set (av_regs s)" "open_or_approved p" for p
  proof (cases "counted_reg (rg_employee p) (month_bounds_of (rg_date p)) q")
    case True
    then have "rg_employee q = rg_employee p" "month_bounds_of (rg_date q) = month_bounds_of (rg_date p)"
      using same_bounds [of "rg_date p" "rg_date q"] ok p by (auto simp: counted_reg_def within_cap_def)
    then have "month_count (rg_employee p) (rg_date p) s = month_count (rg_employee q) (rg_date q) s" by (simp add: month_count_def)
    with room cap True show ?thesis by (simp add: count)
  next
    case False
    then show ?thesis using ok p cap by (fastforce simp: count within_cap_def)
  qed
  moreover have "month_count (rg_employee q) (rg_date q) ?s' \<le> st_monthly_cap (av_settings ?s')" using room cap by (simp add: count)
  ultimately show ?thesis
    using ok regs y by (auto simp: within_cap_def unique_key_def)
qed

text \<open>
  C15. The monthly cap holds: as long as the cap is not lowered, no sequence of requests, approvals in
  bulk and jobs gives an employee more open and approved regularizations for a month than the cap.
\<close>

theorem regularizations_within_cap:
  assumes "steady_step\<^sup>*\<^sup>* s s'" and "within_cap s"
  shows "within_cap s'"
  using assms
proof (induction rule: rtranclp_induct)
  case (step t u)
  then have ok: "within_cap t" by blast
  obtain op user now where op: "steady op t" "u = attend op user now t" using step.hyps(2) by (auto simp: steady_step_def)
  have key: "unique_key rg_id (av_regs t)" using ok by (simp add: within_cap_def)
  from regs_after [OF key, of op user now] show ?case
    using within_cap_later [OF ok _ cap_kept [OF op(1)]] within_cap_added [OF ok _ op(1)] op(2) by blast
qed

section \<open>A request of one employee\<close>

definition sample_reg :: "regularization_status \<Rightarrow> regularization_row" where
  "sample_reg st = \<lparr>rg_id = ''g1'', rg_employee = ''e1'', rg_linked = False, rg_date = sample_day, rg_reason = FORGOT_TO_CLOCK_IN,
     rg_check_in = None, rg_check_out = None, rg_status = st, rg_approver = None, rg_decided = None\<rparr>"

definition disputed :: "regularization_status \<Rightarrow> attendance_db" where
  "disputed st = sample_attendance\<lparr>av_regs := [sample_reg st]\<rparr>"

lemma disputed_key: "unique_key rg_id (av_regs (disputed st))"
  by (simp add: disputed_def unique_key_def)

theorem decided_regularization_final_witness:
  "\<exists>q'. find_reg (attend (ApproveRegularization ''g1'') hr_user sample_now (disputed RG_REJECTED)) ''g1'' = Some q'
    \<and> unlinked q' = unlinked (sample_reg RG_REJECTED)"
  by (rule decided_regularization_final [OF attendance_stepI disputed_key])
    (simp_all add: find_reg_def disputed_def sample_reg_def)

lemma disputed_within_cap: "within_cap (disputed RG_PENDING)"
proof -
  have y: "100 \<le> utc_year sample_day" unfolding sample_day_def using utc_readers [of 2026 3 13] by (simp add: days_in_month_def month_start_def)
  have "month_count ''e1'' sample_day (disputed RG_PENDING) \<le> 1" by (simp add: month_count_def disputed_def)
  with y show ?thesis by (simp add: within_cap_def disputed_key) (simp add: disputed_def sample_reg_def sample_attendance_def)
qed

theorem regularizations_within_cap_witness:
  "within_cap (attend (ApproveRegularization ''g1'') hr_user sample_now (disputed RG_PENDING))"
proof (rule regularizations_within_cap [OF _ disputed_within_cap])
  show "steady_step\<^sup>*\<^sup>* (disputed RG_PENDING) (attend (ApproveRegularization ''g1'') hr_user sample_now (disputed RG_PENDING))"
    unfolding steady_step_def
    by (rule r_into_rtranclp, rule exI [of _ "ApproveRegularization ''g1''"], rule exI [of _ hr_user], rule exI [of _ sample_now])
      (simp add: steady_def)
qed

end
