(* ===== verification/AttendanceGaps.thy ===== *)
theory AttendanceGaps
  imports Regularizations
begin

text \<open>
  Where the attendance code and what it is for part: days lost or kept by regularizations and the
  nightly job, the default shift, and an approval that fails half-way.
\<close>

section \<open>Days and their requests\<close>

text \<open>
  Cancelling a request leaves its day as it is: a record that waits for the request goes on waiting, the
  nightly job passes over it, and the absence is never counted.
\<close>

lemma cancelled_day_keeps_waiting:
  assumes "cancel_regularization i user s = Inr t" and "find_record e d s = Some r" and "at_status r = AT_PENDING_REGULARIZATION"
  shows "find_record e d t = Some r" and "finalized_day d t e = r"
proof -
  have "av_leave t = av_leave s"
    using assms(1) by (auto simp: cancel_regularization_def and_then_Inr_iff set_reg_def split: if_split_asm)
  then show "find_record e d t = Some r" using assms(2) by (simp add: find_record_def records_def)
  then show "finalized_day d t e = r" using assms(3) by (simp add: finalized_day_def has_outcome_def Let_def)
qed

text \<open>
  Rejecting a request does not leave the day as it stood: it gets the status of a day nobody came,
  whatever it was when the request was raised, its times kept.
\<close>

lemma rejected_day_is_reset:
  assumes "reject_regularization i user now s = Inr t" and "find_reg s i = Some q" and "rg_linked q"
    and "find_record (rg_employee q) (rg_date q) s = Some r"
  shows "find_record (rg_employee q) (rg_date q) t
    = Some (r\<lparr>at_status := base_status_for (rg_date q) (company_holiday (rg_date q) s) (weekly_offs s)\<rparr>)"
proof -
  let ?e = "rg_employee q" and ?d = "rg_date q"
  have "records t = update_rows (day_key ?e ?d) (\<lambda>r. r\<lparr>at_status := base_status_for ?d (company_holiday ?d s) (weekly_offs s)\<rparr>) (records s)"
    using assms(1-3)
    by (auto simp: reject_regularization_def and_then_Inr_iff decided_notice_def notify_att_def leave_notify_def audit_att_def
        set_reg_def set_day_status_def set_records_def records_def Let_def split: if_split_asm)
  then show ?thesis
    using assms(4) find_row_update_same [of "day_key ?e ?d" "\<lambda>r. r\<lparr>at_status := base_status_for ?d (company_holiday ?d s) (weekly_offs s)\<rparr>" "records s"]
    by (simp add: find_record_def day_key_def)
qed

text \<open>
  A day HR marked present without times does not survive the nightly job: it becomes an absence, and
  loss of pay.
\<close>

lemma marked_day_overwritten:
  assumes "find_record e d s = Some r" and "at_status r = AT_PRESENT" and "at_check_in r = None"
    and "punches_on e d s = []" and "company_holiday d s = None" and "utc_day d \<notin> set (weekly_offs s)"
  shows "at_status (finalized_day d s e) = AT_ABSENT"
  using assms by (simp add: finalized_day_def has_outcome_def base_status_for_def Let_def)

section \<open>The default shift\<close>

text \<open>The default shift cannot be deleted, but it can be made an ordinary one: nobody without a shift can clock in then.\<close>

lemma default_shift_removed:
  fixes dto :: shift_dto
  assumes "sd_name dto = None" and "sd_default dto = Some False"
  shows "default_shift (snd (update_shift ''s1'' dto sample_attendance)) = None"
    and "clock_in employee_user sample_now (snd (update_shift ''s1'' dto sample_attendance)) = Inl (BadRequest NoDefaultShift)"
proof -
  let ?s = "sample_attendance\<lparr>av_shifts := [set_shift dto sample_shift]\<rparr>"
  have upd: "snd (update_shift ''s1'' dto sample_attendance) = ?s"
    using assms by (simp add: update_shift_def shift_name_taken_def sample_attendance_def sample_shift_def set_shift_def keep_def)
  have none: "default_shift ?s = None" using assms by (simp add: default_shift_def set_shift_def keep_def)
  then show "default_shift (snd (update_shift ''s1'' dto sample_attendance)) = None" by (simp only: upd)
  have "shift_of ?s e = None" for e by (simp add: shift_of_def sample_attendance_def)
  moreover have "find_record ''e1'' d ?s = None" for d by (simp add: find_record_def records_def day_key_def sample_attendance_def)
  ultimately show "clock_in employee_user sample_now (snd (update_shift ''s1'' dto sample_attendance)) = Inl (BadRequest NoDefaultShift)"
    unfolding upd by (simp add: clock_in_def require_employee_def employee_user_def clocked_in_def resolve_shift_def none Let_def)
qed

section \<open>An approval that fails half-way\<close>

text \<open>
  The last approval of a claim for comp-off is stored before the shift is looked up: without a shift the
  request fails, the claim is approved for good, and no comp-off is credited.
\<close>

lemma approved_without_credit:
  assumes "find_claim s i = Some c" and "oc_status c = CLAIM_PENDING_HR" and "oc_mode c = COMP_OFF" and "is_admin user"
    and "shift_of s (oc_employee c) = None" and "default_shift s = None"
  shows "decide_overtime_claim i True user why now s
    = (Some (BadRequest NoDefaultShift), set_claim i (hr_decision True user now why) s)"
proof -
  have "get_shift_hours (oc_employee c) (set_claim i (hr_decision True user now why) s) = Inl (BadRequest NoDefaultShift)"
  proof -
    have "shift_of (set_claim i f s) e = shift_of s e" "default_shift (set_claim i f s) = default_shift s" for f e
      by (simp_all add: shift_of_def default_shift_def set_claim_def cong: option.case_cong)
    then show ?thesis using assms(5,6) by (simp add: get_shift_hours_def resolve_shift_def del: find_row_None)
  qed
  with assms show ?thesis by (simp add: decide_overtime_claim_def Let_def)
qed

end
