(* ===== verification/Platform.thy ===== *)
theory Platform
  imports LeaveConfig Imports
begin

text \<open>
  The operator's side: plans (\<open>platform-admin/plans.service.ts\<close>, \<open>entitlements.ts\<close>), tenants, trials,
  subscriptions and support access (\<open>platform-admin.service.ts\<close>, \<open>platform-scheduled-jobs.processor.ts\<close>)
  and billing (\<open>billing/billing.service.ts\<close>). The payment provider is a record of functions: what its
  two calls answer, its signature check and the events it sends. Writes of the audit log, which the
  code lets fail silently, are taken to succeed. Local time is UTC.
\<close>

section \<open>Plans and entitlements\<close>

datatype tenant_status = TENANT_ACTIVE | TENANT_SUSPENDED | TENANT_TRIAL | TENANT_READ_ONLY
datatype sold_plan = STARTER | GROWTH | ENTERPRISE
datatype isolation_tier = POOLED | DEDICATED

type_synonym features = "(string \<times> bool) list"

record plan_row =
  pl_key :: sold_plan
  pl_name :: string
  pl_list_price :: decimal
  pl_currency :: string
  pl_seats :: int
  pl_modules :: "string list"
  pl_features :: features
  pl_isolation :: isolation_tier
  pl_sort :: int

definition all_features :: "bool \<Rightarrow> features" where
  "all_features b = [(''biometricIntegration'', b), (''customRoles'', b), (''apiAccess'', b)]"

fun entitlements_for_plan :: "sold_plan \<Rightarrow> string list \<times> features" where
  "entitlements_for_plan STARTER = ([''CORE_HR'', ''LEAVE''], all_features False)"
| "entitlements_for_plan GROWTH = ([''CORE_HR'', ''LEAVE'', ''ATTENDANCE'', ''PAYROLL''], all_features False)"
| "entitlements_for_plan ENTERPRISE = ([''CORE_HR'', ''LEAVE'', ''ATTENDANCE'', ''PAYROLL'', ''COMPLIANCE''], all_features True)"

fun default_seats :: "sold_plan \<Rightarrow> int" where
  "default_seats STARTER = 50"
| "default_seats GROWTH = 200"
| "default_seats ENTERPRISE = 500"

fun plan_title :: "sold_plan \<Rightarrow> string" where
  "plan_title STARTER = ''Starter''"
| "plan_title GROWTH = ''Growth''"
| "plan_title ENTERPRISE = ''Enterprise''"

section \<open>Tables\<close>

record tenant_row =
  tn_id :: id
  tn_name :: string
  tn_subdomain :: string
  tn_status :: tenant_status
  tn_headcount :: int

record subscription_row =
  sb_tenant :: id
  sb_plan :: sold_plan
  sb_seats :: int
  sb_renews :: "date option"
  sb_trial_ends :: "date option"
  sb_provider :: "id option"
  sb_grace_ends :: "date option"
  sb_price :: "decimal option"
  sb_isolation :: isolation_tier
  sb_modules :: "string list"
  sb_features :: features

record payment_row =
  pm_tenant :: id
  pm_provider :: id
  pm_subscription :: id
  pm_amount :: decimal
  pm_currency :: string
  pm_paid_at :: date
  pm_period_end :: "date option"

record billing_event_row =
  be_id :: string
  be_type :: string
  be_tenant :: id

datatype grant_status = GRANT_ACTIVE | GRANT_REVOKED | GRANT_EXPIRED

record grant_row =
  gr_id :: id
  gr_tenant :: id
  gr_by :: string
  gr_reason :: string
  gr_status :: grant_status
  gr_granted :: date
  gr_expires :: date
  gr_revoked :: "(date \<times> string) option"

record platform_db =
  pf_plans :: "plan_row table"
  pf_tenants :: "tenant_row table"
  pf_subs :: "subscription_row table"
  pf_payments :: "payment_row table"
  pf_events :: "billing_event_row table"
  pf_grants :: "grant_row table"
  pf_notify :: "string list"
  pf_audit :: "(string \<times> string \<times> id) list"

datatype platform_msg =
    SubdomainTaken
  | TenantNotFound
  | NoSubscription
  | AlreadyPaid
  | IsSuspended
  | TrialEndNotFuture
  | SamePlan
  | NothingToChange
  | SameTerms
  | UnknownPlan
  | NoPlatformRow
  | GrantExists
  | GrantNotFound
  | GrantNotActive
  | HasProviderSubscription
  | NoPrice
  | ProviderFailed
  | NoWebhookSecret
  | BadSignature
  | MalformedBody
  | PaymentExists
  | LoginFailed

type_synonym 'a platform_answer = "(platform_msg exn, 'a) result"

definition find_tenant :: "platform_db \<Rightarrow> id \<Rightarrow> tenant_row option" where
  "find_tenant s t = find_row (\<lambda>r. tn_id r = t) (pf_tenants s)"

definition find_sub :: "platform_db \<Rightarrow> id \<Rightarrow> subscription_row option" where
  "find_sub s t = find_row (\<lambda>r. sb_tenant r = t) (pf_subs s)"

definition set_status :: "id \<Rightarrow> tenant_status \<Rightarrow> platform_db \<Rightarrow> platform_db" where
  "set_status t st s = s\<lparr>pf_tenants := update_rows (\<lambda>r. tn_id r = t) (\<lambda>r. r\<lparr>tn_status := st\<rparr>) (pf_tenants s)\<rparr>"

definition set_sub :: "id \<Rightarrow> (subscription_row \<Rightarrow> subscription_row) \<Rightarrow> platform_db \<Rightarrow> platform_db" where
  "set_sub t f s = s\<lparr>pf_subs := update_rows (\<lambda>r. sb_tenant r = t) f (pf_subs s)\<rparr>"

definition audit_op :: "string \<Rightarrow> string \<Rightarrow> id \<Rightarrow> platform_db \<Rightarrow> platform_db" where
  "audit_op actor action target s = s\<lparr>pf_audit := pf_audit s @ [(actor, action, target)]\<rparr>"

text \<open>A price column is \<open>numeric(12, 2)\<close>.\<close>

definition price_col :: "number \<Rightarrow> decimal" where
  "price_col x = half_up_places 2 (of_number x)"

section \<open>The plan catalogue\<close>

definition get_plan :: "sold_plan \<Rightarrow> platform_db \<Rightarrow> plan_row" where
  "get_plan k s =
     (case find_row (\<lambda>p. pl_key p = k) (pf_plans s) of
        Some p \<Rightarrow> p
      | None \<Rightarrow> \<lparr>pl_key = k, pl_name = plan_title k, pl_list_price = 0, pl_currency = ''INR'', pl_seats = default_seats k,
          pl_modules = fst (entitlements_for_plan k), pl_features = snd (entitlements_for_plan k), pl_isolation = POOLED, pl_sort = 0\<rparr>)"

definition list_plans :: "platform_db \<Rightarrow> plan_row list" where
  "list_plans s = sort_key pl_sort (pf_plans s)"

definition list_with_counts :: "platform_db \<Rightarrow> (plan_row \<times> nat) list" where
  "list_with_counts s = map (\<lambda>p. (p, length (filter (\<lambda>b. sb_plan b = pl_key p) (pf_subs s)))) (list_plans s)"

record plan_patch =
  pp_name :: "string option"
  pp_list_price :: "number option"
  pp_currency :: "string option"
  pp_seats :: "int option"
  pp_modules :: "string list option"
  pp_features :: "features option"
  pp_isolation :: "isolation_tier option"

definition update_plan :: "sold_plan \<Rightarrow> plan_patch \<Rightarrow> string \<Rightarrow> platform_db \<Rightarrow> platform_db platform_answer" where
  "update_plan k p actor s =
     (if find_row (\<lambda>r. pl_key r = k) (pf_plans s) = None then Inl (NotFound UnknownPlan)
      else Inr (audit_op actor ''plan.updated'' (plan_title k)
        (s\<lparr>pf_plans := update_rows (\<lambda>r. pl_key r = k) (\<lambda>r. r\<lparr>pl_name := keep (pp_name p) (pl_name r),
           pl_list_price := keep (map_option price_col (pp_list_price p)) (pl_list_price r),
           pl_currency := keep (pp_currency p) (pl_currency r), pl_seats := keep (pp_seats p) (pl_seats r),
           pl_modules := keep (pp_modules p) (pl_modules r), pl_features := keep (pp_features p) (pl_features r),
           pl_isolation := keep (pp_isolation p) (pl_isolation r)\<rparr>) (pf_plans s)\<rparr>)))"

record snapshot =
  sn_plan :: sold_plan
  sn_seats :: int
  sn_modules :: "string list"
  sn_features :: features
  sn_price :: decimal
  sn_isolation :: isolation_tier

definition snapshot_for :: "sold_plan \<Rightarrow> int option \<Rightarrow> number option \<Rightarrow> platform_db \<Rightarrow> snapshot" where
  "snapshot_for k seats price s =
     (let p = get_plan k s
      in \<lparr>sn_plan = k, sn_seats = keep seats (pl_seats p), sn_modules = pl_modules p, sn_features = pl_features p,
          sn_price = (case price of None \<Rightarrow> pl_list_price p | Some x \<Rightarrow> price_col x), sn_isolation = pl_isolation p\<rparr>)"

section \<open>Tenants\<close>

definition list_tenants :: "platform_db \<Rightarrow> (tenant_row \<times> subscription_row option) list" where
  "list_tenants s = rev (map (\<lambda>t. (t, find_sub s (tn_id t))) (pf_tenants s))"

definition update_tenant_status :: "id \<Rightarrow> tenant_status \<Rightarrow> string \<Rightarrow> platform_db \<Rightarrow> platform_db platform_answer" where
  "update_tenant_status t st actor s =
     (case find_tenant s t of
        None \<Rightarrow> Inl (BadRequest TenantNotFound)
      | Some r \<Rightarrow> Inr (if tn_status r \<noteq> st then audit_op actor ''tenant.status_changed'' t (set_status t st s) else set_status t st s))"

record create_dto =
  ct_name :: string
  ct_subdomain :: string
  ct_plan :: "sold_plan option"
  ct_seats :: "int option"
  ct_price :: "number option"
  ct_trial_days :: "int option"

definition DEFAULT_TRIAL_DAYS :: int where "DEFAULT_TRIAL_DAYS = 7"

text \<open>
  The sign-in service and the tenant's own database decide whether provisioning succeeds; when it
  does not, the tenant and its subscription are deleted again. The headcount is read from the tenant's
  database.
\<close>

definition create_tenant :: "id \<Rightarrow> create_dto \<Rightarrow> bool \<Rightarrow> int \<Rightarrow> string \<Rightarrow> date \<Rightarrow> platform_db \<Rightarrow> platform_db platform_answer" where
  "create_tenant t dto provisioned headcount actor now s =
     (let sd = trim (to_lower (ct_subdomain dto))
      in if \<exists>r \<in> set (pf_tenants s). tn_subdomain r = sd then Inl (Conflict SubdomainTaken)
         else let plan = keep (ct_plan dto) STARTER;
                  snap = snapshot_for plan (ct_seats dto) (ct_price dto) s;
                  trial_ends = now + keep (ct_trial_days dto) DEFAULT_TRIAL_DAYS * DAY_MS
              in if \<not> provisioned then Inl (Crash LoginFailed)
                 else Inr (audit_op actor ''tenant.created'' t
                   (s\<lparr>pf_tenants := pf_tenants s @ [\<lparr>tn_id = t, tn_name = ct_name dto, tn_subdomain = sd,
                        tn_status = TENANT_TRIAL, tn_headcount = headcount\<rparr>],
                      pf_subs := pf_subs s @ [\<lparr>sb_tenant = t, sb_plan = sn_plan snap, sb_seats = sn_seats snap, sb_renews = None,
                        sb_trial_ends = Some trial_ends, sb_provider = None, sb_grace_ends = None, sb_price = Some (sn_price snap),
                        sb_isolation = sn_isolation snap, sb_modules = sn_modules snap, sb_features = sn_features snap\<rparr>]\<rparr>)))"

section \<open>Trials and plans of a tenant\<close>

definition set_trial_end :: "id \<Rightarrow> date \<Rightarrow> string \<Rightarrow> date \<Rightarrow> platform_db \<Rightarrow> platform_db platform_answer" where
  "set_trial_end t ends actor now s =
     (case (find_tenant s t, find_sub s t) of
        (None, _) \<Rightarrow> Inl (BadRequest TenantNotFound)
      | (Some _, None) \<Rightarrow> Inl (BadRequest NoSubscription)
      | (Some r, Some b) \<Rightarrow>
          if tn_status r = TENANT_ACTIVE then Inl (BadRequest AlreadyPaid)
          else if tn_status r = TENANT_SUSPENDED then Inl (BadRequest IsSuspended)
          else if ends \<le> now then Inl (BadRequest TrialEndNotFuture)
          else let s1 = set_sub t (\<lambda>b. b\<lparr>sb_trial_ends := Some ends\<rparr>) s
               in Inr (audit_op actor ''tenant.trial_updated'' t
                 (if tn_status r = TENANT_READ_ONLY then set_status t TENANT_TRIAL s1 else s1)))"

definition take_snapshot :: "snapshot \<Rightarrow> subscription_row \<Rightarrow> subscription_row" where
  "take_snapshot n b = b\<lparr>sb_seats := sn_seats n, sb_modules := sn_modules n, sb_features := sn_features n,
     sb_price := Some (sn_price n), sb_isolation := sn_isolation n\<rparr>"

definition change_tenant_plan :: "id \<Rightarrow> sold_plan \<Rightarrow> string \<Rightarrow> platform_db \<Rightarrow> platform_db platform_answer" where
  "change_tenant_plan t plan actor s =
     (case find_sub s t of
        None \<Rightarrow> Inl (BadRequest NoSubscription)
      | Some b \<Rightarrow>
          if sb_plan b = plan then Inl (BadRequest SamePlan)
          else Inr (audit_op actor ''tenant.plan_changed'' t
            (set_sub t (\<lambda>b. (take_snapshot (snapshot_for plan None None s) b)\<lparr>sb_plan := plan\<rparr>) s)))"

text \<open>The same day and time a year later; 29 February becomes 1 March.\<close>

definition next_year :: "date \<Rightarrow> date" where
  "next_year t = date_utc (utc_year t + 1) (utc_month t) (utc_date t) + t mod DAY_MS"

definition convert_tenant :: "id \<Rightarrow> sold_plan \<Rightarrow> string \<Rightarrow> date \<Rightarrow> platform_db \<Rightarrow> platform_db platform_answer" where
  "convert_tenant t plan actor now s =
     (case (find_tenant s t, find_sub s t) of
        (None, _) \<Rightarrow> Inl (BadRequest TenantNotFound)
      | (Some _, None) \<Rightarrow> Inl (BadRequest NoSubscription)
      | (Some r, Some b) \<Rightarrow>
          if tn_status r = TENANT_ACTIVE then Inl (BadRequest AlreadyPaid)
          else if tn_status r = TENANT_SUSPENDED then Inl (BadRequest IsSuspended)
          else and_then (if sb_plan b \<noteq> plan then change_tenant_plan t plan actor s else Inr s) (\<lambda>s1.
            Inr (audit_op actor ''tenant.converted'' t
              (set_sub t (\<lambda>b. b\<lparr>sb_trial_ends := None, sb_renews := Some (next_year now)\<rparr>) (set_status t TENANT_ACTIVE s1)))))"

text \<open>\<open>lte\<close> on a column: a null never matches.\<close>

definition due :: "date option \<Rightarrow> date \<Rightarrow> bool" where
  "due d now \<longleftrightarrow> (case d of None \<Rightarrow> False | Some t \<Rightarrow> t \<le> now)"

definition expired_trials :: "date \<Rightarrow> platform_db \<Rightarrow> id list" where
  "expired_trials now s = map tn_id (filter (\<lambda>r. tn_status r = TENANT_TRIAL
     \<and> (case find_sub s (tn_id r) of None \<Rightarrow> False | Some b \<Rightarrow> due (sb_trial_ends b) now)) (pf_tenants s))"

definition make_read_only :: "string \<Rightarrow> string \<Rightarrow> platform_db \<Rightarrow> id \<Rightarrow> platform_db" where
  "make_read_only actor action s t = audit_op actor action t (set_status t TENANT_READ_ONLY s)"

definition expire_trials :: "date \<Rightarrow> platform_db \<Rightarrow> platform_db" where
  "expire_trials now s = foldl (make_read_only ''system:trial-expiry'' ''tenant.trial_expired'') s (expired_trials now s)"

section \<open>Renewals and prices\<close>

definition renew_subscription :: "id \<Rightarrow> string \<Rightarrow> date \<Rightarrow> platform_db \<Rightarrow> platform_db platform_answer" where
  "renew_subscription t actor now s =
     (case find_sub s t of
        None \<Rightarrow> Inl (BadRequest NoSubscription)
      | Some b \<Rightarrow>
          let snap = snapshot_for (sb_plan b) (Some (sb_seats b)) (map_option num (sb_price b)) s;
              renews = next_year (case sb_renews b of None \<Rightarrow> now | Some d \<Rightarrow> d)
          in Inr (audit_op actor ''subscription.renewed'' t
               (set_sub t (\<lambda>b. (take_snapshot snap b)\<lparr>sb_renews := Some renews\<rparr>) s)))"

definition renewals_due :: "date \<Rightarrow> platform_db \<Rightarrow> id list" where
  "renewals_due now s = map sb_tenant (filter (\<lambda>b. due (sb_renews b) now) (pf_subs s))"

definition run_renewals :: "date \<Rightarrow> platform_db \<Rightarrow> platform_db" where
  "run_renewals now s = foldl (\<lambda>s t. case renew_subscription t ''system:scheduled-renewal'' now s of Inl _ \<Rightarrow> s | Inr s' \<Rightarrow> s')
     s (renewals_due now s)"

definition adjust_pricing :: "id \<Rightarrow> number option \<Rightarrow> int option \<Rightarrow> string \<Rightarrow> platform_db \<Rightarrow> platform_db platform_answer" where
  "adjust_pricing t price seats actor s =
     (case find_sub s t of
        None \<Rightarrow> Inl (BadRequest NoSubscription)
      | Some b \<Rightarrow>
          let rate_from = map_option num (sb_price b);
              rate_to = (case price of Some x \<Rightarrow> x | None \<Rightarrow> (case rate_from of Some x \<Rightarrow> x | None \<Rightarrow> 0));
              seats_to = keep seats (sb_seats b)
          in if price = None \<and> seats = None then Inl (BadRequest NothingToChange)
             else if rate_from = Some rate_to \<and> seats_to = sb_seats b then Inl (BadRequest SameTerms)
             else Inr (audit_op actor ''subscription.price_adjusted'' t
               (set_sub t (\<lambda>b. b\<lparr>sb_price := Some (price_col rate_to), sb_seats := seats_to\<rparr>) s)))"

definition refresh_headcount :: "id \<Rightarrow> int \<Rightarrow> string \<Rightarrow> platform_db \<Rightarrow> platform_db platform_answer" where
  "refresh_headcount t counted actor s =
     (case find_tenant s t of
        None \<Rightarrow> Inl (NotFound TenantNotFound)
      | Some r \<Rightarrow>
          let s1 = s\<lparr>pf_tenants := update_rows (\<lambda>r. tn_id r = t) (\<lambda>r. r\<lparr>tn_headcount := counted\<rparr>) (pf_tenants s)\<rparr>
          in Inr (if counted \<noteq> tn_headcount r then audit_op actor ''headcount.refreshed'' t s1 else s1))"

section \<open>Support access\<close>

definition live_grant :: "id \<Rightarrow> date \<Rightarrow> grant_row \<Rightarrow> bool" where
  "live_grant t now g \<longleftrightarrow> gr_tenant g = t \<and> gr_status g = GRANT_ACTIVE \<and> now < gr_expires g"

definition request_break_glass :: "id \<Rightarrow> id \<Rightarrow> string \<Rightarrow> int \<Rightarrow> string \<Rightarrow> date \<Rightarrow> platform_db \<Rightarrow> platform_db platform_answer" where
  "request_break_glass i t reason ttl actor now s =
     (if find_tenant s t = None then Inl (NotFound TenantNotFound)
      else if find_row (live_grant t now) (pf_grants s) \<noteq> None then Inl (Conflict GrantExists)
      else Inr (audit_op actor ''breakglass.requested'' t
        (s\<lparr>pf_grants := pf_grants s @ [\<lparr>gr_id = i, gr_tenant = t, gr_by = actor, gr_reason = reason, gr_status = GRANT_ACTIVE,
           gr_granted = now, gr_expires = now + ttl * 60000, gr_revoked = None\<rparr>]\<rparr>)))"

definition get_active_break_glass :: "id \<Rightarrow> date \<Rightarrow> platform_db \<Rightarrow> grant_row option" where
  "get_active_break_glass t now s = find_row (live_grant t now) (rev (sort_key gr_granted (pf_grants s)))"

definition set_grant :: "id \<Rightarrow> (grant_row \<Rightarrow> grant_row) \<Rightarrow> platform_db \<Rightarrow> platform_db" where
  "set_grant i f s = s\<lparr>pf_grants := update_rows (\<lambda>g. gr_id g = i) f (pf_grants s)\<rparr>"

definition revoke_break_glass :: "id \<Rightarrow> id \<Rightarrow> string \<Rightarrow> date \<Rightarrow> platform_db \<Rightarrow> platform_db platform_answer" where
  "revoke_break_glass t i actor now s =
     (case find_row (\<lambda>g. gr_id g = i) (pf_grants s) of
        None \<Rightarrow> Inl (NotFound GrantNotFound)
      | Some g \<Rightarrow>
          if gr_tenant g \<noteq> t then Inl (NotFound GrantNotFound)
          else if gr_status g \<noteq> GRANT_ACTIVE then Inl (BadRequest GrantNotActive)
          else Inr (audit_op actor ''breakglass.revoked'' t
            (set_grant i (\<lambda>g. g\<lparr>gr_status := GRANT_REVOKED, gr_revoked := Some (now, actor)\<rparr>) s)))"

definition expire_grant :: "platform_db \<Rightarrow> grant_row \<Rightarrow> platform_db" where
  "expire_grant s g = audit_op ''system:breakglass-expiry'' ''breakglass.expired'' (gr_tenant g)
     (set_grant (gr_id g) (\<lambda>g. g\<lparr>gr_status := GRANT_EXPIRED\<rparr>) s)"

definition expire_overdue_break_glass_grants :: "date \<Rightarrow> platform_db \<Rightarrow> platform_db" where
  "expire_overdue_break_glass_grants now s =
     foldl expire_grant s (filter (\<lambda>g. gr_status g = GRANT_ACTIVE \<and> gr_expires g \<le> now) (pf_grants s))"

definition get_notify_emails :: "platform_db \<Rightarrow> string list" where
  "get_notify_emails s = pf_notify s"

definition update_notify_emails :: "string list \<Rightarrow> string \<Rightarrow> platform_db \<Rightarrow> platform_db" where
  "update_notify_emails emails actor s = audit_op actor ''platform_settings.updated'' ''singleton'' (s\<lparr>pf_notify := emails\<rparr>)"

section \<open>Billing\<close>

record provider_payment =
  rp_id :: id
  rp_paise :: int
  rp_currency :: "string option"
  rp_created :: "int option"

record provider_event =
  ev_type :: string
  ev_subscription :: "id option"
  ev_current_end :: "int option"
  ev_payment :: "provider_payment option"

record provider =
  rz_secret :: "string option"
  rz_signed :: "string \<Rightarrow> string \<Rightarrow> string \<Rightarrow> bool"
  rz_parse :: "string \<Rightarrow> provider_event option"
  rz_create_plan :: "int \<Rightarrow> id option"
  rz_create_subscription :: "id \<Rightarrow> id \<Rightarrow> (id \<times> string) option"

definition GRACE_DAYS :: int where "GRACE_DAYS = 7"

definition amount_paise :: "subscription_row \<Rightarrow> int" where
  "amount_paise b = half_up_int (js_fl (js_fl ((case sb_price b of None \<Rightarrow> 0 | Some p \<Rightarrow> num p) * of_int (sb_seats b)) * 100))"

definition subscribe_tenant :: "provider \<Rightarrow> id \<Rightarrow> string \<Rightarrow> platform_db \<Rightarrow> (string \<times> platform_db) platform_answer" where
  "subscribe_tenant rz t actor s =
     (case find_sub s t of
        None \<Rightarrow> Inl (NotFound NoSubscription)
      | Some b \<Rightarrow>
          if (case sb_provider b of None \<Rightarrow> False | Some p \<Rightarrow> p \<noteq> []) then Inl (BadRequest HasProviderSubscription)
          else if amount_paise b \<le> 0 then Inl (BadRequest NoPrice)
          else (case rz_create_plan rz (amount_paise b) of
             None \<Rightarrow> Inl (Crash ProviderFailed)
           | Some plan \<Rightarrow>
               (case rz_create_subscription rz plan t of
                  None \<Rightarrow> Inl (Crash ProviderFailed)
                | Some (i, url) \<Rightarrow>
                    Inr (url, audit_op actor ''billing.subscription_created'' t (set_sub t (\<lambda>b. b\<lparr>sb_provider := Some i\<rparr>) s)))))"

definition list_payments :: "id \<Rightarrow> platform_db \<Rightarrow> payment_row list" where
  "list_payments t s = take 100 (rev (sort_key pm_paid_at (filter (\<lambda>p. pm_tenant p = t) (pf_payments s))))"

datatype webhook_result = Applied | Duplicate | Ignored

text \<open>A number of seconds that is absent or 0 is no date.\<close>

definition seconds_date :: "int option \<Rightarrow> date option" where
  "seconds_date x = (case x of None \<Rightarrow> None | Some n \<Rightarrow> if n = 0 then None else Some (n * 1000))"

definition payment_of :: "id \<Rightarrow> id \<Rightarrow> provider_event \<Rightarrow> date \<Rightarrow> provider_payment \<Rightarrow> payment_row" where
  "payment_of t psub ev now p =
     \<lparr>pm_tenant = t, pm_provider = rp_id p, pm_subscription = psub, pm_amount = of_int (rp_paise p) / 100,
      pm_currency = keep (rp_currency p) ''INR'', pm_paid_at = keep (seconds_date (rp_created p)) now,
      pm_period_end = seconds_date (ev_current_end ev)\<rparr>"

definition system :: string where "system = ''system:razorpay''"

definition record_payment :: "id \<Rightarrow> id \<Rightarrow> provider_event \<Rightarrow> date \<Rightarrow> platform_db \<Rightarrow> platform_db platform_answer" where
  "record_payment t psub ev now s =
     (case ev_payment ev of
        None \<Rightarrow> Inr s
      | Some p \<Rightarrow>
          if ev_type ev \<noteq> ''subscription.charged'' then Inr s
          else if \<exists>r \<in> set (pf_payments s). pm_provider r = rp_id p then Inl (Crash PaymentExists)
          else Inr (s\<lparr>pf_payments := pf_payments s @ [payment_of t psub ev now p]\<rparr>))"

text \<open>The part of the transaction after the event is stored; \<open>st\<close> is the tenant's status as it was read.\<close>

definition apply_event :: "id \<Rightarrow> tenant_status \<Rightarrow> subscription_row \<Rightarrow> id \<Rightarrow> provider_event \<Rightarrow> date \<Rightarrow> platform_db
    \<Rightarrow> (webhook_result \<times> platform_db) platform_answer" where
  "apply_event t st b psub ev now s =
     (if ev_type ev = ''subscription.activated'' \<or> ev_type ev = ''subscription.charged''
      then and_then (record_payment t psub ev now s) (\<lambda>s1.
        let s2 = set_sub t (\<lambda>b. b\<lparr>sb_trial_ends := None, sb_grace_ends := None,
              sb_renews := (case seconds_date (ev_current_end ev) of None \<Rightarrow> sb_renews b | Some d \<Rightarrow> Some d)\<rparr>) s1;
            s3 = (if st = TENANT_TRIAL \<or> st = TENANT_READ_ONLY then set_status t TENANT_ACTIVE s2 else s2)
        in Inr (Applied, audit_op system
             (if ev_type ev = ''subscription.charged'' then ''billing.payment_received'' else ''billing.activated'') t s3))
      else if ev_type ev = ''subscription.pending''
      then Inr (Applied, if sb_grace_ends b = None
        then audit_op system ''billing.payment_failed'' t (set_sub t (\<lambda>b. b\<lparr>sb_grace_ends := Some (now + GRACE_DAYS * DAY_MS)\<rparr>) s)
        else s)
      else if ev_type ev = ''subscription.halted'' \<or> ev_type ev = ''subscription.cancelled''
      then Inr (Applied, audit_op system (if ev_type ev = ''subscription.halted'' then ''billing.halted'' else ''billing.cancelled'') t
        (if st = TENANT_TRIAL \<or> st = TENANT_ACTIVE then set_status t TENANT_READ_ONLY s else s))
      else Inr (Ignored, s))"

definition event_key :: "provider_event \<Rightarrow> string \<Rightarrow> string option \<Rightarrow> string" where
  "event_key ev sig header = (case header of Some h \<Rightarrow> if h = [] then ev_type ev @ '':'' @ sig else h | None \<Rightarrow> ev_type ev @ '':'' @ sig)"

definition handle_webhook :: "provider \<Rightarrow> string option \<Rightarrow> string option \<Rightarrow> string option \<Rightarrow> date \<Rightarrow> platform_db
    \<Rightarrow> (webhook_result \<times> platform_db) platform_answer" where
  "handle_webhook rz body sig header now s =
     (case rz_secret rz of
        None \<Rightarrow> Inl (Unauthorized NoWebhookSecret)
      | Some secret \<Rightarrow>
          (case (body, sig) of
             (Some raw, Some sg) \<Rightarrow>
               if secret = [] then Inl (Unauthorized NoWebhookSecret)
               else if sg = [] \<or> \<not> rz_signed rz raw sg secret then Inl (Unauthorized BadSignature)
               else (case rz_parse rz raw of
                  None \<Rightarrow> Inl (BadRequest MalformedBody)
                | Some ev \<Rightarrow>
                    (case ev_subscription ev of
                       None \<Rightarrow> Inr (Ignored, s)
                     | Some psub \<Rightarrow>
                         if psub = [] then Inr (Ignored, s)
                         else (case find_row (\<lambda>b. sb_provider b = Some psub) (pf_subs s) of
                            None \<Rightarrow> Inr (Ignored, s)
                          | Some b \<Rightarrow>
                              let key = event_key ev sg header; t = sb_tenant b
                              in if \<exists>e \<in> set (pf_events s). be_id e = key then Inr (Duplicate, s)
                                 else (case find_tenant s t of
                                    None \<Rightarrow> Inl (Crash NoPlatformRow)
                                  | Some r \<Rightarrow> apply_event t (tn_status r) b psub ev now
                                      (s\<lparr>pf_events := pf_events s @ [\<lparr>be_id = key, be_type = ev_type ev, be_tenant = t\<rparr>]\<rparr>)))))
           | _ \<Rightarrow> if secret = [] then Inl (Unauthorized NoWebhookSecret) else Inl (Unauthorized BadSignature)))"

definition overdue :: "date \<Rightarrow> platform_db \<Rightarrow> id list" where
  "overdue now s = map tn_id (filter (\<lambda>r. tn_status r = TENANT_ACTIVE
     \<and> (case find_sub s (tn_id r) of None \<Rightarrow> False | Some b \<Rightarrow> due (sb_grace_ends b) now)) (pf_tenants s))"

definition enforce_grace :: "date \<Rightarrow> platform_db \<Rightarrow> platform_db" where
  "enforce_grace now s = foldl (make_read_only ''system:billing'' ''billing.grace_expired'') s (overdue now s)"

section \<open>What the workspace sees\<close>

definition workspace_status :: "id \<Rightarrow> platform_db \<Rightarrow> tenant_status \<times> date option \<times> date option" where
  "workspace_status t s =
     (let st = (case find_tenant s t of None \<Rightarrow> TENANT_ACTIVE | Some r \<Rightarrow> tn_status r); b = find_sub s t;
          exists = (find_tenant s t \<noteq> None)
      in (st, if exists \<and> st = TENANT_TRIAL then Option.bind b sb_trial_ends else None,
          if exists \<and> st = TENANT_ACTIVE then Option.bind b sb_grace_ends else None))"

end
