(* ===== verification/PlatformProperties.thy ===== *)
theory PlatformProperties
  imports Platform
begin

text \<open>
  The operator's side over time: who suspends a tenant, how often a billing event counts, what the daily
  jobs do to tenants, and how many support grants are open at once.
\<close>

section \<open>The operations as steps\<close>

datatype platform_op =
    UpdateStatus id tenant_status
  | CreateTenant id create_dto bool int
  | SetTrialEnd id date
  | ConvertTenant id sold_plan
  | ChangePlan id sold_plan
  | Renew id
  | RunRenewals
  | AdjustPricing id "number option" "int option"
  | RefreshHeadcount id int
  | UpdatePlan sold_plan plan_patch
  | RequestGrant id id string int
  | RevokeGrant id id
  | ExpireGrants
  | NotifyEmails "string list"
  | Subscribe id
  | Webhook "string option" "string option" "string option"
  | ExpireTrials
  | EnforceGrace

definition after :: "'a \<Rightarrow> 'a platform_answer \<Rightarrow> 'a" where
  "after s r = (case r of Inl _ \<Rightarrow> s | Inr s' \<Rightarrow> s')"

definition after2 :: "'a \<Rightarrow> ('b \<times> 'a) platform_answer \<Rightarrow> 'a" where
  "after2 s r = (case r of Inl _ \<Rightarrow> s | Inr p \<Rightarrow> snd p)"

lemma after_simps [simp]:
  "after s (Inl x) = s" "after s (Inr t) = t" "after2 s (Inl x) = s" "after2 s (Inr p) = snd p"
  by (simp_all add: after_def after2_def)

text \<open>New rows have new ids; the ttl of a grant is positive (its DTO).\<close>

fun operate :: "provider \<Rightarrow> platform_op \<Rightarrow> string \<Rightarrow> date \<Rightarrow> platform_db \<Rightarrow> platform_db" where
  "operate rz (UpdateStatus t st) who now s = after s (update_tenant_status t st who s)"
| "operate rz (CreateTenant t dto ok n) who now s =
     (if find_tenant s t = None \<and> find_sub s t = None then after s (create_tenant t dto ok n who now s) else s)"
| "operate rz (SetTrialEnd t d) who now s = after s (set_trial_end t d who now s)"
| "operate rz (ConvertTenant t p) who now s = after s (convert_tenant t p who now s)"
| "operate rz (ChangePlan t p) who now s = after s (change_tenant_plan t p who s)"
| "operate rz (Renew t) who now s = after s (renew_subscription t who now s)"
| "operate rz RunRenewals who now s = run_renewals now s"
| "operate rz (AdjustPricing t p n) who now s = after s (adjust_pricing t p n who s)"
| "operate rz (RefreshHeadcount t n) who now s = after s (refresh_headcount t n who s)"
| "operate rz (UpdatePlan k p) who now s = after s (update_plan k p who s)"
| "operate rz (RequestGrant i t why ttl) who now s =
     (if find_row (\<lambda>g. gr_id g = i) (pf_grants s) = None then after s (request_break_glass i t why ttl who now s) else s)"
| "operate rz (RevokeGrant t i) who now s = after s (revoke_break_glass t i who now s)"
| "operate rz ExpireGrants who now s = expire_overdue_break_glass_grants now s"
| "operate rz (NotifyEmails es) who now s = update_notify_emails es who s"
| "operate rz (Subscribe t) who now s = after2 s (subscribe_tenant rz t who s)"
| "operate rz (Webhook body sig header) who now s = after2 s (handle_webhook rz body sig header now s)"
| "operate rz ExpireTrials who now s = expire_trials now s"
| "operate rz EnforceGrace who now s = enforce_grace now s"

section \<open>What each write touches\<close>

lemma set_status_tables [simp]:
  "pf_subs (set_status t st s) = pf_subs s" "pf_events (set_status t st s) = pf_events s"
  "pf_payments (set_status t st s) = pf_payments s" "pf_grants (set_status t st s) = pf_grants s"
  "find_sub (set_status t st s) u = find_sub s u"
  by (simp_all add: set_status_def find_sub_def)

lemma set_sub_tables [simp]:
  "pf_tenants (set_sub t f s) = pf_tenants s" "pf_events (set_sub t f s) = pf_events s"
  "pf_payments (set_sub t f s) = pf_payments s" "pf_grants (set_sub t f s) = pf_grants s"
  "find_tenant (set_sub t f s) u = find_tenant s u" "pf_plans (set_sub t f s) = pf_plans s"
  by (simp_all add: set_sub_def find_tenant_def)

lemma audit_op_tables [simp]:
  "pf_tenants (audit_op a x y s) = pf_tenants s" "pf_subs (audit_op a x y s) = pf_subs s"
  "pf_events (audit_op a x y s) = pf_events s" "pf_payments (audit_op a x y s) = pf_payments s"
  "pf_grants (audit_op a x y s) = pf_grants s" "pf_plans (audit_op a x y s) = pf_plans s"
  "find_tenant (audit_op a x y s) u = find_tenant s u" "find_sub (audit_op a x y s) u = find_sub s u"
  by (simp_all add: audit_op_def find_tenant_def find_sub_def)

lemma set_grant_tables [simp]:
  "pf_tenants (set_grant i f s) = pf_tenants s" "pf_events (set_grant i f s) = pf_events s"
  "find_tenant (set_grant i f s) u = find_tenant s u"
  by (simp_all add: set_grant_def find_tenant_def)

lemma find_tenant_set_status:
  "find_tenant (set_status t st s) u = (if u = t then map_option (\<lambda>r. r\<lparr>tn_status := st\<rparr>) (find_tenant s u) else find_tenant s u)"
proof -
  have tab: "pf_tenants (set_status t st s) = update_rows (\<lambda>r. tn_id r = t) (\<lambda>r. r\<lparr>tn_status := st\<rparr>) (pf_tenants s)"
    by (simp add: set_status_def)
  have "find_row (\<lambda>r. tn_id r = u) (update_rows (\<lambda>r. tn_id r = t) (\<lambda>r. r\<lparr>tn_status := st\<rparr>) rs)
    = (if u = t then map_option (\<lambda>r. r\<lparr>tn_status := st\<rparr>) (find_row (\<lambda>r. tn_id r = u) rs) else find_row (\<lambda>r. tn_id r = u) rs)" for rs
    by (induction rs) auto
  then show ?thesis unfolding find_tenant_def tab .
qed

definition status_of :: "platform_db \<Rightarrow> id \<Rightarrow> tenant_status option" where
  "status_of s t = map_option tn_status (find_tenant s t)"

lemma status_of_set_status [simp]:
  "status_of (set_status t st s) u = (if u = t \<and> find_tenant s u \<noteq> None then Some st else status_of s u)"
  by (auto simp: status_of_def find_tenant_set_status)

lemma status_of_tables [simp]:
  "status_of (set_sub t f s) u = status_of s u" "status_of (audit_op a x y s) u = status_of s u"
  "status_of (set_grant i g s) u = status_of s u"
  by (simp_all add: status_of_def)

lemma foldl_inv:
  assumes "I a" and "\<And>a x. x \<in> set xs \<Longrightarrow> I a \<Longrightarrow> I (f a x)"
  shows "I (foldl f a xs)"
  using assms by (induction xs arbitrary: a) auto

section \<open>The daily jobs\<close>

lemma read_only_all:
  "find_tenant (foldl (make_read_only a x) s ts) t
    = (if t \<in> set ts then map_option (\<lambda>r. r\<lparr>tn_status := TENANT_READ_ONLY\<rparr>) (find_tenant s t) else find_tenant s t)"
proof (induction ts arbitrary: s)
  case (Cons u ts)
  show ?case unfolding foldl_Cons Cons by (auto simp: make_read_only_def find_tenant_set_status option.map_comp comp_def)
qed simp

lemma read_only_keeps [simp]:
  "pf_subs (foldl (make_read_only a x) s ts) = pf_subs s" "pf_events (foldl (make_read_only a x) s ts) = pf_events s"
  "pf_grants (foldl (make_read_only a x) s ts) = pf_grants s" "pf_payments (foldl (make_read_only a x) s ts) = pf_payments s"
  by (induction ts arbitrary: s) (simp_all add: make_read_only_def)

lemma expired_trial_iff:
  assumes "unique_key tn_id (pf_tenants s)" and "find_tenant s t = Some r"
  shows "t \<in> set (expired_trials now s) \<longleftrightarrow> tn_status r = TENANT_TRIAL
    \<and> (case find_sub s t of None \<Rightarrow> False | Some b \<Rightarrow> due (sb_trial_ends b) now)"
proof -
  have r: "r \<in> set (pf_tenants s)" "tn_id r = t" using assms(2) find_row_SomeD by (fastforce simp: find_tenant_def)+
  have only: "q = r" if "q \<in> set (pf_tenants s)" "tn_id q = t" for q
    using that r assms(1) unique_key_eq [of tn_id "pf_tenants s" q r] by simp
  let ?due = "\<lambda>r. tn_status r = TENANT_TRIAL \<and> (case find_sub s (tn_id r) of None \<Rightarrow> False | Some b \<Rightarrow> due (sb_trial_ends b) now)"
  have "t \<in> set (expired_trials now s) \<longleftrightarrow> (\<exists>q \<in> set (pf_tenants s). tn_id q = t \<and> ?due q)"
    unfolding expired_trials_def by auto
  also have "\<dots> \<longleftrightarrow> ?due r" using only r by blast
  finally show ?thesis using r(2) by simp
qed

text \<open>
  What the nightly trial job does: exactly the tenants in a trial whose end has come become read-only,
  nothing else changes in any tenant, and no trial is left open past its end.
\<close>

theorem trial_expiry_effect:
  assumes "unique_key tn_id (pf_tenants s)" and "find_tenant s t = Some r"
  shows "find_tenant (expire_trials now s) t = Some (if tn_status r = TENANT_TRIAL
    \<and> (case find_sub s t of None \<Rightarrow> False | Some b \<Rightarrow> due (sb_trial_ends b) now) then r\<lparr>tn_status := TENANT_READ_ONLY\<rparr> else r)"
  unfolding expire_trials_def read_only_all using expired_trial_iff [OF assms] assms(2) by simp

section \<open>Suspension\<close>

lemma record_payment_tables:
  assumes "record_payment t psub ev now s = Inr s1"
  shows "pf_tenants s1 = pf_tenants s" "pf_subs s1 = pf_subs s" "pf_events s1 = pf_events s" "pf_grants s1 = pf_grants s"
  using assms by (auto simp: record_payment_def split: option.splits if_split_asm)

lemma record_payment_status: "record_payment t psub ev now s = Inr s1 \<Longrightarrow> status_of s1 u = status_of s u"
  using record_payment_tables(1) [of t psub ev now s s1] by (simp add: status_of_def find_tenant_def)

text \<open>An event never touches a suspended tenant's status, never suspends one, and changes no tenant but its own.\<close>

lemma apply_event_status:
  assumes "apply_event t st b psub ev now s = Inr (res, s')" and "status_of s t = Some st"
  shows "status_of s' u = status_of s u \<or> u = t \<and> st \<noteq> TENANT_SUSPENDED \<and> status_of s' u \<in> {Some TENANT_ACTIVE, Some TENANT_READ_ONLY}"
proof -
  have found: "find_tenant s t \<noteq> None" using assms(2) by (auto simp: status_of_def)
  consider (paid) "ev_type ev = ''subscription.activated'' \<or> ev_type ev = ''subscription.charged''"
    | (other) "\<not> (ev_type ev = ''subscription.activated'' \<or> ev_type ev = ''subscription.charged'')" by blast
  then show ?thesis
  proof cases
    case paid
    then obtain s1 f where s1: "record_payment t psub ev now s = Inr s1" and
      "status_of s' u = status_of (if st = TENANT_TRIAL \<or> st = TENANT_READ_ONLY then set_status t TENANT_ACTIVE (set_sub t f s1) else set_sub t f s1) u"
      using assms(1) by (auto simp: apply_event_def and_then_Inr_iff Let_def)
    moreover have "status_of s1 u = status_of s u" "status_of s1 t = status_of s t" using record_payment_status [OF s1] by simp_all
    moreover have "find_tenant (set_sub t f s1) t \<noteq> None" using calculation(4) assms(2) by (auto simp: status_of_def)
    ultimately show ?thesis by (auto split: if_splits)
  next
    case other
    with assms(1) have "s' \<in> {s} \<or> status_of s' u = status_of s u
      \<or> status_of s' u = status_of (if st = TENANT_TRIAL \<or> st = TENANT_ACTIVE then set_status t TENANT_READ_ONLY s else s) u"
      by (auto simp: apply_event_def split: if_split_asm)
    with found show ?thesis by (auto split: if_splits)
  qed
qed

lemma webhook_cases:
  assumes "handle_webhook rz body sig header now s = Inr (res, s')"
  obtains "s' = s" "res = Ignored \<or> res = Duplicate"
  | ev psub b r raw sg where "rz_parse rz raw = Some ev" "body = Some raw" "sig = Some sg" "ev_subscription ev = Some psub" "psub \<noteq> []"
      "find_row (\<lambda>b. sb_provider b = Some psub) (pf_subs s) = Some b" "event_key ev sg header \<notin> be_id ` set (pf_events s)"
      "find_tenant s (sb_tenant b) = Some r"
      "apply_event (sb_tenant b) (tn_status r) b psub ev now
         (s\<lparr>pf_events := pf_events s @ [\<lparr>be_id = event_key ev sg header, be_type = ev_type ev, be_tenant = sb_tenant b\<rparr>]\<rparr>) = Inr (res, s')"
  using assms
  by (fastforce simp: handle_webhook_def Let_def simp del: find_row_None split: option.splits if_split_asm)

lemma webhook_status:
  assumes "handle_webhook rz body sig header now s = Inr (res, s')"
  shows "status_of s' u = status_of s u
    \<or> status_of s u \<noteq> Some TENANT_SUSPENDED \<and> status_of s' u \<in> {Some TENANT_ACTIVE, Some TENANT_READ_ONLY}"
  using assms
proof (cases rule: webhook_cases)
  case (2 ev psub b r raw sg)
  let ?s1 = "s\<lparr>pf_events := pf_events s @ [\<lparr>be_id = event_key ev sg header, be_type = ev_type ev, be_tenant = sb_tenant b\<rparr>]\<rparr>"
  have same: "status_of ?s1 v = status_of s v" for v by (simp add: status_of_def find_tenant_def)
  have "status_of ?s1 (sb_tenant b) = Some (tn_status r)" using same 2(8) by (simp add: status_of_def)
  from apply_event_status [OF 2(9) this, of u] same show ?thesis using 2(8) by (auto simp: status_of_def)
qed simp

definition suspended :: "platform_db \<Rightarrow> id \<Rightarrow> bool" where
  "suspended s t \<longleftrightarrow> status_of s t = Some TENANT_SUSPENDED"

lemma change_plan_status: "change_tenant_plan t p who s = Inr s' \<Longrightarrow> status_of s' u = status_of s u"
  by (auto simp: change_tenant_plan_def split: option.splits if_split_asm)

lemma convert_status:
  assumes "convert_tenant t p who now s = Inr s'"
  shows "status_of s' u = status_of s u \<or> \<not> suspended s u \<and> status_of s' u = Some TENANT_ACTIVE"
proof -
  from assms obtain r b where r: "find_tenant s t = Some r" "find_sub s t = Some b" "tn_status r \<noteq> TENANT_SUSPENDED"
    by (auto simp: convert_tenant_def split: option.splits if_split_asm)
  with assms obtain s1 where s1: "(if sb_plan b \<noteq> p then change_tenant_plan t p who s else Inr s) = Inr s1"
    and s': "status_of s' u = status_of (set_status t TENANT_ACTIVE s1) u"
    by (auto simp: convert_tenant_def and_then_Inr_iff simp del: status_of_set_status split: if_split_asm)
  have "status_of s1 u = status_of s u" using s1 change_plan_status [of t p who s s1 u] by (auto split: if_split_asm)
  with r s' show ?thesis by (auto simp: suspended_def status_of_def [of s])
qed

lemma trial_end_status:
  assumes "set_trial_end t d who now s = Inr s'"
  shows "status_of s' u = status_of s u \<or> \<not> suspended s u \<and> status_of s' u = Some TENANT_TRIAL"
proof -
  from assms obtain r where r: "find_tenant s t = Some r" "tn_status r \<noteq> TENANT_SUSPENDED"
    "status_of s' u = (if tn_status r = TENANT_READ_ONLY \<and> u = t then Some TENANT_TRIAL else status_of s u)"
    by (auto simp: set_trial_end_def Let_def split: option.splits if_split_asm)
  moreover have "status_of s t = Some (tn_status r)" using r(1) by (simp add: status_of_def)
  ultimately show ?thesis by (auto simp: suspended_def split: if_splits)
qed

lemma renew_status: "renew_subscription t who now s = Inr s' \<Longrightarrow> status_of s' u = status_of s u"
  by (auto simp: renew_subscription_def Let_def split: option.splits)

lemma run_renewals_status: "status_of (run_renewals now s) u = status_of s u"
  unfolding run_renewals_def
  by (rule foldl_inv [of "\<lambda>x. status_of x u = status_of s u"]) (auto split: sum.splits simp: renew_status [of _ "''system:scheduled-renewal''" now])

lemma expire_grants_status: "status_of (expire_overdue_break_glass_grants now s) u = status_of s u"
  unfolding expire_overdue_break_glass_grants_def
  by (rule foldl_inv [of "\<lambda>x. status_of x u = status_of s u"]) (auto simp: expire_grant_def)

lemma read_only_status:
  assumes "\<And>t. t \<in> set ts \<Longrightarrow> \<not> suspended s t"
  shows "status_of (foldl (make_read_only a x) s ts) u = status_of s u
    \<or> \<not> suspended s u \<and> status_of (foldl (make_read_only a x) s ts) u = Some TENANT_READ_ONLY"
proof (cases "u \<in> set ts \<and> find_tenant s u \<noteq> None")
  case True
  then show ?thesis using assms [of u] by (auto simp: status_of_def read_only_all)
next
  case False
  then have "find_tenant (foldl (make_read_only a x) s ts) u = find_tenant s u" by (auto simp: read_only_all)
  then show ?thesis by (simp add: status_of_def)
qed

lemma create_tenant_status:
  assumes "create_tenant t dto ok n who now s = Inr s'" and "find_tenant s t = None"
  shows "status_of s' u = status_of s u \<or> status_of s u = None \<and> status_of s' u = Some TENANT_TRIAL"
proof -
  from assms(1) obtain r where r: "pf_tenants s' = pf_tenants s @ [r]" "tn_id r = t" "tn_status r = TENANT_TRIAL"
    by (auto simp: create_tenant_def Let_def split: if_split_asm)
  then have "find_tenant s' u = (case find_tenant s u of Some x \<Rightarrow> Some x | None \<Rightarrow> if u = t then Some r else None)"
    by (auto simp: find_tenant_def find_row_append simp del: find_row_None split: option.splits)
  with r(3) show ?thesis by (auto simp: status_of_def split: option.splits if_splits)
qed

lemma daily_not_suspended:
  assumes "unique_key tn_id (pf_tenants s)" and "t \<in> set (expired_trials now s) \<or> t \<in> set (overdue now s)"
  shows "\<not> suspended s t"
proof -
  from assms(2) obtain q where q: "q \<in> set (pf_tenants s)" "tn_id q = t" "tn_status q \<noteq> TENANT_SUSPENDED"
    by (auto simp: expired_trials_def overdue_def)
  then show ?thesis
    using find_row_unique [OF assms(1) q(1)] by (simp add: suspended_def status_of_def find_tenant_def)
qed

lemma suspension_kept:
  assumes uniq: "unique_key tn_id (pf_tenants s)" and op: "\<And>st. op \<noteq> UpdateStatus t st"
  shows "suspended (operate rz op who now s) t = suspended s t"
proof -
  have eq: "suspended s' t = suspended s t" if "status_of s' t = status_of s t \<or> \<not> suspended s t \<and> status_of s' t \<noteq> Some TENANT_SUSPENDED" for s'
    using that by (auto simp: suspended_def)
  show ?thesis
  proof (cases op)
    case (UpdateStatus u st)
    with op have "u \<noteq> t" by auto
    then show ?thesis using UpdateStatus by (auto simp: update_tenant_status_def suspended_def split: option.splits)
  next
    case (CreateTenant u dto ok n)
    show ?thesis
    proof (cases "create_tenant u dto ok n who now s")
      case (Inr s')
      then show ?thesis using create_tenant_status [of u dto ok n who now s s' t] CreateTenant by (auto intro!: eq simp: suspended_def)
    qed (simp add: CreateTenant)
  next
    case (SetTrialEnd u d)
    then show ?thesis using trial_end_status [of u d who now s _ t] by (cases "set_trial_end u d who now s") (auto intro!: eq)
  next
    case (ConvertTenant u p)
    then show ?thesis using convert_status [of u p who now s _ t] by (cases "convert_tenant u p who now s") (auto intro!: eq)
  next
    case (ChangePlan u p)
    then show ?thesis using change_plan_status [of u p who s _ t] by (cases "change_tenant_plan u p who s") (auto intro!: eq)
  next
    case (Renew u)
    then show ?thesis using renew_status [of u who now s _ t] by (cases "renew_subscription u who now s") (auto intro!: eq)
  next
    case (Webhook body sig header)
    show ?thesis
    proof (cases "handle_webhook rz body sig header now s")
      case (Inr p)
      then show ?thesis using webhook_status [of rz body sig header now s "fst p" "snd p" t] Webhook by (auto intro!: eq simp: suspended_def)
    qed (simp add: Webhook)
  next
    case ExpireTrials
    have "status_of (operate rz op who now s) t = status_of s t \<or> \<not> suspended s t \<and> status_of (operate rz op who now s) t = Some TENANT_READ_ONLY"
      unfolding ExpireTrials operate.simps expire_trials_def by (rule read_only_status) (use daily_not_suspended [OF uniq] in blast)
    then show ?thesis by (auto intro!: eq)
  next
    case EnforceGrace
    have "status_of (operate rz op who now s) t = status_of s t \<or> \<not> suspended s t \<and> status_of (operate rz op who now s) t = Some TENANT_READ_ONLY"
      unfolding EnforceGrace operate.simps enforce_grace_def by (rule read_only_status) (use daily_not_suspended [OF uniq] in blast)
    then show ?thesis by (auto intro!: eq)
  next
    case (RefreshHeadcount u n)
    have "map_option tn_status (find_row (\<lambda>r. tn_id r = t) (update_rows (\<lambda>r. tn_id r = u) (\<lambda>r. r\<lparr>tn_headcount := n\<rparr>) rs))
      = map_option tn_status (find_row (\<lambda>r. tn_id r = t) rs)" for rs by (induction rs) auto
    then have "status_of (operate rz op who now s) t = status_of s t"
      by (auto simp: RefreshHeadcount refresh_headcount_def status_of_def find_tenant_def audit_op_def Let_def split: option.splits)
    then show ?thesis by (auto intro!: eq)
  next
    case (AdjustPricing u x y)
    have "status_of (operate rz op who now s) t = status_of s t"
      by (auto simp: AdjustPricing adjust_pricing_def Let_def split: option.splits)
    then show ?thesis by (auto intro!: eq)
  next
    case (Subscribe u)
    have "status_of (operate rz op who now s) t = status_of s t"
      by (auto simp: Subscribe subscribe_tenant_def after2_def split: option.splits sum.splits)
    then show ?thesis by (auto intro!: eq)
  next
    case (RevokeGrant u i)
    have "status_of (operate rz op who now s) t = status_of s t"
      by (auto simp: RevokeGrant revoke_break_glass_def split: option.splits)
    then show ?thesis by (auto intro!: eq)
  next
    case RunRenewals
    then show ?thesis by (auto intro!: eq simp: run_renewals_status)
  next
    case ExpireGrants
    then show ?thesis by (auto intro!: eq simp: expire_grants_status)
  qed (auto intro!: eq simp: update_plan_def request_break_glass_def update_notify_emails_def
      status_of_def find_tenant_def audit_op_def split: option.splits)
qed

text \<open>
  C23. Suspending and resuming is the operator's decision: whatever else is done - a charge received or
  failed, a cancelled subscription, a conversion, a new trial end, a nightly job - a suspended tenant
  stays suspended and no other tenant becomes so; only the operator's change of that tenant's status does either.
\<close>

theorem suspension_by_operator_only:
  assumes "unique_key tn_id (pf_tenants s)" and "suspended (operate rz op who now s) t \<noteq> suspended s t"
  shows "\<exists>st. op = UpdateStatus t st"
  using suspension_kept [OF assms(1), of op t rz who now] assms(2) by blast

section \<open>A tenant in its trial\<close>

definition sample_tenant :: "tenant_status \<Rightarrow> tenant_row" where
  "sample_tenant st = \<lparr>tn_id = ''t1'', tn_name = ''Acme'', tn_subdomain = ''acme'', tn_status = st, tn_headcount = 12\<rparr>"

definition sample_sub :: subscription_row where
  "sample_sub = \<lparr>sb_tenant = ''t1'', sb_plan = GROWTH, sb_seats = 40, sb_renews = None, sb_trial_ends = Some (date_utc 2026 3 1),
     sb_provider = Some ''sub_1'', sb_grace_ends = None, sb_price = Some 150, sb_isolation = POOLED,
     sb_modules = [''CORE_HR'', ''LEAVE'', ''PAYROLL''], sb_features = all_features False\<rparr>"

definition sample_platform :: "tenant_status \<Rightarrow> platform_db" where
  "sample_platform st = \<lparr>pf_plans = [], pf_tenants = [sample_tenant st], pf_subs = [sample_sub], pf_payments = [], pf_events = [],
     pf_grants = [], pf_notify = [], pf_audit = []\<rparr>"

definition no_provider :: provider where
  "no_provider = \<lparr>rz_secret = None, rz_signed = (\<lambda>_ _ _. False), rz_parse = (\<lambda>_. None), rz_create_plan = (\<lambda>_. None),
     rz_create_subscription = (\<lambda>_ _. None)\<rparr>"

lemma sample_rows_found:
  "find_tenant (sample_platform st) ''t1'' = Some (sample_tenant st)" "find_sub (sample_platform st) ''t1'' = Some sample_sub"
  by (simp_all add: find_tenant_def find_sub_def sample_platform_def sample_tenant_def sample_sub_def)

lemma sample_unique: "unique_key tn_id (pf_tenants (sample_platform st))"
  by (simp add: unique_key_def sample_platform_def)

theorem trial_expiry_effect_witness:
  "find_tenant (expire_trials (date_utc 2026 3 2) (sample_platform TENANT_TRIAL)) ''t1'' = Some (if tn_status (sample_tenant TENANT_TRIAL) = TENANT_TRIAL
    \<and> (case find_sub (sample_platform TENANT_TRIAL) ''t1'' of None \<Rightarrow> False | Some b \<Rightarrow> due (sb_trial_ends b) (date_utc 2026 3 2))
    then (sample_tenant TENANT_TRIAL)\<lparr>tn_status := TENANT_READ_ONLY\<rparr> else sample_tenant TENANT_TRIAL)"
  by (rule trial_expiry_effect [OF sample_unique sample_rows_found(1)])

theorem suspension_by_operator_only_witness: "\<exists>st. UpdateStatus ''t1'' TENANT_SUSPENDED = UpdateStatus ''t1'' st"
  by (rule suspension_by_operator_only [OF sample_unique [of TENANT_TRIAL], of no_provider _ "''op''" 0])
    (simp add: update_tenant_status_def sample_rows_found suspended_def, simp add: status_of_def sample_rows_found sample_tenant_def)

end
