(* ===== verification/BillingProperties.thy ===== *)
theory BillingProperties
  imports PlatformProperties
begin

text \<open>
  Billing and support access over time: a billing event counts once, a tenant has at most one support
  grant that is open, a renewal keeps the negotiated terms; and where the code lets a paid tenant be
  closed, or a replayed event open one.
\<close>

section \<open>A billing event counts once\<close>

definition platform_step :: "provider \<Rightarrow> platform_db \<Rightarrow> platform_db \<Rightarrow> bool" where
  "platform_step rz s s' \<longleftrightarrow> (\<exists>op who now. s' = operate rz op who now s)"

lemma apply_event_events:
  assumes "apply_event t st b psub ev now s = Inr (res, s')"
  shows "pf_events s' = pf_events s" "pf_grants s' = pf_grants s"
  using assms
  by (auto simp: apply_event_def and_then_Inr_iff Let_def record_payment_tables split: if_split_asm dest: record_payment_tables)

lemma webhook_events:
  assumes "handle_webhook rz body sig header now s = Inr (res, s')"
  shows "set (pf_events s) \<subseteq> set (pf_events s')" "pf_grants s' = pf_grants s"
  using assms by (auto elim!: webhook_cases dest: apply_event_events)

lemma renew_tables:
  assumes "renew_subscription t who now s = Inr s'"
  shows "pf_events s' = pf_events s" "pf_grants s' = pf_grants s"
  using assms by (auto simp: renew_subscription_def Let_def split: option.splits)

lemma run_renewals_tables: "pf_events (run_renewals now s) = pf_events s" "pf_grants (run_renewals now s) = pf_grants s"
proof -
  have "pf_events (run_renewals now s) = pf_events s \<and> pf_grants (run_renewals now s) = pf_grants s"
    unfolding run_renewals_def
    by (rule foldl_inv [of "\<lambda>x. pf_events x = pf_events s \<and> pf_grants x = pf_grants s"])
      (auto split: sum.splits dest: renew_tables)
  then show "pf_events (run_renewals now s) = pf_events s" "pf_grants (run_renewals now s) = pf_grants s" by simp_all
qed

lemma change_plan_tables:
  assumes "change_tenant_plan t p who s = Inr s'"
  shows "pf_events s' = pf_events s" "pf_grants s' = pf_grants s"
  using assms by (auto simp: change_tenant_plan_def split: option.splits if_split_asm)

lemma convert_tables:
  assumes "convert_tenant t p who now s = Inr s'"
  shows "pf_events s' = pf_events s" "pf_grants s' = pf_grants s"
  using assms by (auto simp: convert_tenant_def and_then_Inr_iff split: option.splits if_split_asm dest: change_plan_tables)

lemma expire_grants_events: "pf_events (expire_overdue_break_glass_grants now s) = pf_events s"
  unfolding expire_overdue_break_glass_grants_def
  by (rule foldl_inv [of "\<lambda>x. pf_events x = pf_events s"]) (auto simp: expire_grant_def)

lemma events_grow: "set (pf_events s) \<subseteq> set (pf_events (operate rz op who now s))"
proof (cases op)
  case (Webhook body sig header)
  then show ?thesis using webhook_events(1) [of rz body sig header now s]
    by (cases "handle_webhook rz body sig header now s") auto
next
  case (Renew t)
  then show ?thesis using renew_tables [of t who now s] by (cases "renew_subscription t who now s") auto
next
  case (ConvertTenant t p)
  then show ?thesis using convert_tables [of t p who now s] by (cases "convert_tenant t p who now s") auto
next
  case (ChangePlan t p)
  then show ?thesis using change_plan_tables [of t p who s] by (cases "change_tenant_plan t p who s") auto
qed (auto simp: run_renewals_tables expire_grants_events expire_trials_def enforce_grace_def update_tenant_status_def create_tenant_def
    set_trial_end_def adjust_pricing_def refresh_headcount_def update_plan_def request_break_glass_def revoke_break_glass_def
    update_notify_emails_def subscribe_tenant_def Let_def after_def after2_def split: option.splits sum.splits)

definition seen_event :: "provider \<Rightarrow> string option \<Rightarrow> string option \<Rightarrow> string option \<Rightarrow> platform_db \<Rightarrow> bool" where
  "seen_event rz body sig header s \<longleftrightarrow> (case (body, sig) of
     (Some raw, Some sg) \<Rightarrow> (case rz_parse rz raw of None \<Rightarrow> False | Some ev \<Rightarrow> event_key ev sg header \<in> be_id ` set (pf_events s))
   | _ \<Rightarrow> False)"

lemma applied_is_seen:
  assumes "handle_webhook rz body sig header now s = Inr (Applied, s')"
  shows "seen_event rz body sig header s'"
  using assms
proof (cases rule: webhook_cases)
  case (2 ev psub b r raw sg)
  then show ?thesis using apply_event_events(1) [OF 2(9)] by (simp add: seen_event_def)
qed simp

lemma seen_event_ignored:
  assumes "seen_event rz body sig header s" and "handle_webhook rz body sig header then0 s0 = Inr (Applied, s1)"
  shows "handle_webhook rz body sig header now s = Inr (Duplicate, s) \<or> handle_webhook rz body sig header now s = Inr (Ignored, s)"
proof -
  from assms(2) obtain secret raw sg ev psub where w: "rz_secret rz = Some secret" "body = Some raw" "sig = Some sg" "secret \<noteq> []" "sg \<noteq> []"
    "rz_signed rz raw sg secret" "rz_parse rz raw = Some ev" "ev_subscription ev = Some psub" "psub \<noteq> []"
    by (auto simp: handle_webhook_def Let_def simp del: find_row_None split: option.splits if_split_asm)
  have "\<exists>e \<in> set (pf_events s). be_id e = event_key ev sg header" using assms(1) w by (auto simp: seen_event_def)
  with w show ?thesis by (cases "find_row (\<lambda>b. sb_provider b = Some psub) (pf_subs s)") (simp_all add: handle_webhook_def Let_def del: find_row_None)
qed

text \<open>
  C20. A billing event counts once: after a webhook call was applied, the same call delivered again - at
  any later time, after any requests, other events and nightly jobs - is refused as a duplicate (or as
  of no known subscription) and changes nothing.
\<close>

theorem billing_event_counts_once:
  assumes "handle_webhook rz body sig header now s = Inr (Applied, s1)" and "(platform_step rz)\<^sup>*\<^sup>* s1 s2"
  shows "handle_webhook rz body sig header later s2 = Inr (Duplicate, s2) \<or> handle_webhook rz body sig header later s2 = Inr (Ignored, s2)"
proof -
  from assms(2) have "set (pf_events s1) \<subseteq> set (pf_events s2)"
    by (induction rule: rtranclp_induct) (use events_grow in \<open>fastforce simp: platform_step_def\<close>)+
  with applied_is_seen [OF assms(1)] have "seen_event rz body sig header s2" by (auto simp: seen_event_def split: option.splits)
  from seen_event_ignored [OF this assms(1)] show ?thesis .
qed

section \<open>One open support grant\<close>

definition open_grants :: "id \<Rightarrow> date \<Rightarrow> platform_db \<Rightarrow> nat" where
  "open_grants t now s = length (filter (live_grant t now) (pf_grants s))"

lemma length_filter_imp: "(\<And>x. x \<in> set xs \<Longrightarrow> p x \<Longrightarrow> q x) \<Longrightarrow> length (filter p xs) \<le> length (filter q xs)"
proof (induction xs)
  case (Cons x xs)
  from Cons.prems have "p x \<Longrightarrow> q x" by simp
  moreover have "length (filter p xs) \<le> length (filter q xs)" using Cons by simp
  ultimately show ?case by auto
qed simp

lemma open_grants_later: "now \<le> later \<Longrightarrow> open_grants t later s \<le> open_grants t now s"
  unfolding open_grants_def by (rule length_filter_imp) (auto simp: live_grant_def)

lemma open_grants_closed:
  assumes "\<And>g. \<not> live_grant t now (f g)"
  shows "open_grants t now (set_grant i f s) \<le> open_grants t now s"
proof -
  have "length (filter (live_grant t now) (update_rows (\<lambda>g. gr_id g = i) f gs)) \<le> length (filter (live_grant t now) gs)" for gs
    using assms by (induction gs) auto
  then show ?thesis by (simp add: open_grants_def set_grant_def)
qed

lemma open_grants_audit [simp]: "open_grants t now (audit_op a x y s) = open_grants t now s"
  by (simp add: open_grants_def)

lemma expire_grants_open: "open_grants t now (expire_overdue_break_glass_grants later s) \<le> open_grants t now s"
  unfolding expire_overdue_break_glass_grants_def
proof (rule foldl_inv [of "\<lambda>x. open_grants t now x \<le> open_grants t now s"])
  fix a :: platform_db and g :: grant_row
  assume "open_grants t now a \<le> open_grants t now s"
  moreover have "open_grants t now (set_grant (gr_id g) (\<lambda>g. g\<lparr>gr_status := GRANT_EXPIRED\<rparr>) a) \<le> open_grants t now a"
    by (rule open_grants_closed) (simp add: live_grant_def)
  ultimately show "open_grants t now (expire_grant a g) \<le> open_grants t now s" by (simp add: expire_grant_def)
qed simp

definition about_grants :: "platform_op \<Rightarrow> bool" where
  "about_grants op \<longleftrightarrow> (case op of RequestGrant _ _ _ _ \<Rightarrow> True | RevokeGrant _ _ \<Rightarrow> True | ExpireGrants \<Rightarrow> True | _ \<Rightarrow> False)"

lemma other_ops_keep_grants:
  assumes "\<not> about_grants op"
  shows "pf_grants (operate rz op who now s) = pf_grants s"
proof (cases op)
  case (Webhook body sig header)
  then show ?thesis using webhook_events(2) [of rz body sig header now s]
    by (cases "handle_webhook rz body sig header now s") auto
next
  case (Renew t)
  then show ?thesis using renew_tables [of t who now s] by (cases "renew_subscription t who now s") auto
next
  case (ConvertTenant t p)
  then show ?thesis using convert_tables [of t p who now s] by (cases "convert_tenant t p who now s") auto
next
  case (ChangePlan t p)
  then show ?thesis using change_plan_tables [of t p who s] by (cases "change_tenant_plan t p who s") auto
qed (use assms in \<open>auto simp: about_grants_def run_renewals_tables expire_trials_def enforce_grace_def update_tenant_status_def
    create_tenant_def set_trial_end_def adjust_pricing_def refresh_headcount_def update_plan_def
    update_notify_emails_def subscribe_tenant_def Let_def after_def after2_def split: option.splits sum.splits\<close>)

text \<open>The clock of the server moves on between two steps.\<close>

definition clocked_step :: "provider \<Rightarrow> platform_db \<times> date \<Rightarrow> platform_db \<times> date \<Rightarrow> bool" where
  "clocked_step rz x y \<longleftrightarrow> snd x \<le> snd y \<and> (\<exists>op who. fst y = operate rz op who (snd y) (fst x))"

lemma open_grants_step:
  assumes "clocked_step rz x y" and ok: "open_grants t (snd x) (fst x) \<le> 1"
  shows "open_grants t (snd y) (fst y) \<le> 1"
proof -
  obtain op who where y: "fst y = operate rz op who (snd y) (fst x)" and "snd x \<le> snd y" using assms(1) by (auto simp: clocked_step_def)
  then have before: "open_grants t (snd y) (fst x) \<le> 1" using open_grants_later [of "snd x" "snd y" t "fst x"] ok by simp
  show ?thesis
  proof (cases "about_grants op")
    case False
    then show ?thesis using before by (simp add: y open_grants_def other_ops_keep_grants)
  next
    case True
    then consider (request) i u why ttl where "op = RequestGrant i u why ttl" | (revoke) u i where "op = RevokeGrant u i" | (expire) "op = ExpireGrants"
      by (cases op) (auto simp: about_grants_def)
    then show ?thesis
    proof cases
      case request
      show ?thesis
      proof (cases "u = t")
        case same: True
        show ?thesis
          using before by (auto simp: y request same open_grants_def request_break_glass_def after_def filter_empty_conv)
      next
        case False
        then show ?thesis using before by (auto simp: y request open_grants_def request_break_glass_def after_def live_grant_def)
      qed
    next
      case revoke
      have "open_grants t (snd y) (set_grant i (\<lambda>g. g\<lparr>gr_status := GRANT_REVOKED, gr_revoked := Some (snd y, who)\<rparr>) (fst x)) \<le> 1"
        by (rule order_trans [OF open_grants_closed before]) (simp add: live_grant_def)
      then show ?thesis using before by (auto simp: y revoke revoke_break_glass_def split: option.splits)
    next
      case expire
      then show ?thesis using expire_grants_open [of t "snd y" "snd y" "fst x"] before by (simp add: y)
    qed
  qed
qed

text \<open>
  C24. Support access is never open twice: as the clock moves on and whatever is requested, revoked and
  expired, a tenant has at most one grant that is active and not past its end.
\<close>

theorem one_open_grant:
  assumes "(clocked_step rz)\<^sup>*\<^sup>* (s, now) (s', later)" and "open_grants t now s \<le> 1"
  shows "open_grants t later s' \<le> 1"
proof -
  from assms(1) have "open_grants t (snd (s', later)) (fst (s', later)) \<le> 1"
    by (induction rule: rtranclp_induct) (use assms(2) open_grants_step in auto)
  then show ?thesis by simp
qed

section \<open>Renewals\<close>

lemma find_set_sub:
  assumes "\<And>b. sb_tenant (f b) = sb_tenant b"
  shows "find_sub (set_sub t f s) u = (if u = t then map_option f (find_sub s u) else find_sub s u)"
proof -
  have tab: "pf_subs (set_sub t f s) = update_rows (\<lambda>r. sb_tenant r = t) f (pf_subs s)" by (simp add: set_sub_def)
  have "find_row (\<lambda>r. sb_tenant r = u) (update_rows (\<lambda>r. sb_tenant r = t) f rs)
    = (if u = t then map_option f (find_row (\<lambda>r. sb_tenant r = u) rs) else find_row (\<lambda>r. sb_tenant r = u) rs)" for rs
    using assms by (induction rs) auto
  then show ?thesis unfolding find_sub_def tab .
qed

text \<open>
  A renewal keeps the negotiated terms and refreshes the rest: seats and the rate per seat stay as
  they are to the paisa, modules and features become those of the plan as it stands today, and the term
  is a year longer.
\<close>

theorem renewal_keeps_terms:
  assumes "renew_subscription t who now s = Inr s'" and "find_sub s t = Some b" and "sb_price b = Some p" and "hundredths p"
  shows "\<exists>b'. find_sub s' t = Some b' \<and> sb_seats b' = sb_seats b \<and> sb_price b' = Some p
    \<and> sb_modules b' = pl_modules (get_plan (sb_plan b) s) \<and> sb_features b' = pl_features (get_plan (sb_plan b) s)
    \<and> sb_renews b' = Some (next_year (case sb_renews b of None \<Rightarrow> now | Some d \<Rightarrow> d))"
proof -
  have "price_col (num p) = p" using days_col_num [OF assms(4)] by (simp add: price_col_def days_col_def)
  with assms show ?thesis
    by (auto simp: renew_subscription_def find_set_sub take_snapshot_def snapshot_for_def keep_def Let_def)
qed

section \<open>Where code and intent part\<close>

text \<open>
  A tenant that went read-only when its grace ended and is then converted by the operator keeps the old
  end of the grace: the next nightly job makes the paying tenant read-only again.
\<close>

lemma converted_tenant_closed_again:
  assumes uniq: "unique_key tn_id (pf_tenants s)" and "find_tenant s t = Some r" and "tn_status r = TENANT_READ_ONLY"
    and "find_sub s t = Some b" and "sb_plan b = p" and "sb_grace_ends b = Some g" and "g \<le> later"
    and conv: "convert_tenant t p who now s = Inr s'"
  shows "status_of s' t = Some TENANT_ACTIVE" and "status_of (enforce_grace later s') t = Some TENANT_READ_ONLY"
proof -
  have s': "find_tenant s' t = Some (r\<lparr>tn_status := TENANT_ACTIVE\<rparr>)" "\<exists>b'. find_sub s' t = Some b' \<and> sb_grace_ends b' = Some g"
    using assms by (auto simp: convert_tenant_def find_tenant_set_status find_set_sub)
  then show "status_of s' t = Some TENANT_ACTIVE" by (simp add: status_of_def)
  have "r\<lparr>tn_status := TENANT_ACTIVE\<rparr> \<in> set (pf_tenants s')" "tn_id r = t"
    using s'(1) find_row_SomeD [of "\<lambda>r. tn_id r = t" "pf_tenants s'"] by (auto simp: find_tenant_def)
  then have "\<exists>q \<in> set (pf_tenants s'). tn_id q = t \<and> tn_status q = TENANT_ACTIVE"
    by (intro bexI [of _ "r\<lparr>tn_status := TENANT_ACTIVE\<rparr>"]) simp_all
  then have "t \<in> set (overdue later s')" using s'(2) assms(7) by (auto simp: overdue_def due_def)
  then show "status_of (enforce_grace later s') t = Some TENANT_READ_ONLY"
    using s'(1) by (simp add: enforce_grace_def status_of_def read_only_all)
qed

text \<open>
  The signature covers the body, the event id comes from a header beside it: a captured activation with
  another id is applied again, and opens a tenant that was closed since.
\<close>

lemma replayed_activation:
  assumes "rz_secret rz = Some secret" and "secret \<noteq> []" and "rz_signed rz raw sg secret" and "sg \<noteq> []"
    and "rz_parse rz raw = Some ev" and "ev_type ev = ''subscription.activated''" and "ev_payment ev = None"
    and "ev_subscription ev = Some psub" and "psub \<noteq> []" and "find_row (\<lambda>b. sb_provider b = Some psub) (pf_subs s) = Some b"
    and "find_tenant s (sb_tenant b) = Some r" and "tn_status r = TENANT_READ_ONLY"
    and "fresh \<noteq> []" and "fresh \<notin> be_id ` set (pf_events s)"
  shows "\<exists>s'. handle_webhook rz (Some raw) (Some sg) (Some fresh) now s = Inr (Applied, s') \<and> status_of s' (sb_tenant b) = Some TENANT_ACTIVE"
proof -
  have "\<not> (\<exists>e \<in> set (pf_events s). be_id e = fresh)" using assms(14) by auto
  moreover have "find_tenant (s\<lparr>pf_events := es\<rparr>) t = find_tenant s t" for es t by (simp add: find_tenant_def)
  ultimately show ?thesis
    using assms by (simp add: handle_webhook_def apply_event_def record_payment_def event_key_def Let_def)
qed

section \<open>A charge and a renewal\<close>

definition sample_charge :: provider_event where
  "sample_charge = \<lparr>ev_type = ''subscription.charged'', ev_subscription = Some ''sub_1'', ev_current_end = Some 1775000000,
     ev_payment = Some \<lparr>rp_id = ''pay_1'', rp_paise = 600000, rp_currency = None, rp_created = None\<rparr>\<rparr>"

definition sample_provider :: provider where
  "sample_provider = \<lparr>rz_secret = Some ''key'', rz_signed = (\<lambda>raw sg key. sg = key @ raw), rz_parse = (\<lambda>raw. if raw = ''{}'' then Some sample_charge else None),
     rz_create_plan = (\<lambda>n. Some ''plan_1''), rz_create_subscription = (\<lambda>p t. Some (''sub_2'', ''https''))\<rparr>"

definition charged :: platform_db where
  "charged = after2 (sample_platform TENANT_TRIAL)
     (handle_webhook sample_provider (Some ''{}'') (Some ''key{}'') (Some ''evt_1'') 0 (sample_platform TENANT_TRIAL))"

lemma sample_charged:
  "handle_webhook sample_provider (Some ''{}'') (Some ''key{}'') (Some ''evt_1'') 0 (sample_platform TENANT_TRIAL) = Inr (Applied, charged)"
proof -
  have "\<exists>s'. handle_webhook sample_provider (Some ''{}'') (Some ''key{}'') (Some ''evt_1'') 0 (sample_platform TENANT_TRIAL) = Inr (Applied, s')"
    by (simp add: handle_webhook_def sample_provider_def sample_charge_def sample_platform_def sample_sub_def sample_tenant_def
        find_tenant_def event_key_def apply_event_def record_payment_def Let_def)
  then show ?thesis by (auto simp: charged_def)
qed

lemma platform_stepI: "(platform_step rz)\<^sup>*\<^sup>* s (operate rz op who now s)"
  by (rule r_into_rtranclp) (auto simp: platform_step_def)

theorem billing_event_counts_once_witness:
  "handle_webhook sample_provider (Some ''{}'') (Some ''key{}'') (Some ''evt_1'') 9 (operate sample_provider EnforceGrace ''job'' 5 charged)
      = Inr (Duplicate, operate sample_provider EnforceGrace ''job'' 5 charged)
    \<or> handle_webhook sample_provider (Some ''{}'') (Some ''key{}'') (Some ''evt_1'') 9 (operate sample_provider EnforceGrace ''job'' 5 charged)
      = Inr (Ignored, operate sample_provider EnforceGrace ''job'' 5 charged)"
  by (rule billing_event_counts_once [OF sample_charged platform_stepI])

theorem one_open_grant_witness:
  "open_grants ''t1'' 7 (operate no_provider (RequestGrant ''g1'' ''t1'' ''why'' 60) ''op'' 7 (sample_platform TENANT_ACTIVE)) \<le> 1"
proof (rule one_open_grant [of no_provider])
  show "(clocked_step no_provider)\<^sup>*\<^sup>* (sample_platform TENANT_ACTIVE, 0)
    (operate no_provider (RequestGrant ''g1'' ''t1'' ''why'' 60) ''op'' 7 (sample_platform TENANT_ACTIVE), 7)"
    unfolding clocked_step_def by (rule r_into_rtranclp, rule conjI) (simp, intro exI, simp only: fst_conv snd_conv)
  show "open_grants ''t1'' 0 (sample_platform TENANT_ACTIVE) \<le> 1" by (simp add: open_grants_def sample_platform_def)
qed

definition renewed :: platform_db where
  "renewed = after (sample_platform TENANT_ACTIVE) (renew_subscription ''t1'' ''op'' 0 (sample_platform TENANT_ACTIVE))"

lemma sample_renewed: "renew_subscription ''t1'' ''op'' 0 (sample_platform TENANT_ACTIVE) = Inr renewed"
  unfolding renewed_def by (simp add: renew_subscription_def sample_rows_found Let_def)

theorem renewal_keeps_terms_witness:
  "\<exists>b'. find_sub renewed ''t1'' = Some b' \<and> sb_seats b' = sb_seats sample_sub \<and> sb_price b' = Some 150
    \<and> sb_modules b' = pl_modules (get_plan (sb_plan sample_sub) (sample_platform TENANT_ACTIVE))
    \<and> sb_features b' = pl_features (get_plan (sb_plan sample_sub) (sample_platform TENANT_ACTIVE))
    \<and> sb_renews b' = Some (next_year (case sb_renews sample_sub of None \<Rightarrow> 0 | Some d \<Rightarrow> d))"
proof (rule renewal_keeps_terms [OF sample_renewed sample_rows_found(2)])
  show "sb_price sample_sub = Some 150" by (simp add: sample_sub_def)
  show "hundredths (150 :: decimal)" unfolding hundredths_def by (rule exI [of _ 15000]) simp
qed

end
