(* ===== verification/Guards.thy ===== *)
theory Guards
  imports Platform "HOL-Library.AList"
begin

text \<open>
  The way of a request through the application: the short-lived caches
  (\<open>common/tenancy/auth-context-cache.ts\<close>), the tenant of the request (\<open>tenant-resolution.middleware.ts\<close>)
  and the guards (\<open>common/guards/\<close>). The sign-in service's check of a token is a function of the token;
  times are milliseconds.
\<close>

section \<open>The cache\<close>

text \<open>A \<open>Map\<close> keeps insertion order; setting a key that is there keeps its place.\<close>

type_synonym 'v cache = "(string \<times> 'v \<times> date) list"

definition AUTH_CACHE_TTL_MS :: int where "AUTH_CACHE_TTL_MS = 30000"
definition MAX_ENTRIES :: nat where "MAX_ENTRIES = 10000"

definition cache_get :: "string \<Rightarrow> date \<Rightarrow> 'v cache \<Rightarrow> 'v option \<times> 'v cache" where
  "cache_get k now c =
     (case map_of c k of
        None \<Rightarrow> (None, c)
      | Some (v, expires) \<Rightarrow> if expires \<le> now then (None, filter (\<lambda>e. fst e \<noteq> k) c) else (Some v, c))"

definition evict_expired :: "date \<Rightarrow> 'v cache \<Rightarrow> 'v cache" where
  "evict_expired now c = filter (\<lambda>e. now < snd (snd e)) c"

definition cache_set :: "string \<Rightarrow> 'v \<Rightarrow> date \<Rightarrow> 'v cache \<Rightarrow> 'v cache" where
  "cache_set k v now c =
     (let c1 = (if MAX_ENTRIES \<le> length c then evict_expired now c else c);
          c2 = (if MAX_ENTRIES \<le> length c1 then [] else c1)
      in AList.update k (v, now + AUTH_CACHE_TTL_MS) c2)"

section \<open>Users, tokens, requests\<close>

record login_row =
  us_id :: id
  us_tenant :: id
  us_uid :: id
  us_role :: role
  us_email :: string
  us_active :: bool
  us_employee :: "id option"

record token_claims =
  cl_uid :: id
  cl_tenant :: "string option"
  cl_role :: "string option"
  cl_type :: "string option"

datatype resolution_mode = BY_HEADER | BY_SUBDOMAIN

record server =
  sv_mode :: resolution_mode
  sv_verify :: "string \<Rightarrow> token_claims option"

record request =
  rq_method :: string
  rq_url :: string
  rq_host :: "string option"
  rq_tenant_header :: "string option"
  rq_authorization :: "string option"

text \<open>What the decorators of a route say.\<close>

record route =
  rt_roles :: "role list"
  rt_module :: "string option"
  rt_feature :: "string option"

record identity_db =
  id_platform :: platform_db
  id_users :: "login_row table"
  id_setup_done :: "id set"
  id_platform_admins :: "id set"

record caches =
  ca_tenants :: "tenant_row cache"
  ca_users :: "login_row cache"
  ca_setup :: "bool cache"

definition empty_caches :: caches where
  "empty_caches = \<lparr>ca_tenants = [], ca_users = [], ca_setup = []\<rparr>"

datatype access_msg =
    NoTenantResolved
  | UnknownTenant
  | TenantIsSuspended
  | WorkspaceReadOnly
  | MissingToken
  | InvalidToken
  | MissingClaims
  | AccountInactive
  | NoSubscription
  | TenantMismatch
  | SetupIncomplete
  | InsufficientRole
  | NotInPlan
  | FeatureNotInPlan
  | NotPlatformAdmin

type_synonym 'a access_answer = "(access_msg exn, 'a) result"

section \<open>The tenant of a request\<close>

fun split_at :: "char \<Rightarrow> string \<Rightarrow> string list" where
  "split_at c [] = [[]]"
| "split_at c (x # xs) = (if x = c then [] # split_at c xs else (case split_at c xs of [] \<Rightarrow> [[x]] | p # ps \<Rightarrow> (x # p) # ps))"

definition extract_subdomain :: "server \<Rightarrow> request \<Rightarrow> string option" where
  "extract_subdomain sv q =
     (case sv_mode sv of
        BY_HEADER \<Rightarrow> (case rq_tenant_header q of None \<Rightarrow> None | Some h \<Rightarrow> if h = [] then None else Some (trim (to_lower h)))
      | BY_SUBDOMAIN \<Rightarrow>
          (let parts = split_at (CHR ''.'') (or_empty (rq_host q))
           in if length parts < 3 then None else Some (trim (to_lower (hd parts)))))"

definition url_path :: "string \<Rightarrow> string" where
  "url_path u = takeWhile (\<lambda>c. c \<noteq> CHR ''?'') u"

definition is_write_to_read_only_blocked :: "string \<Rightarrow> string \<Rightarrow> bool" where
  "is_write_to_read_only_blocked m u \<longleftrightarrow>
     to_upper m \<in> {''POST'', ''PUT'', ''PATCH'', ''DELETE''} \<and> url_path u \<noteq> ''/api/auth/session''"

definition lookup_tenant :: "string \<Rightarrow> identity_db \<Rightarrow> tenant_row option" where
  "lookup_tenant sd db = find_row (\<lambda>r. tn_subdomain r = sd) (pf_tenants (id_platform db))"

text \<open>Look in the cache, else in the table; what was found in the table is cached.\<close>

definition cached_or :: "string \<Rightarrow> date \<Rightarrow> 'v option \<Rightarrow> 'v cache \<Rightarrow> 'v option \<times> 'v cache" where
  "cached_or k now found c =
     (case cache_get k now c of
        (Some v, c1) \<Rightarrow> (Some v, c1)
      | (None, c1) \<Rightarrow> (case found of None \<Rightarrow> (None, c1) | Some v \<Rightarrow> (Some v, cache_set k v now c1)))"

definition check_tenant :: "request \<Rightarrow> tenant_row \<Rightarrow> unit access_answer" where
  "check_tenant q t =
     (if tn_status t = TENANT_SUSPENDED then Inl (Forbidden TenantIsSuspended)
      else if tn_status t = TENANT_READ_ONLY \<and> is_write_to_read_only_blocked (rq_method q) (rq_url q) then Inl (Forbidden WorkspaceReadOnly)
      else Inr ())"

definition resolve_tenant :: "server \<Rightarrow> request \<Rightarrow> date \<Rightarrow> identity_db \<Rightarrow> caches \<Rightarrow> tenant_row access_answer \<times> caches" where
  "resolve_tenant sv q now db ca =
     (case extract_subdomain sv q of
        None \<Rightarrow> (Inl (NotFound NoTenantResolved), ca)
      | Some sd \<Rightarrow>
          if sd = [] then (Inl (NotFound NoTenantResolved), ca)
          else (case cached_or sd now (lookup_tenant sd db) (ca_tenants ca) of
             (None, c) \<Rightarrow> (Inl (NotFound UnknownTenant), ca\<lparr>ca_tenants := c\<rparr>)
           | (Some t, c) \<Rightarrow> (and_then (check_tenant q t) (\<lambda>_. Inr t), ca\<lparr>ca_tenants := c\<rparr>)))"

section \<open>Who asks\<close>

definition BEARER :: string where "BEARER = ''Bearer ''"

definition extract_bearer_token :: "request \<Rightarrow> string option" where
  "extract_bearer_token q =
     (case rq_authorization q of
        None \<Rightarrow> None
      | Some h \<Rightarrow> if take (length BEARER) h = BEARER then Some (drop (length BEARER) h) else None)"

record guard_user =
  gu_id :: id
  gu_tenant :: id
  gu_role :: role
  gu_employee :: "id option"
  gu_setup_done :: bool

definition load_user :: "id \<Rightarrow> id \<Rightarrow> identity_db \<Rightarrow> login_row option" where
  "load_user t uid db = find_row (\<lambda>u. us_tenant u = t \<and> us_uid u = uid) (id_users db)"

definition user_key :: "id \<Rightarrow> id \<Rightarrow> string" where
  "user_key t uid = t @ '':'' @ uid"

text \<open>Only a finished setup is cached.\<close>

definition load_setup :: "id \<Rightarrow> identity_db \<Rightarrow> bool option" where
  "load_setup t db = (if t \<in> id_setup_done db then Some True else None)"

definition jwt_guard :: "server \<Rightarrow> request \<Rightarrow> date \<Rightarrow> identity_db \<Rightarrow> caches \<Rightarrow> guard_user access_answer \<times> caches" where
  "jwt_guard sv q now db ca =
     (case extract_bearer_token q of
        None \<Rightarrow> (Inl (Unauthorized MissingToken), ca)
      | Some token \<Rightarrow>
          if token = [] then (Inl (Unauthorized MissingToken), ca)
          else (case sv_verify sv token of
             None \<Rightarrow> (Inl (Unauthorized InvalidToken), ca)
           | Some c \<Rightarrow>
               (case (cl_tenant c, cl_role c) of
                  (Some t, Some r) \<Rightarrow>
                    if t = [] \<or> r = [] then (Inl (Unauthorized MissingClaims), ca)
                    else
                      (let (user, cu) = cached_or (user_key t (cl_uid c)) now (load_user t (cl_uid c) db) (ca_users ca);
                           (done, cs) = cached_or t now (load_setup t db) (ca_setup ca);
                           ca1 = ca\<lparr>ca_users := cu, ca_setup := cs\<rparr>
                       in (case user of
                            None \<Rightarrow> Inl (Unauthorized AccountInactive)
                          | Some u \<Rightarrow>
                              if \<not> us_active u then Inl (Unauthorized AccountInactive)
                              else Inr \<lparr>gu_id = us_id u, gu_tenant = t, gu_role = us_role u, gu_employee = us_employee u,
                                gu_setup_done = (done = Some True)\<rparr>, ca1))
                | _ \<Rightarrow> (Inl (Unauthorized MissingClaims), ca))))"

section \<open>Guards of a route\<close>

definition starts_with :: "string \<Rightarrow> string \<Rightarrow> bool" where
  "starts_with p s \<longleftrightarrow> take (length p) s = p"

definition is_setup_exempt :: "string \<Rightarrow> bool" where
  "is_setup_exempt u \<longleftrightarrow>
     (let path = url_path u
      in path = ''/api/access/me'' \<or> path = ''/api/setup'' \<or> starts_with ''/api/setup/'' path
         \<or> path = ''/api/auth/'' \<or> starts_with ''/api/auth/'' path)"

definition tenant_guard :: "request \<Rightarrow> tenant_row \<Rightarrow> guard_user \<Rightarrow> unit access_answer" where
  "tenant_guard q t u =
     (if gu_tenant u \<noteq> tn_id t then Inl (Forbidden TenantMismatch)
      else if \<not> gu_setup_done u \<and> \<not> is_setup_exempt (rq_url q) then Inl (Forbidden SetupIncomplete)
      else Inr ())"

definition roles_guard :: "role list \<Rightarrow> guard_user \<Rightarrow> unit access_answer" where
  "roles_guard required u = (if required = [] \<or> gu_role u \<in> set required then Inr () else Inl (Forbidden InsufficientRole))"

definition entitlement_guard :: "string option \<Rightarrow> string option \<Rightarrow> guard_user \<Rightarrow> identity_db \<Rightarrow> unit access_answer" where
  "entitlement_guard needed feature u db =
     (let m = (case needed of None \<Rightarrow> None | Some x \<Rightarrow> if x = [] then None else Some x);
          f = (case feature of None \<Rightarrow> None | Some x \<Rightarrow> if x = [] then None else Some x)
      in if m = None \<and> f = None then Inr ()
         else (case find_sub (id_platform db) (gu_tenant u) of
            None \<Rightarrow> Inl (Forbidden NoSubscription)
          | Some b \<Rightarrow>
              if (case m of None \<Rightarrow> False | Some x \<Rightarrow> x \<notin> set (sb_modules b)) then Inl (Forbidden NotInPlan)
              else if (case f of None \<Rightarrow> False | Some x \<Rightarrow> map_of (sb_features b) x \<noteq> Some True) then Inl (Forbidden FeatureNotInPlan)
              else Inr ()))"

text \<open>
  The chain of a tenant route that is not public: the middleware, then the guards in their order.
\<close>

definition admit :: "server \<Rightarrow> route \<Rightarrow> request \<Rightarrow> date \<Rightarrow> identity_db \<Rightarrow> caches \<Rightarrow> guard_user access_answer \<times> caches" where
  "admit sv rt q now db ca =
     (case resolve_tenant sv q now db ca of
        (Inl e, ca1) \<Rightarrow> (Inl e, ca1)
      | (Inr t, ca1) \<Rightarrow>
          (case jwt_guard sv q now db ca1 of
             (Inl e, ca2) \<Rightarrow> (Inl e, ca2)
           | (Inr u, ca2) \<Rightarrow>
               (and_then (tenant_guard q t u) (\<lambda>_. and_then (entitlement_guard (rt_module rt) (rt_feature rt) u db) (\<lambda>_.
                  and_then (roles_guard (rt_roles rt) u) (\<lambda>_. Inr u))), ca2)))"

definition platform_guard :: "server \<Rightarrow> request \<Rightarrow> identity_db \<Rightarrow> id access_answer" where
  "platform_guard sv q db =
     (case extract_bearer_token q of
        None \<Rightarrow> Inl (Unauthorized MissingToken)
      | Some token \<Rightarrow>
          if token = [] then Inl (Unauthorized MissingToken)
          else (case sv_verify sv token of
             None \<Rightarrow> Inl (Unauthorized InvalidToken)
           | Some c \<Rightarrow>
               if cl_type c \<noteq> Some ''platform_admin'' then Inl (Unauthorized NotPlatformAdmin)
               else if cl_uid c \<notin> id_platform_admins db then Inl (Unauthorized NotPlatformAdmin)
               else Inr (cl_uid c)))"

section \<open>Writes clear the caches\<close>

datatype db_write =
    WriteTenants "tenant_row table"
  | WriteSubscriptions "subscription_row table"
  | WriteUsers "login_row table"
  | WriteLoginLinks "login_row table"
  | WriteSetup "id set"

text \<open>The Prisma middleware: a write clears the cache of what it wrote, on this instance.\<close>

fun written :: "db_write \<Rightarrow> identity_db \<Rightarrow> identity_db" where
  "written (WriteTenants ts) db = db\<lparr>id_platform := (id_platform db)\<lparr>pf_tenants := ts\<rparr>\<rparr>"
| "written (WriteSubscriptions bs) db = db\<lparr>id_platform := (id_platform db)\<lparr>pf_subs := bs\<rparr>\<rparr>"
| "written (WriteUsers us) db = db\<lparr>id_users := us\<rparr>"
| "written (WriteLoginLinks us) db = db\<lparr>id_users := us\<rparr>"
| "written (WriteSetup ts) db = db\<lparr>id_setup_done := ts\<rparr>"

fun invalidate_on_identity_writes :: "db_write \<Rightarrow> caches \<Rightarrow> caches" where
  "invalidate_on_identity_writes (WriteTenants ts) ca = ca\<lparr>ca_tenants := []\<rparr>"
| "invalidate_on_identity_writes (WriteSubscriptions bs) ca = ca"
| "invalidate_on_identity_writes (WriteUsers us) ca = ca\<lparr>ca_users := []\<rparr>"
| "invalidate_on_identity_writes (WriteLoginLinks us) ca = ca\<lparr>ca_users := []\<rparr>"
| "invalidate_on_identity_writes (WriteSetup ts) ca = ca\<lparr>ca_setup := []\<rparr>"

end
