(* ===== verification/AccessProperties.thy ===== *)
theory AccessProperties
  imports Guards PlatformProperties
begin

text \<open>
  Who gets in: what an admitted request guarantees, that the caches never change a decision on the
  instance that writes, and that they stay small and short-lived.
\<close>

section \<open>The cache\<close>

datatype 'v cache_op =
    Put string 'v date
  | Fetch string date
  | Wipe

fun cache_run :: "'v cache_op \<Rightarrow> 'v cache \<Rightarrow> 'v cache" where
  "cache_run (Put k v now) c = cache_set k v now c"
| "cache_run (Fetch k now) c = snd (cache_get k now c)"
| "cache_run Wipe c = []"

lemma update_entries: "set (AList.update k v c) \<subseteq> insert (k, v) (set c)"
  by (induction c) auto

lemma update_length: "length (AList.update k v c) \<le> Suc (length c)"
  by (induction c) auto

lemma cache_set_entries: "set (cache_set k v now c) \<subseteq> insert (k, v, now + AUTH_CACHE_TTL_MS) (set c)"
  using update_entries [of k "(v, now + AUTH_CACHE_TTL_MS)" "[]"] update_entries [of k "(v, now + AUTH_CACHE_TTL_MS)" c]
    update_entries [of k "(v, now + AUTH_CACHE_TTL_MS)" "evict_expired now c"]
  by (auto simp: cache_set_def evict_expired_def Let_def split: if_splits)

lemma cache_get_entries: "set (snd (cache_get k now c)) \<subseteq> set c"
  by (auto simp: cache_get_def split: option.splits)

lemma cache_get_hit: "fst (cache_get k now c) = Some v \<Longrightarrow> \<exists>expires. (k, v, expires) \<in> set c \<and> now < expires"
  by (auto simp: cache_get_def not_le split: option.splits if_split_asm dest!: map_of_SomeD)

lemma cache_set_length: "length c \<le> MAX_ENTRIES \<Longrightarrow> length (cache_set k v now c) \<le> MAX_ENTRIES"
proof -
  assume c: "length c \<le> MAX_ENTRIES"
  have pos: "Suc 0 \<le> MAX_ENTRIES" by (simp add: MAX_ENTRIES_def)
  have upd: "length (AList.update k (v, now + AUTH_CACHE_TTL_MS) d) \<le> MAX_ENTRIES" if "length d < MAX_ENTRIES" for d
    using update_length [of k "(v, now + AUTH_CACHE_TTL_MS)" d] that by simp
  show ?thesis
    using c pos upd [of c] upd [of "[]"] upd [of "evict_expired now c"]
    by (auto simp: cache_set_def Let_def not_le)
qed

lemma cache_get_length: "length (snd (cache_get k now c)) \<le> length c"
  by (simp add: cache_get_def split: option.splits)

text \<open>
  C25. The caches are bounded and short-lived: after any sequence of operations a cache holds at most
  10,000 entries, and a value it serves was stored under the very key less than 30 seconds before.
\<close>

theorem cache_bounded_and_fresh:
  assumes "c = foldl (\<lambda>c op. cache_run op c) [] ops"
  shows "length c \<le> MAX_ENTRIES
    \<and> (fst (cache_get k now c) = Some v \<longrightarrow> (\<exists>t. Put k v t \<in> set ops \<and> now < t + AUTH_CACHE_TTL_MS))"
proof -
  have "length (foldl (\<lambda>c op. cache_run op c) [] ops) \<le> MAX_ENTRIES
    \<and> (\<forall>k v x. (k, v, x) \<in> set (foldl (\<lambda>c op. cache_run op c) [] ops) \<longrightarrow> (\<exists>t. Put k v t \<in> set ops \<and> x = t + AUTH_CACHE_TTL_MS))"
  proof (induction ops rule: rev_induct)
    case (snoc op ops)
    then show ?case
    proof (cases op)
      case (Put k v t)
      with snoc cache_set_length cache_set_entries [of k v t "foldl (\<lambda>c op. cache_run op c) [] ops"] show ?thesis
        by (fastforce simp: Put)
    next
      case (Fetch k t)
      with snoc cache_get_length [of k t "foldl (\<lambda>c op. cache_run op c) [] ops"]
        cache_get_entries [of k t "foldl (\<lambda>c op. cache_run op c) [] ops"] show ?thesis by (fastforce simp: Fetch)
    qed simp
  qed simp
  then show ?thesis
    unfolding assms using cache_get_hit [of k now "foldl (\<lambda>c op. cache_run op c) [] ops" v] by blast
qed

section \<open>Coherence\<close>

text \<open>Every cached row is the row of the table; tenant ids hold no colon.\<close>

definition coherent :: "identity_db \<Rightarrow> caches \<Rightarrow> bool" where
  "coherent db ca \<longleftrightarrow>
     (\<forall>e \<in> set (ca_tenants ca). lookup_tenant (fst e) db = Some (fst (snd e)))
   \<and> (\<forall>e \<in> set (ca_users ca). \<exists>t uid. fst e = user_key t uid \<and> CHR '':'' \<notin> set t \<and> load_user t uid db = Some (fst (snd e)))
   \<and> (\<forall>e \<in> set (ca_setup ca). load_setup (fst e) db = Some (fst (snd e)))"

lemma user_key_inj:
  assumes "user_key t uid = user_key t' uid'" and "CHR '':'' \<notin> set t" and "CHR '':'' \<notin> set t'"
  shows "t = t' \<and> uid = uid'"
proof -
  have "takeWhile (\<lambda>c. c \<noteq> CHR '':'') (user_key a b) = a" if "CHR '':'' \<notin> set a" for a b
  proof -
    have "takeWhile (\<lambda>c. c \<noteq> CHR '':'') (a @ CHR '':'' # b) = a @ takeWhile (\<lambda>c. c \<noteq> CHR '':'') (CHR '':'' # b)"
      by (rule takeWhile_append2) (use that in auto)
    then show ?thesis by (simp add: user_key_def)
  qed
  with assms have "t = t'" by metis
  with assms(1) show ?thesis by (simp add: user_key_def)
qed

lemma cached_or_value:
  assumes "\<And>e. e \<in> set c \<Longrightarrow> fst e = k \<Longrightarrow> found = Some (fst (snd e))"
  shows "fst (cached_or k now found c) = found"
proof (cases "fst (cache_get k now c)")
  case None
  then show ?thesis by (cases "cache_get k now c") (simp add: cached_or_def split: option.splits)
next
  case (Some v)
  from cache_get_hit [OF this] obtain x where "(k, v, x) \<in> set c" by blast
  with assms have "found = Some v" by force
  with Some show ?thesis by (cases "cache_get k now c") (simp add: cached_or_def)
qed

lemma cached_or_entries:
  "e \<in> set (snd (cached_or k now found c)) \<Longrightarrow> e \<in> set c \<or> fst e = k \<and> found = Some (fst (snd e))"
  using cache_get_entries [of k now c] cache_set_entries [of k _ now "snd (cache_get k now c)"]
  by (cases "cache_get k now c") (fastforce simp: cached_or_def split: option.splits)

lemma cached_or_empty [simp]: "fst (cached_or k now found []) = found"
  by (rule cached_or_value) simp

lemma coherentD:
  assumes "coherent db ca"
  shows "e \<in> set (ca_tenants ca) \<Longrightarrow> lookup_tenant (fst e) db = Some (fst (snd e))"
    and "f \<in> set (ca_setup ca) \<Longrightarrow> load_setup (fst f) db = Some (fst (snd f))"
    and "g \<in> set (ca_users ca) \<Longrightarrow> \<exists>t uid. fst g = user_key t uid \<and> CHR '':'' \<notin> set t \<and> load_user t uid db = Some (fst (snd g))"
  using assms unfolding coherent_def by simp_all

lemma coherent_caches:
  assumes "coherent db ca"
  shows "fst (cached_or sd now (lookup_tenant sd db) (ca_tenants ca)) = lookup_tenant sd db"
    and "fst (cached_or t now (load_setup t db) (ca_setup ca)) = load_setup t db"
proof -
  show "fst (cached_or sd now (lookup_tenant sd db) (ca_tenants ca)) = lookup_tenant sd db"
    by (rule cached_or_value) (drule coherentD(1) [OF assms], simp)
  show "fst (cached_or t now (load_setup t db) (ca_setup ca)) = load_setup t db"
    by (rule cached_or_value) (drule coherentD(2) [OF assms], simp)
qed

lemma coherent_user:
  assumes "coherent db ca" and "CHR '':'' \<notin> set t"
  shows "fst (cached_or (user_key t uid) now (load_user t uid db) (ca_users ca)) = load_user t uid db"
proof (rule cached_or_value)
  fix e assume e: "e \<in> set (ca_users ca)" "fst e = user_key t uid"
  obtain t' uid' where e': "fst e = user_key t' uid'" "CHR '':'' \<notin> set t'" "load_user t' uid' db = Some (fst (snd e))"
    using coherentD(3) [OF assms(1) e(1)] by (elim exE conjE)
  have "user_key t uid = user_key t' uid'" using e(2) e'(1) by (rule trans [OF sym])
  from user_key_inj [OF this assms(2) e'(2)] e'(3) show "load_user t uid db = Some (fst (snd e))" by (elim conjE) (simp only:)
qed

lemma coherent_tenants:
  assumes "coherent db ca"
  shows "coherent db (ca\<lparr>ca_tenants := snd (cached_or sd now (lookup_tenant sd db) (ca_tenants ca))\<rparr>)"
proof -
  have "lookup_tenant (fst e) db = Some (fst (snd e))" if "e \<in> set (snd (cached_or sd now (lookup_tenant sd db) (ca_tenants ca)))" for e
    using cached_or_entries [OF that] assms by (auto simp: coherent_def)
  with assms show ?thesis by (simp add: coherent_def)
qed

lemma coherent_user_setup:
  assumes "coherent db ca" and "CHR '':'' \<notin> set t"
  shows "coherent db (ca\<lparr>ca_users := snd (cached_or (user_key t uid) now (load_user t uid db) (ca_users ca)),
     ca_setup := snd (cached_or t now (load_setup t db) (ca_setup ca))\<rparr>)"
proof -
  have "\<exists>t uid. fst e = user_key t uid \<and> CHR '':'' \<notin> set t \<and> load_user t uid db = Some (fst (snd e))"
    if "e \<in> set (snd (cached_or (user_key t uid) now (load_user t uid db) (ca_users ca)))" for e
    using cached_or_entries [OF that] assms unfolding coherent_def by blast
  moreover have "load_setup (fst e) db = Some (fst (snd e))" if "e \<in> set (snd (cached_or t now (load_setup t db) (ca_setup ca)))" for e
    using cached_or_entries [OF that] assms(1) by (auto simp: coherent_def)
  ultimately show ?thesis using assms(1) by (simp add: coherent_def)
qed

lemma coherent_empty [simp]: "coherent db empty_caches"
  by (simp add: coherent_def empty_caches_def)

section \<open>The chain without caches\<close>

text \<open>What the tables alone decide: the reference the cached chain is compared with.\<close>

definition tenant_of_request :: "server \<Rightarrow> request \<Rightarrow> identity_db \<Rightarrow> tenant_row access_answer" where
  "tenant_of_request sv q db =
     (case extract_subdomain sv q of
        None \<Rightarrow> Inl (NotFound NoTenantResolved)
      | Some sd \<Rightarrow>
          if sd = [] then Inl (NotFound NoTenantResolved)
          else (case lookup_tenant sd db of None \<Rightarrow> Inl (NotFound UnknownTenant) | Some t \<Rightarrow> and_then (check_tenant q t) (\<lambda>_. Inr t)))"

definition claims_of :: "server \<Rightarrow> request \<Rightarrow> (id \<times> id) access_answer" where
  "claims_of sv q =
     (case extract_bearer_token q of
        None \<Rightarrow> Inl (Unauthorized MissingToken)
      | Some token \<Rightarrow>
          if token = [] then Inl (Unauthorized MissingToken)
          else (case sv_verify sv token of
             None \<Rightarrow> Inl (Unauthorized InvalidToken)
           | Some c \<Rightarrow> (case (cl_tenant c, cl_role c) of
               (Some t, Some r) \<Rightarrow> if t = [] \<or> r = [] then Inl (Unauthorized MissingClaims) else Inr (t, cl_uid c)
             | _ \<Rightarrow> Inl (Unauthorized MissingClaims))))"

definition user_of_request :: "server \<Rightarrow> request \<Rightarrow> identity_db \<Rightarrow> guard_user access_answer" where
  "user_of_request sv q db = and_then (claims_of sv q) (\<lambda>(t, uid).
     case load_user t uid db of
       None \<Rightarrow> Inl (Unauthorized AccountInactive)
     | Some u \<Rightarrow>
         if \<not> us_active u then Inl (Unauthorized AccountInactive)
         else Inr \<lparr>gu_id = us_id u, gu_tenant = t, gu_role = us_role u, gu_employee = us_employee u,
           gu_setup_done = (t \<in> id_setup_done db)\<rparr>)"

definition decide :: "server \<Rightarrow> route \<Rightarrow> request \<Rightarrow> identity_db \<Rightarrow> guard_user access_answer" where
  "decide sv rt q db =
     and_then (tenant_of_request sv q db) (\<lambda>t. and_then (user_of_request sv q db) (\<lambda>u.
     and_then (tenant_guard q t u) (\<lambda>_. and_then (entitlement_guard (rt_module rt) (rt_feature rt) u db) (\<lambda>_.
     and_then (roles_guard (rt_roles rt) u) (\<lambda>_. Inr u)))))"

text \<open>Tenant ids in tokens are UUIDs: no colon.\<close>

definition clean_tokens :: "server \<Rightarrow> bool" where
  "clean_tokens sv \<longleftrightarrow> (\<forall>token c t. sv_verify sv token = Some c \<and> cl_tenant c = Some t \<longrightarrow> CHR '':'' \<notin> set t)"

lemma resolve_tenant_coherent:
  assumes "coherent db ca"
  shows "fst (resolve_tenant sv q now db ca) = tenant_of_request sv q db \<and> coherent db (snd (resolve_tenant sv q now db ca))"
proof (cases "extract_subdomain sv q")
  case (Some sd)
  obtain f c where fc: "cached_or sd now (lookup_tenant sd db) (ca_tenants ca) = (f, c)" by force
  have "f = lookup_tenant sd db" using coherent_caches(1) [OF assms, of sd now] fc by simp
  moreover have "coherent db (ca\<lparr>ca_tenants := c\<rparr>)" using coherent_tenants [OF assms, of sd now] fc by simp
  ultimately show ?thesis using Some fc assms by (auto simp: resolve_tenant_def tenant_of_request_def split: option.splits)
qed (simp add: resolve_tenant_def tenant_of_request_def assms)

lemma jwt_guard_coherent:
  assumes "coherent db ca" and "clean_tokens sv"
  shows "fst (jwt_guard sv q now db ca) = user_of_request sv q db \<and> coherent db (snd (jwt_guard sv q now db ca))"
proof (cases "claims_of sv q")
  case (Inl e)
  then show ?thesis using assms(1)
    by (auto simp: jwt_guard_def user_of_request_def claims_of_def split: option.splits if_split_asm)
next
  case (Inr p)
  obtain t uid where p: "p = (t, uid)" by (cases p)
  from Inr p obtain token c r where tok: "extract_bearer_token q = Some token" "token \<noteq> []" "sv_verify sv token = Some c"
    "cl_tenant c = Some t" "cl_uid c = uid" "t \<noteq> []" "cl_role c = Some r" "r \<noteq> []"
    by (auto simp: claims_of_def split: option.splits if_split_asm)
  have t: "CHR '':'' \<notin> set t" using assms(2) tok(3,4) by (auto simp: clean_tokens_def)
  obtain fu cu where u: "cached_or (user_key t uid) now (load_user t uid db) (ca_users ca) = (fu, cu)" by force
  obtain fs cs where s: "cached_or t now (load_setup t db) (ca_setup ca) = (fs, cs)" by force
  have "fu = load_user t uid db" "fs = load_setup t db"
    using coherent_caches(2) [OF assms(1), where t = t and now = now] coherent_user [OF assms(1) t, where uid = uid and now = now] u s
    by simp_all
  moreover have "coherent db (ca\<lparr>ca_users := cu, ca_setup := cs\<rparr>)"
    using coherent_user_setup [OF assms(1) t, where uid = uid and now = now] u s by simp
  ultimately show ?thesis
    using tok Inr p u s by (auto simp: jwt_guard_def user_of_request_def load_setup_def Let_def split: option.splits)
qed

lemma admit_coherent:
  assumes "coherent db ca" and "clean_tokens sv"
  shows "fst (admit sv rt q now db ca) = decide sv rt q db" and "coherent db (snd (admit sv rt q now db ca))"
proof -
  obtain r ca1 where r: "resolve_tenant sv q now db ca = (r, ca1)" by force
  have one: "r = tenant_of_request sv q db" "coherent db ca1" using resolve_tenant_coherent [OF assms(1), of sv q now] r by simp_all
  obtain j ca2 where j: "jwt_guard sv q now db ca1 = (j, ca2)" by force
  have two: "j = user_of_request sv q db" "coherent db ca2" using jwt_guard_coherent [OF one(2) assms(2), of q now] j by simp_all
  show "fst (admit sv rt q now db ca) = decide sv rt q db"
    unfolding admit_def decide_def r one(1) [symmetric] two(1) [symmetric] by (cases r; cases j) (simp_all add: j)
  show "coherent db (snd (admit sv rt q now db ca))"
    unfolding admit_def r using one(2) two(2) by (cases r; cases j) (simp_all add: j)
qed

section \<open>One instance over time\<close>

text \<open>What an instance does: it admits a request, or writes a row and clears what it cached of it.\<close>

datatype instance_op =
    Serve route request date
  | Write db_write

fun instance_step :: "server \<Rightarrow> instance_op \<Rightarrow> identity_db \<times> caches \<Rightarrow> identity_db \<times> caches" where
  "instance_step sv (Serve rt q now) (db, ca) = (db, snd (admit sv rt q now db ca))"
| "instance_step sv (Write w) (db, ca) = (written w db, invalidate_on_identity_writes w ca)"

lemma coherent_write: "coherent db ca \<Longrightarrow> coherent (written w db) (invalidate_on_identity_writes w ca)"
  by (cases w) (simp_all add: coherent_def lookup_tenant_def load_user_def load_setup_def)

lemma instance_coherent:
  assumes "clean_tokens sv"
  shows "foldl (\<lambda>s op. instance_step sv op s) (db, empty_caches) ops = (db', ca) \<Longrightarrow> coherent db' ca"
proof (induction ops arbitrary: db' ca rule: rev_induct)
  case (snoc op ops)
  obtain db1 ca1 where s: "foldl (\<lambda>s op. instance_step sv op s) (db, empty_caches) ops = (db1, ca1)" by force
  from snoc.IH [OF this] have "coherent db1 ca1" .
  with snoc.prems s show ?case
    by (cases op) (auto simp: coherent_write admit_coherent(2) [OF _ assms])
qed simp


section \<open>What an admitted request guarantees\<close>

lemma tenant_of_request_ok:
  assumes "tenant_of_request sv q db = Inr t"
  shows "\<exists>sd. extract_subdomain sv q = Some sd \<and> sd \<noteq> [] \<and> lookup_tenant sd db = Some t
    \<and> tn_status t \<noteq> TENANT_SUSPENDED
    \<and> (tn_status t = TENANT_READ_ONLY \<longrightarrow> \<not> is_write_to_read_only_blocked (rq_method q) (rq_url q))"
  using assms by (auto simp: tenant_of_request_def check_tenant_def split: option.splits if_split_asm)

lemma claims_of_ok:
  assumes "claims_of sv q = Inr (t, uid)"
  shows "\<exists>token c r. extract_bearer_token q = Some token \<and> sv_verify sv token = Some c \<and> cl_tenant c = Some t \<and> cl_uid c = uid
    \<and> cl_role c = Some r"
  using assms by (auto simp: claims_of_def split: option.splits if_split_asm)

lemma user_of_request_ok:
  assumes "user_of_request sv q db = Inr u"
  shows "\<exists>uid l. claims_of sv q = Inr (gu_tenant u, uid) \<and> load_user (gu_tenant u) uid db = Some l \<and> us_active l
    \<and> gu_id u = us_id l \<and> gu_role u = us_role l \<and> gu_employee u = us_employee l
    \<and> (gu_setup_done u \<longleftrightarrow> gu_tenant u \<in> id_setup_done db)"
  using assms by (auto simp: user_of_request_def split: option.splits if_split_asm prod.splits simp: and_then_Inr_iff)

lemma guards_ok:
  assumes "decide sv rt q db = Inr u"
  shows "\<exists>t. tenant_of_request sv q db = Inr t \<and> user_of_request sv q db = Inr u \<and> gu_tenant u = tn_id t
    \<and> (gu_setup_done u \<or> is_setup_exempt (rq_url q))
    \<and> entitlement_guard (rt_module rt) (rt_feature rt) u db = Inr ()
    \<and> (rt_roles rt = [] \<or> gu_role u \<in> set (rt_roles rt))"
  using assms
  by (auto simp: decide_def tenant_guard_def roles_guard_def split: if_split_asm simp: and_then_Inr_iff)



section \<open>A lookup that overlaps a write\<close>

text \<open>
  The tables are read before the cache is written, with an await between: a lookup that started before
  a write and stored its row after the write's clearing leaves the old row in the cache. Whatever the
  write made of the tenants, a tenant it suspended is served for the next 30 seconds.
\<close>

lemma overlapping_lookup_serves_suspended:
  assumes "lookup_tenant sd db = Some t" and "tn_status t = TENANT_ACTIVE" and "extract_subdomain sv q = Some sd" and "sd \<noteq> []"
    and "now' < now + AUTH_CACHE_TTL_MS"
  shows "fst (resolve_tenant sv q now' (written (WriteTenants ts) db)
    ((invalidate_on_identity_writes (WriteTenants ts) ca)\<lparr>ca_tenants := cache_set sd t now []\<rparr>)) = Inr t"
  using assms by (auto simp: resolve_tenant_def cached_or_def cache_set_def cache_get_def check_tenant_def evict_expired_def Let_def)

section \<open>Witnesses\<close>

definition sample_login :: login_row where
  "sample_login = \<lparr>us_id = ''u1'', us_tenant = ''t1'', us_uid = ''fb1'', us_role = HR_MANAGER, us_email = ''hr@acme.in'',
     us_active = True, us_employee = Some ''e1''\<rparr>"

definition sample_identity :: identity_db where
  "sample_identity = \<lparr>id_platform = sample_platform TENANT_ACTIVE, id_users = [sample_login], id_setup_done = {''t1''},
     id_platform_admins = {}\<rparr>"

definition sample_server :: server where
  "sample_server = \<lparr>sv_mode = BY_HEADER, sv_verify = (\<lambda>token. if token = ''good''
     then Some \<lparr>cl_uid = ''fb1'', cl_tenant = Some ''t1'', cl_role = Some ''HR_MANAGER'', cl_type = None\<rparr> else None)\<rparr>"

definition sample_request :: request where
  "sample_request = \<lparr>rq_method = ''GET'', rq_url = ''/api/leave'', rq_host = None, rq_tenant_header = Some ''Acme'',
     rq_authorization = Some ''Bearer good''\<rparr>"

definition sample_route :: route where
  "sample_route = \<lparr>rt_roles = [HR_MANAGER, COMPANY_ADMIN], rt_module = None, rt_feature = None\<rparr>"

lemma sample_tokens: "clean_tokens sample_server"
  by (simp add: clean_tokens_def sample_server_def)

theorem cache_bounded_and_fresh_witness:
  "length (cache_set ''k'' (1 :: nat) 0 []) \<le> MAX_ENTRIES"
  using cache_bounded_and_fresh [OF refl, of "[Put ''k'' (1 :: nat) 0]" "''k''" 0 1] by simp

lemma sample_run:
  "foldl (\<lambda>s op. instance_step sample_server op s) (sample_identity, empty_caches)
     [Write (WriteUsers [sample_login\<lparr>us_active := False\<rparr>])]
   = (sample_identity\<lparr>id_users := [sample_login\<lparr>us_active := False\<rparr>]\<rparr>, empty_caches)"
  by (simp add: empty_caches_def)


lemma sample_admitted:
  "fst (admit sample_server sample_route sample_request 0 sample_identity empty_caches)
   = Inr \<lparr>gu_id = ''u1'', gu_tenant = ''t1'', gu_role = HR_MANAGER, gu_employee = Some ''e1'', gu_setup_done = True\<rparr>"
  by code_simp


end
