(* ===== verification/PayrollBank.thy ===== *)
theory PayrollBank
  imports Imports PayrollRun
begin

text \<open>
  The payroll bank file (\<open>payroll/payroll-bank.service.ts\<close>) over the tables of payroll, the company's
  own bank settings and the employees' bank details, which are stored encrypted
  (\<open>crypto/field-encryption.service.ts\<close>): the cipher of the platform is a record of two functions that
  may fail. The bullets of a masked number are written as asterisks.
\<close>

section \<open>State\<close>

record vault =
  vt_encrypt :: "string \<Rightarrow> string option"
  vt_decrypt :: "string \<Rightarrow> string option"

record bank_config_row =
  bc_code :: string
  bc_holder :: string
  bc_account :: string
  bc_masked :: string
  bc_ifsc :: string
  bc_bank_name :: "string option"
  bc_branch :: "string option"
  bc_mode :: payment_mode

record bank_person =
  bp_id :: id
  bp_first :: string
  bp_last :: string
  bp_code :: string
  bp_account :: "string option"
  bp_ifsc :: "string option"
  bp_bank_name :: "string option"

record bank_db =
  bk_payroll :: payroll_db
  bk_config :: "bank_config_row option"
  bk_people :: "bank_person table"

datatype bank_msg =
    BankNotAllowed
  | AccountNeeded
  | WrongIfsc string
  | NoSuchRun
  | RunUnfinished
  | NoSuchFormat
  | FormatNotAvailable
  | CipherFailed

type_synonym 'a bank_answer = "(bank_msg exn, 'a) result"

definition bank_role :: "auth_user \<Rightarrow> unit bank_answer" where
  "bank_role user = (if user_role user \<in> {COMPANY_ADMIN, HR_MANAGER} then Inr () else Inl (Forbidden BankNotAllowed))"

section \<open>Masks\<close>

text \<open>\<open>slice(-n)\<close>\<close>

definition last_chars :: "nat \<Rightarrow> string \<Rightarrow> string" where
  "last_chars n s = drop (length s - n) s"

definition mask_bank_account :: "string \<Rightarrow> string" where
  "mask_bank_account a = ''****'' @ last_chars 4 a"

definition mask_pan :: "string \<Rightarrow> string" where
  "mask_pan p = (if length p < 6 then replicate (length p) (CHR ''*'')
     else take 5 p @ replicate (length p - 6) (CHR ''*'') @ last_chars 1 p)"

section \<open>The company's bank\<close>

record save_bank_dto =
  sk_code :: string
  sk_holder :: string
  sk_account :: "string option"
  sk_ifsc :: string
  sk_bank_name :: "string option"
  sk_branch :: "string option"
  sk_mode :: payment_mode

text \<open>\<open>s?.trim() || null\<close>\<close>

definition trim_or_null :: "string option \<Rightarrow> string option" where
  "trim_or_null s = (case s of None \<Rightarrow> None | Some t \<Rightarrow> if trim t = [] then None else Some (trim t))"

text \<open>\<open>x ? \<dots> : \<dots>\<close> on an optional string\<close>

definition given :: "string option \<Rightarrow> string option" where
  "given s = (case s of None \<Rightarrow> None | Some t \<Rightarrow> if t = [] then None else Some t)"

definition bank_audit :: "bool \<Rightarrow> auth_user \<Rightarrow> string \<Rightarrow> string \<Rightarrow> id option \<Rightarrow> bank_db \<Rightarrow> bank_db" where
  "bank_audit up user action target_type target s =
     s\<lparr>bk_payroll := write_payroll_audit up user action target_type target (bk_payroll s)\<rparr>"

definition get_config :: "bank_db \<Rightarrow> bank_config_row option" where
  "get_config s = bk_config s"

definition config_of :: "save_bank_dto \<Rightarrow> string \<Rightarrow> string \<Rightarrow> bank_config_row" where
  "config_of d cipher masked =
     \<lparr>bc_code = sk_code d, bc_holder = trim (sk_holder d), bc_account = cipher, bc_masked = masked,
      bc_ifsc = to_upper (trim (sk_ifsc d)), bc_bank_name = trim_or_null (sk_bank_name d),
      bc_branch = trim_or_null (sk_branch d), bc_mode = sk_mode d\<rparr>"

definition save_config :: "vault \<Rightarrow> save_bank_dto \<Rightarrow> auth_user \<Rightarrow> bool \<Rightarrow> bank_db \<Rightarrow> bank_db bank_answer" where
  "save_config v d user up s =
     and_then (bank_role user) (\<lambda>_.
       if bk_config s = None \<and> given (sk_account d) = None then Inl (BadRequest AccountNeeded)
       else if (case expected_prefix (sk_code d) of None \<Rightarrow> False | Some want \<Rightarrow> ifsc_prefix (sk_ifsc d) \<noteq> want)
       then Inl (BadRequest (WrongIfsc (sk_code d)))
       else
         and_then (case given (sk_account d) of
             Some a \<Rightarrow> (case vt_encrypt v a of None \<Rightarrow> Inl (Crash CipherFailed) | Some c \<Rightarrow> Inr (c, mask_bank_account a))
           | None \<Rightarrow> (case bk_config s of None \<Rightarrow> Inl (BadRequest AccountNeeded) | Some row \<Rightarrow> Inr (bc_account row, bc_masked row)))
         (\<lambda>(cipher, masked). Inr (bank_audit up user ''payroll.bank_config_updated'' ''payroll_bank_config'' None
           (s\<lparr>bk_config := Some (config_of d cipher masked)\<rparr>))))"

definition list_formats :: "(string \<times> string \<times> string option \<times> string \<times> bool) list" where
  "list_formats = map (\<lambda>f. (fmt_id f, fmt_label f, fmt_bank_code f, fmt_version f, fmt_generator f \<noteq> None)) BANK_FORMATS"

section \<open>Collecting the rows\<close>

datatype left_out_reason = MISSING_BANK_DETAILS | INVALID_DETAILS

record left_out =
  lo_employee :: id
  lo_name :: string
  lo_code :: string
  lo_reason :: left_out_reason
  lo_problems :: "row_problem list"

definition full_name :: "bank_person \<Rightarrow> string" where
  "full_name e = bp_first e @ '' '' @ bp_last e"

fun mode_text :: "payment_mode \<Rightarrow> string" where
  "mode_text OWN_BANK = ''OWN_BANK''"
| "mode_text NEFT = ''NEFT''"
| "mode_text IMPS = ''IMPS''"
| "mode_text RTGS = ''RTGS''"

definition person_account :: "vault \<Rightarrow> bank_person \<Rightarrow> string option bank_answer" where
  "person_account v e =
     (case given (bp_account e) of
        None \<Rightarrow> Inr None
      | Some c \<Rightarrow> (case vt_decrypt v c of None \<Rightarrow> Inl (Crash CipherFailed) | Some a \<Rightarrow> Inr (Some a)))"

definition problems_of :: "bank_person \<Rightarrow> string option \<Rightarrow> number \<Rightarrow> row_problem list" where
  "problems_of e account amount = validate_bank_row account (bp_ifsc e) (full_name e) amount"

definition leave_out :: "bank_person \<Rightarrow> row_problem list \<Rightarrow> left_out" where
  "leave_out e ps = \<lparr>lo_employee = bp_id e, lo_name = full_name e, lo_code = bp_code e,
     lo_reason = (if list_ex (\<lambda>p. p = NoAccount \<or> p = NoIfsc) ps then MISSING_BANK_DETAILS else INVALID_DETAILS),
     lo_problems = ps\<rparr>"

definition bank_row :: "bank_config_row option \<Rightarrow> bank_person \<Rightarrow> string \<Rightarrow> number \<Rightarrow> bank_file_row" where
  "bank_row cfg e account amount =
     (let ifsc = to_upper (trim (or_empty (bp_ifsc e)));
          preferred = (case cfg of None \<Rightarrow> NEFT | Some c \<Rightarrow> bc_mode c)
      in \<lparr>bf_employee_id = bp_id e, bf_employee_name = clean_beneficiary_name (full_name e), bf_employee_code = bp_code e,
          bf_account_number = account, bf_ifsc = ifsc,
          bf_bank_name = (case bp_bank_name e of Some n \<Rightarrow> Some n | None \<Rightarrow> bank_name_from_ifsc ifsc),
          bf_amount = amount,
          bf_payment_mode = Some (mode_text (resolve_payment_mode (map_option bc_ifsc cfg) ifsc amount preferred))\<rparr>)"

fun bank_rows :: "vault \<Rightarrow> bank_config_row option \<Rightarrow> bank_person table \<Rightarrow> line_item list
    \<Rightarrow> (bank_file_row list \<times> left_out list) bank_answer" where
  "bank_rows v cfg people [] = Inr ([], [])"
| "bank_rows v cfg people (item # items) =
     (case find_row (\<lambda>e. bp_id e = li_employee item) people of
        None \<Rightarrow> bank_rows v cfg people items
      | Some e \<Rightarrow> and_then (person_account v e) (\<lambda>account. and_then (bank_rows v cfg people items) (\<lambda>(rows, out).
          let amount = to_number (li_net_pay item); ps = problems_of e account amount
          in Inr (if ps \<noteq> [] then (rows, leave_out e ps # out) else (bank_row cfg e (or_empty account) amount # rows, out)))))"

text \<open>A \<open>Map\<close> from modes to a count and a total, in the order the modes first appear.\<close>

fun add_mode :: "string \<Rightarrow> decimal \<Rightarrow> (string \<times> nat \<times> decimal) list \<Rightarrow> (string \<times> nat \<times> decimal) list" where
  "add_mode m a [] = [(m, 1, dplus decimal_js 0 a)]"
| "add_mode m a ((k, n, t) # ms) = (if k = m then (k, Suc n, dplus decimal_js t a) # ms else (k, n, t) # add_mode m a ms)"

definition by_mode :: "bank_file_row list \<Rightarrow> (string \<times> nat \<times> decimal) list" where
  "by_mode rows = foldl (\<lambda>ms r. add_mode (or_empty (bf_payment_mode r)) (of_number (bf_amount r)) ms) [] rows"

definition rows_total :: "bank_file_row list \<Rightarrow> decimal" where
  "rows_total rows = dsum decimal_js (map (\<lambda>r. of_number (bf_amount r)) rows)"

datatype bank_warning = CompanyBankNotSet | LayoutOfAnotherBank string | LayoutNotAvailable

definition bank_warnings :: "bank_config_row option \<Rightarrow> bank_format \<Rightarrow> bank_warning list" where
  "bank_warnings cfg f =
     (case cfg of
        None \<Rightarrow> [CompanyBankNotSet]
      | Some c \<Rightarrow> (case fmt_bank_code f of None \<Rightarrow> [] | Some b \<Rightarrow> if b \<noteq> [] \<and> b \<noteq> bc_code c then [LayoutOfAnotherBank (bc_code c)] else []))
     @ (if fmt_generator f = None then [LayoutNotAvailable] else [])"

record collected =
  co_run :: run_row
  co_format :: bank_format
  co_config :: "bank_config_row option"
  co_rows :: "bank_file_row list"
  co_left_out :: "left_out list"
  co_total :: decimal
  co_by_mode :: "(string \<times> nat \<times> decimal) list"
  co_warnings :: "bank_warning list"
  co_paid :: nat

definition run_items :: "id \<Rightarrow> bank_db \<Rightarrow> line_item list" where
  "run_items r s = filter (\<lambda>li. li_run li = r) (line_items (bk_payroll s))"

definition collect :: "vault \<Rightarrow> id \<Rightarrow> string \<Rightarrow> auth_user \<Rightarrow> bank_db \<Rightarrow> collected bank_answer" where
  "collect v r fid user s =
     and_then (bank_role user) (\<lambda>_.
       (case find_run (bk_payroll s) r of
          None \<Rightarrow> Inl (NotFound NoSuchRun)
        | Some run \<Rightarrow>
            if run_status run \<noteq> PROCESSED \<and> run_status run \<noteq> DISBURSED then Inl (Conflict RunUnfinished)
            else (case find_bank_format fid of
               None \<Rightarrow> Inl (BadRequest NoSuchFormat)
             | Some f \<Rightarrow>
                 and_then (bank_rows v (bk_config s) (bk_people s) (run_items r s)) (\<lambda>(rows, out).
                   Inr \<lparr>co_run = run, co_format = f, co_config = bk_config s, co_rows = rows, co_left_out = out,
                     co_total = rows_total rows, co_by_mode = by_mode rows, co_warnings = bank_warnings (bk_config s) f,
                     co_paid = length (run_items r s)\<rparr>))))"

section \<open>Preview and file\<close>

record bank_summary =
  su_period :: string
  su_format :: "string \<times> string \<times> string \<times> bool"
  su_company :: "(string \<times> string \<times> string) option"
  su_counts :: "nat \<times> nat \<times> nat"
  su_total :: string
  su_by_mode :: "(string \<times> nat \<times> string) list"
  su_left_out :: "left_out list"
  su_warnings :: "bank_warning list"

definition summarise :: "collected \<Rightarrow> bank_summary" where
  "summarise c =
     \<lparr>su_period = run_period (co_run c),
      su_format = (fmt_id (co_format c), fmt_label (co_format c), fmt_version (co_format c), fmt_generator (co_format c) \<noteq> None),
      su_company = map_option (\<lambda>k. (bc_code k, bc_masked k, bc_ifsc k)) (co_config c),
      su_counts = (co_paid c, length (co_rows c), length (co_left_out c)),
      su_total = to_fixed_2 (co_total c), su_by_mode = map (\<lambda>(m, n, t). (m, n, to_fixed_2 t)) (co_by_mode c),
      su_left_out = co_left_out c, su_warnings = co_warnings c\<rparr>"

definition preview :: "vault \<Rightarrow> id \<Rightarrow> string \<Rightarrow> auth_user \<Rightarrow> bank_db \<Rightarrow> bank_summary bank_answer" where
  "preview v r fid user s = and_then (collect v r fid user s) (\<lambda>c. Inr (summarise c))"

record bank_file =
  fi_name :: string
  fi_content :: string
  fi_skipped :: nat
  fi_summary :: bank_summary

text \<open>
  The context handed to a generator decrypts the company's account, and fails when that fails; the one
  generator there is does not use it.
\<close>

definition generate_bank_file :: "vault \<Rightarrow> id \<Rightarrow> string \<Rightarrow> auth_user \<Rightarrow> bool \<Rightarrow> bank_db \<Rightarrow> (bank_file \<times> bank_db) bank_answer" where
  "generate_bank_file v r fid user up s =
     and_then (collect v r fid user s) (\<lambda>c.
       (case fmt_generator (co_format c) of
          None \<Rightarrow> Inl (BadRequest FormatNotAvailable)
        | Some g \<Rightarrow>
            if (case co_config c of None \<Rightarrow> False | Some k \<Rightarrow> vt_decrypt v (bc_account k) = None) then Inl (Crash CipherFailed)
            else Inr (\<lparr>fi_name = csv_filename (run_period (co_run c)), fi_content = g (co_rows c),
                 fi_skipped = length (co_left_out c), fi_summary = summarise c\<rparr>,
               bank_audit up user ''payroll.bank_file_generated'' ''payroll_run'' (Some r) s)))"

end
