(* ===== verification/BankProperties.thy ===== *)
theory BankProperties
  imports PayrollBank RunExample
begin

text \<open>
  The bank file: it covers the run, adds up to the paisa, its payment modes fit the amounts, and what
  the bank reads from it is what payroll computed. The first section shows that an amount of money
  survives the way from a decimal to a JavaScript number and back.
\<close>

section \<open>Amounts as JavaScript numbers\<close>

lemma digits_on_grid:
  assumes "n \<le> 15" and "0 < x"
  obtains Y :: int where "sig_digits 10 n half_up_int x * sig_scale 10 15 x = of_int Y"
proof -
  have "sig_scale 10 15 x = sig_scale 10 n x * 10 ^ (15 - n)"
  proof -
    have e: "int 15 - 1 - rat_exp 10 x = (int n - 1 - rat_exp 10 x) + int (15 - n)" using assms(1) by simp
    have "(10 :: rat) powi (int 15 - 1 - rat_exp 10 x) = 10 powi (int n - 1 - rat_exp 10 x) * 10 powi int (15 - n)"
      unfolding e by (rule power_int_add) simp
    then show ?thesis by (simp add: sig_scale_def)
  qed
  moreover have "0 < sig_scale 10 n x" by (rule sig_scale_pos) simp
  ultimately have "sig_digits 10 n half_up_int x * sig_scale 10 15 x = of_int (half_up_int (x * sig_scale 10 n x) * 10 ^ (15 - n))"
    using assms(2) by (simp add: sig_digits_pos_eq)
  with that show ?thesis by blast
qed

text \<open>An amount of up to a thousand billion lies on the grid of 15 digits of the double next to it.\<close>

lemma paise_grid:
  assumes "0 < k" "k \<le> 10 ^ 14"
  defines "d \<equiv> of_int k / 100 :: rat"
  obtains D where "0 < js_fl d" "d * sig_scale 10 15 (js_fl d) = of_int D" "\<bar>js_fl d - d\<bar> * sig_scale 10 15 (js_fl d) < 1 / 4"
proof -
  define x where "x = js_fl d"
  have d0: "0 < d" using assms(1) by (simp add: d_def)
  have "(of_int k :: rat) \<le> of_int (10 ^ 14)" using assms(2) by (simp only: of_int_le_iff)
  then have d1: "d \<le> 10 ^ 12" by (simp add: d_def)
  have err: "\<bar>x - d\<bar> \<le> d / 9000000000000000"
    using js.fl_err [of d] d0 unfolding x_def by (simp add: abs_le_iff)
  have x0: "0 < x" and dx: "d \<le> x + d / 9000000000000000" "x \<le> d + d / 9000000000000000"
    using err d0 unfolding abs_le_iff by linarith+
  define s where "s = sig_scale 10 15 x"
  have s0: "0 < s" unfolding s_def by (rule sig_scale_pos) simp
  have xs: "x * s < 10 ^ 15" using sig_scaled_bounds [of 10 15 x] x0 by (simp add: s_def)
  have "(10 :: rat) powi rat_exp 10 x \<le> x" using rat_exp_bounds [of 10 x] x0 by simp
  also have "x < 10 powi 13" using dx(2) d1 by simp
  finally have "\<not> (10 :: rat) powi 13 \<le> 10 powi rat_exp 10 x" by simp
  then have "rat_exp 10 x < 13" by (rule contrapos_np) (intro power_int_increasing; simp)
  then have e: "14 - rat_exp 10 x = int (nat (12 - rat_exp 10 x)) + 2" by simp
  have "s = 10 powi (int (nat (12 - rat_exp 10 x)) + 2)" unfolding s_def sig_scale_def e [symmetric] by simp
  also have "\<dots> = 10 ^ nat (12 - rat_exp 10 x) * 100" by (subst power_int_add) (simp, simp only: power_int_of_nat, simp)
  finally have ds: "d * s = of_int (k * 10 ^ nat (12 - rat_exp 10 x))" by (simp add: d_def)
  have "d * s \<le> x * s + d * s / 9000000000000000"
    using mult_right_mono [OF dx(1), of s] s0 by (simp add: distrib_right)
  with xs have "d * s < 2 * 10 ^ 15" by simp
  moreover have "\<bar>x - d\<bar> * s \<le> d * s / 9000000000000000" using mult_right_mono [OF err, of s] s0 by simp
  ultimately have "\<bar>x - d\<bar> * s < 1 / 4" by simp
  with that x0 ds show thesis unfolding x_def s_def by blast
qed

text \<open>A text of at most 15 digits that reads as \<open>x\<close> is the only number of the grid next to \<open>x\<close>.\<close>

lemma short_text_near:
  assumes "0 < n" "n \<le> 15" and x: "0 < x" and y: "js_fl (sig_digits 10 n half_up_int x) = x"
  shows "\<bar>x - sig_digits 10 n half_up_int x\<bar> * sig_scale 10 15 x < 1 / 4"
proof -
  let ?y = "sig_digits 10 n half_up_int x" and ?s = "sig_scale 10 15 x"
  have s0: "0 < ?s" by (rule sig_scale_pos) simp
  have bet: "10 powi rat_exp 10 x \<le> ?y" "?y \<le> 10 powi (rat_exp 10 x + 1)"
    using half_up.sig_digits_between [of 10 n x] assms(1) x by simp_all
  have "(0 :: rat) < 10 powi rat_exp 10 x" by simp
  with bet(1) have y0: "0 < ?y" by linarith
  have "10 powi (rat_exp 10 x + 1) * ?s = 10 powi (rat_exp 10 x + 1 + (14 - rat_exp 10 x))"
    unfolding sig_scale_def by (subst power_int_add) simp_all
  also have "\<dots> = 10 ^ 15" by simp
  finally have "?y * ?s \<le> 10 ^ 15" using mult_right_mono [OF bet(2), of ?s] s0 by simp
  moreover have "\<bar>x - ?y\<bar> \<le> ?y / 9000000000000000" using js.fl_err [of ?y] y y0 by (simp add: abs_le_iff)
  then have "\<bar>x - ?y\<bar> * ?s \<le> ?y * ?s / 9000000000000000" using mult_right_mono [of _ _ ?s] s0 by fastforce
  ultimately show ?thesis by simp
qed

lemma of_number_paise:
  assumes k: "0 < k" "k \<le> 10 ^ 14"
  shows "of_number (js_fl (of_int k / 100)) = of_int k / 100"
proof -
  define d x :: rat where "d = of_int k / 100" and "x = js_fl d"
  define s where "s = sig_scale 10 15 x"
  obtain D where x0: "0 < x" and ds: "d * s = of_int D" and near: "\<bar>x - d\<bar> * s < 1 / 4"
    using paise_grid [OF k] unfolding x_def d_def s_def by blast
  have s0: "0 < s" unfolding s_def by (rule sig_scale_pos) simp
  have unique: "sig_digits 10 n half_up_int x = d" if n: "0 < n" "n \<le> 15" and y: "js_fl (sig_digits 10 n half_up_int x) = x" for n
  proof -
    let ?y = "sig_digits 10 n half_up_int x"
    obtain Y where Y: "?y * s = of_int Y" using digits_on_grid [OF n(2) x0] unfolding s_def by blast
    have "\<bar>(x - d) * s\<bar> + \<bar>(x - ?y) * s\<bar> < 1" using near short_text_near [OF n x0 y] s0 by (simp add: abs_mult s_def)
    then have "\<bar>?y * s - d * s\<bar> < 1" unfolding left_diff_distrib by linarith
    then have "\<bar>Y - D\<bar> < 1" unfolding Y ds by (simp only: flip: of_int_diff of_int_abs of_int_less_1_iff)
    then have "?y * s = d * s" unfolding Y ds by simp
    with s0 show ?thesis by simp
  qed
  have "half_up_int (x * s) = D"
  proof (rule half_up_int_near)
    have "\<bar>(x - d) * s\<bar> < 1 / 2" using near s0 by (simp add: abs_mult)
    then show "\<bar>x * s - of_int D\<bar> < 1 / 2" by (simp only: left_diff_distrib ds [symmetric])
  qed
  then have "sig_digits 10 15 half_up_int x = d * s / s" using x0 unfolding ds by (simp add: sig_digits_pos_eq s_def)
  with s0 have found: "js_fl (sig_digits 10 15 half_up_int x) = x" by (simp add: x_def)
  show ?thesis
  proof (cases "List.find (\<lambda>n. js_fl (sig_digits 10 n half_up_int x) = x) [1..<18]")
    case None
    with found show ?thesis unfolding find_None_iff by force
  next
    case (Some m)
    then obtain i where i: "i < 17" "[1..<18] ! i = m" "js_fl (sig_digits 10 m half_up_int x) = x"
      "\<forall>j < i. js_fl (sig_digits 10 ([1..<18] ! j) half_up_int x) \<noteq> x" by (auto simp: find_Some_iff)
    have "\<not> 14 < i" using i(4) found by auto
    moreover have "m = i + 1" using i(1,2) by (auto simp: nth_append)
    ultimately have "sig_digits 10 m half_up_int x = d" using i(3) by (intro unique) auto
    with Some show ?thesis by (simp add: of_number_def flip: d_def x_def)
  qed
qed

section \<open>Who is paid\<close>

text \<open>The line items whose employee is on file, with that employee.\<close>

definition on_file :: "bank_person table \<Rightarrow> line_item \<Rightarrow> bool" where
  "on_file people li \<longleftrightarrow> find_row (\<lambda>e. bp_id e = li_employee li) people \<noteq> None"

lemma bank_rows_cases:
  assumes "bank_rows v cfg people (li # items) = Inr (rows, out)" and "find_row (\<lambda>e. bp_id e = li_employee li) people = Some e"
  obtains account rows' out' where "bank_rows v cfg people items = Inr (rows', out')" "person_account v e = Inr account"
    "problems_of e account (to_number (li_net_pay li)) \<noteq> [] \<and> rows = rows'
        \<and> out = leave_out e (problems_of e account (to_number (li_net_pay li))) # out'
      \<or> problems_of e account (to_number (li_net_pay li)) = []
        \<and> rows = bank_row cfg e (or_empty account) (to_number (li_net_pay li)) # rows' \<and> out = out'"
proof -
  from assms obtain account p where p: "person_account v e = Inr account" "bank_rows v cfg people items = Inr p"
    "(case p of (rows', out') \<Rightarrow> Inr (if problems_of e account (to_number (li_net_pay li)) \<noteq> []
       then (rows', leave_out e (problems_of e account (to_number (li_net_pay li))) # out')
       else (bank_row cfg e (or_empty account) (to_number (li_net_pay li)) # rows', out')))
     = (Inr (rows, out) :: (bank_file_row list \<times> left_out list) bank_answer)"
    by (auto simp: and_then_Inr_iff Let_def)
  obtain rows' out' where "p = (rows', out')" by (cases p)
  with p that show thesis by (cases "problems_of e account (to_number (li_net_pay li)) = []") auto
qed

lemma bank_rows_partition:
  "bank_rows v cfg people items = Inr (rows, out) \<Longrightarrow>
    mset (map bf_employee_id rows) + mset (map lo_employee out) = mset (map li_employee (filter (on_file people) items))"
proof (induction items arbitrary: rows out)
  case (Cons li items)
  show ?case
  proof (cases "find_row (\<lambda>e. bp_id e = li_employee li) people")
    case None
    with Cons show ?thesis by (simp add: on_file_def del: find_row_None)
  next
    case (Some e)
    have e: "bp_id e = li_employee li" using find_row_SomeD [OF Some] by simp
    have known: "on_file people li" using Some by (simp add: on_file_def del: find_row_None)
    show ?thesis
      by (rule bank_rows_cases [OF Cons.prems Some], drule Cons.IH) (use known e in \<open>auto simp: bank_row_def leave_out_def Let_def\<close>)
  qed
qed simp

text \<open>A row of the file: the employee's own details, checked, and the net pay of the run.\<close>

definition pays :: "vault \<Rightarrow> bank_config_row option \<Rightarrow> bank_person table \<Rightarrow> line_item list \<Rightarrow> bank_file_row \<Rightarrow> bool" where
  "pays v cfg people items r \<longleftrightarrow>
     (\<exists>li \<in> set items. \<exists>e \<in> set people. \<exists>account. bp_id e = li_employee li \<and> person_account v e = Inr (Some account)
        \<and> problems_of e (Some account) (to_number (li_net_pay li)) = []
        \<and> r = bank_row cfg e account (to_number (li_net_pay li)))"

lemma bank_rows_pay:
  "bank_rows v cfg people items = Inr (rows, out) \<Longrightarrow> r \<in> set rows \<Longrightarrow> pays v cfg people items r"
proof (induction items arbitrary: rows out)
  case (Cons li items)
  have mono: "pays v cfg people (li # items) r" if "pays v cfg people items r" using that by (auto simp: pays_def)
  show ?case
  proof (cases "find_row (\<lambda>e. bp_id e = li_employee li) people")
    case None
    with Cons mono show ?thesis by (simp del: find_row_None)
  next
    case (Some e)
    obtain account rows' out' where *: "bank_rows v cfg people items = Inr (rows', out')" "person_account v e = Inr account"
      "r \<in> set rows' \<or> problems_of e account (to_number (li_net_pay li)) = []
        \<and> r = bank_row cfg e (or_empty account) (to_number (li_net_pay li))"
      by (rule bank_rows_cases [OF Cons.prems(1) Some]) (use Cons.prems(2) in auto)
    show ?thesis
    proof (cases "r \<in> set rows'")
      case True
      from Cons.IH [OF *(1) this] show ?thesis by (rule mono)
    next
      case False
      with *(3) Cons.prems(2) have r: "problems_of e account (to_number (li_net_pay li)) = []"
        "r = bank_row cfg e (or_empty account) (to_number (li_net_pay li))" by blast+
      then obtain a where "account = Some a"
        by (cases account) (auto simp: problems_of_def validate_bank_row_def trimmed_def Let_def)
      with r *(2) find_row_SomeD [OF Some] show ?thesis by (force simp: pays_def or_empty_def)
    qed
  qed
qed simp

section \<open>Sums\<close>

text \<open>The total of an entry of the map, and of all of it.\<close>

definition mode_sum :: "(string \<times> nat \<times> decimal) list \<Rightarrow> decimal" where
  "mode_sum ms = (\<Sum>(m, n, t) \<leftarrow> ms. t)"

definition mode_count :: "(string \<times> nat \<times> decimal) list \<Rightarrow> nat" where
  "mode_count ms = (\<Sum>(m, n, t) \<leftarrow> ms. n)"

lemma add_mode_count: "mode_count (add_mode m a ms) = Suc (mode_count ms)"
  by (induction m a ms rule: add_mode.induct) (auto simp: mode_count_def)

lemma by_mode_count: "mode_count (by_mode rows) = length rows"
proof -
  have "mode_count (foldl (\<lambda>ms r. add_mode (or_empty (bf_payment_mode r)) (of_number (bf_amount r)) ms) ms rows)
    = mode_count ms + length rows" for ms
    by (induction rows arbitrary: ms) (simp_all add: add_mode_count)
  then show ?thesis by (simp add: by_mode_def mode_count_def)
qed

lemma mode_sum_nonneg: "\<forall>e \<in> set ms. 0 \<le> snd (snd e) \<Longrightarrow> 0 \<le> mode_sum ms"
  by (induction ms) (auto simp: mode_sum_def)

lemma add_mode_sum:
  assumes "money a" and "\<forall>e \<in> set ms. money (snd (snd e))" and "mode_sum ms + a \<le> 10 ^ 18"
  shows "mode_sum (add_mode m a ms) = mode_sum ms + a \<and> (\<forall>e \<in> set (add_mode m a ms). money (snd (snd e)))"
  using assms
proof (induction m a ms rule: add_mode.induct)
  case (1 m a)
  then have "dplus decimal_js 0 a = a" using decjs.money_plus [of 0 a] by (simp add: money_def)
  with 1 show ?case by (simp add: mode_sum_def)
next
  case (2 m a k n t ms)
  have nonneg: "0 \<le> mode_sum ms" using "2.prems"(2) by (intro mode_sum_nonneg) (auto simp: money_def)
  have t: "money t" "\<forall>e \<in> set ms. money (snd (snd e))" using "2.prems"(2) by auto
  have sum: "mode_sum ((k, n, t) # ms) = t + mode_sum ms" by (simp add: mode_sum_def)
  show ?case
  proof (cases "k = m")
    case True
    have "dplus decimal_js t a = t + a \<and> money (t + a)"
      using decjs.money_plus [OF t(1) "2.prems"(1)] "2.prems"(3) nonneg sum by linarith
    with True t(2) show ?thesis by (simp add: mode_sum_def)
  next
    case False
    have "mode_sum ms + a \<le> 10 ^ 18" using "2.prems"(3) sum t(1) by (simp add: money_def)
    with "2.IH" [OF False "2.prems"(1) t(2)] False t(1) show ?thesis by (simp add: mode_sum_def)
  qed
qed

lemma by_mode_sum:
  assumes "\<forall>r \<in> set rows. money (of_number (bf_amount r))" and "(\<Sum>r \<leftarrow> rows. of_number (bf_amount r)) \<le> 10 ^ 18"
  shows "mode_sum (by_mode rows) = (\<Sum>r \<leftarrow> rows. of_number (bf_amount r)) \<and> (\<forall>e \<in> set (by_mode rows). money (snd (snd e)))"
  using assms
proof (induction rows rule: rev_induct)
  case Nil
  then show ?case by (simp add: by_mode_def mode_sum_def)
next
  case (snoc r rows)
  have r: "money (of_number (bf_amount r))" using snoc.prems(1) by simp
  have le: "(\<Sum>r \<leftarrow> rows. of_number (bf_amount r)) + of_number (bf_amount r) \<le> 10 ^ 18" using snoc.prems(2) by simp
  with r have "(\<Sum>r \<leftarrow> rows. of_number (bf_amount r)) \<le> 10 ^ 18" unfolding money_def by linarith
  with snoc have IH: "mode_sum (by_mode rows) = (\<Sum>r \<leftarrow> rows. of_number (bf_amount r))"
    "\<forall>e \<in> set (by_mode rows). money (snd (snd e))" by simp_all
  have "by_mode (rows @ [r]) = add_mode (or_empty (bf_payment_mode r)) (of_number (bf_amount r)) (by_mode rows)"
    by (simp add: by_mode_def)
  with add_mode_sum [OF r IH(2), where m = "or_empty (bf_payment_mode r)"] le IH(1) show ?case by simp
qed

lemma rows_total_sum:
  assumes "\<forall>r \<in> set rows. money (of_number (bf_amount r))" and "(\<Sum>r \<leftarrow> rows. of_number (bf_amount r)) \<le> 10 ^ 18"
  shows "rows_total rows = (\<Sum>r \<leftarrow> rows. of_number (bf_amount r)) \<and> money (rows_total rows)"
  using assms
proof (induction rows rule: rev_induct)
  case Nil
  then show ?case by (simp add: rows_total_def dsum_def money_def)
next
  case (snoc r rows)
  have r: "money (of_number (bf_amount r))" using snoc.prems(1) by simp
  have le: "(\<Sum>r \<leftarrow> rows. of_number (bf_amount r)) + of_number (bf_amount r) \<le> 10 ^ 18" using snoc.prems(2) by simp
  with r have small: "(\<Sum>r \<leftarrow> rows. of_number (bf_amount r)) \<le> 10 ^ 18" unfolding money_def by linarith
  have "\<forall>r \<in> set rows. money (of_number (bf_amount r))" using snoc.prems(1) by simp
  note IH = conjunct1 [OF snoc.IH [OF this small]] conjunct2 [OF snoc.IH [OF this small]]
  have "rows_total (rows @ [r]) = dplus decimal_js (rows_total rows) (of_number (bf_amount r))"
    by (simp add: rows_total_def dsum_def)
  with decjs.money_plus [OF IH(2) r] le IH(1) show ?case by simp
qed

text \<open>The items the file pays, and their amounts.\<close>

definition included :: "vault \<Rightarrow> bank_person table \<Rightarrow> line_item \<Rightarrow> bool" where
  "included v people li \<longleftrightarrow>
     (case find_row (\<lambda>e. bp_id e = li_employee li) people of
        None \<Rightarrow> False
      | Some e \<Rightarrow> (case person_account v e of Inl _ \<Rightarrow> False | Inr account \<Rightarrow> problems_of e account (to_number (li_net_pay li)) = []))"

lemma bank_rows_included:
  "bank_rows v cfg people items = Inr (rows, out) \<Longrightarrow>
    map bf_amount rows = map (\<lambda>li. to_number (li_net_pay li)) (filter (included v people) items)"
proof (induction items arbitrary: rows out)
  case (Cons li items)
  show ?case
  proof (cases "find_row (\<lambda>e. bp_id e = li_employee li) people")
    case None
    with Cons show ?thesis by (simp add: included_def del: find_row_None)
  next
    case (Some e)
    show ?thesis
      by (rule bank_rows_cases [OF Cons.prems Some], drule Cons.IH)
        (use Some in \<open>auto simp: bank_row_def included_def Let_def\<close>)
  qed
qed simp

lemma to_number_pos: "0 < to_number d \<Longrightarrow> 0 < d"
  using js.fl_nonneg [of "- d"] js.fl_neg [of d] by (cases "0 < d") (auto simp: to_number_def)

lemma of_number_net_pay:
  assumes "paise d" "d \<le> 10 ^ 12" "0 < to_number d"
  shows "of_number (to_number d) = d"
proof -
  obtain k where k: "d = of_int k / 100" using assms(1) by (auto simp: paise_def)
  have "(of_int k :: rat) \<le> of_int (10 ^ 14)" using assms(2) k by simp
  then have "k \<le> 10 ^ 14" by (simp only: of_int_le_iff)
  moreover have "0 < k" using to_number_pos [OF assms(3)] k by simp
  ultimately show ?thesis unfolding to_number_def k by (intro of_number_paise)
qed

lemma included_positive:
  assumes "included v people li"
  shows "0 < to_number (li_net_pay li)"
  using assms by (auto simp: included_def problems_of_def validate_bank_row_def Let_def split: option.splits sum.splits if_split_asm)

lemma included_amounts:
  assumes "bank_rows v cfg people items = Inr (rows, out)"
    and "\<forall>li \<in> set items. paise (li_net_pay li) \<and> li_net_pay li \<le> 10 ^ 12"
  shows "map (\<lambda>r. of_number (bf_amount r)) rows = map li_net_pay (filter (included v people) items)"
    and "\<forall>r \<in> set rows. money (of_number (bf_amount r)) \<and> of_number (bf_amount r) \<le> 10 ^ 12"
proof -
  have one: "of_number (to_number (li_net_pay li)) = li_net_pay li \<and> 0 \<le> li_net_pay li"
    if "li \<in> set (filter (included v people) items)" for li
  proof -
    have p: "0 < to_number (li_net_pay li)" using that by (auto intro: included_positive)
    with that assms(2) of_number_net_pay [of "li_net_pay li"] to_number_pos [OF p] show ?thesis by auto
  qed
  have "map (\<lambda>r. of_number (bf_amount r)) rows = map of_number (map bf_amount rows)" by simp
  also have "\<dots> = map (\<lambda>li. of_number (to_number (li_net_pay li))) (filter (included v people) items)"
    unfolding bank_rows_included [OF assms(1)] by simp
  also have "\<dots> = map li_net_pay (filter (included v people) items)" using one by (intro map_cong) simp_all
  finally show *: "map (\<lambda>r. of_number (bf_amount r)) rows = map li_net_pay (filter (included v people) items)" .
  show "\<forall>r \<in> set rows. money (of_number (bf_amount r)) \<and> of_number (bf_amount r) \<le> 10 ^ 12"
  proof
    fix r assume "r \<in> set rows"
    then have "of_number (bf_amount r) \<in> set (map li_net_pay (filter (included v people) items))" unfolding * [symmetric] by simp
    then obtain li where "li \<in> set (filter (included v people) items)" "of_number (bf_amount r) = li_net_pay li" by auto
    with one assms(2) show "money (of_number (bf_amount r)) \<and> of_number (bf_amount r) \<le> 10 ^ 12"
      by (force simp: money_def)
  qed
qed

lemma collect_rows:
  assumes "collect v r fid user s = Inr c"
  shows "bank_rows v (bk_config s) (bk_people s) (run_items r s) = Inr (co_rows c, co_left_out c)"
    and "co_total c = rows_total (co_rows c)" "co_by_mode c = by_mode (co_rows c)" "co_config c = bk_config s"
    "find_bank_format fid = Some (co_format c)"
  using assms by (auto simp: collect_def and_then_Inr_iff split: option.splits if_split_asm)

lemma no_problems:
  assumes "problems_of e (Some a) amount = []"
  shows "ACCOUNT_NUMBER_PATTERN (trim a)" "IFSC_PATTERN (to_upper (trim (or_empty (bp_ifsc e))))"
    "clean_beneficiary_name (full_name e) \<noteq> []" "0 < amount"
proof -
  have "trimmed (bp_ifsc e) = trim (or_empty (bp_ifsc e))"
    by (cases "bp_ifsc e") (simp_all add: trimmed_def or_empty_def trim_def)
  with assms show "ACCOUNT_NUMBER_PATTERN (trim a)" "IFSC_PATTERN (to_upper (trim (or_empty (bp_ifsc e))))"
    "clean_beneficiary_name (full_name e) \<noteq> []" "0 < amount"
    by (auto simp: problems_of_def validate_bank_row_def trimmed_def Let_def split: if_split_asm)
qed

lemma sum_list_le:
  fixes f :: "'x \<Rightarrow> rat"
  shows "\<forall>x \<in> set xs. f x \<le> b \<Longrightarrow> (\<Sum>x \<leftarrow> xs. f x) \<le> of_nat (length xs) * b"
  by (induction xs) (auto simp: algebra_simps)


text \<open>
  C6. The bank file adds up to the paisa: for a run of at most a million items, each of whole paise and
  up to a thousand billion, the total shown is exactly the sum of the net pays of the items that are
  paid - though every amount passes through a JavaScript number - and the totals by mode add up to it.
\<close>

theorem bank_file_adds_up:
  assumes "collect v r fid user s = Inr c"
    and "\<forall>li \<in> set (run_items r s). paise (li_net_pay li) \<and> li_net_pay li \<le> 10 ^ 12"
    and "length (run_items r s) \<le> 10 ^ 6"
  shows "co_total c = (\<Sum>li \<leftarrow> filter (included v (bk_people s)) (run_items r s). li_net_pay li)
    \<and> mode_sum (co_by_mode c) = co_total c"
proof -
  note rows = collect_rows [OF assms(1)]
  note amounts = included_amounts [OF rows(1) assms(2)]
  have len: "length (co_rows c) \<le> 10 ^ 6"
  proof -
    have "length (co_rows c) = length (filter (included v (bk_people s)) (run_items r s))"
      using arg_cong [OF amounts(1), of length] by simp
    also have "\<dots> \<le> length (run_items r s)" by simp
    finally show ?thesis using assms(3) by simp
  qed
  have "\<forall>r \<in> set (co_rows c). of_number (bf_amount r) \<le> 10 ^ 12" using amounts(2) by blast
  then have "(\<Sum>r \<leftarrow> co_rows c. of_number (bf_amount r)) \<le> of_nat (length (co_rows c)) * 10 ^ 12" by (rule sum_list_le)
  also have "\<dots> \<le> of_nat (10 ^ 6) * 10 ^ 12" using len by (intro mult_right_mono) (simp_all only: of_nat_le_iff, simp)
  finally have sum: "(\<Sum>r \<leftarrow> co_rows c. of_number (bf_amount r)) \<le> 10 ^ 18" by simp
  have "\<forall>r \<in> set (co_rows c). money (of_number (bf_amount r))" using amounts(2) by blast
  from rows_total_sum [OF this sum] by_mode_sum [OF this sum] show ?thesis
    unfolding rows(2,3) amounts(1) by simp
qed

section \<open>Payment modes\<close>

text \<open>
  Payment modes fit the amounts: a row is an internal transfer exactly when the company's IFSC and
  the employee's share the bank, an RTGS row is for at least 200,000 and an IMPS row for at most
  500,000, whatever mode the company prefers.
\<close>

theorem payment_modes_fit:
  assumes "collect v r fid user s = Inr c" and "row \<in> set (co_rows c)"
    and "\<forall>k. co_config c = Some k \<longrightarrow> bc_mode k \<in> set PREFERRED_MODES"
  shows "\<exists>m. bf_payment_mode row = Some (mode_text m)
    \<and> (m = OWN_BANK \<longleftrightarrow> (\<exists>k. co_config c = Some k \<and> bc_ifsc k \<noteq> [] \<and> ifsc_prefix (bc_ifsc k) = ifsc_prefix (bf_ifsc row)))
    \<and> (m = RTGS \<longrightarrow> RTGS_MIN \<le> bf_amount row) \<and> (m = IMPS \<longrightarrow> bf_amount row \<le> IMPS_MAX)"
proof -
  from bank_rows_pay [OF collect_rows(1) [OF assms(1)] assms(2)] obtain e account amount
    where row: "row = bank_row (bk_config s) e account amount" by (auto simp: pays_def)
  let ?p = "case bk_config s of None \<Rightarrow> NEFT | Some c \<Rightarrow> bc_mode c"
  let ?m = "resolve_payment_mode (map_option bc_ifsc (bk_config s)) (bf_ifsc row) (bf_amount row) ?p"
  have "bf_payment_mode row = Some (mode_text ?m)" unfolding row by (simp add: bank_row_def Let_def)
  moreover have "?p \<in> set PREFERRED_MODES"
    using assms(3) collect_rows(4) [OF assms(1)] by (cases "bk_config s") (auto simp: PREFERRED_MODES_def)
  then have "?p \<noteq> OWN_BANK" by (auto simp: PREFERRED_MODES_def)
  then have "?m = OWN_BANK \<longleftrightarrow> (\<exists>k. bk_config s = Some k \<and> bc_ifsc k \<noteq> [] \<and> ifsc_prefix (bc_ifsc k) = ifsc_prefix (bf_ifsc row))"
    "?m = RTGS \<longrightarrow> RTGS_MIN \<le> bf_amount row" "?m = IMPS \<longrightarrow> bf_amount row \<le> IMPS_MAX"
    by (auto simp: resolve_payment_mode_def split: option.splits)
  ultimately show ?thesis unfolding collect_rows(4) [OF assms(1)] by (intro exI [of _ ?m]) simp
qed

section \<open>What the bank reads\<close>

lemma format_generator:
  assumes "find_bank_format fid = Some f" and "fmt_generator f = Some g"
  shows "g = generate_csv"
proof -
  have "f \<in> set BANK_FORMATS" using assms(1) by (auto simp: find_bank_format_def find_Some_iff)
  moreover have "\<forall>f \<in> set BANK_FORMATS. fmt_generator f = None \<or> fmt_generator f = Some generate_csv"
    by (simp add: BANK_FORMATS_def)
  ultimately show ?thesis using assms(2) by auto
qed

lemma readable_ifsc: "IFSC_PATTERN s \<Longrightarrow> readable s"
proof -
  assume p: "IFSC_PATTERN s"
  then have "s = take 4 s @ s ! 4 # drop (Suc 4) s" by (intro id_take_nth_drop) (simp add: IFSC_PATTERN_def)
  then have "s = take 4 s @ s ! 4 # drop 5 s" unfolding Suc_numeral by simp
  moreover have "RETURN \<notin> set (take 4 s)" "RETURN \<notin> set (drop 5 s)" "s ! 4 \<noteq> RETURN"
    using p by (auto simp: IFSC_PATTERN_def list_all_iff is_upper_def is_digit_def)
  ultimately show ?thesis unfolding readable_def by (metis Un_iff set_ConsD set_append)
qed

lemma squeeze_chars: "set (squeeze s) \<subseteq> insert (CHR '' '') (set s)"
  by (induction s rule: squeeze.induct) auto

lemma trim_chars: "set (trim s) \<subseteq> set s"
  unfolding trim_def by (auto dest!: set_dropWhileD)

lemma readable_clean_name: "readable (clean_beneficiary_name n)"
proof -
  let ?m = "map (\<lambda>c. if name_char c then c else CHR '' '') n"
  have "RETURN \<notin> set ?m" by (auto simp: name_char_def is_upper_def lower_char_def)
  then have "RETURN \<notin> set (trim (squeeze ?m))" using trim_chars [of "squeeze ?m"] squeeze_chars [of ?m] by auto
  then show ?thesis unfolding clean_beneficiary_name_def readable_def by (auto dest: in_set_takeD)
qed

lemma readable_bank_names: "list_all (\<lambda>(k, n). readable n) IFSC_PREFIX_NAMES"
  by code_simp

lemma readable_bank_name: "bank_name_from_ifsc i = Some n \<Longrightarrow> readable n"
  using readable_bank_names by (auto simp: bank_name_from_ifsc_def list_all_iff dest: map_of_SomeD)

lemma mode_text_plain: "readable (mode_text m)" "plain (mode_text m)"
  by (cases m; simp add: readable_def plain_def csv_special_def)+

definition readable_texts :: "vault \<Rightarrow> bank_person table \<Rightarrow> bool" where
  "readable_texts v people \<longleftrightarrow> (\<forall>e \<in> set people. readable (bp_code e) \<and> readable (or_empty (bp_bank_name e))
     \<and> (\<forall>a. person_account v e = Inr (Some a) \<longrightarrow> readable a))"

lemma paying_row_readable:
  assumes "pays v cfg people items row" and "readable_texts v people"
  shows "readable_row row"
proof -
  from assms(1) obtain e a amount where e: "e \<in> set people" "person_account v e = Inr (Some a)" "problems_of e (Some a) amount = []"
    "row = bank_row cfg e a amount" by (auto simp: pays_def)
  from assms(2) e(1,2) have texts: "readable (bp_code e)" "readable (or_empty (bp_bank_name e))" "readable a"
    by (auto simp: readable_texts_def)
  have bank: "readable (or_empty (case bp_bank_name e of Some n \<Rightarrow> Some n | None \<Rightarrow> bank_name_from_ifsc i))" for i
    using texts(2) readable_bank_name [of i]
    by (cases "bp_bank_name e"; cases "bank_name_from_ifsc i") (auto simp: or_empty_def readable_def)
  have opt: "or_empty (Some t) = t" for t by (simp add: or_empty_def)
  show ?thesis
    using texts bank mode_text_plain readable_clean_name readable_ifsc [OF no_problems(2) [OF e(3)]]
    by (simp add: e(4) bank_row_def readable_row_def opt Let_def)
qed

text \<open>
  C7. What the bank reads is what payroll computed: the file that is generated, read with the rules of
  CSV, is the header and one line for each row that was collected, with the row's seven values as they
  are - whatever commas, quotes or line feeds names and codes contain, as long as they hold no carriage
  return.
\<close>

theorem bank_file_reads_as_rows:
  assumes "generate_bank_file v r fid user up s = Inr (f, s')" and "readable_texts v (bk_people s)"
  shows "\<exists>c. collect v r fid user s = Inr c \<and> read_csv_grid (fi_content f) = csv_header # map row_fields (co_rows c)
    \<and> fi_skipped f = length (co_left_out c) \<and> runs (bk_payroll s') = runs (bk_payroll s)
    \<and> line_items (bk_payroll s') = line_items (bk_payroll s)"
proof -
  from assms(1) obtain c g where c: "collect v r fid user s = Inr c" "fmt_generator (co_format c) = Some g"
    "fi_content f = g (co_rows c)" "fi_skipped f = length (co_left_out c)"
    "s' = bank_audit up user ''payroll.bank_file_generated'' ''payroll_run'' (Some r) s"
    by (auto simp: generate_bank_file_def and_then_Inr_iff split: option.splits if_split_asm)
  have g: "g = generate_csv" using format_generator [OF collect_rows(5) [OF c(1)] c(2)] .
  have "\<forall>row \<in> set (co_rows c). readable_row row"
    using bank_rows_pay [OF collect_rows(1) [OF c(1)]] paying_row_readable assms(2) by blast
  from generated_csv_grid [OF this] show ?thesis
    using c g by (simp add: bank_audit_def write_payroll_audit_def)
qed

section \<open>An account number with spaces\<close>

text \<open>The check trims the account number; the row has it as it is stored.\<close>

lemma padded_account_in_file:
  "problems_of e (Some (CHR '' '' # a @ '' '')) amount = problems_of e (Some a) amount"
  "bf_account_number (bank_row cfg e (CHR '' '' # a @ '' '') amount) = CHR '' '' # a @ '' ''"
proof -
  have "trim (CHR '' '' # a @ '' '') = trim a"
  proof -
    have sp: "is_space (CHR '' '')" by (simp add: is_space_def)
    show ?thesis
    proof (cases "\<forall>c \<in> set a. is_space c")
      case True
      then have "dropWhile is_space (a @ '' '') = []" "dropWhile is_space a = []" using sp by simp_all
      then show ?thesis using sp by (auto simp: trim_def dest: set_dropWhileD)
    next
      case False
      then have "dropWhile is_space (a @ '' '') = dropWhile is_space a @ '' ''" by (induction a) auto
      then show ?thesis using sp by (simp add: trim_def)
    qed
  qed
  then show "problems_of e (Some (CHR '' '' # a @ '' '')) amount = problems_of e (Some a) amount"
    by (simp add: problems_of_def validate_bank_row_def trimmed_def)
  show "bf_account_number (bank_row cfg e (CHR '' '' # a @ '' '') amount) = CHR '' '' # a @ '' ''"
    by (simp add: bank_row_def Let_def)
qed

section \<open>April, paid\<close>

definition clear_vault :: vault where
  "clear_vault = \<lparr>vt_encrypt = Some, vt_decrypt = Some\<rparr>"

definition bank_sample :: bank_db where
  "bank_sample = \<lparr>bk_payroll = april_run_state\<lparr>runs := map (\<lambda>r. r\<lparr>run_status := PROCESSED\<rparr>) (runs april_run_state)\<rparr>,
     bk_config = Some \<lparr>bc_code = ''HDFC'', bc_holder = ''Acme'', bc_account = ''9988776655'', bc_masked = ''****6655'',
       bc_ifsc = ''HDFC0000001'', bc_bank_name = None, bc_branch = None, bc_mode = RTGS\<rparr>,
     bk_people = [\<lparr>bp_id = ''e1'', bp_first = ''Asha'', bp_last = ''Rao, M'', bp_code = ''E001'', bp_account = Some ''123456789012'',
       bp_ifsc = Some ''icic0001234'', bp_bank_name = None\<rparr>]\<rparr>"

lemma april_item_net: "li_net_pay april_item = 49700"
  by code_simp

definition asha :: bank_person where
  "asha = \<lparr>bp_id = ''e1'', bp_first = ''Asha'', bp_last = ''Rao, M'', bp_code = ''E001'', bp_account = Some ''123456789012'',
     bp_ifsc = Some ''icic0001234'', bp_bank_name = None\<rparr>"

definition april_collected :: collected where
  "april_collected =
     (let row = bank_row (bk_config bank_sample) asha ''123456789012'' (to_number 49700)
      in \<lparr>co_run = (new_run ''r1'' april sample_admin april_assembly)\<lparr>run_status := PROCESSED\<rparr>, co_format = hd BANK_FORMATS,
          co_config = bk_config bank_sample, co_rows = [row], co_left_out = [], co_total = rows_total [row],
          co_by_mode = by_mode [row], co_warnings = bank_warnings (bk_config bank_sample) (hd BANK_FORMATS), co_paid = 1\<rparr>)"

lemma bank_sample_facts:
  "bk_people bank_sample = [asha]" "run_items ''r1'' bank_sample = [april_item]" "li_employee april_item = ''e1''"
  "person_account clear_vault asha = Inr (Some ''123456789012'')" "bp_id asha = ''e1''"
  "user_role sample_admin = COMPANY_ADMIN" "find_bank_format ''CSV'' = Some (hd BANK_FORMATS)"
  "find_run (bk_payroll bank_sample) ''r1'' = Some ((new_run ''r1'' april sample_admin april_assembly)\<lparr>run_status := PROCESSED\<rparr>)"
proof -
  show "run_items ''r1'' bank_sample = [april_item]" "li_employee april_item = ''e1''"
    by (simp_all add: run_items_def bank_sample_def april_run_state_def april_item_def item_row_def fold_arrears_def
        line_of_result_def stored_def line_compute.extend_def)
qed (simp_all add: bank_sample_def asha_def person_account_def given_def clear_vault_def sample_admin_def find_bank_format_def
    BANK_FORMATS_def find_run_def april_run_state_def new_run_def)

lemma asha_no_problems: "problems_of asha (Some ''123456789012'') (to_number 49700) = []"
  by code_simp

lemma bank_sample_collected: "collect clear_vault ''r1'' ''CSV'' sample_admin bank_sample = Inr april_collected"
  by (simp add: collect_def bank_role_def bank_sample_facts april_item_net asha_no_problems april_collected_def Let_def or_empty_def)


theorem bank_file_adds_up_witness: "co_total april_collected = 49700"
proof -
  have pay: "\<forall>li \<in> set (run_items ''r1'' bank_sample). paise (li_net_pay li) \<and> li_net_pay li \<le> 10 ^ 12"
    using paise_int [of 49700] by (simp add: bank_sample_facts april_item_net)
  have "included clear_vault (bk_people bank_sample) april_item"
    by (simp add: included_def bank_sample_facts april_item_net asha_no_problems)
  with bank_file_adds_up [OF bank_sample_collected pay] show ?thesis by (simp add: bank_sample_facts april_item_net)
qed

theorem payment_modes_fit_witness:
  "\<exists>m. bf_payment_mode (bank_row (bk_config bank_sample) asha ''123456789012'' (to_number 49700)) = Some (mode_text m) \<and> m \<noteq> RTGS"
proof -
  have row: "bank_row (bk_config bank_sample) asha ''123456789012'' (to_number 49700) \<in> set (co_rows april_collected)"
    by (simp add: april_collected_def Let_def)
  have pref: "\<forall>k. co_config april_collected = Some k \<longrightarrow> bc_mode k \<in> set PREFERRED_MODES"
    by (simp add: april_collected_def bank_sample_def PREFERRED_MODES_def Let_def)
  have "bf_amount (bank_row (bk_config bank_sample) asha ''123456789012'' (to_number 49700)) < RTGS_MIN" by code_simp
  with payment_modes_fit [OF bank_sample_collected row pref] show ?thesis by force
qed

lemma bank_sample_generated:
  "\<exists>f s'. generate_bank_file clear_vault ''r1'' ''CSV'' sample_admin True bank_sample = Inr (f, s')"
  by (simp add: generate_bank_file_def bank_sample_collected)
    (simp add: april_collected_def BANK_FORMATS_def clear_vault_def Let_def split: option.split)

theorem bank_file_reads_as_rows_witness:
  "\<exists>f s'. generate_bank_file clear_vault ''r1'' ''CSV'' sample_admin True bank_sample = Inr (f, s')
    \<and> length (read_csv_grid (fi_content f)) = 2"
proof -
  obtain f s' where f: "generate_bank_file clear_vault ''r1'' ''CSV'' sample_admin True bank_sample = Inr (f, s')"
    using bank_sample_generated by blast
  have texts: "readable_texts clear_vault (bk_people bank_sample)"
    by (simp add: readable_texts_def bank_sample_facts) (simp add: asha_def or_empty_def readable_def)
  from bank_file_reads_as_rows [OF f texts] have "length (read_csv_grid (fi_content f)) = 2"
    by (auto simp: bank_sample_collected april_collected_def Let_def)
  with f show ?thesis by blast
qed

end
