(* ===== verification/NumberText.thy ===== *)
theory NumberText
  imports Imports
begin

text \<open>
  \<open>Number(text)\<close> of JavaScript on ASCII text, as the imports use it: \<open>None\<close> is any result that is not
  finite. Very small values do not underflow.
\<close>

definition all_digits :: "string \<Rightarrow> bool" where
  "all_digits s \<longleftrightarrow> s \<noteq> [] \<and> list_all is_digit s"

definition sign_of :: "string \<Rightarrow> bool \<times> string" where
  "sign_of s = (case s of [] \<Rightarrow> (False, []) | c # cs \<Rightarrow> if c = CHR ''-'' then (True, cs) else if c = CHR ''+'' then (False, cs) else (False, s))"

text \<open>The exponent part: nothing, or \<open>e\<close> with a signed whole number.\<close>

definition exponent_of :: "string \<Rightarrow> int option" where
  "exponent_of s =
     (case s of
        [] \<Rightarrow> Some 0
      | c # cs \<Rightarrow>
          if c \<noteq> CHR ''e'' \<and> c \<noteq> CHR ''E'' then None
          else (case sign_of cs of (neg, ds) \<Rightarrow> if all_digits ds then Some (if neg then - digits_value ds else digits_value ds) else None))"

definition unsigned_decimal :: "string \<Rightarrow> rat option" where
  "unsigned_decimal s =
     (let w = takeWhile is_digit s; r = dropWhile is_digit s;
          dotted = (r \<noteq> [] \<and> hd r = CHR ''.'');
          f = (if dotted then takeWhile is_digit (tl r) else []);
          e = (if dotted then dropWhile is_digit (tl r) else r)
      in if w = [] \<and> f = [] then None
         else map_option (\<lambda>x. (of_int (digits_value w) + of_int (digits_value f) / 10 ^ length f) * 10 powi x) (exponent_of e))"

text \<open>Digits of the bases 2, 8 and 16.\<close>

definition base_digit :: "char \<Rightarrow> int" where
  "base_digit c =
     (if is_digit c then of_char c - 48
      else if 97 \<le> ord c \<and> ord c \<le> 122 then of_char c - 87
      else if is_upper c then of_char c - 55 else 99)"

definition based_number :: "int \<Rightarrow> string \<Rightarrow> rat option" where
  "based_number b ds =
     (if ds \<noteq> [] \<and> list_all (\<lambda>c. base_digit c < b) ds then Some (of_int (foldl (\<lambda>n c. b * n + base_digit c) 0 ds)) else None)"

definition literal_value :: "string \<Rightarrow> rat option" where
  "literal_value t =
     (case t of
        z # p # ds \<Rightarrow>
          if z = CHR ''0'' \<and> p \<in> set ''xX'' then based_number 16 ds
          else if z = CHR ''0'' \<and> p \<in> set ''oO'' then based_number 8 ds
          else if z = CHR ''0'' \<and> p \<in> set ''bB'' then based_number 2 ds
          else (case sign_of t of (neg, u) \<Rightarrow> map_option (\<lambda>x. if neg then - x else x) (unsigned_decimal u))
      | _ \<Rightarrow> (case sign_of t of (neg, u) \<Rightarrow> map_option (\<lambda>x. if neg then - x else x) (unsigned_decimal u)))"

text \<open>Text that reads as a magnitude of \<open>2 ^ 1024 - 2 ^ 970\<close> or more is an infinity.\<close>

definition js_number :: "string \<Rightarrow> number option" where
  "js_number s =
     (let t = trim s
      in if t = [] then Some 0
         else (case literal_value t of
            None \<Rightarrow> None
          | Some x \<Rightarrow> if \<bar>x\<bar> < 2 ^ 1024 - 2 ^ 970 then Some (js_fl x) else None))"

end
