(* ===== verification/SalaryImport.thy ===== *)
theory SalaryImport
  imports NumberText SalaryStructure
begin

text \<open>
  The bulk salary import (\<open>payroll/salary-import.service.ts\<close>): every row of the sheet becomes a
  structure on the standard template, checked as the editor checks it, and is written through
  \<open>create\<close> or \<open>update\<close>. The column of employee codes is a function of the employee; rows are
  written one after the other (the code keeps four in flight, each for another employee).
\<close>

section \<open>Columns\<close>

definition SALARY_IMPORT_COLUMNS :: "string list" where
  "SALARY_IMPORT_COLUMNS = [''employeeCode'', ''ctcAnnual'', ''effectiveFrom'', ''basicPercentOfCtc'', ''hraPercentOfBasic'',
     ''daMonthly'', ''conveyanceMonthly'', ''medicalMonthly'', ''ltaMonthly'', ''reason'']"

definition FIXED_COLUMNS :: "(string \<times> string \<times> string) list" where
  "FIXED_COLUMNS = [(''daMonthly'', ''DA'', ''Dearness Allowance''), (''conveyanceMonthly'', ''CONVEYANCE'', ''Conveyance''),
     (''medicalMonthly'', ''MEDICAL'', ''Medical''), (''ltaMonthly'', ''LTA'', ''LTA'')]"

definition DEFAULT_BASIC_PERCENT :: number where "DEFAULT_BASIC_PERCENT = 50"
definition DEFAULT_HRA_PERCENT :: number where "DEFAULT_HRA_PERCENT = 40"

datatype salary_error =
    SalaryCodeRequired
  | NoEmployeeWithCode string
  | EmployeeSeparated
  | NotNumber string string
  | BelowMinimum string number
  | AboveMaximum string number
  | CtcRequired
  | CtcNotPositive
  | NotDate string
  | DateRequired
  | ReasonTooShort
  | OverCtc decimal
  | BadStructure validation_error
  | InvalidStructure
  | CodeRepeated nat
  | SaveFailed "payroll_msg exn"

datatype salary_action = CreateStructure | UpdateStructure

record planned_salary =
  ps_row :: nat
  ps_code :: "string option"
  ps_employee :: "id option"
  ps_action :: "salary_action option"
  ps_dto :: structure_dto
  ps_errors :: "salary_error list"

section \<open>Cells\<close>

definition column :: "string \<Rightarrow> sheet_row \<Rightarrow> string option" where
  "column c r = sr_values r (normalize_header c)"

text \<open>\<open>raw.replace(/[,\<dots>\s]/g, '')\<close>; the currency sign is not ASCII.\<close>

definition plain_number :: "string \<Rightarrow> string" where
  "plain_number s = filter (\<lambda>c. \<not> (c = CHR '','' \<or> is_space c)) s"

definition number_cell :: "string \<Rightarrow> number option \<Rightarrow> number option \<Rightarrow> sheet_row \<Rightarrow> number option \<times> salary_error list" where
  "number_cell c lo hi r =
     (case column c r of
        None \<Rightarrow> (None, [])
      | Some raw \<Rightarrow>
          (case js_number (plain_number raw) of
             None \<Rightarrow> (None, [NotNumber c raw])
           | Some n \<Rightarrow> (Some (round2 n),
               (case lo of None \<Rightarrow> [] | Some l \<Rightarrow> if n < l then [BelowMinimum c l] else [])
               @ (case hi of None \<Rightarrow> [] | Some h \<Rightarrow> if h < n then [AboveMaximum c h] else []))))"

text \<open>\<open>toISOString().slice(0, 10)\<close> of a date of the years 0 to 9999\<close>

definition digits4 :: "int \<Rightarrow> string" where
  "digits4 n = [digit (n div 1000 mod 10), digit (n div 100 mod 10), digit (n div 10 mod 10), digit (n mod 10)]"

definition iso_text :: "date \<Rightarrow> string" where
  "iso_text d = digits4 (utc_year d) @ ''-'' @ pad2 (utc_month d + 1) @ ''-'' @ pad2 (utc_date d)"

definition effective_cell :: "sheet_row \<Rightarrow> employee_row \<Rightarrow> string \<times> salary_error list" where
  "effective_cell r e =
     (case column ''effectiveFrom'' r of
        Some raw \<Rightarrow>
          if raw \<noteq> [] then (case parse_import_date raw of Some d \<Rightarrow> (iso_text d, []) | None \<Rightarrow> ([], [NotDate raw]))
          else (case date_of_joining e of Some d \<Rightarrow> (iso_text d, []) | None \<Rightarrow> ([], [DateRequired]))
      | None \<Rightarrow> (case date_of_joining e of Some d \<Rightarrow> (iso_text d, []) | None \<Rightarrow> ([], [DateRequired])))"

section \<open>The standard template\<close>

definition template_component :: "string \<Rightarrow> string \<Rightarrow> calc_mode \<Rightarrow> number \<Rightarrow> int \<Rightarrow> component_dto" where
  "template_component type name m v i = \<lparr>d_type = type, d_code = Undefined, d_name = name, d_mode = m,
     d_value = Given (of_number v), d_formula = Undefined, d_sort = Given i\<rparr>"

definition template_parts :: "number \<Rightarrow> number \<Rightarrow> (string \<times> string \<times> number) list \<Rightarrow> (string \<times> string \<times> calc_mode \<times> number) list" where
  "template_parts basic hra fixed =
     [(''BASIC'', ''Basic'', PERCENT_OF_CTC, basic)]
     @ (if hra > 0 then [(''HRA'', ''HRA'', PERCENT_OF_BASIC, hra)] else [])
     @ map (\<lambda>(t, n, a). (t, n, FIXED, a)) (filter (\<lambda>(t, n, a). a \<noteq> 0) fixed)"

fun dashed :: "string list \<Rightarrow> string" where
  "dashed [] = []"
| "dashed [s] = s"
| "dashed (s # t # ss) = s @ '' - '' @ dashed (t # ss)"

definition template :: "number \<Rightarrow> number \<Rightarrow> (string \<times> string \<times> number) list \<Rightarrow> component_dto list" where
  "template basic hra fixed =
     (let parts = template_parts basic hra fixed
      in map (\<lambda>(i, t, n, m, v). template_component t n m v (int i)) (List.enumerate 0 parts)
         @ [\<lparr>d_type = ''SPECIAL_ALLOWANCE'', d_code = Undefined, d_name = ''Special Allowance'', d_mode = FORMULA,
             d_value = Undefined, d_formula = Given (''CTC - '' @ dashed (map fst parts)), d_sort = Given (int (length parts))\<rparr>])"

section \<open>One row\<close>

definition no_dto :: structure_dto where
  "no_dto = \<lparr>sd_ctc_annual = 0, sd_effective_from = [], sd_components = [], sd_reason = None\<rparr>"

definition SPECIAL :: string where "SPECIAL = ''SPECIAL_ALLOWANCE''"

text \<open>The structure of a row whose own cells are in order: validated, and within the CTC.\<close>

definition check_template ::
  "decimal_lib \<Rightarrow> payroll_settings \<Rightarrow> component_dto list \<Rightarrow> decimal \<Rightarrow> salary_error list" where
  "check_template L ps cs ctc =
     (case normalize_and_validate_components L cs ctc (ps_min_basic_percent ps) of
        Inl (BadRequest e) \<Rightarrow> [BadStructure e]
      | Inl _ \<Rightarrow> [InvalidStructure]
      | Inr ns \<Rightarrow>
          (case resolve_monthly_amounts L (map component_input.truncate ns) ctc of
             Inl e \<Rightarrow> [BadStructure (Unresolvable e)]
           | Inr amounts \<Rightarrow>
               (case amounts SPECIAL of
                  None \<Rightarrow> [InvalidStructure]
                | Some a \<Rightarrow> if a < 0 then [OverCtc (- a)] else [])))"

definition find_by_code :: "(id \<Rightarrow> string) \<Rightarrow> string \<Rightarrow> payroll_db \<Rightarrow> employee_row option" where
  "find_by_code code_of code s = find_row (\<lambda>e. code_of (emp_id e) = code) (rev (employees s))"

text \<open>The cells of an employee's row, then the fixed amounts, then the structure.\<close>

definition parse_cells ::
  "decimal_lib \<Rightarrow> payroll_settings \<Rightarrow> sheet_row \<Rightarrow> employee_row \<Rightarrow> structure_dto \<times> salary_error list" where
  "parse_cells L ps r e =
     (let (ctc, ctc_errors) = number_cell ''ctcAnnual'' None None r;
          ctc_problem = (case ctc of None \<Rightarrow> [CtcRequired] | Some x \<Rightarrow> if x \<le> 0 then [CtcNotPositive] else []);
          (from, from_errors) = effective_cell r e;
          (basic, basic_errors) = number_cell ''basicPercentOfCtc'' (Some 0) (Some 100) r;
          (hra, hra_errors) = number_cell ''hraPercentOfBasic'' (Some 0) (Some 100) r;
          reason = column ''reason'' r;
          reason_errors = (case reason of None \<Rightarrow> [] | Some t \<Rightarrow> if length t < 10 then [ReasonTooShort] else []);
          errors = ctc_errors @ ctc_problem @ from_errors @ basic_errors @ hra_errors @ reason_errors
      in if errors \<noteq> [] then (no_dto, errors)
         else
           let cells = map (\<lambda>(c, t, n). (t, n, number_cell c (Some 0) None r)) FIXED_COLUMNS;
               fixed_errors = concat (map (\<lambda>(t, n, v, es). es) cells);
               fixed = map (\<lambda>(t, n, v, es). (t, n, case v of None \<Rightarrow> 0 | Some a \<Rightarrow> a)) cells;
               total = of_number (case ctc of None \<Rightarrow> 0 | Some x \<Rightarrow> x);
               cs = template (case basic of None \<Rightarrow> DEFAULT_BASIC_PERCENT | Some x \<Rightarrow> x)
                 (case hra of None \<Rightarrow> DEFAULT_HRA_PERCENT | Some x \<Rightarrow> x) fixed;
               structure_errors = (if fixed_errors \<noteq> [] then [] else check_template L ps cs total)
           in (\<lparr>sd_ctc_annual = total, sd_effective_from = from, sd_components = cs, sd_reason = reason\<rparr>,
               fixed_errors @ structure_errors))"

definition parse_salary_row ::
  "decimal_lib \<Rightarrow> (id \<Rightarrow> string) \<Rightarrow> payroll_settings \<Rightarrow> payroll_db \<Rightarrow> sheet_row \<Rightarrow> planned_salary" where
  "parse_salary_row L code_of ps s r =
     (let code = column ''employeeCode'' r;
          blank = \<lparr>ps_row = sr_row r, ps_code = code, ps_employee = None, ps_action = None, ps_dto = no_dto, ps_errors = []\<rparr>
      in (case (case code of None \<Rightarrow> None | Some t \<Rightarrow> if t = [] then None else Some t) of
            None \<Rightarrow> blank\<lparr>ps_errors := [SalaryCodeRequired]\<rparr>
          | Some c \<Rightarrow>
              (case find_by_code code_of c s of
                 None \<Rightarrow> blank\<lparr>ps_errors := [NoEmployeeWithCode c]\<rparr>
               | Some e \<Rightarrow>
                   if lifecycle e = SEPARATED then blank\<lparr>ps_errors := [EmployeeSeparated]\<rparr>
                   else
                     let (dto, errors) = parse_cells L ps r e
                     in blank\<lparr>ps_employee := Some (emp_id e),
                          ps_action := Some (if find_active s (emp_id e) \<noteq> None then UpdateStructure else CreateStructure),
                          ps_dto := dto, ps_errors := errors\<rparr>)))"

section \<open>The whole sheet\<close>

definition named_code :: "planned_salary \<Rightarrow> string option" where
  "named_code p = (case ps_code p of None \<Rightarrow> None | Some t \<Rightarrow> if t = [] then None else Some t)"

fun mark_repeated :: "(string \<rightharpoonup> nat) \<Rightarrow> planned_salary list \<Rightarrow> planned_salary list" where
  "mark_repeated seen [] = []"
| "mark_repeated seen (p # ps) =
     (case named_code p of
        None \<Rightarrow> p # mark_repeated seen ps
      | Some c \<Rightarrow>
          (case seen c of
             Some n \<Rightarrow> p\<lparr>ps_errors := ps_errors p @ [CodeRepeated n]\<rparr> # mark_repeated seen ps
           | None \<Rightarrow> p # mark_repeated (seen(c \<mapsto> ps_row p)) ps))"

definition plan_salaries ::
  "decimal_lib \<Rightarrow> (id \<Rightarrow> string) \<Rightarrow> payroll_settings \<Rightarrow> payroll_db \<Rightarrow> sheet_row list \<Rightarrow> planned_salary list" where
  "plan_salaries L code_of ps s rows = mark_repeated Map.empty (map (parse_salary_row L code_of ps s) rows)"

record new_ids =
  ni_structure :: "nat \<Rightarrow> id"
  ni_revision :: "nat \<Rightarrow> id"
  ni_arrears :: "nat \<Rightarrow> id \<Rightarrow> id"

definition save_salary :: "decimal_lib \<Rightarrow> bool \<Rightarrow> new_ids \<Rightarrow> auth_user \<Rightarrow> planned_salary \<Rightarrow> payroll_db \<Rightarrow> payroll_db answer" where
  "save_salary L up ids user p s =
     (case (ps_employee p, ps_action p) of
        (Some e, Some CreateStructure) \<Rightarrow> create_structure L up (ni_structure ids (ps_row p)) e (ps_dto p) user s
      | (Some e, _) \<Rightarrow> update_structure L up (ni_revision ids (ps_row p)) (ni_structure ids (ps_row p)) (ni_arrears ids (ps_row p)) e (ps_dto p) user s
      | (None, _) \<Rightarrow> Inl (NotFound EmployeeMissing))"

text \<open>The rows in order, each with what became of it; a row that fails changes nothing.\<close>

fun save_salaries :: "decimal_lib \<Rightarrow> bool \<Rightarrow> new_ids \<Rightarrow> auth_user \<Rightarrow> planned_salary list \<Rightarrow> payroll_db
    \<Rightarrow> planned_salary list \<times> payroll_db" where
  "save_salaries L up ids user [] s = ([], s)"
| "save_salaries L up ids user (p # ps) s =
     (if ps_errors p \<noteq> [] then (case save_salaries L up ids user ps s of (qs, s') \<Rightarrow> (p # qs, s'))
      else (case save_salary L up ids user p s of
         Inl e \<Rightarrow> (case save_salaries L up ids user ps s of (qs, s') \<Rightarrow> (p\<lparr>ps_errors := [SaveFailed e]\<rparr> # qs, s'))
       | Inr s1 \<Rightarrow> (case save_salaries L up ids user ps s1 of (qs, s') \<Rightarrow> (p # qs, s'))))"

datatype salary_import_problem = SheetProblem import_problem | MissingColumn string

record salary_report =
  sp_dry_run :: bool
  sp_rows :: "planned_salary list"
  sp_ignored :: "string list"
  sp_created :: nat
  sp_updated :: nat

definition salary_report_of :: "bool \<Rightarrow> string list \<Rightarrow> planned_salary list \<Rightarrow> salary_report" where
  "salary_report_of dry ignored ps =
     (let ok = filter (\<lambda>p. ps_errors p = []) ps
      in \<lparr>sp_dry_run = dry, sp_rows = ps, sp_ignored = ignored,
          sp_created = length (filter (\<lambda>p. ps_action p = Some CreateStructure) ok),
          sp_updated = length (filter (\<lambda>p. ps_action p = Some UpdateStructure) ok)\<rparr>)"

definition missing_column :: "parsed_sheet \<Rightarrow> string option" where
  "missing_column sh = List.find (\<lambda>c. normalize_header c \<notin> set (sh_headers sh)) [''employeeCode'', ''ctcAnnual'']"

definition import_salaries ::
  "decimal_lib \<Rightarrow> bool \<Rightarrow> new_ids \<Rightarrow> (id \<Rightarrow> string) \<Rightarrow> string list list \<Rightarrow> auth_user \<Rightarrow> bool \<Rightarrow> payroll_db
    \<Rightarrow> (salary_import_problem exn, salary_report \<times> payroll_db) result" where
  "import_salaries L up ids code_of grid user dry s =
     (case sheet_of_grid grid of
        Inl (BadRequest e) \<Rightarrow> Inl (BadRequest (SheetProblem e))
      | Inl _ \<Rightarrow> Inl (BadRequest (SheetProblem NoHeaderRow))
      | Inr sh \<Rightarrow>
          (case missing_column sh of
             Some c \<Rightarrow> Inl (BadRequest (MissingColumn c))
           | None \<Rightarrow>
               let ignored = filter (\<lambda>h. h \<notin> set (map normalize_header SALARY_IMPORT_COLUMNS)) (sh_headers sh);
                   (settings, s1) = get_settings s;
                   planned = plan_salaries L code_of settings s1 (sh_rows sh)
               in if dry then Inr (salary_report_of True ignored planned, s1)
                  else (case save_salaries L up ids user planned s1 of
                    (done, s2) \<Rightarrow> Inr (salary_report_of False ignored done, s2))))"

end
