(* ===== verification/SalaryImportProperties.thy ===== *)
theory SalaryImportProperties
  imports SalaryImport StructureProperties
begin

text \<open>
  What the bulk salary import guarantees: which rows are accepted, and what saving them does to the
  structures of those employees and of everyone else.
\<close>

section \<open>The special allowance\<close>

text \<open>The formula of every template the columns allow.\<close>

lemma template_formula:
  assumes "ts \<in> set (subseqs [''HRA'', ''DA'', ''CONVEYANCE'', ''MEDICAL'', ''LTA''])"
  shows "parse_formula L (''CTC - '' @ dashed (''BASIC'' # ts)) = Inr (foldl (\<lambda>e t. Bin Sub e (Ref t)) (Ref CTC_VARIABLE) (''BASIC'' # ts))"
proof -
  have "list_all (\<lambda>ts. parse_formula L (''CTC - '' @ dashed (''BASIC'' # ts)) = Inr (foldl (\<lambda>e t. Bin Sub e (Ref t)) (Ref CTC_VARIABLE) (''BASIC'' # ts)))
      (subseqs [''HRA'', ''DA'', ''CONVEYANCE'', ''MEDICAL'', ''LTA''])"
    by code_simp
  with assms show ?thesis by (simp only: list_all_iff Ball_def)
qed

lemma eval_differences:
  assumes "eval_node L vars e = Inr v" and "eval_node L vars (foldl (\<lambda>e t. Bin Sub e (Ref t)) e ts) = Inr a"
  shows "a = foldl (dminus L) v (map (\<lambda>t. the (vars t)) ts)"
  using assms
proof (induction ts arbitrary: e v)
  case (Cons t ts)
  have fail: "eval_node L vars (foldl (\<lambda>e t. Bin Sub e (Ref t)) e' us) = Inl x" if "eval_node L vars e' = Inl x" for e' us x
    using that by (induction us arbitrary: e') (simp_all add: and_then_def)
  show ?case
  proof (cases "vars t")
    case None
    then have "eval_node L vars (Bin Sub e (Ref t)) = Inl (UnknownReference t)" using Cons.prems(1) by simp
    from fail [OF this, of ts] Cons.prems(2) show ?thesis by simp
  next
    case (Some x)
    with Cons.prems Cons.IH [of "Bin Sub e (Ref t)" "dminus L v x"] show ?thesis by simp
  qed
qed simp

lemma normalize_all_from:
  "normalize_all L seen i cs = Inr ns \<Longrightarrow> n \<in> set ns \<Longrightarrow> \<exists>c \<in> set cs. \<exists>seen i. normalize_one L seen i c = Inr n"
proof (induction cs arbitrary: seen i ns)
  case (Cons c cs)
  from Cons.prems(1) obtain k ks where k: "normalize_one L seen i c = Inr k" "normalize_all L (ci_code k # seen) (i + 1) cs = Inr ks"
    "ns = k # ks"
    by (auto simp: and_then_Inr_iff)
  show ?case
  proof (cases "n = k")
    case True
    with k(1) show ?thesis by (intro bexI [of _ c]) auto
  next
    case False
    with Cons.prems(2) k(3) have "n \<in> set ks" by simp
    from Cons.IH [OF k(2) this] show ?thesis by auto
  qed
qed simp

definition FIXED_TYPES :: "string list" where
  "FIXED_TYPES = map (\<lambda>(c, t, n). t) FIXED_COLUMNS"

lemma template_types:
  assumes "map fst fixed = FIXED_TYPES"
  shows "\<exists>ts. map fst (template_parts b h fixed) = ''BASIC'' # ts \<and> ts \<in> set (subseqs [''HRA'', ''DA'', ''CONVEYANCE'', ''MEDICAL'', ''LTA''])"
proof -
  obtain n1 a1 n2 a2 n3 a3 n4 a4 where f: "fixed = [(''DA'', n1, a1), (''CONVEYANCE'', n2, a2), (''MEDICAL'', n3, a3), (''LTA'', n4, a4)]"
    using assms by (auto simp: FIXED_TYPES_def FIXED_COLUMNS_def map_eq_Cons_conv)
  show ?thesis by (simp add: f template_parts_def Let_def)
qed

lemma template_special:
  assumes "map fst fixed = FIXED_TYPES" and "c \<in> set (template b h fixed)" and "d_type c = SPECIAL"
  shows "c = last (template b h fixed)"
proof -
  obtain n1 a1 n2 a2 n3 a3 n4 a4 where f: "fixed = [(''DA'', n1, a1), (''CONVEYANCE'', n2, a2), (''MEDICAL'', n3, a3), (''LTA'', n4, a4)]"
    using assms(1) by (auto simp: FIXED_TYPES_def FIXED_COLUMNS_def map_eq_Cons_conv)
  have "\<forall>x \<in> set (template_parts b h fixed). fst x \<noteq> SPECIAL" by (simp add: f template_parts_def SPECIAL_def)
  then have "t \<noteq> SPECIAL" if "(i, t, n, m, v) \<in> set (List.enumerate 0 (template_parts b h fixed))" for i t n m v
    using that by (auto simp: in_set_enumerate_eq) (metis fst_conv nth_mem)
  with assms(2,3) show ?thesis by (auto simp: template_def Let_def template_component_def)
qed

lemma template_butlast: "map d_type (butlast (template b h fixed)) = map fst (template_parts b h fixed)"
proof -
  have "map (\<lambda>(i, t, n, m, v). t) (List.enumerate j ps) = map fst ps" for j and ps :: "(string \<times> string \<times> calc_mode \<times> number) list"
    by (induction ps arbitrary: j) auto
  then show ?thesis by (simp add: template_def Let_def template_component_def comp_def split_def)
qed

text \<open>The special allowance is what the other components leave of the monthly CTC.\<close>

lemma template_special_row:
  assumes "map fst fixed = FIXED_TYPES" and "normalize_all L [] 0 (template b h fixed) = Inr ns"
    and "n \<in> set ns" and "ci_code n = SPECIAL"
  shows "ci_mode n = FORMULA \<and> ci_formula n = Some (''CTC - '' @ dashed (map fst (template_parts b h fixed)))"
proof -
  obtain c seen i where c: "c \<in> set (template b h fixed)" "normalize_one L seen i c = Inr n"
    using normalize_all_from [OF assms(2,3)] by blast
  have std: "SPECIAL \<in> set STANDARD_CODES" by (simp add: SPECIAL_def STANDARD_CODES_def)
  from normalize_one_Inr [OF c(2)] std assms(4) have "d_type c = SPECIAL" by (cases "d_type c = ''CUSTOM''") auto
  then have "c = last (template b h fixed)" by (rule template_special [OF assms(1) c(1)])
  then have "d_mode c = FORMULA" "d_formula c = Given (''CTC - '' @ dashed (map fst (template_parts b h fixed)))"
    by (simp_all add: template_def Let_def)
  with c(2) show ?thesis by (auto simp: normalize_one_def and_then_Inr_iff split: if_splits)
qed

lemma special_balances:
  assumes "map fst fixed = FIXED_TYPES"
    and "normalize_and_validate_components L (template b h fixed) ctc pct = Inr ns"
    and "resolve_monthly_amounts L (map component_input.truncate ns) ctc = Inr amounts"
    and "amounts SPECIAL = Some a"
  shows "a = foldl (dminus L) (ddiv L ctc 12) (map (\<lambda>c. the (amounts (d_type c))) (butlast (template b h fixed)))"
proof -
  let ?cs = "map component_input.truncate ns" and ?m = "ddiv L ctc 12"
  let ?vars = "amounts(CTC_VARIABLE \<mapsto> ?m)" and ?types = "map fst (template_parts b h fixed)"
  obtain ts where ts: "?types = ''BASIC'' # ts"
      "ts \<in> set (subseqs [''HRA'', ''DA'', ''CONVEYANCE'', ''MEDICAL'', ''LTA''])"
    using template_types [OF assms(1), of b h] by (elim exE conjE) (rule that)
  from assms(2) have all: "normalize_all L [] 0 (template b h fixed) = Inr ns" by (rule validated_Inr)
  obtain c where c: "by_code ?cs SPECIAL = Some c" "component_amount L ?m amounts c = Inr a"
    using resolve_monthly_equations [OF assms(3)] assms(4) by blast
  obtain n where n: "n \<in> set ns" "c = component_input.truncate n" "ci_code n = SPECIAL"
    using by_code_SomeD [OF c(1)] by (auto simp: component_input.truncate_def)
  note row = template_special_row [OF assms(1) all n(1,3)]
  have parse: "parse_formula L (''CTC - '' @ dashed ?types) = Inr (foldl (\<lambda>e t. Bin Sub e (Ref t)) (Ref CTC_VARIABLE) ?types)"
    unfolding ts(1) by (rule template_formula [OF ts(2)])
  have "evaluate_formula L (''CTC - '' @ dashed ?types) ?vars = Inr a"
    using c(2) row
    by (simp add: n(2) component_amount_def comp_formula_def lift_formula_def component_input.truncate_def split: sum.splits)
  then have ev: "eval_node L ?vars (foldl (\<lambda>e t. Bin Sub e (Ref t)) (Ref CTC_VARIABLE) ?types) = Inr a"
    unfolding evaluate_formula_def parse by simp
  have no_ctc: "t \<noteq> CTC_VARIABLE" if "t \<in> set ?types" for t
    using that ts by (auto simp: CTC_VARIABLE_def)
  have "a = foldl (dminus L) ?m (map (\<lambda>t. the (?vars t)) ?types)"
    by (rule eval_differences [OF _ ev]) simp
  also have "map (\<lambda>t. the (?vars t)) ?types = map (\<lambda>t. the (amounts t)) ?types"
    using no_ctc by simp
  also have "\<dots> = map (\<lambda>c. the (amounts (d_type c))) (butlast (template b h fixed))"
    unfolding template_butlast [symmetric] by simp
  finally show ?thesis .
qed
section \<open>Accepted rows\<close>

definition row_ok ::
  "decimal_lib \<Rightarrow> (id \<Rightarrow> string) \<Rightarrow> payroll_settings \<Rightarrow> payroll_db \<Rightarrow> planned_salary \<Rightarrow> bool" where
  "row_ok L code_of ps s p \<longleftrightarrow>
     (\<exists>e ns amounts a. e \<in> set (employees s) \<and> lifecycle e \<noteq> SEPARATED
        \<and> ps_employee p = Some (emp_id e) \<and> ps_code p = Some (code_of (emp_id e)) \<and> code_of (emp_id e) \<noteq> []
        \<and> (ps_action p = Some CreateStructure \<longleftrightarrow> find_active s (emp_id e) = None)
        \<and> 0 < sd_ctc_annual (ps_dto p)
        \<and> normalize_and_validate_components L (sd_components (ps_dto p)) (sd_ctc_annual (ps_dto p)) (ps_min_basic_percent ps) = Inr ns
        \<and> resolve_monthly_amounts L (map component_input.truncate ns) (sd_ctc_annual (ps_dto p)) = Inr amounts
        \<and> amounts SPECIAL = Some a \<and> 0 \<le> a
        \<and> a = foldl (dminus L) (ddiv L (sd_ctc_annual (ps_dto p)) 12)
                (map (\<lambda>c. the (amounts (d_type c))) (butlast (sd_components (ps_dto p)))))"

lemma check_template_ok:
  assumes "check_template L ps cs ctc = []"
  shows "\<exists>ns amounts a. normalize_and_validate_components L cs ctc (ps_min_basic_percent ps) = Inr ns
    \<and> resolve_monthly_amounts L (map component_input.truncate ns) ctc = Inr amounts \<and> amounts SPECIAL = Some a \<and> 0 \<le> a"
  using assms by (auto simp: check_template_def split: sum.splits exn.splits option.splits if_splits)

lemma of_number_pos:
  assumes "0 < x" shows "0 < of_number x"
proof (rule ccontr)
  let ?y = "of_number x"
  assume neg: "\<not> 0 < ?y"
  have "js_fl ?y = x \<or> ?y = x" using of_number_cases [of x] by auto
  moreover have "js_fl ?y \<le> 0"
  proof -
    have "js_fl ?y - ?y \<le> - ?y / 10 ^ 15" using js_err [of ?y] neg by (simp add: abs_if split: if_splits)
    also have "\<dots> \<le> - ?y" using neg by (simp add: field_simps)
    finally show ?thesis by simp
  qed
  ultimately show False using assms neg by auto
qed

lemma parse_cells_ok:
  assumes "parse_cells L ps r e = (dto, [])"
  shows "0 < sd_ctc_annual dto \<and> check_template L ps (sd_components dto) (sd_ctc_annual dto) = []
    \<and> (\<exists>b h fixed. sd_components dto = template b h fixed \<and> map fst fixed = FIXED_TYPES)"
proof -
  obtain ctc ce where c: "number_cell ''ctcAnnual'' None None r = (ctc, ce)" by fastforce
  obtain from' fe where f: "effective_cell r e = (from', fe)" by fastforce
  obtain b be where b: "number_cell ''basicPercentOfCtc'' (Some 0) (Some 100) r = (b, be)" by fastforce
  obtain h he where h: "number_cell ''hraPercentOfBasic'' (Some 0) (Some 100) r = (h, he)" by fastforce
  show ?thesis
    using assms
    by (auto simp: parse_cells_def c f b h Let_def not_le of_number_pos FIXED_TYPES_def comp_def split_def
        intro!: exI split: option.splits if_splits)
qed

lemma find_by_code_SomeD:
  "find_by_code code_of c s = Some e \<Longrightarrow> e \<in> set (employees s) \<and> code_of (emp_id e) = c"
  by (auto simp: find_by_code_def dest: find_row_SomeD)

lemma parsed_row_ok:
  assumes "ps_errors (parse_salary_row L code_of ps s r) = []"
  shows "row_ok L code_of ps s (parse_salary_row L code_of ps s r)"
proof -
  let ?p = "parse_salary_row L code_of ps s r"
  obtain c where c: "column ''employeeCode'' r = Some c" "c \<noteq> []"
    using assms by (cases "column ''employeeCode'' r") (auto simp: parse_salary_row_def Let_def split: if_splits)
  obtain e where e: "find_by_code code_of c s = Some e" "lifecycle e \<noteq> SEPARATED"
    using assms c
    by (cases "find_by_code code_of c s") (auto simp: parse_salary_row_def Let_def split: if_splits)
  obtain dto es where d: "parse_cells L ps r e = (dto, es)" by fastforce
  have p: "?p = \<lparr>ps_row = sr_row r, ps_code = Some c, ps_employee = Some (emp_id e),
      ps_action = Some (if find_active s (emp_id e) \<noteq> None then UpdateStructure else CreateStructure),
      ps_dto = dto, ps_errors = es\<rparr>"
    using c e by (simp add: parse_salary_row_def d)
  with assms d have d0: "parse_cells L ps r e = (dto, [])" by simp
  from parse_cells_ok [OF d0] have pos: "0 < sd_ctc_annual dto"
    and chk: "check_template L ps (sd_components dto) (sd_ctc_annual dto) = []" by auto
  obtain b h fixed where t: "sd_components dto = template b h fixed" "map fst fixed = FIXED_TYPES"
    using parse_cells_ok [OF d0] by blast
  obtain ns amounts a where n:
      "normalize_and_validate_components L (sd_components dto) (sd_ctc_annual dto) (ps_min_basic_percent ps) = Inr ns"
      "resolve_monthly_amounts L (map component_input.truncate ns) (sd_ctc_annual dto) = Inr amounts" "amounts SPECIAL = Some a" "0 \<le> a"
    using check_template_ok [OF chk] by blast
  note bal = special_balances [OF t(2) n(1) [unfolded t(1)] n(2,3), folded t(1)]
  from find_by_code_SomeD [OF e(1)] c(2) pos e(2) n bal show ?thesis
    unfolding p row_ok_def
    by (intro exI [of _ e] exI [of _ ns] exI [of _ amounts] exI [of _ a]) (simp only: simp_thms planned_salary.simps option.simps, auto)
qed

lemma mark_repeated_clean:
  "p \<in> set (mark_repeated seen ps) \<Longrightarrow> ps_errors p = [] \<Longrightarrow> p \<in> set ps \<and> (\<forall>c. named_code p = Some c \<longrightarrow> seen c = None)"
  by (induction seen ps rule: mark_repeated.induct) (auto split: option.splits if_splits)

lemma clean_codes_distinct:
  assumes "\<And>p. p \<in> set ps \<Longrightarrow> ps_errors p = [] \<Longrightarrow> named_code p \<noteq> None"
  shows "distinct (map named_code (filter (\<lambda>p. ps_errors p = []) (mark_repeated seen ps)))"
  using assms
proof (induction seen ps rule: mark_repeated.induct)
  case (2 seen p ps)
  show ?case
  proof (cases "named_code p")
    case None
    then have "ps_errors p \<noteq> []" using 2(4) [of p] by auto
    with None 2(1) [OF None] 2(4) show ?thesis by simp
  next
    case (Some c)
    show ?thesis
    proof (cases "seen c")
      case None
      have "named_code q \<noteq> Some c" if "q \<in> set (mark_repeated (seen(c \<mapsto> ps_row p)) ps)" "ps_errors q = []" for q
        using mark_repeated_clean [OF that] by auto
      then have "named_code p \<notin> named_code ` set (filter (\<lambda>q. ps_errors q = []) (mark_repeated (seen(c \<mapsto> ps_row p)) ps))"
        unfolding Some by force
      moreover have "distinct (map named_code (filter (\<lambda>q. ps_errors q = []) (mark_repeated (seen(c \<mapsto> ps_row p)) ps)))"
        by (rule 2(2) [OF Some None]) (use 2(4) in simp)
      ultimately show ?thesis by (simp add: Some None)
    next
      case (Some n)
      with \<open>named_code p = Some c\<close> 2(3) [OF \<open>named_code p = Some c\<close> Some] 2(4) show ?thesis by simp
    qed
  qed
qed simp

lemma row_ok_named: "row_ok L code_of ps s p \<Longrightarrow> named_code p = ps_code p \<and> ps_code p \<noteq> None"
  by (auto simp: row_ok_def named_code_def)

text \<open>No two rows without errors have the same code.\<close>

lemma planned_rows_sound:
  "list_all (row_ok L code_of ps s) (filter (\<lambda>p. ps_errors p = []) (plan_salaries L code_of ps s rows))
   \<and> distinct (map ps_code (filter (\<lambda>p. ps_errors p = []) (plan_salaries L code_of ps s rows)))"
proof -
  let ?ok = "filter (\<lambda>p. ps_errors p = []) (plan_salaries L code_of ps s rows)"
  have parsed: "row_ok L code_of ps s p" if "p \<in> set (map (parse_salary_row L code_of ps s) rows)" "ps_errors p = []" for p
    using that parsed_row_ok by auto
  have ok: "row_ok L code_of ps s p" if "p \<in> set ?ok" for p
    using that mark_repeated_clean [of p Map.empty "map (parse_salary_row L code_of ps s) rows"] parsed [of p]
    by (simp add: plan_salaries_def)
  have "distinct (map named_code ?ok)"
    unfolding plan_salaries_def by (rule clean_codes_distinct) (use parsed row_ok_named in fastforce)
  moreover have "map named_code ?ok = map ps_code ?ok"
    by (rule map_cong [OF refl]) (use ok row_ok_named in blast)
  ultimately show ?thesis using ok by (simp add: list_all_iff)
qed

section \<open>Saving a row\<close>

definition of_employee :: "id \<Rightarrow> payroll_db \<Rightarrow> structure_row table" where
  "of_employee e s = filter (\<lambda>r. st_employee r = e) (structures s)"

lemma find_active_of_employee: "find_active s e = find_row (\<lambda>r. st_status r = ACTIVE) (of_employee e s)"
proof -
  have "find_row (\<lambda>r. st_employee r = e \<and> st_status r = ACTIVE) t
      = find_row (\<lambda>r. st_status r = ACTIVE) (filter (\<lambda>r. st_employee r = e) t)" for t
    by (induction t) (simp_all del: find_row_None)
  then show ?thesis by (simp add: find_active_def of_employee_def)
qed

text \<open>The employee's active structure is the one of the request, validated under these settings.\<close>

definition in_force :: "decimal_lib \<Rightarrow> payroll_settings \<Rightarrow> id \<Rightarrow> structure_dto \<Rightarrow> payroll_db \<Rightarrow> bool" where
  "in_force L ps e dto s \<longleftrightarrow>
     (\<exists>cs st. normalize_and_validate_components L (sd_components dto) (sd_ctc_annual dto) (ps_min_basic_percent ps) = Inr cs
        \<and> find_active s e = Some st \<and> st_components st = map stored_component cs
        \<and> st_ctc_annual st = money_col (sd_ctc_annual dto) \<and> st_effective_from st = day_of_text (sd_effective_from dto))"

lemma in_force_cong: "of_employee e s' = of_employee e s \<Longrightarrow> in_force L ps e dto s' = in_force L ps e dto s"
  by (simp add: in_force_def find_active_of_employee)

lemma known_settings: "settings s = Some ps \<Longrightarrow> get_settings s = (ps, s)"
  by (simp add: get_settings_def)

lemma imported_creation_effect:
  assumes "create_structure L up sid e dto user s = Inr s'" and "settings s = Some ps"
  shows "settings s' = Some ps \<and> line_items s' = line_items s \<and> in_force L ps e dto s'
    \<and> (\<forall>i. i \<noteq> e \<longrightarrow> of_employee i s' = of_employee i s)"
proof -
  obtain cs where v: "validated L dto ps = Inr cs" and none: "find_active s e = None"
    and t: "structures s' = structures s @ [new_structure sid e (sd_ctc_annual dto) (day_of_text (sd_effective_from dto)) cs]"
      "settings s' = settings s" "line_items s' = line_items s"
    using assms(1)
    by (auto simp: create_structure_def create_structure_begin_def create_structure_commit_def known_settings [OF assms(2)]
        and_then_Inr_iff split: if_splits)
  have "find_active s' e = Some (new_structure sid e (sd_ctc_annual dto) (day_of_text (sd_effective_from dto)) cs)"
    using none by (simp add: find_active_def t(1) find_row_append new_structure_def del: find_row_None)
  then have "in_force L ps e dto s'"
    using v by (simp add: in_force_def validated_Inr_iff new_structure_def)
  with t assms(2) show ?thesis by (simp add: of_employee_def new_structure_def)
qed

lemma revised_effect:
  assumes "apply_revision L up rid sid aid e active cs (sd_ctc_annual dto) (day_of_text (sd_effective_from dto)) reason user affected s = Inr s'"
    and "settings s = Some ps" and "structures_ok (structures s)" and "find_active s e = Some active"
    and "validated L dto ps = Inr cs"
  shows "settings s' = Some ps \<and> line_items s' = line_items s \<and> in_force L ps e dto s'
    \<and> (\<forall>i. i \<noteq> e \<longrightarrow> of_employee i s' = of_employee i s)"
proof -
  let ?new = "new_structure sid e (sd_ctc_annual dto) (day_of_text (sd_effective_from dto)) cs"
  have set: "settings s' = Some ps"
    using assms(1,2) by (auto simp: apply_revision_def known_settings [OF assms(2)] and_then_Inr_iff Let_def split: option.splits if_splits)
  from assms(1) have t: "find_row (\<lambda>r. st_id r = sid) (superseded (st_id active) s) = None"
    "\<not> active_in e (superseded (st_id active) s)" "structures s' = superseded (st_id active) s @ [?new]" "line_items s' = line_items s"
    by (auto elim!: apply_revision_Inr)
  have act: "active \<in> set (structures s)" "st_employee active = e" using find_active_SomeD [OF assms(4)] by auto
  have only: "st_employee r = e" if "r \<in> set (structures s)" "st_id r = st_id active" for r
    using that act assms(3) by (auto simp: structures_ok_def unique_key_def distinct_map inj_on_def)
  have "of_employee i s' = of_employee i s" if "i \<noteq> e" for i
    using that filter_update_rows [of "structures s" "\<lambda>r. st_id r = st_id active" "\<lambda>r. st_employee r = i" "\<lambda>r. r\<lparr>st_status := SUPERSEDED\<rparr>"] only
    by (auto simp: of_employee_def t(3) superseded_def new_structure_def)
  moreover have "find_active s' e = Some ?new" by (rule find_active_superseded(1) [OF assms(4,3) t(1-3)])
  ultimately show ?thesis
    using assms(5) set t(4) by (simp add: in_force_def validated_Inr_iff new_structure_def)
qed

lemma edited_effect:
  assumes "settings s = Some ps" and "structures_ok (structures s)" and "find_active s e = Some active"
    and "validated L dto ps = Inr cs" and "s' = edit_in_place up e active dto cs user s"
  shows "settings s' = Some ps \<and> line_items s' = line_items s \<and> in_force L ps e dto s'
    \<and> (\<forall>i. i \<noteq> e \<longrightarrow> of_employee i s' = of_employee i s)"
proof -
  let ?f = "\<lambda>r. r\<lparr>st_ctc_annual := money_col (sd_ctc_annual dto), st_effective_from := day_of_text (sd_effective_from dto),
      st_components := map stored_component cs\<rparr>"
  let ?p = "\<lambda>r. st_employee r = e \<and> st_status r = ACTIVE"
  have t: "structures s' = update_rows (\<lambda>r. st_id r = st_id active) ?f (structures s)" "settings s' = settings s"
    "line_items s' = line_items s"
    by (simp_all add: assms(5) edit_in_place_def)
  have act: "active \<in> set (structures s)" "st_employee active = e" "st_status active = ACTIVE"
    using find_active_SomeD [OF assms(3)] by auto
  have only: "r = active" if "r \<in> set (structures s)" "st_id r = st_id active" for r
    using that act assms(2) by (auto simp: structures_ok_def unique_key_def distinct_map inj_on_def)
  have "of_employee i s' = of_employee i s" if "i \<noteq> e" for i
    using that act only
    unfolding of_employee_def t(1) by (intro filter_update_rows) auto
  moreover have "find_row ?p (update_rows (\<lambda>r. st_id r = st_id active) ?f u) = Some (?f active)"
    if "find_row ?p u = Some active" for u
    using that act(2,3) by (induction u) (auto simp del: find_row_None split: if_splits)
  then have "find_active s' e = Some (?f active)" using assms(3) by (simp add: find_active_def t(1))
  ultimately show ?thesis
    using assms(1,4) t(2,3) by (simp add: in_force_def validated_Inr_iff)
qed

lemma updated_effect:
  assumes "update_structure L up rid sid aid e dto user s = Inr s'" and "settings s = Some ps" and "structures_ok (structures s)"
  shows "settings s' = Some ps \<and> line_items s' = line_items s \<and> in_force L ps e dto s'
    \<and> (\<forall>i. i \<noteq> e \<longrightarrow> of_employee i s' = of_employee i s)"
  using assms(1)
proof (rule update_structure_Inr, unfold known_settings [OF assms(2)] fst_conv snd_conv)
  fix active cs
  assume a: "find_active s e = Some active" "validated L dto ps = Inr cs"
  let ?affected = "find_affected_line_items s e (effective_period (sd_effective_from dto))"
  let ?reason = "case sd_reason dto of None \<Rightarrow> AUTO_UPGRADED | Some r \<Rightarrow> r"
  assume b: "if ?affected = [] then s' = edit_in_place up e active dto cs user s
    else apply_revision L up rid sid aid e active cs (sd_ctc_annual dto) (day_of_text (sd_effective_from dto)) ?reason user ?affected s = Inr s'"
  show ?thesis
  proof (cases "?affected = []")
    case True
    with b have "s' = edit_in_place up e active dto cs user s" by simp
    then show ?thesis by (rule edited_effect [OF assms(2,3) a])
  next
    case False
    with b have "apply_revision L up rid sid aid e active cs (sd_ctc_annual dto) (day_of_text (sd_effective_from dto)) ?reason
      user ?affected s = Inr s'" by simp
    then show ?thesis by (rule revised_effect [OF _ assms(2,3) a])
  qed
qed

lemma save_salary_cases:
  assumes "save_salary L up ids user p s = Inr s'"
  obtains e where "ps_employee p = Some e"
      "create_structure L up (ni_structure ids (ps_row p)) e (ps_dto p) user s = Inr s'"
  | e where "ps_employee p = Some e"
      "update_structure L up (ni_revision ids (ps_row p)) (ni_structure ids (ps_row p)) (ni_arrears ids (ps_row p)) e (ps_dto p) user s = Inr s'"
  using assms unfolding save_salary_def
  by (cases "ps_employee p"; cases "ps_action p"; cases "the (ps_action p)") simp_all

lemma save_salary_effect:
  assumes "save_salary L up ids user p s = Inr s'" and "settings s = Some ps" and "structures_ok (structures s)"
  obtains e where "ps_employee p = Some e" "structures_ok (structures s')" "settings s' = Some ps"
    "line_items s' = line_items s" "in_force L ps e (ps_dto p) s'"
    "\<And>i. i \<noteq> e \<Longrightarrow> of_employee i s' = of_employee i s"
proof -
  have ok: "structures_ok (structures s')" if "structure_step\<^sup>*\<^sup>* s s'"
    using that by (induction rule: rtranclp_induct) (use assms(3) step_structures_ok in auto)
  from assms(1) show thesis
  proof (cases rule: save_salary_cases)
    case (1 e)
    show thesis
      by (rule that [OF 1(1) ok [OF handlers_are_steps(1) [OF 1(2)]]]) (use imported_creation_effect [OF 1(2) assms(2)] in simp_all)
  next
    case (2 e)
    show thesis
      by (rule that [OF 2(1) ok [OF handlers_are_steps(3) [OF 2(2)]]]) (use updated_effect [OF 2(2) assms(2,3)] in simp_all)
  qed
qed

section \<open>Saving the sheet\<close>

definition saved :: "planned_salary list \<Rightarrow> planned_salary list" where
  "saved qs = filter (\<lambda>p. ps_errors p = []) qs"

text \<open>
  The rows saved are rows planned without an error; each is in force at the end, and an employee of no
  row saved keeps every structure.
\<close>

lemma save_salaries_effect:
  assumes "save_salaries L up ids user pls s = (qs, s')" and "settings s = Some ps" and "structures_ok (structures s)"
    and "distinct (map ps_employee (saved pls))"
  shows "structures_ok (structures s') \<and> line_items s' = line_items s
    \<and> set (saved qs) \<subseteq> set (saved pls)
    \<and> (\<forall>p \<in> set (saved qs). \<exists>e. ps_employee p = Some e \<and> in_force L ps e (ps_dto p) s')
    \<and> (\<forall>i. Some i \<notin> ps_employee ` set (saved qs) \<longrightarrow> of_employee i s' = of_employee i s)"
  using assms
proof (induction pls arbitrary: s qs s')
  case Nil
  then show ?case by (simp add: saved_def)
next
  case (Cons p pls)
  show ?case
  proof (cases "ps_errors p = []")
    case False
    then obtain rs where r: "save_salaries L up ids user pls s = (rs, s')" "qs = p # rs"
      using Cons.prems(1) by (auto split: prod.splits)
    from Cons.IH [OF r(1) Cons.prems(2,3)] Cons.prems(4) False r(2) show ?thesis by (simp add: saved_def)
  next
    case ok: True
    then have d: "distinct (map ps_employee (saved pls))" and new: "ps_employee p \<notin> ps_employee ` set (saved pls)"
      using Cons.prems(4) by (auto simp: saved_def)
    show ?thesis
    proof (cases "save_salary L up ids user p s")
      case (Inl x)
      then obtain rs where r: "save_salaries L up ids user pls s = (rs, s')" "qs = p\<lparr>ps_errors := [SaveFailed x]\<rparr> # rs"
        using Cons.prems(1) ok by (auto split: prod.splits)
      from Cons.IH [OF r(1) Cons.prems(2,3) d] ok r(2) show ?thesis by (auto simp: saved_def)
    next
      case (Inr s1)
      then obtain rs where r: "save_salaries L up ids user pls s1 = (rs, s')" "qs = p # rs"
        using Cons.prems(1) ok by (auto split: prod.splits)
      from Inr Cons.prems(2,3) obtain e where e: "ps_employee p = Some e" "structures_ok (structures s1)" "settings s1 = Some ps"
        "line_items s1 = line_items s" "in_force L ps e (ps_dto p) s1" "\<And>i. i \<noteq> e \<Longrightarrow> of_employee i s1 = of_employee i s"
        by (rule save_salary_effect) blast
      note IH = Cons.IH [OF r(1) e(3,2) d]
      have sub: "set (saved rs) \<subseteq> set (saved pls)" using IH by blast
      then have "Some e \<notin> ps_employee ` set (saved rs)" using new e(1) by auto
      with IH have "of_employee e s' = of_employee e s1" by blast
      then have "in_force L ps e (ps_dto p) s'" using e(5) in_force_cong by blast
      moreover have "saved qs = p # saved rs" "saved (p # pls) = p # saved pls" using ok r(2) by (simp_all add: saved_def)
      ultimately show ?thesis using IH e(1,4,6) sub by auto
    qed
  qed
qed

text \<open>One code, one employee.\<close>

lemma planned_employees_distinct: "distinct (map ps_employee (saved (plan_salaries L code_of ps s rows)))"
proof -
  let ?ok = "saved (plan_salaries L code_of ps s rows)"
  have "map ps_code ?ok = map (map_option code_of) (map ps_employee ?ok)"
    using planned_rows_sound [of L code_of ps s rows] by (auto simp: list_all_iff row_ok_def saved_def)
  moreover have "distinct (map ps_code ?ok)" using planned_rows_sound by (simp add: saved_def)
  ultimately show ?thesis by (metis distinct_map)
qed

lemma row_ok_seeded: "row_ok L code_of ps (snd (get_settings s)) = row_ok L code_of ps s"
  by (simp add: fun_eq_iff row_ok_def find_active_def)

lemma seeded_settings: "settings (snd (get_settings s)) = Some (fst (get_settings s))"
  by (simp add: get_settings_def seed_payroll_defaults_def Let_def split: option.splits)

text \<open>
  C30. The salary import checks what the editor checks, and touches only what it reports. Every row that is
  reported without an error names, by code, an employee on file who is not separated; its CTC is above
  zero, its components are those \<open>normalizeAndValidateComponents\<close> accepts under the tenant's settings,
  and the special allowance is what the other components leave of the monthly CTC, and not negative;
  after the import, whichever rows before or after it failed, the employee's active structure is the
  validated one. No other employee's structures and no line item change, and everyone still has at
  most one active structure.
\<close>

theorem salary_import_effect:
  assumes "import_salaries L up ids code_of grid user False s = Inr (report, s')" and "structures_ok (structures s)"
  shows "structures_ok (structures s') \<and> line_items s' = line_items s
    \<and> list_all (\<lambda>p. row_ok L code_of (fst (get_settings s)) s p
        \<and> in_force L (fst (get_settings s)) (the (ps_employee p)) (ps_dto p) s') (saved (sp_rows report))
    \<and> (\<forall>i. Some i \<notin> ps_employee ` set (saved (sp_rows report)) \<longrightarrow> of_employee i s' = of_employee i s)"
proof -
  let ?ps = "fst (get_settings s)" and ?s1 = "snd (get_settings s)"
  obtain sh where ok: "sheet_of_grid grid = Inr sh" "missing_column sh = None"
    using assms(1) by (auto simp: import_salaries_def split: sum.splits exn.splits option.splits)
  have sh: "sp_rows report = fst (save_salaries L up ids user (plan_salaries L code_of ?ps ?s1 (sh_rows sh)) ?s1)"
      "s' = snd (save_salaries L up ids user (plan_salaries L code_of ?ps ?s1 (sh_rows sh)) ?s1)"
    using assms(1) by (auto simp: import_salaries_def ok salary_report_of_def Let_def split_def)
  let ?planned = "plan_salaries L code_of ?ps ?s1 (sh_rows sh)"
  have run: "save_salaries L up ids user ?planned ?s1 = (sp_rows report, s')" by (simp add: sh)
  have e: "structures_ok (structures s') \<and> line_items s' = line_items ?s1 \<and> set (saved (sp_rows report)) \<subseteq> set (saved ?planned)
    \<and> (\<forall>p \<in> set (saved (sp_rows report)). \<exists>e. ps_employee p = Some e \<and> in_force L ?ps e (ps_dto p) s')
    \<and> (\<forall>i. Some i \<notin> ps_employee ` set (saved (sp_rows report)) \<longrightarrow> of_employee i s' = of_employee i ?s1)"
    by (rule save_salaries_effect [OF run seeded_settings _ planned_employees_distinct]) (simp add: assms(2))
  have "of_employee i ?s1 = of_employee i s" for i by (simp add: of_employee_def)
  moreover have "row_ok L code_of ?ps s p" if "p \<in> set (saved ?planned)" for p
    using that planned_rows_sound [of L code_of ?ps ?s1 "sh_rows sh"]
    by (simp add: saved_def list_all_iff row_ok_seeded)
  ultimately show ?thesis using e by (fastforce simp: list_all_iff)
qed

section \<open>An import evaluated\<close>

text \<open>One row, an employee without a structure: CTC of twelve lakhs from May, on the default template.\<close>

definition salary_grid :: "string list list" where
  "salary_grid = [[''Employee Code'', ''CTC annual'', ''Effective from''], [''A1'', ''12,00,000'', ''2026-05-01'']]"

definition unpaid_tenant :: payroll_db where
  "unpaid_tenant = payslip_state\<lparr>structures := []\<rparr>"

definition sample_codes :: "id \<Rightarrow> string" where
  "sample_codes i = (if i = ''e1'' then ''A1'' else i)"

definition salary_row :: sheet_row where
  "salary_row = \<lparr>sr_row = 2, sr_values = row_values [''employeecode'', ''ctcannual'', ''effectivefrom''] [''A1'', ''12,00,000'', ''2026-05-01'']\<rparr>"

definition sample_ids :: new_ids where
  "sample_ids = \<lparr>ni_structure = (\<lambda>n. ''s9''), ni_revision = (\<lambda>n. ''v9''), ni_arrears = (\<lambda>n r. ''a9'')\<rparr>"

definition default_template :: "component_dto list" where
  "default_template = template 50 40 [(''DA'', ''Dearness Allowance'', 0), (''CONVEYANCE'', ''Conveyance'', 0), (''MEDICAL'', ''Medical'', 0), (''LTA'', ''LTA'', 0)]"

lemma salary_sheet:
  "sheet_of_grid salary_grid = Inr \<lparr>sh_headers = [''employeecode'', ''ctcannual'', ''effectivefrom''], sh_rows = [salary_row]\<rparr>"
proof -
  have "map normalize_header [''Employee Code'', ''CTC annual'', ''Effective from''] = [''employeecode'', ''ctcannual'', ''effectivefrom'']"
    "blank_line [''A1'', ''12,00,000'', ''2026-05-01''] = False" by code_simp+
  then show ?thesis by (simp add: sheet_of_grid_def Let_def salary_grid_def salary_row_def MAX_IMPORT_ROWS_def)
qed

lemma salary_cells:
  "column ''employeeCode'' salary_row = Some ''A1''" "column ''ctcAnnual'' salary_row = Some ''12,00,000''"
  "column ''effectiveFrom'' salary_row = Some ''2026-05-01''" "column ''basicPercentOfCtc'' salary_row = None"
  "column ''hraPercentOfBasic'' salary_row = None" "column ''reason'' salary_row = None"
  "list_all (\<lambda>(c, t, n). column c salary_row = None) FIXED_COLUMNS"
  by code_simp+

lemma ctc_cell: "number_cell ''ctcAnnual'' None None salary_row = (Some 1200000, [])"
proof -
  have "plain_number ''12,00,000'' = ''1200000''" "trim ''1200000'' = ''1200000''" "literal_value ''1200000'' = Some 1200000"
    "js_fl 1200000 = 1200000" "round2 1200000 = 1200000" by code_simp+
  moreover have "\<bar>1200000 :: rat\<bar> < 2 ^ 1024 - 2 ^ 970" by simp
  ultimately show ?thesis by (simp add: number_cell_def salary_cells js_number_def)
qed

definition default_normalized :: "normalized_component list" where
  "default_normalized =
     [\<lparr>ci_code = ''BASIC'', ci_mode = PERCENT_OF_CTC, ci_value = Some 50, ci_formula = None, cc_type = ''BASIC'', nc_name = ''Basic'', nc_sort = 0\<rparr>,
      \<lparr>ci_code = ''HRA'', ci_mode = PERCENT_OF_BASIC, ci_value = Some 40, ci_formula = None, cc_type = ''HRA'', nc_name = ''HRA'', nc_sort = 1\<rparr>,
      \<lparr>ci_code = ''SPECIAL_ALLOWANCE'', ci_mode = FORMULA, ci_value = None, ci_formula = Some ''CTC - BASIC - HRA'',
        cc_type = ''SPECIAL_ALLOWANCE'', nc_name = ''Special Allowance'', nc_sort = 2\<rparr>]"

lemma default_formula:
  "parse_formula decimal_js ''CTC - BASIC - HRA'' = Inr (Bin Sub (Bin Sub (Ref ''CTC'') (Ref ''BASIC'')) (Ref ''HRA''))"
  by code_simp

lemma default_monthly:
  "resolve_monthly_amounts decimal_js (map component_input.truncate default_normalized) 1200000
     = Inr [''BASIC'' \<mapsto> 50000, ''HRA'' \<mapsto> 20000, ''SPECIAL_ALLOWANCE'' \<mapsto> 30000]"
proof -
  have "ddiv decimal_js 1200000 12 = 100000" "dtimes decimal_js 100000 50 = 5000000" "ddiv decimal_js 5000000 100 = 50000"
    "dtimes decimal_js 50000 40 = 2000000" "ddiv decimal_js 2000000 100 = 20000" "dminus decimal_js 100000 50000 = 50000"
    "dminus decimal_js 50000 20000 = 30000" by code_simp+
  then show ?thesis
    by (simp add: default_normalized_def component_input.truncate_def resolve_monthly_amounts_def resolve_all_def by_code_def
      BASIC_CODE_def CTC_VARIABLE_def formula_references_def evaluate_formula_def default_formula add_name_def lift_formula_def)
qed

lemma default_accepted:
  "normalize_and_validate_components decimal_js default_template 1200000 50 = Inr default_normalized"
proof -
  have numbers: "of_number 50 = 50" "of_number 40 = 40" by code_simp+
  have codes: "component_code ''BASIC''" "component_code ''HRA''" "component_code ''SPECIAL_ALLOWANCE''" by code_simp+
  have "normalize_all decimal_js [] 0 default_template = Inr default_normalized"
    by (simp add: default_template_def template_def template_parts_def template_component_def Let_def default_normalized_def normalize_one_def
        normalize_code_def truthy_def check_mode_def default_formula codes numbers)
  moreover have "ddiv decimal_js 1200000 12 = 100000" "ddiv decimal_js 5000000 100 = 50000"
    "dtimes decimal_js 100000 50 = 5000000" by code_simp+
  moreover have "basics default_normalized = [hd default_normalized]" "ci_mode (hd default_normalized) = PERCENT_OF_CTC"
    by (simp_all add: basics_def default_normalized_def BASIC_CODE_def)
  ultimately show ?thesis
    using default_monthly by (simp add: normalize_and_validate_components_def Let_def BASIC_CODE_def)
qed

lemma default_checked: "check_template decimal_js april_settings default_template 1200000 = []"
proof -
  have "ps_min_basic_percent april_settings = 50" by (simp add: april_settings_def default_settings_def)
  then show ?thesis by (simp add: check_template_def default_accepted default_monthly SPECIAL_def)
qed

definition salary_dto :: structure_dto where
  "salary_dto = \<lparr>sd_ctc_annual = 1200000, sd_effective_from = ''2026-05-01'', sd_components = default_template, sd_reason = None\<rparr>"

lemma parsed_cells: "parse_cells decimal_js april_settings salary_row e = (salary_dto, [])"
proof -
  have "map_option iso_text (parse_import_date ''2026-05-01'') = Some ''2026-05-01''" by code_simp
  then have eff: "effective_cell salary_row e = (''2026-05-01'', [])"
    by (auto simp: effective_cell_def salary_cells split: option.splits)
  have none: "number_cell c lo hi salary_row = (None, [])" if "column c salary_row = None" for c lo hi
    using that by (simp add: number_cell_def)
  have "of_number 1200000 = 1200000" by code_simp
  with salary_cells(7) show ?thesis
    by (simp add: parse_cells_def ctc_cell eff none salary_cells Let_def FIXED_COLUMNS_def DEFAULT_BASIC_PERCENT_def DEFAULT_HRA_PERCENT_def
        default_checked [unfolded default_template_def] salary_dto_def default_template_def)
qed

lemma unpaid_tables:
  "get_settings unpaid_tenant = (april_settings, unpaid_tenant)" "structures unpaid_tenant = []"
  "find_active unpaid_tenant e = None"
  "find_row (\<lambda>r. emp_id r = ''e1'') (employees unpaid_tenant) = Some sample_employee"
  using payslip_tables(1,2)
  by (simp_all add: unpaid_tenant_def get_settings_def find_active_def payslip_state_def april_run_state_def paid_tenant_def split: option.splits)

lemma unpaid_by_code: "find_by_code sample_codes ''A1'' unpaid_tenant = Some sample_employee"
  by (simp add: find_by_code_def unpaid_tenant_def payslip_state_def april_run_state_def paid_tenant_def sample_tenant_def sample_employee_def
      sample_codes_def payable_employee_def)

definition planned_row :: planned_salary where
  "planned_row = \<lparr>ps_row = 2, ps_code = Some ''A1'', ps_employee = Some ''e1'', ps_action = Some CreateStructure, ps_dto = salary_dto, ps_errors = []\<rparr>"

lemma salary_planned: "plan_salaries decimal_js sample_codes april_settings unpaid_tenant [salary_row] = [planned_row]"
proof -
  have "emp_id sample_employee = ''e1''" "lifecycle sample_employee \<noteq> SEPARATED" by (simp_all add: sample_employee_def)
  then have "parse_salary_row decimal_js sample_codes april_settings unpaid_tenant salary_row = planned_row"
    by (simp add: parse_salary_row_def salary_cells unpaid_by_code parsed_cells unpaid_tables planned_row_def Let_def)
      (simp add: salary_row_def)
  moreover have "named_code planned_row = Some ''A1''" by (simp add: named_code_def planned_row_def)
  ultimately show ?thesis by (simp add: plan_salaries_def)
qed

lemma salary_saved:
  "\<exists>s'. save_salaries decimal_js False sample_ids sample_admin [planned_row] unpaid_tenant = ([planned_row], s')"
proof -
  have v: "validated decimal_js salary_dto april_settings = Inr default_normalized"
    by (simp add: validated_Inr_iff salary_dto_def default_accepted april_settings_def default_settings_def)
  have "\<exists>s'. save_salary decimal_js False sample_ids sample_admin planned_row unpaid_tenant = Inr s'"
    by (simp add: save_salary_def planned_row_def create_structure_def create_structure_begin_def create_structure_commit_def
        assert_employee_exists_def unpaid_tables v del: find_row_None)
  then show ?thesis by (auto simp: planned_row_def)
qed

theorem salary_import_effect_witness:
  "\<exists>report s'. import_salaries decimal_js False sample_ids sample_codes salary_grid sample_admin False unpaid_tenant = Inr (report, s')
    \<and> map ps_employee (saved (sp_rows report)) = [Some ''e1''] \<and> map_option st_ctc_annual (find_active s' ''e1'') = Some 1200000
    \<and> of_employee ''e2'' s' = []"
proof -
  obtain s' where s': "save_salaries decimal_js False sample_ids sample_admin [planned_row] unpaid_tenant = ([planned_row], s')"
    using salary_saved by blast
  have "missing_column \<lparr>sh_headers = [''employeecode'', ''ctcannual'', ''effectivefrom''], sh_rows = [salary_row]\<rparr> = None"
  proof -
    have "normalize_header ''employeeCode'' = ''employeecode''" "normalize_header ''ctcAnnual'' = ''ctcannual''" by code_simp+
    then show ?thesis by (simp add: missing_column_def)
  qed
  then obtain report where r: "import_salaries decimal_js False sample_ids sample_codes salary_grid sample_admin False unpaid_tenant = Inr (report, s')"
      "sp_rows report = [planned_row]"
    by (simp add: import_salaries_def salary_sheet unpaid_tables salary_planned s' Let_def salary_report_of_def del: save_salaries.simps filter.simps)
  have rows: "saved (sp_rows report) = [planned_row]" by (simp add: r(2) saved_def planned_row_def)
  have "structures_ok (structures unpaid_tenant)" by (simp add: structures_ok_def unpaid_tables unique_key_def actives_def)
  note eff = salary_import_effect [OF r(1) this]
  have "money_col 1200000 = 1200000" by code_simp
  with eff have "map_option st_ctc_annual (find_active s' ''e1'') = Some 1200000"
    by (auto simp: rows planned_row_def in_force_def salary_dto_def)
  moreover from eff have "of_employee ''e2'' s' = of_employee ''e2'' unpaid_tenant" by (simp add: rows planned_row_def)
  then have "of_employee ''e2'' s' = []" by (simp add: of_employee_def unpaid_tables)
  ultimately show ?thesis using r(1) rows by (auto simp: planned_row_def)
qed

end
