(* ===== verification/OpeningBalances.thy ===== *)
theory OpeningBalances
  imports NumberText
begin

text \<open>
  The opening leave balances of a new tenant (\<open>setup/opening-balances.ts\<close>): which rows of the file are
  taken, and why the others are not.
\<close>

section \<open>Rows and context\<close>

record opening_type =
  ot_name :: string
  ot_gender :: string
  ot_quota :: number
  ot_cap :: number
  ot_comp_off :: bool
  ot_on_event :: bool

record opening_context =
  oc_employees :: "string \<rightharpoonup> string option"
  oc_types :: "string \<rightharpoonup> opening_type"
  oc_existing :: "string set"

record opening_row =
  ob_row :: nat
  ob_employee :: string
  ob_type :: string
  ob_amount :: number

datatype opening_error =
    CodeRequired
  | TypeRequired
  | BalanceRequired
  | BalanceNotNumber string
  | BalanceNegative
  | BalanceDecimals
  | BalanceTooBig
  | EmployeeUnknown string
  | TypeUnknown string
  | TypeOnEvent string
  | RepeatsRow nat
  | HasBalance

datatype opening_warning = GenderMismatch string | AboveQuota number

record opening_result =
  or_row :: nat
  or_code :: "string option"
  or_success :: bool
  or_errors :: "opening_error list"
  or_warnings :: "opening_warning list"

section \<open>One row\<close>

definition opening_field :: "string \<Rightarrow> sheet_row \<Rightarrow> string" where
  "opening_field h r = (case sr_values r h of None \<Rightarrow> [] | Some v \<Rightarrow> trim v)"

definition whole_hundredths :: "number \<Rightarrow> bool" where
  "whole_hundredths x \<longleftrightarrow> of_int (half_up_int (js_fl (x * 100))) = js_fl (x * 100)"

definition amount_errors :: "string \<Rightarrow> opening_error list" where
  "amount_errors raw =
     (if raw = [] then [BalanceRequired]
      else (case js_number raw of
         None \<Rightarrow> [BalanceNotNumber raw]
       | Some x \<Rightarrow>
           if x < 0 then [BalanceNegative]
           else if \<not> whole_hundredths x then [BalanceDecimals]
           else if x > 365 then [BalanceTooBig] else []))"

definition opening_key :: "string \<Rightarrow> string \<Rightarrow> string" where
  "opening_key code type_code = code @ ''|'' @ type_code"

definition opening_errors :: "opening_context \<Rightarrow> (string \<rightharpoonup> nat) \<Rightarrow> string \<Rightarrow> string \<Rightarrow> string \<Rightarrow> opening_error list" where
  "opening_errors ctx seen code type_code raw =
     (if code = [] then [CodeRequired] else [])
     @ (if type_code = [] then [TypeRequired] else [])
     @ amount_errors raw
     @ (if code \<noteq> [] \<and> oc_employees ctx code = None then [EmployeeUnknown code] else [])
     @ (if type_code = [] then []
        else (case oc_types ctx type_code of None \<Rightarrow> [TypeUnknown type_code] | Some t \<Rightarrow> if ot_on_event t then [TypeOnEvent (ot_name t)] else []))
     @ (if code \<noteq> [] \<and> type_code \<noteq> []
        then (case seen (opening_key code type_code) of None \<Rightarrow> [] | Some n \<Rightarrow> [RepeatsRow n])
          @ (if opening_key code type_code \<in> oc_existing ctx then [HasBalance] else [])
        else [])"

definition opening_warnings :: "opening_context \<Rightarrow> string \<Rightarrow> string \<Rightarrow> number \<Rightarrow> opening_warning list" where
  "opening_warnings ctx code type_code amount =
     (case (oc_types ctx type_code, oc_employees ctx code) of
        (Some t, Some gender) \<Rightarrow>
          (let g = (case gender of None \<Rightarrow> [] | Some x \<Rightarrow> to_upper (trim x));
               most = js_fl (ot_quota t + ot_cap t)
           in (if ot_gender t \<noteq> ''ANY'' \<and> (g = ''MALE'' \<or> g = ''FEMALE'') \<and> g \<noteq> ot_gender t then [GenderMismatch (ot_gender t)] else [])
              @ (if \<not> ot_comp_off t \<and> amount > most then [AboveQuota most] else []))
      | _ \<Rightarrow> [])"

section \<open>The file\<close>

text \<open>The first row of a pair is remembered.\<close>

definition mark_seen :: "nat \<Rightarrow> string \<Rightarrow> string \<Rightarrow> (string \<rightharpoonup> nat) \<Rightarrow> (string \<rightharpoonup> nat)" where
  "mark_seen n code type_code seen =
     (if code \<noteq> [] \<and> type_code \<noteq> [] \<and> seen (opening_key code type_code) = None then seen(opening_key code type_code \<mapsto> n) else seen)"

fun check_openings :: "opening_context \<Rightarrow> (string \<rightharpoonup> nat) \<Rightarrow> sheet_row list \<Rightarrow> opening_row list \<times> opening_result list" where
  "check_openings ctx seen [] = ([], [])"
| "check_openings ctx seen (r # rs) =
     (let code = opening_field ''employeecode'' r;
          type_code = to_upper (opening_field ''leavetypecode'' r);
          raw = opening_field ''openingbalance'' r;
          amount = (case js_number raw of None \<Rightarrow> 0 | Some x \<Rightarrow> x);
          errors = opening_errors ctx seen code type_code raw;
          (valid, results) = check_openings ctx (mark_seen (sr_row r) code type_code seen) rs
      in (if errors = [] then \<lparr>ob_row = sr_row r, ob_employee = code, ob_type = type_code, ob_amount = amount\<rparr> # valid else valid,
          \<lparr>or_row = sr_row r, or_code = map_option trim (sr_values r ''employeecode''), or_success = (errors = []),
           or_errors = errors, or_warnings = (if errors = [] then opening_warnings ctx code type_code amount else [])\<rparr> # results))"

definition validate_opening_balances :: "sheet_row list \<Rightarrow> opening_context \<Rightarrow> opening_row list \<times> opening_result list" where
  "validate_opening_balances rows ctx = check_openings ctx Map.empty rows"

section \<open>What is taken\<close>

definition opening_ok :: "opening_context \<Rightarrow> opening_row \<Rightarrow> bool" where
  "opening_ok ctx ob \<longleftrightarrow>
     (\<exists>g t. oc_employees ctx (ob_employee ob) = Some g \<and> oc_types ctx (ob_type ob) = Some t \<and> \<not> ot_on_event t)
     \<and> opening_key (ob_employee ob) (ob_type ob) \<notin> oc_existing ctx
     \<and> 0 \<le> ob_amount ob \<and> ob_amount ob \<le> 365 \<and> whole_hundredths (ob_amount ob)"

lemma no_amount_errors:
  assumes "amount_errors raw = []"
  shows "\<exists>x. js_number raw = Some x \<and> 0 \<le> x \<and> x \<le> 365 \<and> whole_hundredths x"
  using assms by (auto simp: amount_errors_def split: if_split_asm option.splits)

lemma no_opening_errors:
  assumes "opening_errors ctx seen code type_code raw = []"
  shows "\<exists>g t. oc_employees ctx code = Some g \<and> oc_types ctx type_code = Some t \<and> \<not> ot_on_event t"
    "opening_key code type_code \<notin> oc_existing ctx" "seen (opening_key code type_code) = None" "amount_errors raw = []"
    "code \<noteq> []" "type_code \<noteq> []"
  using assms by (auto simp: opening_errors_def split: if_split_asm option.splits)

lemma fresh_keys_step:
  assumes "set vs \<subseteq> {x. P x \<and> (seen(k \<mapsto> n)) (key x) = None} \<and> distinct (map key vs)" and "P y" "key y = k" "seen k = None"
  shows "set (y # vs) \<subseteq> {x. P x \<and> seen (key x) = None} \<and> distinct (map key (y # vs))"
proof -
  from assms(1) have "\<forall>x \<in> set vs. P x \<and> key x \<noteq> k \<and> seen (key x) = None" by (auto split: if_split_asm)
  with assms show ?thesis by auto
qed

lemma check_openings_valid:
  "set (fst (check_openings ctx seen rows)) \<subseteq> {ob. opening_ok ctx ob \<and> seen (opening_key (ob_employee ob) (ob_type ob)) = None}
   \<and> distinct (map (\<lambda>ob. opening_key (ob_employee ob) (ob_type ob)) (fst (check_openings ctx seen rows)))"
proof (induction rows arbitrary: seen)
  case (Cons r rs)
  let ?code = "opening_field ''employeecode'' r" and ?type = "to_upper (opening_field ''leavetypecode'' r)"
  let ?raw = "opening_field ''openingbalance'' r" and ?k = "opening_key (opening_field ''employeecode'' r) (to_upper (opening_field ''leavetypecode'' r))"
  let ?seen = "mark_seen (sr_row r) ?code ?type seen"
  have less: "seen k = None" if "?seen k = None" for k using that by (auto simp: mark_seen_def split: if_split_asm)
  show ?case
  proof (cases "opening_errors ctx seen ?code ?type ?raw = []")
    case True
    note ok = no_opening_errors [OF True]
    obtain x where x: "js_number ?raw = Some x" "0 \<le> x" "x \<le> 365" "whole_hundredths x" using no_amount_errors [OF ok(4)] by blast
    have seen: "?seen = seen(?k \<mapsto> sr_row r)" using ok(3,5,6) by (simp add: mark_seen_def)
    let ?o = "\<lparr>ob_row = sr_row r, ob_employee = ?code, ob_type = ?type, ob_amount = x\<rparr>"
    have fst: "fst (check_openings ctx seen (r # rs)) = ?o # fst (check_openings ctx (seen(?k \<mapsto> sr_row r)) rs)"
      using True x(1) seen by (simp add: Let_def split: prod.split)
    have "opening_ok ctx ?o" using ok(1,2) x by (simp add: opening_ok_def)
    from fresh_keys_step [where P = "opening_ok ctx" and key = "\<lambda>ob. opening_key (ob_employee ob) (ob_type ob)",
        OF Cons.IH [of "seen(?k \<mapsto> sr_row r)"] this _ ok(3)]
    show ?thesis unfolding fst by (elim meta_mp) simp
  next
    case False
    then have fst: "fst (check_openings ctx seen (r # rs)) = fst (check_openings ctx ?seen rs)"
      by (simp add: Let_def split: prod.split)
    from Cons.IH [of ?seen] less show ?thesis unfolding fst by blast
  qed
qed simp

lemma check_openings_results:
  "map or_row (snd (check_openings ctx seen rows)) = map sr_row rows
   \<and> map ob_row (fst (check_openings ctx seen rows)) = map or_row (filter or_success (snd (check_openings ctx seen rows)))
   \<and> (\<forall>x \<in> set (snd (check_openings ctx seen rows)). or_success x \<longleftrightarrow> or_errors x = [])"
proof (induction rows arbitrary: seen)
  case (Cons r rs)
  let ?seen = "mark_seen (sr_row r) (opening_field ''employeecode'' r) (to_upper (opening_field ''leavetypecode'' r)) seen"
  obtain vs xs where "check_openings ctx ?seen rs = (vs, xs)" by (cases "check_openings ctx ?seen rs")
  with Cons.IH [of ?seen] show ?case by (simp add: Let_def)
qed simp

text \<open>
  C27. Opening balances are taken once and only where they belong: every row of the file gets one
  answer, in order; the rows taken are exactly those answered with success, each for a known employee
  and a known type that keeps a balance, with an amount between 0 and 365 days, never for a pair that
  holds a balance already and never twice for one pair.
\<close>

theorem opening_rows_valid:
  "map or_row (snd (validate_opening_balances rows ctx)) = map sr_row rows
   \<and> map ob_row (fst (validate_opening_balances rows ctx)) = map or_row (filter or_success (snd (validate_opening_balances rows ctx)))
   \<and> (set (fst (validate_opening_balances rows ctx)) \<subseteq> Collect (opening_ok ctx))
   \<and> distinct (map (\<lambda>ob. (ob_employee ob, ob_type ob)) (fst (validate_opening_balances rows ctx)))"
proof -
  have "distinct (map (\<lambda>ob. (ob_employee ob, ob_type ob)) os)"
    if "distinct (map (\<lambda>ob. opening_key (ob_employee ob) (ob_type ob)) os)" for os
    using that by (induction os) auto
  with check_openings_valid [of ctx Map.empty rows] check_openings_results [of ctx Map.empty rows] show ?thesis
    by (auto simp: validate_opening_balances_def)
qed

section \<open>Decimals that are refused\<close>

text \<open>
  The check of two decimals compares doubles: a balance of 8.2 or 2.3 days times 100 is not a whole
  number there, and the row is refused for more than two decimals.
\<close>

lemma one_decimal_refused:
  "amount_errors ''8.2'' = [BalanceDecimals]" "amount_errors ''2.3'' = [BalanceDecimals]" "amount_errors ''7.5'' = []"
proof -
  have texts: "trim ''8.2'' = ''8.2''" "trim ''2.3'' = ''2.3''" "trim ''7.5'' = ''7.5''" by code_simp+
  have literals: "literal_value ''8.2'' = Some (82 / 10)" "literal_value ''2.3'' = Some (23 / 10)" "literal_value ''7.5'' = Some (75 / 10)"
    by code_simp+
  have number: "js_number ''8.2'' = Some (js_fl (82 / 10))" "js_number ''2.3'' = Some (js_fl (23 / 10))" "js_number ''7.5'' = Some (js_fl (75 / 10))"
    by (simp_all add: js_number_def texts literals)
  have hundredths: "\<not> whole_hundredths (js_fl (82 / 10))" "\<not> whole_hundredths (js_fl (23 / 10))" "whole_hundredths (js_fl (75 / 10))"
    "0 \<le> js_fl (82 / 10)" "0 \<le> js_fl (23 / 10)" "0 \<le> js_fl (75 / 10)" "js_fl (75 / 10) \<le> 365"
    by code_simp+
  then show "amount_errors ''8.2'' = [BalanceDecimals]" "amount_errors ''2.3'' = [BalanceDecimals]" "amount_errors ''7.5'' = []"
    by (simp_all add: amount_errors_def number not_less not_le)
qed

end
