(* ===== verification/Team.thy ===== *)
theory Team
  imports Hierarchy
begin

text \<open>
  \<open>employees/team.ts\<close>: how everyone else relates to one employee, for the directory and the
  dashboard. The walk downwards is the search of \<open>Hierarchy\<close>, started from those already placed.
\<close>

datatype team_relation = SELF | BOSS | TEAMMATE | REPORT

definition boss_of :: "report_edge list \<Rightarrow> id \<Rightarrow> report_edge \<Rightarrow> id option" where
  "boss_of es self e =
     (case re_manager e of
        None \<Rightarrow> None
      | Some b \<Rightarrow> if b \<noteq> [] \<and> b \<noteq> self \<and> (\<exists>p \<in> set es. re_id p = b) then Some b else None)"

definition placed_first :: "id \<Rightarrow> id option \<Rightarrow> id set" where
  "placed_first self boss = (case boss of None \<Rightarrow> {self} | Some b \<Rightarrow> {self, b})"

definition team_relations :: "report_edge list \<Rightarrow> id \<Rightarrow> (id \<rightharpoonup> team_relation)" where
  "team_relations es self =
     (case find_row (\<lambda>p. re_id p = self) es of
        None \<Rightarrow> [self \<mapsto> SELF]
      | Some e \<Rightarrow>
          (let boss = boss_of es self e;
               first = placed_first self boss;
               reached = walk_reports es (reports_or_none es self) first;
               mates = (case boss of None \<Rightarrow> [] | Some b \<Rightarrow> reports_or_none es b)
           in (\<lambda>i. if i = self then Some SELF
                else if boss = Some i then Some BOSS
                else if i \<in> reached then Some REPORT
                else if i \<in> set mates then Some TEAMMATE else None)))"

section \<open>Everyone below\<close>

lemma no_loop: "acyclicP (reports_to es) \<Longrightarrow> \<not> (reports_to es)\<^sup>+\<^sup>+ x x"
  by (simp add: acyclic_def tranclp_unfold)

text \<open>In a hierarchy nobody is above himself: the people first placed do not hide anyone below.\<close>

lemma below_reached:
  assumes "acyclicP (reports_to es)" and boss: "\<And>b. boss = Some b \<Longrightarrow> reports_to es b self"
    and "(reports_to es)\<^sup>+\<^sup>+ self i"
  shows "i \<in> walk_reports es (reports_or_none es self) (placed_first self boss) \<and> i \<notin> placed_first self boss"
proof -
  have loop: "\<not> (reports_to es)\<^sup>+\<^sup>+ x x" for x
    by (rule no_loop [OF assms(1)])
  have first: "j \<notin> placed_first self boss" if below: "(reports_to es)\<^sup>+\<^sup>+ self j" for j
  proof
    assume "j \<in> placed_first self boss"
    then consider "j = self" | "boss = Some j" by (auto simp: placed_first_def split: option.splits)
    then show False
    proof cases
      case 2
      from tranclp.trancl_into_trancl [OF below boss [OF 2]] loop show False by blast
    qed (use below loop in blast)
  qed
  have closed: "set (reports_or_none es self) \<subseteq> walk_reports es (reports_or_none es self) (placed_first self boss)"
    "\<And>k j. k \<in> walk_reports es (reports_or_none es self) (placed_first self boss) \<Longrightarrow> k \<notin> placed_first self boss \<Longrightarrow>
       reports_to es k j \<Longrightarrow> j \<in> walk_reports es (reports_or_none es self) (placed_first self boss)"
    using walk_from_closed [of "placed_first self boss" "placed_first self boss" es "reports_or_none es self"] by auto
  from assms(3) have "i \<in> walk_reports es (reports_or_none es self) (placed_first self boss)"
  proof (induction rule: tranclp_induct)
    case (base y)
    then show ?case using closed(1) by (auto simp: reports_to_def)
  next
    case (step y z)
    from closed(2) [OF step.IH first [OF step.hyps(1)] step.hyps(2)] show ?case .
  qed
  with first [OF assms(3)] show ?thesis by simp
qed


definition sample_team :: "report_edge list" where
  "sample_team = [\<lparr>re_id = ''ceo'', re_manager = None\<rparr>, \<lparr>re_id = ''lead'', re_manager = Some ''ceo''\<rparr>,
     \<lparr>re_id = ''other'', re_manager = Some ''ceo''\<rparr>, \<lparr>re_id = ''dev'', re_manager = Some ''lead''\<rparr>]"

lemma sample_edges:
  "reports_to sample_team x y \<longleftrightarrow> (x = ''ceo'' \<and> (y = ''lead'' \<or> y = ''other'')) \<or> (x = ''lead'' \<and> y = ''dev'')"
proof (cases "x = []")
  case True
  then show ?thesis by (simp add: reports_to_def direct_reports_empty)
next
  case False
  then show ?thesis by (auto simp: reports_to_iff sample_team_def)
qed

lemma sample_acyclic: "acyclicP (reports_to sample_team)"
proof (rule acyclicI_order [where f = "\<lambda>x. if x = ''ceo'' then 2 else if x = ''lead'' then 1 else (0 :: nat)"])
  fix a b assume "(a, b) \<in> {(x, y). reports_to sample_team x y}"
  then show "(if b = ''ceo'' then 2 else if b = ''lead'' then 1 else (0 :: nat)) < (if a = ''ceo'' then 2 else if a = ''lead'' then 1 else 0)"
    by (auto simp: sample_edges)
qed


end
