(* ===== verification/Phone.thy ===== *)
theory Phone
  imports Imports
begin

text \<open>
  Phone numbers (\<open>common/phone.ts\<close>): stored as a plus sign, a dial code and the national digits. A
  pattern is a list of alternatives, each a sequence of character classes with their least and greatest
  number of repetitions; an error is the name of the country whose rule failed.
\<close>

section \<open>Patterns\<close>

type_synonym phone_pattern = "(string \<times> nat \<times> nat) list list"

definition DIG :: string where "DIG = ''0123456789''"

fun matches_seq :: "(string \<times> nat \<times> nat) list \<Rightarrow> string \<Rightarrow> bool" where
  "matches_seq [] s \<longleftrightarrow> s = []"
| "matches_seq ((cls, lo, hi) # ps) s \<longleftrightarrow>
     list_ex (\<lambda>n. n \<le> length s \<and> list_all (\<lambda>c. c \<in> set cls) (take n s) \<and> matches_seq ps (drop n s)) [lo..<Suc hi]"

definition matches :: "phone_pattern \<Rightarrow> string \<Rightarrow> bool" where
  "matches p s \<longleftrightarrow> list_ex (\<lambda>ps. matches_seq ps s) p"

section \<open>Countries\<close>

record phone_country =
  pc_code :: string
  pc_name :: string
  pc_dial :: string
  pc_pattern :: phone_pattern

definition country :: "string \<Rightarrow> string \<Rightarrow> string \<Rightarrow> phone_pattern \<Rightarrow> phone_country" where
  "country c n d p = \<lparr>pc_code = c, pc_name = n, pc_dial = d, pc_pattern = p\<rparr>"

definition COUNTRIES :: "phone_country list" where
  "COUNTRIES =
     [country ''IN'' ''India'' ''91'' [[(''6789'', 1, 1), (DIG, 9, 9)]],
      country ''US'' ''United States / Canada'' ''1'' [[(''23456789'', 1, 1), (DIG, 2, 2), (''23456789'', 1, 1), (DIG, 6, 6)]],
      country ''GB'' ''United Kingdom'' ''44'' [[(''7'', 1, 1), (DIG, 9, 9)], [(''123'', 1, 1), (DIG, 8, 9)]],
      country ''AE'' ''United Arab Emirates'' ''971'' [[(''5'', 1, 1), (DIG, 8, 8)], [(''23467'', 1, 1), (DIG, 7, 7)]],
      country ''SA'' ''Saudi Arabia'' ''966'' [[(''5'', 1, 1), (DIG, 8, 8)], [(''1'', 1, 1), (''123467'', 1, 1), (DIG, 7, 7)]],
      country ''QA'' ''Qatar'' ''974'' [[(''34567'', 1, 1), (DIG, 7, 7)]],
      country ''KW'' ''Kuwait'' ''965'' [[(''569'', 1, 1), (DIG, 7, 7)]],
      country ''OM'' ''Oman'' ''968'' [[(''79'', 1, 1), (DIG, 7, 7)]],
      country ''BH'' ''Bahrain'' ''973'' [[(''36'', 1, 1), (DIG, 7, 7)]],
      country ''SG'' ''Singapore'' ''65'' [[(''3689'', 1, 1), (DIG, 7, 7)]],
      country ''MY'' ''Malaysia'' ''60'' [[(''123456789'', 1, 1), (DIG, 7, 9)]],
      country ''ID'' ''Indonesia'' ''62'' [[(''8'', 1, 1), (DIG, 8, 11)]],
      country ''PH'' ''Philippines'' ''63'' [[(''9'', 1, 1), (DIG, 9, 9)]],
      country ''AU'' ''Australia'' ''61'' [[(''23478'', 1, 1), (DIG, 8, 8)]],
      country ''NZ'' ''New Zealand'' ''64'' [[(''23456789'', 1, 1), (DIG, 7, 9)]],
      country ''DE'' ''Germany'' ''49'' [[(''1'', 1, 1), (''567'', 1, 1), (DIG, 8, 9)], [(''23456789'', 1, 1), (DIG, 6, 11)]],
      country ''FR'' ''France'' ''33'' [[(''123456789'', 1, 1), (DIG, 8, 8)]],
      country ''ES'' ''Spain'' ''34'' [[(''6789'', 1, 1), (DIG, 8, 8)]],
      country ''IT'' ''Italy'' ''39'' [[(''3'', 1, 1), (DIG, 8, 9)], [(''0'', 1, 1), (DIG, 5, 10)]],
      country ''BR'' ''Brazil'' ''55'' [[(''123456789'', 2, 2), (''9'', 0, 1), (DIG, 8, 8)]],
      country ''ZA'' ''South Africa'' ''27'' [[(''12345678'', 1, 1), (DIG, 8, 8)]],
      country ''NG'' ''Nigeria'' ''234'' [[(''789'', 1, 1), (DIG, 9, 9)]],
      country ''KE'' ''Kenya'' ''254'' [[(''17'', 1, 1), (DIG, 8, 8)]],
      country ''JP'' ''Japan'' ''81'' [[(''123456789'', 1, 1), (DIG, 8, 9)]],
      country ''CN'' ''China'' ''86'' [[(''1'', 1, 1), (''3456789'', 1, 1), (DIG, 9, 9)], [(''23456789'', 1, 1), (DIG, 8, 10)]],
      country ''BD'' ''Bangladesh'' ''880'' [[(''1'', 1, 1), (''3456789'', 1, 1), (DIG, 8, 8)]],
      country ''PK'' ''Pakistan'' ''92'' [[(''3'', 1, 1), (DIG, 9, 9)]],
      country ''LK'' ''Sri Lanka'' ''94'' [[(''123456789'', 1, 1), (DIG, 8, 8)]],
      country ''NP'' ''Nepal'' ''977'' [[(''9'', 1, 1), (''78'', 1, 1), (DIG, 8, 8)], [(''123456789'', 1, 1), (DIG, 7, 7)]]]"

definition DEFAULT_COUNTRY :: string where "DEFAULT_COUNTRY = ''IN''"

definition country_by_code :: "string \<Rightarrow> phone_country" where
  "country_by_code code =
     (case List.find (\<lambda>c. pc_code c = code) COUNTRIES of Some c \<Rightarrow> c | None \<Rightarrow> hd COUNTRIES)"

text \<open>Stable, the longest dial code first.\<close>

definition by_dial_longest_first :: "phone_country list" where
  "by_dial_longest_first = sort_key (\<lambda>c. - int (length (pc_dial c))) COUNTRIES"

section \<open>Splitting and joining\<close>

definition strip_phone :: "string \<Rightarrow> string" where
  "strip_phone v = filter (\<lambda>c. \<not> (is_space c \<or> c \<in> set ''-().'')) v"

definition has_prefix :: "string \<Rightarrow> string \<Rightarrow> bool" where
  "has_prefix p s \<longleftrightarrow> take (length p) s = p"

definition split_phone :: "string \<Rightarrow> string \<times> string" where
  "split_phone value =
     (case strip_phone value of
        [] \<Rightarrow> (DEFAULT_COUNTRY, [])
      | c # digits \<Rightarrow>
          if c = CHR ''+''
          then (case List.find (\<lambda>x. has_prefix (pc_dial x) digits) by_dial_longest_first of
             Some x \<Rightarrow> (pc_code x, drop (length (pc_dial x)) digits)
           | None \<Rightarrow> (DEFAULT_COUNTRY, digits))
          else (DEFAULT_COUNTRY, dropWhile (\<lambda>c. c = CHR ''0'') (c # digits)))"

definition join_phone :: "string \<Rightarrow> string \<Rightarrow> string" where
  "join_phone code national =
     (let digits = filter is_digit national
      in if digits = [] then [] else CHR ''+'' # pc_dial (country_by_code code) @ digits)"

definition phone_error :: "string \<Rightarrow> string option" where
  "phone_error value =
     (if trim value = [] then None
      else (case split_phone value of (code, national) \<Rightarrow>
        let c = country_by_code code
        in if matches (pc_pattern c) national then None else Some (pc_name c)))"

section \<open>The table\<close>

lemma dial_codes:
  "list_all (\<lambda>c. list_all is_digit (pc_dial c) \<and> pc_dial c \<noteq> []) COUNTRIES"
  "list_all (\<lambda>c. list_all (\<lambda>d. has_prefix (pc_dial c) (pc_dial d) \<longrightarrow> pc_code c = pc_code d) COUNTRIES) COUNTRIES"
  "distinct (map pc_code COUNTRIES)"
  by code_simp+

lemma find_code: "c \<in> set COUNTRIES \<Longrightarrow> country_by_code (pc_code c) = c"
proof -
  assume c: "c \<in> set COUNTRIES"
  then have "List.find (\<lambda>x. pc_code x = pc_code c) COUNTRIES \<noteq> None" by (auto simp: find_None_iff)
  then obtain d where d: "List.find (\<lambda>x. pc_code x = pc_code c) COUNTRIES = Some d" by blast
  then have "d \<in> set COUNTRIES" "pc_code d = pc_code c" by (auto simp: find_Some_iff)
  with c dial_codes(3) have "d = c" by (auto simp: distinct_map inj_on_def)
  with d show ?thesis by (simp add: country_by_code_def)
qed

lemma two_prefixes: "has_prefix p s \<Longrightarrow> has_prefix q s \<Longrightarrow> has_prefix p q \<or> has_prefix q p"
  unfolding has_prefix_def by (metis le_cases min.absorb1 min.absorb2 take_take)

lemma found_country:
  assumes "c \<in> set COUNTRIES" and "has_prefix (pc_dial c) digits"
  shows "List.find (\<lambda>x. has_prefix (pc_dial x) digits) by_dial_longest_first = Some c"
proof -
  have sets: "set by_dial_longest_first = set COUNTRIES" by (simp add: by_dial_longest_first_def)
  with assms have "List.find (\<lambda>x. has_prefix (pc_dial x) digits) by_dial_longest_first \<noteq> None" by (auto simp: find_None_iff)
  then obtain d where d: "List.find (\<lambda>x. has_prefix (pc_dial x) digits) by_dial_longest_first = Some d" by blast
  then have "d \<in> set by_dial_longest_first" "has_prefix (pc_dial d) digits" by (auto simp: find_Some_iff)
  with sets assms two_prefixes [of "pc_dial c" digits "pc_dial d"] dial_codes(2)
  have "pc_code c = pc_code d" "d \<in> set COUNTRIES" by (auto simp: list_all_iff)
  with assms(1) dial_codes(3) have "d = c" by (auto simp: distinct_map inj_on_def)
  with d show ?thesis by simp
qed

lemma strip_digits: "list_all is_digit s \<Longrightarrow> strip_phone (CHR ''+'' # s) = CHR ''+'' # s"
proof -
  have "strip_phone s = s" if "list_all is_digit s" for s
    using that unfolding strip_phone_def by (intro filter_True) (auto simp: list_all_iff is_digit_def is_space_def)
  moreover assume "list_all is_digit s"
  ultimately show ?thesis by (simp add: strip_phone_def is_space_def)
qed

text \<open>
  A phone number survives being stored: what is joined from a country and a national number splits
  into that country and the digits of the number, for every country of the table - no dial code is the
  beginning of another.
\<close>

theorem phone_round_trip:
  assumes "c \<in> set COUNTRIES" and "filter is_digit national \<noteq> []"
  shows "split_phone (join_phone (pc_code c) national) = (pc_code c, filter is_digit national)"
proof -
  let ?d = "filter is_digit national"
  have "list_all is_digit (pc_dial c @ ?d)" using assms(1) dial_codes(1) by (auto simp: list_all_iff)
  from strip_digits [OF this] have strip: "strip_phone (join_phone (pc_code c) national) = CHR ''+'' # pc_dial c @ ?d"
    using assms by (simp add: join_phone_def find_code)
  have "has_prefix (pc_dial c) (pc_dial c @ ?d)" by (simp add: has_prefix_def)
  from found_country [OF assms(1) this] strip show ?thesis by (simp add: split_phone_def)
qed

theorem phone_round_trip_witness: "split_phone (join_phone ''GB'' ''7911 123456'') = (''GB'', ''7911123456'')"
proof -
  have gb: "country ''GB'' ''United Kingdom'' ''44'' [[(''7'', 1, 1), (DIG, 9, 9)], [(''123'', 1, 1), (DIG, 8, 9)]] \<in> set COUNTRIES"
    by (simp add: COUNTRIES_def)
  have digits: "filter is_digit ''7911 123456'' = ''7911123456''" by code_simp
  from phone_round_trip [OF gb, of "''7911 123456''"] digits show ?thesis by (simp add: country_def)
qed

section \<open>What is accepted\<close>

fun seq_bounds :: "(string \<times> nat \<times> nat) list \<Rightarrow> nat \<times> nat" where
  "seq_bounds [] = (0, 0)"
| "seq_bounds ((cls, lo, hi) # ps) = (case seq_bounds ps of (a, b) \<Rightarrow> (lo + a, hi + b))"

lemma matches_seq_bounds:
  "matches_seq ps s \<Longrightarrow> fst (seq_bounds ps) \<le> length s \<and> length s \<le> snd (seq_bounds ps)"
proof (induction ps s rule: matches_seq.induct)
  case (2 cls lo hi ps s)
  then obtain n where n: "n \<in> set [lo..<Suc hi]" "n \<le> length s" "matches_seq ps (drop n s)" by (auto simp: list_ex_iff)
  obtain a b where ab: "seq_bounds ps = (a, b)" by (cases "seq_bounds ps")
  from "2.IH" [OF n(1,3)] ab have "a \<le> length s - n" "length s - n \<le> b" by simp_all
  with n(1,2) ab show ?case by auto
qed simp

lemma matches_seq_chars:
  "matches_seq ps s \<Longrightarrow> list_all (\<lambda>(cls, lo, hi). list_all is_digit cls) ps \<Longrightarrow> list_all is_digit s"
proof (induction ps s rule: matches_seq.induct)
  case (2 cls lo hi ps s)
  then obtain n where n: "n \<in> set [lo..<Suc hi]" "list_all (\<lambda>c. c \<in> set cls) (take n s)" "matches_seq ps (drop n s)"
    by (auto simp: list_ex_iff)
  with "2.IH" [OF n(1)] "2.prems"(2) have "list_all is_digit (take n s @ drop n s)"
    by (auto simp: list_all_iff simp del: append_take_drop_id)
  then show ?case by simp
qed simp

lemma table_bounds:
  "list_all (\<lambda>c. list_all (\<lambda>ps. length (pc_dial c) + snd (seq_bounds ps) \<le> 14 \<and> 7 \<le> length (pc_dial c) + fst (seq_bounds ps)
     \<and> 1 \<le> fst (seq_bounds ps) \<and> list_all (\<lambda>(cls, lo, hi). list_all is_digit cls) ps) (pc_pattern c)) COUNTRIES"
  by code_simp

text \<open>
  Accepted numbers are international numbers: a value with a dial code of the table that is accepted
  consists, once separators are taken out, of the plus sign and 7 to 14 digits - within the 15 that the
  numbering plan allows - and joining its two parts gives it back.
\<close>

theorem accepted_phone_canonical:
  assumes "phone_error v = None" and "strip_phone v = CHR ''+'' # digits" and "c \<in> set COUNTRIES" and "has_prefix (pc_dial c) digits"
  shows "list_all is_digit digits \<and> 7 \<le> length digits \<and> length digits \<le> 14
    \<and> join_phone (fst (split_phone v)) (snd (split_phone v)) = CHR ''+'' # digits"
proof -
  have split: "split_phone v = (pc_code c, drop (length (pc_dial c)) digits)"
    using found_country [OF assms(3,4)] assms(2) by (simp add: split_phone_def)
  have v: "trim v \<noteq> []"
  proof
    assume "trim v = []"
    then have "\<forall>x \<in> set (dropWhile is_space v). is_space x" by (simp add: trim_def dropWhile_eq_Nil_conv)
    then have "dropWhile is_space v = []" using hd_dropWhile [of is_space v] by (cases "dropWhile is_space v") auto
    then have "\<forall>x \<in> set v. is_space x" by (simp add: dropWhile_eq_Nil_conv)
    with assms(2) show False by (auto simp: strip_phone_def filter_eq_Cons_iff)
  qed
  with assms(1) split find_code [OF assms(3)] have "matches (pc_pattern c) (drop (length (pc_dial c)) digits)"
    by (simp add: phone_error_def Let_def split: if_split_asm)
  then obtain ps where ps: "ps \<in> set (pc_pattern c)" "matches_seq ps (drop (length (pc_dial c)) digits)"
    by (auto simp: matches_def list_ex_iff)
  from table_bounds assms(3) ps(1) have b: "length (pc_dial c) + snd (seq_bounds ps) \<le> 14" "7 \<le> length (pc_dial c) + fst (seq_bounds ps)"
    "list_all (\<lambda>(cls, lo, hi). list_all is_digit cls) ps" "1 \<le> fst (seq_bounds ps)" by (auto simp: list_all_iff)
  have eq: "digits = pc_dial c @ drop (length (pc_dial c)) digits"
    using assms(4) unfolding has_prefix_def by (metis append_take_drop_id)
  then have len: "length digits = length (pc_dial c) + length (drop (length (pc_dial c)) digits)" by (metis length_append)
  have nat: "list_all is_digit (drop (length (pc_dial c)) digits)" by (rule matches_seq_chars [OF ps(2) b(3)])
  have dig: "list_all is_digit digits"
    using eq nat dial_codes(1) assms(3) by (metis list_all_append list_all_iff)
  have some: "drop (length (pc_dial c)) digits \<noteq> []"
    using matches_seq_bounds [OF ps(2)] b(4) by auto
  have "filter is_digit (drop (length (pc_dial c)) digits) = drop (length (pc_dial c)) digits"
    using nat by (intro filter_True) (simp add: list_all_iff)
  then have "join_phone (fst (split_phone v)) (snd (split_phone v)) = CHR ''+'' # digits"
    using split eq some by (simp add: join_phone_def find_code [OF assms(3)])
  with dig len matches_seq_bounds [OF ps(2)] b show ?thesis by simp
qed

theorem accepted_phone_canonical_witness:
  "join_phone (fst (split_phone ''+91 98765-43210'')) (snd (split_phone ''+91 98765-43210'')) = ''+919876543210''"
proof -
  have india: "hd COUNTRIES \<in> set COUNTRIES" by (simp add: COUNTRIES_def)
  have "phone_error ''+91 98765-43210'' = None" "strip_phone ''+91 98765-43210'' = CHR ''+'' # ''919876543210''"
    "has_prefix (pc_dial (hd COUNTRIES)) ''919876543210''" by code_simp+
  from accepted_phone_canonical [OF this(1,2) india this(3)] show ?thesis by simp
qed

section \<open>A plus without a dial code\<close>

text \<open>
  A value with a plus whose digits begin with no dial code of the table is checked against the rule of
  India: ten digits that begin with 6 to 9 pass, though what is stored is a number of another country.
\<close>

lemma unknown_dial_code_accepted:
  "phone_error ''+9876543210'' = None" "split_phone ''+9876543210'' = (''IN'', ''9876543210'')"
  "join_phone ''IN'' ''9876543210'' = ''+919876543210''"
  by code_simp+

end
