(* ===== verification/Spec2Isabelle.thy ===== *)
theory Spec2Isabelle
  imports StructureProperties FullAndFinalProperties EventLimits PolicyProperties LeaveRecalc HolidayProperties LeaveTypes AttendanceGaps BillingProperties AccessProperties
    BankProperties SalaryImportProperties OpeningBalances Team Phone
begin

text \<open>
  A verification library for the HRMS API (\<open>apps/api/src\<close>, TypeScript on NestJS and Prisma): the
  modules that compute and move pay, leave and attendance. Each theory models the files named here; a function
  keeps its name in snake case, a table is a list of rows in insertion order, and a handler maps the
  tables, the user and the time to an error (\<open>Inl\<close>, the exception it throws) or a result with the
  new tables (\<open>Inr\<close>).

  \<^bold>\<open>Foundations.\<close> \<open>Prelude\<close>: results, tables (\<open>find_row\<close>, \<open>update_rows\<close>,
  \<open>upsert_row\<close>), text. \<open>Decimal\<close>: the decimal.js arithmetic of payroll, exact rationals rounded
  to 20 significant digits, and decimal columns. \<open>Numbers\<close>: JavaScript numbers as rationals rounded
  to the nearest double (53 bits; exponents are unbounded), with the error bounds that show cents
  survive. \<open>Calendar\<close>: UTC dates as milliseconds, \<open>Date.UTC\<close> with its carries. \<open>Lifecycle\<close>: a
  locale of tables whose rows move through states.

  \<^bold>\<open>Payroll\<close> (\<open>payroll/\<close>). \<open>Formula\<close>, \<open>SalaryComponents\<close>, \<open>SalaryValidation\<close>: the salary
  formulas, the resolution of a structure and what is accepted as one. \<open>FinancialYear\<close>,
  \<open>WorkingDays\<close>, \<open>Statutory\<close>, \<open>TdsCalculator\<close>, \<open>PayrollCalculator\<close>,
  \<open>FullFinalCalculator\<close>, \<open>BankFiles\<close>: the pure calculators. \<open>PayrollState\<close> holds the tables of
  a tenant; \<open>PayrollConfig\<close>, \<open>TdsService\<close>, \<open>PayrollRun\<close>, \<open>SalaryStructure\<close>,
  \<open>FullAndFinal\<close> are the services over them. \<open>RunLifecycle\<close>, \<open>RunInvariants\<close>,
  \<open>RunProperties\<close>, \<open>StructureProperties\<close> and \<open>FullAndFinalProperties\<close> prove what the services
  keep over any sequence of requests (two approvals by two people, frozen items, arrears paid once,
  one active structure, settlements that add up); \<open>RunExample\<close> is a small tenant on which the
  theorems are applied.

  \<^bold>\<open>Leave\<close> (\<open>leave/\<close>, \<open>common/reporting-hierarchy.ts\<close>). \<open>LeaveEntitlement\<close>: leave years,
  accrual periods, the credits due; \<open>EntitlementProperties\<close> shows that the double arithmetic credits
  exactly the whole cents a specification over integers gives, that a daily job and one late job
  credit the same, and the bounds. \<open>EventLeave\<close>, \<open>LeaveState\<close>, \<open>LeaveRequests\<close>: event-based
  leave, the tables, and every operation on a request; \<open>LeaveBooks\<close> proves that balances are the
  sums of the ledger and used days those of approved requests, \<open>LeaveProperties\<close> who may approve and
  that closed requests stay closed, \<open>EventLimits\<close> that event leave stays within its limits.
  \<open>LeavePolicy\<close> and \<open>LeaveRecalc\<close>: the nightly policy and carry-forward runs and the
  recalculation of a year; \<open>PolicyRuns\<close>, \<open>PolicyBooks\<close> (a locale of crediting runs, instantiated
  by both) and \<open>PolicyProperties\<close> prove that a run may be repeated and what carrying forward does.
  \<open>Hierarchy\<close>: the walk over reporting lines is the subtree.

  \<open>LeaveConfig\<close>, \<open>LeaveViews\<close>: settings, leave types, balances and the ledger as shown;
  \<open>LeaveTypes\<close> proves that types stay usable. \<open>Holidays\<close>: the holiday list and its import;
  \<open>HolidayProperties\<close> proves that an import keeps paid months, may be repeated and never guesses a date.

  \<^bold>\<open>Attendance\<close> (\<open>attendance/\<close>). \<open>Attendance\<close>: the tables (the leave tables inside), clocking,
  breaks, the month's figures and loss of pay; \<open>AttendanceRequests\<close>: overtime claims, regularizations,
  marking, shifts, settings; \<open>AttendanceJobs\<close>: the nightly job and the cut-off for one tenant.
  \<open>AttendanceDays\<close> proves what finalizing a day does and that payroll's batches are the single
  figures; \<open>AttendanceClaims\<close> and \<open>Regularizations\<close>, over all requests and jobs as one step relation,
  that decided claims and regularizations are final, who approves overtime, one claim a month and the
  monthly cap; \<open>AttendanceGaps\<close> where code and intent part.

  \<^bold>\<open>The platform\<close> (\<open>platform-admin/\<close>, \<open>billing/\<close>, \<open>common/tenancy/\<close>, \<open>common/guards/\<close>).
  \<open>Platform\<close>: plans, tenants, trials, subscriptions, support access and the provider's webhook, with
  the provider a record of functions. \<open>PlatformProperties\<close> and \<open>BillingProperties\<close> take every operation
  and job as one step function and prove what ends a trial, that only the operator suspends and
  resumes, that an event counts once and that support access is never open twice. \<open>Guards\<close>: the way of
  a request through the caches, the tenant and the guards; \<open>AccessProperties\<close> proves the caches bounded
  and without effect on a decision, and what an admitted request guarantees.

  \<^bold>\<open>Bank disbursement and imports.\<close> \<open>Imports\<close>: the CSV reader and sheet of the spreadsheet imports
  (\<open>common/bulk-import.ts\<close>); \<open>NumberText\<close>: the standard library's \<open>Number\<close> of a text.
  \<open>PayrollBank\<close> (\<open>payroll/payroll-bank.service.ts\<close>, the masks of \<open>crypto/\<close>): the company's bank,
  the rows of a finished run, preview and file, with the cipher a record of functions;
  \<open>BankProperties\<close> proves that every line item is paid or reported, that the totals are exact, which
  payment mode fits and that reading the file back gives the rows. \<open>SalaryImport\<close>
  (\<open>payroll/salary-import.service.ts\<close>): rows of a sheet become structures and are written through
  \<open>SalaryStructure\<close>; \<open>SalaryImportProperties\<close> proves that a saved row is in force, that the special
  allowance balances, and that no one else is touched. \<open>OpeningBalances\<close> (\<open>setup/opening-balances.ts\<close>): which opening balances are
  taken.

  \<^bold>\<open>People.\<close> \<open>Team\<close> (\<open>employees/team.ts\<close>): boss, team mates and reports are what the reporting lines
  say. \<open>Phone\<close> (\<open>common/phone.ts\<close>): phone numbers split and join back, and accepted ones are canonical.

  \<^bold>\<open>How to read the model.\<close> A request runs atomically, except where the code reads before its
  transaction: the creation of a run, of a structure and of a settlement is split into a part that
  reads and a part that writes, and other requests may run between the two. Rows are read in
  insertion order where the code names no order. Fuel appears in the formula tokenizer and parser, the
  component resolution and the hierarchy walk; it is the number of characters, tokens, components
  or people, and lemmas show that it never runs out. Text is ASCII. Columns \<open>numeric(6,2)\<close> of leave
  days are checked where the code writes a fresh value; an increment past the column's range, which
  the database would reject, is outside the model.

  \<^bold>\<open>Assumed of code that is not modelled.\<close> Validation of request bodies by the framework's decorators,
  and that each controller lists the guards of \<open>Guards\<close>; PostgreSQL's constraints where a comment of the code relies on them
  (the unique index on regular runs, the trigger that freezes finished items); decimal.js and
  ECMAScript numbers as documented.

  \<^bold>\<open>Not modelled.\<close> Names and labels joined in for display, sorting for display, PDF, spreadsheets and
  file storage, sending of mails (what is sent is recorded in an outbox), audit metadata beyond the
  action and its target, the dashboards and reports, and the web application.
\<close>

end
